(* ===== verification/Prelude.thy ===== *)
theory Prelude
  imports Complex_Main "HOL-Library.Word"
begin

text \<open>
  What the components share: Rust's \<open>str\<close> as a list of Unicode scalar values with its UTF-8
  length and the character classes of the standard library, results (\<open>Result<T, E>\<close>) as sums with
  early return, loops over a \<open>Vec\<close> that stop at the first error, and updating, removing and finding
  the first element of a \<open>Vec\<close> that satisfies a predicate. The two locales at the end state the
  contracts the components use again and again: a vector of records with a key, and a machine whose
  operations keep an invariant.
\<close>

section \<open>Collections of facts\<close>

named_theorems ok_simps \<open>rewriting of results that succeed\<close>
named_theorems inv_intros \<open>operations preserve an invariant\<close>

section \<open>Strings\<close>

text \<open>A Rust string is a sequence of Unicode scalar values; its \<open>len\<close> counts UTF-8 bytes.\<close>

type_synonym str = "nat list"

definition lit :: "string \<Rightarrow> str" where
  "lit s = map of_char s"

definition utf8_char :: "nat \<Rightarrow> nat list" where
  "utf8_char c =
    (if c < 128 then [c]
     else if c < 2048 then [192 + c div 64, 128 + c mod 64]
     else if c < 65536 then [224 + c div 4096, 128 + c div 64 mod 64, 128 + c mod 64]
     else [240 + c div 262144, 128 + c div 4096 mod 64, 128 + c div 64 mod 64, 128 + c mod 64])"

definition str_bytes :: "str \<Rightarrow> nat list" where
  "str_bytes s = concat (map utf8_char s)"

definition str_len :: "str \<Rightarrow> nat" where
  "str_len s = length (str_bytes s)"

text \<open>\<open>char::is_whitespace\<close> is Unicode's White\_Space; \<open>char::is_control\<close> is category Cc.\<close>

definition is_whitespace :: "nat \<Rightarrow> bool" where
  "is_whitespace c \<longleftrightarrow>
     (9 \<le> c \<and> c \<le> 13) \<or> c = 32 \<or> c = 133 \<or> c = 160 \<or> c = 5760 \<or> (8192 \<le> c \<and> c \<le> 8202)
     \<or> c = 8232 \<or> c = 8233 \<or> c = 8239 \<or> c = 8287 \<or> c = 12288"

definition is_control :: "nat \<Rightarrow> bool" where
  "is_control c \<longleftrightarrow> c < 32 \<or> (127 \<le> c \<and> c < 160)"

definition is_ascii_alphanumeric :: "nat \<Rightarrow> bool" where
  "is_ascii_alphanumeric b \<longleftrightarrow>
     (48 \<le> b \<and> b \<le> 57) \<or> (65 \<le> b \<and> b \<le> 90) \<or> (97 \<le> b \<and> b \<le> 122)"

definition trim :: "str \<Rightarrow> str" where
  "trim s = rev (dropWhile is_whitespace (rev (dropWhile is_whitespace s)))"

lemma lit_Nil [simp]: "lit '''' = []"
  by (simp add: lit_def)

lemma lit_inject [simp]: "lit s = lit t \<longleftrightarrow> s = t"
  unfolding lit_def by (rule inj_map_eq_map) (auto intro: injI)

lemma utf8_char_nonempty [simp]: "utf8_char c \<noteq> []"
  by (simp add: utf8_char_def)

lemma utf8_char_ascii: "(\<forall>b \<in> set (utf8_char c). b < 128) \<longleftrightarrow> c < 128"
  by (simp add: utf8_char_def)

lemma utf8_ascii: "c < 128 \<Longrightarrow> utf8_char c = [c]"
  by (simp add: utf8_char_def)

lemma str_bytes_Nil [simp]: "str_bytes [] = []"
  by (simp add: str_bytes_def)

lemma str_bytes_Cons [simp]: "str_bytes (c # s) = utf8_char c @ str_bytes s"
  by (simp add: str_bytes_def)

lemma str_len_Nil [simp]: "str_len [] = 0"
  by (simp add: str_len_def)

lemma str_bytes_eq_Nil [simp]: "str_bytes s = [] \<longleftrightarrow> s = []"
  by (cases s) auto

lemma length_le_str_len: "length s \<le> str_len s"
proof (induction s)
  case (Cons c s)
  have "Suc 0 \<le> length (utf8_char c)" by (simp add: Suc_le_eq)
  with Cons show ?case unfolding str_len_def by (simp del: utf8_char_nonempty)
qed simp

lemma ascii_bytes:
  assumes "\<forall>b \<in> set (str_bytes s). P b" and "\<And>b. P b \<Longrightarrow> b < 128"
  shows "str_bytes s = s"
  using assms(1)
proof (induction s)
  case (Cons c s)
  then have "\<forall>b \<in> set (utf8_char c). b < 128" using assms(2) by auto
  then have "c < 128" by (simp add: utf8_char_ascii)
  with Cons show ?case by (simp add: utf8_ascii)
qed simp

lemma str_bytes_ascii: "\<forall>c \<in> set s. c < 128 \<Longrightarrow> str_bytes s = s"
  by (induction s) (simp_all add: utf8_ascii)

lemma trim_eq_Nil: "trim s = [] \<longleftrightarrow> (\<forall>c \<in> set s. is_whitespace c)"
proof
  assume "trim s = []"
  then have tail: "\<forall>c \<in> set (dropWhile is_whitespace s). is_whitespace c"
    by (simp add: trim_def)
  have "dropWhile is_whitespace s = []"
  proof (rule ccontr)
    assume ne: "dropWhile is_whitespace s \<noteq> []"
    with tail have "is_whitespace (hd (dropWhile is_whitespace s))" by auto
    with hd_dropWhile [OF ne] show False by simp
  qed
  then show "\<forall>c \<in> set s. is_whitespace c" by simp
next
  assume "\<forall>c \<in> set s. is_whitespace c"
  then have "dropWhile is_whitespace s = []" by simp
  then show "trim s = []" unfolding trim_def by (simp only: rev.simps dropWhile.simps)
qed

text \<open>
  \<open>format!("{n}")\<close> and \<open>str::parse\<close> of unsigned integers: an optional plus sign, then digits, with
  an error when the value does not fit.
\<close>

fun decimal :: "nat \<Rightarrow> str" where
  "decimal n = (if n < 10 then [48 + n] else decimal (n div 10) @ [48 + n mod 10])"

declare decimal.simps [simp del]

definition strip_prefix :: "str \<Rightarrow> str \<Rightarrow> str option" where
  "strip_prefix p s = (if take (length p) s = p then Some (drop (length p) s) else None)"

definition is_ascii_digit :: "nat \<Rightarrow> bool" where
  "is_ascii_digit c \<longleftrightarrow> 48 \<le> c \<and> c \<le> 57"

definition digits_value :: "str \<Rightarrow> nat" where
  "digits_value ds = foldl (\<lambda>acc c. acc * 10 + (c - 48)) 0 ds"

definition strip_plus :: "str \<Rightarrow> str" where
  "strip_plus s = (case s of [] \<Rightarrow> [] | c # rest \<Rightarrow> if c = 43 \<and> rest \<noteq> [] then rest else s)"

definition parse_unsigned :: "nat \<Rightarrow> str \<Rightarrow> nat option" where
  "parse_unsigned bits s =
    (let ds = strip_plus s
     in if ds \<noteq> [] \<and> list_all is_ascii_digit ds \<and> digits_value ds < 2 ^ bits
        then Some (digits_value ds) else None)"

lemma decimal_digits: "decimal n \<noteq> []" "c \<in> set (decimal n) \<Longrightarrow> is_ascii_digit c"
proof -
  have "decimal n \<noteq> [] \<and> (\<forall>c \<in> set (decimal n). is_ascii_digit c)"
  proof (induction n rule: decimal.induct)
    case (1 n)
    then show ?case by (subst (1 2) decimal.simps) (auto simp: is_ascii_digit_def)
  qed
  then show "decimal n \<noteq> []" "c \<in> set (decimal n) \<Longrightarrow> is_ascii_digit c" by auto
qed

lemma digits_value_decimal: "digits_value (decimal n) = n"
proof (induction n rule: decimal.induct)
  case (1 n)
  then show ?case by (subst decimal.simps) (auto simp: digits_value_def)
qed

lemma strip_plus_digits: "list_all is_ascii_digit s \<Longrightarrow> strip_plus s = s"
  by (auto simp: strip_plus_def is_ascii_digit_def split: list.splits)

lemma parse_decimal: "n < 2 ^ bits \<Longrightarrow> parse_unsigned bits (decimal n) = Some n"
proof -
  assume "n < 2 ^ bits"
  moreover have "list_all is_ascii_digit (decimal n)" using decimal_digits by (auto simp: list_all_iff)
  ultimately show ?thesis
    using decimal_digits(1)
    by (simp add: parse_unsigned_def strip_plus_digits digits_value_decimal Let_def)
qed

lemma parse_unsigned_bound: "parse_unsigned bits s = Some n \<Longrightarrow> n < 2 ^ bits"
  by (auto simp: parse_unsigned_def Let_def split: if_splits)

text \<open>ASCII letters and their case.\<close>

definition is_ascii_uppercase :: "nat \<Rightarrow> bool" where
  "is_ascii_uppercase c \<longleftrightarrow> 65 \<le> c \<and> c \<le> 90"

definition is_ascii_lowercase :: "nat \<Rightarrow> bool" where
  "is_ascii_lowercase c \<longleftrightarrow> 97 \<le> c \<and> c \<le> 122"

definition ascii_lower :: "nat \<Rightarrow> nat" where
  "ascii_lower c = (if is_ascii_uppercase c then c + 32 else c)"

definition ascii_upper :: "nat \<Rightarrow> nat" where
  "ascii_upper c = (if is_ascii_lowercase c then c - 32 else c)"

definition eq_ignore_ascii_case :: "str \<Rightarrow> str \<Rightarrow> bool" where
  "eq_ignore_ascii_case s t \<longleftrightarrow> map ascii_lower s = map ascii_lower t"

text \<open>\<open>str::split\<close>, \<open>split_once\<close> and \<open>strip_suffix\<close>.\<close>

fun split_on :: "(nat \<Rightarrow> bool) \<Rightarrow> str \<Rightarrow> str list" where
  "split_on p [] = [[]]"
| "split_on p (c # cs) =
     (if p c then [] # split_on p cs
      else (case split_on p cs of [] \<Rightarrow> [[c]] | w # ws \<Rightarrow> (c # w) # ws))"

definition split_once :: "nat \<Rightarrow> str \<Rightarrow> (str \<times> str) option" where
  "split_once c s = (if c \<in> set s then Some (takeWhile (\<lambda>x. x \<noteq> c) s, drop 1 (dropWhile (\<lambda>x. x \<noteq> c) s)) else None)"

definition strip_suffix :: "str \<Rightarrow> str \<Rightarrow> str option" where
  "strip_suffix p s =
    (if length p \<le> length s \<and> drop (length s - length p) s = p then Some (take (length s - length p) s) else None)"

lemma split_on_ne [simp]: "split_on p s \<noteq> []"
  by (induction s) (auto split: list.splits)

lemma split_on_none: "\<forall>c \<in> set s. \<not> p c \<Longrightarrow> split_on p s = [s]"
  by (induction s) auto

lemma split_on_append:
  "\<forall>c \<in> set s. \<not> p c \<Longrightarrow> p c \<Longrightarrow> split_on p (s @ c # t) = s # split_on p t"
  by (induction s) auto

lemma split_once_append: "c \<notin> set s \<Longrightarrow> split_once c (s @ c # t) = Some (s, t)"
  by (induction s) (auto simp: split_once_def)

lemma split_once_none: "c \<notin> set s \<Longrightarrow> split_once c s = None"
  by (simp add: split_once_def)

lemma strip_prefix_append [simp]: "strip_prefix p (p @ s) = Some s"
  by (simp add: strip_prefix_def)

lemma strip_suffix_append [simp]: "strip_suffix p (s @ p) = Some s"
  by (simp add: strip_suffix_def)

lemma strip_prefix_Some: "strip_prefix p s = Some r \<longleftrightarrow> s = p @ r"
  unfolding strip_prefix_def by (metis append_eq_conv_conj append_take_drop_id option.distinct(1) option.inject)

lemma strip_suffix_Some: "strip_suffix p s = Some r \<longleftrightarrow> s = r @ p"
proof
  assume "strip_suffix p s = Some r"
  then show "s = r @ p"
    by (auto simp: strip_suffix_def split: if_splits) (metis append_take_drop_id)
qed simp

lemma strip_suffix_last: "strip_suffix [c] (s @ [d]) = (if c = d then Some s else None)"
  by (auto simp: strip_suffix_def)

section \<open>Results\<close>

text \<open>\<open>Result<T, E>\<close>: \<open>Inl\<close> is \<open>Err\<close>, \<open>Inr\<close> is \<open>Ok\<close>; \<open>and_then\<close> is the \<open>?\<close> operator.\<close>

definition and_then :: "'e + 'a \<Rightarrow> ('a \<Rightarrow> 'e + 'b) \<Rightarrow> 'e + 'b" where
  "and_then r f = (case r of Inl e \<Rightarrow> Inl e | Inr a \<Rightarrow> f a)"

definition or_else :: "'a option \<Rightarrow> 'a option \<Rightarrow> 'a option" where
  "or_else x y = (case x of None \<Rightarrow> y | Some a \<Rightarrow> Some a)"

definition ok_or :: "'a option \<Rightarrow> 'e \<Rightarrow> 'e + 'a" where
  "ok_or x e = (case x of None \<Rightarrow> Inl e | Some a \<Rightarrow> Inr a)"

lemma and_then_simps [simp]: "and_then (Inl e) f = Inl e" "and_then (Inr a) f = f a"
  by (simp_all add: and_then_def)

lemma and_then_Inr: "and_then r f = Inr b \<longleftrightarrow> (\<exists>a. r = Inr a \<and> f a = Inr b)"
  by (cases r) auto

lemma and_then_Inl: "and_then r f = Inl e \<longleftrightarrow> r = Inl e \<or> (\<exists>a. r = Inr a \<and> f a = Inl e)"
  by (cases r) auto

lemma and_then_assoc: "and_then (and_then r f) g = and_then r (\<lambda>a. and_then (f a) g)"
  by (cases r) auto

lemma if_Inl_Inr [simp]: "(if c then Inl e else r) = Inr x \<longleftrightarrow> \<not> c \<and> r = Inr x"
  by simp

lemma ok_or_Inr: "ok_or x e = Inr a \<longleftrightarrow> x = Some a"
  by (cases x) (auto simp: ok_or_def)

lemma ok_or_simps [simp]: "ok_or None e = Inl e" "ok_or (Some a) e = Inr a"
  by (simp_all add: ok_or_def)

text \<open>A \<open>for\<close> loop whose body may return an error.\<close>

fun for_each :: "('a \<Rightarrow> 'e + unit) \<Rightarrow> 'a list \<Rightarrow> 'e + unit" where
  "for_each f [] = Inr ()"
| "for_each f (x # xs) = and_then (f x) (\<lambda>_. for_each f xs)"

lemma for_each_ok: "for_each f xs = Inr () \<longleftrightarrow> (\<forall>x \<in> set xs. f x = Inr ())"
  by (induction xs) (auto simp: and_then_Inr)

lemma for_each_Inl: "for_each f xs = Inl e \<Longrightarrow> \<exists>x \<in> set xs. f x = Inl e"
  by (induction xs) (auto simp: and_then_Inl)

lemma for_each_append:
  "for_each f (xs @ ys) = and_then (for_each f xs) (\<lambda>_. for_each f ys)"
  by (induction xs) (auto simp: and_then_assoc)

section \<open>Vectors\<close>

text \<open>\<open>iter_mut().find(p)\<close> with an update, \<open>position(p)\<close> with \<open>remove\<close>, \<open>contains\<close>.\<close>

fun update_first :: "('a \<Rightarrow> bool) \<Rightarrow> ('a \<Rightarrow> 'a) \<Rightarrow> 'a list \<Rightarrow> 'a list option" where
  "update_first p f [] = None"
| "update_first p f (x # xs) =
     (if p x then Some (f x # xs) else map_option ((#) x) (update_first p f xs))"

fun remove_first :: "('a \<Rightarrow> bool) \<Rightarrow> 'a list \<Rightarrow> 'a list option" where
  "remove_first p [] = None"
| "remove_first p (x # xs) =
     (if p x then Some xs else map_option ((#) x) (remove_first p xs))"

fun position :: "('a \<Rightarrow> bool) \<Rightarrow> 'a list \<Rightarrow> nat option" where
  "position p [] = None"
| "position p (x # xs) = (if p x then Some 0 else map_option Suc (position p xs))"

lemma update_first_None: "update_first p f xs = None \<longleftrightarrow> (\<forall>x \<in> set xs. \<not> p x)"
  by (induction xs) auto

lemma remove_first_None: "remove_first p xs = None \<longleftrightarrow> (\<forall>x \<in> set xs. \<not> p x)"
  by (induction xs) auto

lemma update_first_Some:
  "update_first p f xs = Some ys \<Longrightarrow>
   \<exists>us x vs. xs = us @ x # vs \<and> ys = us @ f x # vs \<and> p x \<and> (\<forall>u \<in> set us. \<not> p u)"
proof (induction xs arbitrary: ys)
  case (Cons a xs)
  show ?case
  proof (cases "p a")
    case True
    with Cons.prems show ?thesis by (intro exI [of _ "[]"]) auto
  next
    case False
    with Cons.prems obtain zs where zs: "update_first p f xs = Some zs" "ys = a # zs" by auto
    from Cons.IH [OF zs(1)] obtain us x vs where
      "xs = us @ x # vs" "zs = us @ f x # vs" "p x" "\<forall>u \<in> set us. \<not> p u" by blast
    with zs(2) False show ?thesis by (intro exI [of _ "a # us"]) auto
  qed
qed simp

lemma remove_first_Some:
  "remove_first p xs = Some ys \<Longrightarrow>
   \<exists>us x vs. xs = us @ x # vs \<and> ys = us @ vs \<and> p x \<and> (\<forall>u \<in> set us. \<not> p u)"
proof (induction xs arbitrary: ys)
  case (Cons a xs)
  show ?case
  proof (cases "p a")
    case True
    with Cons.prems show ?thesis by (intro exI [of _ "[]"]) auto
  next
    case False
    with Cons.prems obtain zs where zs: "remove_first p xs = Some zs" "ys = a # zs" by auto
    from Cons.IH [OF zs(1)] obtain us x vs where
      "xs = us @ x # vs" "zs = us @ vs" "p x" "\<forall>u \<in> set us. \<not> p u" by blast
    with zs(2) False show ?thesis by (intro exI [of _ "a # us"]) auto
  qed
qed simp

lemma position_Some:
  "position p xs = Some i \<Longrightarrow> i < length xs \<and> p (xs ! i) \<and> (\<forall>j < i. \<not> p (xs ! j))"
proof (induction xs arbitrary: i)
  case (Cons a xs)
  then show ?case by (auto simp: nth_Cons less_Suc_eq_0_disj split: if_splits nat.splits)
qed simp

lemma position_None: "position p xs = None \<longleftrightarrow> (\<forall>x \<in> set xs. \<not> p x)"
  by (induction xs) auto

text \<open>\<open>min_by_key\<close> returns the first of the elements with the least key.\<close>

fun min_by_key :: "('a \<Rightarrow> 'k::linorder) \<Rightarrow> 'a list \<Rightarrow> 'a option" where
  "min_by_key f [] = None"
| "min_by_key f (x # xs) =
     (case min_by_key f xs of None \<Rightarrow> Some x | Some y \<Rightarrow> Some (if f y < f x then y else x))"

lemma min_by_key_None: "min_by_key f xs = None \<longleftrightarrow> xs = []"
  by (cases xs) (auto split: option.splits)

lemma min_by_key_Some: "min_by_key f xs = Some y \<Longrightarrow> y \<in> set xs \<and> (\<forall>x \<in> set xs. f y \<le> f x)"
  by (induction xs arbitrary: y) (fastforce split: option.splits if_splits simp: min_by_key_None)+

section \<open>Machine integers\<close>

type_synonym u8 = "8 word"
type_synonym u16 = "16 word"
type_synonym u32 = "32 word"
type_synonym u64 = "64 word"

text \<open>
  Plain \<open>+\<close>, \<open>-\<close>, \<open>*\<close> are the wrapping operations of a release build; the checked and saturating
  operations are written out.
\<close>

definition checked_add :: "'a::len word \<Rightarrow> 'a word \<Rightarrow> 'a word option" where
  "checked_add a b = (if unat a + unat b < 2 ^ LENGTH('a) then Some (a + b) else None)"

definition saturating_add :: "'a::len word \<Rightarrow> 'a word \<Rightarrow> 'a word" where
  "saturating_add a b = (if unat a + unat b < 2 ^ LENGTH('a) then a + b else -1)"

definition saturating_sub :: "'a::len word \<Rightarrow> 'a word \<Rightarrow> 'a word" where
  "saturating_sub a b = (if b \<le> a then a - b else 0)"

definition saturating_mul :: "'a::len word \<Rightarrow> 'a word \<Rightarrow> 'a word" where
  "saturating_mul a b = (if unat a * unat b < 2 ^ LENGTH('a) then a * b else -1)"

definition abs_diff :: "'a::len word \<Rightarrow> 'a word \<Rightarrow> 'a word" where
  "abs_diff a b = (if a < b then b - a else a - b)"

lemma unat_less_pow: "unat (w :: 'a::len word) < 2 ^ LENGTH('a)"
  by (rule unsigned_less)

lemma u16_bound: "unat (w :: u16) \<le> 65535"
  using unat_less_pow [of w] by simp

lemma checked_add_Some:
  "checked_add a b = Some c \<Longrightarrow> unat c = unat a + unat b"
  by (auto simp: checked_add_def unat_word_ariths split: if_splits)

lemma checked_add_None:
  "checked_add (a::'a::len word) b = None \<longleftrightarrow> 2 ^ LENGTH('a) \<le> unat a + unat b"
  by (auto simp: checked_add_def)

lemma unat_saturating_add:
  "unat (saturating_add (a::'a::len word) b) = min (unat a + unat b) (2 ^ LENGTH('a) - 1)"
  using unat_less_pow [of a] by (auto simp: saturating_add_def unat_word_ariths unsigned_minus_1_eq_mask mask_eq_exp_minus_1)

lemma unat_saturating_sub: "unat (saturating_sub a b) = unat a - unat b"
  by (auto simp: saturating_sub_def unat_sub word_le_nat_alt)

lemma unat_saturating_mul:
  "unat (saturating_mul (a::'a::len word) b) = min (unat a * unat b) (2 ^ LENGTH('a) - 1)"
  by (auto simp: saturating_mul_def unat_word_ariths unsigned_minus_1_eq_mask mask_eq_exp_minus_1)

lemma unat_abs_diff: "unat (abs_diff a b) = (if unat a < unat b then unat b - unat a else unat a - unat b)"
  by (auto simp: abs_diff_def unat_sub word_less_nat_alt word_le_nat_alt)

lemma unat_add_small:
  "unat (a::'a::len word) + unat b < 2 ^ LENGTH('a) \<Longrightarrow> unat (a + b) = unat a + unat b"
  by (simp add: unat_word_ariths)

lemma word_eq_unat: "(a::'a::len word) = b \<longleftrightarrow> unat a = unat b"
  by (metis word_unat_eq_iff)

lemma unat_ucast_16_32: "unat (ucast (w :: u16) :: u32) = unat w"
  using unat_less_pow [of w] by (simp add: unsigned_ucast_eq take_bit_nat_eq_self)

lemma unat_ucast_32_16: "unat (w :: u32) < 65536 \<Longrightarrow> unat (ucast w :: u16) = unat w"
  by (simp add: unsigned_ucast_eq take_bit_nat_eq_self)

lemma unat_of_nat_less: "n < 2 ^ LENGTH('a) \<Longrightarrow> unat (of_nat n :: 'a::len word) = n"
  by (simp add: unat_of_nat)

lemma unat_max: "unat (max a b) = max (unat a) (unat b)" and unat_min: "unat (min a b) = min (unat a) (unat b)"
  by (simp_all add: max_def min_def word_le_nat_alt)

lemma unat_plus_1: "(w::'a::len word) \<noteq> -1 \<Longrightarrow> unat (w + 1) = unat w + 1"
proof -
  assume "w \<noteq> -1"
  then have "1 + w \<noteq> 0" by (metis add.commute eq_neg_iff_add_eq_0)
  from unatSuc [OF this] show ?thesis by (simp add: add.commute)
qed

lemma less_plus_1: "(w::'a::len word) \<noteq> -1 \<Longrightarrow> v \<le> w \<Longrightarrow> v < w + 1"
  by (simp add: word_less_nat_alt word_le_nat_alt unat_plus_1)

section \<open>Contracts\<close>

lemma list_ex_key: "list_ex (\<lambda>x. key x = k) xs \<longleftrightarrow> k \<in> key ` set xs"
  by (auto simp: list_ex_iff)

lemma find_append: "find p (xs @ ys) = (case find p xs of None \<Rightarrow> find p ys | Some x \<Rightarrow> Some x)"
  by (induction xs) simp_all

text \<open>The record with a given key, as \<open>iter().find(|x| x.id == k)\<close> finds it.\<close>

definition lookup_key :: "('v \<Rightarrow> 'k) \<Rightarrow> 'v list \<Rightarrow> 'k \<Rightarrow> 'v option" where
  "lookup_key key xs k = find (\<lambda>x. key x = k) xs"

lemma lookup_key_Nil [simp]: "lookup_key key [] k = None"
  by (simp add: lookup_key_def)

lemma lookup_key_Cons: "lookup_key key (x # xs) k = (if key x = k then Some x else lookup_key key xs k)"
  by (simp add: lookup_key_def)

lemma lookup_key_None: "lookup_key key xs k = None \<longleftrightarrow> k \<notin> key ` set xs"
  by (auto simp: lookup_key_def find_None_iff)

lemma lookup_key_append:
  "lookup_key key (xs @ ys) k =
     (case lookup_key key xs k of None \<Rightarrow> lookup_key key ys k | Some x \<Rightarrow> Some x)"
  by (induction xs) (simp_all add: lookup_key_Cons)

lemma lookup_key_SomeD: "lookup_key key xs k = Some x \<Longrightarrow> x \<in> set xs \<and> key x = k"
  by (induction xs) (auto simp: lookup_key_Cons split: if_splits)

lemma lookup_key_Some:
  "distinct (map key xs) \<Longrightarrow> lookup_key key xs k = Some x \<longleftrightarrow> x \<in> set xs \<and> key x = k"
  by (induction xs) (auto simp: lookup_key_Cons)

text \<open>
  A \<open>Vec\<close> of records looked up by a key. The abstract value is the map from keys to records; the
  client may rely on it only while the keys are distinct.
\<close>

locale keyed_vec =
  fixes key :: "'v \<Rightarrow> 'k"
    and upd :: "'k \<Rightarrow> ('v \<Rightarrow> 'v) \<Rightarrow> 'v list \<Rightarrow> 'v list option"
    and del :: "'k \<Rightarrow> 'v list \<Rightarrow> 'v list option"
  assumes upd_miss: "upd k f xs = None \<longleftrightarrow> k \<notin> key ` set xs"
    and upd_hit: "upd k f xs = Some ys \<Longrightarrow>
      \<exists>us x vs. xs = us @ x # vs \<and> ys = us @ f x # vs \<and> key x = k"
    and del_miss: "del k xs = None \<longleftrightarrow> k \<notin> key ` set xs"
    and del_hit: "del k xs = Some ys \<Longrightarrow>
      \<exists>us x vs. xs = us @ x # vs \<and> ys = us @ vs \<and> key x = k"
begin

lemma upd_keys:
  assumes "\<And>x. key (f x) = key x" and "upd k f xs = Some ys"
  shows "map key ys = map key xs"
  using upd_hit [OF assms(2)] assms(1) by auto

lemma upd_miss_lookup: "upd k f xs = None \<longleftrightarrow> lookup_key key xs k = None"
  by (simp add: upd_miss lookup_key_None)

lemma del_miss_lookup: "del k xs = None \<longleftrightarrow> lookup_key key xs k = None"
  by (simp add: del_miss lookup_key_None)

lemma upd_lookup:
  assumes "distinct (map key xs)" "\<And>x. key (f x) = key x" "upd k f xs = Some ys"
  shows "lookup_key key ys = (lookup_key key xs)(k := map_option f (lookup_key key xs k))"
proof -
  obtain us x vs where xs: "xs = us @ x # vs" and ys: "ys = us @ f x # vs" and k: "key x = k"
    using upd_hit [OF assms(3)] by auto
  have "lookup_key key us k = None" "lookup_key key vs k = None"
    using assms(1) k unfolding xs by (auto simp: lookup_key_None)
  then show ?thesis
    unfolding xs ys by (simp add: lookup_key_append lookup_key_Cons assms(2) k
        fun_eq_iff split: option.splits)
qed

lemma del_lookup:
  assumes "distinct (map key xs)" "del k xs = Some ys"
  shows "lookup_key key ys = (lookup_key key xs)(k := None)"
proof -
  obtain us x vs where xs: "xs = us @ x # vs" and ys: "ys = us @ vs" and k: "key x = k"
    using del_hit [OF assms(2)] by auto
  have "lookup_key key us k = None" "lookup_key key vs k = None"
    using assms(1) k unfolding xs by (auto simp: lookup_key_None)
  then show ?thesis
    unfolding xs ys by (simp add: lookup_key_append lookup_key_Cons k
        fun_eq_iff split: option.splits)
qed

lemma upd_modify:
  assumes "distinct (map key xs)" "\<And>x. key (f x) = key x" "upd k f xs = Some ys"
  shows "\<exists>v. lookup_key key xs k = Some v \<and> lookup_key key ys = (lookup_key key xs)(k \<mapsto> f v)"
proof -
  have "lookup_key key xs k \<noteq> None" using assms(3) upd_miss_lookup [of k f xs] by simp
  then obtain v where "lookup_key key xs k = Some v" by blast
  with upd_lookup [OF assms] show ?thesis by simp
qed

lemma del_remove:
  assumes "distinct (map key xs)" "del k xs = Some ys"
  shows "\<exists>v. lookup_key key xs k = Some v \<and> lookup_key key ys = (lookup_key key xs)(k := None)"
proof -
  have "lookup_key key xs k \<noteq> None" using assms(2) del_miss_lookup [of k xs] by simp
  with del_lookup [OF assms] show ?thesis by blast
qed

lemma del_sub:
  assumes "del k xs = Some ys"
  shows "set ys \<subseteq> set xs" and "distinct (map key xs) \<Longrightarrow> distinct (map key ys)"
    and "length ys < length xs"
  using del_hit [OF assms] by auto

end

text \<open>
  A machine: a step function of an event, with an invariant every step the environment may take
  (\<open>ok\<close>) keeps. A run is allowed when each of its events is allowed in the state it meets.
\<close>

fun ok_run :: "('s \<Rightarrow> 'e \<Rightarrow> 's) \<Rightarrow> ('s \<Rightarrow> 'e \<Rightarrow> bool) \<Rightarrow> 's \<Rightarrow> 'e list \<Rightarrow> bool" where
  "ok_run step ok s [] = True"
| "ok_run step ok s (e # es) = (ok s e \<and> ok_run step ok (step s e) es)"

lemma ok_run_True [simp]: "ok_run step (\<lambda>_ _. True) s es"
  by (induction es arbitrary: s) simp_all

lemma ok_run_stateless [simp]: "ok_run step (\<lambda>_. ok) s es \<longleftrightarrow> list_all ok es"
  by (induction es arbitrary: s) simp_all

locale machine =
  fixes step :: "'s \<Rightarrow> 'e \<Rightarrow> 's" and ok :: "'s \<Rightarrow> 'e \<Rightarrow> bool" and inv :: "'s \<Rightarrow> bool"
  assumes step_inv: "inv s \<Longrightarrow> ok s e \<Longrightarrow> inv (step s e)"
begin

lemma run_inv: "inv s \<Longrightarrow> ok_run step ok s es \<Longrightarrow> inv (foldl step s es)"
  by (induction es arbitrary: s) (auto intro: step_inv)

lemma run_prefix: "ok_run step ok s (es @ fs) \<Longrightarrow> ok_run step ok s es"
  by (induction es arbitrary: s) auto

lemma run_inv_at: "inv s \<Longrightarrow> ok_run step ok s es \<Longrightarrow> inv (foldl step s (take n es))"
  using run_inv run_prefix [of s "take n es" "drop n es"] by simp

end

text \<open>A machine whose steps also respect a relation between the state before and after.\<close>

locale related_machine = machine step ok inv
  for step :: "'s \<Rightarrow> 'e \<Rightarrow> 's" and ok :: "'s \<Rightarrow> 'e \<Rightarrow> bool" and inv :: "'s \<Rightarrow> bool" +
  fixes rel :: "'s \<Rightarrow> 's \<Rightarrow> bool"
  assumes step_rel: "inv s \<Longrightarrow> ok s e \<Longrightarrow> rel s (step s e)"
    and rel_refl: "rel s s" and rel_trans: "rel s t \<Longrightarrow> rel t u \<Longrightarrow> rel s u"
begin

lemma run_rel: "inv s \<Longrightarrow> ok_run step ok s es \<Longrightarrow> rel s (foldl step s es)"
proof (induction es arbitrary: s)
  case (Cons e es)
  then have "rel s (step s e)" "rel (step s e) (foldl step (step s e) es)"
    by (auto intro: step_rel step_inv)
  then show ?case using rel_trans by simp
qed (simp add: rel_refl)

lemma ok_run_append: "ok_run step ok s (es @ fs) \<longleftrightarrow> ok_run step ok s es \<and> ok_run step ok (foldl step s es) fs"
  by (induction es arbitrary: s) auto

lemma run_rel_between:
  assumes "inv s" "ok_run step ok s es" "j \<le> k"
  shows "rel (foldl step s (take j es)) (foldl step s (take k es))"
proof -
  have e: "take k es = take j es @ take (k - j) (drop j es)"
    using take_add [of j "k - j" es] assms(3) by simp
  have "ok_run step ok s (take k es)" using assms(2) run_prefix [of s "take k es" "drop k es"] by simp
  then have "ok_run step ok (foldl step s (take j es)) (take (k - j) (drop j es))"
    unfolding e by (simp add: ok_run_append)
  with run_rel [OF run_inv_at [OF assms(1,2), of j] this] show ?thesis unfolding e by simp
qed

end

end
