(* ===== verification/Ieee.thy ===== *)
theory Ieee
  imports Prelude
begin

text \<open>
  Rust's floating-point values, as far as the program computes with them: not-a-number, the two
  infinities, and finite values as exact rationals (the two zeros are identified, which no
  comparison, product or rounding of the program tells apart). Comparisons follow IEEE 754;
  \<open>f32\<close> products and sums are rounded to the nearest binary32 value, ties to even.
\<close>

datatype ieee = FNan | FInf bool | FNum rat

type_synonym f64 = ieee
type_synonym f32 = ieee

section \<open>Comparisons\<close>

fun f_lt :: "ieee \<Rightarrow> ieee \<Rightarrow> bool" where
  "f_lt FNan _ = False"
| "f_lt _ FNan = False"
| "f_lt (FInf m) (FInf n) = (m \<and> \<not> n)"
| "f_lt (FInf m) (FNum _) = m"
| "f_lt (FNum _) (FInf n) = (\<not> n)"
| "f_lt (FNum a) (FNum b) = (a < b)"

fun f_le :: "ieee \<Rightarrow> ieee \<Rightarrow> bool" where
  "f_le FNan _ = False"
| "f_le _ FNan = False"
| "f_le (FInf m) (FInf n) = (m \<or> \<not> n)"
| "f_le (FInf m) (FNum _) = m"
| "f_le (FNum _) (FInf n) = (\<not> n)"
| "f_le (FNum a) (FNum b) = (a \<le> b)"

fun f_eq :: "ieee \<Rightarrow> ieee \<Rightarrow> bool" where
  "f_eq FNan _ = False"
| "f_eq _ FNan = False"
| "f_eq a b = (a = b)"

fun is_finite :: "ieee \<Rightarrow> bool" where
  "is_finite (FNum _) = True"
| "is_finite _ = False"

lemma is_finite_iff: "is_finite x \<longleftrightarrow> (\<exists>a. x = FNum a)"
  by (cases x) auto

section \<open>Rounding to binary32\<close>

definition f32_exponent :: "rat \<Rightarrow> int" where
  "f32_exponent x =
     (case find (\<lambda>e. 2 powi e \<le> x) (rev [-126..127]) of None \<Rightarrow> -126 | Some e \<Rightarrow> e)"

definition f32_quantum :: "rat \<Rightarrow> rat" where
  "f32_quantum x = 2 powi (f32_exponent \<bar>x\<bar> - 23)"

definition round_half_even :: "rat \<Rightarrow> int" where
  "round_half_even y =
     (let f = \<lfloor>y\<rfloor>; d = y - of_int f
      in if d < 1/2 then f else if 1/2 < d then f + 1 else if even f then f else f + 1)"

definition f32_round :: "rat \<Rightarrow> f32" where
  "f32_round x =
     (let q = f32_quantum x; r = of_int (round_half_even (x / q)) * q
      in if 2 ^ 128 \<le> \<bar>r\<bar> then FInf (r < 0) else FNum r)"

fun f32_mul :: "f32 \<Rightarrow> f32 \<Rightarrow> f32" where
  "f32_mul FNan _ = FNan"
| "f32_mul _ FNan = FNan"
| "f32_mul (FInf m) (FInf n) = FInf (m \<noteq> n)"
| "f32_mul (FInf m) (FNum b) = (if b = 0 then FNan else FInf (m \<noteq> (b < 0)))"
| "f32_mul (FNum a) (FInf n) = (if a = 0 then FNan else FInf (n \<noteq> (a < 0)))"
| "f32_mul (FNum a) (FNum b) = f32_round (a * b)"

fun f32_add :: "f32 \<Rightarrow> f32 \<Rightarrow> f32" where
  "f32_add FNan _ = FNan"
| "f32_add _ FNan = FNan"
| "f32_add (FInf m) (FInf n) = (if m = n then FInf m else FNan)"
| "f32_add (FInf m) (FNum _) = FInf m"
| "f32_add (FNum _) (FInf n) = FInf n"
| "f32_add (FNum a) (FNum b) = f32_round (a + b)"

fun f_neg :: "ieee \<Rightarrow> ieee" where
  "f_neg FNan = FNan"
| "f_neg (FInf m) = FInf (\<not> m)"
| "f_neg (FNum a) = FNum (- a)"

text \<open>\<open>f32::round\<close> (halves away from zero), \<open>clamp\<close>, and the casts between \<open>u16\<close> and \<open>f32\<close>.\<close>

fun f_round :: "ieee \<Rightarrow> ieee" where
  "f_round (FNum a) = FNum (of_int (if 0 \<le> a then \<lfloor>a + 1/2\<rfloor> else \<lceil>a - 1/2\<rceil>))"
| "f_round x = x"

definition f_clamp :: "ieee \<Rightarrow> ieee \<Rightarrow> ieee \<Rightarrow> ieee" where
  "f_clamp x lo hi = (if f_lt x lo then lo else if f_lt hi x then hi else x)"

definition f32_of_u16 :: "16 word \<Rightarrow> f32" where
  "f32_of_u16 w = FNum (of_nat (unat w))"

fun u16_of_f32 :: "f32 \<Rightarrow> 16 word" where
  "u16_of_f32 FNan = 0"
| "u16_of_f32 (FInf neg) = (if neg then 0 else 65535)"
| "u16_of_f32 (FNum a) =
     (let t = (if 0 \<le> a then \<lfloor>a\<rfloor> else \<lceil>a\<rceil>) in if t < 0 then 0 else if 65535 < t then 65535 else of_int t)"

section \<open>Bounds\<close>

lemma f32_exponent_le:
  assumes "x \<le> of_nat n" and "n < 2 ^ 16"
  shows "f32_exponent x \<le> 15"
proof (cases "find (\<lambda>e. 2 powi e \<le> x) (rev [-126..127])")
  case None
  then show ?thesis by (simp add: f32_exponent_def)
next
  case (Some e)
  then have "(2::rat) powi e \<le> x"
    by (auto simp: find_Some_iff)
  also have "\<dots> < of_nat (2 ^ 16)"
    using assms by (meson le_less_trans of_nat_less_iff)
  finally have "(2::rat) powi e < 2 powi 16" by (simp add: power_int_def)
  then have "e < 16" by (meson not_less one_le_numeral power_int_increasing)
  with Some show ?thesis by (simp add: f32_exponent_def)
qed

lemma round_half_even_le: "y \<le> of_int n \<Longrightarrow> round_half_even y \<le> n"
  unfolding round_half_even_def Let_def by (auto simp: floor_le_iff not_less; linarith)

lemma round_half_even_ge: "of_int n \<le> y \<Longrightarrow> n \<le> round_half_even y"
  unfolding round_half_even_def Let_def by (auto simp: le_floor_iff; linarith)

lemma f32_quantum_small:
  assumes "0 \<le> x" "x \<le> of_nat n" "n < 2 ^ 16"
  obtains k :: nat where "f32_quantum x = 1 / 2 ^ k"
proof -
  have "f32_exponent \<bar>x\<bar> - 23 \<le> 0" using f32_exponent_le [of x n] assms by simp
  then obtain k where "f32_exponent \<bar>x\<bar> - 23 = - int k" by (metis nonpos_int_cases)
  then have "f32_quantum x = 1 / 2 ^ k"
    by (simp add: f32_quantum_def power_int_minus inverse_eq_divide)
  then show ?thesis by (rule that)
qed

lemma f32_round_between:
  assumes "0 \<le> x" "x \<le> of_nat n" "n < 2 ^ 16"
  obtains r where "f32_round x = FNum r" "0 \<le> r" "r \<le> of_nat n"
proof -
  obtain k where q: "f32_quantum x = 1 / 2 ^ k" using f32_quantum_small assms by blast
  define m where "m = round_half_even (x / f32_quantum x)"
  have "x / f32_quantum x \<le> of_int (int n * 2 ^ k)"
    using assms(2) by (simp add: q mult_right_mono)
  then have up: "m \<le> int n * 2 ^ k" unfolding m_def by (rule round_half_even_le)
  have "of_int 0 \<le> x / f32_quantum x" using assms(1) by (simp add: q)
  then have low: "0 \<le> m" unfolding m_def by (rule round_half_even_ge)
  let ?r = "of_int m * f32_quantum x"
  have r0: "0 \<le> ?r" using low by (simp add: q)
  have "(of_int m :: rat) \<le> of_int (int n * 2 ^ k)" using up by (simp only: of_int_le_iff)
  then have rn: "?r \<le> of_nat n" by (simp add: q field_simps)
  also have "\<dots> < of_nat (2 ^ 16)" using assms(3) by (simp only: of_nat_less_iff)
  also have "\<dots> < (2::rat) ^ 128" by simp
  finally have "\<not> 2 ^ 128 \<le> \<bar>?r\<bar>" using r0 by simp
  then have "f32_round x = FNum ?r"
    by (simp add: f32_round_def Let_def m_def)
  then show ?thesis using r0 rn that by blast
qed

lemma u16_of_f32_round_le:
  assumes "0 \<le> r" "r \<le> of_nat (unat w)"
  shows "u16_of_f32 (f_round (FNum r)) \<le> w"
proof -
  have "0 \<le> \<lfloor>r + 1/2\<rfloor>" using assms(1) by (simp add: le_floor_iff)
  then obtain n where n: "\<lfloor>r + 1/2\<rfloor> = int n" by (metis nonneg_int_cases)
  have "int n \<le> int (unat w)" using assms(2) by (simp only: n [symmetric] floor_le_iff)
  then have le: "n \<le> unat w" by (simp only: of_nat_le_iff)
  with u16_bound [of w] have "n < 2 ^ LENGTH(16)" "n \<le> 65535" by simp_all
  then have "unat (u16_of_f32 (f_round (FNum r))) = n"
    using assms(1) by (simp add: n Let_def unat_of_nat)
  then show ?thesis using le by (simp add: word_le_nat_alt)
qed

text \<open>Evaluation: the exponent is the one the value lies in.\<close>

lemma f32_exponent_unique:
  assumes "2 powi e \<le> x" "x < 2 powi (e + 1)" "-126 \<le> e" "e \<le> 127"
  shows "f32_exponent x = e"
proof -
  let ?P = "\<lambda>e. (2::rat) powi e \<le> x"
  have P: "?P d \<longleftrightarrow> d \<le> e" for d
  proof
    assume "?P d"
    then have "(2::rat) powi d < 2 powi (e + 1)" using assms(2) by simp
    then show "d \<le> e" by (meson not_less one_le_numeral power_int_increasing zle_add1_eq_le)
  next
    assume "d \<le> e"
    then have "(2::rat) powi d \<le> 2 powi e" by (simp add: power_int_increasing)
    then show "?P d" using assms(1) by simp
  qed
  have "rev [-126..127] = rev [e + 1..127] @ rev [-126..e]"
    using assms(3,4) upto_split2 [of "-126" e 127] by (metis rev_append)
  moreover have "find ?P (rev [e + 1..127]) = None"
    by (auto simp: find_None_iff P)
  moreover have "rev [-126..e] = e # rev [-126..e - 1]"
    using assms(3) by (simp add: upto_rec2)
  ultimately have "find ?P (rev [-126..127]) = Some e"
    by (simp add: find_append P)
  then show ?thesis by (simp add: f32_exponent_def)
qed

lemma f32_round_eval:
  assumes "2 powi e \<le> \<bar>x\<bar>" "\<bar>x\<bar> < 2 powi (e + 1)" "-126 \<le> e" "e \<le> 127"
    and "r = of_int (round_half_even (x / 2 powi (e - 23))) * 2 powi (e - 23)" "\<bar>r\<bar> < 2 ^ 128"
  shows "f32_round x = FNum r"
  using f32_exponent_unique [OF assms(1-4)] assms(5,6)
  by (simp add: f32_round_def f32_quantum_def Let_def)

lemma floor_numeral_div: "\<lfloor>numeral a / numeral b :: rat\<rfloor> = numeral a div numeral b"
  using floor_divide_of_int_eq [of "numeral a" "numeral b", where ?'a = rat] by simp

lemma f32_one_tenth: "f32_round (1/10) = FNum (13421773 / 134217728)"
  by (rule f32_round_eval [where e = "-4"])
    (simp_all add: power_int_def round_half_even_def Let_def power_one_over floor_numeral_div)

lemma f32_nine_tenths: "f32_round (9/10) = FNum (15099494 / 16777216)"
  by (rule f32_round_eval [where e = "-1"])
    (simp_all add: power_int_def round_half_even_def Let_def power_one_over floor_numeral_div)

lemma f32_half: "f32_round (1/2) = FNum (1/2)"
  by (rule f32_round_eval [where e = "-1"])
    (simp_all add: power_int_def round_half_even_def Let_def power_one_over floor_numeral_div)

end
