(* ===== verification/Organization.thy ===== *)
theory Organization
  imports Ieee
begin

text \<open>
  The organization core (\<open>crates/teaser-core/src/lib.rs\<close>): a revisioned snapshot of projects,
  workspaces and panels, the commands that change it, the validator every step must pass, and
  \<open>applying\<close>, which prepares a complete next value or returns one error.
\<close>

section \<open>Data\<close>

record project =
  prj_id :: str
  prj_name :: str

record task_reference =
  task_provider :: str
  task_id :: str

record workspace =
  ws_id :: str
  ws_project_id :: str
  ws_name :: str
  ws_task :: "task_reference option"

datatype binding = Unbound | Terminal str | App str | Notes str

record aspect_ratio =
  ar_minimum :: f64
  ar_maximum :: f64

record size_profile =
  sp_name :: str
  min_width :: u32
  min_height :: u32
  preferred_width :: u32
  preferred_height :: u32
  growth_weight :: f64
  preferred_aspect_ratio :: aspect_ratio

record panel =
  pn_id :: str
  pn_workspace_id :: str
  pn_title :: str
  pn_kind :: str
  pn_binding :: binding
  pn_size_profile :: size_profile

record snapshot =
  revision :: u64
  projects :: "project list"
  workspaces :: "workspace list"
  panels :: "panel list"

datatype command =
    CreateProject project
  | RenameProject str str
  | DeleteProject str
  | CreateWorkspace workspace
  | RenameWorkspace str str
  | DeleteWorkspace str
  | SetWorkspaceTask str "task_reference option"
  | CreatePanel panel
  | RenamePanel str str
  | SetPanelKind str str
  | DeletePanel str
  | RegroupPanel str str
  | RebindPanel str binding
  | SetPanelSizeProfile str size_profile

record apply_request =
  expected_revision :: u64
  commands :: "command list"

datatype org_error =
    RevisionConflict | InvalidId | DuplicateId | UnknownObject | InvalidProfile | InvalidValue
  | ObjectNotEmpty | RevisionExhausted | LimitExceeded

fun error_code :: "org_error \<Rightarrow> str" where
  "error_code RevisionConflict = lit ''revision_conflict''"
| "error_code InvalidId = lit ''invalid_id''"
| "error_code DuplicateId = lit ''duplicate_id''"
| "error_code UnknownObject = lit ''unknown_object''"
| "error_code InvalidProfile = lit ''invalid_profile''"
| "error_code InvalidValue = lit ''invalid_value''"
| "error_code ObjectNotEmpty = lit ''object_not_empty''"
| "error_code RevisionExhausted = lit ''revision_exhausted''"
| "error_code LimitExceeded = lit ''limit_exceeded''"

section \<open>Validation\<close>

definition valid_text :: "str \<Rightarrow> org_error + unit" where
  "valid_text value =
    (if trim value = [] \<or> str_len value > 4096 \<or> list_ex is_control value
     then Inl InvalidValue else Inr ())"

definition id_byte :: "nat \<Rightarrow> bool" where
  "id_byte byte \<longleftrightarrow> is_ascii_alphanumeric byte \<or> byte \<in> set (lit ''-_.:'')"

definition bad_id :: "str \<Rightarrow> bool" where
  "bad_id i \<longleftrightarrow> i = [] \<or> str_len i > 128 \<or> \<not> list_all id_byte (str_bytes i)"

text \<open>The loop over the chained ids, with the \<open>HashSet\<close> of the ids seen so far.\<close>

fun check_ids :: "str set \<Rightarrow> str list \<Rightarrow> org_error + unit" where
  "check_ids ids [] = Inr ()"
| "check_ids ids (i # rest) =
     (if bad_id i then Inl InvalidId
      else if i \<in> ids then Inl DuplicateId
      else check_ids (insert i ids) rest)"

definition all_ids :: "snapshot \<Rightarrow> str list" where
  "all_ids s = map prj_id (projects s) @ map ws_id (workspaces s) @ map pn_id (panels s)"

definition check_workspace :: "snapshot \<Rightarrow> workspace \<Rightarrow> org_error + unit" where
  "check_workspace s w =
    and_then (valid_text (ws_name w)) (\<lambda>_.
      if \<not> list_ex (\<lambda>p. prj_id p = ws_project_id w) (projects s) then Inl UnknownObject
      else case ws_task w of
        None \<Rightarrow> Inr ()
      | Some task \<Rightarrow> and_then (valid_text (task_provider task)) (\<lambda>_. valid_text (task_id task)))"

definition check_binding :: "binding \<Rightarrow> org_error + unit" where
  "check_binding b =
    (case b of Unbound \<Rightarrow> Inr () | Terminal pane_id \<Rightarrow> valid_text pane_id
     | App bundle_id \<Rightarrow> valid_text bundle_id | Notes document_id \<Rightarrow> valid_text document_id)"

definition bad_profile :: "size_profile \<Rightarrow> bool" where
  "bad_profile p \<longleftrightarrow>
     valid_text (sp_name p) \<noteq> Inr ()
     \<or> min_width p = 0
     \<or> min_height p = 0
     \<or> preferred_width p < min_width p
     \<or> preferred_height p < min_height p
     \<or> preferred_width p > 1000000
     \<or> preferred_height p > 1000000
     \<or> \<not> is_finite (growth_weight p)
     \<or> f_le (growth_weight p) (FNum 0)
     \<or> f_lt (FNum 1000000) (growth_weight p)
     \<or> \<not> is_finite (ar_minimum (preferred_aspect_ratio p))
     \<or> \<not> is_finite (ar_maximum (preferred_aspect_ratio p))
     \<or> f_le (ar_minimum (preferred_aspect_ratio p)) (FNum 0)
     \<or> f_lt (ar_maximum (preferred_aspect_ratio p)) (ar_minimum (preferred_aspect_ratio p))"

definition check_panel :: "snapshot \<Rightarrow> panel \<Rightarrow> org_error + unit" where
  "check_panel s p =
    and_then (valid_text (pn_title p)) (\<lambda>_.
    and_then (valid_text (pn_kind p)) (\<lambda>_.
      if \<not> list_ex (\<lambda>w. ws_id w = pn_workspace_id p) (workspaces s) then Inl UnknownObject
      else and_then (check_binding (pn_binding p)) (\<lambda>_.
        if bad_profile (pn_size_profile p) then Inl InvalidProfile else Inr ())))"

definition validate :: "snapshot \<Rightarrow> org_error + unit" where
  "validate s =
    (if length (projects s) + length (workspaces s) + length (panels s) > 4096
     then Inl LimitExceeded
     else and_then (check_ids {} (all_ids s)) (\<lambda>_.
          and_then (for_each (\<lambda>p. valid_text (prj_name p)) (projects s)) (\<lambda>_.
          and_then (for_each (check_workspace s) (workspaces s)) (\<lambda>_.
          for_each (check_panel s) (panels s)))))"

section \<open>Commands\<close>

definition project_mut :: "str \<Rightarrow> (project \<Rightarrow> project) \<Rightarrow> project list \<Rightarrow> project list option" where
  "project_mut i f ps = update_first (\<lambda>p. prj_id p = i) f ps"

definition workspace_mut ::
  "str \<Rightarrow> (workspace \<Rightarrow> workspace) \<Rightarrow> workspace list \<Rightarrow> workspace list option" where
  "workspace_mut i f ws = update_first (\<lambda>w. ws_id w = i) f ws"

definition panel_mut :: "str \<Rightarrow> (panel \<Rightarrow> panel) \<Rightarrow> panel list \<Rightarrow> panel list option" where
  "panel_mut i f ps = update_first (\<lambda>p. pn_id p = i) f ps"

definition remove_project :: "str \<Rightarrow> project list \<Rightarrow> project list option" where
  "remove_project i ps = remove_first (\<lambda>p. prj_id p = i) ps"

definition remove_workspace :: "str \<Rightarrow> workspace list \<Rightarrow> workspace list option" where
  "remove_workspace i ws = remove_first (\<lambda>w. ws_id w = i) ws"

definition remove_panel :: "str \<Rightarrow> panel list \<Rightarrow> panel list option" where
  "remove_panel i ps = remove_first (\<lambda>p. pn_id p = i) ps"

definition put_projects :: "snapshot \<Rightarrow> project list option \<Rightarrow> org_error + snapshot" where
  "put_projects s r = and_then (ok_or r UnknownObject) (\<lambda>ps. Inr (s\<lparr>projects := ps\<rparr>))"

definition put_workspaces :: "snapshot \<Rightarrow> workspace list option \<Rightarrow> org_error + snapshot" where
  "put_workspaces s r = and_then (ok_or r UnknownObject) (\<lambda>ws. Inr (s\<lparr>workspaces := ws\<rparr>))"

definition put_panels :: "snapshot \<Rightarrow> panel list option \<Rightarrow> org_error + snapshot" where
  "put_panels s r = and_then (ok_or r UnknownObject) (\<lambda>ps. Inr (s\<lparr>panels := ps\<rparr>))"

fun execute :: "command \<Rightarrow> snapshot \<Rightarrow> org_error + snapshot" where
  "execute (CreateProject p) s = Inr (s\<lparr>projects := projects s @ [p]\<rparr>)"
| "execute (RenameProject i n) s = put_projects s (project_mut i (\<lambda>p. p\<lparr>prj_name := n\<rparr>) (projects s))"
| "execute (DeleteProject i) s =
     (if list_ex (\<lambda>w. ws_project_id w = i) (workspaces s) then Inl ObjectNotEmpty
      else put_projects s (remove_project i (projects s)))"
| "execute (CreateWorkspace w) s = Inr (s\<lparr>workspaces := workspaces s @ [w]\<rparr>)"
| "execute (RenameWorkspace i n) s =
     put_workspaces s (workspace_mut i (\<lambda>w. w\<lparr>ws_name := n\<rparr>) (workspaces s))"
| "execute (SetWorkspaceTask i t) s =
     put_workspaces s (workspace_mut i (\<lambda>w. w\<lparr>ws_task := t\<rparr>) (workspaces s))"
| "execute (DeleteWorkspace i) s =
     (if list_ex (\<lambda>p. pn_workspace_id p = i) (panels s) then Inl ObjectNotEmpty
      else put_workspaces s (remove_workspace i (workspaces s)))"
| "execute (CreatePanel p) s = Inr (s\<lparr>panels := panels s @ [p]\<rparr>)"
| "execute (RenamePanel i t) s = put_panels s (panel_mut i (\<lambda>p. p\<lparr>pn_title := t\<rparr>) (panels s))"
| "execute (SetPanelKind i k) s = put_panels s (panel_mut i (\<lambda>p. p\<lparr>pn_kind := k\<rparr>) (panels s))"
| "execute (DeletePanel i) s = put_panels s (remove_panel i (panels s))"
| "execute (RegroupPanel i w) s =
     put_panels s (panel_mut i (\<lambda>p. p\<lparr>pn_workspace_id := w\<rparr>) (panels s))"
| "execute (RebindPanel i b) s = put_panels s (panel_mut i (\<lambda>p. p\<lparr>pn_binding := b\<rparr>) (panels s))"
| "execute (SetPanelSizeProfile i sp) s =
     put_panels s (panel_mut i (\<lambda>p. p\<lparr>pn_size_profile := sp\<rparr>) (panels s))"

text \<open>The loop of \<open>applying\<close>: each command is executed and its result validated.\<close>

fun execute_all :: "command list \<Rightarrow> snapshot \<Rightarrow> org_error + snapshot" where
  "execute_all [] s = Inr s"
| "execute_all (c # cs) s =
     and_then (execute c s) (\<lambda>s'. and_then (validate s') (\<lambda>_. execute_all cs s'))"

definition applying :: "snapshot \<Rightarrow> apply_request \<Rightarrow> org_error + snapshot" where
  "applying s req =
    (if expected_revision req \<noteq> revision s then Inl RevisionConflict
     else if commands req = [] then Inl InvalidValue
     else if length (commands req) > 256 then Inl LimitExceeded
     else and_then (execute_all (commands req) s) (\<lambda>next.
          and_then (ok_or (checked_add (revision s) 1) RevisionExhausted) (\<lambda>r.
          Inr (next\<lparr>revision := r\<rparr>))))"

section \<open>What the validator accepts\<close>

definition text_ok :: "str \<Rightarrow> bool" where
  "text_ok v \<longleftrightarrow> (\<exists>c \<in> set v. \<not> is_whitespace c) \<and> str_len v \<le> 4096 \<and> (\<forall>c \<in> set v. \<not> is_control c)"

definition id_ok :: "str \<Rightarrow> bool" where
  "id_ok i \<longleftrightarrow> i \<noteq> [] \<and> length i \<le> 128 \<and> (\<forall>c \<in> set i. id_byte c)"

definition task_ok :: "task_reference \<Rightarrow> bool" where
  "task_ok t \<longleftrightarrow> text_ok (task_provider t) \<and> text_ok (task_id t)"

fun binding_ok :: "binding \<Rightarrow> bool" where
  "binding_ok Unbound = True"
| "binding_ok (Terminal i) = text_ok i"
| "binding_ok (App i) = text_ok i"
| "binding_ok (Notes i) = text_ok i"

definition profile_ok :: "size_profile \<Rightarrow> bool" where
  "profile_ok p \<longleftrightarrow>
     text_ok (sp_name p)
     \<and> 0 < unat (min_width p) \<and> min_width p \<le> preferred_width p \<and> preferred_width p \<le> 1000000
     \<and> 0 < unat (min_height p) \<and> min_height p \<le> preferred_height p \<and> preferred_height p \<le> 1000000
     \<and> (\<exists>g. growth_weight p = FNum g \<and> 0 < g \<and> g \<le> 1000000)
     \<and> (\<exists>lo hi. preferred_aspect_ratio p = \<lparr>ar_minimum = FNum lo, ar_maximum = FNum hi\<rparr>
          \<and> 0 < lo \<and> lo \<le> hi)"

text \<open>
  The specification of a well-formed snapshot: bounded, every identifier usable and used once over
  the three kinds of object, every reference resolved, every text printable.
\<close>

definition wf_snapshot :: "snapshot \<Rightarrow> bool" where
  "wf_snapshot s \<longleftrightarrow>
     length (all_ids s) \<le> 4096
     \<and> distinct (all_ids s) \<and> (\<forall>i \<in> set (all_ids s). id_ok i)
     \<and> (\<forall>p \<in> set (projects s). text_ok (prj_name p))
     \<and> (\<forall>w \<in> set (workspaces s). text_ok (ws_name w)
          \<and> ws_project_id w \<in> prj_id ` set (projects s)
          \<and> (\<forall>t. ws_task w = Some t \<longrightarrow> task_ok t))
     \<and> (\<forall>p \<in> set (panels s). text_ok (pn_title p) \<and> text_ok (pn_kind p)
          \<and> pn_workspace_id p \<in> ws_id ` set (workspaces s)
          \<and> binding_ok (pn_binding p) \<and> profile_ok (pn_size_profile p))"

lemma valid_text_ok [ok_simps]: "valid_text v = Inr () \<longleftrightarrow> text_ok v"
  by (auto simp: valid_text_def text_ok_def trim_eq_Nil list_ex_iff not_less)

lemma id_byte_ascii: "id_byte b \<Longrightarrow> b < 128"
  by (auto simp: id_byte_def is_ascii_alphanumeric_def lit_def)

lemma not_bad_id [ok_simps]: "\<not> bad_id i \<longleftrightarrow> id_ok i"
proof
  assume "\<not> bad_id i"
  then have b: "\<forall>b \<in> set (str_bytes i). id_byte b" "i \<noteq> []" "length (str_bytes i) \<le> 128"
    by (auto simp: bad_id_def list_all_iff str_len_def)
  have "str_bytes i = i" by (rule ascii_bytes [OF b(1) id_byte_ascii])
  with b show "id_ok i" by (simp add: id_ok_def)
next
  assume ok: "id_ok i"
  have "str_bytes i = i"
    using ok id_byte_ascii by (intro str_bytes_ascii) (auto simp: id_ok_def)
  with ok show "\<not> bad_id i" by (simp add: bad_id_def id_ok_def str_len_def list_all_iff)
qed

lemma check_ids_ok [ok_simps]:
  "check_ids seen is = Inr () \<longleftrightarrow>
     (\<forall>i \<in> set is. id_ok i) \<and> distinct is \<and> set is \<inter> seen = {}"
  by (induction seen "is" rule: check_ids.induct) (auto simp: not_bad_id [symmetric])

lemma check_workspace_ok [ok_simps]:
  "check_workspace s w = Inr () \<longleftrightarrow>
     text_ok (ws_name w) \<and> ws_project_id w \<in> prj_id ` set (projects s)
     \<and> (\<forall>t. ws_task w = Some t \<longrightarrow> task_ok t)"
  by (auto simp: check_workspace_def and_then_Inr ok_simps task_ok_def list_ex_key
      split: option.splits)

lemma check_binding_ok [ok_simps]: "check_binding b = Inr () \<longleftrightarrow> binding_ok b"
  by (cases b) (simp_all add: check_binding_def ok_simps)

lemma not_bad_profile [ok_simps]: "\<not> bad_profile p \<longleftrightarrow> profile_ok p"
proof (cases "preferred_aspect_ratio p")
  case (fields lo hi)
  then show ?thesis
    by (cases lo; cases hi; cases "growth_weight p")
      (auto simp: bad_profile_def profile_ok_def ok_simps not_le not_less unat_gt_0)
qed

lemma check_panel_ok [ok_simps]:
  "check_panel s p = Inr () \<longleftrightarrow>
     text_ok (pn_title p) \<and> text_ok (pn_kind p)
     \<and> pn_workspace_id p \<in> ws_id ` set (workspaces s)
     \<and> binding_ok (pn_binding p) \<and> profile_ok (pn_size_profile p)"
  by (simp add: check_panel_def and_then_Inr ok_simps list_ex_key)

lemma validate_ok [ok_simps]: "validate s = Inr () \<longleftrightarrow> wf_snapshot s"
  by (auto simp: validate_def wf_snapshot_def and_then_Inr for_each_ok ok_simps all_ids_def)

text \<open>
  C1: the validator decides well-formedness: it accepts a snapshot exactly when the snapshot is
  bounded, its identifiers are well formed and unique over projects, workspaces and panels, every
  reference resolves, and every text, binding and size profile is acceptable.
\<close>

theorem validate_iff_wf: "validate s = Inr () \<longleftrightarrow> wf_snapshot s"
  by (rule validate_ok)

section \<open>Vectors of objects looked up by id\<close>

interpretation prj: keyed_vec prj_id project_mut remove_project
  by unfold_locales (auto simp: project_mut_def remove_project_def update_first_None
      remove_first_None dest!: update_first_Some remove_first_Some)

interpretation wsp: keyed_vec ws_id workspace_mut remove_workspace
  by unfold_locales (auto simp: workspace_mut_def remove_workspace_def update_first_None
      remove_first_None dest!: update_first_Some remove_first_Some)

interpretation pnl: keyed_vec pn_id panel_mut remove_panel
  by unfold_locales (auto simp: panel_mut_def remove_panel_def update_first_None
      remove_first_None dest!: update_first_Some remove_first_Some)

lemma put_projects_Inr [ok_simps]:
  "put_projects s r = Inr s' \<longleftrightarrow> (\<exists>ps. r = Some ps \<and> s' = s\<lparr>projects := ps\<rparr>)"
  by (auto simp: put_projects_def and_then_Inr ok_or_Inr)

lemma put_workspaces_Inr [ok_simps]:
  "put_workspaces s r = Inr s' \<longleftrightarrow> (\<exists>ws. r = Some ws \<and> s' = s\<lparr>workspaces := ws\<rparr>)"
  by (auto simp: put_workspaces_def and_then_Inr ok_or_Inr)

lemma put_panels_Inr [ok_simps]:
  "put_panels s r = Inr s' \<longleftrightarrow> (\<exists>ps. r = Some ps \<and> s' = s\<lparr>panels := ps\<rparr>)"
  by (auto simp: put_panels_def and_then_Inr ok_or_Inr)

lemma execute_revision: "execute c s = Inr s' \<Longrightarrow> revision s' = revision s"
  by (cases c) (auto simp: ok_simps split: if_splits)

lemma execute_all_revision: "execute_all cs s = Inr s' \<Longrightarrow> revision s' = revision s"
  by (induction cs arbitrary: s) (auto simp: and_then_Inr dest: execute_revision)

lemma execute_all_wf:
  "execute_all cs s = Inr s' \<Longrightarrow> cs \<noteq> [] \<or> wf_snapshot s \<Longrightarrow> wf_snapshot s'"
  by (induction cs arbitrary: s) (fastforce simp: and_then_Inr ok_simps)+

lemma execute_all_append:
  "execute_all (cs @ ds) s = and_then (execute_all cs s) (execute_all ds)"
  by (induction cs arbitrary: s) (simp_all add: and_then_assoc)

lemma wf_revision [simp]: "wf_snapshot (s\<lparr>revision := r\<rparr>) = wf_snapshot s"
  by (simp add: wf_snapshot_def all_ids_def)

lemma applying_Inr:
  "applying s req = Inr s' \<longleftrightarrow>
     expected_revision req = revision s \<and> commands req \<noteq> [] \<and> length (commands req) \<le> 256
     \<and> (\<exists>next r. execute_all (commands req) s = Inr next
          \<and> checked_add (revision s) 1 = Some r \<and> s' = next\<lparr>revision := r\<rparr>)"
  by (auto simp: applying_def and_then_Inr ok_or_Inr)

text \<open>
  C2: an applied request yields a well-formed snapshot, whatever the snapshot it started from, and
  the revision grows by exactly one, without wrapping.
\<close>

theorem applying_wf:
  assumes "applying s req = Inr s'"
  shows "wf_snapshot s' \<and> unat (revision s') = unat (revision s) + 1"
  using assms execute_all_wf checked_add_Some by (fastforce simp: applying_Inr)

text \<open>
  C3: optimistic concurrency: of two requests made against the same revision, the second is refused
  with a revision conflict once the first has been applied, whatever their commands.
\<close>

theorem applying_conflict:
  assumes "applying s r1 = Inr s1" and "expected_revision r2 = expected_revision r1"
  shows "applying s1 r2 = Inl RevisionConflict"
proof -
  from assms(1) have "unat (revision s1) = unat (revision s) + 1" "expected_revision r1 = revision s"
    using checked_add_Some by (fastforce simp: applying_Inr)+
  then have "expected_revision r2 \<noteq> revision s1" using assms(2) by auto
  then show ?thesis by (simp add: applying_def)
qed

section \<open>Identity\<close>

fun creates_or_deletes :: "command \<Rightarrow> bool" where
  "creates_or_deletes (CreateProject _) = True"
| "creates_or_deletes (DeleteProject _) = True"
| "creates_or_deletes (CreateWorkspace _) = True"
| "creates_or_deletes (DeleteWorkspace _) = True"
| "creates_or_deletes (CreatePanel _) = True"
| "creates_or_deletes (DeletePanel _) = True"
| "creates_or_deletes _ = False"

lemma upd_projects_ids:
  assumes "put_projects s (project_mut i f (projects s)) = Inr s'" "\<And>x. prj_id (f x) = prj_id x"
  shows "all_ids s' = all_ids s"
  using assms(1) prj.upd_keys [where f = f, OF assms(2), of i] by (auto simp: ok_simps all_ids_def)

lemma upd_workspaces_ids:
  assumes "put_workspaces s (workspace_mut i f (workspaces s)) = Inr s'" "\<And>x. ws_id (f x) = ws_id x"
  shows "all_ids s' = all_ids s"
  using assms(1) wsp.upd_keys [where f = f, OF assms(2), of i] by (auto simp: ok_simps all_ids_def)

lemma upd_panels_ids:
  assumes "put_panels s (panel_mut i f (panels s)) = Inr s'" "\<And>x. pn_id (f x) = pn_id x"
  shows "all_ids s' = all_ids s"
  using assms(1) pnl.upd_keys [where f = f, OF assms(2), of i] by (auto simp: ok_simps all_ids_def)

lemma execute_ids:
  assumes "\<not> creates_or_deletes c" "execute c s = Inr s'"
  shows "all_ids s' = all_ids s"
  using assms by (cases c) (simp_all add: upd_projects_ids upd_workspaces_ids upd_panels_ids)

lemma execute_all_ids:
  "execute_all cs s = Inr s' \<Longrightarrow> (\<And>c. c \<in> set cs \<Longrightarrow> \<not> creates_or_deletes c) \<Longrightarrow>
   all_ids s' = all_ids s"
proof (induction cs arbitrary: s)
  case (Cons c cs)
  then obtain t where "execute c s = Inr t" "execute_all cs t = Inr s'"
    by (auto simp: and_then_Inr)
  with Cons show ?case by (metis execute_ids list.set_intros)
qed simp

text \<open>
  Renaming, regrouping, rebinding, retyping and resizing keep every object's identity and
  position: a request made of such commands leaves the sequence of identifiers unchanged.
\<close>

theorem applying_keeps_identity:
  assumes "applying s req = Inr s'" and "\<And>c. c \<in> set (commands req) \<Longrightarrow> \<not> creates_or_deletes c"
  shows "all_ids s' = all_ids s"
proof -
  obtain n r where n: "execute_all (commands req) s = Inr n" "s' = n\<lparr>revision := r\<rparr>"
    using assms(1) by (auto simp: applying_Inr)
  have "all_ids n = all_ids s" using execute_all_ids n(1) assms(2) by blast
  then show ?thesis by (simp add: n(2) all_ids_def)
qed

section \<open>Refinement of an object graph\<close>

text \<open>
  The abstract organization: three finite maps from identifiers to objects. A command is a map
  update guarded by existence, freshness and emptiness; the order of the vectors, the revision and
  the limits are details of the implementation.
\<close>

record org_graph =
  g_projects :: "str \<rightharpoonup> project"
  g_workspaces :: "str \<rightharpoonup> workspace"
  g_panels :: "str \<rightharpoonup> panel"

definition graph :: "snapshot \<Rightarrow> org_graph" where
  "graph s = \<lparr>g_projects = lookup_key prj_id (projects s),
              g_workspaces = lookup_key ws_id (workspaces s),
              g_panels = lookup_key pn_id (panels s)\<rparr>"

definition g_ids :: "org_graph \<Rightarrow> str set" where
  "g_ids g = dom (g_projects g) \<union> dom (g_workspaces g) \<union> dom (g_panels g)"

definition g_modify :: "str \<Rightarrow> ('v \<Rightarrow> 'v) \<Rightarrow> (str \<rightharpoonup> 'v) \<Rightarrow> org_error + (str \<rightharpoonup> 'v)" where
  "g_modify i f m = (case m i of None \<Rightarrow> Inl UnknownObject | Some v \<Rightarrow> Inr (m(i \<mapsto> f v)))"

definition g_remove :: "str \<Rightarrow> (str \<rightharpoonup> 'v) \<Rightarrow> org_error + (str \<rightharpoonup> 'v)" where
  "g_remove i m = (case m i of None \<Rightarrow> Inl UnknownObject | Some v \<Rightarrow> Inr (m(i := None)))"

definition on_projects where
  "on_projects h g = and_then (h (g_projects g)) (\<lambda>m. Inr (g\<lparr>g_projects := m\<rparr>))"

definition on_workspaces where
  "on_workspaces h g = and_then (h (g_workspaces g)) (\<lambda>m. Inr (g\<lparr>g_workspaces := m\<rparr>))"

definition on_panels where
  "on_panels h g = and_then (h (g_panels g)) (\<lambda>m. Inr (g\<lparr>g_panels := m\<rparr>))"

fun graph_exec :: "command \<Rightarrow> org_graph \<Rightarrow> org_error + org_graph" where
  "graph_exec (CreateProject p) g =
     (if prj_id p \<in> g_ids g then Inl DuplicateId
      else Inr (g\<lparr>g_projects := (g_projects g)(prj_id p \<mapsto> p)\<rparr>))"
| "graph_exec (RenameProject i n) g = on_projects (g_modify i (\<lambda>p. p\<lparr>prj_name := n\<rparr>)) g"
| "graph_exec (DeleteProject i) g =
     (if \<exists>w \<in> ran (g_workspaces g). ws_project_id w = i then Inl ObjectNotEmpty
      else on_projects (g_remove i) g)"
| "graph_exec (CreateWorkspace w) g =
     (if ws_id w \<in> g_ids g then Inl DuplicateId
      else Inr (g\<lparr>g_workspaces := (g_workspaces g)(ws_id w \<mapsto> w)\<rparr>))"
| "graph_exec (RenameWorkspace i n) g = on_workspaces (g_modify i (\<lambda>w. w\<lparr>ws_name := n\<rparr>)) g"
| "graph_exec (SetWorkspaceTask i t) g = on_workspaces (g_modify i (\<lambda>w. w\<lparr>ws_task := t\<rparr>)) g"
| "graph_exec (DeleteWorkspace i) g =
     (if \<exists>p \<in> ran (g_panels g). pn_workspace_id p = i then Inl ObjectNotEmpty
      else on_workspaces (g_remove i) g)"
| "graph_exec (CreatePanel p) g =
     (if pn_id p \<in> g_ids g then Inl DuplicateId
      else Inr (g\<lparr>g_panels := (g_panels g)(pn_id p \<mapsto> p)\<rparr>))"
| "graph_exec (RenamePanel i t) g = on_panels (g_modify i (\<lambda>p. p\<lparr>pn_title := t\<rparr>)) g"
| "graph_exec (SetPanelKind i k) g = on_panels (g_modify i (\<lambda>p. p\<lparr>pn_kind := k\<rparr>)) g"
| "graph_exec (DeletePanel i) g = on_panels (g_remove i) g"
| "graph_exec (RegroupPanel i w) g = on_panels (g_modify i (\<lambda>p. p\<lparr>pn_workspace_id := w\<rparr>)) g"
| "graph_exec (RebindPanel i b) g = on_panels (g_modify i (\<lambda>p. p\<lparr>pn_binding := b\<rparr>)) g"
| "graph_exec (SetPanelSizeProfile i sp) g =
     on_panels (g_modify i (\<lambda>p. p\<lparr>pn_size_profile := sp\<rparr>)) g"

fun graph_run :: "command list \<Rightarrow> org_graph \<Rightarrow> org_error + org_graph" where
  "graph_run [] g = Inr g"
| "graph_run (c # cs) g = and_then (graph_exec c g) (graph_run cs)"

lemma wf_distinct:
  assumes "wf_snapshot s"
  shows "distinct (map prj_id (projects s))" "distinct (map ws_id (workspaces s))"
    "distinct (map pn_id (panels s))"
  using assms by (auto simp: wf_snapshot_def all_ids_def)

lemma dom_lookup_key: "dom (lookup_key k xs) = k ` set xs"
  using lookup_key_None [of k xs] by (auto simp: dom_def)

lemma g_ids_graph: "g_ids (graph s) = set (all_ids s)"
  by (simp add: g_ids_def graph_def all_ids_def dom_lookup_key Un_assoc)

lemma ran_lookup_key: "distinct (map k xs) \<Longrightarrow> ran (lookup_key k xs) = set xs"
  by (auto simp: ran_def lookup_key_Some)

lemma refine_upd_projects:
  assumes "distinct (map prj_id (projects s))" "\<And>x. prj_id (f x) = prj_id x"
    and "put_projects s (project_mut i f (projects s)) = Inr s'"
  shows "on_projects (g_modify i f) (graph s) = Inr (graph s')"
  using assms(3) prj.upd_modify [OF assms(1,2), of i]
  by (fastforce simp: ok_simps on_projects_def g_modify_def graph_def)

lemma refine_del_projects:
  assumes "distinct (map prj_id (projects s))"
    and "put_projects s (remove_project i (projects s)) = Inr s'"
  shows "on_projects (g_remove i) (graph s) = Inr (graph s')"
  using assms(2) prj.del_remove [OF assms(1), of i]
  by (fastforce simp: ok_simps on_projects_def g_remove_def graph_def)

lemma refine_upd_workspaces:
  assumes "distinct (map ws_id (workspaces s))" "\<And>x. ws_id (f x) = ws_id x"
    and "put_workspaces s (workspace_mut i f (workspaces s)) = Inr s'"
  shows "on_workspaces (g_modify i f) (graph s) = Inr (graph s')"
  using assms(3) wsp.upd_modify [OF assms(1,2), of i]
  by (fastforce simp: ok_simps on_workspaces_def g_modify_def graph_def)

lemma refine_del_workspaces:
  assumes "distinct (map ws_id (workspaces s))"
    and "put_workspaces s (remove_workspace i (workspaces s)) = Inr s'"
  shows "on_workspaces (g_remove i) (graph s) = Inr (graph s')"
  using assms(2) wsp.del_remove [OF assms(1), of i]
  by (fastforce simp: ok_simps on_workspaces_def g_remove_def graph_def)

lemma refine_upd_panels:
  assumes "distinct (map pn_id (panels s))" "\<And>x. pn_id (f x) = pn_id x"
    and "put_panels s (panel_mut i f (panels s)) = Inr s'"
  shows "on_panels (g_modify i f) (graph s) = Inr (graph s')"
  using assms(3) pnl.upd_modify [OF assms(1,2), of i]
  by (fastforce simp: ok_simps on_panels_def g_modify_def graph_def)

lemma refine_del_panels:
  assumes "distinct (map pn_id (panels s))"
    and "put_panels s (remove_panel i (panels s)) = Inr s'"
  shows "on_panels (g_remove i) (graph s) = Inr (graph s')"
  using assms(2) pnl.del_remove [OF assms(1), of i]
  by (fastforce simp: ok_simps on_panels_def g_remove_def graph_def)

lemmas refine_all =
  refine_upd_projects refine_del_projects refine_upd_workspaces refine_del_workspaces
  refine_upd_panels refine_del_panels

lemma lookup_key_snoc:
  "k x \<notin> k ` set xs \<Longrightarrow> lookup_key k (xs @ [x]) = (lookup_key k xs)(k x \<mapsto> x)"
  by (induction xs) (auto simp: lookup_key_Cons fun_eq_iff)

lemma execute_refines:
  assumes wf: "wf_snapshot s" and ex: "execute c s = Inr s'" and wf': "wf_snapshot s'"
  shows "graph_exec c (graph s) = Inr (graph s')"
proof (cases c)
  case (CreateProject p)
  with ex have s': "s' = s\<lparr>projects := projects s @ [p]\<rparr>" by simp
  with wf' have "distinct (all_ids s')" by (simp add: wf_snapshot_def)
  then have fresh: "prj_id p \<notin> set (all_ids s)" by (auto simp: s' all_ids_def)
  then have "prj_id p \<notin> prj_id ` set (projects s)" by (auto simp: all_ids_def)
  with fresh CreateProject s' show ?thesis by (simp add: g_ids_graph) (simp add: graph_def lookup_key_snoc)
next
  case (CreateWorkspace w)
  with ex have s': "s' = s\<lparr>workspaces := workspaces s @ [w]\<rparr>" by simp
  with wf' have "distinct (all_ids s')" by (simp add: wf_snapshot_def)
  then have fresh: "ws_id w \<notin> set (all_ids s)" by (auto simp: s' all_ids_def)
  then have "ws_id w \<notin> ws_id ` set (workspaces s)" by (auto simp: all_ids_def)
  with fresh CreateWorkspace s' show ?thesis by (simp add: g_ids_graph) (simp add: graph_def lookup_key_snoc)
next
  case (CreatePanel p)
  with ex have s': "s' = s\<lparr>panels := panels s @ [p]\<rparr>" by simp
  with wf' have "distinct (all_ids s')" by (simp add: wf_snapshot_def)
  then have fresh: "pn_id p \<notin> set (all_ids s)" by (auto simp: s' all_ids_def)
  then have "pn_id p \<notin> pn_id ` set (panels s)" by (auto simp: all_ids_def)
  with fresh CreatePanel s' show ?thesis by (simp add: g_ids_graph) (simp add: graph_def lookup_key_snoc)
next
  case (DeleteProject i)
  with ex wf_distinct [OF wf] have "\<not> (\<exists>w \<in> ran (g_workspaces (graph s)). ws_project_id w = i)"
    by (auto simp: graph_def ran_lookup_key list_ex_iff split: if_splits)
  with ex DeleteProject wf_distinct [OF wf] show ?thesis
    by (simp add: refine_all split: if_splits)
next
  case (DeleteWorkspace i)
  with ex wf_distinct [OF wf] have "\<not> (\<exists>p \<in> ran (g_panels (graph s)). pn_workspace_id p = i)"
    by (auto simp: graph_def ran_lookup_key list_ex_iff split: if_splits)
  with ex DeleteWorkspace wf_distinct [OF wf] show ?thesis
    by (simp add: refine_all split: if_splits)
qed (use ex wf_distinct [OF wf] in
      \<open>simp_all add: refine_all\<close>)

lemma execute_all_refines:
  "wf_snapshot s \<Longrightarrow> execute_all cs s = Inr s' \<Longrightarrow> graph_run cs (graph s) = Inr (graph s')"
  by (induction cs arbitrary: s) (auto simp: and_then_Inr ok_simps execute_refines)

text \<open>
  C4: refinement: on a well-formed snapshot, an applied request does to the object graph exactly
  what its commands do to the three maps, in order.
\<close>

theorem applying_refines_graph:
  assumes "wf_snapshot s" and "applying s req = Inr s'"
  shows "graph_run (commands req) (graph s) = Inr (graph s')"
proof -
  from assms(2) obtain n r where n: "execute_all (commands req) s = Inr n" "s' = n\<lparr>revision := r\<rparr>"
    by (auto simp: applying_Inr)
  have "graph s' = graph n" by (simp add: n(2) graph_def)
  with execute_all_refines [OF assms(1) n(1)] show ?thesis by simp
qed

section \<open>A concrete organization\<close>

definition demo_profile :: size_profile where
  "demo_profile = \<lparr>sp_name = lit ''notes'', min_width = 1, min_height = 1, preferred_width = 3,
     preferred_height = 2, growth_weight = FNum 1,
     preferred_aspect_ratio = \<lparr>ar_minimum = FNum 1, ar_maximum = FNum 2\<rparr>\<rparr>"

definition demo_panel :: panel where
  "demo_panel = \<lparr>pn_id = lit ''panel'', pn_workspace_id = lit ''one'', pn_title = lit ''Notes'',
     pn_kind = lit ''notes'', pn_binding = Notes (lit ''doc''), pn_size_profile = demo_profile\<rparr>"

definition demo :: snapshot where
  "demo = \<lparr>revision = 5,
     projects = [\<lparr>prj_id = lit ''project'', prj_name = lit ''Teaser''\<rparr>],
     workspaces =
       [\<lparr>ws_id = lit ''one'', ws_project_id = lit ''project'', ws_name = lit ''One'', ws_task = None\<rparr>,
        \<lparr>ws_id = lit ''two'', ws_project_id = lit ''project'', ws_name = lit ''Two'',
          ws_task = Some \<lparr>task_provider = lit ''linear'', task_id = lit ''P-623''\<rparr>\<rparr>],
     panels = [demo_panel]\<rparr>"

definition demo_request :: apply_request where
  "demo_request = \<lparr>expected_revision = 5,
     commands = [RegroupPanel (lit ''panel'') (lit ''two''),
                 RebindPanel (lit ''panel'') (App (lit ''com.example''))]\<rparr>"

definition demo_next :: snapshot where
  "demo_next = demo\<lparr>revision := 6,
     panels := [demo_panel\<lparr>pn_workspace_id := lit ''two'',
       pn_binding := App (lit ''com.example'')\<rparr>]\<rparr>"


lemma demo_texts:
  "text_ok (lit ''Teaser'')" "text_ok (lit ''One'')" "text_ok (lit ''Two'')" "text_ok (lit ''linear'')"
  "text_ok (lit ''P-623'')" "text_ok (lit ''Notes'')" "text_ok (lit ''notes'')" "text_ok (lit ''doc'')"
  "text_ok (lit ''com.example'')"
  by (simp_all add: text_ok_def lit_def is_whitespace_def is_control_def str_len_def utf8_char_def)

lemma demo_ids:
  "id_ok (lit ''project'')" "id_ok (lit ''one'')" "id_ok (lit ''two'')" "id_ok (lit ''panel'')"
  by (simp_all add: id_ok_def lit_def id_byte_def is_ascii_alphanumeric_def)

lemma demo_profile_ok: "profile_ok demo_profile"
  by (simp add: profile_ok_def demo_profile_def demo_texts)

lemma demo_panels_wf:
  assumes "pn_id p = lit ''panel''" "pn_workspace_id p \<in> {lit ''one'', lit ''two''}"
    "pn_title p = lit ''Notes''" "pn_kind p = lit ''notes''" "binding_ok (pn_binding p)"
    "pn_size_profile p = demo_profile"
  shows "wf_snapshot (demo\<lparr>panels := [p]\<rparr>)"
  using assms
  by (auto simp: wf_snapshot_def demo_def all_ids_def demo_texts demo_ids demo_profile_ok task_ok_def)

lemma demo_wf: "wf_snapshot demo"
  using demo_panels_wf [of demo_panel] by (simp add: demo_panel_def demo_texts demo_def)

lemma demo_applying: "applying demo demo_request = Inr demo_next"
proof -
  let ?p = "demo_panel\<lparr>pn_workspace_id := lit ''two''\<rparr>"
  let ?q = "?p\<lparr>pn_binding := App (lit ''com.example'')\<rparr>"
  have 1: "execute (RegroupPanel (lit ''panel'') (lit ''two'')) demo = Inr (demo\<lparr>panels := [?p]\<rparr>)"
    by (simp add: put_panels_def panel_mut_def demo_def demo_panel_def)
  have 2: "execute (RebindPanel (lit ''panel'') (App (lit ''com.example''))) (demo\<lparr>panels := [?p]\<rparr>)
      = Inr (demo\<lparr>panels := [?q]\<rparr>)"
    by (simp add: put_panels_def panel_mut_def demo_def demo_panel_def)
  have "wf_snapshot (demo\<lparr>panels := [?p]\<rparr>)" "wf_snapshot (demo\<lparr>panels := [?q]\<rparr>)"
    by (rule demo_panels_wf; simp add: demo_panel_def demo_texts)+
  then have "validate (demo\<lparr>panels := [?p]\<rparr>) = Inr ()" "validate (demo\<lparr>panels := [?q]\<rparr>) = Inr ()"
    by (simp_all only: validate_ok)
  with 1 2 have "execute_all (commands demo_request) demo = Inr (demo\<lparr>panels := [?q]\<rparr>)"
    by (simp only: demo_request_def apply_request.simps execute_all.simps and_then_simps)
  then show ?thesis
    by (simp add: applying_def) (simp add: demo_request_def demo_def demo_next_def demo_panel_def checked_add_def)
qed

theorem applying_wf_witness:
  "applying demo demo_request = Inr demo_next
   \<and> wf_snapshot demo_next \<and> unat (revision demo_next) = unat (revision demo) + 1"
  using demo_applying applying_wf [OF demo_applying] by blast

theorem applying_conflict_witness:
  "applying demo demo_request = Inr demo_next
   \<and> applying demo_next demo_request = Inl RevisionConflict"
  using demo_applying applying_conflict [OF demo_applying refl] by blast

theorem applying_keeps_identity_witness:
  "applying demo demo_request = Inr demo_next \<and> all_ids demo_next = all_ids demo"
proof -
  have "\<And>c. c \<in> set (commands demo_request) \<Longrightarrow> \<not> creates_or_deletes c"
    by (auto simp: demo_request_def)
  then show ?thesis using demo_applying applying_keeps_identity [OF demo_applying] by blast
qed

theorem applying_refines_graph_witness:
  "wf_snapshot demo \<and> applying demo demo_request = Inr demo_next
   \<and> graph_run (commands demo_request) (graph demo) = Inr (graph demo_next)"
  using demo_wf demo_applying applying_refines_graph [OF demo_wf demo_applying] by blast

end
