(* ===== verification/EventHub.thy ===== *)
theory EventHub
  imports Prelude
begin

text \<open>
  The hub that buffers events for polling clients (\<open>api/event_hub.rs\<close>): a 64-bit sequence counter
  and the most recent 512 events with their sequence numbers. The mutex is never poisoned, since no
  holder panics; the event type is a parameter.
\<close>

section \<open>State and operations\<close>

record 'e event_hub =
  next_sequence :: u64
  events :: "(u64 \<times> 'e) list"

definition max_events :: nat where
  "max_events = 512"

definition hub_new :: "'e event_hub" where
  "hub_new = \<lparr>next_sequence = 0, events = []\<rparr>"

definition hub_push :: "'e event_hub \<Rightarrow> 'e \<Rightarrow> 'e event_hub" where
  "hub_push hub event =
    (let sequence = next_sequence hub + 1;
         es = events hub @ [(sequence, event)];
         overflow = length es - max_events
     in hub\<lparr>next_sequence := sequence, events := (if overflow > 0 then drop overflow es else es)\<rparr>)"

definition events_after :: "'e event_hub \<Rightarrow> u64 \<Rightarrow> (u64 \<times> 'e) list" where
  "events_after hub sequence = filter (\<lambda>(s, _). s > sequence) (events hub)"

definition current_sequence :: "'e event_hub \<Rightarrow> u64" where
  "current_sequence hub = next_sequence hub"

section \<open>What the hub holds\<close>

definition last_n :: "nat \<Rightarrow> 'a list \<Rightarrow> 'a list" where
  "last_n n xs = drop (length xs - n) xs"

lemma last_n_snoc: "0 < n \<Longrightarrow> last_n n (last_n n xs @ [x]) = last_n n (xs @ [x])"
  by (cases "n \<le> length xs") (auto simp: last_n_def Suc_diff_le)

lemma hub_push_last_n:
  "hub_push hub e = \<lparr>next_sequence = next_sequence hub + 1,
     events = last_n max_events (events hub @ [(next_sequence hub + 1, e)])\<rparr>"
  by (cases hub) (simp add: hub_push_def last_n_def Let_def del: length_append)

definition numbered :: "'e list \<Rightarrow> (u64 \<times> 'e) list" where
  "numbered es = map (\<lambda>(i, e). (of_nat i, e)) (List.enumerate 1 es)"

lemma numbered_snoc: "numbered (es @ [e]) = numbered es @ [(of_nat (length es) + 1, e)]"
  by (simp add: numbered_def enumerate_append_eq add.commute)

lemma push_all:
  "foldl hub_push hub_new es = \<lparr>next_sequence = of_nat (length es), events = last_n max_events (numbered es)\<rparr>"
proof (induction es rule: rev_induct)
  case Nil
  then show ?case by (simp add: hub_new_def numbered_def last_n_def)
next
  case (snoc e es)
  have "last_n max_events (last_n max_events (numbered es) @ [(of_nat (length es) + 1, e)])
      = last_n max_events (numbered (es @ [e]))"
    unfolding numbered_snoc by (rule last_n_snoc) (simp add: max_events_def)
  then show ?case
    unfolding foldl_append foldl_Cons foldl_Nil snoc.IH unfolding hub_push_last_n by (simp add: add.commute)
qed

lemma length_numbered [simp]: "length (numbered es) = length es"
  by (simp add: numbered_def)

lemma numbered_nth: "i < length es \<Longrightarrow> numbered es ! i = (of_nat (Suc i), es ! i)"
  by (simp add: numbered_def nth_enumerate_eq)

lemma numbered_sequence:
  assumes "length es < 2 ^ 64" "i < length es"
  shows "fst (numbered es ! i) > seen \<longleftrightarrow> unat seen \<le> i"
proof -
  have "unat (of_nat (Suc i) :: u64) = Suc i" using assms by (intro unat_of_nat_less) simp
  then show ?thesis using assms(2) by (simp add: numbered_nth word_less_nat_alt less_Suc_eq_le del: of_nat_Suc)
qed

text \<open>The events a poll returns, from the position the buffer starts at.\<close>

lemma numbered_after:
  assumes "length es < 2 ^ 64"
  shows "filter (\<lambda>(n, _). n > seen) (drop k (numbered es)) = drop (max k (unat seen)) (numbered es)"
proof -
  let ?P = "\<lambda>x. fst x > seen" and ?xs = "drop k (numbered es)" and ?m = "unat seen - k"
  have "filter ?P (take ?m ?xs) = []"
  proof (rule filter_False, rule ballI)
    fix x assume "x \<in> set (take ?m ?xs)"
    then obtain i where "i < ?m" "k + i < length es" "x = numbered es ! (k + i)"
      by (auto simp: in_set_conv_nth)
    then show "\<not> ?P x" using numbered_sequence [OF assms, of "k + i" seen] by simp
  qed
  moreover have "filter ?P (drop ?m ?xs) = drop ?m ?xs"
  proof (rule filter_True, rule ballI)
    fix x assume "x \<in> set (drop ?m ?xs)"
    then obtain i where "i < length es - (k + ?m)" "x = numbered es ! (k + ?m + i)"
      by (auto simp: in_set_conv_nth add.commute add.left_commute)
    then show "?P x" using numbered_sequence [OF assms, of "k + ?m + i" seen] by simp
  qed
  moreover have "filter ?P ?xs = filter ?P (take ?m ?xs) @ filter ?P (drop ?m ?xs)"
    by (simp only: filter_append [symmetric] append_take_drop_id)
  moreover have "k + ?m = max k (unat seen)" by simp
  moreover have "(\<lambda>(n, _ :: 'a). n > seen) = ?P" by auto
  ultimately show ?thesis by (simp add: add.commute)
qed

text \<open>
  C7: a client that has seen the events up to a sequence number and asks again before 512 more were
  pushed gets every event since, each once and in order, with the last sequence number equal to the
  current one; one that asks later gets the newest 512.
\<close>

theorem hub_delivers:
  assumes "length es < 2 ^ 64" "unat seen \<le> length es"
  shows "current_sequence (foldl hub_push hub_new es) = of_nat (length es)
    \<and> map snd (events_after (foldl hub_push hub_new es) seen)
      = (if length es - unat seen \<le> max_events then drop (unat seen) es else last_n max_events es)"
proof -
  let ?k = "length es - max_events"
  have snd: "map snd (numbered es) = es" by (simp add: numbered_def comp_def case_prod_beta)
  have "map snd (events_after (foldl hub_push hub_new es) seen) = drop (max ?k (unat seen)) es"
    by (simp add: push_all events_after_def last_n_def numbered_after [OF assms(1)] drop_map [symmetric] snd)
  moreover have "length es - unat seen \<le> max_events \<longleftrightarrow> ?k \<le> unat seen" by linarith
  ultimately show ?thesis by (simp add: current_sequence_def push_all last_n_def max_def)
qed

theorem hub_delivers_witness:
  "map snd (events_after (foldl hub_push hub_new [10, 20, 30 :: nat]) 1) = [20, 30]"
  using hub_delivers [of "[10, 20, 30 :: nat]" 1] by (simp add: max_events_def)

end
