(* ===== verification/OrgService.thy ===== *)
theory OrgService
  imports Organization EventHub
begin

text \<open>
  The organization as the server keeps it (\<open>app/api/organization.rs\<close>): reconciling terminal bindings
  with the panes that exist, applying requests, and publishing every change. The set of public ids
  of live terminal panes is an argument of the operations (\<open>organization_terminal_panes\<close> reads it
  off the workspaces), and so is the size of a snapshot as JSON. Scheduling the session save and the
  encoding of responses are I/O; a response here is its result or its error code and message.
\<close>

section \<open>State\<close>

record org_state =
  organization :: snapshot
  session_dirty :: bool
  hub :: "snapshot event_hub"

datatype org_response = RespSnapshot snapshot | RespError str str

definition max_organization_bytes :: nat where
  "max_organization_bytes = 1048576"

section \<open>Operations\<close>

definition organization_changed :: "org_state \<Rightarrow> org_state" where
  "organization_changed st =
     st\<lparr>session_dirty := True, hub := hub_push (hub st) (organization st)\<rparr>"

definition stale :: "str set \<Rightarrow> panel \<Rightarrow> bool" where
  "stale available p \<longleftrightarrow>
     (case pn_binding p of Terminal pane_id \<Rightarrow> pane_id \<notin> available | _ \<Rightarrow> False)"

definition unbind :: "str set \<Rightarrow> panel \<Rightarrow> panel" where
  "unbind available p = (if stale available p then p\<lparr>pn_binding := Unbound\<rparr> else p)"

definition clear_organization_bindings :: "str set \<Rightarrow> org_state \<Rightarrow> org_state" where
  "clear_organization_bindings available st =
    (let org = organization st;
         changed = list_ex (stale available) (panels org);
         org' = org\<lparr>panels := map (unbind available) (panels org)\<rparr>
     in if changed
        then organization_changed (st\<lparr>organization := org'\<lparr>revision := saturating_add (revision org) 1\<rparr>\<rparr>)
        else st\<lparr>organization := org'\<rparr>)"

definition is_terminal :: "panel \<Rightarrow> bool" where
  "is_terminal p \<longleftrightarrow> (case pn_binding p of Terminal _ \<Rightarrow> True | _ \<Rightarrow> False)"

definition reconcile_organization_bindings :: "str set \<Rightarrow> org_state \<Rightarrow> org_state" where
  "reconcile_organization_bindings available st =
    (if \<not> list_ex is_terminal (panels (organization st)) then st
     else clear_organization_bindings available st)"

definition clear_restored_organization_bindings :: "org_state \<Rightarrow> org_state" where
  "clear_restored_organization_bindings st = clear_organization_bindings {} st"

definition handle_organization_snapshot :: "str set \<Rightarrow> org_state \<Rightarrow> org_response \<times> org_state" where
  "handle_organization_snapshot available st =
    (let st' = reconcile_organization_bindings available st in (RespSnapshot (organization st'), st'))"

text \<open>The binding a command states explicitly.\<close>

definition explicit_binding :: "command \<Rightarrow> binding option" where
  "explicit_binding c =
    (case c of CreatePanel p \<Rightarrow> Some (pn_binding p) | RebindPanel _ b \<Rightarrow> Some b | _ \<Rightarrow> None)"

definition bad_binding :: "str set \<Rightarrow> command \<Rightarrow> bool" where
  "bad_binding available c \<longleftrightarrow>
     (case explicit_binding c of Some (Terminal pane_id) \<Rightarrow> pane_id \<notin> available | _ \<Rightarrow> False)"

definition handle_organization_apply ::
  "(snapshot \<Rightarrow> str + nat) \<Rightarrow> str set \<Rightarrow> apply_request \<Rightarrow> org_state \<Rightarrow> org_response \<times> org_state" where
  "handle_organization_apply json available params st0 =
    (let st = reconcile_organization_bindings available st0 in
     case applying (organization st) params of
       Inl e \<Rightarrow> (RespError (error_code e) (error_code e), st)
     | Inr next \<Rightarrow>
         if list_ex (bad_binding available) (commands params)
         then (RespError (lit ''invalid_binding'') (lit ''terminal pane does not exist''), st)
         else case json next of
           Inl e \<Rightarrow> (RespError (lit ''invalid_value'') e, st)
         | Inr len \<Rightarrow>
             if len > max_organization_bytes
             then (RespError (lit ''limit_exceeded'') (lit ''organization exceeds 1 MiB''), st)
             else let st' = organization_changed (st\<lparr>organization := next\<rparr>)
                  in (RespSnapshot (organization st'), st'))"

section \<open>Live bindings\<close>

definition bindings_live :: "str set \<Rightarrow> snapshot \<Rightarrow> bool" where
  "bindings_live available s \<longleftrightarrow> (\<forall>p \<in> set (panels s). \<not> stale available p)"

lemma unbind_live: "\<not> stale available (unbind available p)"
  by (simp add: unbind_def stale_def split: binding.split)

lemma unbind_fields [simp]:
  "pn_id (unbind a p) = pn_id p" "pn_workspace_id (unbind a p) = pn_workspace_id p"
  "pn_title (unbind a p) = pn_title p" "pn_kind (unbind a p) = pn_kind p"
  "pn_size_profile (unbind a p) = pn_size_profile p"
  by (simp_all add: unbind_def)

lemma unbind_binding_ok: "binding_ok (pn_binding p) \<Longrightarrow> binding_ok (pn_binding (unbind a p))"
  by (simp add: unbind_def)

lemma unbind_id: "\<not> list_ex (stale a) ps \<Longrightarrow> map (unbind a) ps = ps"
  by (induction ps) (simp_all add: unbind_def)

lemma wf_unbind: "wf_snapshot s \<Longrightarrow> wf_snapshot (s\<lparr>panels := map (unbind a) (panels s)\<rparr>)"
  by (auto simp: wf_snapshot_def all_ids_def comp_def unbind_binding_ok)

lemma not_terminal_live: "\<not> list_ex is_terminal (panels s) \<Longrightarrow> bindings_live a s"
  by (auto simp: bindings_live_def list_ex_iff is_terminal_def stale_def split: binding.splits)

text \<open>
  Reconciling unbinds exactly the stale panels; the revision moves (as far as it can) and the change
  is published only if there was one.
\<close>

lemma reconcile_organization:
  "organization (reconcile_organization_bindings a st) =
     (if list_ex (stale a) (panels (organization st))
      then (organization st)\<lparr>panels := map (unbind a) (panels (organization st)),
             revision := saturating_add (revision (organization st)) 1\<rparr>
      else organization st)"
proof -
  have "\<not> list_ex is_terminal (panels (organization st)) \<Longrightarrow> \<not> list_ex (stale a) (panels (organization st))"
    using not_terminal_live [of "organization st" a] by (auto simp: bindings_live_def list_ex_iff)
  then show ?thesis
    by (auto simp: reconcile_organization_bindings_def clear_organization_bindings_def Let_def
        organization_changed_def unbind_id)
qed

lemma reconcile_live: "bindings_live a (organization (reconcile_organization_bindings a st))"
  by (auto simp: reconcile_organization bindings_live_def unbind_live list_ex_iff)

lemma reconcile_wf: "wf_snapshot (organization st) \<Longrightarrow> wf_snapshot (organization (reconcile_organization_bindings a st))"
  using wf_unbind [of "organization st" a] by (simp add: reconcile_organization)

lemma reconcile_hub:
  "hub (reconcile_organization_bindings a st) =
     (if list_ex (stale a) (panels (organization st))
      then hub_push (hub st) (organization (reconcile_organization_bindings a st)) else hub st)"
proof -
  have "\<not> list_ex is_terminal (panels (organization st)) \<Longrightarrow> \<not> list_ex (stale a) (panels (organization st))"
    using not_terminal_live [of "organization st" a] by (auto simp: bindings_live_def list_ex_iff)
  then show ?thesis
    by (auto simp: reconcile_organization_bindings_def clear_organization_bindings_def Let_def
        organization_changed_def)
qed

text \<open>Where the bindings of the panels come from when commands are executed.\<close>

lemma update_first_set: "update_first p f xs = Some ys \<Longrightarrow> set ys \<subseteq> f ` set xs \<union> set xs"
  by (auto dest!: update_first_Some)

lemma remove_first_set: "remove_first p xs = Some ys \<Longrightarrow> set ys \<subseteq> set xs"
  by (auto dest!: remove_first_Some)

lemma panel_mut_live:
  assumes "panel_mut i f ps = Some qs" "\<And>p. \<not> stale a p \<Longrightarrow> \<not> stale a (f p)"
    and "\<forall>p \<in> set ps. \<not> stale a p"
  shows "\<forall>p \<in> set qs. \<not> stale a p"
  using update_first_set [OF assms(1) [unfolded panel_mut_def]] assms(2,3) by blast

lemma execute_live:
  assumes "execute c s = Inr s'" "bindings_live a s" "\<not> bad_binding a c"
  shows "bindings_live a s'"
proof -
  have live: "\<forall>p \<in> set (panels s). \<not> stale a p" using assms(2) by (simp add: bindings_live_def)
  consider (same) "set (panels s') \<subseteq> set (panels s)"
    | (new) p where "c = CreatePanel p" "panels s' = panels s @ [p]"
    | (mut) i f where "panel_mut i f (panels s) = Some (panels s')" "\<And>p. \<not> stale a p \<Longrightarrow> \<not> stale a (f p)"
  proof (cases c)
    case (RebindPanel i b)
    then have "\<not> stale a p \<Longrightarrow> \<not> stale a (p\<lparr>pn_binding := b\<rparr>)" for p
      using assms(3) by (simp add: bad_binding_def explicit_binding_def stale_def)
    moreover have "panel_mut i (\<lambda>p. p\<lparr>pn_binding := b\<rparr>) (panels s) = Some (panels s')"
      using assms(1) RebindPanel by (auto simp: ok_simps)
    ultimately show ?thesis using mut by blast
  next
    case (RenamePanel i t)
    then have "panel_mut i (\<lambda>p. p\<lparr>pn_title := t\<rparr>) (panels s) = Some (panels s')"
      using assms(1) by (auto simp: ok_simps)
    then show ?thesis by (rule mut) (simp add: stale_def)
  next
    case (SetPanelKind i k)
    then have "panel_mut i (\<lambda>p. p\<lparr>pn_kind := k\<rparr>) (panels s) = Some (panels s')"
      using assms(1) by (auto simp: ok_simps)
    then show ?thesis by (rule mut) (simp add: stale_def)
  next
    case (RegroupPanel i w)
    then have "panel_mut i (\<lambda>p. p\<lparr>pn_workspace_id := w\<rparr>) (panels s) = Some (panels s')"
      using assms(1) by (auto simp: ok_simps)
    then show ?thesis by (rule mut) (simp add: stale_def)
  next
    case (SetPanelSizeProfile i sp)
    then have "panel_mut i (\<lambda>p. p\<lparr>pn_size_profile := sp\<rparr>) (panels s) = Some (panels s')"
      using assms(1) by (auto simp: ok_simps)
    then show ?thesis by (rule mut) (simp add: stale_def)
  next
    case (DeletePanel i)
    then have "set (panels s') \<subseteq> set (panels s)"
      using assms(1) by (auto simp: ok_simps remove_panel_def dest!: remove_first_set)
    then show ?thesis by (rule same)
  next
    case (CreatePanel p)
    then show ?thesis using assms(1) by (intro new) auto
  qed (use assms(1) same in \<open>auto simp: ok_simps split: if_splits\<close>)
  then show ?thesis
  proof cases
    case new
    then show ?thesis using live assms(3)
      by (auto simp: bindings_live_def bad_binding_def explicit_binding_def stale_def)
  next
    case mut
    from panel_mut_live [OF mut live] show ?thesis by (simp add: bindings_live_def)
  qed (use live in \<open>auto simp: bindings_live_def\<close>)
qed

lemma execute_all_live:
  "execute_all cs s = Inr s' \<Longrightarrow> bindings_live a s \<Longrightarrow> \<not> list_ex (bad_binding a) cs \<Longrightarrow> bindings_live a s'"
  by (induction cs arbitrary: s) (auto simp: and_then_Inr dest: execute_live)

lemma applying_live:
  assumes "applying s req = Inr s'" "bindings_live a s" "\<not> list_ex (bad_binding a) (commands req)"
  shows "bindings_live a s'"
  using assms execute_all_live by (auto simp: applying_Inr bindings_live_def)

text \<open>
  C5: a request is all or nothing. When it is answered with an error the organization is what
  reconciling alone makes of it and nothing else is published; when it is answered with a snapshot,
  that is the reconciled organization with all its commands applied, stored and published as the
  last event, no larger than the limit, and without a binding to a terminal that does not exist.
\<close>

theorem apply_all_or_nothing:
  fixes json a req st
  defines "base \<equiv> reconcile_organization_bindings a st"
  shows "case handle_organization_apply json a req st of
      (RespError code message, st') \<Rightarrow> st' = base
    | (RespSnapshot s, st') \<Rightarrow>
        applying (organization base) req = Inr s \<and> organization st' = s \<and> session_dirty st'
        \<and> hub st' = hub_push (hub base) s \<and> bindings_live a s
        \<and> (\<exists>len. json s = Inr len \<and> len \<le> max_organization_bytes)"
proof (cases "applying (organization base) req")
  case (Inl e)
  then show ?thesis by (simp add: handle_organization_apply_def base_def [symmetric])
next
  case (Inr s)
  have "bindings_live a (organization base)" unfolding base_def by (rule reconcile_live)
  with Inr have live: "\<not> list_ex (bad_binding a) (commands req) \<Longrightarrow> bindings_live a s" by (rule applying_live)
  then show ?thesis
    using Inr
    by (auto simp: handle_organization_apply_def base_def [symmetric] organization_changed_def Let_def
        split: sum.split)
qed

section \<open>Sequences of requests\<close>

datatype org_event = SnapshotRequest "str set" | ApplyRequest "str set" apply_request | SessionRestored

fun org_step :: "(snapshot \<Rightarrow> str + nat) \<Rightarrow> org_state \<Rightarrow> org_event \<Rightarrow> org_state" where
  "org_step json st (SnapshotRequest a) = snd (handle_organization_snapshot a st)"
| "org_step json st (ApplyRequest a req) = snd (handle_organization_apply json a req st)"
| "org_step json st SessionRestored = clear_restored_organization_bindings st"

text \<open>The stored snapshot is well-formed and is the last one published, if any was.\<close>

definition org_inv :: "org_state \<Rightarrow> bool" where
  "org_inv st \<longleftrightarrow> wf_snapshot (organization st)
     \<and> (events (hub st) = [] \<or> snd (last (events (hub st))) = organization st)"

lemma last_hub_push [simp]: "events (hub_push h e) \<noteq> []" "snd (last (events (hub_push h e))) = e"
  by (simp_all add: hub_push_last_n last_n_def max_events_def)

lemma changed_inv: "wf_snapshot (organization st) \<Longrightarrow> org_inv (organization_changed st)"
  by (simp add: org_inv_def organization_changed_def)

lemma reconcile_inv [inv_intros]: "org_inv st \<Longrightarrow> org_inv (reconcile_organization_bindings a st)"
  using reconcile_wf [of st a]
  by (auto simp: org_inv_def reconcile_hub reconcile_organization)

lemma clear_inv [inv_intros]: "org_inv st \<Longrightarrow> org_inv (clear_organization_bindings a st)"
proof (cases "list_ex is_terminal (panels (organization st))")
  case True
  moreover assume "org_inv st"
  ultimately show ?thesis using reconcile_inv [of st a] by (simp add: reconcile_organization_bindings_def)
next
  case False
  then have "\<not> list_ex (stale a) (panels (organization st))"
    using not_terminal_live [of "organization st" a] by (auto simp: bindings_live_def list_ex_iff)
  moreover assume "org_inv st"
  ultimately show ?thesis by (simp add: clear_organization_bindings_def unbind_id)
qed

lemma apply_inv [inv_intros]:
  assumes "org_inv st"
  shows "org_inv (snd (handle_organization_apply json a req st))"
proof -
  have base: "org_inv (reconcile_organization_bindings a st)" by (rule reconcile_inv [OF assms])
  have "applying (organization (reconcile_organization_bindings a st)) req = Inr s \<Longrightarrow> wf_snapshot s" for s
    using execute_all_wf by (auto simp: applying_Inr)
  then show ?thesis
    using base by (auto simp: handle_organization_apply_def Let_def intro!: changed_inv split: sum.split)
qed

interpretation org: machine "org_step json" "\<lambda>_ _. True" org_inv for json
  by unfold_locales
    (case_tac e; auto simp: handle_organization_snapshot_def clear_restored_organization_bindings_def
      Let_def intro: inv_intros)


section \<open>Witness\<close>


end
