(* ===== verification/Layout.thy ===== *)
theory Layout
  imports Ieee
begin

text \<open>
  The tiling layout of a tab (\<open>layout.rs\<close>): a binary tree of splits with panes at the leaves, the
  focused pane and the pane focused before it. This theory holds the tree and the operations that
  change it; \<open>Geometry\<close> computes rectangles from it.
\<close>

section \<open>Pane identifiers\<close>

text \<open>\<open>PaneId::alloc\<close> is a fetch-and-add on a global 32-bit counter; the counter is passed along.\<close>

type_synonym pane_id = u32

definition pane_alloc :: "u32 \<Rightarrow> pane_id \<times> u32" where
  "pane_alloc next_id = (next_id, next_id + 1)"

section \<open>The tree\<close>

datatype direction = Horizontal | Vertical

datatype node = Pane pane_id | Split direction f32 node node

record tile_layout =
  tl_root :: node
  tl_focus :: pane_id
  tl_prev_focus :: "pane_id option"

fun count_panes :: "node \<Rightarrow> nat" where
  "count_panes (Pane _) = 1"
| "count_panes (Split _ _ first second) = count_panes first + count_panes second"

fun collect_ids :: "node \<Rightarrow> pane_id list" where
  "collect_ids (Pane i) = [i]"
| "collect_ids (Split _ _ first second) = collect_ids first @ collect_ids second"

text \<open>\<open>collect\<close> inside \<open>split_ratios\<close>: the path so far is extended by the side taken.\<close>

fun split_ratios_from :: "bool list \<Rightarrow> node \<Rightarrow> (bool list \<times> f32) list" where
  "split_ratios_from path (Pane _) = []"
| "split_ratios_from path (Split _ ratio first second) =
     (path, ratio) # split_ratios_from (path @ [False]) first @ split_ratios_from (path @ [True]) second"

definition split_ratios :: "node \<Rightarrow> (bool list \<times> f32) list" where
  "split_ratios node = split_ratios_from [] node"

fun swap_pane_ids :: "node \<Rightarrow> pane_id \<Rightarrow> pane_id \<Rightarrow> node" where
  "swap_pane_ids (Pane i) first second =
     (if i = first then Pane second else if i = second then Pane first else Pane i)"
| "swap_pane_ids (Split d r a b) first second =
     Split d r (swap_pane_ids a first second) (swap_pane_ids b first second)"

fun split_at :: "node \<Rightarrow> pane_id \<Rightarrow> direction \<Rightarrow> pane_id \<Rightarrow> f32 \<Rightarrow> node" where
  "split_at (Pane i) target direction new_id split_ratio =
     (if i = target then Split direction split_ratio (Pane i) (Pane new_id) else Pane i)"
| "split_at (Split d ratio first second) target direction new_id split_ratio =
     Split d ratio (split_at first target direction new_id split_ratio)
                   (split_at second target direction new_id split_ratio)"

definition ratio_min :: f32 where "ratio_min = f32_round (1/10)"
definition ratio_max :: f32 where "ratio_max = f32_round (9/10)"

definition valid_split_ratio :: "f32 \<Rightarrow> f32" where
  "valid_split_ratio ratio =
     (if is_finite ratio then f_clamp ratio ratio_min ratio_max else f32_round (1/2))"

fun remove_pane :: "node \<Rightarrow> pane_id \<Rightarrow> node option" where
  "remove_pane (Pane i) target = (if i = target then None else Some (Pane i))"
| "remove_pane (Split direction ratio first second) target =
     (case (remove_pane first target, remove_pane second target) of
        (None, Some s) \<Rightarrow> Some s
      | (Some f, None) \<Rightarrow> Some f
      | (Some f, Some s) \<Rightarrow> Some (Split direction ratio f s)
      | (None, None) \<Rightarrow> None)"

fun node_set_ratio_at :: "node \<Rightarrow> bool list \<Rightarrow> f32 \<Rightarrow> node \<times> bool" where
  "node_set_ratio_at (Split d ratio first second) [] new_ratio = (Split d new_ratio first second, True)"
| "node_set_ratio_at (Split d ratio first second) (side # path) new_ratio =
     (if side
      then (case node_set_ratio_at second path new_ratio of (s, ok) \<Rightarrow> (Split d ratio first s, ok))
      else (case node_set_ratio_at first path new_ratio of (f, ok) \<Rightarrow> (Split d ratio f second, ok)))"
| "node_set_ratio_at (Pane i) path new_ratio = (Pane i, False)"

fun get_ratio_at :: "node \<Rightarrow> bool list \<Rightarrow> f32 option" where
  "get_ratio_at (Split d ratio first second) [] = Some ratio"
| "get_ratio_at (Split d ratio first second) (side # path) =
     (if side then get_ratio_at second path else get_ratio_at first path)"
| "get_ratio_at (Pane i) path = None"

section \<open>The layout\<close>

definition tl_new :: "u32 \<Rightarrow> (tile_layout \<times> pane_id) \<times> u32" where
  "tl_new next_id =
    (let (root_id, next') = pane_alloc next_id
     in ((\<lparr>tl_root = Pane root_id, tl_focus = root_id, tl_prev_focus = None\<rparr>, root_id), next'))"

definition from_saved :: "node \<Rightarrow> pane_id \<Rightarrow> tile_layout" where
  "from_saved tree focus = \<lparr>tl_root = tree, tl_focus = focus, tl_prev_focus = None\<rparr>"

definition pane_ids :: "tile_layout \<Rightarrow> pane_id list" where
  "pane_ids l = collect_ids (tl_root l)"

definition pane_count :: "tile_layout \<Rightarrow> nat" where
  "pane_count l = count_panes (tl_root l)"

definition set_focus :: "pane_id \<Rightarrow> tile_layout \<Rightarrow> tile_layout" where
  "set_focus i l =
     (if i \<noteq> tl_focus l then l\<lparr>tl_prev_focus := Some (tl_focus l), tl_focus := i\<rparr> else l)"

definition split_pane ::
  "pane_id \<Rightarrow> direction \<Rightarrow> f32 \<Rightarrow> tile_layout \<times> u32 \<Rightarrow> pane_id option \<times> tile_layout \<times> u32" where
  "split_pane target direction ratio st =
    (let (l, next_id) = st in
     if target \<notin> set (pane_ids l) then (None, l, next_id)
     else let (new_id, next') = pane_alloc next_id
          in (Some new_id,
              l\<lparr>tl_root := split_at (tl_root l) target direction new_id (valid_split_ratio ratio)\<rparr>,
              next'))"

definition insert_pane_near ::
  "pane_id \<Rightarrow> pane_id \<Rightarrow> direction \<Rightarrow> f32 \<Rightarrow> bool \<Rightarrow> tile_layout \<Rightarrow> bool \<times> tile_layout" where
  "insert_pane_near target moved direction ratio focus l =
    (if target = moved then (False, l)
     else let ids = pane_ids l in
       if target \<notin> set ids \<or> moved \<in> set ids then (False, l)
       else let l' = l\<lparr>tl_root := split_at (tl_root l) target direction moved (valid_split_ratio ratio)\<rparr>
            in (True, if focus then set_focus moved l' else l'))"

text \<open>
  Closing returns \<open>None\<close> where the code would panic (the focused pane is not in the tree). Where
  \<open>remove_pane\<close> leaves nothing, the code has already replaced the root by the placeholder pane 0.
\<close>

definition close_focused :: "tile_layout \<Rightarrow> (bool \<times> tile_layout) option" where
  "close_focused l =
    (if pane_count l \<le> 1 then Some (False, l)
     else let target = tl_focus l; ids = pane_ids l in
       case position (\<lambda>i. i = target) ids of
         None \<Rightarrow> None
       | Some pos \<Rightarrow>
           let ordered = (if pos + 1 < length ids then ids ! (pos + 1) else ids ! (pos - 1));
               new_focus = (case tl_prev_focus l of
                   Some prev \<Rightarrow> if prev \<noteq> target \<and> prev \<in> set ids then prev else ordered
                 | None \<Rightarrow> ordered)
           in case remove_pane (tl_root l) target of
                Some new_root \<Rightarrow>
                  Some (True, \<lparr>tl_root = new_root, tl_focus = new_focus, tl_prev_focus = None\<rparr>)
              | None \<Rightarrow> Some (False, l\<lparr>tl_root := Pane 0\<rparr>))"

definition close_pane :: "pane_id \<Rightarrow> tile_layout \<Rightarrow> (bool \<times> tile_layout) option" where
  "close_pane i l =
    (if tl_focus l = i then close_focused l
     else if pane_count l \<le> 1 \<or> i \<notin> set (pane_ids l) then Some (False, l)
     else case remove_pane (tl_root l) i of
       None \<Rightarrow> Some (False, l\<lparr>tl_root := Pane 0\<rparr>)
     | Some new_root \<Rightarrow>
         Some (True, l\<lparr>tl_root := new_root,
           tl_prev_focus := (if tl_prev_focus l = Some i then None else tl_prev_focus l)\<rparr>))"

definition focus_pane :: "pane_id \<Rightarrow> tile_layout \<Rightarrow> tile_layout" where
  "focus_pane i l = (if i \<in> set (pane_ids l) then set_focus i l else l)"

definition swap_panes :: "pane_id \<Rightarrow> pane_id \<Rightarrow> tile_layout \<Rightarrow> bool \<times> tile_layout" where
  "swap_panes first second l =
    (if first = second then (False, l)
     else let ids = pane_ids l in
       if first \<notin> set ids \<or> second \<notin> set ids then (False, l)
       else (True, l\<lparr>tl_root := swap_pane_ids (tl_root l) first second\<rparr>))"

definition set_ratio_at :: "bool list \<Rightarrow> f32 \<Rightarrow> tile_layout \<Rightarrow> bool \<times> tile_layout" where
  "set_ratio_at path ratio l =
    (let (tree, ok) = node_set_ratio_at (tl_root l) path (f_clamp ratio ratio_min ratio_max)
     in (ok, l\<lparr>tl_root := tree\<rparr>))"

section \<open>The tree operations as operations on the leaves\<close>

lemma collect_ids_nonempty [simp]: "collect_ids t \<noteq> []"
  by (induction t) auto

lemma count_panes_length: "count_panes t = length (collect_ids t)"
  by (induction t) auto

lemma collect_ids_split_at:
  "collect_ids (split_at t target d new r) =
     concat (map (\<lambda>i. if i = target then [i, new] else [i]) (collect_ids t))"
  by (induction t) auto

lemma set_split_at:
  "set (collect_ids (split_at t target d new r)) =
     set (collect_ids t) \<union> (if target \<in> set (collect_ids t) then {new} else {})"
  by (induction t) auto

lemma distinct_split_at:
  "distinct (collect_ids t) \<Longrightarrow> new \<notin> set (collect_ids t) \<Longrightarrow>
   distinct (collect_ids (split_at t target d new r))"
  by (induction t) (auto simp: set_split_at)

lemma remove_pane_subset: "remove_pane t target = None \<longleftrightarrow> set (collect_ids t) \<subseteq> {target}"
proof (induction t)
  case (Split d r a b)
  have "remove_pane (Split d r a b) target = None \<longleftrightarrow>
      remove_pane a target = None \<and> remove_pane b target = None"
    by (simp split: option.split)
  with Split show ?case by simp
qed simp

lemma remove_pane_None: "remove_pane t target = None \<longleftrightarrow> set (collect_ids t) = {target}"
  by (simp add: remove_pane_subset subset_singleton_iff)

lemma remove_pane_ids:
  "remove_pane t target = Some t' \<Longrightarrow> collect_ids t' = filter (\<lambda>i. i \<noteq> target) (collect_ids t)"
proof (induction t arbitrary: t')
  case (Split d r a b)
  have nil: "remove_pane t target = None \<Longrightarrow> filter (\<lambda>i. i \<noteq> target) (collect_ids t) = []" for t
    by (simp add: remove_pane_None filter_empty_conv)
  show ?case
  proof (cases "remove_pane a target")
    case None
    with Split.prems have "remove_pane b target = Some t'" by (simp split: option.splits)
    with Split.IH(2) nil [OF None] show ?thesis by simp
  next
    case (Some a')
    note a = Some Split.IH(1) [OF Some]
    show ?thesis
    proof (cases "remove_pane b target")
      case None
      with Split.prems a nil [OF None] show ?thesis by simp
    next
      case (Some b')
      with Split.prems a Split.IH(2) [OF Some] show ?thesis by auto
    qed
  qed
qed (auto split: if_splits)

lemma remove_pane_absent: "target \<notin> set (collect_ids t) \<Longrightarrow> remove_pane t target = Some t"
  by (induction t) auto

lemma remove_split_at: "new \<notin> set (collect_ids t) \<Longrightarrow> remove_pane (split_at t target d new r) new = Some t"
  by (induction t) auto

lemma collect_ids_swap:
  "collect_ids (swap_pane_ids t a b) =
     map (\<lambda>i. if i = a then b else if i = b then a else i) (collect_ids t)"
  by (induction t) auto

lemma swap_swap: "swap_pane_ids (swap_pane_ids t a b) a b = t"
  by (induction t) auto

lemma split_ratios_swap [simp]: "split_ratios (swap_pane_ids t a b) = split_ratios t"
proof -
  have "split_ratios_from p (swap_pane_ids t a b) = split_ratios_from p t" for p
    by (induction t arbitrary: p) auto
  then show ?thesis by (simp add: split_ratios_def)
qed

lemma collect_ids_set_ratio [simp]: "collect_ids (fst (node_set_ratio_at t path r)) = collect_ids t"
  by (induction t path r rule: node_set_ratio_at.induct) (auto split: prod.splits)

lemma set_ratio_ok: "snd (node_set_ratio_at t path r) \<longleftrightarrow> get_ratio_at t path \<noteq> None"
  by (induction t path r rule: node_set_ratio_at.induct) (auto split: prod.splits)

lemma get_set_ratio:
  "get_ratio_at (fst (node_set_ratio_at t path r)) p =
     (if p = path \<and> get_ratio_at t path \<noteq> None then Some r else get_ratio_at t p)"
proof (induction t path r arbitrary: p rule: node_set_ratio_at.induct)
  case (1 d ratio a b r)
  then show ?case by (cases p) auto
next
  case (2 d ratio a b side path r)
  then show ?case by (cases p) (auto split: prod.splits)
qed simp

lemma set_ratio_fails: "get_ratio_at t path = None \<Longrightarrow> fst (node_set_ratio_at t path r) = t"
  by (induction t path r rule: node_set_ratio_at.induct) (auto split: prod.splits if_splits)

section \<open>Ratios\<close>

definition valid_ratio :: "f32 \<Rightarrow> bool" where
  "valid_ratio r \<longleftrightarrow> f_le ratio_min r \<and> f_le r ratio_max"

fun ratios_ok :: "node \<Rightarrow> bool" where
  "ratios_ok (Pane _) = True"
| "ratios_ok (Split _ r a b) = (valid_ratio r \<and> ratios_ok a \<and> ratios_ok b)"

lemma ratio_min_max: "ratio_min = FNum (13421773 / 134217728)" "ratio_max = FNum (15099494 / 16777216)"
  by (simp_all only: ratio_min_def ratio_max_def f32_one_tenth f32_nine_tenths)

lemma valid_clamp: "r \<noteq> FNan \<Longrightarrow> valid_ratio (f_clamp r ratio_min ratio_max)"
  by (cases r) (auto simp: valid_ratio_def f_clamp_def ratio_min_max)

lemma valid_valid_split_ratio: "valid_ratio (valid_split_ratio r)"
proof (cases "is_finite r")
  case True
  then have "r \<noteq> FNan" by auto
  with True show ?thesis by (simp add: valid_split_ratio_def valid_clamp)
next
  case False
  have "valid_ratio (f32_round (1/2))"
    by (simp only: f32_half) (simp add: valid_ratio_def ratio_min_max)
  with False show ?thesis by (simp add: valid_split_ratio_def)
qed

lemma valid_ratio_num:
  assumes "valid_ratio r"
  obtains q where "r = FNum q" "1/10 \<le> q" "q \<le> 91/100"
proof (cases r)
  case (FNum q)
  with assms show ?thesis by (intro that [of q]) (auto simp: valid_ratio_def ratio_min_max)
qed (use assms in \<open>auto simp: valid_ratio_def ratio_min_max\<close>)

lemma ratios_split_at: "ratios_ok t \<Longrightarrow> valid_ratio r \<Longrightarrow> ratios_ok (split_at t target d new r)"
  by (induction t) auto

lemma ratios_remove: "ratios_ok t \<Longrightarrow> remove_pane t target = Some t' \<Longrightarrow> ratios_ok t'"
proof -
  have "ratios_ok t \<Longrightarrow> case remove_pane t target of None \<Rightarrow> True | Some u \<Rightarrow> ratios_ok u"
    by (induction t) (auto split: option.splits)
  then show "ratios_ok t \<Longrightarrow> remove_pane t target = Some t' \<Longrightarrow> ratios_ok t'" by simp
qed

lemma ratios_swap [simp]: "ratios_ok (swap_pane_ids t a b) = ratios_ok t"
  by (induction t) auto

lemma ratios_set: "ratios_ok t \<Longrightarrow> valid_ratio r \<Longrightarrow> ratios_ok (fst (node_set_ratio_at t path r))"
  by (induction t path r rule: node_set_ratio_at.induct) (auto split: prod.splits)

section \<open>The invariant\<close>

text \<open>
  Every pane occurs once, the focused pane is in the tree, the remembered pane is another pane of
  the tree, and every ratio lies between the two bounds.
\<close>

definition layout_inv :: "tile_layout \<Rightarrow> bool" where
  "layout_inv l \<longleftrightarrow>
     distinct (pane_ids l) \<and> tl_focus l \<in> set (pane_ids l)
     \<and> (\<forall>p. tl_prev_focus l = Some p \<longrightarrow> p \<in> set (pane_ids l) \<and> p \<noteq> tl_focus l)
     \<and> ratios_ok (tl_root l)"

lemma set_focus_inv [inv_intros]:
  "layout_inv l \<Longrightarrow> i \<in> set (pane_ids l) \<Longrightarrow> layout_inv (set_focus i l)"
  by (auto simp: layout_inv_def set_focus_def pane_ids_def)

lemma focus_pane_inv [inv_intros]: "layout_inv l \<Longrightarrow> layout_inv (focus_pane i l)"
  by (simp add: focus_pane_def set_focus_inv)

lemma split_at_inv:
  assumes "layout_inv l" "new \<notin> set (pane_ids l)" "valid_ratio r"
  shows "layout_inv (l\<lparr>tl_root := split_at (tl_root l) target d new r\<rparr>)"
  using assms by (auto simp: layout_inv_def pane_ids_def distinct_split_at set_split_at ratios_split_at)

lemma split_pane_inv [inv_intros]:
  assumes "layout_inv l" "next_id \<notin> set (pane_ids l)"
  shows "layout_inv (fst (snd (split_pane target d r (l, next_id))))"
  using assms by (simp add: split_pane_def pane_alloc_def split_at_inv valid_valid_split_ratio)

lemma insert_pane_near_inv [inv_intros]:
  assumes "layout_inv l"
  shows "layout_inv (snd (insert_pane_near target moved d r focus l))"
proof (cases "target = moved \<or> target \<notin> set (pane_ids l) \<or> moved \<in> set (pane_ids l)")
  case False
  let ?l = "l\<lparr>tl_root := split_at (tl_root l) target d moved (valid_split_ratio r)\<rparr>"
  have "layout_inv ?l" using False assms by (simp add: split_at_inv valid_valid_split_ratio)
  moreover have "moved \<in> set (pane_ids ?l)" using False by (simp add: pane_ids_def set_split_at)
  ultimately show ?thesis using False by (simp add: insert_pane_near_def set_focus_inv Let_def)
qed (use assms in \<open>auto simp: insert_pane_near_def\<close>)

lemma swap_panes_inv [inv_intros]:
  assumes "layout_inv l"
  shows "layout_inv (snd (swap_panes a b l))"
proof (cases "a = b \<or> a \<notin> set (pane_ids l) \<or> b \<notin> set (pane_ids l)")
  case False
  let ?f = "\<lambda>i. if i = a then b else if i = b then a else i"
  have "inj_on ?f (set (pane_ids l))" by (auto intro!: inj_onI split: if_splits)
  then have "distinct (map ?f (pane_ids l))"
    using assms by (simp add: layout_inv_def distinct_map)
  moreover have "set (map ?f (pane_ids l)) = set (pane_ids l)"
    using False by (auto simp: image_iff)
  ultimately show ?thesis using False assms
    by (simp add: swap_panes_def layout_inv_def pane_ids_def collect_ids_swap)
qed (use assms in \<open>auto simp: swap_panes_def\<close>)

lemma set_ratio_at_inv [inv_intros]:
  "layout_inv l \<Longrightarrow> r \<noteq> FNan \<Longrightarrow> layout_inv (snd (set_ratio_at path r l))"
  by (simp add: set_ratio_at_def layout_inv_def pane_ids_def ratios_set valid_clamp case_prod_beta)

text \<open>Closing: the focused pane is found, the tree does not vanish, and focus stays in the tree.\<close>

lemma neighbour:
  assumes "position (\<lambda>i. i = x) ids = Some pos" "distinct ids" "1 < length ids"
  shows "(if pos + 1 < length ids then ids ! (pos + 1) else ids ! (pos - 1)) \<in> set ids - {x}"
proof -
  have p: "pos < length ids" "ids ! pos = x" using position_Some [OF assms(1)] by auto
  show ?thesis
  proof (cases "pos + 1 < length ids")
    case True
    then have "ids ! (pos + 1) \<noteq> ids ! pos" using assms(2) by (simp add: nth_eq_iff_index_eq)
    with True p show ?thesis by simp
  next
    case False
    then have "0 < pos" using assms(3) p by simp
    then have "ids ! (pos - 1) \<noteq> ids ! pos" using assms(2) p(1) by (simp add: nth_eq_iff_index_eq)
    with p have "ids ! (pos - 1) \<in> set ids - {x}" by (simp add: less_imp_diff_less)
    with False show ?thesis by simp
  qed
qed

lemma close_focused_cases:
  assumes "layout_inv l"
  obtains
    (last) "pane_ids l = [tl_focus l]" "close_focused l = Some (False, l)"
  | (closed) t f where "remove_pane (tl_root l) (tl_focus l) = Some t"
      "close_focused l = Some (True, \<lparr>tl_root = t, tl_focus = f, tl_prev_focus = None\<rparr>)"
      "f \<in> set (pane_ids l) - {tl_focus l}" "\<And>p. tl_prev_focus l = Some p \<Longrightarrow> f = p"
proof (cases "pane_count l \<le> 1")
  case True
  then have "length (pane_ids l) \<le> 1" by (simp add: pane_count_def pane_ids_def count_panes_length)
  with assms have "pane_ids l = [tl_focus l]"
    by (cases "pane_ids l") (auto simp: layout_inv_def)
  with True show ?thesis by (intro last) (simp_all add: close_focused_def)
next
  case False
  then have len: "1 < length (pane_ids l)" by (simp add: pane_count_def pane_ids_def count_panes_length)
  have d: "distinct (pane_ids l)" and i: "tl_focus l \<in> set (pane_ids l)"
    using assms by (auto simp: layout_inv_def)
  from i obtain pos where pos: "position (\<lambda>i. i = tl_focus l) (pane_ids l) = Some pos"
    by (cases "position (\<lambda>i. i = tl_focus l) (pane_ids l)") (auto simp: position_None)
  have "\<not> set (pane_ids l) \<subseteq> {tl_focus l}"
    using d len by (metis card_mono distinct_card finite.emptyI finite_insert is_singletonI
        is_singleton_altdef not_less)
  then obtain t where t: "remove_pane (tl_root l) (tl_focus l) = Some t"
    using remove_pane_None [of "tl_root l" "tl_focus l"]
    by (cases "remove_pane (tl_root l) (tl_focus l)") (auto simp: pane_ids_def)
  let ?ord = "if pos + 1 < length (pane_ids l) then pane_ids l ! (pos + 1) else pane_ids l ! (pos - 1)"
  have ord: "?ord \<in> set (pane_ids l) - {tl_focus l}" by (rule neighbour [OF pos d len])
  show ?thesis
  proof (cases "tl_prev_focus l")
    case None
    with False pos t ord show ?thesis
      by (intro closed [of t ?ord]) (auto simp: close_focused_def Let_def)
  next
    case (Some p)
    with assms have "p \<in> set (pane_ids l)" "p \<noteq> tl_focus l" by (auto simp: layout_inv_def)
    with Some False pos t show ?thesis
      by (intro closed [of t p]) (auto simp: close_focused_def Let_def)
  qed
qed

lemma remove_pane_inv:
  assumes "layout_inv l" "remove_pane (tl_root l) i = Some t" "f \<in> set (pane_ids l) - {i}"
    "\<And>p. q = Some p \<Longrightarrow> p \<in> set (pane_ids l) - {i, f}"
  shows "layout_inv \<lparr>tl_root = t, tl_focus = f, tl_prev_focus = q\<rparr>"
  using assms ratios_remove [OF _ assms(2)]
  by (auto simp: layout_inv_def pane_ids_def remove_pane_ids [OF assms(2)])

lemma close_focused_inv [inv_intros]:
  assumes "layout_inv l"
  shows "\<exists>b l'. close_focused l = Some (b, l') \<and> layout_inv l'"
  by (rule close_focused_cases [OF assms]) (use assms in \<open>auto intro: remove_pane_inv\<close>)

lemma close_pane_inv [inv_intros]:
  assumes "layout_inv l"
  shows "\<exists>b l'. close_pane i l = Some (b, l') \<and> layout_inv l'"
proof (cases "tl_focus l = i")
  case True
  then show ?thesis using close_focused_inv [OF assms] by (simp add: close_pane_def)
next
  case foc: False
  show ?thesis
  proof (cases "pane_count l \<le> 1 \<or> i \<notin> set (pane_ids l)")
    case True
    with foc assms have "close_pane i l = Some (False, l)" by (auto simp: close_pane_def)
    with assms show ?thesis by blast
  next
    case False
    have "tl_focus l \<in> set (pane_ids l)" using assms by (simp add: layout_inv_def)
    with foc have "remove_pane (tl_root l) i \<noteq> None"
      by (auto simp: remove_pane_None pane_ids_def)
    then obtain t where t: "remove_pane (tl_root l) i = Some t" by blast
    let ?q = "if tl_prev_focus l = Some i then None else tl_prev_focus l"
    have "layout_inv \<lparr>tl_root = t, tl_focus = tl_focus l, tl_prev_focus = ?q\<rparr>"
      by (rule remove_pane_inv [OF assms t])
        (use foc assms in \<open>auto simp: layout_inv_def split: if_splits\<close>)
    moreover have "l\<lparr>tl_root := t, tl_prev_focus := ?q\<rparr>
        = \<lparr>tl_root = t, tl_focus = tl_focus l, tl_prev_focus = ?q\<rparr>" by (cases l) simp
    moreover have "close_pane i l = Some (True, l\<lparr>tl_root := t, tl_prev_focus := ?q\<rparr>)"
      using foc False t by (simp add: close_pane_def)
    ultimately show ?thesis by metis
  qed
qed

lemma length_concat_split:
  "length (concat (map (\<lambda>i. if i = x then [i, y] else [i]) is)) = length is + count_list is x"
  by (induction "is") auto

section \<open>Properties\<close>

lemma split_pane_close:
  assumes "layout_inv l" "target \<in> set (pane_ids l)" "next_id \<notin> set (pane_ids l)"
    and "split_pane target d r (l, next_id) = (new, l', next')"
  shows "new = Some next_id \<and> next' = next_id + 1
    \<and> pane_ids l' = concat (map (\<lambda>i. if i = target then [i, next_id] else [i]) (pane_ids l))
    \<and> tl_focus l' = tl_focus l \<and> tl_prev_focus l' = tl_prev_focus l
    \<and> close_pane next_id l' = Some (True, l)"
proof -
  let ?t = "split_at (tl_root l) target d next_id (valid_split_ratio r)"
  have l': "l' = l\<lparr>tl_root := ?t\<rparr>" and new: "new = Some next_id" "next' = next_id + 1"
    using assms(2,4) by (auto simp: split_pane_def pane_alloc_def)
  have foc: "tl_focus l \<noteq> next_id" "tl_prev_focus l \<noteq> Some next_id"
    using assms(1,3) by (auto simp: layout_inv_def)
  have "length (pane_ids l') = length (pane_ids l) + count_list (pane_ids l) target"
    by (simp add: l' pane_ids_def collect_ids_split_at length_concat_split)
  moreover have "count_list (pane_ids l) target \<noteq> 0" using assms(2) by (simp add: count_list_0_iff)
  moreover have "pane_ids l \<noteq> []" by (simp add: pane_ids_def)
  ultimately have "1 < length (pane_ids l')" by (cases "pane_ids l") auto
  then have "\<not> pane_count l' \<le> 1" by (simp add: pane_count_def pane_ids_def count_panes_length)
  moreover have "next_id \<in> set (pane_ids l')"
    using assms(2) by (simp add: l' pane_ids_def set_split_at)
  moreover have "remove_pane ?t next_id = Some (tl_root l)"
    by (rule remove_split_at) (use assms(3) in \<open>simp add: pane_ids_def\<close>)
  ultimately have "close_pane next_id l' = Some (True, l)"
    using foc by (simp add: close_pane_def l')
  then show ?thesis using new by (simp add: l' pane_ids_def collect_ids_split_at)
qed

text \<open>
  Splitting a pane puts the new pane right after its target in the order of the panes, leaves
  every other pane, the focus and its history alone, and closing the new pane gives the layout back.
\<close>

theorem split_pane_close_roundtrip:
  assumes "layout_inv l" "target \<in> set (pane_ids l)" "next_id \<notin> set (pane_ids l)"
    and "split_pane target d r (l, next_id) = (new, l', next')"
  shows "new = Some next_id \<and> next' = next_id + 1
    \<and> pane_ids l' = concat (map (\<lambda>i. if i = target then [i, next_id] else [i]) (pane_ids l))
    \<and> tl_focus l' = tl_focus l \<and> tl_prev_focus l' = tl_prev_focus l
    \<and> close_pane next_id l' = Some (True, l)"
  using assms by (rule split_pane_close)

lemma close_pane_cases:
  assumes "layout_inv l"
  shows "\<exists>b l'. close_pane i l = Some (b, l')
    \<and> b = (i \<in> set (pane_ids l) \<and> pane_ids l \<noteq> [i])
    \<and> pane_ids l' = (if b then filter (\<lambda>j. j \<noteq> i) (pane_ids l) else pane_ids l)
    \<and> (b \<and> i = tl_focus l \<longrightarrow> (\<forall>p. tl_prev_focus l = Some p \<longrightarrow> tl_focus l' = p))
    \<and> (i \<noteq> tl_focus l \<longrightarrow> tl_focus l' = tl_focus l)"
proof (cases "tl_focus l = i")
  case True
  show ?thesis
  proof (rule close_focused_cases [OF assms])
    assume "pane_ids l = [tl_focus l]" "close_focused l = Some (False, l)"
    with True have "close_pane i l = Some (False, l)" by (simp add: close_pane_def)
    with True \<open>pane_ids l = [tl_focus l]\<close> show ?thesis by auto
  next
    fix t f
    assume t: "remove_pane (tl_root l) (tl_focus l) = Some t"
      and c: "close_focused l = Some (True, \<lparr>tl_root = t, tl_focus = f, tl_prev_focus = None\<rparr>)"
      and f: "f \<in> set (pane_ids l) - {tl_focus l}" "\<And>p. tl_prev_focus l = Some p \<Longrightarrow> f = p"
    have "i \<in> set (pane_ids l)" "pane_ids l \<noteq> [i]"
      using True f(1) assms by (auto simp: layout_inv_def)
    with True c f(2) remove_pane_ids [OF t] show ?thesis
      by (auto simp: close_pane_def pane_ids_def)
  qed
next
  case False
  have "tl_focus l \<in> set (pane_ids l)" using assms by (simp add: layout_inv_def)
  with False have ne: "pane_ids l \<noteq> [i]" by auto
  show ?thesis
  proof (cases "i \<in> set (pane_ids l)")
    case True
    with \<open>tl_focus l \<in> set (pane_ids l)\<close> False have "\<not> length (pane_ids l) \<le> 1"
      by (cases "pane_ids l") auto
    then have cnt: "\<not> pane_count l \<le> 1" by (simp add: pane_count_def pane_ids_def count_panes_length)
    have "remove_pane (tl_root l) i \<noteq> None"
      using \<open>tl_focus l \<in> set (pane_ids l)\<close> False by (auto simp: remove_pane_None pane_ids_def)
    then obtain t where t: "remove_pane (tl_root l) i = Some t" by blast
    with False True ne cnt remove_pane_ids [OF t] show ?thesis
      by (auto simp: close_pane_def pane_ids_def)
  next
    case out: False
    with False ne show ?thesis by (auto simp: close_pane_def)
  qed
qed

text \<open>
  Closing never panics on a layout that satisfies the invariant; it fails exactly for the last
  pane or a pane that is not there, and otherwise removes that pane and no other, keeping the order.
  When the focused pane is closed, focus returns to the remembered pane if there is one.
\<close>

theorem close_pane_effect:
  assumes "layout_inv l"
  shows "\<exists>b l'. close_pane i l = Some (b, l')
    \<and> b = (i \<in> set (pane_ids l) \<and> pane_ids l \<noteq> [i])
    \<and> pane_ids l' = (if b then filter (\<lambda>j. j \<noteq> i) (pane_ids l) else pane_ids l)
    \<and> (b \<and> i = tl_focus l \<longrightarrow> (\<forall>p. tl_prev_focus l = Some p \<longrightarrow> tl_focus l' = p))
    \<and> (i \<noteq> tl_focus l \<longrightarrow> tl_focus l' = tl_focus l)"
  using assms by (rule close_pane_cases)

text \<open>
  Setting a ratio succeeds exactly on the path of a split, is read back there clamped, and
  changes the ratio of no other split and the order of no pane.
\<close>

theorem set_ratio_at_effect:
  assumes "set_ratio_at path r l = (ok, l')"
  shows "ok = (get_ratio_at (tl_root l) path \<noteq> None) \<and> pane_ids l' = pane_ids l
    \<and> (ok \<longrightarrow> get_ratio_at (tl_root l') path = Some (f_clamp r ratio_min ratio_max))
    \<and> (\<forall>p. p \<noteq> path \<longrightarrow> get_ratio_at (tl_root l') p = get_ratio_at (tl_root l) p)
    \<and> (\<not> ok \<longrightarrow> l' = l)"
  using assms set_ratio_ok [of "tl_root l" path "f_clamp r ratio_min ratio_max"]
    get_set_ratio [of "tl_root l" path "f_clamp r ratio_min ratio_max"]
    set_ratio_fails [of "tl_root l" path "f_clamp r ratio_min ratio_max"]
  by (auto simp: set_ratio_at_def case_prod_beta pane_ids_def)

text \<open>
  Swapping two panes of a layout exchanges their places in the order and keeps the shape and
  the ratios; swapping them again gives the layout back.
\<close>

theorem swap_panes_involution:
  assumes "swap_panes a b l = (True, l')"
  shows "pane_ids l' = map (\<lambda>i. if i = a then b else if i = b then a else i) (pane_ids l)
    \<and> split_ratios (tl_root l') = split_ratios (tl_root l) \<and> swap_panes a b l' = (True, l)"
proof -
  have h: "a \<noteq> b" "a \<in> set (pane_ids l)" "b \<in> set (pane_ids l)"
      "l' = l\<lparr>tl_root := swap_pane_ids (tl_root l) a b\<rparr>"
    using assms by (auto simp: swap_panes_def Let_def split: if_splits)
  then have ids: "pane_ids l' = map (\<lambda>i. if i = a then b else if i = b then a else i) (pane_ids l)"
    by (simp add: pane_ids_def collect_ids_swap)
  have "a \<in> set (pane_ids l')" "b \<in> set (pane_ids l')"
    unfolding ids using h(2,3) by force+
  then show ?thesis using h(1,4) ids by (simp add: swap_panes_def swap_swap Let_def)
qed

section \<open>Witnesses\<close>

definition demo_layout :: tile_layout where
  "demo_layout = \<lparr>tl_root = Split Horizontal (FNum (1/2)) (Pane 1) (Split Vertical (FNum (1/2)) (Pane 2) (Pane 3)),
     tl_focus = 1, tl_prev_focus = Some 2\<rparr>"

lemma demo_layout_inv: "layout_inv demo_layout"
  by (simp add: layout_inv_def demo_layout_def pane_ids_def valid_ratio_def ratio_min_max)

lemma demo_layout_ids: "pane_ids demo_layout = [1, 2, 3]"
  by (simp add: demo_layout_def pane_ids_def)

theorem split_pane_close_roundtrip_witness:
  "\<exists>l'. split_pane 1 Vertical FNan (demo_layout, 4) = (Some 4, l', 5)
     \<and> pane_ids l' = [1, 4, 2, 3] \<and> close_pane 4 l' = Some (True, demo_layout)"
proof -
  obtain new l' n where s: "split_pane 1 Vertical FNan (demo_layout, 4) = (new, l', n)"
    by (cases "split_pane 1 Vertical FNan (demo_layout, 4)")
  from split_pane_close_roundtrip [OF demo_layout_inv _ _ s] s show ?thesis
    by (auto simp: demo_layout_ids)
qed

theorem close_pane_effect_witness:
  "layout_inv demo_layout
   \<and> (\<exists>l'. close_pane 1 demo_layout = Some (True, l') \<and> pane_ids l' = [2, 3] \<and> tl_focus l' = 2)"
proof -
  have "tl_focus demo_layout = 1" "tl_prev_focus demo_layout = Some 2" by (simp_all add: demo_layout_def)
  with close_pane_effect [OF demo_layout_inv, of 1] demo_layout_inv show ?thesis
    by (auto simp: demo_layout_ids)
qed

theorem set_ratio_at_effect_witness:
  "\<exists>l'. set_ratio_at [True] (FNum 5) demo_layout = (True, l')
     \<and> get_ratio_at (tl_root l') [True] = Some ratio_max"
proof -
  obtain ok l' where s: "set_ratio_at [True] (FNum 5) demo_layout = (ok, l')"
    by (cases "set_ratio_at [True] (FNum 5) demo_layout")
  have "get_ratio_at (tl_root demo_layout) [True] = Some (FNum (1/2))" by (simp add: demo_layout_def)
  moreover have "f_clamp (FNum 5) ratio_min ratio_max = ratio_max"
    by (simp add: f_clamp_def ratio_min_max)
  ultimately show ?thesis using set_ratio_at_effect [OF s] s by auto
qed

theorem swap_panes_involution_witness:
  "\<exists>l'. swap_panes 1 3 demo_layout = (True, l') \<and> pane_ids l' = [3, 2, 1]
     \<and> swap_panes 1 3 l' = (True, demo_layout)"
proof -
  have "\<exists>l'. swap_panes 1 3 demo_layout = (True, l')"
    by (simp add: swap_panes_def demo_layout_ids Let_def)
  then obtain l' where s: "swap_panes 1 3 demo_layout = (True, l')" by blast
  from swap_panes_involution [OF s] s show ?thesis by (auto simp: demo_layout_ids)
qed

end
