(* ===== verification/Geometry.thy ===== *)
theory Geometry
  imports Layout "HOL-Library.Product_Lexorder"
begin

text \<open>
  The rectangles of a layout (\<open>layout.rs\<close>): cutting an area along the tree, the borders between
  the parts, resizing by dragging the nearest border, and finding the pane next to another.
  \<open>Rect\<close> is ratatui's; its constructor \<open>Rect::new\<close> is the parameter \<open>mk\<close>, of which the code needs
  only that it stores four values whose sums stay inside \<open>u16\<close>.
\<close>

record rect =
  r_x :: u16
  r_y :: u16
  r_w :: u16
  r_h :: u16

type_synonym rect_new = "u16 \<Rightarrow> u16 \<Rightarrow> u16 \<Rightarrow> u16 \<Rightarrow> rect"

record pane_info =
  pi_id :: pane_id
  pi_rect :: rect
  pi_inner_rect :: rect
  pi_scrollbar_rect :: "rect option"
  pi_borders :: u8
  pi_is_focused :: bool

record split_border =
  sb_pos :: u16
  sb_direction :: direction
  sb_ratio :: f32
  sb_area :: rect
  sb_path :: "bool list"

datatype nav_direction = NavLeft | NavRight | NavUp | NavDown

section \<open>Rectangles of the tree\<close>

definition split_rect :: "rect_new \<Rightarrow> rect \<Rightarrow> direction \<Rightarrow> f32 \<Rightarrow> rect \<times> rect" where
  "split_rect mk area direction ratio =
    (case direction of
       Horizontal \<Rightarrow>
         let first_w = u16_of_f32 (f_round (f32_mul (f32_of_u16 (r_w area)) ratio));
             second_w = saturating_sub (r_w area) first_w
         in (mk (r_x area) (r_y area) first_w (r_h area),
             mk (r_x area + first_w) (r_y area) second_w (r_h area))
     | Vertical \<Rightarrow>
         let first_h = u16_of_f32 (f_round (f32_mul (f32_of_u16 (r_h area)) ratio));
             second_h = saturating_sub (r_h area) first_h
         in (mk (r_x area) (r_y area) (r_w area) first_h,
             mk (r_x area) (r_y area + first_h) (r_w area) second_h))"

fun collect_panes :: "rect_new \<Rightarrow> node \<Rightarrow> rect \<Rightarrow> pane_id \<Rightarrow> pane_info list" where
  "collect_panes mk (Pane i) area focus =
     [\<lparr>pi_id = i, pi_rect = area, pi_inner_rect = area, pi_scrollbar_rect = None,
       pi_borders = 0, pi_is_focused = (i = focus)\<rparr>]"
| "collect_panes mk (Split direction ratio first second) area focus =
     (let (a, b) = split_rect mk area direction ratio
      in collect_panes mk first a focus @ collect_panes mk second b focus)"

fun collect_splits :: "rect_new \<Rightarrow> node \<Rightarrow> rect \<Rightarrow> bool list \<Rightarrow> split_border list" where
  "collect_splits mk (Pane i) area path = []"
| "collect_splits mk (Split direction ratio first second) area path =
     (let (a, b) = split_rect mk area direction ratio;
          pos = (case direction of Horizontal \<Rightarrow> r_x a + r_w a | Vertical \<Rightarrow> r_y a + r_h a)
      in \<lparr>sb_pos = pos, sb_direction = direction, sb_ratio = ratio, sb_area = area, sb_path = path\<rparr>
         # collect_splits mk first a (path @ [False]) @ collect_splits mk second b (path @ [True]))"

definition panes :: "rect_new \<Rightarrow> rect \<Rightarrow> tile_layout \<Rightarrow> pane_info list" where
  "panes mk area l = collect_panes mk (tl_root l) area (tl_focus l)"

definition splits :: "rect_new \<Rightarrow> rect \<Rightarrow> tile_layout \<Rightarrow> split_border list" where
  "splits mk area l = collect_splits mk (tl_root l) area []"

section \<open>Ranges\<close>

definition ranges_overlap :: "u16 \<Rightarrow> u16 \<Rightarrow> u16 \<Rightarrow> u16 \<Rightarrow> bool" where
  "ranges_overlap a_start a_len b_start b_len \<longleftrightarrow> a_start < b_start + b_len \<and> a_start + a_len > b_start"

definition range_overlap_amount :: "u16 \<Rightarrow> u16 \<Rightarrow> u16 \<Rightarrow> u16 \<Rightarrow> u16" where
  "range_overlap_amount a_start a_len b_start b_len =
    (let a_end = saturating_add a_start a_len; b_end = saturating_add b_start b_len
     in saturating_sub (min a_end b_end) (max a_start b_start))"

definition range_center_distance :: "u16 \<Rightarrow> u16 \<Rightarrow> u16 \<Rightarrow> u16 \<Rightarrow> u16" where
  "range_center_distance a_start a_len b_start b_len =
    (let a_center = saturating_add (saturating_mul a_start 2) a_len;
         b_center = saturating_add (saturating_mul b_start 2) b_len
     in abs_diff a_center b_center)"

section \<open>Resizing\<close>

text \<open>\<open>(a as i32 - b as i32).unsigned_abs()\<close> of two \<open>u16\<close> values.\<close>

definition i32_distance :: "u16 \<Rightarrow> u16 \<Rightarrow> nat" where
  "i32_distance a b = nat \<bar>int (unat a) - int (unat b)\<bar>"

fun split_edge_distance :: "split_border \<Rightarrow> rect \<Rightarrow> nav_direction \<Rightarrow> nat" where
  "split_edge_distance split focused NavLeft = i32_distance (sb_pos split) (r_x focused)"
| "split_edge_distance split focused NavRight = i32_distance (sb_pos split) (r_x focused + r_w focused)"
| "split_edge_distance split focused NavUp = i32_distance (sb_pos split) (r_y focused)"
| "split_edge_distance split focused NavDown = i32_distance (sb_pos split) (r_y focused + r_h focused)"

definition split_on_requested_edge :: "split_border \<Rightarrow> rect \<Rightarrow> nav_direction \<Rightarrow> bool" where
  "split_on_requested_edge split focused nav \<longleftrightarrow> split_edge_distance split focused nav \<le> 1"

definition split_area_overlaps_focused_pane :: "split_border \<Rightarrow> rect \<Rightarrow> nav_direction \<Rightarrow> bool" where
  "split_area_overlaps_focused_pane split focused nav =
    (case nav of
       NavLeft \<Rightarrow> ranges_overlap (r_y (sb_area split)) (r_h (sb_area split)) (r_y focused) (r_h focused)
     | NavRight \<Rightarrow> ranges_overlap (r_y (sb_area split)) (r_h (sb_area split)) (r_y focused) (r_h focused)
     | NavUp \<Rightarrow> ranges_overlap (r_x (sb_area split)) (r_w (sb_area split)) (r_x focused) (r_w focused)
     | NavDown \<Rightarrow> ranges_overlap (r_x (sb_area split)) (r_w (sb_area split)) (r_x focused) (r_w focused))"

definition nearest_resize_split ::
  "split_border list \<Rightarrow> direction \<Rightarrow> rect \<Rightarrow> nav_direction \<Rightarrow> split_border option" where
  "nearest_resize_split ss target_dir focused nav =
    min_by_key (\<lambda>s. split_edge_distance s focused nav)
      (filter (\<lambda>s. split_on_requested_edge s focused nav)
        (filter (\<lambda>s. split_area_overlaps_focused_pane s focused nav)
          (filter (\<lambda>s. sb_direction s = target_dir) ss)))"

fun opposite_direction :: "nav_direction \<Rightarrow> nav_direction" where
  "opposite_direction NavLeft = NavRight"
| "opposite_direction NavRight = NavLeft"
| "opposite_direction NavUp = NavDown"
| "opposite_direction NavDown = NavUp"

definition resize_focused ::
  "rect_new \<Rightarrow> nav_direction \<Rightarrow> f32 \<Rightarrow> rect \<Rightarrow> tile_layout \<Rightarrow> tile_layout" where
  "resize_focused mk nav delta area l =
    (case find pi_is_focused (panes mk area l) of
       None \<Rightarrow> l
     | Some focused \<Rightarrow>
         let focused_rect = pi_rect focused;
             ss = splits mk area l;
             target_dir = (case nav of NavLeft \<Rightarrow> Horizontal | NavRight \<Rightarrow> Horizontal
                             | NavUp \<Rightarrow> Vertical | NavDown \<Rightarrow> Vertical);
             grows = (case nav of NavRight \<Rightarrow> True | NavDown \<Rightarrow> True | _ \<Rightarrow> False);
             best = (case nearest_resize_split ss target_dir focused_rect nav of
                 Some s \<Rightarrow> Some s
               | None \<Rightarrow> nearest_resize_split ss target_dir focused_rect (opposite_direction nav))
         in case best of
              None \<Rightarrow> l
            | Some split \<Rightarrow>
                let path = sb_path split;
                    current_ratio = (case get_ratio_at (tl_root l) path of
                        Some r \<Rightarrow> r | None \<Rightarrow> f32_round (1/2));
                    adj = (if grows then delta else f_neg delta)
                in snd (set_ratio_at path (f32_add current_ratio adj) l))"

text \<open>\<open>Vec<(Vec<bool>, f32)>\<close> compared with \<open>==\<close>, where not-a-number differs from itself.\<close>

definition ratios_eq :: "(bool list \<times> f32) list \<Rightarrow> (bool list \<times> f32) list \<Rightarrow> bool" where
  "ratios_eq xs ys = list_all2 (\<lambda>(p, r) (q, s). p = q \<and> f_eq r s) xs ys"

definition resize_pane ::
  "rect_new \<Rightarrow> pane_id \<Rightarrow> nav_direction \<Rightarrow> f32 \<Rightarrow> rect \<Rightarrow> tile_layout \<Rightarrow> bool \<times> tile_layout" where
  "resize_pane mk i nav delta area l =
    (if i \<notin> set (pane_ids l) then (False, l)
     else let before = split_ratios (tl_root l);
              previous_focus = tl_focus l;
              l1 = resize_focused mk nav delta area (l\<lparr>tl_focus := i\<rparr>);
              l2 = l1\<lparr>tl_focus := previous_focus\<rparr>
          in (\<not> ratios_eq (split_ratios (tl_root l2)) before, l2))"

section \<open>Directional navigation\<close>

definition in_direction :: "rect \<Rightarrow> nav_direction \<Rightarrow> rect \<Rightarrow> bool" where
  "in_direction fr direction r =
    (case direction of
       NavLeft \<Rightarrow> r_x r + r_w r \<le> r_x fr \<and> ranges_overlap (r_y r) (r_h r) (r_y fr) (r_h fr)
     | NavRight \<Rightarrow> r_x r \<ge> r_x fr + r_w fr \<and> ranges_overlap (r_y r) (r_h r) (r_y fr) (r_h fr)
     | NavUp \<Rightarrow> r_y r + r_h r \<le> r_y fr \<and> ranges_overlap (r_x r) (r_w r) (r_x fr) (r_w fr)
     | NavDown \<Rightarrow> r_y r \<ge> r_y fr + r_h fr \<and> ranges_overlap (r_x r) (r_w r) (r_x fr) (r_w fr))"

text \<open>The sort key; \<open>Reverse(overlap)\<close> is the negated overlap.\<close>

definition nav_key :: "rect \<Rightarrow> nav_direction \<Rightarrow> nat \<times> pane_info \<Rightarrow> u16 \<times> int \<times> u16 \<times> nat" where
  "nav_key fr direction ip =
    (let (index, p) = ip; r = pi_rect p;
         edge_distance = (case direction of
             NavLeft \<Rightarrow> saturating_sub (r_x fr) (r_x r + r_w r)
           | NavRight \<Rightarrow> saturating_sub (r_x r) (r_x fr + r_w fr)
           | NavUp \<Rightarrow> saturating_sub (r_y fr) (r_y r + r_h r)
           | NavDown \<Rightarrow> saturating_sub (r_y r) (r_y fr + r_h fr));
         vertical = (direction = NavUp \<or> direction = NavDown);
         overlap = (if vertical then range_overlap_amount (r_x r) (r_w r) (r_x fr) (r_w fr)
                    else range_overlap_amount (r_y r) (r_h r) (r_y fr) (r_h fr));
         center_distance = (if vertical then range_center_distance (r_x r) (r_w r) (r_x fr) (r_w fr)
                            else range_center_distance (r_y r) (r_h r) (r_y fr) (r_h fr))
     in (edge_distance, - int (unat overlap), center_distance, index))"

definition find_in_direction :: "pane_info \<Rightarrow> nav_direction \<Rightarrow> pane_info list \<Rightarrow> pane_id option" where
  "find_in_direction focused direction ps =
    map_option (\<lambda>(_, p). pi_id p)
      (min_by_key (nav_key (pi_rect focused) direction)
        (filter (\<lambda>(_, p). in_direction (pi_rect focused) direction (pi_rect p))
          (filter (\<lambda>(_, p). pi_id p \<noteq> pi_id focused) (List.enumerate 0 ps))))"

section \<open>Cutting an area along a tree\<close>

text \<open>
  What the tree relies on when it cuts areas: each cut divides the cells of an area between its two
  parts. Every tree with valid ratios then divides the cells of the area between its leaves.
\<close>

fun areas :: "('r \<Rightarrow> direction \<Rightarrow> f32 \<Rightarrow> 'r \<times> 'r) \<Rightarrow> node \<Rightarrow> 'r \<Rightarrow> (pane_id \<times> 'r) list" where
  "areas cleave (Pane i) area = [(i, area)]"
| "areas cleave (Split d r first second) area =
     (let (a, b) = cleave area d r in areas cleave first a @ areas cleave second b)"

locale cutting =
  fixes cleave :: "'r \<Rightarrow> direction \<Rightarrow> f32 \<Rightarrow> 'r \<times> 'r"
    and cells :: "'r \<Rightarrow> 'c set"
    and good :: "'r \<Rightarrow> bool"
  assumes cleave_good: "good area \<Longrightarrow> valid_ratio r \<Longrightarrow> cleave area d r = (a, b) \<Longrightarrow> good a \<and> good b"
    and cleave_cells: "good area \<Longrightarrow> valid_ratio r \<Longrightarrow> cleave area d r = (a, b) \<Longrightarrow>
      cells a \<union> cells b = cells area"
    and cleave_disjoint: "good area \<Longrightarrow> valid_ratio r \<Longrightarrow> cleave area d r = (a, b) \<Longrightarrow>
      cells a \<inter> cells b = {}"
begin

lemma areas_cover:
  "good area \<Longrightarrow> ratios_ok t \<Longrightarrow> \<Union> (cells ` snd ` set (areas cleave t area)) = cells area"
proof (induction t arbitrary: area)
  case (Split d r first second)
  obtain a b where ab: "cleave area d r = (a, b)" by (cases "cleave area d r")
  have v: "valid_ratio r" "ratios_ok first" "ratios_ok second" using Split.prems by simp_all
  have g: "good a" "good b" using cleave_good [OF Split.prems(1) v(1) ab] by simp_all
  show ?case
    using Split.IH(1) [OF g(1) v(2)] Split.IH(2) [OF g(2) v(3)]
      cleave_cells [OF Split.prems(1) v(1) ab]
    by (simp only: areas.simps ab Let_def prod.case set_append image_Un Union_Un_distrib)
qed simp

lemma areas_disjoint:
  "good area \<Longrightarrow> ratios_ok t \<Longrightarrow>
   sorted_wrt (\<lambda>x y. cells (snd x) \<inter> cells (snd y) = {}) (areas cleave t area)"
proof (induction t arbitrary: area)
  case (Split d r first second)
  obtain a b where ab: "cleave area d r = (a, b)" by (cases "cleave area d r")
  have v: "valid_ratio r" "ratios_ok first" "ratios_ok second" using Split.prems by simp_all
  have g: "good a" "good b" using cleave_good [OF Split.prems(1) v(1) ab] by simp_all
  have dis: "cells a \<inter> cells b = {}" by (rule cleave_disjoint [OF Split.prems(1) v(1) ab])
  have "cells (snd x) \<inter> cells (snd y) = {}"
    if "x \<in> set (areas cleave first a)" "y \<in> set (areas cleave second b)" for x y
    using areas_cover [OF g(1) v(2)] areas_cover [OF g(2) v(3)] that dis by blast
  then show ?case
    using Split.IH(1) [OF g(1) v(2)] Split.IH(2) [OF g(2) v(3)] by (simp add: ab sorted_wrt_append)
qed simp

lemma areas_inside:
  "good area \<Longrightarrow> ratios_ok t \<Longrightarrow> x \<in> set (areas cleave t area) \<Longrightarrow> cells (snd x) \<subseteq> cells area"
  using areas_cover by blast

end

lemma areas_ids: "map fst (areas cleave t area) = collect_ids t"
  by (induction t arbitrary: area) (auto split: prod.splits)

lemma collect_panes_areas:
  "map (\<lambda>p. (pi_id p, pi_rect p)) (collect_panes mk t area focus) = areas (split_rect mk) t area"
  by (induction t arbitrary: area) (auto split: prod.splits)

section \<open>Rectangles of cells\<close>

definition rect_ok :: "rect \<Rightarrow> bool" where
  "rect_ok r \<longleftrightarrow> unat (r_x r) + unat (r_w r) \<le> 65535 \<and> unat (r_y r) + unat (r_h r) \<le> 65535"

definition rect_cells :: "rect \<Rightarrow> (nat \<times> nat) set" where
  "rect_cells r = {unat (r_x r) ..< unat (r_x r) + unat (r_w r)}
                  \<times> {unat (r_y r) ..< unat (r_y r) + unat (r_h r)}"

text \<open>The documented contract of ratatui's \<open>Rect::new\<close>: it limits the sides so that the sums fit.\<close>

definition rect_new_law :: "rect_new \<Rightarrow> bool" where
  "rect_new_law mk \<longleftrightarrow>
     (\<forall>x y w h. unat x + unat w \<le> 65535 \<longrightarrow> unat y + unat h \<le> 65535 \<longrightarrow>
        mk x y w h = \<lparr>r_x = x, r_y = y, r_w = w, r_h = h\<rparr>)"

definition rect_new_saturating :: rect_new where
  "rect_new_saturating x y w h =
     \<lparr>r_x = x, r_y = y, r_w = saturating_add x w - x, r_h = saturating_add y h - y\<rparr>"

lemma rect_new_saturating_law: "rect_new_law rect_new_saturating"
  by (simp add: rect_new_law_def rect_new_saturating_def saturating_add_def)

lemma first_part_le:
  assumes "valid_ratio r"
  shows "u16_of_f32 (f_round (f32_mul (f32_of_u16 w) r)) \<le> w"
proof -
  obtain q where q: "r = FNum q" "1/10 \<le> q" "q \<le> 91/100" using valid_ratio_num assms by blast
  have "0 \<le> q" using q(2) by linarith
  then have "0 \<le> of_nat (unat w) * q" by (intro mult_nonneg_nonneg of_nat_0_le_iff)
  moreover have "of_nat (unat w) * q \<le> of_nat (unat w) * 1"
  proof (rule mult_left_mono [OF _ of_nat_0_le_iff])
    show "q \<le> 1" using q(3) by linarith
  qed
  ultimately obtain x where "f32_round (of_nat (unat w) * q) = FNum x" "0 \<le> x" "x \<le> of_nat (unat w)"
    using f32_round_between [of "of_nat (unat w) * q" "unat w"] u16_bound [of w] by auto
  then show ?thesis using u16_of_f32_round_le by (simp add: q(1) f32_of_u16_def del: u16_of_f32.simps f_round.simps)
qed

lemma split_rect_Horizontal:
  assumes "rect_new_law mk" "rect_ok area" "valid_ratio r" "split_rect mk area Horizontal r = (a, b)"
  obtains w v where "unat w + unat v = unat (r_w area)"
    "a = area\<lparr>r_w := w\<rparr>" "b = area\<lparr>r_x := r_x area + w, r_w := v\<rparr>"
    "unat (r_x area + w) = unat (r_x area) + unat w"
proof -
  let ?w = "u16_of_f32 (f_round (f32_mul (f32_of_u16 (r_w area)) r))"
  let ?v = "saturating_sub (r_w area) ?w"
  have le: "unat ?w \<le> unat (r_w area)"
    using first_part_le [OF assms(3)] by (simp only: word_le_nat_alt)
  then have sum: "unat ?w + unat ?v = unat (r_w area)" by (simp only: unat_saturating_sub)
  have ok: "unat (r_x area) + unat (r_w area) \<le> 65535" "unat (r_y area) + unat (r_h area) \<le> 65535"
    using assms(2) by (simp_all add: rect_ok_def)
  then have x: "unat (r_x area + ?w) = unat (r_x area) + unat ?w"
    using le by (intro unat_add_small) simp
  have "(a, b) = (mk (r_x area) (r_y area) ?w (r_h area), mk (r_x area + ?w) (r_y area) ?v (r_h area))"
    using assms(4) by (simp add: split_rect_def Let_def)
  moreover have "mk (r_x area) (r_y area) ?w (r_h area) = area\<lparr>r_w := ?w\<rparr>"
    using assms(1) ok le unfolding rect_new_law_def by (cases area) simp
  moreover have "mk (r_x area + ?w) (r_y area) ?v (r_h area) = area\<lparr>r_x := r_x area + ?w, r_w := ?v\<rparr>"
    using assms(1) ok sum x unfolding rect_new_law_def by (cases area) simp
  ultimately show ?thesis using that sum x by auto
qed

lemma split_rect_Vertical:
  assumes "rect_new_law mk" "rect_ok area" "valid_ratio r" "split_rect mk area Vertical r = (a, b)"
  obtains h v where "unat h + unat v = unat (r_h area)"
    "a = area\<lparr>r_h := h\<rparr>" "b = area\<lparr>r_y := r_y area + h, r_h := v\<rparr>"
    "unat (r_y area + h) = unat (r_y area) + unat h"
proof -
  let ?h = "u16_of_f32 (f_round (f32_mul (f32_of_u16 (r_h area)) r))"
  let ?v = "saturating_sub (r_h area) ?h"
  have le: "unat ?h \<le> unat (r_h area)"
    using first_part_le [OF assms(3)] by (simp only: word_le_nat_alt)
  then have sum: "unat ?h + unat ?v = unat (r_h area)" by (simp only: unat_saturating_sub)
  have ok: "unat (r_x area) + unat (r_w area) \<le> 65535" "unat (r_y area) + unat (r_h area) \<le> 65535"
    using assms(2) by (simp_all add: rect_ok_def)
  then have y: "unat (r_y area + ?h) = unat (r_y area) + unat ?h"
    using le by (intro unat_add_small) simp
  have "(a, b) = (mk (r_x area) (r_y area) (r_w area) ?h, mk (r_x area) (r_y area + ?h) (r_w area) ?v)"
    using assms(4) by (simp add: split_rect_def Let_def)
  moreover have "mk (r_x area) (r_y area) (r_w area) ?h = area\<lparr>r_h := ?h\<rparr>"
    using assms(1) ok le unfolding rect_new_law_def by (cases area) simp
  moreover have "mk (r_x area) (r_y area + ?h) (r_w area) ?v = area\<lparr>r_y := r_y area + ?h, r_h := ?v\<rparr>"
    using assms(1) ok sum y unfolding rect_new_law_def by (cases area) simp
  ultimately show ?thesis using that sum y by auto
qed

lemma split_rect_good:
  assumes "rect_new_law mk" "rect_ok area" "valid_ratio r" "split_rect mk area d r = (a, b)"
  shows "rect_ok a \<and> rect_ok b"
proof (cases d)
  case Horizontal
  with assms obtain w v where "unat w + unat v = unat (r_w area)"
    "a = area\<lparr>r_w := w\<rparr>" "b = area\<lparr>r_x := r_x area + w, r_w := v\<rparr>"
    "unat (r_x area + w) = unat (r_x area) + unat w" using split_rect_Horizontal by metis
  with assms(2) show ?thesis by (simp add: rect_ok_def)
next
  case Vertical
  with assms obtain h v where "unat h + unat v = unat (r_h area)"
    "a = area\<lparr>r_h := h\<rparr>" "b = area\<lparr>r_y := r_y area + h, r_h := v\<rparr>"
    "unat (r_y area + h) = unat (r_y area) + unat h" using split_rect_Vertical by metis
  with assms(2) show ?thesis by (simp add: rect_ok_def)
qed

lemma split_rect_cells:
  assumes "rect_new_law mk" "rect_ok area" "valid_ratio r" "split_rect mk area d r = (a, b)"
  shows "rect_cells a \<union> rect_cells b = rect_cells area \<and> rect_cells a \<inter> rect_cells b = {}"
proof (cases d)
  case Horizontal
  with assms obtain w v where "unat w + unat v = unat (r_w area)"
    "a = area\<lparr>r_w := w\<rparr>" "b = area\<lparr>r_x := r_x area + w, r_w := v\<rparr>"
    "unat (r_x area + w) = unat (r_x area) + unat w" using split_rect_Horizontal by metis
  then show ?thesis by (auto simp: rect_cells_def)
next
  case Vertical
  with assms obtain h v where "unat h + unat v = unat (r_h area)"
    "a = area\<lparr>r_h := h\<rparr>" "b = area\<lparr>r_y := r_y area + h, r_h := v\<rparr>"
    "unat (r_y area + h) = unat (r_y area) + unat h" using split_rect_Vertical by metis
  then show ?thesis by (auto simp: rect_cells_def)
qed

locale ratatui_rect =
  fixes mk :: rect_new
  assumes new_law: "rect_new_law mk"
begin

lemma split_rect_partition:
  "rect_ok area \<Longrightarrow> valid_ratio r \<Longrightarrow> split_rect mk area d r = (a, b) \<Longrightarrow>
   rect_ok a \<and> rect_ok b \<and> rect_cells a \<union> rect_cells b = rect_cells area
   \<and> rect_cells a \<inter> rect_cells b = {}"
  using split_rect_good split_rect_cells new_law by blast

end

sublocale ratatui_rect \<subseteq> tiling: cutting "split_rect mk" rect_cells rect_ok
  by unfold_locales (auto dest: split_rect_partition)

interpretation saturating_rect: ratatui_rect rect_new_saturating
  by unfold_locales (rule rect_new_saturating_law)

lemma ratatui_tiling: "rect_new_law mk \<Longrightarrow> cutting (split_rect mk) rect_cells rect_ok"
  using split_rect_good split_rect_cells by (unfold_locales; blast)

section \<open>Panes tile the area\<close>

text \<open>
  C21: the rectangles of the panes partition the area of the tab: no cell is lost, none is covered
  twice, the panes come in tree order and exactly the focused one is marked.
\<close>

theorem panes_tile_area:
  assumes "rect_new_law mk" "rect_ok area" "layout_inv l"
  shows "\<Union> (rect_cells ` pi_rect ` set (panes mk area l)) = rect_cells area
    \<and> sorted_wrt (\<lambda>p q. rect_cells (pi_rect p) \<inter> rect_cells (pi_rect q) = {}) (panes mk area l)
    \<and> map pi_id (panes mk area l) = pane_ids l
    \<and> (\<forall>p \<in> set (panes mk area l). pi_is_focused p = (pi_id p = tl_focus l))"
proof -
  note mk = ratatui_tiling [OF assms(1)]
  have ok: "ratios_ok (tl_root l)" using assms(3) by (simp add: layout_inv_def)
  let ?A = "areas (split_rect mk) (tl_root l) area"
  have A: "?A = map (\<lambda>p. (pi_id p, pi_rect p)) (panes mk area l)"
    by (simp add: panes_def collect_panes_areas)
  have "set (map pi_rect (panes mk area l)) = snd ` set ?A" by (simp add: A image_image)
  moreover have "map pi_id (panes mk area l) = pane_ids l"
    using areas_ids [of "split_rect mk" "tl_root l" area] by (simp add: A pane_ids_def comp_def)
  moreover have "\<forall>p \<in> set (collect_panes mk t a f). pi_is_focused p = (pi_id p = f)" for t a f
    by (induction t arbitrary: a) (auto split: prod.splits)
  ultimately show ?thesis
    using cutting.areas_cover [OF mk assms(2) ok]
      cutting.areas_disjoint [OF mk assms(2) ok]
    by (simp add: panes_def A sorted_wrt_map)
qed

section \<open>Borders and ratios\<close>

lemma collect_splits_ratios:
  "map (\<lambda>s. (sb_path s, sb_ratio s)) (collect_splits mk t area path) = split_ratios_from path t"
  by (induction t arbitrary: area path) (auto split: prod.splits simp: Let_def)

lemma split_ratios_from_path:
  "(p, r) \<in> set (split_ratios_from path t) \<Longrightarrow> \<exists>q. p = path @ q \<and> get_ratio_at t q = Some r"
proof (induction t arbitrary: path)
  case (Split d ratio a b)
  consider "(p, r) = (path, ratio)" | "(p, r) \<in> set (split_ratios_from (path @ [False]) a)"
    | "(p, r) \<in> set (split_ratios_from (path @ [True]) b)" using Split.prems by auto
  then show ?case
  proof cases
    case 1
    then show ?thesis by (intro exI [of _ "[]"]) simp
  next
    case 2
    from Split.IH(1) [OF this] obtain q where "p = (path @ [False]) @ q" "get_ratio_at a q = Some r"
      by blast
    then show ?thesis by (intro exI [of _ "False # q"]) simp
  next
    case 3
    from Split.IH(2) [OF this] obtain q where "p = (path @ [True]) @ q" "get_ratio_at b q = Some r"
      by blast
    then show ?thesis by (intro exI [of _ "True # q"]) simp
  qed
qed simp

lemma splits_get_ratio: "s \<in> set (splits mk area l) \<Longrightarrow> get_ratio_at (tl_root l) (sb_path s) = Some (sb_ratio s)"
proof -
  assume "s \<in> set (splits mk area l)"
  then have "(sb_path s, sb_ratio s) \<in> set (map (\<lambda>s. (sb_path s, sb_ratio s)) (splits mk area l))"
    by force
  then show ?thesis
    using split_ratios_from_path [of "sb_path s" "sb_ratio s" "[]" "tl_root l"]
    by (simp add: splits_def collect_splits_ratios)
qed

lemma nearest_resize_split_in: "nearest_resize_split ss d f nav = Some s \<Longrightarrow> s \<in> set ss"
  by (auto simp: nearest_resize_split_def dest: min_by_key_Some)

text \<open>Resizing either does nothing or moves the ratio of one border of the layout by \<open>delta\<close>.\<close>

lemma resize_focused_cases:
  obtains (none) "resize_focused mk nav delta area l = l"
  | (moved) s d where "s \<in> set (splits mk area l)" "d = delta \<or> d = f_neg delta"
      "resize_focused mk nav delta area l =
        snd (set_ratio_at (sb_path s) (f32_add (sb_ratio s) d) l)"
proof (cases "find pi_is_focused (panes mk area l)")
  case None
  then show ?thesis by (intro none) (simp add: resize_focused_def)
next
  case (Some focused)
  let ?dir = "case nav of NavLeft \<Rightarrow> Horizontal | NavRight \<Rightarrow> Horizontal | NavUp \<Rightarrow> Vertical | NavDown \<Rightarrow> Vertical"
  let ?best = "case nearest_resize_split (splits mk area l) ?dir (pi_rect focused) nav of
      Some s \<Rightarrow> Some s
    | None \<Rightarrow> nearest_resize_split (splits mk area l) ?dir (pi_rect focused) (opposite_direction nav)"
  let ?d = "if (case nav of NavRight \<Rightarrow> True | NavDown \<Rightarrow> True | _ \<Rightarrow> False) then delta else f_neg delta"
  show ?thesis
  proof (cases ?best)
    case None
    with Some show ?thesis by (intro none) (simp add: resize_focused_def Let_def)
  next
    case best: (Some s)
    then have s: "s \<in> set (splits mk area l)"
      by (auto dest: nearest_resize_split_in split: option.splits)
    show ?thesis
    proof (rule moved [OF s, of ?d])
      show "?d = delta \<or> ?d = f_neg delta" by simp
      show "resize_focused mk nav delta area l =
          snd (set_ratio_at (sb_path s) (f32_add (sb_ratio s) ?d) l)"
        using Some best splits_get_ratio [OF s] by (simp add: resize_focused_def Let_def)
    qed
  qed
qed

lemma f32_round_not_nan [simp]: "f32_round x \<noteq> FNan"
  by (simp add: f32_round_def Let_def)

lemma f32_add_not_nan: "d \<noteq> FNan \<Longrightarrow> f32_add (FNum q) d \<noteq> FNan"
  by (cases d) auto

lemma ratios_ok_get: "ratios_ok t \<Longrightarrow> get_ratio_at t p = Some r \<Longrightarrow> valid_ratio r"
  by (induction t p rule: get_ratio_at.induct) (auto split: if_splits)

lemma resize_focused_inv [inv_intros]:
  assumes "ratios_ok (tl_root l)" "delta \<noteq> FNan"
  shows "ratios_ok (tl_root (resize_focused mk nav delta area l))
    \<and> pane_ids (resize_focused mk nav delta area l) = pane_ids l
    \<and> tl_focus (resize_focused mk nav delta area l) = tl_focus l
    \<and> tl_prev_focus (resize_focused mk nav delta area l) = tl_prev_focus l"
proof (rule resize_focused_cases [of mk nav delta area l])
  fix s d
  assume s: "s \<in> set (splits mk area l)" and d: "d = delta \<or> d = f_neg delta"
    and eq: "resize_focused mk nav delta area l =
        snd (set_ratio_at (sb_path s) (f32_add (sb_ratio s) d) l)"
  have "d \<noteq> FNan" using d assms(2) by (cases delta) auto
  moreover obtain q where "sb_ratio s = FNum q"
    using ratios_ok_get [OF assms(1) splits_get_ratio [OF s]] valid_ratio_num by blast
  ultimately have "valid_ratio (f_clamp (f32_add (sb_ratio s) d) ratio_min ratio_max)"
    by (simp add: valid_clamp f32_add_not_nan)
  with assms(1) show ?thesis
    unfolding eq by (simp add: set_ratio_at_def case_prod_beta pane_ids_def ratios_set)
qed (use assms in simp)

lemma resize_pane_inv [inv_intros]:
  assumes "layout_inv l" "delta \<noteq> FNan"
  shows "layout_inv (snd (resize_pane mk i nav delta area l))"
proof (cases "i \<in> set (pane_ids l)")
  case True
  let ?l = "l\<lparr>tl_focus := i\<rparr>"
  have "ratios_ok (tl_root ?l)" using assms(1) by (simp add: layout_inv_def)
  from resize_focused_inv [OF this assms(2)] True assms(1) show ?thesis
    by (simp add: resize_pane_def Let_def layout_inv_def pane_ids_def)
qed (use assms in \<open>simp add: resize_pane_def\<close>)

lemma split_ratios_valid: "ratios_ok t \<Longrightarrow> (q, r) \<in> set (split_ratios_from p t) \<Longrightarrow> valid_ratio r"
  by (induction t arbitrary: p) auto

lemma f_eq_valid: "valid_ratio r \<Longrightarrow> f_eq r s \<longleftrightarrow> r = s"
  by (erule valid_ratio_num) (cases s; auto)

lemma ratios_eq_iff:
  assumes "ratios_ok t"
  shows "ratios_eq (split_ratios t) rs \<longleftrightarrow> split_ratios t = rs"
proof -
  have eq: "list_all2 (\<lambda>(p, r) (q, s). p = q \<and> f_eq r s) xs rs \<longleftrightarrow> xs = rs"
    if "\<And>q r. (q, r) \<in> set xs \<Longrightarrow> valid_ratio r" for xs
    using that
  proof (induction xs arbitrary: rs)
    case (Cons x xs)
    then have "valid_ratio (snd x)" by (cases x) auto
    with Cons show ?case by (cases rs) (auto simp: f_eq_valid split: prod.splits)
  qed auto
  show ?thesis
    unfolding ratios_eq_def by (rule eq) (use split_ratios_valid [OF assms] in \<open>auto simp: split_ratios_def\<close>)
qed

text \<open>
  Resizing a pane changes the ratio of at most one border and keeps every ratio between the
  bounds, the panes and the focus; it reports a change exactly when some ratio is different.
\<close>

theorem resize_pane_effect:
  assumes "layout_inv l" "delta \<noteq> FNan" "resize_pane mk i nav delta area l = (changed, l')"
  shows "layout_inv l' \<and> pane_ids l' = pane_ids l \<and> tl_focus l' = tl_focus l
    \<and> tl_prev_focus l' = tl_prev_focus l
    \<and> (\<exists>path. \<forall>p. p \<noteq> path \<longrightarrow> get_ratio_at (tl_root l') p = get_ratio_at (tl_root l) p)
    \<and> changed = (split_ratios (tl_root l') \<noteq> split_ratios (tl_root l))"
proof (cases "i \<in> set (pane_ids l)")
  case True
  let ?r = "resize_focused mk nav delta area (l\<lparr>tl_focus := i\<rparr>)"
  have l': "l' = ?r\<lparr>tl_focus := tl_focus l\<rparr>"
    and ch: "changed = (\<not> ratios_eq (split_ratios (tl_root ?r)) (split_ratios (tl_root l)))"
    using assms(3) True by (auto simp: resize_pane_def Let_def)
  have ok: "ratios_ok (tl_root (l\<lparr>tl_focus := i\<rparr>))" using assms(1) by (simp add: layout_inv_def)
  have inv: "layout_inv l'" using resize_pane_inv [OF assms(1,2), of mk i nav area] assms(3) by simp
  have path: "\<exists>path. \<forall>p. p \<noteq> path \<longrightarrow> get_ratio_at (tl_root ?r) p = get_ratio_at (tl_root l) p"
  proof (rule resize_focused_cases [of mk nav delta area "l\<lparr>tl_focus := i\<rparr>"])
    fix s d
    assume eq: "?r = snd (set_ratio_at (sb_path s) (f32_add (sb_ratio s) d) (l\<lparr>tl_focus := i\<rparr>))"
    show ?thesis
      unfolding eq by (intro exI [of _ "sb_path s"])
        (simp add: set_ratio_at_def case_prod_beta get_set_ratio)
  qed simp
  have "ratios_ok (tl_root ?r)" using resize_focused_inv [OF ok assms(2)] by blast
  then have "changed = (split_ratios (tl_root ?r) \<noteq> split_ratios (tl_root l))"
    by (simp add: ch ratios_eq_iff)
  with path inv resize_focused_inv [OF ok assms(2), of mk nav area] show ?thesis
    by (simp add: l' pane_ids_def)
qed (use assms in \<open>auto simp: resize_pane_def\<close>)

section \<open>The neighbour of a pane\<close>

text \<open>
  Navigation from a pane goes to a pane of the list that is not the focused one, lies in the
  requested direction and has the least sort key among those that do, so the nearest edge first; it
  finds nothing only when no other pane lies in that direction.
\<close>

theorem find_in_direction_nearest:
  "case find_in_direction focused nav ps of
     None \<Rightarrow> \<forall>p \<in> set ps. pi_id p \<noteq> pi_id focused \<longrightarrow> \<not> in_direction (pi_rect focused) nav (pi_rect p)
   | Some i \<Rightarrow> \<exists>n < length ps. pi_id (ps ! n) = i \<and> i \<noteq> pi_id focused
       \<and> in_direction (pi_rect focused) nav (pi_rect (ps ! n))
       \<and> (\<forall>m < length ps. pi_id (ps ! m) \<noteq> pi_id focused \<and> in_direction (pi_rect focused) nav (pi_rect (ps ! m))
            \<longrightarrow> nav_key (pi_rect focused) nav (n, ps ! n) \<le> nav_key (pi_rect focused) nav (m, ps ! m))"
proof -
  let ?c = "filter (\<lambda>(_, p). in_direction (pi_rect focused) nav (pi_rect p))
        (filter (\<lambda>(_, p). pi_id p \<noteq> pi_id focused) (List.enumerate 0 ps))"
  have c: "(n, p) \<in> set ?c \<longleftrightarrow> n < length ps \<and> p = ps ! n \<and> pi_id p \<noteq> pi_id focused
      \<and> in_direction (pi_rect focused) nav (pi_rect p)" for n p
    by (auto simp: in_set_enumerate_eq)
  show ?thesis
  proof (cases "min_by_key (nav_key (pi_rect focused) nav) ?c")
    case None
    then have "?c = []" by (simp only: min_by_key_None)
    then have "\<not> in_direction (pi_rect focused) nav (pi_rect p)"
      if "p \<in> set ps" "pi_id p \<noteq> pi_id focused" for p
      using that c by (metis in_set_conv_nth list.set(1) empty_iff)
    with None show ?thesis by (simp add: find_in_direction_def)
  next
    case (Some np)
    obtain n p where np: "np = (n, p)" by (cases np)
    note m = min_by_key_Some [OF Some [unfolded np]]
    have "nav_key (pi_rect focused) nav (n, p) \<le> nav_key (pi_rect focused) nav (k, ps ! k)"
      if "k < length ps" "pi_id (ps ! k) \<noteq> pi_id focused" "in_direction (pi_rect focused) nav (pi_rect (ps ! k))" for k
      using m that c [of k "ps ! k"] by blast
    moreover have "(n, p) \<in> set ?c" using m by blast
    ultimately show ?thesis using Some np c [of n p] by (auto simp: find_in_direction_def)
  qed
qed

section \<open>Sequences of operations\<close>

text \<open>
  A tab drives its layout with these operations; \<open>None\<close> is a panic. The counter of pane ids is
  part of the state.
\<close>

datatype layout_op =
    OpSplit pane_id direction f32
  | OpInsert pane_id pane_id direction f32 bool
  | OpClose pane_id
  | OpCloseFocused
  | OpFocus pane_id
  | OpSwap pane_id pane_id
  | OpSetRatio "bool list" f32
  | OpResize pane_id nav_direction f32 rect

fun layout_step :: "rect_new \<Rightarrow> (tile_layout \<times> u32) option \<Rightarrow> layout_op \<Rightarrow> (tile_layout \<times> u32) option" where
  "layout_step mk None _ = None"
| "layout_step mk (Some s) (OpSplit i d r) = Some (snd (split_pane i d r s))"
| "layout_step mk (Some (l, n)) (OpInsert i j d r f) = Some (snd (insert_pane_near i j d r f l), n)"
| "layout_step mk (Some (l, n)) (OpClose i) = map_option (\<lambda>(_, l'). (l', n)) (close_pane i l)"
| "layout_step mk (Some (l, n)) OpCloseFocused = map_option (\<lambda>(_, l'). (l', n)) (close_focused l)"
| "layout_step mk (Some (l, n)) (OpFocus i) = Some (focus_pane i l, n)"
| "layout_step mk (Some (l, n)) (OpSwap i j) = Some (snd (swap_panes i j l), n)"
| "layout_step mk (Some (l, n)) (OpSetRatio p r) = Some (snd (set_ratio_at p r l), n)"
| "layout_step mk (Some (l, n)) (OpResize i nav d a) = Some (snd (resize_pane mk i nav d a l), n)"

text \<open>
  What the callers must respect: the counter is not exhausted, a moved pane was allocated before,
  and no ratio given from outside is a not-a-number.
\<close>

fun layout_op_ok :: "(tile_layout \<times> u32) option \<Rightarrow> layout_op \<Rightarrow> bool" where
  "layout_op_ok (Some (l, n)) (OpSplit _ _ _) = (n \<noteq> -1)"
| "layout_op_ok (Some (l, n)) (OpInsert _ j _ _ _) = (j < n)"
| "layout_op_ok _ (OpSetRatio _ r) = (r \<noteq> FNan)"
| "layout_op_ok _ (OpResize _ _ d _) = (d \<noteq> FNan)"
| "layout_op_ok _ _ = True"

definition layout_state_ok :: "(tile_layout \<times> u32) option \<Rightarrow> bool" where
  "layout_state_ok s = (case s of None \<Rightarrow> False | Some (l, n) \<Rightarrow> layout_inv l \<and> (\<forall>i \<in> set (pane_ids l). i < n))"

lemma insert_pane_near_ids: "set (pane_ids (snd (insert_pane_near i j d r f l))) \<subseteq> insert j (set (pane_ids l))"
  by (auto simp: insert_pane_near_def Let_def pane_ids_def set_focus_def set_split_at)

lemma swap_panes_ids: "set (pane_ids (snd (swap_panes i j l))) \<subseteq> set (pane_ids l)"
  by (auto simp: swap_panes_def Let_def pane_ids_def collect_ids_swap split: if_splits)

lemma close_focused_ids: "layout_inv l \<Longrightarrow> close_focused l = Some (b, l') \<Longrightarrow> set (pane_ids l') \<subseteq> set (pane_ids l)"
  by (erule close_focused_cases) (auto simp: pane_ids_def remove_pane_ids)

lemma close_pane_ids: "layout_inv l \<Longrightarrow> close_pane i l = Some (b, l') \<Longrightarrow> set (pane_ids l') \<subseteq> set (pane_ids l)"
proof -
  assume inv: "layout_inv l" and c: "close_pane i l = Some (b, l')"
  consider "close_focused l = Some (b, l')" | "l' = l"
    | "remove_pane (tl_root l) i = None" "tl_focus l \<noteq> i"
    | t where "remove_pane (tl_root l) i = Some t" "tl_root l' = t"
    using c by (auto simp: close_pane_def split: if_splits option.splits)
  then show "set (pane_ids l') \<subseteq> set (pane_ids l)"
  proof cases
    case 1
    then show ?thesis by (rule close_focused_ids [OF inv])
  next
    case 3
    then show ?thesis using inv by (auto simp: remove_pane_None layout_inv_def pane_ids_def)
  next
    case 4
    then show ?thesis by (auto simp: pane_ids_def remove_pane_ids)
  qed simp
qed

lemma split_pane_state:
  assumes "layout_inv l" "\<forall>i \<in> set (pane_ids l). i < n" "n \<noteq> -1"
  shows "layout_state_ok (Some (snd (split_pane i d r (l, n))))"
proof -
  have n: "x < n \<Longrightarrow> x < n + 1" "n < n + 1" for x
    using assms(3) by (simp_all add: less_plus_1 order_less_imp_le)
  have "n \<notin> set (pane_ids l)" using assms(2) by blast
  then have "layout_inv (fst (snd (split_pane i d r (l, n))))" by (rule split_pane_inv [OF assms(1)])
  with assms(2) n show ?thesis
    by (auto simp: layout_state_ok_def split_pane_def pane_alloc_def pane_ids_def set_split_at)
qed

lemma layout_step_ok:
  assumes "layout_state_ok s" "layout_op_ok s e"
  shows "layout_state_ok (layout_step mk s e)"
proof -
  obtain l n where s: "s = Some (l, n)" "layout_inv l" "\<forall>i \<in> set (pane_ids l). i < n"
    using assms(1) by (auto simp: layout_state_ok_def split: option.splits)
  show ?thesis
  proof (cases e)
    case (OpSplit i d r)
    with s assms(2) split_pane_state show ?thesis by simp
  next
    case (OpInsert i j d r f)
    with s assms(2) insert_pane_near_inv insert_pane_near_ids [of i j d r f l] show ?thesis
      by (auto simp: layout_state_ok_def)
  next
    case (OpClose i)
    from close_pane_inv [OF s(2), of i] obtain b l' where
      c: "close_pane i l = Some (b, l')" "layout_inv l'" by blast
    with close_pane_ids [OF s(2) c(1)] OpClose s show ?thesis by (auto simp: layout_state_ok_def)
  next
    case OpCloseFocused
    from close_focused_inv [OF s(2)] obtain b l' where
      c: "close_focused l = Some (b, l')" "layout_inv l'" by blast
    with close_focused_ids [OF s(2) c(1)] OpCloseFocused s show ?thesis by (auto simp: layout_state_ok_def)
  next
    case (OpFocus i)
    with s focus_pane_inv show ?thesis
      by (auto simp: layout_state_ok_def focus_pane_def set_focus_def pane_ids_def)
  next
    case (OpSwap i j)
    with s swap_panes_inv swap_panes_ids [of i j l] show ?thesis by (auto simp: layout_state_ok_def)
  next
    case (OpSetRatio p r)
    with s assms(2) set_ratio_at_inv [OF s(2), of r p] show ?thesis
      by (simp add: layout_state_ok_def set_ratio_at_def case_prod_beta pane_ids_def)
  next
    case (OpResize i nav d a)
    with s assms(2) have d: "d \<noteq> FNan" by simp
    have "pane_ids (snd (resize_pane mk i nav d a l)) = pane_ids l"
      using resize_focused_inv [of "l\<lparr>tl_focus := i\<rparr>" d mk nav a] s(2) d
      by (simp add: resize_pane_def Let_def pane_ids_def layout_inv_def)
    with s OpResize resize_pane_inv [OF s(2) d] show ?thesis by (simp add: layout_state_ok_def)
  qed
qed

interpretation layout: machine "layout_step mk" layout_op_ok layout_state_ok
  by unfold_locales (rule layout_step_ok)

text \<open>
  C22: from a fresh tab, no sequence of layout operations that respects the callers' obligations
  panics, repeats a pane, loses the focus or leaves a ratio outside its bounds, at any moment.
\<close>

theorem layout_run_safe:
  assumes "tl_new next_id = ((l, root_id), n)" "next_id \<noteq> -1"
    and "ok_run (layout_step mk) layout_op_ok (Some (l, n)) es"
  shows "\<exists>l' n'. foldl (layout_step mk) (Some (l, n)) (take k es) = Some (l', n') \<and> layout_inv l'
    \<and> (\<forall>i \<in> set (pane_ids l'). i < n')"
proof -
  have "next_id < next_id + 1" using assms(2) by (simp add: less_plus_1)
  with assms(1) have "layout_state_ok (Some (l, n))"
    by (auto simp: tl_new_def pane_alloc_def layout_state_ok_def layout_inv_def pane_ids_def)
  from layout.run_inv_at [OF this assms(3), of k] show ?thesis
    by (auto simp: layout_state_ok_def split: option.splits)
qed

section \<open>Witnesses\<close>

definition demo_area :: rect where
  "demo_area = \<lparr>r_x = 0, r_y = 0, r_w = 80, r_h = 24\<rparr>"

theorem panes_tile_area_witness:
  "rect_new_law rect_new_saturating \<and> rect_ok demo_area \<and> layout_inv demo_layout
   \<and> \<Union> (rect_cells ` pi_rect ` set (panes rect_new_saturating demo_area demo_layout)) = rect_cells demo_area"
proof -
  have "rect_ok demo_area" by (simp add: demo_area_def rect_ok_def)
  then show ?thesis
    using panes_tile_area [OF rect_new_saturating_law _ demo_layout_inv]
      rect_new_saturating_law demo_layout_inv by blast
qed

theorem resize_pane_effect_witness:
  "\<exists>changed l'. resize_pane rect_new_saturating 3 NavLeft (FNum (1/20)) demo_area demo_layout = (changed, l')
     \<and> layout_inv l' \<and> pane_ids l' = [1, 2, 3] \<and> tl_focus l' = tl_focus demo_layout"
proof -
  obtain changed l' where
    s: "resize_pane rect_new_saturating 3 NavLeft (FNum (1/20)) demo_area demo_layout = (changed, l')"
    by (cases "resize_pane rect_new_saturating 3 NavLeft (FNum (1/20)) demo_area demo_layout")
  from resize_pane_effect [OF demo_layout_inv _ s] s show ?thesis by (simp add: demo_layout_ids)
qed

theorem layout_run_safe_witness:
  "\<exists>l' n'. foldl (layout_step rect_new_saturating)
       (Some (\<lparr>tl_root = Pane 1, tl_focus = 1, tl_prev_focus = None\<rparr>, 2))
       [OpSplit 1 Vertical (FNum (1/2)), OpFocus 2, OpCloseFocused] = Some (l', n') \<and> layout_inv l'"
proof -
  let ?es = "[OpSplit 1 Vertical (FNum (1/2)), OpFocus 2, OpCloseFocused]"
  let ?l = "\<lparr>tl_root = Pane 1, tl_focus = 1, tl_prev_focus = None\<rparr>"
  have new: "tl_new 1 = ((?l, 1), 2)" by (simp add: tl_new_def pane_alloc_def)
  have "layout_op_ok s OpCloseFocused" "layout_op_ok s (OpFocus 2)" for s
    by (cases s; simp)+
  then have "ok_run (layout_step rect_new_saturating) layout_op_ok (Some (?l, 2)) ?es" by simp
  from layout_run_safe [OF new _ this, of 3] show ?thesis by auto
qed

definition demo_pane :: "pane_id \<Rightarrow> rect \<Rightarrow> pane_info" where
  "demo_pane i r = \<lparr>pi_id = i, pi_rect = r, pi_inner_rect = r, pi_scrollbar_rect = None,
     pi_borders = 0, pi_is_focused = (i = 1)\<rparr>"

definition demo_panes :: "pane_info list" where
  "demo_panes =
    [demo_pane 1 \<lparr>r_x = 0, r_y = 0, r_w = 40, r_h = 24\<rparr>,
     demo_pane 2 \<lparr>r_x = 40, r_y = 0, r_w = 40, r_h = 10\<rparr>,
     demo_pane 3 \<lparr>r_x = 40, r_y = 10, r_w = 40, r_h = 14\<rparr>]"

theorem find_in_direction_nearest_witness:
  "find_in_direction (demo_panes ! 0) NavRight demo_panes = Some 3
   \<and> nav_key (pi_rect (demo_panes ! 0)) NavRight (2, demo_panes ! 2)
     \<le> nav_key (pi_rect (demo_panes ! 0)) NavRight (1, demo_panes ! 1)"
proof -
  let ?f = "demo_panes ! 0"
  have found: "find_in_direction ?f NavRight demo_panes = Some 3"
    by (simp add: demo_panes_def demo_pane_def find_in_direction_def in_direction_def ranges_overlap_def
        nav_key_def Let_def range_overlap_amount_def range_center_distance_def saturating_add_def
        saturating_sub_def saturating_mul_def abs_diff_def)
  have ids: "length demo_panes = 3" "pi_id ?f = 1" "pi_id (demo_panes ! 1) = 2" "pi_id (demo_panes ! 2) = 3"
    "in_direction (pi_rect ?f) NavRight (pi_rect (demo_panes ! 1))"
    by (simp_all add: demo_panes_def demo_pane_def in_direction_def ranges_overlap_def)
  obtain n where n: "n < length demo_panes" "pi_id (demo_panes ! n) = 3"
    and least: "\<forall>m < length demo_panes. pi_id (demo_panes ! m) \<noteq> pi_id ?f
        \<and> in_direction (pi_rect ?f) NavRight (pi_rect (demo_panes ! m))
        \<longrightarrow> nav_key (pi_rect ?f) NavRight (n, demo_panes ! n) \<le> nav_key (pi_rect ?f) NavRight (m, demo_panes ! m)"
    using find_in_direction_nearest [where focused = ?f and nav = NavRight and ps = demo_panes] found by auto
  have "n = 0 \<or> n = 1 \<or> n = 2" using n(1) ids(1) by linarith
  then have "n = 2" using n(2) ids(2,3) by auto
  moreover have "nav_key (pi_rect ?f) NavRight (n, demo_panes ! n) \<le> nav_key (pi_rect ?f) NavRight (1, demo_panes ! 1)"
    by (rule least [rule_format]) (use ids in simp_all)
  ultimately show ?thesis using found by simp
qed

end
