(* ===== verification/Tab.thy ===== *)
theory Tab
  imports Layout "HOL-Library.Multiset"
begin

text \<open>
  A tab (\<open>workspace/tab.rs\<close>): a tiling layout, the state of each of its panes and the pane it takes
  its identity from. Starting a terminal is I/O: \<open>spawn\<close> is a parameter that maps the new pane to an
  error or to the identity of its terminal. Event channels and redraw signals are not modelled.
\<close>

section \<open>Data\<close>

type_synonym terminal_id = str

record pane_state =
  attached_terminal_id :: terminal_id
  seen :: bool
  right_click_passthrough :: bool

definition pane_state_new :: "terminal_id \<Rightarrow> pane_state" where
  "pane_state_new i = \<lparr>attached_terminal_id = i, seen = True, right_click_passthrough = False\<rparr>"

record moved_pane =
  mp_pane_id :: pane_id
  mp_pane_state :: pane_state

record new_pane =
  np_pane_id :: pane_id
  np_terminal :: terminal_id

type_synonym detached_pane = "pane_id \<times> terminal_id"

record tab =
  tb_custom_name :: "str option"
  tb_number :: u64
  tb_root_pane :: pane_id
  tb_layout :: tile_layout
  tb_panes :: "pane_id \<rightharpoonup> pane_state"
  tb_zoomed :: bool

datatype 'e io_error = NotFound str | SpawnError 'e

section \<open>Operations\<close>

definition tab_new_with_runtime ::
  "u64 \<Rightarrow> (pane_id \<Rightarrow> 'e + terminal_id) \<Rightarrow> u32 \<Rightarrow> ('e + tab \<times> terminal_id) \<times> u32" where
  "tab_new_with_runtime number spawn next_id =
    (let ((l, root_id), next') = tl_new next_id in
     case spawn root_id of
       Inl err \<Rightarrow> (Inl err, next')
     | Inr terminal \<Rightarrow>
         (Inr (\<lparr>tb_custom_name = None, tb_number = number, tb_root_pane = root_id, tb_layout = l,
               tb_panes = [root_id \<mapsto> pane_state_new terminal], tb_zoomed = False\<rparr>, terminal), next'))"

text \<open>Splitting returns \<open>None\<close> where closing the new pane again would panic.\<close>

definition tab_split_pane_with_runtime ::
  "(pane_id \<Rightarrow> 'e + terminal_id) \<Rightarrow> pane_id \<Rightarrow> bool \<Rightarrow> direction \<Rightarrow> f32 option \<Rightarrow> tab \<times> u32
   \<Rightarrow> (('e io_error + new_pane) \<times> tab \<times> u32) option" where
  "tab_split_pane_with_runtime spawn target focus_new_pane direction ratio st =
    (let (t, next_id) = st in
     case split_pane target direction (case ratio of None \<Rightarrow> f32_round (1/2) | Some r \<Rightarrow> r) (tb_layout t, next_id) of
       (None, l, next') \<Rightarrow>
         Some (Inl (NotFound (lit ''split target pane is not in the layout'')), t\<lparr>tb_layout := l\<rparr>, next')
     | (Some new_id, l, next') \<Rightarrow>
         (case spawn new_id of
            Inl err \<Rightarrow>
              map_option (\<lambda>(_, l'). (Inl (SpawnError err), t\<lparr>tb_layout := l'\<rparr>, next')) (close_pane new_id l)
          | Inr terminal \<Rightarrow>
              Some (Inr \<lparr>np_pane_id = new_id, np_terminal = terminal\<rparr>,
                t\<lparr>tb_layout := (if focus_new_pane then focus_pane new_id l else l),
                  tb_panes := (tb_panes t)(new_id \<mapsto> pane_state_new terminal), tb_zoomed := False\<rparr>, next')))"

definition tab_split_focused_command ::
  "(pane_id \<Rightarrow> 'e + terminal_id) \<Rightarrow> direction \<Rightarrow> tab \<times> u32
   \<Rightarrow> (('e io_error + new_pane) \<times> tab \<times> u32) option" where
  "tab_split_focused_command spawn direction st =
     tab_split_pane_with_runtime spawn (tl_focus (tb_layout (fst st))) True direction None st"

definition promoted_root_if_needed :: "pane_id \<Rightarrow> tab \<Rightarrow> pane_id option" where
  "promoted_root_if_needed closing t =
    (if tb_root_pane t \<noteq> closing then None else find (\<lambda>i. i \<noteq> closing) (pane_ids (tb_layout t)))"

definition promote :: "pane_id option \<Rightarrow> tab \<Rightarrow> tab" where
  "promote next_root t = (case next_root of None \<Rightarrow> t | Some r \<Rightarrow> t\<lparr>tb_root_pane := r\<rparr>)"

text \<open>Detaching and taking return \<open>None\<close> where closing the pane in the layout would panic.\<close>

definition detach_pane :: "pane_id \<Rightarrow> tab \<Rightarrow> (detached_pane option \<times> tab) option" where
  "detach_pane i t =
    (if pane_count (tb_layout t) \<le> 1 then Some (None, t)
     else let next_root = promoted_root_if_needed i t in
       case close_pane i (tb_layout t) of
         None \<Rightarrow> None
       | Some (_, l) \<Rightarrow>
           (case tb_panes t i of
              None \<Rightarrow> Some (None, t\<lparr>tb_layout := l\<rparr>)
            | Some pane \<Rightarrow>
                Some (Some (i, attached_terminal_id pane),
                  promote next_root (t\<lparr>tb_layout := l, tb_panes := (tb_panes t)(i := None), tb_zoomed := False\<rparr>))))"

definition tab_close_pane :: "pane_id \<Rightarrow> tab \<Rightarrow> (detached_pane option \<times> tab) option" where
  "tab_close_pane i t = detach_pane i t"

definition tab_remove_pane :: "pane_id \<Rightarrow> tab \<Rightarrow> (detached_pane option \<times> tab) option" where
  "tab_remove_pane i t = detach_pane i t"

definition tab_from_existing_pane :: "u64 \<Rightarrow> str option \<Rightarrow> moved_pane \<Rightarrow> tab" where
  "tab_from_existing_pane number custom_name moved =
     \<lparr>tb_custom_name = custom_name, tb_number = number, tb_root_pane = mp_pane_id moved,
      tb_layout = from_saved (Pane (mp_pane_id moved)) (mp_pane_id moved),
      tb_panes = [mp_pane_id moved \<mapsto> mp_pane_state moved], tb_zoomed = False\<rparr>"

definition tab_take_pane_for_move :: "pane_id \<Rightarrow> tab \<Rightarrow> (moved_pane option \<times> tab) option" where
  "tab_take_pane_for_move i t =
    (case tb_panes t i of
       None \<Rightarrow> Some (None, t)
     | Some pane \<Rightarrow>
         map_option (\<lambda>t1. (Some \<lparr>mp_pane_id = i, mp_pane_state = pane\<rparr>,
             t1\<lparr>tb_panes := (tb_panes t1)(i := None), tb_zoomed := False\<rparr>))
           (if pane_count (tb_layout t) > 1
            then let next_root = promoted_root_if_needed i t
                 in map_option (\<lambda>(_, l). promote next_root (t\<lparr>tb_layout := l\<rparr>)) (close_pane i (tb_layout t))
            else Some t))"

definition insert_existing_pane ::
  "pane_id \<Rightarrow> moved_pane \<Rightarrow> direction \<Rightarrow> f32 \<Rightarrow> bool \<Rightarrow> tab \<Rightarrow> (moved_pane + pane_id) \<times> tab" where
  "insert_existing_pane target moved direction ratio focus t =
    (case insert_pane_near target (mp_pane_id moved) direction ratio focus (tb_layout t) of
       (False, l) \<Rightarrow> (Inl moved, t\<lparr>tb_layout := l\<rparr>)
     | (True, l) \<Rightarrow>
         (Inr (mp_pane_id moved),
          t\<lparr>tb_layout := l, tb_panes := (tb_panes t)(mp_pane_id moved \<mapsto> mp_pane_state moved), tb_zoomed := False\<rparr>))"

section \<open>The invariant\<close>

text \<open>The panes with a state are exactly those of the layout, and the root is one of them.\<close>

definition tab_inv :: "tab \<Rightarrow> bool" where
  "tab_inv t \<longleftrightarrow> layout_inv (tb_layout t) \<and> dom (tb_panes t) = set (pane_ids (tb_layout t))
     \<and> tb_root_pane t \<in> dom (tb_panes t)"

text \<open>The panes of a tab in order, each with its terminal.\<close>

definition tab_entries :: "tab \<Rightarrow> (pane_id \<times> terminal_id) list" where
  "tab_entries t = map (\<lambda>i. (i, attached_terminal_id (the (tb_panes t i)))) (pane_ids (tb_layout t))"

lemma fst_tab_entries [simp]: "map fst (tab_entries t) = pane_ids (tb_layout t)"
  by (simp add: tab_entries_def comp_def)

lemma tab_entries_fst: "tab_inv t \<Longrightarrow> fst ` set (tab_entries t) = dom (tb_panes t)"
  by (force simp: tab_entries_def tab_inv_def)

lemma tab_entries_nonempty [simp]: "tab_entries t \<noteq> []"
  by (simp add: tab_entries_def pane_ids_def)

lemma tab_inv_distinct: "tab_inv t \<Longrightarrow> distinct (pane_ids (tb_layout t))"
  by (simp add: tab_inv_def layout_inv_def)

lemma tab_entry:
  "tab_inv t \<Longrightarrow> (i, j) \<in> set (tab_entries t) \<longleftrightarrow> (\<exists>p. tb_panes t i = Some p \<and> j = attached_terminal_id p)"
  by (force simp: tab_entries_def tab_inv_def dom_def)

lemma mset_insert_after:
  assumes "distinct is" "target \<in> set is"
  shows "mset (concat (map (\<lambda>i. if i = target then [i, new] else [i]) is)) = add_mset new (mset is)"
  using assms
proof (induction "is")
  case (Cons a xs)
  have id: "concat (map (\<lambda>i. if i = target then [i, new] else [i]) ys) = ys" if "target \<notin> set ys" for ys
    using that by (induction ys) auto
  show ?case using Cons id [of xs] by (cases "a = target") auto
qed simp

lemma entries_insert:
  assumes "tab_inv t" "new \<notin> dom (tb_panes t)"
    and "mset (pane_ids l') = add_mset new (mset (pane_ids (tb_layout t)))"
    and "tb_layout t' = l'" "tb_panes t' = (tb_panes t)(new \<mapsto> p)"
  shows "mset (tab_entries t') = add_mset (new, attached_terminal_id p) (mset (tab_entries t))"
proof -
  let ?f = "\<lambda>i. (i, attached_terminal_id (the (tb_panes t i)))"
  let ?f' = "\<lambda>i. (i, attached_terminal_id (the (tb_panes t' i)))"
  have "image_mset ?f' (mset (pane_ids (tb_layout t))) = image_mset ?f (mset (pane_ids (tb_layout t)))"
    by (rule image_mset_cong) (use assms(1,2,5) in \<open>auto simp: tab_inv_def\<close>)
  then have "image_mset ?f' (mset (pane_ids l')) = add_mset (?f' new) (image_mset ?f (mset (pane_ids (tb_layout t))))"
    by (simp add: assms(3))
  then show ?thesis by (simp add: tab_entries_def assms(4,5))
qed

lemma entries_remove:
  assumes "pane_ids (tb_layout t') = filter (\<lambda>j. j \<noteq> i) (pane_ids (tb_layout t))"
    and "tb_panes t' = (tb_panes t)(i := None)"
  shows "tab_entries t' = filter (\<lambda>e. fst e \<noteq> i) (tab_entries t)"
  unfolding tab_entries_def assms(1)
  by (simp add: filter_map comp_def assms(2))

section \<open>Creating and splitting\<close>

lemma tab_new_ok:
  assumes "tab_new_with_runtime n spawn next_id = (Inr (t, terminal), next')"
  shows "tab_inv t" "tab_entries t = [(next_id, terminal)]" "tb_number t = n" "tb_root_pane t = next_id"
    "spawn next_id = Inr terminal" "next' = next_id + 1" "tl_focus (tb_layout t) = next_id"
  using assms
  by (auto simp: tab_new_with_runtime_def tl_new_def pane_alloc_def tab_inv_def layout_inv_def pane_ids_def
      tab_entries_def pane_state_new_def split: sum.splits if_splits)

lemma tab_from_existing_ok [simp]:
  "tab_inv (tab_from_existing_pane n c m)"
  "tab_entries (tab_from_existing_pane n c m) = [(mp_pane_id m, attached_terminal_id (mp_pane_state m))]"
  "tb_number (tab_from_existing_pane n c m) = n"
  by (simp_all add: tab_from_existing_pane_def tab_inv_def layout_inv_def from_saved_def pane_ids_def
      tab_entries_def)

lemma split_ids:
  assumes "layout_inv l" "target \<in> set (pane_ids l)" "next_id \<notin> set (pane_ids l)"
    and "split_pane target d r (l, next_id) = (new, l', next')"
  shows "new = Some next_id" "next' = next_id + 1" "layout_inv l'" "close_pane next_id l' = Some (True, l)"
    "mset (pane_ids l') = add_mset next_id (mset (pane_ids l))" "tl_focus l' = tl_focus l"
proof -
  note s = split_pane_close [OF assms]
  show "new = Some next_id" "next' = next_id + 1" "close_pane next_id l' = Some (True, l)" "tl_focus l' = tl_focus l"
    using s by auto
  show "layout_inv l'" using split_pane_inv [OF assms(1,3), of target d r] by (simp add: assms(4))
  have "distinct (pane_ids l)" using assms(1) by (simp add: layout_inv_def)
  moreover have ids: "pane_ids l' = concat (map (\<lambda>i. if i = target then [i, next_id] else [i]) (pane_ids l))"
    using s by blast
  ultimately show "mset (pane_ids l') = add_mset next_id (mset (pane_ids l))"
    unfolding ids by (intro mset_insert_after assms(2))
qed

lemma set_focus_root [simp]: "tl_root (set_focus i l) = tl_root l"
  by (simp add: set_focus_def)

lemma focus_pane_ids [simp]: "pane_ids (focus_pane i l) = pane_ids l"
  by (simp add: focus_pane_def set_focus_def pane_ids_def)

text \<open>
  A split whose terminal starts puts the new pane into the tab; one whose terminal does not start
  leaves the tab as it was. Splitting a pane that is not there changes nothing.
\<close>

lemma tab_split_cases:
  assumes "tab_inv t" "next_id \<notin> dom (tb_panes t)" "target \<in> dom (tb_panes t)"
  obtains
    (failed) e where "spawn next_id = Inl e"
      "tab_split_pane_with_runtime spawn target f d r (t, next_id) = Some (Inl (SpawnError e), t, next_id + 1)"
  | (split) terminal t' where "spawn next_id = Inr terminal"
      "tab_split_pane_with_runtime spawn target f d r (t, next_id)
        = Some (Inr \<lparr>np_pane_id = next_id, np_terminal = terminal\<rparr>, t', next_id + 1)"
      "tab_inv t'" "mset (tab_entries t') = add_mset (next_id, terminal) (mset (tab_entries t))"
      "tb_number t' = tb_number t" "tb_root_pane t' = tb_root_pane t" "next_id \<in> dom (tb_panes t')"
      "tl_focus (tb_layout t') = (if f then next_id else tl_focus (tb_layout t))"
proof -
  let ?r = "case r of None \<Rightarrow> f32_round (1/2) | Some r \<Rightarrow> r"
  obtain new l n where s: "split_pane target d ?r (tb_layout t, next_id) = (new, l, n)"
    by (cases "split_pane target d ?r (tb_layout t, next_id)")
  have inv: "layout_inv (tb_layout t)" "dom (tb_panes t) = set (pane_ids (tb_layout t))"
      "tb_root_pane t \<in> dom (tb_panes t)"
    using assms(1) by (auto simp: tab_inv_def)
  have mem: "target \<in> set (pane_ids (tb_layout t))" "next_id \<notin> set (pane_ids (tb_layout t))"
    using assms(2,3) unfolding inv(2) by blast+
  note k = split_ids [OF inv(1) mem s]
  show ?thesis
  proof (cases "spawn next_id")
    case (Inl e)
    have "t\<lparr>tb_layout := tb_layout t\<rparr> = t" by simp
    with Inl k s show ?thesis by (intro failed) (simp_all add: tab_split_pane_with_runtime_def)
  next
    case (Inr terminal)
    define l' where "l' = (if f then focus_pane next_id l else l)"
    have l': "pane_ids l' = pane_ids l" "layout_inv l'"
      using k(3) by (auto simp: l'_def focus_pane_inv)
    have ids: "set (pane_ids l) = insert next_id (set (pane_ids (tb_layout t)))"
      using arg_cong [OF k(5), of set_mset] by simp
    have foc: "tl_focus l' = (if f then next_id else tl_focus (tb_layout t))"
      using k(6) ids by (auto simp: l'_def focus_pane_def set_focus_def)
    let ?t = "t\<lparr>tb_layout := l', tb_panes := (tb_panes t)(next_id \<mapsto> pane_state_new terminal), tb_zoomed := False\<rparr>"
    have "tab_inv ?t" using inv l' ids by (simp add: tab_inv_def)
    moreover have "mset (tab_entries ?t) = add_mset (next_id, terminal) (mset (tab_entries t))"
      using entries_insert [OF assms(1,2), of l' ?t "pane_state_new terminal"] k(5) l'
      by (simp add: pane_state_new_def)
    moreover have "tab_split_pane_with_runtime spawn target f d r (t, next_id)
        = Some (Inr \<lparr>np_pane_id = next_id, np_terminal = terminal\<rparr>, ?t, next_id + 1)"
      using Inr k s by (simp add: tab_split_pane_with_runtime_def l'_def)
    ultimately show ?thesis using Inr foc by (intro split [of terminal ?t]) simp_all
  qed
qed

lemma tab_insert_ok:
  assumes "tab_inv t" "mp_pane_id m \<notin> dom (tb_panes t)" "target \<in> dom (tb_panes t)"
  shows "\<exists>t'. insert_existing_pane target m d r f t = (Inr (mp_pane_id m), t') \<and> tab_inv t'
    \<and> mset (tab_entries t') = add_mset (mp_pane_id m, attached_terminal_id (mp_pane_state m)) (mset (tab_entries t))
    \<and> tb_number t' = tb_number t
    \<and> tl_focus (tb_layout t') = (if f then mp_pane_id m else tl_focus (tb_layout t))"
proof -
  let ?i = "mp_pane_id m" and ?l = "tb_layout t"
  let ?l1 = "?l\<lparr>tl_root := split_at (tl_root ?l) target d ?i (valid_split_ratio r)\<rparr>"
  define l' where "l' = (if f then set_focus ?i ?l1 else ?l1)"
  have inv: "layout_inv ?l" "dom (tb_panes t) = set (pane_ids ?l)" "tb_root_pane t \<in> dom (tb_panes t)"
    using assms(1) by (auto simp: tab_inv_def)
  have mem: "target \<in> set (pane_ids ?l)" "?i \<notin> set (pane_ids ?l)" using assms(2,3) inv(2) by auto
  have ins: "insert_pane_near target ?i d r f ?l = (True, l')"
    using mem by (auto simp: insert_pane_near_def l'_def Let_def)
  have l': "pane_ids l' = concat (map (\<lambda>j. if j = target then [j, ?i] else [j]) (pane_ids ?l))"
    by (simp add: l'_def pane_ids_def collect_ids_split_at)
  have ids: "mset (pane_ids l') = add_mset ?i (mset (pane_ids ?l))"
    using mset_insert_after [OF _ mem(1), of ?i] inv(1)
    unfolding l' by (simp add: layout_inv_def)
  have "layout_inv l'" using insert_pane_near_inv [OF inv(1), of target ?i d r f] by (simp add: ins)
  moreover have "set (pane_ids l') = insert ?i (set (pane_ids ?l))"
    using arg_cong [OF ids, of set_mset] by simp
  moreover have "tl_focus l' = (if f then ?i else tl_focus ?l)" by (simp add: l'_def set_focus_def)
  ultimately show ?thesis
    using inv entries_insert [OF assms(1,2) ids, of
        "t\<lparr>tb_layout := l', tb_panes := (tb_panes t)(?i \<mapsto> mp_pane_state m), tb_zoomed := False\<rparr>" "mp_pane_state m"]
    by (auto simp: insert_existing_pane_def ins tab_inv_def)
qed

section \<open>Taking panes out\<close>

lemma promoted_root:
  assumes "tab_inv t" "pane_ids l' = filter (\<lambda>j. j \<noteq> i) (pane_ids (tb_layout t))" "pane_ids l' \<noteq> []"
  shows "tb_root_pane (promote (promoted_root_if_needed i t) t) \<in> set (pane_ids l')"
proof (cases "tb_root_pane t = i")
  case False
  then show ?thesis
    using assms(1,2) by (auto simp: promoted_root_if_needed_def promote_def tab_inv_def)
next
  case True
  obtain j where j: "find (\<lambda>j. j \<noteq> i) (pane_ids (tb_layout t)) = Some j"
    using assms(2,3) by (cases "find (\<lambda>j. j \<noteq> i) (pane_ids (tb_layout t))") (auto simp: find_None_iff filter_empty_conv)
  then have "j \<in> set (pane_ids (tb_layout t))" "j \<noteq> i" by (auto simp: find_Some_iff)
  then show ?thesis using True j assms(2) by (simp add: promoted_root_if_needed_def promote_def)
qed

lemma promote_fields [simp]:
  "tb_layout (promote q t) = tb_layout t" "tb_panes (promote q t) = tb_panes t"
  "tb_number (promote q t) = tb_number t" "tb_zoomed (promote q t) = tb_zoomed t"
  "tb_custom_name (promote q t) = tb_custom_name t"
  by (simp_all add: promote_def split: option.split)

lemma promote_root: "tb_layout t = l \<Longrightarrow> tb_root_pane s = tb_root_pane t \<Longrightarrow>
    tb_root_pane (promote q s) = tb_root_pane (promote q t)"
  by (simp add: promote_def split: option.split)

lemma close_in_tab:
  assumes "tab_inv t" "i \<in> dom (tb_panes t)" "pane_ids (tb_layout t) \<noteq> [i]"
  obtains l where "close_pane i (tb_layout t) = Some (True, l)" "layout_inv l"
    "pane_ids l = filter (\<lambda>j. j \<noteq> i) (pane_ids (tb_layout t))" "1 < pane_count (tb_layout t)"
proof -
  have inv: "layout_inv (tb_layout t)" "i \<in> set (pane_ids (tb_layout t))"
    using assms(1,2) by (auto simp: tab_inv_def)
  obtain l where c: "close_pane i (tb_layout t) = Some (True, l)" "pane_ids l = filter (\<lambda>j. j \<noteq> i) (pane_ids (tb_layout t))"
    using close_pane_cases [OF inv(1), of i] inv(2) assms(3) by auto
  have "layout_inv l" using close_pane_inv [OF inv(1), of i] c(1) by auto
  moreover have "1 < pane_count (tb_layout t)"
    using inv assms(3)
    by (cases "pane_ids (tb_layout t)" rule: remdups_adj.cases)
      (auto simp: pane_count_def count_panes_length pane_ids_def)
  ultimately show ?thesis using c by (intro that) auto
qed

text \<open>Detaching and taking a pane that is not the only one take out exactly that pane.\<close>

lemma without_pane_inv:
  assumes "tab_inv t" "i \<in> dom (tb_panes t)" "layout_inv l"
    "pane_ids l = filter (\<lambda>j. j \<noteq> i) (pane_ids (tb_layout t))"
    and "tb_layout t' = l" "tb_panes t' = (tb_panes t)(i := None)"
      "tb_root_pane t' = tb_root_pane (promote (promoted_root_if_needed i t) t)"
  shows "tab_inv t'"
proof -
  have "pane_ids l \<noteq> []" by (simp add: pane_ids_def)
  from promoted_root [OF assms(1,4) this] assms(1,3-) show ?thesis
    by (auto simp: tab_inv_def)
qed

lemma detach_ok:
  assumes "tab_inv t" "tb_panes t i = Some p" "pane_ids (tb_layout t) \<noteq> [i]"
  shows "\<exists>t'. detach_pane i t = Some (Some (i, attached_terminal_id p), t') \<and> tab_inv t'
    \<and> tab_entries t' = filter (\<lambda>e. fst e \<noteq> i) (tab_entries t) \<and> tb_number t' = tb_number t"
proof -
  have i: "i \<in> dom (tb_panes t)" using assms(2) by blast
  obtain l where l: "close_pane i (tb_layout t) = Some (True, l)" "layout_inv l"
    "pane_ids l = filter (\<lambda>j. j \<noteq> i) (pane_ids (tb_layout t))" "1 < pane_count (tb_layout t)"
    by (rule close_in_tab [OF assms(1) i assms(3)])
  let ?t = "promote (promoted_root_if_needed i t)
    (t\<lparr>tb_layout := l, tb_panes := (tb_panes t)(i := None), tb_zoomed := False\<rparr>)"
  have "tab_inv ?t"
    by (rule without_pane_inv [OF assms(1) i l(2,3)]) (simp_all add: promote_def split: option.split)
  moreover have "tab_entries ?t = filter (\<lambda>e. fst e \<noteq> i) (tab_entries t)"
    by (rule entries_remove) (simp_all add: l(3))
  moreover have "detach_pane i t = Some (Some (i, attached_terminal_id p), ?t)"
    using l(1,4) assms(2) by (simp add: detach_pane_def)
  ultimately show ?thesis by simp
qed

lemma take_ok:
  assumes "tab_inv t" "tb_panes t i = Some p" "pane_ids (tb_layout t) \<noteq> [i]"
  shows "\<exists>t'. tab_take_pane_for_move i t = Some (Some \<lparr>mp_pane_id = i, mp_pane_state = p\<rparr>, t') \<and> tab_inv t'
    \<and> tab_entries t' = filter (\<lambda>e. fst e \<noteq> i) (tab_entries t) \<and> tb_number t' = tb_number t"
proof -
  have i: "i \<in> dom (tb_panes t)" using assms(2) by blast
  obtain l where l: "close_pane i (tb_layout t) = Some (True, l)" "layout_inv l"
    "pane_ids l = filter (\<lambda>j. j \<noteq> i) (pane_ids (tb_layout t))" "1 < pane_count (tb_layout t)"
    by (rule close_in_tab [OF assms(1) i assms(3)])
  let ?p = "promote (promoted_root_if_needed i t) (t\<lparr>tb_layout := l\<rparr>)"
  let ?t = "?p\<lparr>tb_panes := (tb_panes t)(i := None), tb_zoomed := False\<rparr>"
  have "tab_inv ?t"
    by (rule without_pane_inv [OF assms(1) i l(2,3)]) (simp_all add: promote_def split: option.split)
  moreover have "tab_entries ?t = filter (\<lambda>e. fst e \<noteq> i) (tab_entries t)"
    by (rule entries_remove) (simp_all add: l(3))
  moreover have "tab_take_pane_for_move i t = Some (Some \<lparr>mp_pane_id = i, mp_pane_state = p\<rparr>, ?t)"
    using l(1,4) assms(2) by (simp add: tab_take_pane_for_move_def)
  ultimately show ?thesis by simp
qed

lemma take_last:
  assumes "tb_panes t i = Some p" "pane_ids (tb_layout t) = [i]"
  shows "\<exists>t'. tab_take_pane_for_move i t = Some (Some \<lparr>mp_pane_id = i, mp_pane_state = p\<rparr>, t')"
  using assms by (simp add: tab_take_pane_for_move_def pane_count_def count_panes_length pane_ids_def)

end
