(* ===== verification/PublicIds.thy ===== *)
theory PublicIds
  imports Prelude
begin

text \<open>
  Public identifiers (\<open>workspace.rs\<close>): numbers written in bijective base 32, the ids of workspaces,
  tabs and panes built from them, and the counter new workspaces take their number from. The global
  atomic counter is passed along; its compare-and-exchange loop ends with the larger of the two values.
\<close>

section \<open>Numbers\<close>

definition public_id_alphabet :: str where
  "public_id_alphabet = lit ''123456789ABCDEFGHJKMNPQRSTVWXYZ0''"

function encode_loop :: "u64 \<Rightarrow> str \<Rightarrow> str" where
  "encode_loop v encoded =
    (if v > 0
     then encode_loop ((v - 1) div 32) (encoded @ [public_id_alphabet ! unat ((v - 1) mod 32)])
     else encoded)"
  by pat_completeness auto

lemma unat_pred: "0 < (v :: u64) \<Longrightarrow> unat (v - 1) = unat v - 1"
  by (simp add: unat_minus_one word_neq_0_conv)

lemma unat_pred_div: "0 < (v :: u64) \<Longrightarrow> unat ((v - 1) div 32) = (unat v - 1) div 32"
  by (simp add: unat_div_distrib unat_pred)

lemma unat_pred_mod: "0 < (v :: u64) \<Longrightarrow> unat ((v - 1) mod 32) = (unat v - 1) mod 32"
  by (simp add: unat_mod_distrib unat_pred)

termination encode_loop
  by (relation "measure (\<lambda>(v, _). unat v)") (auto simp: unat_pred_div word_less_nat_alt)

declare encode_loop.simps [simp del]

definition encode_public_number :: "u64 \<Rightarrow> str" where
  "encode_public_number v = (if v = 0 then lit ''0'' else rev (encode_loop v []))"

definition checked_mul :: "'a::len word \<Rightarrow> 'a word \<Rightarrow> 'a word option" where
  "checked_mul a b = (if unat a * unat b < 2 ^ LENGTH('a) then Some (a * b) else None)"

fun decode_loop :: "u64 \<Rightarrow> str \<Rightarrow> u64 option" where
  "decode_loop decoded [] = Some decoded"
| "decode_loop decoded (ch # rest) =
     (case position (\<lambda>candidate. candidate = ch) public_id_alphabet of
        None \<Rightarrow> None
      | Some digit \<Rightarrow>
          (case checked_mul decoded 32 of
             None \<Rightarrow> None
           | Some m \<Rightarrow>
               (case checked_add m (of_nat (digit + 1)) of
                  None \<Rightarrow> None
                | Some decoded' \<Rightarrow> decode_loop decoded' rest)))"

definition decode_public_number :: "str \<Rightarrow> u64 option" where
  "decode_public_number v = decode_loop 0 v"

section \<open>Identifiers\<close>

definition public_workspace_number :: "str \<Rightarrow> u64 option" where
  "public_workspace_number i = Option.bind (strip_prefix (lit ''w'') i) decode_public_number"

definition public_pane_id_for_number :: "str \<Rightarrow> u64 \<Rightarrow> str" where
  "public_pane_id_for_number workspace_id pane_number =
     workspace_id @ lit '':p'' @ encode_public_number pane_number"

definition public_tab_id_for_number :: "str \<Rightarrow> u64 \<Rightarrow> str" where
  "public_tab_id_for_number workspace_id tab_number =
     workspace_id @ lit '':t'' @ encode_public_number tab_number"

definition generate_workspace_id :: "u64 \<Rightarrow> str \<times> u64" where
  "generate_workspace_id counter = (lit ''w'' @ encode_public_number counter, counter + 1)"

definition max_opt :: "u64 list \<Rightarrow> u64 option" where
  "max_opt ns = (if ns = [] then None else Some (foldl max (hd ns) (tl ns)))"

definition reserve_workspace_ids :: "str list \<Rightarrow> u64 \<Rightarrow> u64" where
  "reserve_workspace_ids ids counter =
    (case Option.bind (max_opt (List.map_filter public_workspace_number ids)) (\<lambda>m. checked_add m 1) of
       None \<Rightarrow> counter
     | Some next \<Rightarrow> if counter < next then next else counter)"

section \<open>Bijective numeration\<close>

lemma length_alphabet: "length public_id_alphabet = 32"
  by (simp add: public_id_alphabet_def lit_def)

lemma distinct_alphabet: "distinct public_id_alphabet"
  by (simp add: public_id_alphabet_def lit_def)

lemma position_alphabet: "d < 32 \<Longrightarrow> position (\<lambda>c. c = public_id_alphabet ! d) public_id_alphabet = Some d"
proof -
  assume d: "d < 32"
  then have "public_id_alphabet ! d \<in> set public_id_alphabet" by (simp add: length_alphabet)
  then obtain e where e: "position (\<lambda>c. c = public_id_alphabet ! d) public_id_alphabet = Some e"
    by (cases "position (\<lambda>c. c = public_id_alphabet ! d) public_id_alphabet") (auto simp: position_None)
  from position_Some [OF e] have "e < 32" "public_id_alphabet ! e = public_id_alphabet ! d"
    by (auto simp: length_alphabet)
  then have "e = d" using d distinct_alphabet by (simp add: nth_eq_iff_index_eq length_alphabet)
  with e show ?thesis by simp
qed

lemma alphabet_position:
  assumes "position (\<lambda>candidate. candidate = c) public_id_alphabet = Some d"
  shows "d < 32" "public_id_alphabet ! d = c"
  using position_Some [OF assms] by (simp_all add: length_alphabet)

text \<open>The digits of a number, most significant first, as the loop leaves them after reversal.\<close>

function digits :: "nat \<Rightarrow> str" where
  "digits n = (if n = 0 then [] else digits ((n - 1) div 32) @ [public_id_alphabet ! ((n - 1) mod 32)])"
  by pat_completeness auto
termination by (relation "measure id") auto

declare digits.simps [simp del]

lemma digits_0 [simp]: "digits 0 = []"
  by (simp add: digits.simps)

lemma digits_step: "digits (m * 32 + d + 1) = digits m @ [public_id_alphabet ! d]" if "d < 32"
  using that by (subst digits.simps) simp

lemma encode_loop_digits: "encode_loop v acc = acc @ rev (digits (unat v))"
proof (induction v acc rule: encode_loop.induct)
  case (1 v acc)
  show ?case
  proof (cases "v > 0")
    case True
    then have "unat v \<noteq> 0" by (simp add: unat_eq_zero word_neq_0_conv)
    then have "digits (unat v) = digits ((unat v - 1) div 32) @ [public_id_alphabet ! ((unat v - 1) mod 32)]"
      by (subst digits.simps) simp
    with True 1 show ?thesis
      by (subst encode_loop.simps) (simp add: unat_pred_div unat_pred_mod)
  next
    case False
    then have "v = 0" using word_neq_0_conv by blast
    then show ?thesis by (subst encode_loop.simps) simp
  qed
qed

lemma encode_digits: "v \<noteq> 0 \<Longrightarrow> encode_public_number v = digits (unat v)"
  by (simp add: encode_public_number_def encode_loop_digits)

text \<open>The value of a string, without the bound of the machine.\<close>

fun chars_value :: "nat \<Rightarrow> str \<Rightarrow> nat option" where
  "chars_value n [] = Some n"
| "chars_value n (c # cs) =
     (case position (\<lambda>candidate. candidate = c) public_id_alphabet of
        None \<Rightarrow> None | Some d \<Rightarrow> chars_value (n * 32 + d + 1) cs)"

lemma chars_value_append:
  "chars_value n (xs @ ys) = Option.bind (chars_value n xs) (\<lambda>m. chars_value m ys)"
  by (induction xs arbitrary: n) (auto split: option.split)

lemma chars_value_ge: "chars_value n cs = Some m \<Longrightarrow> n \<le> m"
proof (induction cs arbitrary: n)
  case (Cons c cs)
  then obtain d where "chars_value (n * 32 + d + 1) cs = Some m" by (auto split: option.splits)
  from Cons.IH [OF this] show ?case by simp
qed simp

lemma chars_value_pos: "chars_value n cs = Some m \<Longrightarrow> cs \<noteq> [] \<Longrightarrow> 0 < m"
  using chars_value_ge by (cases cs) (fastforce split: option.splits)+

lemma chars_value_digits: "chars_value 0 (digits n) = Some n"
proof (induction n rule: digits.induct)
  case (1 n)
  show ?case
  proof (cases "n = 0")
    case False
    have "(n - 1) mod 32 < 32" by simp
    from position_alphabet [OF this] False 1 show ?thesis
      by (subst digits.simps) (simp add: chars_value_append)
  qed simp
qed

lemma digits_chars_value: "chars_value 0 cs = Some n \<Longrightarrow> digits n = cs"
proof (induction cs arbitrary: n rule: rev_induct)
  case (snoc c cs)
  then obtain m d where m: "chars_value 0 cs = Some m"
      and d: "position (\<lambda>candidate. candidate = c) public_id_alphabet = Some d" "n = m * 32 + d + 1"
    by (auto simp: chars_value_append bind_eq_Some_conv split: option.splits)
  from alphabet_position [OF d(1)] snoc.IH [OF m] d(2) show ?case
    by (simp add: digits_step del: One_nat_def)
qed simp

lemma decode_loop_value:
  "decode_loop v cs = (case chars_value (unat v) cs of
      None \<Rightarrow> None | Some n \<Rightarrow> if n < 2 ^ 64 then Some (of_nat n) else None)"
proof (induction cs arbitrary: v)
  case Nil
  then show ?case by (simp add: unat_less_pow [where 'a = 64, simplified])
next
  case (Cons c cs)
  show ?case
  proof (cases "position (\<lambda>candidate. candidate = c) public_id_alphabet")
    case (Some d)
    then have d: "d < 32" by (rule alphabet_position)
    let ?n = "unat v * 32 + d + 1"
    show ?thesis
    proof (cases "?n < 2 ^ 64")
      case True
      have m: "checked_mul v 32 = Some (v * 32)" and um: "unat (v * 32) = unat v * 32"
        using True by (simp_all add: checked_mul_def unat_word_ariths)
      have ud: "unat (of_nat (d + 1) :: u64) = d + 1" using d by (intro unat_of_nat_less) simp
      have a: "checked_add (v * 32) (of_nat (d + 1)) = Some (v * 32 + of_nat (d + 1))"
        using True um ud by (simp add: checked_add_def del: of_nat_add of_nat_Suc)
      have "unat (v * 32 + of_nat (d + 1)) = ?n"
        using True um ud by (simp add: unat_word_ariths del: of_nat_add of_nat_Suc)
      with Some m a Cons.IH [of "v * 32 + of_nat (d + 1)"] show ?thesis
        by (simp del: of_nat_add of_nat_Suc)
    next
      case False
      have ud: "unat (of_nat (d + 1) :: u64) = d + 1" using d by (intro unat_of_nat_less) simp
      have "(case checked_mul v 32 of None \<Rightarrow> None | Some m \<Rightarrow>
          case checked_add m (of_nat (digit + 1)) of None \<Rightarrow> None | Some w \<Rightarrow> decode_loop w cs) = None"
        if "digit = d" for digit
        using False ud that
        by (auto simp: checked_mul_def checked_add_def unat_word_ariths simp del: of_nat_add of_nat_Suc split: option.split)
      moreover have "\<not> n < 2 ^ 64" if "chars_value ?n cs = Some n" for n
        using chars_value_ge [OF that] False by simp
      ultimately show ?thesis using Some by (auto split: option.split)
    qed
  qed simp
qed

lemma decode_encode_iff:
  assumes "n \<noteq> 0"
  shows "decode_public_number s = Some n \<longleftrightarrow> s = encode_public_number n"
proof
  assume "s = encode_public_number n"
  then show "decode_public_number s = Some n"
    using chars_value_digits [of "unat n"] unat_less_pow [of n] assms
    by (simp add: decode_public_number_def decode_loop_value encode_digits)
next
  assume "decode_public_number s = Some n"
  then obtain k where "chars_value 0 s = Some k" "k < 2 ^ 64" "n = of_nat k"
    by (auto simp: decode_public_number_def decode_loop_value split: option.splits if_splits)
  with assms show "s = encode_public_number n"
    using digits_chars_value by (simp add: encode_digits unat_of_nat_less)
qed

lemma decode_nonempty: "decode_public_number s = Some 0 \<Longrightarrow> s = []"
proof -
  assume "decode_public_number s = Some 0"
  then obtain k where "chars_value 0 s = Some k" "k < 2 ^ 64" "of_nat k = (0 :: u64)"
    by (auto simp: decode_public_number_def decode_loop_value split: option.splits if_splits)
  moreover from this have "unat (of_nat k :: u64) = k" by (intro unat_of_nat_less) simp
  ultimately have "chars_value 0 s = Some 0" by simp
  then show "s = []" using chars_value_pos [of 0 s 0] by auto
qed

lemma decode_encode: "n \<noteq> 0 \<Longrightarrow> decode_public_number (encode_public_number n) = Some n"
  using decode_encode_iff by blast

lemma encode_inject: "m \<noteq> 0 \<Longrightarrow> encode_public_number m = encode_public_number n \<Longrightarrow> n \<noteq> 0 \<Longrightarrow> m = n"
  using decode_encode [of m] decode_encode [of n] by (metis option.inject)

lemma encode_chars: "set (encode_public_number n) \<subseteq> set public_id_alphabet"
proof (cases "n = 0")
  case False
  have "set (digits k) \<subseteq> set public_id_alphabet" for k
  proof (induction k rule: digits.induct)
    case (1 k)
    have "public_id_alphabet ! ((k - 1) mod 32) \<in> set public_id_alphabet"
      by (rule nth_mem) (simp add: length_alphabet)
    with 1 show ?case by (subst digits.simps) auto
  qed
  with False show ?thesis by (simp add: encode_digits)
qed (simp add: encode_public_number_def public_id_alphabet_def lit_def)

text \<open>
  Zero has a spelling too, but it is that of 32; the callers number from one.
\<close>

lemma encode_zero_collides: "encode_public_number 0 = encode_public_number 32"
proof -
  have "digits 32 = digits (0 * 32 + 31 + 1)" by simp
  also have "\<dots> = digits 0 @ [public_id_alphabet ! 31]" by (rule digits_step) simp
  also have "\<dots> = encode_public_number 0"
    by (simp add: encode_public_number_def public_id_alphabet_def lit_def)
  finally show ?thesis using encode_digits [of 32] by simp
qed

text \<open>
  Public numbers are written in bijective base 32: every positive 64-bit number has exactly one
  spelling, the one the encoder writes; every other string decodes to nothing or, if it is empty, to zero.
\<close>

theorem public_number_bijective:
  assumes "n \<noteq> 0"
  shows "(decode_public_number s = Some n \<longleftrightarrow> s = encode_public_number n)
    \<and> (decode_public_number s = Some 0 \<longleftrightarrow> s = [])"
proof
  show "decode_public_number s = Some n \<longleftrightarrow> s = encode_public_number n" by (rule decode_encode_iff [OF assms])
  have "decode_public_number [] = Some 0" by (simp add: decode_public_number_def)
  then show "decode_public_number s = Some 0 \<longleftrightarrow> s = []" using decode_nonempty by blast
qed

section \<open>New workspaces\<close>

lemma foldl_max: "foldl max a xs \<in> insert a (set xs) \<and> (\<forall>x \<in> insert a (set xs). x \<le> foldl max (a :: 'a :: linorder) xs)"
proof (induction xs arbitrary: a)
  case (Cons x xs)
  from Cons.IH [of "max a x"] show ?case by (auto simp: max_def split: if_splits)
qed simp

lemma max_opt_Some:
  assumes "max_opt ns = Some m"
  shows "m \<in> set ns" "n \<in> set ns \<Longrightarrow> n \<le> m"
  using assms foldl_max [of "hd ns" "tl ns"]
  by (cases ns; auto simp: max_opt_def split: if_splits)+

lemma max_opt_None: "max_opt ns = None \<longleftrightarrow> ns = []"
  by (simp add: max_opt_def)

lemma reserve_above:
  assumes "\<forall>i \<in> set ids. public_workspace_number i \<noteq> Some (-1)" "i \<in> set ids" "public_workspace_number i = Some n"
  shows "n < reserve_workspace_ids ids counter"
proof -
  let ?ns = "List.map_filter public_workspace_number ids"
  have n: "n \<in> set ?ns" using assms(2,3) by (force simp: map_filter_def)
  then obtain m where m: "max_opt ?ns = Some m" using max_opt_None [of ?ns] by (cases "max_opt ?ns") auto
  have "m \<in> set ?ns" by (rule max_opt_Some [OF m])
  then have "m \<noteq> -1" using assms(1) by (auto simp: map_filter_def)
  then have c: "checked_add m 1 = Some (m + 1)"
    using unat_plus_1 [of m] unat_less_pow [of "m + 1"] by (simp add: checked_add_def)
  have "n < m + 1" by (rule less_plus_1 [OF \<open>m \<noteq> -1\<close> max_opt_Some(2) [OF m n]])
  then show ?thesis using order.strict_trans2 [of n "m + 1" counter]
    by (simp add: reserve_workspace_ids_def m c not_less)
qed

lemma generate_workspace_id_number:
  "c \<noteq> 0 \<Longrightarrow> public_workspace_number (fst (generate_workspace_id c)) = Some c"
  by (simp add: generate_workspace_id_def public_workspace_number_def decode_encode)

text \<open>The ids of several workspaces created one after the other.\<close>

fun generate_ids :: "nat \<Rightarrow> u64 \<Rightarrow> str list" where
  "generate_ids 0 c = []"
| "generate_ids (Suc k) c = fst (generate_workspace_id c) # generate_ids k (snd (generate_workspace_id c))"

lemma generate_ids_numbers:
  assumes "0 < unat c" "unat c + k \<le> 2 ^ 64"
  shows "map public_workspace_number (generate_ids k c) = map (\<lambda>j. Some (of_nat j)) [unat c ..< unat c + k]"
  using assms
proof (induction k arbitrary: c)
  case (Suc k)
  have "c \<noteq> 0" using Suc.prems(1) by auto
  note head = generate_workspace_id_number [OF this]
  show ?case
  proof (cases k)
    case 0
    then show ?thesis using head by simp
  next
    case (Suc k')
    then have "c \<noteq> -1" using Suc.prems(2) by (auto simp: unsigned_minus_1_eq_mask mask_eq_exp_minus_1)
    then have "unat (c + 1) = unat c + 1" by (rule unat_plus_1)
    then have "map public_workspace_number (generate_ids k (c + 1))
        = map (\<lambda>j. Some (of_nat j)) [unat c + 1 ..< unat c + 1 + k]"
      using Suc.IH [of "c + 1"] Suc.prems(2) by simp
    moreover have "snd (generate_workspace_id c) = c + 1" by (simp add: generate_workspace_id_def)
    moreover have "[unat c ..< unat c + Suc k] = unat c # [unat c + 1 ..< unat c + 1 + k]"
      by (simp add: upt_conv_Cons)
    ultimately show ?thesis using head by simp
  qed
qed simp

text \<open>
  After the numbers of the restored workspaces were reserved, every id given to a new workspace
  is different from all of theirs and from the ids given out before it, as long as the counter does
  not wrap around.
\<close>

theorem generated_ids_fresh:
  assumes "\<forall>i \<in> set ids. public_workspace_number i \<noteq> Some (-1)" "0 < counter"
    and "unat (reserve_workspace_ids ids counter) + k \<le> 2 ^ 64"
  shows "distinct (generate_ids k (reserve_workspace_ids ids counter))
    \<and> set (generate_ids k (reserve_workspace_ids ids counter)) \<inter> set ids = {}"
proof -
  let ?c = "reserve_workspace_ids ids counter"
  have "counter \<le> ?c" by (auto simp: reserve_workspace_ids_def split: option.split)
  then have pos: "0 < unat ?c" using assms(2) by (simp add: unat_gt_0 word_neq_0_conv)
  note nums = generate_ids_numbers [OF pos assms(3)]
  have "inj_on (\<lambda>j. Some (of_nat j :: u64)) {unat ?c ..< unat ?c + k}"
  proof (rule inj_onI)
    fix x y assume "x \<in> {unat ?c ..< unat ?c + k}" "y \<in> {unat ?c ..< unat ?c + k}"
      and eq: "Some (of_nat x :: u64) = Some (of_nat y)"
    then have "x < 2 ^ 64" "y < 2 ^ 64" using assms(3) by auto
    then have "unat (of_nat x :: u64) = x" "unat (of_nat y :: u64) = y" by (intro unat_of_nat_less; simp)+
    with eq show "x = y" by (metis option.inject)
  qed
  then have "distinct (map public_workspace_number (generate_ids k ?c))"
    unfolding nums by (simp add: distinct_map)
  moreover have "i \<notin> set ids" if "i \<in> set (generate_ids k ?c)" for i
  proof
    assume i: "i \<in> set ids"
    have "public_workspace_number i \<in> set (map public_workspace_number (generate_ids k ?c))" using that by simp
    then obtain j where j: "public_workspace_number i = Some (of_nat j)" "unat ?c \<le> j" "j < unat ?c + k"
      unfolding nums by auto
    have "of_nat j < ?c" by (rule reserve_above [OF assms(1) i j(1)])
    moreover have "unat (of_nat j :: u64) = j" using j(3) assms(3) by (intro unat_of_nat_less) simp
    ultimately show False using j(2) by (simp add: word_less_nat_alt)
  qed
  ultimately show ?thesis by (auto simp: distinct_map)
qed

section \<open>Witnesses\<close>

theorem public_number_bijective_witness:
  "decode_public_number (lit ''1A'') = Some 42 \<and> encode_public_number 42 = lit ''1A''"
proof -
  have "decode_public_number (lit ''1A'') = Some 42"
    by (simp add: decode_public_number_def public_id_alphabet_def lit_def checked_mul_def checked_add_def)
  then show ?thesis using public_number_bijective [of 42 "lit ''1A''"] by simp
qed

theorem generated_ids_fresh_witness:
  "distinct (generate_ids 3 (reserve_workspace_ids [lit ''w7'', lit ''x''] 1))
   \<and> lit ''w7'' \<notin> set (generate_ids 3 (reserve_workspace_ids [lit ''w7'', lit ''x''] 1))"
proof -
  have "\<forall>i \<in> set [lit ''w7'', lit ''x'']. public_workspace_number i \<noteq> Some (-1)"
    and "reserve_workspace_ids [lit ''w7'', lit ''x''] 1 = 8"
    by (simp_all add: reserve_workspace_ids_def public_workspace_number_def strip_prefix_def map_filter_def max_opt_def
        decode_public_number_def public_id_alphabet_def lit_def checked_mul_def checked_add_def)
  then show ?thesis
    using generated_ids_fresh [of "[lit ''w7'', lit ''x'']" 1 3] by auto
qed

end
