(* ===== verification/Workspace.thy ===== *)
theory Workspace
  imports Tab PublicIds Geometry
begin

text \<open>
  A workspace (\<open>workspace.rs\<close>): its tabs, the active one, and the public numbers under which tabs and
  panes are known outside, which are never used again. The launch identity a terminal is started with
  is an argument of \<open>spawn\<close>. The git caches and metadata tokens are not modelled.
\<close>

section \<open>State\<close>

record worktree_space =
  wt_key :: str
  wt_label :: str
  wt_repo_root :: str
  wt_checkout_path :: str
  wt_is_linked_worktree :: bool

record app_workspace =
  wk_id :: str
  wk_custom_name :: "str option"
  wk_identity_cwd :: str
  wk_worktree_space :: "worktree_space option"
  public_pane_numbers :: "pane_id \<rightharpoonup> u64"
  next_public_pane_number :: u64
  next_public_tab_number :: u64
  wk_tabs :: "tab list"
  wk_active_tab :: nat

record launch_identity =
  li_workspace_id :: str
  li_tab_id :: str
  li_pane_id :: str

record taken_pane =
  tk_moved :: moved_pane
  tk_removed_tab_idx :: "nat option"
  tk_workspace_empty :: bool

type_synonym 'e spawner = "launch_identity \<Rightarrow> pane_id \<Rightarrow> 'e + terminal_id"

text \<open>\<open>Vec::remove\<close> and \<open>Vec::insert\<close> at a valid index.\<close>

definition remove_nth :: "nat \<Rightarrow> 'a list \<Rightarrow> 'a list" where
  "remove_nth n xs = take n xs @ drop (Suc n) xs"

definition insert_nth :: "nat \<Rightarrow> 'a \<Rightarrow> 'a list \<Rightarrow> 'a list" where
  "insert_nth n x xs = take n xs @ x # drop n xs"

section \<open>Looking things up\<close>

definition active_tab :: "app_workspace \<Rightarrow> tab option" where
  "active_tab w = (if wk_active_tab w < length (wk_tabs w) then Some (wk_tabs w ! wk_active_tab w) else None)"

definition find_tab_index_for_pane :: "pane_id \<Rightarrow> app_workspace \<Rightarrow> nat option" where
  "find_tab_index_for_pane i w = position (\<lambda>t. tb_panes t i \<noteq> None) (wk_tabs w)"

definition find_pane_state :: "pane_id \<Rightarrow> app_workspace \<Rightarrow> pane_state option" where
  "find_pane_state i w = Option.bind (find (\<lambda>t. tb_panes t i \<noteq> None) (wk_tabs w)) (\<lambda>t. tb_panes t i)"

definition public_pane_number :: "pane_id \<Rightarrow> app_workspace \<Rightarrow> u64 option" where
  "public_pane_number i w = public_pane_numbers w i"

definition public_tab_number :: "nat \<Rightarrow> app_workspace \<Rightarrow> u64 option" where
  "public_tab_number tab_idx w =
     (if tab_idx < length (wk_tabs w) then Some (tb_number (wk_tabs w ! tab_idx)) else None)"

definition focused_pane_id :: "app_workspace \<Rightarrow> pane_id option" where
  "focused_pane_id w = map_option (\<lambda>t. tl_focus (tb_layout t)) (active_tab w)"

definition launch_env_for_new_pane :: "u64 \<Rightarrow> u64 \<Rightarrow> app_workspace \<Rightarrow> launch_identity" where
  "launch_env_for_new_pane tab_number pane_number w =
     \<lparr>li_workspace_id = wk_id w, li_tab_id = public_tab_id_for_number (wk_id w) tab_number,
      li_pane_id = public_pane_id_for_number (wk_id w) pane_number\<rparr>"

section \<open>Operations\<close>

definition register_new_pane_with_number :: "pane_id \<Rightarrow> u64 \<Rightarrow> app_workspace \<Rightarrow> app_workspace" where
  "register_new_pane_with_number i number w =
     w\<lparr>public_pane_numbers := (public_pane_numbers w)(i \<mapsto> number),
       next_public_pane_number := max (next_public_pane_number w) (number + 1)\<rparr>"

definition unregister_pane :: "pane_id \<Rightarrow> app_workspace \<Rightarrow> app_workspace" where
  "unregister_pane i w = w\<lparr>public_pane_numbers := (public_pane_numbers w)(i := None)\<rparr>"

definition unregister_moved_pane :: "pane_id \<Rightarrow> app_workspace \<Rightarrow> app_workspace" where
  "unregister_moved_pane i w = unregister_pane i w"

definition adjust_active_tab_after_removal :: "nat \<Rightarrow> app_workspace \<Rightarrow> app_workspace" where
  "adjust_active_tab_after_removal removed_idx w =
    (if wk_tabs w = [] then w\<lparr>wk_active_tab := 0\<rparr>
     else if wk_active_tab w \<ge> length (wk_tabs w) then w\<lparr>wk_active_tab := length (wk_tabs w) - 1\<rparr>
     else if removed_idx \<le> wk_active_tab w \<and> wk_active_tab w > 0
     then w\<lparr>wk_active_tab := wk_active_tab w - 1\<rparr> else w)"

definition new_with_tab ::
  "'e spawner \<Rightarrow> str \<Rightarrow> u64 \<times> u32 \<Rightarrow> ('e + app_workspace \<times> terminal_id) \<times> u64 \<times> u32" where
  "new_with_tab spawn initial_cwd st =
    (let (counter, next_id) = st;
         (i, counter') = generate_workspace_id counter;
         env = \<lparr>li_workspace_id = i, li_tab_id = public_tab_id_for_number i 1,
                li_pane_id = public_pane_id_for_number i 1\<rparr>
     in case tab_new_with_runtime 1 (spawn env) next_id of
          (Inl err, next') \<Rightarrow> (Inl err, counter', next')
        | (Inr (t, terminal), next') \<Rightarrow>
            (Inr (\<lparr>wk_id = i, wk_custom_name = None, wk_identity_cwd = initial_cwd, wk_worktree_space = None,
                 public_pane_numbers = [tb_root_pane t \<mapsto> 1], next_public_pane_number = 2,
                 next_public_tab_number = 2, wk_tabs = [t], wk_active_tab = 0\<rparr>, terminal), counter', next'))"

definition workspace_from_existing_pane ::
  "str option \<Rightarrow> str option \<Rightarrow> str \<Rightarrow> moved_pane \<Rightarrow> u64 \<Rightarrow> app_workspace \<times> u64" where
  "workspace_from_existing_pane label tab_label identity_cwd moved counter =
    (let (i, counter') = generate_workspace_id counter;
         root_pane = mp_pane_id moved;
         t = tab_from_existing_pane 1 tab_label moved
     in (\<lparr>wk_id = i, wk_custom_name = label, wk_identity_cwd = identity_cwd, wk_worktree_space = None,
          public_pane_numbers = [root_pane \<mapsto> 1], next_public_pane_number = 2,
          next_public_tab_number = 2, wk_tabs = [t], wk_active_tab = 0\<rparr>, counter'))"

definition mark_seen :: "tab \<Rightarrow> tab" where
  "mark_seen t = t\<lparr>tb_panes := (\<lambda>i. map_option (seen_update (\<lambda>_. True)) (tb_panes t i))\<rparr>"

definition switch_tab :: "nat \<Rightarrow> app_workspace \<Rightarrow> app_workspace" where
  "switch_tab idx w =
    (if idx < length (wk_tabs w)
     then w\<lparr>wk_active_tab := idx, wk_tabs := (wk_tabs w)[idx := mark_seen (wk_tabs w ! idx)]\<rparr> else w)"

text \<open>The operations return \<open>None\<close> where the code would panic.\<close>

definition create_tab_with_runtime ::
  "'e spawner \<Rightarrow> app_workspace \<times> u32 \<Rightarrow> (('e + nat \<times> terminal_id) \<times> app_workspace \<times> u32) option" where
  "create_tab_with_runtime spawn st =
    (let (w0, next_id) = st;
         number = next_public_tab_number w0;
         w = w0\<lparr>next_public_tab_number := number + 1\<rparr>;
         pane_number = next_public_pane_number w;
         env = launch_env_for_new_pane number pane_number w
     in if active_tab w = None then None
        else case tab_new_with_runtime number (spawn env) next_id of
          (Inl err, next') \<Rightarrow> Some (Inl err, w, next')
        | (Inr (t, terminal), next') \<Rightarrow>
            let w1 = register_new_pane_with_number (tb_root_pane t) pane_number w;
                w2 = w1\<lparr>wk_tabs := wk_tabs w1 @ [t]\<rparr>
            in Some (Inr (length (wk_tabs w2) - 1, terminal), w2, next'))"

definition close_tab :: "nat \<Rightarrow> app_workspace \<Rightarrow> bool \<times> app_workspace" where
  "close_tab idx w =
    (if length (wk_tabs w) \<le> 1 \<or> idx \<ge> length (wk_tabs w) then (False, w)
     else let t = wk_tabs w ! idx;
              w1 = w\<lparr>wk_tabs := remove_nth idx (wk_tabs w),
                     public_pane_numbers := public_pane_numbers w |` (- dom (tb_panes t))\<rparr>
          in (True,
              if wk_active_tab w1 \<ge> length (wk_tabs w1) then w1\<lparr>wk_active_tab := length (wk_tabs w1) - 1\<rparr>
              else if idx \<le> wk_active_tab w1 \<and> wk_active_tab w1 > 0
              then w1\<lparr>wk_active_tab := wk_active_tab w1 - 1\<rparr> else w1))"

definition move_tab :: "nat \<Rightarrow> nat \<Rightarrow> app_workspace \<Rightarrow> bool \<times> app_workspace" where
  "move_tab source_idx insert_idx w =
    (if source_idx \<ge> length (wk_tabs w) \<or> insert_idx > length (wk_tabs w) then (False, w)
     else let target_idx = min (if source_idx < insert_idx then insert_idx - 1 else insert_idx) (length (wk_tabs w) - 1)
          in if source_idx = target_idx then (False, w)
             else let active_root_pane = map_option tb_root_pane (active_tab w);
                      t = wk_tabs w ! source_idx;
                      tabs = insert_nth target_idx t (remove_nth source_idx (wk_tabs w))
                  in (True, w\<lparr>wk_tabs := tabs,
                        wk_active_tab :=
                          (case Option.bind active_root_pane
                                  (\<lambda>root. position (\<lambda>t. tb_root_pane t = root) tabs) of
                             Some idx \<Rightarrow> idx | None \<Rightarrow> target_idx)\<rparr>))"

definition workspace_split_focused_command ::
  "'e spawner \<Rightarrow> direction \<Rightarrow> app_workspace \<times> u32 \<Rightarrow> (('e io_error + new_pane) \<times> app_workspace \<times> u32) option" where
  "workspace_split_focused_command spawn direction st =
    (let (w, next_id) = st; pane_number = next_public_pane_number w in
     case active_tab w of
       None \<Rightarrow> None
     | Some t \<Rightarrow>
         (case tab_split_focused_command (spawn (launch_env_for_new_pane (tb_number t) pane_number w))
                 direction (t, next_id) of
            None \<Rightarrow> None
          | Some (r, t', next') \<Rightarrow>
              let w1 = w\<lparr>wk_tabs := (wk_tabs w)[wk_active_tab w := t']\<rparr>
              in (case r of
                    Inl err \<Rightarrow> Some (Inl err, w1, next')
                  | Inr new \<Rightarrow>
                      Some (Inr new, register_new_pane_with_number (np_pane_id new) pane_number w1, next'))))"

text \<open>The outer \<open>Option\<close> of the result says whether the pane is in the workspace.\<close>

definition workspace_split_pane_with_runtime ::
  "'e spawner \<Rightarrow> pane_id \<Rightarrow> direction \<Rightarrow> f32 option \<Rightarrow> bool \<Rightarrow> app_workspace \<times> u32
   \<Rightarrow> (('e io_error + nat \<times> new_pane) option \<times> app_workspace \<times> u32) option" where
  "workspace_split_pane_with_runtime spawn i direction ratio focus_new_pane st =
    (let (w, next_id) = st in
     case find_tab_index_for_pane i w of
       None \<Rightarrow> Some (None, w, next_id)
     | Some tab_idx \<Rightarrow>
         let pane_number = next_public_pane_number w;
             t = wk_tabs w ! tab_idx;
             env = launch_env_for_new_pane (tb_number t) pane_number w
         in (case tab_split_pane_with_runtime (spawn env) i focus_new_pane direction ratio (t, next_id) of
               None \<Rightarrow> None
             | Some (r, t', next') \<Rightarrow>
                 let w1 = w\<lparr>wk_tabs := (wk_tabs w)[tab_idx := t']\<rparr>
                 in (case r of
                       Inl err \<Rightarrow> Some (Some (Inl err), w1, next')
                     | Inr new \<Rightarrow>
                         Some (Some (Inr (tab_idx, new)),
                           register_new_pane_with_number (np_pane_id new) pane_number w1, next'))))"

text \<open>
  Removing and closing a pane have the same body: the last pane of a tab takes the tab with it, the
  last pane of the workspace is left for the caller to close the workspace.
\<close>

definition drop_pane ::
  "(pane_id \<Rightarrow> tab \<Rightarrow> (detached_pane option \<times> tab) option) \<Rightarrow> pane_id \<Rightarrow> app_workspace
   \<Rightarrow> (bool \<times> app_workspace) option" where
  "drop_pane detach i w =
    (case find_tab_index_for_pane i w of
       None \<Rightarrow> Some (False, w)
     | Some tab_idx \<Rightarrow>
         if pane_count (tb_layout (wk_tabs w ! tab_idx)) \<le> 1 then
           if length (wk_tabs w) \<le> 1 then Some (True, w)
           else let w1 = unregister_pane i (w\<lparr>wk_tabs := remove_nth tab_idx (wk_tabs w)\<rparr>)
                in Some (False,
                     if wk_active_tab w1 \<ge> length (wk_tabs w1) then w1\<lparr>wk_active_tab := length (wk_tabs w1) - 1\<rparr>
                     else if tab_idx \<le> wk_active_tab w1 \<and> wk_active_tab w1 > 0
                     then w1\<lparr>wk_active_tab := wk_active_tab w1 - 1\<rparr> else w1)
         else
           (case detach i (wk_tabs w ! tab_idx) of
              None \<Rightarrow> None
            | Some (r, t') \<Rightarrow>
                let w1 = w\<lparr>wk_tabs := (wk_tabs w)[tab_idx := t']\<rparr>
                in Some (False, case r of None \<Rightarrow> w1 | Some (removed, _) \<Rightarrow> unregister_pane removed w1)))"

definition workspace_remove_pane :: "pane_id \<Rightarrow> app_workspace \<Rightarrow> (bool \<times> app_workspace) option" where
  "workspace_remove_pane i w = drop_pane tab_remove_pane i w"

definition workspace_close_pane :: "pane_id \<Rightarrow> app_workspace \<Rightarrow> (bool \<times> app_workspace) option" where
  "workspace_close_pane i w = drop_pane tab_close_pane i w"

definition take_pane_for_move :: "pane_id \<Rightarrow> app_workspace \<Rightarrow> (taken_pane option \<times> app_workspace) option" where
  "take_pane_for_move i w =
    (case find_tab_index_for_pane i w of
       None \<Rightarrow> Some (None, w)
     | Some tab_idx \<Rightarrow>
         if pane_count (tb_layout (wk_tabs w ! tab_idx)) \<le> 1 then
           let w1 = w\<lparr>wk_tabs := remove_nth tab_idx (wk_tabs w)\<rparr> in
           (case tab_take_pane_for_move i (wk_tabs w ! tab_idx) of
              None \<Rightarrow> None
            | Some (None, _) \<Rightarrow> Some (None, w1)
            | Some (Some moved, _) \<Rightarrow>
                let w2 = adjust_active_tab_after_removal tab_idx w1
                in Some (Some \<lparr>tk_moved = moved, tk_removed_tab_idx = Some tab_idx,
                               tk_workspace_empty = (wk_tabs w2 = [])\<rparr>, w2))
         else
           (case tab_take_pane_for_move i (wk_tabs w ! tab_idx) of
              None \<Rightarrow> None
            | Some (r, t') \<Rightarrow>
                Some (map_option (\<lambda>moved. \<lparr>tk_moved = moved, tk_removed_tab_idx = None,
                                          tk_workspace_empty = False\<rparr>) r,
                      w\<lparr>wk_tabs := (wk_tabs w)[tab_idx := t']\<rparr>)))"

definition register_if_new :: "pane_id \<Rightarrow> app_workspace \<Rightarrow> app_workspace" where
  "register_if_new i w =
    (if public_pane_numbers w i = None
     then register_new_pane_with_number i (next_public_pane_number w) w else w)"

definition insert_moved_pane_into_tab ::
  "nat \<Rightarrow> pane_id \<Rightarrow> moved_pane \<Rightarrow> direction \<Rightarrow> f32 \<Rightarrow> bool \<Rightarrow> app_workspace
   \<Rightarrow> (moved_pane + pane_id) \<times> app_workspace" where
  "insert_moved_pane_into_tab tab_idx target moved direction ratio focus w =
    (if tab_idx \<ge> length (wk_tabs w) then (Inl moved, w)
     else case insert_existing_pane target moved direction ratio focus (wk_tabs w ! tab_idx) of
            (Inl moved, t') \<Rightarrow> (Inl moved, w\<lparr>wk_tabs := (wk_tabs w)[tab_idx := t']\<rparr>)
          | (Inr _, t') \<Rightarrow>
              (Inr (mp_pane_id moved),
               register_if_new (mp_pane_id moved) (w\<lparr>wk_tabs := (wk_tabs w)[tab_idx := t']\<rparr>)))"

definition create_tab_from_existing_pane :: "moved_pane \<Rightarrow> str option \<Rightarrow> app_workspace \<Rightarrow> nat \<times> app_workspace" where
  "create_tab_from_existing_pane moved label w0 =
    (let number = next_public_tab_number w0;
         w = w0\<lparr>next_public_tab_number := number + 1\<rparr>;
         t = tab_from_existing_pane number label moved;
         w1 = register_if_new (mp_pane_id moved) w;
         w2 = w1\<lparr>wk_tabs := wk_tabs w1 @ [t]\<rparr>
     in (length (wk_tabs w2) - 1, w2))"

section \<open>Lists of tabs\<close>

definition entries :: "tab list \<Rightarrow> (pane_id \<times> terminal_id) list" where
  "entries ts = concat (map tab_entries ts)"

definition live :: "app_workspace \<Rightarrow> pane_id set" where
  "live w = fst ` set (entries (wk_tabs w))"

lemma entries_simps [simp]:
  "entries [] = []" "entries (t # ts) = tab_entries t @ entries ts" "entries (ts @ us) = entries ts @ entries us"
  by (simp_all add: entries_def)

lemma mset_entries: "mset (entries ts) = \<Sum>\<^sub># (image_mset (\<lambda>t. mset (tab_entries t)) (mset ts))"
  by (induction ts) simp_all

lemma mset_remove_nth: "i < length xs \<Longrightarrow> mset xs = add_mset (xs ! i) (mset (remove_nth i xs))"
proof -
  assume i: "i < length xs"
  have "mset xs = mset (take i xs @ xs ! i # drop (Suc i) xs)" using i by (simp only: id_take_nth_drop [symmetric])
  then show ?thesis by (simp add: remove_nth_def)
qed

lemma mset_list_update: "i < length xs \<Longrightarrow> mset (xs[i := y]) = add_mset y (mset (remove_nth i xs))"
  by (simp add: upd_conv_take_nth_drop remove_nth_def)

lemma mset_insert_nth: "mset (insert_nth i x xs) = add_mset x (mset xs)"
proof -
  have "mset (insert_nth i x xs) = add_mset x (mset (take i xs @ drop i xs))" by (simp only: insert_nth_def mset_append mset.simps) simp
  then show ?thesis by simp
qed

lemma length_remove_nth: "i < length xs \<Longrightarrow> length (remove_nth i xs) = length xs - 1"
  by (simp add: remove_nth_def)

lemma length_insert_nth [simp]: "length (insert_nth i x xs) = Suc (length xs)"
  by (simp add: insert_nth_def)

text \<open>
  Tabs with distinct public numbers below the next one; no pane and no terminal is in two tabs. This
  does not depend on the order of the tabs.
\<close>

definition tabs_ok :: "u64 \<Rightarrow> tab list \<Rightarrow> bool" where
  "tabs_ok n ts \<longleftrightarrow>
     (\<forall>t \<in> set ts. tab_inv t \<and> 0 < tb_number t \<and> tb_number t < n)
     \<and> distinct (map tb_number ts)
     \<and> distinct (map fst (entries ts)) \<and> distinct (map snd (entries ts))"

lemma distinct_mset_eq: "mset xs = mset ys \<Longrightarrow> distinct (map f xs) = distinct (map f ys)"
  by (rule mset_eq_imp_distinct_iff) simp

lemma tabs_ok_mset: "mset ts = mset us \<Longrightarrow> tabs_ok n ts \<longleftrightarrow> tabs_ok n us"
proof -
  assume e: "mset ts = mset us"
  then have "mset (entries ts) = mset (entries us)" by (simp add: mset_entries)
  then show ?thesis
    unfolding tabs_ok_def mset_eq_setD [OF e] distinct_mset_eq [OF e]
    using distinct_mset_eq [of "entries ts" "entries us" fst] distinct_mset_eq [of "entries ts" "entries us" snd] by simp
qed

lemma tabs_ok_Nil [simp]: "tabs_ok n []"
  by (simp add: tabs_ok_def)

lemma set_pane_ids: "set (pane_ids (tb_layout t)) = fst ` set (tab_entries t)"
  by (simp only: fst_tab_entries [symmetric] set_map)

lemma tabs_ok_Cons: "tabs_ok n (t # ts) \<longleftrightarrow>
    tab_inv t \<and> 0 < tb_number t \<and> tb_number t < n \<and> tb_number t \<notin> tb_number ` set ts
    \<and> distinct (map snd (tab_entries t)) \<and> fst ` set (tab_entries t) \<inter> fst ` set (entries ts) = {}
    \<and> snd ` set (tab_entries t) \<inter> snd ` set (entries ts) = {} \<and> tabs_ok n ts"
proof -
  have "tab_inv t \<Longrightarrow> distinct (map fst (tab_entries t))" by (simp add: tab_inv_distinct)
  then show ?thesis
    unfolding tabs_ok_def entries_simps map_append distinct_append set_map list.map list.set distinct.simps ball_simps
    by blast
qed

lemma tabs_ok_nth:
  assumes "i < length ts"
  shows "tabs_ok n ts \<longleftrightarrow> tabs_ok n (ts ! i # remove_nth i ts)"
  by (rule tabs_ok_mset) (use mset_remove_nth [OF assms] in simp)

lemma tabs_ok_update:
  assumes "i < length ts"
  shows "tabs_ok n (ts[i := t]) \<longleftrightarrow> tabs_ok n (t # remove_nth i ts)"
  by (rule tabs_ok_mset) (use mset_list_update [OF assms] in simp)

lemma tabs_ok_remove: "i < length ts \<Longrightarrow> tabs_ok n ts \<Longrightarrow> tabs_ok n (remove_nth i ts)"
  by (simp add: tabs_ok_nth [of i ts] tabs_ok_Cons)

lemma tabs_ok_mono: "tabs_ok n ts \<Longrightarrow> n \<le> m \<Longrightarrow> tabs_ok m ts"
  by (auto simp: tabs_ok_def)

lemma entries_nth: "i < length ts \<Longrightarrow> set (entries ts) = set (tab_entries (ts ! i)) \<union> set (entries (remove_nth i ts))"
proof -
  assume i: "i < length ts"
  have "mset (entries ts) = mset (entries (ts ! i # remove_nth i ts))"
    by (simp only: mset_entries mset_remove_nth [OF i]) (simp add: mset_entries)
  from mset_eq_setD [OF this] show ?thesis by simp
qed

lemma entries_update: "i < length ts \<Longrightarrow> set (entries (ts[i := t])) = set (tab_entries t) \<union> set (entries (remove_nth i ts))"
proof -
  assume i: "i < length ts"
  have "mset (entries (ts[i := t])) = mset (entries (t # remove_nth i ts))"
    by (simp only: mset_entries mset_list_update [OF i]) (simp add: mset_entries)
  from mset_eq_setD [OF this] show ?thesis by simp
qed

lemma tabs_ok_tab: "tabs_ok n ts \<Longrightarrow> i < length ts \<Longrightarrow> tab_inv (ts ! i)"
  by (simp add: tabs_ok_def)

text \<open>Replacing a tab by one that holds one more pane, by one without a pane, or by an equal one.\<close>

lemma tabs_ok_grow:
  assumes "tabs_ok n ts" "i < length ts" "tab_inv t'" "tb_number t' = tb_number (ts ! i)"
    and e: "mset (tab_entries t') = add_mset (p, terminal) (mset (tab_entries (ts ! i)))"
    and "p \<notin> fst ` set (entries ts)" "terminal \<notin> snd ` set (entries ts)"
  shows "tabs_ok n (ts[i := t'])"
    and "set (entries (ts[i := t'])) = insert (p, terminal) (set (entries ts))"
proof -
  have s: "set (tab_entries t') = insert (p, terminal) (set (tab_entries (ts ! i)))"
    using arg_cong [OF e, of set_mset] by simp
  have "mset (map snd (tab_entries t')) = add_mset terminal (mset (map snd (tab_entries (ts ! i))))"
    by (simp add: e)
  then have d: "distinct (map snd (tab_entries t')) \<longleftrightarrow> distinct (terminal # map snd (tab_entries (ts ! i)))"
    by (intro mset_eq_imp_distinct_iff) simp
  show "tabs_ok n (ts[i := t'])"
    using assms(1-4,6,7) entries_nth [OF assms(2)] s d
    by (simp add: tabs_ok_update tabs_ok_nth [of i ts] tabs_ok_Cons image_Un)
  show "set (entries (ts[i := t'])) = insert (p, terminal) (set (entries ts))"
    using entries_update [OF assms(2), of t'] entries_nth [OF assms(2)] s by simp
qed

lemma distinct_fst_unique:
  "distinct (map fst (entries ts)) \<Longrightarrow> (p, a) \<in> set (entries ts) \<Longrightarrow> (p, b) \<in> set (entries ts) \<Longrightarrow> a = b"
  by (metis eq_key_imp_eq_value)

lemma tabs_ok_shrink:
  assumes "tabs_ok n ts" "i < length ts" "tab_inv t'" "tb_number t' = tb_number (ts ! i)"
    and e: "tab_entries t' = filter (\<lambda>x. fst x \<noteq> p) (tab_entries (ts ! i))"
    and p: "p \<in> fst ` set (tab_entries (ts ! i))"
  shows "tabs_ok n (ts[i := t'])"
    and "set (entries (ts[i := t'])) = {x \<in> set (entries ts). fst x \<noteq> p}"
proof -
  have ok: "tabs_ok n (ts ! i # remove_nth i ts)" using assms(1,2) by (simp add: tabs_ok_nth [of i ts])
  have "distinct (map snd (tab_entries t'))"
    unfolding e by (rule distinct_map_filter) (use ok in \<open>simp add: tabs_ok_Cons\<close>)
  with ok assms(2-4) show "tabs_ok n (ts[i := t'])"
    by (auto simp: tabs_ok_update tabs_ok_Cons e)
  have "p \<notin> fst ` set (entries (remove_nth i ts))" using ok p by (auto simp: tabs_ok_Cons)
  then show "set (entries (ts[i := t'])) = {x \<in> set (entries ts). fst x \<noteq> p}"
    unfolding entries_update [OF assms(2)] entries_nth [OF assms(2)] e by force
qed

lemma tabs_ok_same:
  assumes "tabs_ok n ts" "i < length ts" "tab_inv t'" "tb_number t' = tb_number (ts ! i)"
    and e: "mset (tab_entries t') = mset (tab_entries (ts ! i))"
  shows "tabs_ok n (ts[i := t'])" and "set (entries (ts[i := t'])) = set (entries ts)"
proof -
  have s: "set (tab_entries t') = set (tab_entries (ts ! i))" by (rule mset_eq_setD [OF e])
  show "tabs_ok n (ts[i := t'])"
    using assms(1-4) s distinct_mset_eq [OF e, of snd]
    by (simp add: tabs_ok_update tabs_ok_nth [of i ts] tabs_ok_Cons)
  show "set (entries (ts[i := t'])) = set (entries ts)"
    using entries_update [OF assms(2), of t'] entries_nth [OF assms(2)] s by simp
qed

section \<open>Public numbers\<close>

text \<open>The registered panes, their numbers distinct, positive and below the next one.\<close>

definition numbers_ok :: "u64 \<Rightarrow> (pane_id \<rightharpoonup> u64) \<Rightarrow> pane_id set \<Rightarrow> bool" where
  "numbers_ok n m S \<longleftrightarrow> dom m = S \<and> inj_on m S \<and> (\<forall>k \<in> ran m. 0 < k \<and> k < n) \<and> 0 < n"

lemma numbers_ok_register:
  assumes "numbers_ok n m S" "i \<notin> S" "n \<noteq> -1"
  shows "numbers_ok (max n (n + 1)) (m(i \<mapsto> n)) (insert i S)"
proof -
  have n: "n < n + 1" using assms(3) by (simp add: less_plus_1)
  then have mx: "max n (n + 1) = n + 1" by simp
  have "n \<notin> ran m" using assms(1) by (auto simp: numbers_ok_def)
  then have "inj_on (m(i \<mapsto> n)) (insert i S)"
    using assms(1,2) by (auto simp: numbers_ok_def inj_on_def ran_def dom_def)
  moreover have "ran (m(i \<mapsto> n)) = insert n (ran m)"
    using assms(1,2) by (auto simp: numbers_ok_def ran_map_upd dom_def)
  ultimately show ?thesis
    using assms(1) n order.strict_trans [of _ n "n + 1"] unfolding mx by (auto simp: numbers_ok_def)
qed

lemma numbers_ok_restrict: "numbers_ok n m S \<Longrightarrow> numbers_ok n (m |` (- D)) (S - D)"
  by (auto simp: numbers_ok_def inj_on_def restrict_map_def ran_def dom_def split: if_splits)

lemma numbers_ok_remove: "numbers_ok n m S \<Longrightarrow> numbers_ok n (m(i := None)) (S - {i})"
  by (auto simp: numbers_ok_def inj_on_def ran_def dom_def split: if_splits)

section \<open>The invariant\<close>

text \<open>
  \<open>workspace_ok R w\<close>: the tabs are in order, the active one exists, and exactly the live panes and
  those in \<open>R\<close> have a number. \<open>R\<close> is empty except while a pane is on its way between tabs. Between
  operations the workspace has a tab.
\<close>

definition workspace_ok :: "pane_id set \<Rightarrow> app_workspace \<Rightarrow> bool" where
  "workspace_ok R w \<longleftrightarrow>
     (if wk_tabs w = [] then wk_active_tab w = 0 else wk_active_tab w < length (wk_tabs w))
     \<and> tabs_ok (next_public_tab_number w) (wk_tabs w) \<and> 0 < next_public_tab_number w
     \<and> numbers_ok (next_public_pane_number w) (public_pane_numbers w) (live w \<union> R) \<and> R \<inter> live w = {}"

definition workspace_inv :: "app_workspace \<Rightarrow> bool" where
  "workspace_inv w \<longleftrightarrow> workspace_ok {} w \<and> wk_tabs w \<noteq> []"

definition terminals :: "app_workspace \<Rightarrow> terminal_id set" where
  "terminals w = snd ` set (entries (wk_tabs w))"

lemma live_dom: "tabs_ok n (wk_tabs w) \<Longrightarrow> live w = (\<Union>t \<in> set (wk_tabs w). dom (tb_panes t))"
  by (auto simp: live_def entries_def tabs_ok_def tab_entries_fst [symmetric] image_UN)

lemma find_tab_index_Some:
  "find_tab_index_for_pane i w = Some k \<Longrightarrow> k < length (wk_tabs w) \<and> i \<in> dom (tb_panes (wk_tabs w ! k))"
  using position_Some by (fastforce simp: find_tab_index_for_pane_def)

lemma find_tab_index_None: "tabs_ok n (wk_tabs w) \<Longrightarrow> find_tab_index_for_pane i w = None \<longleftrightarrow> i \<notin> live w"
  by (auto simp: find_tab_index_for_pane_def position_None live_dom dom_def)

lemma workspace_inv_active: "workspace_inv w \<Longrightarrow> active_tab w = Some (wk_tabs w ! wk_active_tab w) \<and> wk_active_tab w < length (wk_tabs w)"
  by (auto simp: workspace_inv_def workspace_ok_def active_tab_def)

text \<open>The index of the active tab after a tab was removed.\<close>

lemma adjusted_in_range:
  assumes "a < Suc n" "0 < n"
  shows "(if a \<ge> n then n - 1 else if r \<le> a \<and> a > 0 then a - 1 else a) < (n :: nat)"
  using assms by auto

section \<open>What the operations keep\<close>

lemma workspace_ok_tab: "workspace_ok R w \<Longrightarrow> k < length (wk_tabs w) \<Longrightarrow> tab_inv (wk_tabs w ! k)"
  by (auto simp: workspace_ok_def intro: tabs_ok_tab)

lemma workspace_ok_pos: "workspace_ok R w \<Longrightarrow> 0 < next_public_pane_number w" "workspace_ok R w \<Longrightarrow> 0 < next_public_tab_number w"
  by (simp_all add: workspace_ok_def numbers_ok_def)

lemma in_tab_live:
  assumes "workspace_ok R w" "k < length (wk_tabs w)" "i \<in> dom (tb_panes (wk_tabs w ! k))"
  shows "i \<in> live w"
  using assms live_dom [of "next_public_tab_number w" w] by (auto simp: workspace_ok_def)

text \<open>Replacing a tab by one with the same panes in any order.\<close>

lemma workspace_same:
  assumes "workspace_ok R w" "k < length (wk_tabs w)" "tab_inv t'" "tb_number t' = tb_number (wk_tabs w ! k)"
    and "mset (tab_entries t') = mset (tab_entries (wk_tabs w ! k))"
  shows "workspace_ok R (w\<lparr>wk_tabs := (wk_tabs w)[k := t']\<rparr>)"
    and "entries ((wk_tabs w)[k := t']) \<noteq> [] \<and> set (entries ((wk_tabs w)[k := t'])) = set (entries (wk_tabs w))"
proof -
  have ok: "tabs_ok (next_public_tab_number w) (wk_tabs w)" using assms(1) by (simp add: workspace_ok_def)
  note s = tabs_ok_same [OF ok assms(2-)]
  have ne: "wk_tabs w \<noteq> []" using assms(2) by auto
  show "workspace_ok R (w\<lparr>wk_tabs := (wk_tabs w)[k := t']\<rparr>)"
    using assms(1) s ne by (simp add: workspace_ok_def live_def)
  have "set (entries (wk_tabs w)) \<noteq> {}" unfolding entries_nth [OF assms(2)] by simp
  then show "entries ((wk_tabs w)[k := t']) \<noteq> [] \<and> set (entries ((wk_tabs w)[k := t'])) = set (entries (wk_tabs w))"
    using s(2) by force
qed

text \<open>A new pane in a tab, registered under the next number.\<close>

lemma workspace_grow:
  assumes "workspace_ok {} w" "k < length (wk_tabs w)" "tab_inv t'" "tb_number t' = tb_number (wk_tabs w ! k)"
    and "mset (tab_entries t') = add_mset (p, terminal) (mset (tab_entries (wk_tabs w ! k)))"
    and "p \<notin> live w" "terminal \<notin> terminals w" "next_public_pane_number w \<noteq> -1"
  shows "workspace_ok {} (register_new_pane_with_number p (next_public_pane_number w)
      (w\<lparr>wk_tabs := (wk_tabs w)[k := t']\<rparr>))"
    and "set (entries ((wk_tabs w)[k := t'])) = insert (p, terminal) (set (entries (wk_tabs w)))"
proof -
  have ok: "tabs_ok (next_public_tab_number w) (wk_tabs w)" using assms(1) by (simp add: workspace_ok_def)
  note s = tabs_ok_grow [OF ok assms(2-5) assms(6,7) [unfolded live_def terminals_def]]
  have ne: "wk_tabs w \<noteq> []" using assms(2) by auto
  have "numbers_ok (next_public_pane_number w) (public_pane_numbers w) (live w)"
    using assms(1) by (simp add: workspace_ok_def)
  from numbers_ok_register [OF this assms(6,8)]
  show "workspace_ok {} (register_new_pane_with_number p (next_public_pane_number w)
      (w\<lparr>wk_tabs := (wk_tabs w)[k := t']\<rparr>))"
    using assms(1) s ne by (simp add: workspace_ok_def live_def register_new_pane_with_number_def)
  show "set (entries ((wk_tabs w)[k := t'])) = insert (p, terminal) (set (entries (wk_tabs w)))" by (rule s(2))
qed

text \<open>A pane that already has a number comes back into a tab.\<close>

lemma workspace_return:
  assumes "workspace_ok {p} w" "k < length (wk_tabs w)" "tab_inv t'" "tb_number t' = tb_number (wk_tabs w ! k)"
    and "mset (tab_entries t') = add_mset (p, terminal) (mset (tab_entries (wk_tabs w ! k)))"
    and "terminal \<notin> terminals w"
  shows "workspace_ok {} (w\<lparr>wk_tabs := (wk_tabs w)[k := t']\<rparr>)"
    and "set (entries ((wk_tabs w)[k := t'])) = insert (p, terminal) (set (entries (wk_tabs w)))"
proof -
  have ok: "tabs_ok (next_public_tab_number w) (wk_tabs w)" and p: "p \<notin> live w"
    using assms(1) by (auto simp: workspace_ok_def)
  note s = tabs_ok_grow [OF ok assms(2-5) p [unfolded live_def] assms(6) [unfolded terminals_def]]
  have ne: "wk_tabs w \<noteq> []" using assms(2) by auto
  show "workspace_ok {} (w\<lparr>wk_tabs := (wk_tabs w)[k := t']\<rparr>)"
    using assms(1) s ne by (simp add: workspace_ok_def live_def)
  show "set (entries ((wk_tabs w)[k := t'])) = insert (p, terminal) (set (entries (wk_tabs w)))" by (rule s(2))
qed

text \<open>A tab loses one of several panes; the pane keeps its number or not.\<close>

lemma workspace_shrink:
  assumes "workspace_ok {} w" "k < length (wk_tabs w)" "tab_inv t'" "tb_number t' = tb_number (wk_tabs w ! k)"
    and "tab_entries t' = filter (\<lambda>x. fst x \<noteq> p) (tab_entries (wk_tabs w ! k))"
    and "p \<in> dom (tb_panes (wk_tabs w ! k))"
  shows "workspace_ok {p} (w\<lparr>wk_tabs := (wk_tabs w)[k := t']\<rparr>)"
    and "workspace_ok {} (unregister_pane p (w\<lparr>wk_tabs := (wk_tabs w)[k := t']\<rparr>))"
    and "set (entries ((wk_tabs w)[k := t'])) = {x \<in> set (entries (wk_tabs w)). fst x \<noteq> p}"
proof -
  have ok: "tabs_ok (next_public_tab_number w) (wk_tabs w)"
    and num: "numbers_ok (next_public_pane_number w) (public_pane_numbers w) (live w)"
    using assms(1) by (auto simp: workspace_ok_def)
  have inv: "tab_inv (wk_tabs w ! k)" by (rule tabs_ok_tab [OF ok assms(2)])
  have p: "p \<in> live w" by (rule in_tab_live [OF assms(1,2,6)])
  note s = tabs_ok_shrink [OF ok assms(2-5) assms(6) [folded tab_entries_fst [OF inv]]]
  have ne: "wk_tabs w \<noteq> []" using assms(2) by auto
  have live: "fst ` set (entries ((wk_tabs w)[k := t'])) = live w - {p}" unfolding s(2) live_def by force
  have "insert p (live w) = live w" using p by auto
  then show "workspace_ok {p} (w\<lparr>wk_tabs := (wk_tabs w)[k := t']\<rparr>)"
    using assms(1) s(1) ne live num p by (simp add: workspace_ok_def live_def [of "w\<lparr>wk_tabs := _\<rparr>"])
  show "workspace_ok {} (unregister_pane p (w\<lparr>wk_tabs := (wk_tabs w)[k := t']\<rparr>))"
    using assms(1) s(1) ne live numbers_ok_remove [OF num, of p]
    by (simp add: workspace_ok_def unregister_pane_def live_def [of "w\<lparr>public_pane_numbers := _, wk_tabs := _\<rparr>"]
        live_def [of "w\<lparr>wk_tabs := _, public_pane_numbers := _\<rparr>"])
  show "set (entries ((wk_tabs w)[k := t'])) = {x \<in> set (entries (wk_tabs w)). fst x \<noteq> p}" by (rule s(2))
qed

lemma live_cong: "wk_tabs w = wk_tabs v \<Longrightarrow> live w = live v" "wk_tabs w = wk_tabs v \<Longrightarrow> terminals w = terminals v"
  by (simp_all add: live_def terminals_def)

text \<open>A whole tab is removed; its panes keep their numbers or not.\<close>

lemma entries_remove_nth:
  assumes "workspace_ok R w" "k < length (wk_tabs w)"
  shows "set (entries (remove_nth k (wk_tabs w))) = {x \<in> set (entries (wk_tabs w)). fst x \<notin> dom (tb_panes (wk_tabs w ! k))}"
proof -
  have "tabs_ok (next_public_tab_number w) (wk_tabs w ! k # remove_nth k (wk_tabs w))"
    using assms tabs_ok_nth [OF assms(2)] by (auto simp: workspace_ok_def)
  then have "fst ` set (tab_entries (wk_tabs w ! k)) \<inter> fst ` set (entries (remove_nth k (wk_tabs w))) = {}"
    unfolding tabs_ok_Cons by blast
  then show ?thesis
    unfolding entries_nth [OF assms(2)] tab_entries_fst [OF workspace_ok_tab [OF assms], symmetric]
    by blast
qed

lemma workspace_remove_tab:
  assumes "workspace_ok {} w" "k < length (wk_tabs w)"
    and "wk_tabs w' = remove_nth k (wk_tabs w)" "next_public_tab_number w' = next_public_tab_number w"
    and "if wk_tabs w' = [] then wk_active_tab w' = 0 else wk_active_tab w' < length (wk_tabs w')"
    and "next_public_pane_number w' = next_public_pane_number w"
  shows "public_pane_numbers w' = public_pane_numbers w \<Longrightarrow> workspace_ok (dom (tb_panes (wk_tabs w ! k))) w'"
    and "public_pane_numbers w' = public_pane_numbers w |` (- dom (tb_panes (wk_tabs w ! k))) \<Longrightarrow> workspace_ok {} w'"
    and "set (entries (wk_tabs w')) = {x \<in> set (entries (wk_tabs w)). fst x \<notin> dom (tb_panes (wk_tabs w ! k))}"
proof -
  let ?D = "dom (tb_panes (wk_tabs w ! k))"
  have ok: "tabs_ok (next_public_tab_number w) (remove_nth k (wk_tabs w))"
    and num: "numbers_ok (next_public_pane_number w) (public_pane_numbers w) (live w)"
    using assms(1) tabs_ok_remove [OF assms(2)] by (auto simp: workspace_ok_def)
  show e: "set (entries (wk_tabs w')) = {x \<in> set (entries (wk_tabs w)). fst x \<notin> ?D}"
    unfolding assms(3) by (rule entries_remove_nth [OF assms(1,2)])
  then have live: "live w' = live w - ?D" unfolding live_def by force
  have "?D \<subseteq> live w" using in_tab_live [OF assms(1,2)] by blast
  then have "live w' \<union> ?D = live w" "?D \<inter> live w' = {}" unfolding live by auto
  then show "public_pane_numbers w' = public_pane_numbers w \<Longrightarrow> workspace_ok ?D w'"
    using assms ok num by (simp add: workspace_ok_def)
  show "public_pane_numbers w' = public_pane_numbers w |` (- ?D) \<Longrightarrow> workspace_ok {} w'"
    using assms ok numbers_ok_restrict [OF num, of ?D] live by (simp add: workspace_ok_def)
qed

text \<open>A new tab with one pane.\<close>

lemma workspace_add_tab:
  assumes "workspace_ok R w" "tab_inv t" "tb_number t = next_public_tab_number w"
    "tab_entries t = [(p, terminal)]" "p \<notin> live w" "terminal \<notin> terminals w" "next_public_tab_number w \<noteq> -1"
    and "wk_tabs w' = wk_tabs w @ [t]" "next_public_tab_number w' = next_public_tab_number w + 1"
      "wk_active_tab w' = wk_active_tab w"
    and num: "numbers_ok (next_public_pane_number w') (public_pane_numbers w') (insert p (live w))"
  shows "workspace_ok {} w'" and "set (entries (wk_tabs w')) = insert (p, terminal) (set (entries (wk_tabs w)))"
proof -
  have lt: "next_public_tab_number w < next_public_tab_number w + 1" using assms(7) by (simp add: less_plus_1)
  have old: "tabs_ok (next_public_tab_number w) (wk_tabs w)" using assms(1) by (simp add: workspace_ok_def)
  then have ok: "tabs_ok (next_public_tab_number w + 1) (wk_tabs w)" using lt by (auto elim: tabs_ok_mono)
  have num: "tb_number t \<notin> tb_number ` set (wk_tabs w)" unfolding assms(3) using old by (auto simp: tabs_ok_def)
  have "tabs_ok (next_public_tab_number w + 1) (t # wk_tabs w)"
    using assms(2-6) workspace_ok_pos [OF assms(1)] ok num lt
    by (simp add: tabs_ok_Cons live_def terminals_def)
  moreover have "mset (wk_tabs w') = mset (t # wk_tabs w)" by (simp add: assms(8))
  ultimately have "tabs_ok (next_public_tab_number w') (wk_tabs w')" using tabs_ok_mset assms(9) by metis
  moreover have "live w' = insert p (live w)" by (auto simp: live_def assms(4,8))
  moreover have "wk_active_tab w < length (wk_tabs w @ [t])"
    using assms(1) by (auto simp: workspace_ok_def split: if_splits)
  moreover have "0 < next_public_tab_number w + 1"
    using lt order.strict_trans [OF workspace_ok_pos(2) [OF assms(1)] lt] by simp
  ultimately show "workspace_ok {} w'" using assms(8-11) by (simp add: workspace_ok_def)
  show "set (entries (wk_tabs w')) = insert (p, terminal) (set (entries (wk_tabs w)))" by (auto simp: assms(4,8))
qed

abbreviation panes_of :: "app_workspace \<Rightarrow> (pane_id \<times> terminal_id) set" where
  "panes_of w \<equiv> set (entries (wk_tabs w))"

lemma live_panes: "live w = fst ` panes_of w" and terminals_panes: "terminals w = snd ` panes_of w"
  by (simp_all add: live_def terminals_def)

lemma numbers_ok_single: "numbers_ok 2 [i \<mapsto> 1] {i}"
  by (auto simp: numbers_ok_def)

lemma fresh_workspace_ok:
  assumes "tab_inv t" "tb_number t = 1" "tab_entries t = [(p, terminal)]"
  shows "workspace_inv \<lparr>wk_id = i, wk_custom_name = c, wk_identity_cwd = d, wk_worktree_space = None, public_pane_numbers = [p \<mapsto> 1],
      next_public_pane_number = 2, next_public_tab_number = 2, wk_tabs = [t], wk_active_tab = 0\<rparr>"
  using assms numbers_ok_single [of p]
  by (simp add: workspace_inv_def workspace_ok_def tabs_ok_Cons live_def)

lemma new_with_tab_ok:
  assumes "new_with_tab spawn cwd (counter, next_id) = (Inr (w, terminal), counter', next')"
  shows "workspace_inv w" "panes_of w = {(next_id, terminal)}" "next' = next_id + 1"
    "spawn \<lparr>li_workspace_id = wk_id w, li_tab_id = public_tab_id_for_number (wk_id w) 1,
       li_pane_id = public_pane_id_for_number (wk_id w) 1\<rparr> next_id = Inr terminal"
    "next_public_pane_number w = 2" "next_public_tab_number w = 2"
proof -
  let ?env = "\<lparr>li_workspace_id = fst (generate_workspace_id counter),
      li_tab_id = public_tab_id_for_number (fst (generate_workspace_id counter)) 1,
      li_pane_id = public_pane_id_for_number (fst (generate_workspace_id counter)) 1\<rparr>"
  obtain r n where t: "tab_new_with_runtime 1 (spawn ?env) next_id = (r, n)"
    by (cases "tab_new_with_runtime 1 (spawn ?env) next_id")
  with assms obtain tb where r: "r = Inr (tb, terminal)" "n = next'"
    and w: "w = \<lparr>wk_id = fst (generate_workspace_id counter), wk_custom_name = None, wk_identity_cwd = cwd, wk_worktree_space = None,
                 public_pane_numbers = [tb_root_pane tb \<mapsto> 1], next_public_pane_number = 2,
                 next_public_tab_number = 2, wk_tabs = [tb], wk_active_tab = 0\<rparr>"
    by (cases r) (auto simp: new_with_tab_def Let_def case_prod_beta)
  note k = tab_new_ok [OF t [unfolded r]]
  show "workspace_inv w" unfolding w using k by (intro fresh_workspace_ok) simp_all
  show "panes_of w = {(next_id, terminal)}" "next' = next_id + 1"
    "next_public_pane_number w = 2" "next_public_tab_number w = 2"
    "spawn \<lparr>li_workspace_id = wk_id w, li_tab_id = public_tab_id_for_number (wk_id w) 1,
       li_pane_id = public_pane_id_for_number (wk_id w) 1\<rparr> next_id = Inr terminal"
    using k by (simp_all add: w)
qed

lemma from_existing_ok:
  assumes "workspace_from_existing_pane label tab_label cwd m counter = (w, counter')"
  shows "workspace_inv w" "panes_of w = {(mp_pane_id m, attached_terminal_id (mp_pane_state m))}"
  using assms
  by (auto simp: workspace_from_existing_pane_def Let_def case_prod_beta intro!: fresh_workspace_ok)

lemma mark_seen_ok:
  assumes "tab_inv t"
  shows "tab_inv (mark_seen t)" "tab_entries (mark_seen t) = tab_entries t" "tb_number (mark_seen t) = tb_number t"
proof -
  show "tab_inv (mark_seen t)" using assms by (auto simp: tab_inv_def mark_seen_def dom_def)
  show "tab_entries (mark_seen t) = tab_entries t"
  proof -
    have "\<exists>p. tb_panes t i = Some p" if "i \<in> set (pane_ids (tb_layout t))" for i
      using assms that by (auto simp: tab_inv_def)
    then show ?thesis by (fastforce simp: tab_entries_def mark_seen_def)
  qed
qed (simp add: mark_seen_def)

lemma switch_tab_ok:
  assumes "workspace_inv w"
  shows "workspace_inv (switch_tab idx w)" "panes_of (switch_tab idx w) = panes_of w"
proof -
  have w: "workspace_ok {} w" using assms by (simp add: workspace_inv_def)
  have "workspace_inv (switch_tab idx w) \<and> panes_of (switch_tab idx w) = panes_of w"
  proof (cases "idx < length (wk_tabs w)")
    case True
    note m = mark_seen_ok [OF workspace_ok_tab [OF w True]]
    note s = workspace_same [OF w True m(1) m(3)] m(2)
    have "workspace_ok {} (w\<lparr>wk_tabs := (wk_tabs w)[idx := mark_seen (wk_tabs w ! idx)]\<rparr>)" by (rule s) (simp add: m(2))
    then have "workspace_ok {} (w\<lparr>wk_active_tab := idx, wk_tabs := (wk_tabs w)[idx := mark_seen (wk_tabs w ! idx)]\<rparr>)"
      using True by (auto simp: workspace_ok_def live_def)
    then show ?thesis using True s(2) assms m(2) by (auto simp: switch_tab_def workspace_inv_def)
  qed (use assms in \<open>simp add: switch_tab_def\<close>)
  then show "workspace_inv (switch_tab idx w)" "panes_of (switch_tab idx w) = panes_of w" by auto
qed

lemma create_tab_cases:
  assumes w: "workspace_inv w" and "next_id \<notin> live w" "next_public_tab_number w \<noteq> -1" "next_public_pane_number w \<noteq> -1"
    and fresh: "\<And>e terminal. spawn e next_id = Inr terminal \<Longrightarrow> terminal \<notin> terminals w"
  obtains
    (failed) e where "create_tab_with_runtime spawn (w, next_id)
        = Some (Inl e, w\<lparr>next_public_tab_number := next_public_tab_number w + 1\<rparr>, next_id + 1)"
      "workspace_inv (w\<lparr>next_public_tab_number := next_public_tab_number w + 1\<rparr>)"
  | (created) terminal w' where "create_tab_with_runtime spawn (w, next_id)
        = Some (Inr (length (wk_tabs w), terminal), w', next_id + 1)"
      "workspace_inv w'" "panes_of w' = insert (next_id, terminal) (panes_of w)"
      "public_pane_numbers w' = (public_pane_numbers w)(next_id \<mapsto> next_public_pane_number w)"
      "next_public_pane_number w' = next_public_pane_number w + 1" "wk_id w' = wk_id w"
      "length (wk_tabs w') = Suc (length (wk_tabs w))"
      "tb_number (wk_tabs w' ! length (wk_tabs w)) = next_public_tab_number w"
      "spawn (launch_env_for_new_pane (next_public_tab_number w) (next_public_pane_number w) w) next_id = Inr terminal"
proof -
  let ?n = "next_public_tab_number w" and ?w = "w\<lparr>next_public_tab_number := next_public_tab_number w + 1\<rparr>"
  let ?env = "launch_env_for_new_pane ?n (next_public_pane_number w) w"
  have env: "launch_env_for_new_pane ?n (next_public_pane_number w) ?w = ?env" by (simp add: launch_env_for_new_pane_def)
  have ok: "workspace_ok {} w" and ne: "wk_tabs w \<noteq> []" using w by (auto simp: workspace_inv_def)
  have act: "active_tab ?w \<noteq> None" using workspace_inv_active [OF w] by (simp add: active_tab_def)
  have lt: "?n < ?n + 1" "next_public_pane_number w < next_public_pane_number w + 1"
    using assms(3,4) by (simp_all add: less_plus_1)
  obtain r n where t: "tab_new_with_runtime ?n (spawn ?env) next_id = (r, n)"
    by (cases "tab_new_with_runtime ?n (spawn ?env) next_id")
  show ?thesis
  proof (cases r)
    case (Inl e)
    then have "n = next_id + 1" using t by (auto simp: tab_new_with_runtime_def tl_new_def pane_alloc_def split: sum.splits)
    then have "create_tab_with_runtime spawn (w, next_id) = Some (Inl e, ?w, next_id + 1)"
      using t Inl act env by (simp add: create_tab_with_runtime_def Let_def)
    moreover have "workspace_inv ?w"
      using w lt tabs_ok_mono [of ?n "wk_tabs w" "?n + 1"] order.strict_trans [OF workspace_ok_pos(2) [OF ok] lt(1)]
      by (simp add: workspace_inv_def workspace_ok_def live_def)
    ultimately show ?thesis by (rule failed)
  next
    case (Inr x)
    then obtain tb terminal where r: "r = Inr (tb, terminal)" by (cases x) auto
    note k = tab_new_ok [OF t [unfolded r]]
    let ?w' = "(register_new_pane_with_number next_id (next_public_pane_number w) ?w)\<lparr>wk_tabs := wk_tabs w @ [tb]\<rparr>"
    have mx: "max (next_public_pane_number w) (next_public_pane_number w + 1) = next_public_pane_number w + 1"
      using lt by simp
    have c: "create_tab_with_runtime spawn (w, next_id) = Some (Inr (length (wk_tabs w), terminal), ?w', next_id + 1)"
      using t r k act env by (simp add: create_tab_with_runtime_def Let_def register_new_pane_with_number_def)
    have "numbers_ok (next_public_pane_number w) (public_pane_numbers w) (live w)"
      using ok by (simp add: workspace_ok_def)
    from numbers_ok_register [OF this assms(2,4)]
    have num: "numbers_ok (next_public_pane_number ?w') (public_pane_numbers ?w') (insert next_id (live w))"
      by (simp add: register_new_pane_with_number_def)
    have "workspace_ok {} ?w'"
      by (rule workspace_add_tab(1) [OF ok k(1) k(3) k(2) assms(2) fresh [OF k(5)] assms(3) _ _ _ num])
        (simp_all add: register_new_pane_with_number_def)
    moreover have "panes_of ?w' = insert (next_id, terminal) (panes_of w)" using k(2) by auto
    ultimately show ?thesis
      using c k(3,5) mx by (intro created [OF c]) (simp_all add: workspace_inv_def register_new_pane_with_number_def)
  qed
qed

text \<open>Closing and moving tabs: what happens to the active one.\<close>

lemma remove_nth_active:
  assumes "a < length xs" "r < length xs" "a \<noteq> r" "n = length xs - 1"
  shows "remove_nth r xs ! (if a \<ge> n then n - 1 else if r \<le> a \<and> a > 0 then a - 1 else a) = xs ! a"
proof (cases "r < a")
  case True
  then have "(if a \<ge> n then n - 1 else if r \<le> a \<and> a > 0 then a - 1 else a) = a - 1" using assms by auto
  moreover have "remove_nth r xs ! (a - 1) = xs ! a" using True assms(1) by (auto simp: remove_nth_def nth_append min_def)
  ultimately show ?thesis by simp
next
  case False
  then have "(if a \<ge> n then n - 1 else if r \<le> a \<and> a > 0 then a - 1 else a) = a" using assms by auto
  moreover have "remove_nth r xs ! a = xs ! a" using False assms(1,3) by (auto simp: remove_nth_def nth_append min_def)
  ultimately show ?thesis by simp
qed

lemma close_tab_ok:
  assumes "workspace_inv w" "1 < length (wk_tabs w)" "idx < length (wk_tabs w)"
  obtains w' where "close_tab idx w = (True, w')" "workspace_inv w'"
    "panes_of w' = {x \<in> panes_of w. fst x \<notin> dom (tb_panes (wk_tabs w ! idx))}"
    "wk_tabs w' = remove_nth idx (wk_tabs w)"
    "public_pane_numbers w' = public_pane_numbers w |` (- dom (tb_panes (wk_tabs w ! idx)))"
    "next_public_pane_number w' = next_public_pane_number w"
    "wk_active_tab w \<noteq> idx \<Longrightarrow> active_tab w' = active_tab w"
proof -
  have ok: "workspace_ok {} w" using assms(1) by (simp add: workspace_inv_def)
  let ?n = "length (wk_tabs w) - 1" and ?a = "wk_active_tab w"
  let ?w1 = "w\<lparr>wk_tabs := remove_nth idx (wk_tabs w),
      public_pane_numbers := public_pane_numbers w |` (- dom (tb_panes (wk_tabs w ! idx)))\<rparr>"
  define a' where "a' = (if ?a \<ge> ?n then ?n - 1 else if idx \<le> ?a \<and> ?a > 0 then ?a - 1 else ?a)"
  let ?w' = "?w1\<lparr>wk_active_tab := a'\<rparr>"
  have len: "length (remove_nth idx (wk_tabs w)) = ?n" using assms(3) by (rule length_remove_nth)
  have ne: "remove_nth idx (wk_tabs w) \<noteq> []" using len assms(2) by auto
  have a: "?a < length (wk_tabs w)" using workspace_inv_active [OF assms(1)] by simp
  have a': "a' < ?n" unfolding a'_def by (rule adjusted_in_range) (use a assms(2) in auto)
  have c: "close_tab idx w = (True, ?w')" using assms(2,3) len by (auto simp: close_tab_def Let_def a'_def)
  have "workspace_ok {} ?w'"
    by (rule workspace_remove_tab(2) [OF ok assms(3)]) (use ne len a' in simp_all)
  moreover have "panes_of ?w' = {x \<in> panes_of w. fst x \<notin> dom (tb_panes (wk_tabs w ! idx))}"
    using entries_remove_nth [OF ok assms(3)] by simp
  moreover have "active_tab ?w' = active_tab w" if "?a \<noteq> idx"
    using remove_nth_active [OF a assms(3) that refl] a a' len by (simp add: active_tab_def a'_def)
  ultimately show ?thesis using c ne by (intro that [OF c]) (simp_all add: workspace_inv_def)
qed

lemma close_tab_refused: "\<not> (1 < length (wk_tabs w) \<and> idx < length (wk_tabs w)) \<Longrightarrow> close_tab idx w = (False, w)"
  by (auto simp: close_tab_def)

lemma tabs_ok_roots:
  assumes "tabs_ok n ts" "t \<in> set ts" "u \<in> set ts" "tb_root_pane t = tb_root_pane u"
  shows "t = u"
proof -
  obtain i j where i: "i < length ts" "t = ts ! i" and j: "j < length ts" "u = ts ! j"
    using assms(2,3) by (metis in_set_conv_nth)
  have inv: "tab_inv t" "tab_inv u" using assms(1-3) by (auto simp: tabs_ok_def)
  have "tb_root_pane t \<in> fst ` set (tab_entries t)" "tb_root_pane u \<in> fst ` set (tab_entries u)"
    unfolding tab_entries_fst [OF inv(1)] tab_entries_fst [OF inv(2)] using inv unfolding tab_inv_def by blast+
  then have r: "tb_root_pane t \<in> fst ` set (tab_entries t)" "tb_root_pane t \<in> fst ` set (tab_entries u)"
    using assms(4) by simp_all
  have "tabs_ok n (t # remove_nth i ts)" using assms(1) tabs_ok_nth [OF i(1)] i(2) by simp
  then have "fst ` set (tab_entries t) \<inter> fst ` set (entries (remove_nth i ts)) = {}" by (simp add: tabs_ok_Cons)
  then have "u \<notin> set (remove_nth i ts)" using r by (auto simp: entries_def)
  moreover have "u \<in> insert t (set (remove_nth i ts))"
    using assms(3) mset_eq_setD [of ts "t # remove_nth i ts"] mset_remove_nth [OF i(1)] i(2) by auto
  ultimately show "t = u" by simp
qed

lemma move_tab_cases:
  assumes "workspace_inv w"
  obtains (no) "move_tab s i w = (False, w)"
  | (moved) w' k where "move_tab s i w = (True, w')" "workspace_inv w'" "active_tab w' = active_tab w"
      "wk_tabs w' = insert_nth k (wk_tabs w ! s) (remove_nth s (wk_tabs w))" "s < length (wk_tabs w)"
      "mset (wk_tabs w') = mset (wk_tabs w)" "panes_of w' = panes_of w" "public_pane_numbers w' = public_pane_numbers w"
      "next_public_pane_number w' = next_public_pane_number w"
proof -
  let ?ts = "wk_tabs w"
  let ?k = "min (if s < i then i - 1 else i) (length ?ts - 1)"
  show ?thesis
  proof (cases "s \<ge> length ?ts \<or> i > length ?ts \<or> s = ?k")
    case True
    then show ?thesis by (intro no) (auto simp: move_tab_def Let_def)
  next
    case False
    then have s: "s < length ?ts" by simp
    let ?us = "insert_nth ?k (?ts ! s) (remove_nth s ?ts)"
    obtain t where act: "active_tab w = Some t" "t \<in> set ?ts"
      using workspace_inv_active [OF assms] by auto
    have ms: "mset ?us = mset ?ts" using mset_remove_nth [OF s] by (simp add: mset_insert_nth)
    then have t: "t \<in> set ?us" using act(2) mset_eq_setD by blast
    then obtain a where a: "position (\<lambda>u. tb_root_pane u = tb_root_pane t) ?us = Some a"
      by (cases "position (\<lambda>u. tb_root_pane u = tb_root_pane t) ?us") (auto simp: position_None)
    have ok: "tabs_ok (next_public_tab_number w) ?ts" using assms by (simp add: workspace_inv_def workspace_ok_def)
    then have ok': "tabs_ok (next_public_tab_number w) ?us" using tabs_ok_mset [OF ms] by simp
    have "a < length ?us" "tb_root_pane (?us ! a) = tb_root_pane t" using position_Some [OF a] by auto
    then have a': "a < length ?us" "?us ! a = t" using tabs_ok_roots [OF ok' _ t] nth_mem by auto
    let ?w' = "w\<lparr>wk_tabs := ?us, wk_active_tab := a\<rparr>"
    have e: "panes_of ?w' = panes_of w"
      using mset_eq_setD [of "entries ?us" "entries ?ts"] ms by (simp add: mset_entries)
    have m: "move_tab s i w = (True, ?w')" using False act a by (simp add: move_tab_def Let_def)
    have "?us \<noteq> []" by (simp add: insert_nth_def)
    with a' ok' assms e have "workspace_inv ?w'"
      by (auto simp: workspace_inv_def workspace_ok_def live_panes)
    moreover have "active_tab ?w' = active_tab w" using a' act by (simp add: active_tab_def)
    ultimately show ?thesis using m ms e s by (intro moved [OF m]) simp_all
  qed
qed

text \<open>Splitting a pane of a tab.\<close>

lemma split_at_tab_cases:
  assumes w: "workspace_inv w" and k: "k < length (wk_tabs w)" "i \<in> dom (tb_panes (wk_tabs w ! k))"
    and "next_id \<notin> live w" "next_public_pane_number w \<noteq> -1"
    and fresh: "\<And>terminal. spawn next_id = Inr terminal \<Longrightarrow> terminal \<notin> terminals w"
  obtains
    (failed) e where "spawn next_id = Inl e"
      "tab_split_pane_with_runtime spawn i f d r (wk_tabs w ! k, next_id)
        = Some (Inl (SpawnError e), wk_tabs w ! k, next_id + 1)"
  | (split) terminal t' where "spawn next_id = Inr terminal"
      "tab_split_pane_with_runtime spawn i f d r (wk_tabs w ! k, next_id)
        = Some (Inr \<lparr>np_pane_id = next_id, np_terminal = terminal\<rparr>, t', next_id + 1)"
      "workspace_inv (register_new_pane_with_number next_id (next_public_pane_number w)
        (w\<lparr>wk_tabs := (wk_tabs w)[k := t']\<rparr>))"
      "set (entries ((wk_tabs w)[k := t'])) = insert (next_id, terminal) (panes_of w)"
      "next_id \<in> dom (tb_panes t')" "tl_focus (tb_layout t') = (if f then next_id else tl_focus (tb_layout (wk_tabs w ! k)))"
proof -
  have ok: "workspace_ok {} w" using w by (simp add: workspace_inv_def)
  have n: "next_id \<notin> dom (tb_panes (wk_tabs w ! k))" using in_tab_live [OF ok k(1)] assms(4) by blast
  show ?thesis
  proof (rule tab_split_cases [OF workspace_ok_tab [OF ok k(1)] n k(2), of spawn f d r])
    fix e assume "spawn next_id = Inl e"
      "tab_split_pane_with_runtime spawn i f d r (wk_tabs w ! k, next_id) = Some (Inl (SpawnError e), wk_tabs w ! k, next_id + 1)"
    then show ?thesis by (rule failed)
  next
    fix terminal t'
    assume a: "spawn next_id = Inr terminal"
      "tab_split_pane_with_runtime spawn i f d r (wk_tabs w ! k, next_id)
        = Some (Inr \<lparr>np_pane_id = next_id, np_terminal = terminal\<rparr>, t', next_id + 1)"
      "tab_inv t'" "mset (tab_entries t') = add_mset (next_id, terminal) (mset (tab_entries (wk_tabs w ! k)))"
      "tb_number t' = tb_number (wk_tabs w ! k)" "next_id \<in> dom (tb_panes t')"
      "tl_focus (tb_layout t') = (if f then next_id else tl_focus (tb_layout (wk_tabs w ! k)))"
    note g = workspace_grow [OF ok k(1) a(3,5,4) assms(4) fresh [OF a(1)] assms(5)]
    show ?thesis
      using a(1,2,6,7) g k(1) w by (intro split [OF a(1,2)]) (auto simp: workspace_inv_def register_new_pane_with_number_def)
  qed
qed

lemma list_update_at: "w\<lparr>wk_tabs := (wk_tabs w)[k := wk_tabs w ! k]\<rparr> = w"
  by simp

text \<open>
  The two splits of a workspace: an unknown pane is refused, a terminal that does not start leaves
  the workspace as it was, and otherwise the new pane is registered under the next number, which is
  the one its terminal was told.
\<close>

lemma workspace_split_cases:
  assumes w: "workspace_inv w" and i: "i \<in> live w" and "next_id \<notin> live w" "next_public_pane_number w \<noteq> -1"
    and fresh: "\<And>e terminal. spawn e next_id = Inr terminal \<Longrightarrow> terminal \<notin> terminals w"
  obtains
    (failed) e where "workspace_split_pane_with_runtime spawn i d r f (w, next_id)
        = Some (Some (Inl (SpawnError e)), w, next_id + 1)"
  | (split) k terminal w' where "workspace_split_pane_with_runtime spawn i d r f (w, next_id)
        = Some (Some (Inr (k, \<lparr>np_pane_id = next_id, np_terminal = terminal\<rparr>)), w', next_id + 1)"
      "find_tab_index_for_pane i w = Some k"
      "workspace_inv w'" "panes_of w' = insert (next_id, terminal) (panes_of w)"
      "public_pane_numbers w' = (public_pane_numbers w)(next_id \<mapsto> next_public_pane_number w)"
      "next_public_pane_number w' = next_public_pane_number w + 1"
      "spawn (launch_env_for_new_pane (tb_number (wk_tabs w ! k)) (next_public_pane_number w) w) next_id = Inr terminal"
proof -
  have ok: "workspace_ok {} w" using w by (simp add: workspace_inv_def)
  then have "find_tab_index_for_pane i w \<noteq> None" using i find_tab_index_None by (auto simp: workspace_ok_def)
  then obtain k where k: "find_tab_index_for_pane i w = Some k" by blast
  have kl: "k < length (wk_tabs w)" "i \<in> dom (tb_panes (wk_tabs w ! k))" using find_tab_index_Some [OF k] by auto
  have mx: "max (next_public_pane_number w) (next_public_pane_number w + 1) = next_public_pane_number w + 1"
    using assms(4) less_plus_1 [of "next_public_pane_number w"] by simp
  let ?env = "launch_env_for_new_pane (tb_number (wk_tabs w ! k)) (next_public_pane_number w) w"
  show ?thesis
  proof (rule split_at_tab_cases [OF w kl assms(3,4), of "spawn ?env" f d r])
    fix e
    assume "tab_split_pane_with_runtime (spawn ?env) i f d r (wk_tabs w ! k, next_id)
        = Some (Inl (SpawnError e), wk_tabs w ! k, next_id + 1)"
    then show ?thesis using k by (intro failed [of e]) (simp add: workspace_split_pane_with_runtime_def Let_def)
  next
    fix terminal t'
    let ?w = "w\<lparr>wk_tabs := (wk_tabs w)[k := t']\<rparr>"
    assume a: "spawn ?env next_id = Inr terminal"
      "tab_split_pane_with_runtime (spawn ?env) i f d r (wk_tabs w ! k, next_id)
        = Some (Inr \<lparr>np_pane_id = next_id, np_terminal = terminal\<rparr>, t', next_id + 1)"
      "workspace_inv (register_new_pane_with_number next_id (next_public_pane_number w) ?w)"
      "set (entries ((wk_tabs w)[k := t'])) = insert (next_id, terminal) (panes_of w)"
    show ?thesis
      by (rule split [OF _ k a(3)])
        (use a k mx in \<open>simp_all add: workspace_split_pane_with_runtime_def Let_def register_new_pane_with_number_def\<close>)
  qed (rule fresh)
qed

lemma workspace_split_unknown:
  assumes "workspace_inv w" "i \<notin> live w"
  shows "workspace_split_pane_with_runtime spawn i d r f (w, next_id) = Some (None, w, next_id)"
proof -
  have "find_tab_index_for_pane i w = None"
    using assms find_tab_index_None by (auto simp: workspace_inv_def workspace_ok_def)
  then show ?thesis by (simp add: workspace_split_pane_with_runtime_def)
qed

lemma workspace_split_focused_cases:
  assumes w: "workspace_inv w" and "next_id \<notin> live w" "next_public_pane_number w \<noteq> -1"
    and fresh: "\<And>e terminal. spawn e next_id = Inr terminal \<Longrightarrow> terminal \<notin> terminals w"
  obtains
    (failed) e where "workspace_split_focused_command spawn d (w, next_id)
        = Some (Inl (SpawnError e), w, next_id + 1)"
  | (split) terminal w' where "workspace_split_focused_command spawn d (w, next_id)
        = Some (Inr \<lparr>np_pane_id = next_id, np_terminal = terminal\<rparr>, w', next_id + 1)"
      "workspace_inv w'" "panes_of w' = insert (next_id, terminal) (panes_of w)"
      "public_pane_numbers w' = (public_pane_numbers w)(next_id \<mapsto> next_public_pane_number w)"
      "next_public_pane_number w' = next_public_pane_number w + 1"
proof -
  have ok: "workspace_ok {} w" using w by (simp add: workspace_inv_def)
  let ?k = "wk_active_tab w"
  have act: "active_tab w = Some (wk_tabs w ! ?k)" "?k < length (wk_tabs w)" using workspace_inv_active [OF w] by auto
  have foc: "tl_focus (tb_layout (wk_tabs w ! ?k)) \<in> dom (tb_panes (wk_tabs w ! ?k))"
    using workspace_ok_tab [OF ok act(2)] unfolding tab_inv_def layout_inv_def by blast
  have mx: "max (next_public_pane_number w) (next_public_pane_number w + 1) = next_public_pane_number w + 1"
    using assms(3) less_plus_1 [of "next_public_pane_number w"] by simp
  let ?env = "launch_env_for_new_pane (tb_number (wk_tabs w ! ?k)) (next_public_pane_number w) w"
  show ?thesis
  proof (rule split_at_tab_cases [OF w act(2) foc assms(2,3), of "spawn ?env" True d None])
    fix e
    assume "tab_split_pane_with_runtime (spawn ?env) (tl_focus (tb_layout (wk_tabs w ! ?k))) True d None (wk_tabs w ! ?k, next_id)
        = Some (Inl (SpawnError e), wk_tabs w ! ?k, next_id + 1)"
    then show ?thesis using act
      by (intro failed [of e]) (simp add: workspace_split_focused_command_def tab_split_focused_command_def Let_def)
  next
    fix terminal t'
    let ?w = "w\<lparr>wk_tabs := (wk_tabs w)[?k := t']\<rparr>"
    assume a: "tab_split_pane_with_runtime (spawn ?env) (tl_focus (tb_layout (wk_tabs w ! ?k))) True d None (wk_tabs w ! ?k, next_id)
        = Some (Inr \<lparr>np_pane_id = next_id, np_terminal = terminal\<rparr>, t', next_id + 1)"
      "workspace_inv (register_new_pane_with_number next_id (next_public_pane_number w) ?w)"
      "set (entries ((wk_tabs w)[?k := t'])) = insert (next_id, terminal) (panes_of w)"
    show ?thesis
      by (rule split [OF _ a(2)])
        (use a act mx in \<open>simp_all add: workspace_split_focused_command_def tab_split_focused_command_def Let_def
          register_new_pane_with_number_def\<close>)
  qed (rule fresh)
qed

text \<open>Removing a pane: only the last pane of the workspace is left where it is.\<close>

lemma single_pane_tab: "tab_inv t \<Longrightarrow> i \<in> dom (tb_panes t) \<Longrightarrow> pane_count (tb_layout t) \<le> 1 \<longleftrightarrow> pane_ids (tb_layout t) = [i]"
proof -
  assume "tab_inv t" "i \<in> dom (tb_panes t)"
  then have "i \<in> set (pane_ids (tb_layout t))" unfolding tab_inv_def by blast
  then show ?thesis
    by (cases "pane_ids (tb_layout t)") (auto simp: pane_count_def count_panes_length pane_ids_def)
qed

lemma panes_in_other_tabs:
  assumes "workspace_ok {} w" "k < length (wk_tabs w)" "1 < length (wk_tabs w)"
  shows "live w \<noteq> dom (tb_panes (wk_tabs w ! k))"
proof -
  have "length (remove_nth k (wk_tabs w)) \<noteq> 0" using length_remove_nth [OF assms(2)] assms(3) by simp
  then have "entries (remove_nth k (wk_tabs w)) \<noteq> []" by (cases "remove_nth k (wk_tabs w)") auto
  then obtain x where "x \<in> set (entries (remove_nth k (wk_tabs w)))" by (cases "entries (remove_nth k (wk_tabs w))") auto
  then show ?thesis using entries_remove_nth [OF assms(1,2)] by (auto simp: live_panes)
qed

lemma drop_pane_cases:
  assumes w: "workspace_inv w" and detach: "\<And>t. detach i t = detach_pane i t"
  obtains
    (unknown) "i \<notin> live w" "drop_pane detach i w = Some (False, w)"
  | (last) "live w = {i}" "drop_pane detach i w = Some (True, w)"
  | (dropped) w' where "i \<in> live w" "live w \<noteq> {i}" "drop_pane detach i w = Some (False, w')" "workspace_inv w'"
      "panes_of w' = {x \<in> panes_of w. fst x \<noteq> i}"
      "public_pane_numbers w' = (public_pane_numbers w)(i := None)"
      "next_public_pane_number w' = next_public_pane_number w" "wk_id w' = wk_id w"
proof -
  have ok: "workspace_ok {} w" using w by (simp add: workspace_inv_def)
  show ?thesis
  proof (cases "find_tab_index_for_pane i w")
    case None
    then have "i \<notin> live w" using ok find_tab_index_None by (auto simp: workspace_ok_def)
    then show ?thesis using None by (intro unknown) (simp_all add: drop_pane_def)
  next
    case (Some k)
    let ?t = "wk_tabs w ! k"
    have kl: "k < length (wk_tabs w)" and it: "i \<in> dom (tb_panes ?t)" using find_tab_index_Some [OF Some] by auto
    have inv: "tab_inv ?t" by (rule workspace_ok_tab [OF ok kl])
    have live: "i \<in> live w" by (rule in_tab_live [OF ok kl it])
    show ?thesis
    proof (cases "pane_count (tb_layout ?t) \<le> 1")
      case True
      then have ids: "pane_ids (tb_layout ?t) = [i]" using single_pane_tab [OF inv it] by simp
      then have dom: "dom (tb_panes ?t) = {i}" using inv by (simp add: tab_inv_def)
      show ?thesis
      proof (cases "length (wk_tabs w) \<le> 1")
        case one: True
        then have "wk_tabs w = [?t]" using kl by (cases "wk_tabs w") auto
        then have "live w = fst ` set (tab_entries ?t)" unfolding live_def by (metis append_Nil2 entries_simps(1,2))
        then have "live w = {i}" by (simp add: tab_entries_fst [OF inv] dom)
        then show ?thesis using True one Some by (intro last) (simp_all add: drop_pane_def)
      next
        case False
        let ?n = "length (wk_tabs w) - 1" and ?a = "wk_active_tab w"
        define a' where "a' = (if ?a \<ge> ?n then ?n - 1 else if k \<le> ?a \<and> ?a > 0 then ?a - 1 else ?a)"
        let ?w' = "w\<lparr>wk_tabs := remove_nth k (wk_tabs w), public_pane_numbers := (public_pane_numbers w)(i := None),
            wk_active_tab := a'\<rparr>"
        have len: "length (remove_nth k (wk_tabs w)) = ?n" using kl by (rule length_remove_nth)
        have ne: "remove_nth k (wk_tabs w) \<noteq> []" using len False by auto
        have a': "a' < ?n" unfolding a'_def
          by (rule adjusted_in_range) (use workspace_inv_active [OF w] False in auto)
        have restrict: "(public_pane_numbers w)(i := None) = public_pane_numbers w |` (- dom (tb_panes ?t))"
          unfolding dom by (auto simp: restrict_map_def)
        have "workspace_ok {} ?w'"
          by (rule workspace_remove_tab(2) [OF ok kl]) (use ne len a' restrict in simp_all)
        moreover have "panes_of ?w' = {x \<in> panes_of w. fst x \<noteq> i}"
          using entries_remove_nth [OF ok kl] dom by simp
        moreover have "live w \<noteq> {i}" using panes_in_other_tabs [OF ok kl] False dom by simp
        moreover have "drop_pane detach i w = Some (False, ?w')"
          using True False Some len by (simp add: drop_pane_def Let_def unregister_pane_def a'_def)
        ultimately show ?thesis using live ne by (intro dropped [of ?w']) (simp_all add: workspace_inv_def)
      qed
    next
      case False
      then have ids: "pane_ids (tb_layout ?t) \<noteq> [i]" using single_pane_tab [OF inv it] by simp
      obtain p where p: "tb_panes ?t i = Some p" using it by blast
      obtain t' where t': "detach_pane i ?t = Some (Some (i, attached_terminal_id p), t')" "tab_inv t'"
          "tab_entries t' = filter (\<lambda>e. fst e \<noteq> i) (tab_entries ?t)" "tb_number t' = tb_number ?t"
        using detach_ok [OF inv p ids] by blast
      let ?w' = "unregister_pane i (w\<lparr>wk_tabs := (wk_tabs w)[k := t']\<rparr>)"
      note s = workspace_shrink [OF ok kl t'(2,4,3) it]
      have "drop_pane detach i w = Some (False, ?w')" using False Some t'(1) detach by (simp add: drop_pane_def)
      moreover have "live w \<noteq> {i}"
      proof
        assume "live w = {i}"
        moreover have "tab_entries t' \<noteq> []" by simp
        then obtain x where "x \<in> set (tab_entries t')" by (cases "tab_entries t'") auto
        then have "x \<in> set (tab_entries ?t)" "fst x \<noteq> i" unfolding t'(3) by auto
        moreover from this have "fst x \<in> live w" using entries_nth [OF kl] by (auto simp: live_panes)
        ultimately show False by simp
      qed
      moreover have "panes_of ?w' = {x \<in> panes_of w. fst x \<noteq> i}" using s(3) by (simp add: unregister_pane_def)
      ultimately show ?thesis using live s(2) kl
        by (intro dropped [of ?w']) (auto simp: workspace_inv_def unregister_pane_def)
    qed
  qed
qed

text \<open>
  Taking a pane out to move it: it keeps its number, and its tab goes with it when it was alone there.
  The workspace may be left without a tab.
\<close>

lemma adjust_active_range:
  assumes "wk_tabs w = remove_nth k ts" "k < length ts" "wk_active_tab w < length ts"
  shows "if wk_tabs w = [] then wk_active_tab (adjust_active_tab_after_removal k w) = 0
    else wk_active_tab (adjust_active_tab_after_removal k w) < length (wk_tabs w)"
  using assms length_remove_nth [OF assms(2)] by (auto simp: adjust_active_tab_after_removal_def)

lemma adjust_active_fields [simp]:
  "wk_tabs (adjust_active_tab_after_removal k w) = wk_tabs w"
  "public_pane_numbers (adjust_active_tab_after_removal k w) = public_pane_numbers w"
  "next_public_pane_number (adjust_active_tab_after_removal k w) = next_public_pane_number w"
  "next_public_tab_number (adjust_active_tab_after_removal k w) = next_public_tab_number w"
  "wk_id (adjust_active_tab_after_removal k w) = wk_id w"
  by (simp_all add: adjust_active_tab_after_removal_def)

lemma take_pane_ok:
  assumes w: "workspace_inv w" and i: "i \<in> live w"
  obtains tk w' where "take_pane_for_move i w = Some (Some tk, w')" "workspace_ok {i} w'"
    "panes_of w' = {x \<in> panes_of w. fst x \<noteq> i}" "mp_pane_id (tk_moved tk) = i"
    "(i, attached_terminal_id (mp_pane_state (tk_moved tk))) \<in> panes_of w"
    "tk_workspace_empty tk \<longleftrightarrow> wk_tabs w' = []" "public_pane_numbers w' = public_pane_numbers w"
    "next_public_pane_number w' = next_public_pane_number w"
    "next_public_tab_number w' = next_public_tab_number w" "wk_id w' = wk_id w"
    "tk_workspace_empty tk \<longleftrightarrow> live w = {i}"
proof -
  have ok: "workspace_ok {} w" using w by (simp add: workspace_inv_def)
  then have "find_tab_index_for_pane i w \<noteq> None" using i find_tab_index_None by (auto simp: workspace_ok_def)
  then obtain k where k: "find_tab_index_for_pane i w = Some k" by blast
  let ?t = "wk_tabs w ! k"
  have kl: "k < length (wk_tabs w)" and it: "i \<in> dom (tb_panes ?t)" using find_tab_index_Some [OF k] by auto
  have inv: "tab_inv ?t" by (rule workspace_ok_tab [OF ok kl])
  obtain p where p: "tb_panes ?t i = Some p" using it by blast
  let ?m = "\<lparr>mp_pane_id = i, mp_pane_state = p\<rparr>"
  have entry: "(i, attached_terminal_id p) \<in> panes_of w"
    using tab_entry [OF inv, of i] p entries_nth [OF kl] by auto
  show ?thesis
  proof (cases "pane_count (tb_layout ?t) \<le> 1")
    case True
    then have ids: "pane_ids (tb_layout ?t) = [i]" using single_pane_tab [OF inv it] by simp
    then have dom: "dom (tb_panes ?t) = {i}" using inv by (simp add: tab_inv_def)
    obtain t' where t': "tab_take_pane_for_move i ?t = Some (Some ?m, t')" using take_last [of ?t i p, OF p ids] by blast
    let ?w1 = "w\<lparr>wk_tabs := remove_nth k (wk_tabs w)\<rparr>"
    let ?w' = "adjust_active_tab_after_removal k ?w1"
    have range: "if wk_tabs ?w1 = [] then wk_active_tab ?w' = 0 else wk_active_tab ?w' < length (wk_tabs ?w1)"
      by (rule adjust_active_range [OF _ kl]) (use workspace_inv_active [OF w] in simp_all)
    note rm = workspace_remove_tab [OF ok kl, of ?w']
    have "workspace_ok (dom (tb_panes ?t)) ?w'"
    proof (rule rm(1))
      show "if wk_tabs ?w' = [] then wk_active_tab ?w' = 0 else wk_active_tab ?w' < length (wk_tabs ?w')"
        unfolding adjust_active_fields by (rule range)
    qed simp_all
    then have "workspace_ok {i} ?w'" by (simp only: dom)
    moreover have "panes_of ?w' = {x \<in> panes_of w. fst x \<noteq> i}" using entries_remove_nth [OF ok kl] dom by simp
    moreover have "take_pane_for_move i w = Some (Some \<lparr>tk_moved = ?m, tk_removed_tab_idx = Some k,
        tk_workspace_empty = (wk_tabs ?w' = [])\<rparr>, ?w')"
      using k True t' by (simp add: take_pane_for_move_def Let_def)
    moreover have "wk_tabs ?w' = [] \<longleftrightarrow> live w = {i}"
    proof (cases "1 < length (wk_tabs w)")
      case True
      then have "live w \<noteq> {i}" using panes_in_other_tabs [OF ok kl] dom by simp
      moreover have "length (remove_nth k (wk_tabs w)) \<noteq> 0" using length_remove_nth [OF kl] True by simp
      ultimately show ?thesis by auto
    next
      case False
      then have one: "wk_tabs w = [?t]" using kl by (cases "wk_tabs w") auto
      then have "live w = fst ` set (tab_entries ?t)" unfolding live_def by (metis append_Nil2 entries_simps(1,2))
      moreover have "length (remove_nth k (wk_tabs w)) = 0" using length_remove_nth [OF kl] one
        by (metis length_Cons list.size(3) diff_Suc_1)
      ultimately show ?thesis by (simp add: tab_entries_fst [OF inv] dom)
    qed
    ultimately show ?thesis using entry
      by (intro that [of "\<lparr>tk_moved = ?m, tk_removed_tab_idx = Some k, tk_workspace_empty = (wk_tabs ?w' = [])\<rparr>" ?w']) simp_all
  next
    case False
    then have ids: "pane_ids (tb_layout ?t) \<noteq> [i]" using single_pane_tab [OF inv it] by simp
    obtain t' where t': "tab_take_pane_for_move i ?t = Some (Some ?m, t')" "tab_inv t'"
        "tab_entries t' = filter (\<lambda>e. fst e \<noteq> i) (tab_entries ?t)" "tb_number t' = tb_number ?t"
      using take_ok [OF inv p ids] by blast
    let ?w' = "w\<lparr>wk_tabs := (wk_tabs w)[k := t']\<rparr>"
    note s = workspace_shrink [OF ok kl t'(2,4,3) it]
    have "take_pane_for_move i w
        = Some (Some \<lparr>tk_moved = ?m, tk_removed_tab_idx = None, tk_workspace_empty = False\<rparr>, ?w')"
      using k False t' by (simp add: take_pane_for_move_def)
    moreover have "live w \<noteq> {i}"
    proof
      assume "live w = {i}"
      moreover have "tab_entries t' \<noteq> []" by simp
      then obtain x where "x \<in> set (tab_entries t')" by (cases "tab_entries t'") auto
      then have "x \<in> set (tab_entries ?t)" "fst x \<noteq> i" unfolding t'(3) by auto
      moreover from this have "fst x \<in> live w" using entries_nth [OF kl] by (auto simp: live_panes)
      ultimately show False by simp
    qed
    ultimately show ?thesis using s(1,3) kl entry
      by (intro that [of "\<lparr>tk_moved = ?m, tk_removed_tab_idx = None, tk_workspace_empty = False\<rparr>" ?w']) auto
  qed
qed

lemma unregister_moved_ok:
  assumes "workspace_ok {i} w" "wk_tabs w \<noteq> []"
  shows "workspace_inv (unregister_moved_pane i w)"
proof -
  have num: "numbers_ok (next_public_pane_number w) (public_pane_numbers w) (live w \<union> {i})" and i: "i \<notin> live w"
    using assms(1) by (auto simp: workspace_ok_def)
  have "live w \<union> {i} - {i} = live w" using i by auto
  with numbers_ok_remove [OF num, of i] assms show ?thesis
    by (auto simp: workspace_inv_def workspace_ok_def unregister_moved_pane_def unregister_pane_def live_def)
qed

text \<open>
  Putting a moved pane into a tab, or into a tab of its own: it gets a number if it has none.
\<close>

lemma register_if_new_fields [simp]:
  "wk_tabs (register_if_new i w) = wk_tabs w" "next_public_tab_number (register_if_new i w) = next_public_tab_number w"
  "wk_active_tab (register_if_new i w) = wk_active_tab w" "wk_id (register_if_new i w) = wk_id w"
  by (simp_all add: register_if_new_def register_new_pane_with_number_def)

lemma register_if_new_numbers:
  assumes "numbers_ok (next_public_pane_number w) (public_pane_numbers w) (S \<union> R)" "i \<notin> S" "R \<subseteq> {i}"
    "next_public_pane_number w \<noteq> -1"
  shows "numbers_ok (next_public_pane_number (register_if_new i w)) (public_pane_numbers (register_if_new i w)) (insert i S)"
proof (cases "i \<in> R")
  case True
  then have "S \<union> R = insert i S" using assms(3) by auto
  moreover have "public_pane_numbers w i \<noteq> None"
    using True assms(1) by (auto simp: numbers_ok_def)
  ultimately show ?thesis using assms(1) by (auto simp: register_if_new_def)
next
  case False
  then have R: "S \<union> R = S" using assms(3) by auto
  then have "public_pane_numbers w i = None" using assms(1,2) by (auto simp: numbers_ok_def)
  then have r: "register_if_new i w = register_new_pane_with_number i (next_public_pane_number w) w"
    by (simp add: register_if_new_def)
  show ?thesis
    using numbers_ok_register [OF assms(1) [unfolded R] assms(2,4)]
    unfolding r register_new_pane_with_number_def by simp
qed

lemma insert_moved_ok:
  assumes ok: "workspace_ok R w" "R \<subseteq> {mp_pane_id m}" and k: "k < length (wk_tabs w)"
    and "target \<in> dom (tb_panes (wk_tabs w ! k))" "mp_pane_id m \<notin> live w"
    and "attached_terminal_id (mp_pane_state m) \<notin> terminals w" "next_public_pane_number w \<noteq> -1"
  obtains w' where "insert_moved_pane_into_tab k target m d r f w = (Inr (mp_pane_id m), w')" "workspace_inv w'"
    "panes_of w' = insert (mp_pane_id m, attached_terminal_id (mp_pane_state m)) (panes_of w)"
    "public_pane_numbers w' = public_pane_numbers (register_if_new (mp_pane_id m) w)"
    "next_public_pane_number w' = next_public_pane_number (register_if_new (mp_pane_id m) w)"
    "length (wk_tabs w') = length (wk_tabs w)" "mp_pane_id m \<in> dom (tb_panes (wk_tabs w' ! k))" "wk_id w' = wk_id w"
proof -
  let ?i = "mp_pane_id m" and ?j = "attached_terminal_id (mp_pane_state m)"
  have inv: "tab_inv (wk_tabs w ! k)" by (rule workspace_ok_tab [OF ok(1) k])
  have n: "?i \<notin> dom (tb_panes (wk_tabs w ! k))" using in_tab_live [OF ok(1) k] assms(5) by blast
  obtain t' where t': "insert_existing_pane target m d r f (wk_tabs w ! k) = (Inr ?i, t')" "tab_inv t'"
      "mset (tab_entries t') = add_mset (?i, ?j) (mset (tab_entries (wk_tabs w ! k)))"
      "tb_number t' = tb_number (wk_tabs w ! k)"
    using tab_insert_ok [OF inv n assms(4), of d r f] by blast
  let ?w1 = "w\<lparr>wk_tabs := (wk_tabs w)[k := t']\<rparr>"
  have tok: "tabs_ok (next_public_tab_number w) (wk_tabs w)"
    and num: "numbers_ok (next_public_pane_number w) (public_pane_numbers w) (live w \<union> R)"
    using ok(1) by (auto simp: workspace_ok_def)
  note g = tabs_ok_grow [OF tok k t'(2,4,3) assms(5,6) [unfolded live_def terminals_def]]
  have c: "insert_moved_pane_into_tab k target m d r f w = (Inr ?i, register_if_new ?i ?w1)"
    using k t'(1) by (simp add: insert_moved_pane_into_tab_def)
  have same: "public_pane_numbers (register_if_new ?i ?w1) = public_pane_numbers (register_if_new ?i w)"
    "next_public_pane_number (register_if_new ?i ?w1) = next_public_pane_number (register_if_new ?i w)"
    "wk_id (register_if_new ?i ?w1) = wk_id w"
    by (simp_all add: register_if_new_def register_new_pane_with_number_def)
  have ne: "wk_tabs w \<noteq> []" using k by auto
  have live': "live (register_if_new ?i ?w1) = insert ?i (live w)" using g(2) by (simp add: live_panes)
  have "workspace_inv (register_if_new ?i ?w1)"
    using ok(1) ne g(1) register_if_new_numbers [OF num assms(5) ok(2) assms(7)] live'
    by (simp add: workspace_inv_def workspace_ok_def same)
  moreover have "?i \<in> dom (tb_panes t')"
    using tab_entries_fst [OF t'(2)] arg_cong [OF t'(3), of set_mset] by force
  ultimately show ?thesis using c g(2) same k by (intro that [OF c]) simp_all
qed

lemma create_from_existing_ok:
  assumes ok: "workspace_ok R w" "R \<subseteq> {mp_pane_id m}" and "mp_pane_id m \<notin> live w"
    and "attached_terminal_id (mp_pane_state m) \<notin> terminals w"
    and "next_public_pane_number w \<noteq> -1" "next_public_tab_number w \<noteq> -1"
  obtains w' where "create_tab_from_existing_pane m label w = (length (wk_tabs w), w')" "workspace_inv w'"
    "panes_of w' = insert (mp_pane_id m, attached_terminal_id (mp_pane_state m)) (panes_of w)"
    "public_pane_numbers w' = public_pane_numbers (register_if_new (mp_pane_id m) w)"
    "next_public_pane_number w' = next_public_pane_number (register_if_new (mp_pane_id m) w)"
    "wk_id w' = wk_id w" "length (wk_tabs w') = Suc (length (wk_tabs w))"
    "mp_pane_id m \<in> dom (tb_panes (wk_tabs w' ! length (wk_tabs w)))"
    "tb_number (wk_tabs w' ! length (wk_tabs w)) = next_public_tab_number w"
proof -
  let ?i = "mp_pane_id m" and ?n = "next_public_tab_number w"
  let ?w = "w\<lparr>next_public_tab_number := ?n + 1\<rparr>" and ?t = "tab_from_existing_pane ?n label m"
  let ?w' = "(register_if_new ?i ?w)\<lparr>wk_tabs := wk_tabs w @ [?t]\<rparr>"
  have num: "numbers_ok (next_public_pane_number w) (public_pane_numbers w) (live w \<union> R)"
    using ok(1) by (auto simp: workspace_ok_def)
  have same: "public_pane_numbers (register_if_new ?i ?w) = public_pane_numbers (register_if_new ?i w)"
    "next_public_pane_number (register_if_new ?i ?w) = next_public_pane_number (register_if_new ?i w)"
    by (simp_all add: register_if_new_def register_new_pane_with_number_def)
  have c: "create_tab_from_existing_pane m label w = (length (wk_tabs w), ?w')"
    by (simp add: create_tab_from_existing_pane_def Let_def)
  have "workspace_ok {} ?w'"
    by (rule workspace_add_tab(1) [OF ok(1) tab_from_existing_ok(1) tab_from_existing_ok(3) tab_from_existing_ok(2) assms(3,4,6)])
      (use register_if_new_numbers [OF num assms(3) ok(2) assms(5)] same in simp_all)
  then show ?thesis using c same
    by (intro that [OF c]) (simp_all add: workspace_inv_def, simp add: tab_from_existing_pane_def)
qed

lemma insert_moved_refused:
  assumes "workspace_ok R w" "k \<ge> length (wk_tabs w) \<or> target \<notin> dom (tb_panes (wk_tabs w ! k))"
  shows "insert_moved_pane_into_tab k target m d r f w = (Inl m, w)"
proof (cases "k < length (wk_tabs w)")
  case True
  then have "target \<notin> set (pane_ids (tb_layout (wk_tabs w ! k)))"
    using assms workspace_ok_tab [OF assms(1) True] by (auto simp: tab_inv_def)
  then have "insert_existing_pane target m d r f (wk_tabs w ! k) = (Inl m, wk_tabs w ! k)"
    by (simp add: insert_existing_pane_def insert_pane_near_def Let_def)
  then show ?thesis using True by (simp add: insert_moved_pane_into_tab_def)
qed (simp add: insert_moved_pane_into_tab_def)

end
