(* ===== verification/WorkspaceRuns.thy ===== *)
theory WorkspaceRuns
  imports Workspace
begin

text \<open>
  Runs of a workspace: its operations as the events of a machine, the invariant at every moment,
  public numbers that are never used again, and what single operations do to the panes and to the
  active tab.
\<close>

section \<open>The machine\<close>

text \<open>
  The state is the workspace with the global pane counter, or \<open>None\<close> after a panic. Moving a pane out
  is taking it and forgetting its number, as the caller does for a move to another workspace.
\<close>

datatype 'e workspace_op =
    WCreateTab "'e + terminal_id"
  | WSplit pane_id direction "f32 option" bool "'e + terminal_id"
  | WSplitFocused direction "'e + terminal_id"
  | WCloseTab nat
  | WMoveTab nat nat
  | WSwitchTab nat
  | WRemovePane pane_id
  | WClosePane pane_id
  | WMoveOut pane_id
  | WMoveIn nat pane_id moved_pane direction f32 bool
  | WMoveInTab moved_pane "str option"

fun workspace_step :: "(app_workspace \<times> u32) option \<Rightarrow> 'e workspace_op \<Rightarrow> (app_workspace \<times> u32) option" where
  "workspace_step None _ = None"
| "workspace_step (Some s) (WCreateTab r) = map_option snd (create_tab_with_runtime (\<lambda>_ _. r) s)"
| "workspace_step (Some s) (WSplit i d ratio f r) =
     map_option snd (workspace_split_pane_with_runtime (\<lambda>_ _. r) i d ratio f s)"
| "workspace_step (Some s) (WSplitFocused d r) = map_option snd (workspace_split_focused_command (\<lambda>_ _. r) d s)"
| "workspace_step (Some (w, n)) (WCloseTab i) = Some (snd (close_tab i w), n)"
| "workspace_step (Some (w, n)) (WMoveTab i j) = Some (snd (move_tab i j w), n)"
| "workspace_step (Some (w, n)) (WSwitchTab i) = Some (switch_tab i w, n)"
| "workspace_step (Some (w, n)) (WRemovePane i) = map_option (\<lambda>(_, w'). (w', n)) (workspace_remove_pane i w)"
| "workspace_step (Some (w, n)) (WClosePane i) = map_option (\<lambda>(_, w'). (w', n)) (workspace_close_pane i w)"
| "workspace_step (Some (w, n)) (WMoveOut i) =
     map_option (\<lambda>(r, w'). (if r = None then w' else unregister_moved_pane i w', n)) (take_pane_for_move i w)"
| "workspace_step (Some (w, n)) (WMoveIn k target m d ratio f) =
     Some (snd (insert_moved_pane_into_tab k target m d ratio f w), n)"
| "workspace_step (Some (w, n)) (WMoveInTab m label) = Some (snd (create_tab_from_existing_pane m label w), n)"

text \<open>
  What the callers and the environment respect: the three counters are not exhausted, a terminal gets
  an identity no other has, a moved pane is not in the workspace and neither is its terminal, and a
  workspace emptied by a move is dropped.
\<close>

definition fresh_terminal :: "app_workspace \<Rightarrow> 'e + terminal_id \<Rightarrow> bool" where
  "fresh_terminal w r \<longleftrightarrow> (case r of Inl _ \<Rightarrow> True | Inr terminal \<Rightarrow> terminal \<notin> terminals w)"

definition fresh_moved :: "app_workspace \<times> u32 \<Rightarrow> moved_pane \<Rightarrow> bool" where
  "fresh_moved s m \<longleftrightarrow> mp_pane_id m < snd s \<and> mp_pane_id m \<notin> live (fst s)
     \<and> attached_terminal_id (mp_pane_state m) \<notin> terminals (fst s)"

fun workspace_op_ok :: "(app_workspace \<times> u32) option \<Rightarrow> 'e workspace_op \<Rightarrow> bool" where
  "workspace_op_ok (Some (w, n)) (WCreateTab r) \<longleftrightarrow> n \<noteq> -1 \<and> next_public_tab_number w \<noteq> -1
     \<and> next_public_pane_number w \<noteq> -1 \<and> fresh_terminal w r"
| "workspace_op_ok (Some (w, n)) (WSplit _ _ _ _ r) \<longleftrightarrow> n \<noteq> -1 \<and> next_public_pane_number w \<noteq> -1 \<and> fresh_terminal w r"
| "workspace_op_ok (Some (w, n)) (WSplitFocused _ r) \<longleftrightarrow> n \<noteq> -1 \<and> next_public_pane_number w \<noteq> -1 \<and> fresh_terminal w r"
| "workspace_op_ok (Some (w, n)) (WMoveOut i) \<longleftrightarrow> live w \<noteq> {i}"
| "workspace_op_ok (Some (w, n)) (WMoveIn _ _ m _ _ _) \<longleftrightarrow> fresh_moved (w, n) m \<and> next_public_pane_number w \<noteq> -1"
| "workspace_op_ok (Some (w, n)) (WMoveInTab m _) \<longleftrightarrow> fresh_moved (w, n) m
     \<and> next_public_pane_number w \<noteq> -1 \<and> next_public_tab_number w \<noteq> -1"
| "workspace_op_ok _ _ \<longleftrightarrow> True"

definition workspace_state_ok :: "(app_workspace \<times> u32) option \<Rightarrow> bool" where
  "workspace_state_ok s \<longleftrightarrow>
     (case s of None \<Rightarrow> False | Some (w, n) \<Rightarrow> workspace_inv w \<and> (\<forall>i \<in> live w. i < n))"

text \<open>No number below the next one is given to a pane that did not have it.\<close>

definition numbers_grow :: "(app_workspace \<times> u32) option \<Rightarrow> (app_workspace \<times> u32) option \<Rightarrow> bool" where
  "numbers_grow s s' \<longleftrightarrow>
     (case (s, s') of
        (Some (w, _), Some (w', _)) \<Rightarrow> next_public_pane_number w \<le> next_public_pane_number w'
          \<and> (\<forall>i k. public_pane_numbers w' i = Some k \<longrightarrow>
               public_pane_numbers w i = Some k \<or> next_public_pane_number w \<le> k)
      | (None, Some _) \<Rightarrow> False
      | _ \<Rightarrow> True)"

lemma numbers_grow_refl: "numbers_grow s s"
  by (auto simp: numbers_grow_def split: option.split)

lemma numbers_grow_trans: "numbers_grow s t \<Longrightarrow> numbers_grow t u \<Longrightarrow> numbers_grow s u"
  unfolding numbers_grow_def by (cases s; cases t; cases u; fastforce)

definition good_step :: "app_workspace \<times> u32 \<Rightarrow> (app_workspace \<times> u32) option \<Rightarrow> bool" where
  "good_step s s' \<longleftrightarrow> workspace_state_ok s' \<and> numbers_grow (Some s) s'"

lemma good_stepI:
  assumes "s' = Some (w', n')" "workspace_inv w'" "fst ` panes_of w' \<subseteq> {i. i < n'}"
    "next_public_pane_number w \<le> next_public_pane_number w'"
    "\<And>i k. public_pane_numbers w' i = Some k \<Longrightarrow> public_pane_numbers w i = Some k \<or> next_public_pane_number w \<le> k"
  shows "good_step (w, n) s'"
  using assms by (auto simp: good_step_def workspace_state_ok_def numbers_grow_def live_panes)

lemma register_if_new_grow:
  assumes "next_public_pane_number w \<noteq> -1"
  shows "next_public_pane_number w \<le> next_public_pane_number (register_if_new i w)"
    "public_pane_numbers (register_if_new i w) j = Some k \<Longrightarrow>
      public_pane_numbers w j = Some k \<or> next_public_pane_number w \<le> k"
  by (auto simp: register_if_new_def register_new_pane_with_number_def split: if_splits)

lemma panes_subset:
  assumes "\<forall>i \<in> live w. i < n" "panes_of w' \<subseteq> panes_of w"
  shows "fst ` panes_of w' \<subseteq> {i. i < n}"
  using assms by (auto simp: live_panes)

lemma panes_insert:
  assumes "\<forall>i \<in> live w. i < n" "panes_of w' = insert (i, t) (panes_of w)" "i < m" "n \<le> m"
  shows "fst ` panes_of w' \<subseteq> {i. i < (m :: u32)}"
  using assms order.strict_trans2 by (auto simp: live_panes)

lemma workspace_step_good:
  assumes w: "workspace_inv w" and below: "\<forall>i \<in> live w. i < n" and ok: "workspace_op_ok (Some (w, n)) e"
  shows "good_step (w, n) (workspace_step (Some (w, n)) e)"
proof -
  have self: "good_step (w, n) (Some (w, n'))" if "n \<le> n'" for n'
    by (rule good_stepI [OF refl w]) (use below that order.strict_trans2 in \<open>auto simp: live_panes\<close>)
  have n: "n \<notin> live w" using below by auto
  have up: "n < n + 1" "n \<le> n + 1" if "n \<noteq> -1" using that less_plus_1 [of n n] by simp_all
  have upp: "next_public_pane_number w \<le> next_public_pane_number w + 1" if "next_public_pane_number w \<noteq> -1"
    using less_plus_1 [OF that order.refl] by (rule order.strict_implies_order)
  have drop: "good_step (w, n) (map_option (\<lambda>(_, w'). (w', n)) (drop_pane detach i w))"
    if "\<And>t. detach i t = detach_pane i t" for detach i
  proof (rule drop_pane_cases [OF w, of detach i, OF that])
    fix w'
    assume "drop_pane detach i w = Some (False, w')" "workspace_inv w'" "panes_of w' = {x \<in> panes_of w. fst x \<noteq> i}"
      "public_pane_numbers w' = (public_pane_numbers w)(i := None)"
      "next_public_pane_number w' = next_public_pane_number w"
    then show ?thesis using panes_subset [OF below, of w'] by (intro good_stepI [of _ w' n]) (auto split: if_splits)
  qed (use self in simp_all)
  show ?thesis
  proof (cases e)
    case (WCreateTab r)
    then have c: "n \<noteq> -1" "next_public_tab_number w \<noteq> -1" "next_public_pane_number w \<noteq> -1"
      and fresh: "r = Inr t \<Longrightarrow> t \<notin> terminals w" for t
      using ok by (auto simp: fresh_terminal_def)
    show ?thesis
    proof (rule create_tab_cases [OF w n c(2,3), of "\<lambda>_ _. r"])
      fix e assume "create_tab_with_runtime (\<lambda>_ _. r) (w, n)
          = Some (Inl e, w\<lparr>next_public_tab_number := next_public_tab_number w + 1\<rparr>, n + 1)"
        "workspace_inv (w\<lparr>next_public_tab_number := next_public_tab_number w + 1\<rparr>)"
      then show ?thesis using WCreateTab below up [OF c(1)] order.strict_trans2
        by (intro good_stepI [of _ "w\<lparr>next_public_tab_number := next_public_tab_number w + 1\<rparr>" "n + 1"])
          (auto simp: live_panes)
    next
      fix terminal w'
      assume "create_tab_with_runtime (\<lambda>_ _. r) (w, n) = Some (Inr (length (wk_tabs w), terminal), w', n + 1)"
        "workspace_inv w'" "panes_of w' = insert (n, terminal) (panes_of w)"
        "public_pane_numbers w' = (public_pane_numbers w)(n \<mapsto> next_public_pane_number w)"
        "next_public_pane_number w' = next_public_pane_number w + 1"
      then show ?thesis using WCreateTab upp [OF c(3)] panes_insert [OF below _ up [OF c(1)]]
        by (intro good_stepI [of _ w' "n + 1"]) (auto split: if_splits)
    qed (rule fresh)
  next
    case (WSplit i d ratio f r)
    then have c: "n \<noteq> -1" "next_public_pane_number w \<noteq> -1" and fresh: "r = Inr t \<Longrightarrow> t \<notin> terminals w" for t
      using ok by (auto simp: fresh_terminal_def)
    show ?thesis
    proof (cases "i \<in> live w")
      case False
      then show ?thesis using WSplit self by (simp add: workspace_split_unknown [OF w])
    next
      case True
      show ?thesis
      proof (rule workspace_split_cases [OF w True n c(2), of "\<lambda>_ _. r" d ratio f])
        fix e assume "workspace_split_pane_with_runtime (\<lambda>_ _. r) i d ratio f (w, n) = Some (Some (Inl (SpawnError e)), w, n + 1)"
        then show ?thesis using WSplit self up [OF c(1)] by simp
      next
        fix k terminal w'
        assume "workspace_split_pane_with_runtime (\<lambda>_ _. r) i d ratio f (w, n)
            = Some (Some (Inr (k, \<lparr>np_pane_id = n, np_terminal = terminal\<rparr>)), w', n + 1)"
          "workspace_inv w'" "panes_of w' = insert (n, terminal) (panes_of w)"
          "public_pane_numbers w' = (public_pane_numbers w)(n \<mapsto> next_public_pane_number w)"
          "next_public_pane_number w' = next_public_pane_number w + 1"
        then show ?thesis using WSplit upp [OF c(2)] panes_insert [OF below _ up [OF c(1)]]
          by (intro good_stepI [of _ w' "n + 1"]) (auto split: if_splits)
      qed (rule fresh)
    qed
  next
    case (WSplitFocused d r)
    then have c: "n \<noteq> -1" "next_public_pane_number w \<noteq> -1" and fresh: "r = Inr t \<Longrightarrow> t \<notin> terminals w" for t
      using ok by (auto simp: fresh_terminal_def)
    show ?thesis
    proof (rule workspace_split_focused_cases [OF w n c(2), of "\<lambda>_ _. r" d])
      fix e assume "workspace_split_focused_command (\<lambda>_ _. r) d (w, n) = Some (Inl (SpawnError e), w, n + 1)"
      then show ?thesis using WSplitFocused self up [OF c(1)] by simp
    next
      fix terminal w'
      assume "workspace_split_focused_command (\<lambda>_ _. r) d (w, n)
          = Some (Inr \<lparr>np_pane_id = n, np_terminal = terminal\<rparr>, w', n + 1)"
        "workspace_inv w'" "panes_of w' = insert (n, terminal) (panes_of w)"
        "public_pane_numbers w' = (public_pane_numbers w)(n \<mapsto> next_public_pane_number w)"
        "next_public_pane_number w' = next_public_pane_number w + 1"
      then show ?thesis using WSplitFocused upp [OF c(2)] panes_insert [OF below _ up [OF c(1)]]
        by (intro good_stepI [of _ w' "n + 1"]) (auto split: if_splits)
    qed (rule fresh)
  next
    case (WCloseTab i)
    show ?thesis
    proof (cases "1 < length (wk_tabs w) \<and> i < length (wk_tabs w)")
      case True
      then obtain w' where "close_tab i w = (True, w')" "workspace_inv w'" "panes_of w' \<subseteq> panes_of w"
          "public_pane_numbers w' = public_pane_numbers w |` (- dom (tb_panes (wk_tabs w ! i)))"
          "next_public_pane_number w' = next_public_pane_number w"
        using close_tab_ok [OF w, of i] by (metis (no_types, lifting) mem_Collect_eq subsetI)
      then show ?thesis using WCloseTab panes_subset [OF below]
        by (intro good_stepI [of _ w' n]) (auto simp: restrict_map_def split: if_splits)
    next
      case False
      from close_tab_refused [OF this] WCloseTab self show ?thesis by simp
    qed
  next
    case (WMoveTab i j)
    show ?thesis
    proof (rule move_tab_cases [OF w, of i j])
      fix w' k
      assume "move_tab i j w = (True, w')" "workspace_inv w'" "panes_of w' = panes_of w"
        "public_pane_numbers w' = public_pane_numbers w" "next_public_pane_number w' = next_public_pane_number w"
      then show ?thesis using WMoveTab panes_subset [OF below, of w'] by (intro good_stepI [of _ w' n]) auto
    qed (use WMoveTab self in simp)
  next
    case (WSwitchTab i)
    have "public_pane_numbers (switch_tab i w) = public_pane_numbers w"
      "next_public_pane_number (switch_tab i w) = next_public_pane_number w"
      by (simp_all add: switch_tab_def)
    then show ?thesis using WSwitchTab switch_tab_ok [OF w, of i] panes_subset [OF below, of "switch_tab i w"]
      by (intro good_stepI [of _ "switch_tab i w" n]) auto
  next
    case (WMoveOut i)
    show ?thesis
    proof (cases "i \<in> live w")
      case False
      then have "find_tab_index_for_pane i w = None"
        using w find_tab_index_None by (auto simp: workspace_inv_def workspace_ok_def)
      then show ?thesis using WMoveOut self by (simp add: take_pane_for_move_def)
    next
      case True
      show ?thesis
      proof (rule take_pane_ok [OF w True])
        fix tk w'
        assume t: "take_pane_for_move i w = Some (Some tk, w')" "workspace_ok {i} w'"
          "panes_of w' = {x \<in> panes_of w. fst x \<noteq> i}" "tk_workspace_empty tk \<longleftrightarrow> wk_tabs w' = []"
          "public_pane_numbers w' = public_pane_numbers w" "next_public_pane_number w' = next_public_pane_number w"
          "tk_workspace_empty tk \<longleftrightarrow> live w = {i}"
        then have "wk_tabs w' \<noteq> []" using ok WMoveOut by simp
        from unregister_moved_ok [OF t(2) this] t WMoveOut
        show ?thesis using panes_subset [OF below, of w']
          by (intro good_stepI [of _ "unregister_moved_pane i w'" n])
            (auto simp: unregister_moved_pane_def unregister_pane_def split: if_splits)
      qed
    qed
  next
    case (WMoveIn k target m d ratio f)
    then have fr: "mp_pane_id m < n" "mp_pane_id m \<notin> live w" "attached_terminal_id (mp_pane_state m) \<notin> terminals w"
        "next_public_pane_number w \<noteq> -1"
      using ok by (auto simp: fresh_moved_def)
    have wok: "workspace_ok {} w" using w by (simp add: workspace_inv_def)
    show ?thesis
    proof (cases "k < length (wk_tabs w) \<and> target \<in> dom (tb_panes (wk_tabs w ! k))")
      case True
      then have k: "k < length (wk_tabs w)" "target \<in> dom (tb_panes (wk_tabs w ! k))" by auto
      show ?thesis
      proof (rule insert_moved_ok [OF wok empty_subsetI k fr(2,3,4), of d ratio f])
        fix w'
        assume "insert_moved_pane_into_tab k target m d ratio f w = (Inr (mp_pane_id m), w')" "workspace_inv w'"
          "panes_of w' = insert (mp_pane_id m, attached_terminal_id (mp_pane_state m)) (panes_of w)"
          "public_pane_numbers w' = public_pane_numbers (register_if_new (mp_pane_id m) w)"
          "next_public_pane_number w' = next_public_pane_number (register_if_new (mp_pane_id m) w)"
        then show ?thesis using WMoveIn panes_insert [OF below _ fr(1) order.refl] register_if_new_grow [OF fr(4)]
          by (intro good_stepI [of _ w' n]) auto
      qed
    next
      case False
      then have "insert_moved_pane_into_tab k target m d ratio f w = (Inl m, w)"
        by (intro insert_moved_refused [OF wok]) auto
      then show ?thesis using WMoveIn self by simp
    qed
  next
    case (WMoveInTab m label)
    then have fr: "mp_pane_id m < n" "mp_pane_id m \<notin> live w" "attached_terminal_id (mp_pane_state m) \<notin> terminals w"
        "next_public_pane_number w \<noteq> -1" "next_public_tab_number w \<noteq> -1"
      using ok by (auto simp: fresh_moved_def)
    have wok: "workspace_ok {} w" using w by (simp add: workspace_inv_def)
    show ?thesis
    proof (rule create_from_existing_ok [OF wok empty_subsetI fr(2-5), of label])
      fix w'
      assume "create_tab_from_existing_pane m label w = (length (wk_tabs w), w')" "workspace_inv w'"
        "panes_of w' = insert (mp_pane_id m, attached_terminal_id (mp_pane_state m)) (panes_of w)"
        "public_pane_numbers w' = public_pane_numbers (register_if_new (mp_pane_id m) w)"
        "next_public_pane_number w' = next_public_pane_number (register_if_new (mp_pane_id m) w)"
      then show ?thesis using WMoveInTab panes_insert [OF below _ fr(1) order.refl] register_if_new_grow [OF fr(4)]
        by (intro good_stepI [of _ w' n]) auto
    qed
  next
    case (WRemovePane i)
    then show ?thesis using drop [of tab_remove_pane i] by (simp add: workspace_remove_pane_def tab_remove_pane_def)
  next
    case (WClosePane i)
    then show ?thesis using drop [of tab_close_pane i] by (simp add: workspace_close_pane_def tab_close_pane_def)
  qed
qed

interpretation workspaces: related_machine workspace_step workspace_op_ok workspace_state_ok numbers_grow
proof
  fix s and e :: "'e workspace_op"
  assume "workspace_state_ok s" "workspace_op_ok s e"
  then obtain w n where "s = Some (w, n)" "workspace_inv w" "\<forall>i \<in> live w. i < n" "workspace_op_ok (Some (w, n)) e"
    by (auto simp: workspace_state_ok_def split: option.splits)
  with workspace_step_good [of w n e]
  show "workspace_state_ok (workspace_step s e)" "numbers_grow s (workspace_step s e)" by (auto simp: good_step_def)
qed (rule numbers_grow_refl, erule (1) numbers_grow_trans)

section \<open>Properties\<close>

lemma new_workspace_state:
  assumes "new_with_tab spawn cwd (counter, next_id) = (Inr (w, terminal), counter', n)" "next_id \<noteq> -1"
  shows "workspace_state_ok (Some (w, n))"
  using new_with_tab_ok [OF assms(1)] less_plus_1 [OF assms(2) order.refl]
  by (auto simp: workspace_state_ok_def live_panes)

text \<open>
  C8: from a new workspace, no sequence of operations that respects the obligations of the callers
  panics or breaks the invariant, at any moment: there is always an active tab, every tab has exactly
  the panes of its layout, no pane or terminal is in two tabs, and exactly the live panes have a public
  number, all different.
\<close>

theorem workspace_run_safe:
  assumes "new_with_tab spawn cwd (counter, next_id) = (Inr (w, terminal), counter', n)" "next_id \<noteq> -1"
    and "ok_run workspace_step workspace_op_ok (Some (w, n)) es"
  shows "\<exists>w' n'. foldl workspace_step (Some (w, n)) (take k es) = Some (w', n') \<and> workspace_inv w'"
  using workspaces.run_inv_at [OF new_workspace_state [OF assms(1,2)] assms(3), of k]
  by (auto simp: workspace_state_ok_def split: option.splits)

text \<open>
  C9: a public pane number is never used for two panes: if a pane has a number at one moment of a run
  and a pane has the same number at the same or a later moment, it is the same pane.
\<close>

theorem public_numbers_never_reused:
  assumes "workspace_inv w" "\<forall>i \<in> live w. i < n" "ok_run workspace_step workspace_op_ok (Some (w, n)) es" "j \<le> k"
    and "foldl workspace_step (Some (w, n)) (take j es) = Some (w1, n1)" "public_pane_number a w1 = Some number"
    and "foldl workspace_step (Some (w, n)) (take k es) = Some (w2, n2)" "public_pane_number b w2 = Some number"
  shows "a = b"
proof -
  have s: "workspace_state_ok (Some (w, n))" using assms(1,2) by (simp add: workspace_state_ok_def)
  have "numbers_grow (Some (w1, n1)) (Some (w2, n2))"
    using workspaces.run_rel_between [OF s assms(3,4)] unfolding assms(5,7) .
  moreover have "workspace_inv w1"
    using workspaces.run_inv_at [OF s assms(3), of j] unfolding assms(5) by (simp add: workspace_state_ok_def)
  then have num: "numbers_ok (next_public_pane_number w1) (public_pane_numbers w1) (live w1)"
    by (simp add: workspace_inv_def workspace_ok_def)
  moreover have a: "public_pane_numbers w1 a = Some number" "public_pane_numbers w2 b = Some number"
    using assms(6,8) by (simp_all add: public_pane_number_def)
  moreover from num a(1) have "number < next_public_pane_number w1" by (auto simp: numbers_ok_def ran_def)
  ultimately have "public_pane_numbers w1 b = Some number" using leD by (fastforce simp: numbers_grow_def)
  moreover have "inj_on (public_pane_numbers w1) (dom (public_pane_numbers w1))"
    using num by (auto simp: numbers_ok_def)
  ultimately show "a = b" using a(1) by (metis domI inj_onD)
qed

text \<open>
  C10: splitting a pane of a workspace adds exactly one pane, with the next public number, and its
  terminal was started with the identity under which the pane is then known; when the terminal does
  not start, the error is returned and the workspace, its layout, focus and numbers are unchanged.
\<close>

theorem split_pane_effect:
  assumes "workspace_inv w" "i \<in> live w" "next_id \<notin> live w" "next_public_pane_number w \<noteq> -1"
    and "\<And>e terminal. spawn e next_id = Inr terminal \<Longrightarrow> terminal \<notin> terminals w"
  shows "(\<exists>err. workspace_split_pane_with_runtime spawn i d ratio f (w, next_id)
            = Some (Some (Inl (SpawnError err)), w, next_id + 1))
    \<or> (\<exists>k terminal number w'. workspace_split_pane_with_runtime spawn i d ratio f (w, next_id)
            = Some (Some (Inr (k, \<lparr>np_pane_id = next_id, np_terminal = terminal\<rparr>)), w', next_id + 1)
        \<and> workspace_inv w' \<and> panes_of w' = insert (next_id, terminal) (panes_of w)
        \<and> public_pane_number next_id w' = Some number
        \<and> spawn \<lparr>li_workspace_id = wk_id w, li_tab_id = public_tab_id_for_number (wk_id w) (tb_number (wk_tabs w ! k)),
                 li_pane_id = public_pane_id_for_number (wk_id w) number\<rparr> next_id = Inr terminal)"
  by (rule workspace_split_cases [OF assms, where d = d and r = ratio and f = f])
    (auto simp: public_pane_number_def launch_env_for_new_pane_def)

text \<open>
  Closing a pane never panics; it reports that the workspace should close exactly for the last
  pane, which it leaves alone; otherwise exactly that pane is gone, with its number and, if it was
  the last of its tab, its tab.
\<close>

theorem workspace_close_pane_effect:
  assumes "workspace_inv w"
  shows "\<exists>closes w'. workspace_close_pane i w = Some (closes, w')
    \<and> closes = (live w = {i}) \<and> workspace_inv w'
    \<and> panes_of w' = (if closes then panes_of w else {x \<in> panes_of w. fst x \<noteq> i})
    \<and> (\<forall>j. public_pane_number j w' = (if j = i \<and> \<not> closes then None else public_pane_number j w))"
proof -
  have num: "public_pane_numbers w i = None" if "i \<notin> live w"
    using assms that by (auto simp: workspace_inv_def workspace_ok_def numbers_ok_def)
  show ?thesis
    unfolding workspace_close_pane_def
    by (rule drop_pane_cases [OF assms, of tab_close_pane i])
      (use assms num in \<open>auto simp: tab_close_pane_def public_pane_number_def live_panes\<close>)
qed

text \<open>
  The active tab follows: moving tabs about keeps the same tab active, and so does closing
  another tab; closing the active one leaves some tab active.
\<close>

theorem active_tab_follows:
  assumes "workspace_inv w"
  shows "active_tab (snd (move_tab s i w)) = active_tab w
    \<and> mset (wk_tabs (snd (move_tab s i w))) = mset (wk_tabs w)
    \<and> (if idx = wk_active_tab w then active_tab (snd (close_tab idx w)) \<noteq> None
       else active_tab (snd (close_tab idx w)) = active_tab w)"
proof -
  have "active_tab (snd (move_tab s i w)) = active_tab w \<and> mset (wk_tabs (snd (move_tab s i w))) = mset (wk_tabs w)"
    by (rule move_tab_cases [OF assms, of s i]) auto
  moreover have "if idx = wk_active_tab w then active_tab (snd (close_tab idx w)) \<noteq> None
      else active_tab (snd (close_tab idx w)) = active_tab w"
  proof (cases "1 < length (wk_tabs w) \<and> idx < length (wk_tabs w)")
    case True
    then show ?thesis
      using close_tab_ok [OF assms, of idx] workspace_inv_active by (metis option.distinct(1) snd_conv)
  next
    case False
    from close_tab_refused [OF this] workspace_inv_active [OF assms] show ?thesis by auto
  qed
  ultimately show ?thesis by blast
qed

section \<open>Witnesses\<close>

definition demo_workspace :: app_workspace where
  "demo_workspace = \<lparr>wk_id = lit ''w1'', wk_custom_name = None, wk_identity_cwd = lit ''/'', wk_worktree_space = None,
     public_pane_numbers = [7 \<mapsto> 1], next_public_pane_number = 2, next_public_tab_number = 2,
     wk_tabs = [\<lparr>tb_custom_name = None, tb_number = 1, tb_root_pane = 7,
       tb_layout = \<lparr>tl_root = Pane 7, tl_focus = 7, tl_prev_focus = None\<rparr>,
       tb_panes = [7 \<mapsto> pane_state_new (lit ''term_1'')], tb_zoomed = False\<rparr>],
     wk_active_tab = 0\<rparr>"

lemma demo_workspace_new:
  "new_with_tab (\<lambda>_ _. Inr (lit ''term_1'') :: unit + str) (lit ''/'') (1, 7)
     = (Inr (demo_workspace, lit ''term_1''), 2, 8)"
proof -
  have "encode_public_number 1 = lit ''1''"
    using encode_digits [of 1] digits_step [of 0 0] by (simp add: public_id_alphabet_def lit_def)
  then show ?thesis
    by (simp add: new_with_tab_def generate_workspace_id_def tab_new_with_runtime_def tl_new_def pane_alloc_def
        demo_workspace_def lit_def)
qed

lemma demo_workspace_inv: "workspace_inv demo_workspace"
  by (rule new_with_tab_ok(1) [OF demo_workspace_new])

lemma demo_workspace_panes: "panes_of demo_workspace = {(7, lit ''term_1'')}"
  by (rule new_with_tab_ok(2) [OF demo_workspace_new])

lemma demo_workspace_live [simp]: "live demo_workspace = {7}" "terminals demo_workspace = {lit ''term_1''}"
  by (simp_all only: live_panes terminals_panes demo_workspace_panes) simp_all

definition demo_ops :: "unit workspace_op list" where
  "demo_ops = [WCreateTab (Inl ()), WSwitchTab 3, WClosePane 7]"

lemma demo_ops_ok: "ok_run workspace_step workspace_op_ok (Some (demo_workspace, 8)) demo_ops"
proof -
  have "workspace_op_ok s (WSwitchTab 3)" "workspace_op_ok s (WClosePane 7)" for s
    by (cases s; simp)+
  then show ?thesis by (simp add: demo_ops_def fresh_terminal_def) (simp add: demo_workspace_def)
qed

theorem workspace_run_safe_witness:
  "\<exists>w' n'. foldl workspace_step (Some (demo_workspace, 8)) (take 2 demo_ops) = Some (w', n') \<and> workspace_inv w'"
  using workspace_run_safe [OF demo_workspace_new _ demo_ops_ok, of 2] by simp

theorem public_numbers_never_reused_witness:
  "public_pane_number 7 demo_workspace = Some 1
   \<and> {i. \<exists>w n. foldl workspace_step (Some (demo_workspace, 8)) (take 3 demo_ops) = Some (w, n)
        \<and> public_pane_number i w = Some 1} \<subseteq> {7}"
proof -
  have p: "public_pane_number 7 demo_workspace = Some 1" by (simp add: public_pane_number_def demo_workspace_def)
  have s: "foldl workspace_step (Some (demo_workspace, 8)) (take 0 demo_ops) = Some (demo_workspace, 8)" by simp
  have below: "\<forall>i \<in> live demo_workspace. i < 8" by simp
  have "i = 7" if "foldl workspace_step (Some (demo_workspace, 8)) (take 3 demo_ops) = Some (w, n)"
    "public_pane_number i w = Some 1" for i w n
    by (rule public_numbers_never_reused [OF demo_workspace_inv below demo_ops_ok _ s p that, symmetric]) simp
  with p show ?thesis by blast
qed

theorem split_pane_effect_witness:
  "\<exists>k w'. workspace_split_pane_with_runtime (\<lambda>_ _. Inr (lit ''term_2'') :: unit + str) 7 Horizontal None True (demo_workspace, 8)
     = Some (Some (Inr (k, \<lparr>np_pane_id = 8, np_terminal = lit ''term_2''\<rparr>)), w', 9)
     \<and> panes_of w' = {(8, lit ''term_2''), (7, lit ''term_1'')}"
proof -
  have n: "next_public_pane_number demo_workspace \<noteq> -1" by (simp add: demo_workspace_def)
  from split_pane_effect [OF demo_workspace_inv _ _ n, of 7 8 "\<lambda>_ _. Inr (lit ''term_2'') :: unit + str" Horizontal None True]
  have "(\<exists>err. workspace_split_pane_with_runtime (\<lambda>_ _. Inr (lit ''term_2'') :: unit + str) 7 Horizontal None True (demo_workspace, 8)
          = Some (Some (Inl (SpawnError err)), demo_workspace, 9))
    \<or> ?thesis"
    by (auto simp: demo_workspace_panes)
  moreover have "find_tab_index_for_pane 7 demo_workspace = Some 0"
    by (simp add: find_tab_index_for_pane_def demo_workspace_def)
  ultimately show ?thesis
    by (auto simp: workspace_split_pane_with_runtime_def tab_split_pane_with_runtime_def Let_def
        split_pane_def pane_alloc_def pane_ids_def demo_workspace_def split: prod.splits)
qed

theorem workspace_close_pane_effect_witness:
  "\<exists>w'. workspace_close_pane 7 demo_workspace = Some (True, w') \<and> panes_of w' = {(7, lit ''term_1'')}"
  using workspace_close_pane_effect [OF demo_workspace_inv, of 7] by (auto simp: demo_workspace_panes)

theorem active_tab_follows_witness:
  "active_tab (snd (move_tab 0 1 demo_workspace)) = active_tab demo_workspace"
  using active_tab_follows [OF demo_workspace_inv, of 0 1 0] by blast

end
