(* ===== verification/Agents.thy ===== *)
theory Agents
  imports Prelude
begin

text \<open>
  The agents herdr knows (\<open>detect/mod.rs\<close>) and the sessions it can resume (\<open>agent_resume.rs\<close>): the
  labels and how they are parsed, which reporting sources are official, which of those speak with
  the authority of a full life cycle, the validation of session references and the resume plans.
  Platform dependent names and paths are those of a Unix build.
\<close>

section \<open>Agents and their states\<close>

datatype agent_state = Idle | Working | Blocked | UnknownState

datatype agent =
    Pi | Claude | Codex | Gemini | Cursor | Devin | Antigravity | Cline | Omp | Mastracode
  | OpenCode | GithubCopilot | Kimi | Kiro | Droid | Amp | Grok | Hermes | Kilo | Qodercli | Qwen
  | Letta | Maki | Muse

definition all_agents :: "agent list" where
  "all_agents =
    [Pi, Claude, Codex, Gemini, Cursor, Devin, Antigravity, Cline, Omp, Mastracode, OpenCode,
     GithubCopilot, Kimi, Kiro, Droid, Amp, Grok, Hermes, Kilo, Qodercli, Qwen, Letta, Maki, Muse]"

fun agent_label :: "agent \<Rightarrow> str" where
  "agent_label Pi = lit ''pi''"
| "agent_label Claude = lit ''claude''"
| "agent_label Codex = lit ''codex''"
| "agent_label Gemini = lit ''gemini''"
| "agent_label Cursor = lit ''cursor''"
| "agent_label Devin = lit ''devin''"
| "agent_label Antigravity = lit ''agy''"
| "agent_label Cline = lit ''cline''"
| "agent_label Omp = lit ''omp''"
| "agent_label Mastracode = lit ''mastracode''"
| "agent_label OpenCode = lit ''opencode''"
| "agent_label GithubCopilot = lit ''copilot''"
| "agent_label Kimi = lit ''kimi''"
| "agent_label Kiro = lit ''kiro''"
| "agent_label Droid = lit ''droid''"
| "agent_label Amp = lit ''amp''"
| "agent_label Grok = lit ''grok''"
| "agent_label Hermes = lit ''hermes''"
| "agent_label Kilo = lit ''kilo''"
| "agent_label Qodercli = lit ''qodercli''"
| "agent_label Qwen = lit ''qwen''"
| "agent_label Letta = lit ''letta''"
| "agent_label Maki = lit ''maki''"
| "agent_label Muse = lit ''muse''"

definition interactive_agent_executable :: "agent \<Rightarrow> str" where
  "interactive_agent_executable a =
    (case a of
       Cursor \<Rightarrow> lit ''cursor-agent''
     | Kiro \<Rightarrow> lit ''kiro-cli''
     | _ \<Rightarrow> agent_label a)"

section \<open>Parsing labels\<close>

text \<open>
  \<open>to_lowercase\<close> is written out for the characters whose lower case is ASCII text (the letters
  A to Z, the Kelvin sign) or begins with it (the dotted I); every other character is kept, since its lower
  case is not ASCII either and the names compared with are.
\<close>

definition lowercase_char :: "nat \<Rightarrow> str" where
  "lowercase_char c =
    (if 65 \<le> c \<and> c \<le> 90 then [c + 32] else if c = 0x212A then [107]
     else if c = 0x130 then [105, 0x307] else [c])"

definition to_lowercase :: "str \<Rightarrow> str" where
  "to_lowercase s = concat (map lowercase_char s)"

definition ends_with :: "str \<Rightarrow> str \<Rightarrow> bool" where
  "ends_with s suffix \<longleftrightarrow> length suffix \<le> length s \<and> drop (length s - length suffix) s = suffix"

definition starts_with :: "str \<Rightarrow> str \<Rightarrow> bool" where
  "starts_with s prefix \<longleftrightarrow> take (length prefix) s = prefix"

definition script_suffixes :: "str list" where
  "script_suffixes = [lit ''.exe'', lit ''.cmd'', lit ''.bat'', lit ''.ps1'', lit ''.js'']"

definition normalized_agent_lookup_name :: "str \<Rightarrow> str" where
  "normalized_agent_lookup_name name =
    (let name' = to_lowercase (trim name)
     in case find (ends_with name') script_suffixes of
          Some suffix \<Rightarrow> take (length name' - length suffix) name'
        | None \<Rightarrow> name')"

text \<open>\<open>split(['/', '\\'])\<close>: the components between separators, the empty ones included.\<close>

fun split_path :: "str \<Rightarrow> str list" where
  "split_path [] = [[]]"
| "split_path (c # cs) =
     (if c = 47 \<or> c = 92 then [] # split_path cs
      else (case split_path cs of [] \<Rightarrow> [[c]] | w # ws \<Rightarrow> (c # w) # ws))"

definition path_basename :: "str \<Rightarrow> str" where
  "path_basename path =
    (case find (\<lambda>component. component \<noteq> []) (rev (split_path path)) of
       Some component \<Rightarrow> component
     | None \<Rightarrow> path)"

definition is_muse_versioned_binary :: "str \<Rightarrow> bool" where
  "is_muse_versioned_binary name =
    (let base = path_basename name; prefix = lit ''muse-bin-''
     in starts_with base prefix
        \<and> (case drop (length prefix) base of [] \<Rightarrow> False | c # _ \<Rightarrow> is_ascii_digit c))"

definition agent_names :: "(string \<times> agent) list" where
  "agent_names =
    [(''pi'', Pi), (''claude'', Claude), (''claude-code'', Claude), (''codex'', Codex),
     (''gemini'', Gemini), (''cursor'', Cursor), (''cursor-agent'', Cursor), (''devin'', Devin),
     (''devin-cli'', Devin), (''devin cli'', Devin), (''agy'', Antigravity),
     (''antigravity'', Antigravity), (''antigravity-cli'', Antigravity), (''cline'', Cline),
     (''.cline'', Cline), (''omp'', Omp), (''mastracode'', Mastracode),
     (''mastra-code'', Mastracode), (''mastra code'', Mastracode), (''opencode'', OpenCode),
     (''opencode2'', OpenCode), (''open-code'', OpenCode), (''copilot'', GithubCopilot),
     (''github-copilot'', GithubCopilot), (''ghcs'', GithubCopilot), (''kimi'', Kimi),
     (''kimi-code'', Kimi), (''kimi code'', Kimi), (''kiro'', Kiro), (''kiro-cli'', Kiro),
     (''droid'', Droid), (''amp'', Amp), (''amp-local'', Amp), (''grok'', Grok),
     (''grok-build'', Grok), (''hermes'', Hermes), (''hermes-agent'', Hermes), (''kilo'', Kilo),
     (''kilo-code'', Kilo), (''kilo code'', Kilo), (''qodercli'', Qodercli),
     (''qoderclicn'', Qodercli), (''qoder'', Qodercli), (''qodercn'', Qodercli), (''qwen'', Qwen),
     (''qwen-code'', Qwen), (''qwen code'', Qwen), (''letta'', Letta), (''letta-code'', Letta),
     (''letta code'', Letta), (''maki'', Maki), (''muse'', Muse), (''muse-code'', Muse),
     (''muse-cli'', Muse)]"

definition lookup_agent :: "str \<Rightarrow> agent option" where
  "lookup_agent name =
    (let base = path_basename name
     in case find (\<lambda>(n, _). lit n = base) agent_names of
          Some (_, a) \<Rightarrow> Some a
        | None \<Rightarrow> if is_muse_versioned_binary base then Some Muse else None)"

definition parse_canonical_agent_label :: "str \<Rightarrow> agent option" where
  "parse_canonical_agent_label label =
    (case lookup_agent label of
       None \<Rightarrow> None
     | Some a \<Rightarrow> if agent_label a = label then Some a else None)"

definition parse_agent_label :: "str \<Rightarrow> agent option" where
  "parse_agent_label name =
    (let name' = normalized_agent_lookup_name name
     in case parse_canonical_agent_label name' of
          Some a \<Rightarrow> Some a
        | None \<Rightarrow> lookup_agent name')"

section \<open>Official sources\<close>

definition full_lifecycle_pairs :: "(string \<times> string) list" where
  "full_lifecycle_pairs =
    [(''herdr:pi'', ''pi''), (''herdr:omp'', ''omp''), (''herdr:mastracode'', ''mastracode''),
     (''herdr:opencode'', ''opencode''), (''herdr:kilo'', ''kilo''), (''herdr:kimi'', ''kimi'')]"

definition is_pair :: "(string \<times> string) list \<Rightarrow> str \<Rightarrow> str \<Rightarrow> bool" where
  "is_pair pairs source label \<longleftrightarrow>
     list_ex (\<lambda>(s, l). lit s = source \<and> lit l = label) pairs"

definition full_lifecycle_hook_authority :: "str \<Rightarrow> str \<Rightarrow> bool" where
  "full_lifecycle_hook_authority source label = is_pair full_lifecycle_pairs source label"

definition session_identity_only_integration :: "str \<Rightarrow> str \<Rightarrow> bool" where
  "session_identity_only_integration source label =
    is_pair [(''herdr:hermes'', ''hermes''), (''herdr:qwen'', ''qwen''), (''herdr:letta'', ''letta''),
             (''herdr:antigravity_cli'', ''agy'')] source label"

definition is_reserved_native_state_source :: "str \<Rightarrow> str \<Rightarrow> bool" where
  "is_reserved_native_state_source source label =
    is_pair [(''herdr:claude'', ''claude''), (''herdr:codex'', ''codex''),
             (''herdr:copilot'', ''copilot''), (''herdr:devin'', ''devin''),
             (''herdr:droid'', ''droid''), (''herdr:qodercli'', ''qodercli''),
             (''herdr:qwen'', ''qwen''), (''herdr:cursor'', ''cursor''), (''herdr:grok'', ''grok'')]
       source label"

definition official_pairs :: "(string \<times> string) list" where
  "official_pairs =
    [(''herdr:claude'', ''claude''), (''herdr:codex'', ''codex''), (''herdr:copilot'', ''copilot''),
     (''herdr:devin'', ''devin''), (''herdr:droid'', ''droid''), (''herdr:kimi'', ''kimi''),
     (''herdr:omp'', ''omp''), (''herdr:mastracode'', ''mastracode''), (''herdr:pi'', ''pi''),
     (''herdr:hermes'', ''hermes''), (''herdr:opencode'', ''opencode''),
     (''herdr:qodercli'', ''qodercli''), (''herdr:qwen'', ''qwen''), (''herdr:kilo'', ''kilo''),
     (''herdr:cursor'', ''cursor''), (''herdr:antigravity_cli'', ''agy''),
     (''herdr:grok'', ''grok''), (''herdr:letta'', ''letta'')]"

definition is_official_agent_source :: "str \<Rightarrow> str \<Rightarrow> bool" where
  "is_official_agent_source source label = is_pair official_pairs source label"

section \<open>Session references\<close>

datatype session_ref_kind = SessionId | SessionPath

record agent_session_ref =
  ref_kind :: session_ref_kind
  ref_value :: str

record persisted_agent_session =
  ps_source :: str
  ps_agent :: str
  ps_session_ref :: agent_session_ref

record agent_resume_plan =
  plan_agent :: str
  plan_argv :: "str list"
  plan_dedupe_key :: str

definition valid_session_id :: "str \<Rightarrow> bool" where
  "valid_session_id v \<longleftrightarrow> v \<noteq> [] \<and> str_len v \<le> 512 \<and> \<not> list_ex is_control v"

text \<open>\<open>Path::is_absolute\<close> on Unix: the path begins with a slash.\<close>

definition valid_session_path :: "str \<Rightarrow> bool" where
  "valid_session_path v \<longleftrightarrow>
     v \<noteq> [] \<and> str_len v \<le> 4096 \<and> \<not> list_ex is_control v \<and> starts_with v [47]"

definition session_ref_id :: "str \<Rightarrow> agent_session_ref option" where
  "session_ref_id v =
    (if valid_session_id v then Some \<lparr>ref_kind = SessionId, ref_value = v\<rparr> else None)"

definition session_ref_path :: "str \<Rightarrow> agent_session_ref option" where
  "session_ref_path v =
    (if valid_session_path v then Some \<lparr>ref_kind = SessionPath, ref_value = v\<rparr> else None)"

definition session_ref_from_report ::
  "str \<Rightarrow> str \<Rightarrow> str option \<Rightarrow> str option \<Rightarrow> agent_session_ref option" where
  "session_ref_from_report source label session_id session_path =
    (if \<not> is_official_agent_source source label then None
     else if label = lit ''pi'' \<or> label = lit ''omp'' then
       (case Option.bind session_path session_ref_path of
          Some r \<Rightarrow> Some r
        | None \<Rightarrow> Option.bind session_id session_ref_id)
     else Option.bind session_id session_ref_id)"

definition persisted_session_from_launch_args ::
  "agent \<Rightarrow> str list \<Rightarrow> persisted_agent_session option" where
  "persisted_session_from_launch_args a args =
    (case args of
       [command, session_id] \<Rightarrow>
         if a \<noteq> Codex \<or> command \<noteq> lit ''resume'' \<or> starts_with session_id (lit ''-'') then None
         else map_option
                (\<lambda>r. \<lparr>ps_source = lit ''herdr:codex'', ps_agent = lit ''codex'', ps_session_ref = r\<rparr>)
                (session_ref_id session_id)
     | _ \<Rightarrow> None)"

definition start_sources :: "str list" where
  "start_sources =
    [lit ''startup'', lit ''resume'', lit ''clear'', lit ''compact'', lit ''branch'', lit ''new'',
     lit ''fork'', lit ''select'']"

definition normalize_session_start_source :: "str option \<Rightarrow> str option" where
  "normalize_session_start_source value =
    (case value of
       None \<Rightarrow> None
     | Some v \<Rightarrow> if trim v \<in> set start_sources then Some (trim v) else None)"

definition session_ref_from_snapshot ::
  "str \<Rightarrow> str \<Rightarrow> session_ref_kind \<Rightarrow> str \<Rightarrow> persisted_agent_session option" where
  "session_ref_from_snapshot source label kind v =
    (if \<not> is_official_agent_source source label then None
     else map_option (\<lambda>r. \<lparr>ps_source = source, ps_agent = label, ps_session_ref = r\<rparr>)
       (if (label = lit ''pi'' \<or> label = lit ''omp'') \<and> kind = SessionPath then session_ref_path v
        else if kind = SessionId then session_ref_id v
        else None))"

text \<open>\<open>{:?}\<close> of the kind.\<close>

fun kind_debug :: "session_ref_kind \<Rightarrow> str" where
  "kind_debug SessionId = lit ''Id''"
| "kind_debug SessionPath = lit ''Path''"

definition dedupe_key :: "str \<Rightarrow> str \<Rightarrow> agent_session_ref \<Rightarrow> str" where
  "dedupe_key source label r =
     source @ [0] @ label @ [0] @ kind_debug (ref_kind r) @ [0] @ ref_value r"

text \<open>The command lines: the words before the session's value, or a prefix joined to it.\<close>

definition letta_argv :: "str \<Rightarrow> str list option" where
  "letta_argv v =
    (let prefix = lit ''default:''
     in if starts_with v prefix then
          (if drop (length prefix) v = [] then None
           else Some [lit ''letta'', lit ''--conversation'', lit ''default'', lit ''--agent'',
                      drop (length prefix) v])
        else Some [lit ''letta'', lit ''--conversation'', v])"

definition resume_flags :: "(string \<times> string \<times> string) list" where
  "resume_flags =
    [(''herdr:claude'', ''claude'', ''--resume''), (''herdr:codex'', ''codex'', ''resume''),
     (''herdr:devin'', ''devin'', ''--resume''), (''herdr:droid'', ''droid'', ''--resume''),
     (''herdr:kimi'', ''kimi'', ''--session''), (''herdr:mastracode'', ''mastracode'', ''--thread''),
     (''herdr:pi'', ''pi'', ''--session''), (''herdr:hermes'', ''hermes'', ''--resume''),
     (''herdr:opencode'', ''opencode'', ''--session''),
     (''herdr:qodercli'', ''qodercli'', ''--resume''), (''herdr:qwen'', ''qwen'', ''--resume''),
     (''herdr:kilo'', ''kilo'', ''--session''), (''herdr:antigravity_cli'', ''agy'', ''--conversation''),
     (''herdr:grok'', ''grok'', ''--resume'')]"

definition plan_argv_of :: "str \<Rightarrow> str \<Rightarrow> agent_session_ref \<Rightarrow> str list option" where
  "plan_argv_of source label r =
    (let v = ref_value r; pair = (source, label);
         joined = (\<lambda>command. [command, lit ''--resume='' @ v])
     in if pair = (lit ''herdr:omp'', lit ''omp'') then Some (joined (lit ''omp''))
        else if ref_kind r = SessionPath \<and> pair \<noteq> (lit ''herdr:pi'', lit ''pi'') then None
        else if pair = (lit ''herdr:copilot'', lit ''copilot'') then Some (joined (lit ''copilot''))
        else if pair = (lit ''herdr:cursor'', lit ''cursor'')
          then Some [lit ''cursor-agent'', lit ''--resume'', v]
        else if pair = (lit ''herdr:letta'', lit ''letta'') then letta_argv v
        else (case find (\<lambda>(s, l, _). (lit s, lit l) = pair) resume_flags of
                Some (_, command, flag) \<Rightarrow> Some [lit command, lit flag, v]
              | None \<Rightarrow> None))"

definition plan :: "str \<Rightarrow> str \<Rightarrow> agent_session_ref \<Rightarrow> agent_resume_plan option" where
  "plan source label r =
    (if \<not> is_official_agent_source source label then None
     else map_option
       (\<lambda>argv. \<lparr>plan_agent = label, plan_argv = argv, plan_dedupe_key = dedupe_key source label r\<rparr>)
       (plan_argv_of source label r))"

section \<open>Lemmas\<close>

lemmas label_eval = parse_agent_label_def normalized_agent_lookup_name_def to_lowercase_def
  lowercase_char_def trim_def is_whitespace_def script_suffixes_def ends_with_def lit_def
  parse_canonical_agent_label_def lookup_agent_def path_basename_def agent_names_def

lemma parse_label [simp]: "parse_agent_label (agent_label a) = Some a"
  by (cases a) (simp_all add: label_eval)

lemma canonical_label: "parse_canonical_agent_label (agent_label a) = Some a"
  by (cases a) (simp_all add: label_eval)

lemma canonical_only: "parse_canonical_agent_label l = Some a \<longleftrightarrow> l = agent_label a"
proof
  assume "l = agent_label a"
  then show "parse_canonical_agent_label l = Some a" by (simp add: canonical_label)
qed (auto simp: parse_canonical_agent_label_def split: option.splits if_splits)

lemma set_all_agents: "set all_agents = UNIV"
proof -
  have "a \<in> set all_agents" for a by (cases a) (simp_all add: all_agents_def)
  then show ?thesis by auto
qed

lemma is_pair_iff:
  "is_pair pairs source label \<longleftrightarrow> (source, label) \<in> set (map (\<lambda>(s, l). (lit s, lit l)) pairs)"
  by (auto simp: is_pair_def list_ex_iff)

lemma official_label:
  assumes "is_official_agent_source source label"
  shows "\<exists>a. label = agent_label a"
proof -
  have "label \<in> agent_label ` set all_agents"
    using assms unfolding is_official_agent_source_def is_pair_iff official_pairs_def all_agents_def
    by (auto simp: lit_def)
  then show ?thesis by auto
qed

lemma official_source_unique:
  "is_official_agent_source s l \<Longrightarrow> is_official_agent_source s l' \<Longrightarrow> l = l'"
  unfolding is_official_agent_source_def is_pair_iff official_pairs_def by (auto simp: lit_def)

lemma official_label_unique:
  "is_official_agent_source s l \<Longrightarrow> is_official_agent_source s' l \<Longrightarrow> s = s'"
  unfolding is_official_agent_source_def is_pair_iff official_pairs_def by (auto simp: lit_def)

lemma full_lifecycle_official:
  "full_lifecycle_hook_authority source label \<Longrightarrow> is_official_agent_source source label"
  unfolding full_lifecycle_hook_authority_def is_official_agent_source_def is_pair_iff
    official_pairs_def full_lifecycle_pairs_def by auto

lemma full_lifecycle_not_identity_only:
  "full_lifecycle_hook_authority source label \<Longrightarrow> \<not> session_identity_only_integration source label"
  unfolding full_lifecycle_hook_authority_def session_identity_only_integration_def is_pair_iff
    full_lifecycle_pairs_def by (auto simp: lit_def)

lemma full_lifecycle_label:
  "full_lifecycle_hook_authority source label \<Longrightarrow> \<exists>a. label = agent_label a"
  by (blast dest: full_lifecycle_official official_label)

text \<open>Sources and labels hold no NUL, so the separators of a dedupe key cannot be mistaken.\<close>

lemma official_no_nul:
  assumes "is_official_agent_source source label"
  shows "0 \<notin> set source" "0 \<notin> set label"
  using assms unfolding is_official_agent_source_def is_pair_iff official_pairs_def
  by (auto simp: lit_def)

lemma split_at_nul:
  "xs @ 0 # ys = us @ 0 # (vs :: str) \<Longrightarrow> 0 \<notin> set xs \<Longrightarrow> 0 \<notin> set us \<Longrightarrow> xs = us \<and> ys = vs"
  by (auto simp: append_eq_append_conv2 append_eq_Cons_conv Cons_eq_append_conv)

lemma kind_debug_no_nul: "0 \<notin> set (kind_debug k)"
  by (cases k) (simp_all add: lit_def)

lemma kind_debug_inject: "kind_debug k = kind_debug k' \<longleftrightarrow> k = k'"
  by (cases k; cases k') (simp_all add: lit_def)

lemma dedupe_key_inject:
  assumes "is_official_agent_source s l" "is_official_agent_source s' l'"
  shows "dedupe_key s l r = dedupe_key s' l' r' \<longleftrightarrow> s = s' \<and> l = l' \<and> r = r'"
proof
  assume "dedupe_key s l r = dedupe_key s' l' r'"
  then have e: "s @ 0 # (l @ 0 # (kind_debug (ref_kind r) @ 0 # ref_value r))
      = s' @ 0 # (l' @ 0 # (kind_debug (ref_kind r') @ 0 # ref_value r'))"
    by (simp add: dedupe_key_def)
  note nul = official_no_nul [OF assms(1)] official_no_nul [OF assms(2)]
  from split_at_nul [OF e nul(1) nul(3)]
  have s: "s = s'" and e: "l @ 0 # (kind_debug (ref_kind r) @ 0 # ref_value r)
      = l' @ 0 # (kind_debug (ref_kind r') @ 0 # ref_value r')" by auto
  from split_at_nul [OF e nul(2) nul(4)]
  have l: "l = l'" and e: "kind_debug (ref_kind r) @ 0 # ref_value r
      = kind_debug (ref_kind r') @ 0 # ref_value r'" by auto
  from split_at_nul [OF e kind_debug_no_nul kind_debug_no_nul]
  show "s = s' \<and> l = l' \<and> r = r'" using s l by (simp add: kind_debug_inject)
qed simp

lemma plan_fields:
  "plan source label r = Some p \<Longrightarrow>
     is_official_agent_source source label \<and> plan_agent p = label
     \<and> plan_dedupe_key p = dedupe_key source label r \<and> plan_argv_of source label r = Some (plan_argv p)"
  by (auto simp: plan_def split: if_splits)

lemma report_ref:
  assumes "session_ref_from_report source label session_id session_path = Some r"
  shows "is_official_agent_source source label"
    and "ref_kind r = SessionPath \<Longrightarrow> label = lit ''pi'' \<or> label = lit ''omp''"
  using assms
  by (auto simp: session_ref_from_report_def session_ref_id_def session_ref_path_def
      split: if_splits option.splits Option.bind_splits)

definition bare_default :: "str \<Rightarrow> agent_session_ref \<Rightarrow> bool" where
  "bare_default label r \<longleftrightarrow> label = lit ''letta'' \<and> ref_value r = lit ''default:''"

lemma letta_argv_None: "letta_argv v = None \<longleftrightarrow> v = lit ''default:''"
proof -
  have "v = p" if "take (length p) v = p" "drop (length p) v = []" for p :: str
    using that by (metis append_Nil2 append_take_drop_id)
  then show ?thesis by (auto simp: letta_argv_def starts_with_def Let_def)
qed

lemma plan_total:
  assumes "is_official_agent_source source label"
    and "ref_kind r = SessionPath \<Longrightarrow> label = lit ''pi'' \<or> label = lit ''omp''"
  shows "plan source label r = None \<longleftrightarrow> bare_default label r"
proof -
  have "\<exists>s l. (s, l) \<in> set official_pairs \<and> source = lit s \<and> label = lit l"
    using assms(1) unfolding is_official_agent_source_def is_pair_iff by auto
  then obtain s l where sl: "(s, l) \<in> set official_pairs" "source = lit s" "label = lit l" by blast
  have "plan_argv_of (lit s) (lit l) r = None \<longleftrightarrow> bare_default (lit l) r"
    using sl(1) assms(2) unfolding sl official_pairs_def
    unfolding list.set insert_iff empty_iff prod.inject
    by (elim disjE conjE FalseE; cases "ref_kind r")
      (simp_all add: plan_argv_of_def resume_flags_def bare_default_def letta_argv_None)
  then show ?thesis using assms(1) unfolding sl by (simp add: plan_def)
qed

text \<open>What a report accepted survives in a snapshot.\<close>

lemma report_snapshot:
  assumes "session_ref_from_report source label session_id session_path = Some r"
  shows "session_ref_from_snapshot source label (ref_kind r) (ref_value r)
    = Some \<lparr>ps_source = source, ps_agent = label, ps_session_ref = r\<rparr>"
  using assms
  by (auto simp: session_ref_from_report_def session_ref_from_snapshot_def session_ref_id_def
      session_ref_path_def split: if_splits option.splits Option.bind_splits)

section \<open>Properties\<close>

text \<open>
  A session taken from a report survives a restart and can be resumed. Read back from a snapshot it is
  the same session of the same source; there is a command line that resumes it, but for Letta's bare
  \<open>default:\<close>; and its dedupe key is that of another official session only when it is the same one, so two panes
  never resume one session, and no session is taken for another.
\<close>

theorem reported_session_resumable:
  assumes "session_ref_from_report source label session_id session_path = Some r"
  shows "session_ref_from_snapshot source label (ref_kind r) (ref_value r)
      = Some \<lparr>ps_source = source, ps_agent = label, ps_session_ref = r\<rparr>
    \<and> (plan source label r = None \<longleftrightarrow> bare_default label r)
    \<and> (\<forall>source' label' r' p p'. plan source label r = Some p \<longrightarrow> plan source' label' r' = Some p'
         \<longrightarrow> (plan_dedupe_key p = plan_dedupe_key p' \<longleftrightarrow> source = source' \<and> label = label' \<and> r = r'))"
proof (intro conjI allI impI)
  show "session_ref_from_snapshot source label (ref_kind r) (ref_value r)
      = Some \<lparr>ps_source = source, ps_agent = label, ps_session_ref = r\<rparr>"
    by (rule report_snapshot [OF assms])
  show "plan source label r = None \<longleftrightarrow> bare_default label r"
    by (rule plan_total [OF report_ref [OF assms]])
  fix source' label' r' p p'
  assume p: "plan source label r = Some p" "plan source' label' r' = Some p'"
  show "plan_dedupe_key p = plan_dedupe_key p' \<longleftrightarrow> source = source' \<and> label = label' \<and> r = r'"
    using plan_fields [OF p(1)] plan_fields [OF p(2)] dedupe_key_inject by simp
qed

lemma demo_session:
  "session_ref_from_report (lit ''herdr:pi'') (lit ''pi'') (Some (lit ''x1'')) (Some (lit ''a''))
    = Some \<lparr>ref_kind = SessionId, ref_value = lit ''x1''\<rparr>"
  by (simp add: session_ref_from_report_def is_official_agent_source_def is_pair_def official_pairs_def
      session_ref_path_def valid_session_path_def starts_with_def session_ref_id_def valid_session_id_def
      lit_def is_control_def str_len_def str_bytes_def utf8_char_def)

lemma reported_session_resumable_witness:
  "plan (lit ''herdr:pi'') (lit ''pi'') \<lparr>ref_kind = SessionId, ref_value = lit ''x1''\<rparr> \<noteq> None"
  using reported_session_resumable [OF demo_session] by (simp add: bare_default_def lit_def)

text \<open>
  The label of an agent is its canonical name: it is parsed back as the agent, by the strict parser
  and by the one that also knows aliases, and no other text is accepted by the strict one.
\<close>

theorem agent_label_roundtrip:
  "parse_agent_label (agent_label g) = Some g
   \<and> (parse_canonical_agent_label label = Some g \<longleftrightarrow> label = agent_label g)"
  by (simp add: canonical_only)

end
