(* ===== verification/HashMaps.thy ===== *)
theory HashMaps
  imports Prelude "HOL-Library.AList" "HOL-Library.Multiset" "HOL-Library.Option_ord"
begin

text \<open>
  Rust's \<open>HashMap\<close> with string keys: an association list with one entry per key. What a program sees
  of the order of its entries is given by a parameter \<open>iter\<close>, which puts the keys in the order in
  which the map is walked; the theorems hold for every \<open>iter\<close> that keeps the keys (\<open>iter_ok\<close>). Also
  the iterator methods shared by the components that use such maps.
\<close>

type_synonym 'v hash_map = "(str \<times> 'v) list"

type_synonym hash_order = "str list \<Rightarrow> str list"

definition iter_ok :: "hash_order \<Rightarrow> bool" where
  "iter_ok iter \<longleftrightarrow> (\<forall>ks. mset (iter ks) = mset ks)"

definition hm_entries :: "hash_order \<Rightarrow> 'v hash_map \<Rightarrow> (str \<times> 'v) list" where
  "hm_entries iter m =
    List.map_filter (\<lambda>k. map_option (Pair k) (map_of m k)) (iter (map fst m))"

definition hm_values :: "hash_order \<Rightarrow> 'v hash_map \<Rightarrow> 'v list" where
  "hm_values iter m = map snd (hm_entries iter m)"

text \<open>\<open>insert\<close>, \<open>remove\<close>, \<open>retain\<close>, \<open>get_mut\<close> and \<open>contains_key\<close>.\<close>

abbreviation hm_insert :: "str \<Rightarrow> 'v \<Rightarrow> 'v hash_map \<Rightarrow> 'v hash_map" where
  "hm_insert \<equiv> AList.update"

definition hm_remove :: "str \<Rightarrow> 'v hash_map \<Rightarrow> 'v hash_map" where
  "hm_remove k m = filter (\<lambda>(k', _). k' \<noteq> k) m"

definition hm_retain :: "(str \<Rightarrow> 'v \<Rightarrow> bool) \<Rightarrow> 'v hash_map \<Rightarrow> 'v hash_map" where
  "hm_retain p m = filter (\<lambda>(k, v). p k v) m"

definition hm_map :: "(str \<Rightarrow> 'v \<Rightarrow> 'w) \<Rightarrow> 'v hash_map \<Rightarrow> 'w hash_map" where
  "hm_map f m = map (\<lambda>(k, v). (k, f k v)) m"

definition hm_modify :: "str \<Rightarrow> ('v \<Rightarrow> 'v) \<Rightarrow> 'v hash_map \<Rightarrow> 'v hash_map" where
  "hm_modify k f m = hm_map (\<lambda>k' v. if k' = k then f v else v) m"

definition hm_contains :: "str \<Rightarrow> 'v hash_map \<Rightarrow> bool" where
  "hm_contains k m \<longleftrightarrow> map_of m k \<noteq> None"

text \<open>Equality of maps, whatever the order of their entries.\<close>

definition hm_eq :: "'v hash_map \<Rightarrow> 'v hash_map \<Rightarrow> bool" where
  "hm_eq m m' \<longleftrightarrow> list_all (\<lambda>k. map_of m k = map_of m' k) (map fst m @ map fst m')"

text \<open>\<open>max_by_key\<close> yields the last of the greatest elements.\<close>

fun max_by_key :: "('a \<Rightarrow> 'k::linorder) \<Rightarrow> 'a list \<Rightarrow> 'a option" where
  "max_by_key f [] = None"
| "max_by_key f (x # xs) =
     (case max_by_key f xs of None \<Rightarrow> Some x | Some y \<Rightarrow> Some (if f y < f x then x else y))"

lemma max_by_key_None [simp]: "max_by_key f xs = None \<longleftrightarrow> xs = []"
  by (cases xs) (auto split: option.splits)

lemma max_by_key_Some:
  "max_by_key f xs = Some x \<Longrightarrow> x \<in> set xs \<and> (\<forall>y \<in> set xs. f y \<le> f x)"
  by (induction xs arbitrary: x) (force split: option.splits if_splits)+

lemma hm_eq_iff: "hm_eq m m' \<longleftrightarrow> map_of m = map_of m'"
proof
  assume e: "hm_eq m m'"
  have "map_of m k = map_of m' k" for k
  proof (cases "k \<in> fst ` set m \<union> fst ` set m'")
    case True
    then show ?thesis using e by (auto simp: hm_eq_def list_all_iff)
  next
    case False
    then have "map_of m k = None" "map_of m' k = None" by (simp_all add: map_of_eq_None_iff)
    then show ?thesis by simp
  qed
  then show "map_of m = map_of m'" by auto
qed (simp add: hm_eq_def list_all_iff)

lemma hm_eq_refl [simp]: "hm_eq m m"
  by (simp add: hm_eq_iff)

lemma map_of_hm_remove [simp]: "map_of (hm_remove k m) = (map_of m)(k := None)"
  by (induction m) (auto simp: hm_remove_def)

lemma map_of_hm_map [simp]: "map_of (hm_map f m) k = map_option (f k) (map_of m k)"
  by (induction m) (auto simp: hm_map_def)

lemma hm_map_keys [simp]: "map fst (hm_map f m) = map fst m"
  by (induction m) (auto simp: hm_map_def)

lemma map_of_hm_modify [simp]:
  "map_of (hm_modify k f m) k' = (if k' = k then map_option f (map_of m k) else map_of m k')"
  by (cases "map_of m k'"; cases "k' = k") (simp_all add: hm_modify_def)

lemma map_of_hm_retain:
  "distinct (map fst m) \<Longrightarrow> map_of (hm_retain p m) k =
     (case map_of m k of None \<Rightarrow> None | Some v \<Rightarrow> if p k v then Some v else None)"
proof (induction m)
  case (Cons x m)
  have "map_of (filter (\<lambda>(k, v). p k v) m) (fst x) = None"
  proof -
    have "fst x \<notin> fst ` set m" using Cons.prems by simp
    then have "fst x \<notin> fst ` set (filter (\<lambda>(k, v). p k v) m)" by auto
    then show ?thesis by (simp add: map_of_eq_None_iff)
  qed
  with Cons show ?case by (auto simp: hm_retain_def split: option.splits)
qed (simp add: hm_retain_def)

lemma distinct_hm_retain: "distinct (map fst m) \<Longrightarrow> distinct (map fst (hm_retain p m))"
  by (simp add: hm_retain_def distinct_map_filter)

lemma distinct_hm_remove: "distinct (map fst m) \<Longrightarrow> distinct (map fst (hm_remove k m))"
  by (simp add: hm_remove_def distinct_map_filter)

lemma iter_ok_set: "iter_ok iter \<Longrightarrow> set (iter ks) = set ks"
  unfolding iter_ok_def by (metis set_mset_mset)

lemma iter_ok_id: "iter_ok id" "iter_ok rev"
  by (simp_all add: iter_ok_def)

lemma map_filter_simps':
  "List.map_filter f [] = []"
  "List.map_filter f (x # xs) =
     (case f x of None \<Rightarrow> List.map_filter f xs | Some y \<Rightarrow> y # List.map_filter f xs)"
  by (simp_all add: List.map_filter_def split: option.splits)

lemma set_lookups:
  "(k, v) \<in> set (List.map_filter (\<lambda>k. map_option (Pair k) (g k)) ks) \<longleftrightarrow> k \<in> set ks \<and> g k = Some v"
  by (induction ks) (auto simp: map_filter_simps' split: option.splits)

lemma set_hm_entries:
  assumes "iter_ok iter"
  shows "(k, v) \<in> set (hm_entries iter m) \<longleftrightarrow> map_of m k = Some v"
  using iter_ok_set [OF assms, of "map fst m"] map_of_SomeD [of m k v]
  by (force simp: hm_entries_def set_lookups)

lemma set_hm_values:
  "iter_ok iter \<Longrightarrow> v \<in> set (hm_values iter m) \<longleftrightarrow> (\<exists>k. map_of m k = Some v)"
proof -
  assume i: "iter_ok iter"
  have "v \<in> set (hm_values iter m) \<longleftrightarrow> (\<exists>k. (k, v) \<in> set (hm_entries iter m))"
    by (force simp: hm_values_def)
  then show ?thesis by (simp add: set_hm_entries [OF i])
qed

end
