(* ===== verification/TerminalState.thy ===== *)
theory TerminalState
  imports Agents HashMaps
begin

text \<open>
  The state herdr keeps of a terminal (\<open>terminal/state.rs\<close>, \<open>terminal/metadata.rs\<close>,
  \<open>terminal/title.rs\<close>) and how the shown state of its agent is put together from the process that was
  detected, the reports of the agent's hooks and the metadata attached to it. Instants and durations
  are nanoseconds; \<open>Instant::now()\<close> is an argument of the operations that read the clock. The
  operations that change the state are in \<open>AgentReports\<close> and \<open>AgentMetadata\<close>.
\<close>

section \<open>Data\<close>

record hook_authority =
  ha_source :: str
  ha_agent_label :: str
  ha_state :: agent_state
  ha_message :: "str option"
  ha_reported_at :: nat
  ha_session_ref :: "agent_session_ref option"

datatype suppression_reason = HookClear | ProcessExit

record pending_report =
  pr_authority :: hook_authority
  pr_seq :: u64

record suppressed_report =
  sr_agent_label :: str
  sr_session_ref :: "agent_session_ref option"
  sr_observed_at :: nat
  sr_reason :: suppression_reason
  sr_replacement_session_ref :: "agent_session_ref option"
  sr_pending :: "pending_report option"

record stale_session =
  ss_agent_label :: str
  ss_session_ref :: agent_session_ref

text \<open>\<open>Accept { reanchor_sequence }\<close> and \<open>Ignore\<close>.\<close>

datatype report_route = Accept bool | Ignore

text \<open>\<open>Pending { ready_after, deadline, observed_expected }\<close>, \<open>Blocked\<close> and \<open>Active\<close>.\<close>

datatype managed_phase = Pending "nat option" nat bool | PhaseBlocked | Active

record managed_agent =
  ma_kind :: agent
  ma_phase :: managed_phase

record agent_name_owner =
  no_agent_label :: str
  no_session_ref :: "agent_session_ref option"

record process_exit =
  pe_agent :: agent
  pe_observed_at :: nat

record agent_metadata =
  am_source :: str
  am_agent_label :: "str option"
  am_applies_to_source :: "str option"
  am_title :: "str option"
  am_display_agent :: "str option"
  am_state_labels :: "str hash_map"
  am_reported_at :: nat
  am_title_reported_at :: "nat option"
  am_display_agent_reported_at :: "nat option"
  am_state_label_reported_at :: "nat hash_map"
  am_ttl :: "nat option"
  am_expiry_event_pending :: bool

record presentation =
  p_title :: "str option"
  p_display_agent :: "str option"
  p_state_labels :: "str hash_map"

text \<open>\<open>TerminalState\<close>, without the metadata tokens, which none of its operations touches.\<close>

record terminal_state =
  t_id :: str
  t_cwd :: str
  t_detected_agent :: "agent option"
  t_fallback_state :: agent_state
  t_fallback_visible_blocker :: bool
  t_fallback_observed_at :: "nat option"
  t_hook_authority :: "hook_authority option"
  t_agent_metadata :: "agent_metadata hash_map"
  t_persisted_agent_session :: "persisted_agent_session option"
  t_terminal_title :: "str option"
  t_manual_label :: "str option"
  t_agent_name :: "str option"
  t_agent_name_owner :: "agent_name_owner option"
  t_managed_agent :: "managed_agent option"
  t_managed_launch_session :: "persisted_agent_session option"
  t_hook_report_sequences :: "u64 hash_map"
  t_suppressed :: "suppressed_report hash_map"
  t_stale_sessions :: "stale_session list hash_map"
  t_metadata_sequences :: "u64 hash_map"
  t_metadata_agents :: "agent hash_map"
  t_token_sources :: "str list"
  t_state :: agent_state
  t_last_change_seq :: "u64 option"
  t_revision :: u64
  t_launch_argv :: "str list option"
  t_respawn_shell :: bool
  t_recent_exit :: "process_exit option"
  t_acquisition_pending :: bool
  t_resume_plan :: "agent_resume_plan option"

definition terminal_new :: "str \<Rightarrow> str \<Rightarrow> terminal_state" where
  "terminal_new id0 cwd =
    \<lparr>t_id = id0, t_cwd = cwd, t_detected_agent = None, t_fallback_state = UnknownState,
     t_fallback_visible_blocker = False, t_fallback_observed_at = None, t_hook_authority = None,
     t_agent_metadata = [], t_persisted_agent_session = None, t_terminal_title = None,
     t_manual_label = None, t_agent_name = None, t_agent_name_owner = None, t_managed_agent = None,
     t_managed_launch_session = None, t_hook_report_sequences = [], t_suppressed = [],
     t_stale_sessions = [], t_metadata_sequences = [], t_metadata_agents = [], t_token_sources = [],
     t_state = UnknownState, t_last_change_seq = None, t_revision = 0, t_launch_argv = None,
     t_respawn_shell = False, t_recent_exit = None, t_acquisition_pending = False,
     t_resume_plan = None\<rparr>"

record state_change =
  sc_previous_agent_label :: "str option"
  sc_previous_known_agent :: "agent option"
  sc_previous_state :: agent_state
  sc_previous_presentation :: presentation
  sc_agent_label :: "str option"
  sc_known_agent :: "agent option"
  sc_state :: agent_state
  sc_presentation :: presentation

record state_mutation =
  tm_change :: "state_change option"
  tm_session_ref_changed :: bool
  tm_agent_released :: bool

text \<open>\<open>Instant::checked_add\<close> on 64-bit Unix, where seconds are an \<open>i64\<close>.\<close>

definition instant_checked_add :: "nat \<Rightarrow> nat \<Rightarrow> nat option" where
  "instant_checked_add t d = (if t + d < 2 ^ 63 * 10 ^ 9 then Some (t + d) else None)"

definition instant_add_or :: "nat \<Rightarrow> nat \<Rightarrow> nat" where
  "instant_add_or t d = (case instant_checked_add t d of Some t' \<Rightarrow> t' | None \<Rightarrow> t)"

lemma instant_add_or_ge: "t \<le> instant_add_or t d"
  by (auto simp: instant_add_or_def instant_checked_add_def)

section \<open>Who the agent is and what it does\<close>

definition hook_authority_is_effective :: "hook_authority \<Rightarrow> terminal_state \<Rightarrow> bool" where
  "hook_authority_is_effective a s \<longleftrightarrow>
     \<not> full_lifecycle_hook_authority (ha_source a) (ha_agent_label a)
     \<or> (case parse_agent_label (ha_agent_label a) of
          None \<Rightarrow> True
        | Some g \<Rightarrow> t_detected_agent s = Some g \<and> t_recent_exit s = None)"

definition effective_authority :: "terminal_state \<Rightarrow> hook_authority option" where
  "effective_authority s =
    (case t_hook_authority s of
       None \<Rightarrow> None
     | Some a \<Rightarrow> if hook_authority_is_effective a s then Some a else None)"

definition effective_agent_label :: "terminal_state \<Rightarrow> str option" where
  "effective_agent_label s =
    (case effective_authority s of
       Some a \<Rightarrow> Some (ha_agent_label a)
     | None \<Rightarrow>
         if t_recent_exit s = None then map_option agent_label (t_detected_agent s) else None)"

definition effective_known_agent :: "terminal_state \<Rightarrow> agent option" where
  "effective_known_agent s = Option.bind (effective_agent_label s) parse_agent_label"

definition live_full_lifecycle_hook_authority :: "terminal_state \<Rightarrow> bool" where
  "live_full_lifecycle_hook_authority s \<longleftrightarrow>
    (case t_hook_authority s of
       None \<Rightarrow> False
     | Some a \<Rightarrow> hook_authority_is_effective a s
                \<and> full_lifecycle_hook_authority (ha_source a) (ha_agent_label a))"

definition hook_authority_not_newer_than :: "nat \<Rightarrow> terminal_state \<Rightarrow> bool" where
  "hook_authority_not_newer_than t s \<longleftrightarrow>
    (case t_hook_authority s of None \<Rightarrow> True | Some a \<Rightarrow> ha_reported_at a \<le> t)"

definition fallback_not_older_than_hook :: "terminal_state \<Rightarrow> bool" where
  "fallback_not_older_than_hook s \<longleftrightarrow>
    (case t_hook_authority s of
       None \<Rightarrow> True
     | Some a \<Rightarrow>
         (case t_fallback_observed_at s of None \<Rightarrow> False | Some t \<Rightarrow> ha_reported_at a \<le> t))"

definition visible_blocker_overrides_hook :: "terminal_state \<Rightarrow> bool" where
  "visible_blocker_overrides_hook s \<longleftrightarrow>
     \<not> live_full_lifecycle_hook_authority s \<and> t_fallback_visible_blocker s
     \<and> fallback_not_older_than_hook s
     \<and> (case t_hook_authority s of
          None \<Rightarrow> False
        | Some a \<Rightarrow> ha_state a \<noteq> Blocked
                   \<and> parse_agent_label (ha_agent_label a) = t_detected_agent s)"

text \<open>The first step of \<open>recompute_effective_state\<close>: the arbitration.\<close>

definition arbitrated_state :: "terminal_state \<Rightarrow> agent_state" where
  "arbitrated_state s =
    (if visible_blocker_overrides_hook s then Blocked
     else case effective_authority s of Some a \<Rightarrow> ha_state a | None \<Rightarrow> t_fallback_state s)"

definition is_agent_terminal :: "terminal_state \<Rightarrow> bool" where
  "is_agent_terminal s \<longleftrightarrow> t_agent_name s \<noteq> None \<or> effective_agent_label s \<noteq> None"

section \<open>Presentation\<close>

definition metadata_guards_match :: "str option \<Rightarrow> str option \<Rightarrow> terminal_state \<Rightarrow> bool" where
  "metadata_guards_match label applies_to s \<longleftrightarrow>
     \<not> (label \<noteq> None \<and> effective_agent_label s \<noteq> label)
     \<and> \<not> (case applies_to of
            None \<Rightarrow> False
          | Some source \<Rightarrow>
              (case t_hook_authority s of None \<Rightarrow> True | Some a \<Rightarrow> ha_source a \<noteq> source))"

definition agent_metadata_matches_guards :: "agent_metadata \<Rightarrow> terminal_state \<Rightarrow> bool" where
  "agent_metadata_matches_guards m s = metadata_guards_match (am_agent_label m) (am_applies_to_source m) s"

definition agent_metadata_expiry :: "agent_metadata \<Rightarrow> nat option" where
  "agent_metadata_expiry m = map_option (instant_add_or (am_reported_at m)) (am_ttl m)"

definition agent_metadata_is_expired :: "agent_metadata \<Rightarrow> nat \<Rightarrow> bool" where
  "agent_metadata_is_expired m now =
    (case agent_metadata_expiry m of None \<Rightarrow> False | Some deadline \<Rightarrow> deadline \<le> now)"

definition has_fields :: "agent_metadata \<Rightarrow> bool" where
  "has_fields m \<longleftrightarrow> am_title m \<noteq> None \<or> am_display_agent m \<noteq> None \<or> am_state_labels m \<noteq> []"

definition agent_metadata_is_valid :: "agent_metadata \<Rightarrow> nat \<Rightarrow> bool \<Rightarrow> terminal_state \<Rightarrow> bool" where
  "agent_metadata_is_valid m now enforce_ttl s \<longleftrightarrow>
     has_fields m \<and> \<not> (enforce_ttl \<and> agent_metadata_is_expired m now)
     \<and> agent_metadata_matches_guards m s"

definition agent_metadata_is_visible_ignoring_ttl :: "agent_metadata \<Rightarrow> terminal_state \<Rightarrow> bool" where
  "agent_metadata_is_visible_ignoring_ttl m s \<longleftrightarrow> has_fields m \<and> agent_metadata_matches_guards m s"

definition valid_agent_metadata ::
  "hash_order \<Rightarrow> nat \<Rightarrow> bool \<Rightarrow> terminal_state \<Rightarrow> agent_metadata list" where
  "valid_agent_metadata iter now enforce_ttl s =
    filter (\<lambda>m. agent_metadata_is_valid m now enforce_ttl s) (hm_values iter (t_agent_metadata s))"

definition newest_metadata_title :: "hash_order \<Rightarrow> nat \<Rightarrow> bool \<Rightarrow> terminal_state \<Rightarrow> str option" where
  "newest_metadata_title iter now enforce_ttl s =
    Option.bind (max_by_key am_title_reported_at
      (filter (\<lambda>m. am_title m \<noteq> None) (valid_agent_metadata iter now enforce_ttl s))) am_title"

definition newest_metadata_display_agent ::
  "hash_order \<Rightarrow> nat \<Rightarrow> bool \<Rightarrow> terminal_state \<Rightarrow> str option" where
  "newest_metadata_display_agent iter now enforce_ttl s =
    Option.bind (max_by_key am_display_agent_reported_at
      (filter (\<lambda>m. am_display_agent m \<noteq> None) (valid_agent_metadata iter now enforce_ttl s)))
      am_display_agent"

definition reported_labels :: "hash_order \<Rightarrow> agent_metadata \<Rightarrow> (nat \<times> str \<times> str) list" where
  "reported_labels iter m =
    List.map_filter
      (\<lambda>(st, label). map_option (\<lambda>t. (t, st, label)) (map_of (am_state_label_reported_at m) st))
      (hm_entries iter (am_state_labels m))"

definition effective_metadata_state_labels ::
  "hash_order \<Rightarrow> nat \<Rightarrow> bool \<Rightarrow> terminal_state \<Rightarrow> str hash_map" where
  "effective_metadata_state_labels iter now enforce_ttl s =
    fold (\<lambda>(_, st, label). hm_insert st label)
      (sort_key fst (concat (map (reported_labels iter) (valid_agent_metadata iter now enforce_ttl s))))
      []"

definition effective_presentation_with_ttl ::
  "hash_order \<Rightarrow> nat \<Rightarrow> bool \<Rightarrow> terminal_state \<Rightarrow> presentation" where
  "effective_presentation_with_ttl iter now enforce_ttl s =
    \<lparr>p_title = newest_metadata_title iter now enforce_ttl s,
     p_display_agent = newest_metadata_display_agent iter now enforce_ttl s,
     p_state_labels = effective_metadata_state_labels iter now enforce_ttl s\<rparr>"

definition effective_presentation :: "hash_order \<Rightarrow> nat \<Rightarrow> terminal_state \<Rightarrow> presentation" where
  "effective_presentation iter now s = effective_presentation_with_ttl iter now True s"

definition presentation_eq :: "presentation \<Rightarrow> presentation \<Rightarrow> bool" where
  "presentation_eq p q \<longleftrightarrow>
     p_title p = p_title q \<and> p_display_agent p = p_display_agent q
     \<and> hm_eq (p_state_labels p) (p_state_labels q)"

definition border_label :: "hash_order \<Rightarrow> nat \<Rightarrow> bool \<Rightarrow> terminal_state \<Rightarrow> str option" where
  "border_label iter now show_agent_labels s =
    (let p = effective_presentation iter now s
     in case p_title p of
          Some t \<Rightarrow> Some t
        | None \<Rightarrow>
            (case t_manual_label s of
               Some l \<Rightarrow> Some l
             | None \<Rightarrow>
                 if show_agent_labels then
                   (case p_display_agent p of Some d \<Rightarrow> Some d | None \<Rightarrow> effective_agent_label s)
                 else None))"

definition clear_expiry_pending_for_hidden_metadata :: "terminal_state \<Rightarrow> terminal_state" where
  "clear_expiry_pending_for_hidden_metadata s =
    s\<lparr>t_agent_metadata := hm_map
        (\<lambda>_ m. if am_expiry_event_pending m \<and> \<not> agent_metadata_is_visible_ignoring_ttl m s
               then m\<lparr>am_expiry_event_pending := False\<rparr> else m) (t_agent_metadata s)\<rparr>"

section \<open>Recomputing the shown state\<close>

text \<open>
  What an operation remembers of the state before it (\<open>previous_agent_label\<close> and the like), and
  \<open>recompute_effective_state\<close>, which compares with it.
\<close>

record before_op =
  bo_label :: "str option"
  bo_known :: "agent option"
  bo_state :: agent_state
  bo_presentation :: presentation

definition before_op_of :: "hash_order \<Rightarrow> nat \<Rightarrow> terminal_state \<Rightarrow> before_op" where
  "before_op_of iter now s =
    \<lparr>bo_label = effective_agent_label s, bo_known = effective_known_agent s, bo_state = t_state s,
     bo_presentation = effective_presentation iter now s\<rparr>"

definition recompute_effective_state ::
  "hash_order \<Rightarrow> before_op \<Rightarrow> nat \<Rightarrow> terminal_state \<Rightarrow> state_change option \<times> terminal_state" where
  "recompute_effective_state iter prev now s =
    (let st = arbitrated_state s; label = effective_agent_label s; known = effective_known_agent s;
         p = effective_presentation iter now s;
         s' = clear_expiry_pending_for_hidden_metadata s
     in if bo_label prev = label \<and> bo_state prev = st \<and> presentation_eq (bo_presentation prev) p
        then (None, s')
        else (Some \<lparr>sc_previous_agent_label = bo_label prev, sc_previous_known_agent = bo_known prev,
                   sc_previous_state = bo_state prev, sc_previous_presentation = bo_presentation prev,
                   sc_agent_label = label, sc_known_agent = known, sc_state = st,
                   sc_presentation = p\<rparr>,
              s'\<lparr>t_state := st\<rparr>))"

definition unchanged_effective_state_change :: "hash_order \<Rightarrow> nat \<Rightarrow> terminal_state \<Rightarrow> state_change" where
  "unchanged_effective_state_change iter now s =
    (let label = effective_agent_label s; known = effective_known_agent s;
         p = effective_presentation iter now s
     in \<lparr>sc_previous_agent_label = label, sc_previous_known_agent = known,
         sc_previous_state = t_state s, sc_previous_presentation = p, sc_agent_label = label,
         sc_known_agent = known, sc_state = t_state s, sc_presentation = p\<rparr>)"

end
