(* ===== verification/ManagedAgent.thy ===== *)
theory ManagedAgent
  imports TerminalState
begin

text \<open>
  The names of terminals and agents (\<open>terminal/state.rs\<close>, \<open>terminal/title.rs\<close>): the title an
  application sets, the label of the user, the name of an agent with the session that owns it, and
  the launch of a managed agent, which is pending until the agent shows up idle, blocked while the agent asks
  for input, and given up at its deadline.
\<close>

section \<open>Titles and labels\<close>

definition activity_glyphs :: "nat list" where
  "activity_glyphs =
    [0xB7, 0x2722, 0x2733, 0x2736, 0x273B, 0x273D, 0x25D0, 0x25D3, 0x25D1, 0x25D2]"

text \<open>\<open>terminal_title_for_presentation\<close> is the identity on Unix.\<close>

definition stripped_terminal_title :: "str \<Rightarrow> str option" where
  "stripped_terminal_title title =
    (case trim title of
       [] \<Rightarrow> None
     | first # after_first \<Rightarrow>
         let recognized = (0x2800 \<le> first \<and> first \<le> 0x28FF) \<or> first \<in> set activity_glyphs;
             stripped =
               (if recognized \<and> (case after_first of [] \<Rightarrow> True | c # _ \<Rightarrow> is_whitespace c)
                then trim after_first else first # after_first)
         in if stripped = [] then None else Some stripped)"

definition terminal_title_stripped :: "terminal_state \<Rightarrow> str option" where
  "terminal_title_stripped s = Option.bind (t_terminal_title s) stripped_terminal_title"

record title_change =
  tc_raw_changed :: bool
  tc_stripped_changed :: bool

definition set_terminal_title :: "str option \<Rightarrow> terminal_state \<Rightarrow> title_change \<times> terminal_state" where
  "set_terminal_title title s =
    (if t_terminal_title s = title
     then (\<lparr>tc_raw_changed = False, tc_stripped_changed = False\<rparr>, s)
     else let s' = s\<lparr>t_terminal_title := title\<rparr>;
              stripped_changed = (terminal_title_stripped s \<noteq> terminal_title_stripped s')
          in (\<lparr>tc_raw_changed = True, tc_stripped_changed = stripped_changed\<rparr>,
              if stripped_changed then s'\<lparr>t_revision := t_revision s' + 1\<rparr> else s'))"

definition set_manual_label :: "str \<Rightarrow> terminal_state \<Rightarrow> terminal_state" where
  "set_manual_label label s =
    s\<lparr>t_manual_label := (if trim label \<noteq> [] then Some (trim label) else None)\<rparr>"

definition clear_manual_label :: "terminal_state \<Rightarrow> terminal_state" where
  "clear_manual_label s = s\<lparr>t_manual_label := None\<rparr>"

section \<open>The name of the agent\<close>

definition name_owner_of :: "terminal_state \<Rightarrow> agent_name_owner option" where
  "name_owner_of s =
    (case t_hook_authority s of
       Some a \<Rightarrow> Some \<lparr>no_agent_label = ha_agent_label a, no_session_ref = ha_session_ref a\<rparr>
     | None \<Rightarrow>
         (case t_persisted_agent_session s of
            Some p \<Rightarrow> Some \<lparr>no_agent_label = ps_agent p, no_session_ref = Some (ps_session_ref p)\<rparr>
          | None \<Rightarrow>
              map_option (\<lambda>label. \<lparr>no_agent_label = label, no_session_ref = None\<rparr>)
                (effective_agent_label s)))"

definition set_agent_name :: "str \<Rightarrow> terminal_state \<Rightarrow> terminal_state" where
  "set_agent_name name s =
    s\<lparr>t_agent_name := (if name \<noteq> [] then Some name else None),
      t_agent_name_owner := (if name \<noteq> [] then name_owner_of s else None)\<rparr>"

definition clear_agent_name :: "terminal_state \<Rightarrow> terminal_state" where
  "clear_agent_name s =
    (let session = t_managed_launch_session s
     in s\<lparr>t_managed_launch_session := None,
          t_persisted_agent_session :=
            (if session \<noteq> None \<and> t_persisted_agent_session s = session then None
             else t_persisted_agent_session s),
          t_agent_name := None, t_agent_name_owner := None, t_managed_agent := None\<rparr>)"

text \<open>A name belongs to one session: another agent, or another session of it, drops the name.\<close>

definition sessions_differ :: "agent_session_ref option \<Rightarrow> agent_session_ref option \<Rightarrow> bool" where
  "sessions_differ r r' = (case (r, r') of (Some x, Some y) \<Rightarrow> x \<noteq> y | _ \<Rightarrow> False)"

definition reconcile_agent_name_owner ::
  "str \<Rightarrow> agent_session_ref option \<Rightarrow> terminal_state \<Rightarrow> terminal_state" where
  "reconcile_agent_name_owner label r s =
    (if t_agent_name s = None then s
     else if (case t_managed_agent s of
                None \<Rightarrow> False | Some m \<Rightarrow> parse_agent_label label = Some (ma_kind m)) then s
     else case t_agent_name_owner s of
       None \<Rightarrow> s\<lparr>t_agent_name_owner := Some \<lparr>no_agent_label = label, no_session_ref = r\<rparr>\<rparr>
     | Some owner \<Rightarrow>
         if no_agent_label owner \<noteq> label \<or> sessions_differ (no_session_ref owner) r
         then s\<lparr>t_agent_name := None, t_agent_name_owner := None\<rparr>
         else if no_session_ref owner = None \<and> r \<noteq> None
         then s\<lparr>t_agent_name_owner := Some (owner\<lparr>no_session_ref := r\<rparr>)\<rparr>
         else s)"

section \<open>Managed agents\<close>

definition set_managed_agent_launch_session ::
  "persisted_agent_session \<Rightarrow> terminal_state \<Rightarrow> terminal_state" where
  "set_managed_agent_launch_session p s =
    s\<lparr>t_persisted_agent_session := Some p, t_managed_launch_session := Some p\<rparr>"

definition begin_managed_agent ::
  "str \<Rightarrow> agent \<Rightarrow> nat \<Rightarrow> nat \<Rightarrow> nat \<Rightarrow> terminal_state \<Rightarrow> terminal_state" where
  "begin_managed_agent name kind now settle_delay timeout s =
    (set_agent_name name s)
      \<lparr>t_agent_name_owner := Some \<lparr>no_agent_label = agent_label kind, no_session_ref = None\<rparr>,
       t_managed_agent := Some \<lparr>ma_kind = kind,
         ma_phase = Pending (Some (instant_add_or now settle_delay)) (instant_add_or now timeout) False\<rparr>\<rparr>"

definition restore_managed_agent :: "str \<Rightarrow> agent \<Rightarrow> terminal_state \<Rightarrow> terminal_state" where
  "restore_managed_agent name kind s =
    (set_agent_name name s)
      \<lparr>t_agent_name_owner := Some \<lparr>no_agent_label = agent_label kind, no_session_ref = None\<rparr>,
       t_managed_agent := Some \<lparr>ma_kind = kind, ma_phase = Active\<rparr>\<rparr>"

definition managed_agent_launch_pending :: "terminal_state \<Rightarrow> bool" where
  "managed_agent_launch_pending s \<longleftrightarrow>
    (case t_managed_agent s of
       None \<Rightarrow> False
     | Some m \<Rightarrow> (case ma_phase m of Pending _ _ _ \<Rightarrow> True | PhaseBlocked \<Rightarrow> True | Active \<Rightarrow> False))"

definition managed_agent_interactive_ready :: "terminal_state \<Rightarrow> bool" where
  "managed_agent_interactive_ready s \<longleftrightarrow>
    (case t_managed_agent s of None \<Rightarrow> False | Some m \<Rightarrow> ma_phase m = Active)"

definition next_managed_agent_deadline :: "terminal_state \<Rightarrow> nat option" where
  "next_managed_agent_deadline s =
    (case t_managed_agent s of
       None \<Rightarrow> None
     | Some m \<Rightarrow>
         (case ma_phase m of
            Pending ready_after deadline _ \<Rightarrow>
              Some (min (case ready_after of None \<Rightarrow> deadline | Some t \<Rightarrow> t) deadline)
          | PhaseBlocked \<Rightarrow> None
          | Active \<Rightarrow> None))"

definition set_phase :: "agent \<Rightarrow> managed_phase \<Rightarrow> terminal_state \<Rightarrow> terminal_state" where
  "set_phase kind phase s = s\<lparr>t_managed_agent := Some \<lparr>ma_kind = kind, ma_phase = phase\<rparr>\<rparr>"

definition activate :: "agent \<Rightarrow> terminal_state \<Rightarrow> terminal_state" where
  "activate kind s = (set_phase kind Active s)\<lparr>t_managed_launch_session := None\<rparr>"

definition reconcile_managed_agent_at ::
  "nat \<Rightarrow> bool \<Rightarrow> terminal_state \<Rightarrow> bool \<times> terminal_state" where
  "reconcile_managed_agent_at now process_exited s =
    (case t_managed_agent s of
       None \<Rightarrow> (False, s)
     | Some managed \<Rightarrow>
         let kind = ma_kind managed; known = effective_known_agent s;
             pending = (case ma_phase managed of Pending _ _ _ \<Rightarrow> True | _ \<Rightarrow> False);
             observed =
               (case ma_phase managed of
                  Pending _ _ observed_expected \<Rightarrow> observed_expected \<or> known = Some kind
                | _ \<Rightarrow> False)
         in if process_exited \<or> (known \<noteq> None \<and> known \<noteq> Some kind)
               \<or> (pending \<and> observed \<and> known = None)
            then (True, clear_agent_name s)
            else
              (case ma_phase managed of
                 PhaseBlocked \<Rightarrow>
                   if known = Some kind \<and> t_state s = Idle then (True, activate kind s) else (False, s)
               | Active \<Rightarrow> (False, s)
               | Pending ready_after deadline previous_observed \<Rightarrow>
                   if known = Some kind \<and> t_state s = Blocked
                   then (True, set_phase kind PhaseBlocked s)
                   else if deadline \<le> now then (True, clear_agent_name s)
                   else
                     let ready = (case ready_after of None \<Rightarrow> True | Some t \<Rightarrow> t \<le> now)
                     in if ready \<and> known = Some kind \<and> t_state s = Idle then (True, activate kind s)
                        else if ready \<and> ready_after \<noteq> None
                        then (True, set_phase kind (Pending None deadline observed) s)
                        else if observed \<noteq> previous_observed
                        then (True, set_phase kind (Pending ready_after deadline observed) s)
                        else (False, s)))"

section \<open>Lemmas\<close>

lemma clear_agent_name_fields [simp]:
  "t_managed_agent (clear_agent_name s) = None" "t_agent_name (clear_agent_name s) = None"
  "t_agent_name_owner (clear_agent_name s) = None" "t_managed_launch_session (clear_agent_name s) = None"
  "t_hook_authority (clear_agent_name s) = t_hook_authority s"
  "t_detected_agent (clear_agent_name s) = t_detected_agent s"
  "t_recent_exit (clear_agent_name s) = t_recent_exit s"
  "t_state (clear_agent_name s) = t_state s"
  by (simp_all add: clear_agent_name_def Let_def)

lemma set_phase_fields [simp]:
  "t_managed_agent (set_phase k ph s) = Some \<lparr>ma_kind = k, ma_phase = ph\<rparr>"
  "t_managed_agent (activate k s) = Some \<lparr>ma_kind = k, ma_phase = Active\<rparr>"
  by (simp_all add: set_phase_def activate_def)

text \<open>How often a pending launch can still ask to be woken.\<close>

fun phase_wakeups :: "managed_phase \<Rightarrow> nat" where
  "phase_wakeups (Pending (Some _) _ _) = 2"
| "phase_wakeups (Pending None _ _) = 1"
| "phase_wakeups PhaseBlocked = 0"
| "phase_wakeups Active = 0"

definition wakeups :: "terminal_state \<Rightarrow> nat" where
  "wakeups s = (case t_managed_agent s of None \<Rightarrow> 0 | Some m \<Rightarrow> phase_wakeups (ma_phase m))"

lemma phase_wakeups_le: "phase_wakeups ph \<le> 2"
  by (cases ph rule: phase_wakeups.cases) simp_all

lemma phase_wakeups_Pending [simp]: "0 < phase_wakeups (Pending ready_after deadline observed)"
  by (cases ready_after) simp_all

lemma wakeups_0: "wakeups s = 0 \<longleftrightarrow> next_managed_agent_deadline s = None"
  by (auto simp: wakeups_def next_managed_agent_deadline_def split: option.splits managed_phase.splits)

lemma wakeups_le: "wakeups s \<le> 2"
  by (simp add: wakeups_def phase_wakeups_le split: option.splits)

lemma reconcile_wakeup:
  assumes "next_managed_agent_deadline s = Some d" "d \<le> now"
  shows "wakeups (snd (reconcile_managed_agent_at now exited s)) < wakeups s"
proof -
  obtain m ra dl obs where m: "t_managed_agent s = Some m" and ph: "ma_phase m = Pending ra dl obs"
    and d: "d = min (case ra of None \<Rightarrow> dl | Some t \<Rightarrow> t) dl"
    using assms(1) by (auto simp: next_managed_agent_deadline_def split: option.splits managed_phase.splits)
  show ?thesis
  proof (cases ra)
    case None
    then show ?thesis using assms(2) d
      by (simp add: reconcile_managed_agent_at_def m ph wakeups_def Let_def)
  next
    case (Some t)
    then have "dl \<le> now \<or> t \<le> now" using assms(2) d by (auto simp: min_def split: if_splits)
    then show ?thesis using Some
      by (auto simp: reconcile_managed_agent_at_def m ph wakeups_def Let_def)
  qed
qed

lemma reconcile_unchanged:
  "reconcile_managed_agent_at now exited s = (False, s') \<Longrightarrow> s' = s"
  by (auto simp: reconcile_managed_agent_at_def Let_def split: option.splits managed_phase.splits if_splits)

lemma reconcile_active:
  assumes "\<not> managed_agent_interactive_ready s"
    and "managed_agent_interactive_ready (snd (reconcile_managed_agent_at now exited s))"
  shows "\<not> exited \<and> t_state s = Idle
    \<and> (\<exists>m. t_managed_agent s = Some m \<and> effective_known_agent s = Some (ma_kind m)
           \<and> (ma_phase m = PhaseBlocked
              \<or> (\<exists>ra dl obs. ma_phase m = Pending ra dl obs \<and> now < dl
                   \<and> (case ra of None \<Rightarrow> True | Some t \<Rightarrow> t \<le> now))))"
  using assms
  by (auto simp: reconcile_managed_agent_at_def managed_agent_interactive_ready_def Let_def
      split: option.splits managed_phase.splits if_splits)

lemma reconcile_keeps_ready:
  assumes "managed_agent_interactive_ready s" "\<not> exited"
    and "effective_known_agent s = None \<or> effective_known_agent s = map_option ma_kind (t_managed_agent s)"
  shows "reconcile_managed_agent_at now exited s = (False, s)"
  using assms by (auto simp: reconcile_managed_agent_at_def managed_agent_interactive_ready_def Let_def
      split: option.splits)

section \<open>Properties\<close>

text \<open>
  C20: A launch settles. Whatever is detected between the two calls, once \<open>reconcile_managed_agent_at\<close> has been
  called twice at or after the deadline the terminal announced, no further deadline is announced: the agent is
  ready, blocked on its user, or the launch was given up.
\<close>

theorem managed_launch_settles:
  assumes "next_managed_agent_deadline s1 = Some d1" "d1 \<le> now1"
    and "t_managed_agent s2 = t_managed_agent (snd (reconcile_managed_agent_at now1 exited1 s1))"
    and "next_managed_agent_deadline s2 = Some d2" "d2 \<le> now2"
  shows "next_managed_agent_deadline (snd (reconcile_managed_agent_at now2 exited2 s2)) = None"
proof -
  have "wakeups s2 < 2"
    using reconcile_wakeup [OF assms(1,2), of exited1] wakeups_le [of s1] assms(3)
    by (simp add: wakeups_def)
  then show ?thesis
    using reconcile_wakeup [OF assms(4,5), of exited2] by (simp flip: wakeups_0)
qed

text \<open>
  A managed agent becomes ready for input only when its process has not exited, the agent shown
  in the terminal is the one that was started and it is idle, and, for a launch that was still
  pending, after the settling delay and before the deadline; a ready agent stays ready until another
  agent shows up or the process exits.
\<close>

theorem managed_agent_ready_when:
  assumes "managed_agent_interactive_ready s \<noteq>
      managed_agent_interactive_ready (snd (reconcile_managed_agent_at now exited s))"
  shows "if managed_agent_interactive_ready s
    then exited \<or> (\<exists>m g. t_managed_agent s = Some m \<and> effective_known_agent s = Some g \<and> g \<noteq> ma_kind m)
    else \<not> exited \<and> t_state s = Idle
      \<and> (\<exists>m. t_managed_agent s = Some m \<and> effective_known_agent s = Some (ma_kind m)
             \<and> (ma_phase m = PhaseBlocked
                \<or> (\<exists>ready_after deadline observed. ma_phase m = Pending ready_after deadline observed
                     \<and> now < deadline
                     \<and> (case ready_after of None \<Rightarrow> True | Some t \<Rightarrow> t \<le> now))))"
proof (cases "managed_agent_interactive_ready s")
  case True
  then obtain m where m: "t_managed_agent s = Some m"
    by (auto simp: managed_agent_interactive_ready_def split: option.splits)
  have "exited \<or> effective_known_agent s \<noteq> None \<and> effective_known_agent s \<noteq> Some (ma_kind m)"
  proof (rule ccontr)
    assume "\<not> ?thesis"
    then have "reconcile_managed_agent_at now exited s = (False, s)"
      using reconcile_keeps_ready [OF True, of exited now] m by auto
    then show False using assms by simp
  qed
  then show ?thesis using True m by auto
next
  case False
  then show ?thesis using reconcile_active [OF False, of now exited] assms by simp
qed

section \<open>Witnesses\<close>

text \<open>A launch of Claude at time 100, ready after 10 and given up after 50.\<close>

definition demo_launch :: terminal_state where
  "demo_launch = begin_managed_agent (lit ''fix'') Claude 100 10 50 (terminal_new (lit ''t'') (lit ''/''))"

lemma demo_launch_managed:
  "t_managed_agent demo_launch = Some \<lparr>ma_kind = Claude, ma_phase = Pending (Some 110) 150 False\<rparr>"
  by (simp add: demo_launch_def begin_managed_agent_def instant_add_or_def instant_checked_add_def)

lemma demo_launch_known: "effective_known_agent demo_launch = None"
  by (simp add: demo_launch_def begin_managed_agent_def set_agent_name_def terminal_new_def
      effective_known_agent_def effective_agent_label_def effective_authority_def)

lemma demo_launch_reconcile:
  "snd (reconcile_managed_agent_at 110 False demo_launch) = set_phase Claude (Pending None 150 False) demo_launch"
  by (simp add: reconcile_managed_agent_at_def demo_launch_managed demo_launch_known Let_def)

lemma managed_launch_settles_witness:
  "next_managed_agent_deadline (snd (reconcile_managed_agent_at 150 False
      (snd (reconcile_managed_agent_at 110 False demo_launch)))) = None"
  by (rule managed_launch_settles [where ?s1.0 = demo_launch and ?d1.0 = 110 and ?now1.0 = 110
        and ?exited1.0 = False and ?d2.0 = 150])
    (simp_all add: demo_launch_reconcile next_managed_agent_deadline_def demo_launch_managed)

definition demo_idle :: terminal_state where
  "demo_idle = demo_launch\<lparr>t_detected_agent := Some Claude, t_state := Idle\<rparr>"

lemma demo_idle_known: "effective_known_agent demo_idle = Some Claude"
  using demo_launch_known parse_label [of Claude]
  by (simp add: demo_idle_def demo_launch_def begin_managed_agent_def set_agent_name_def
      terminal_new_def effective_known_agent_def effective_agent_label_def effective_authority_def)

lemma demo_idle_ready:
  "\<not> managed_agent_interactive_ready demo_idle"
  "managed_agent_interactive_ready (snd (reconcile_managed_agent_at 120 False demo_idle))"
proof -
  have m: "t_managed_agent demo_idle = Some \<lparr>ma_kind = Claude, ma_phase = Pending (Some 110) 150 False\<rparr>"
    by (simp add: demo_idle_def demo_launch_managed)
  have st: "t_state demo_idle = Idle" by (simp add: demo_idle_def)
  show "\<not> managed_agent_interactive_ready demo_idle"
    by (simp add: managed_agent_interactive_ready_def m)
  show "managed_agent_interactive_ready (snd (reconcile_managed_agent_at 120 False demo_idle))"
    by (simp add: reconcile_managed_agent_at_def m st demo_idle_known Let_def
        managed_agent_interactive_ready_def)
qed

lemma managed_agent_ready_when_witness:
  "t_state demo_idle = Idle \<and> effective_known_agent demo_idle = Some Claude"
  using managed_agent_ready_when [of demo_idle 120 False] demo_idle_ready demo_idle_known by simp

end
