(* ===== verification/AgentMetadata.thy ===== *)
theory AgentMetadata
  imports TerminalState
begin

text \<open>
  Metadata attached to a terminal from outside: the tokens of \<open>metadata_tokens.rs\<close>, and the reports
  of \<open>terminal/metadata.rs\<close> that set the title, the display name and the state labels shown for an
  agent, each for a limited time when the report says so.
\<close>

section \<open>Tokens\<close>

record metadata_token =
  mt_value :: str
  mt_expires_at :: "nat option"

type_synonym metadata_tokens = "metadata_token hash_map"

definition MAX_SEQUENCE_SOURCES :: nat where
  "MAX_SEQUENCE_SOURCES = 32"

definition sequence_is_fresh :: "u64 hash_map \<Rightarrow> str \<Rightarrow> u64 option \<Rightarrow> bool" where
  "sequence_is_fresh sequences source sequence_number =
    (case sequence_number of
       None \<Rightarrow> True
     | Some n \<Rightarrow> (case map_of sequences source of None \<Rightarrow> True | Some prev \<Rightarrow> prev < n))"

definition accept_sequence ::
  "u64 hash_map \<Rightarrow> str \<Rightarrow> u64 option \<Rightarrow> (unit + bool) \<times> u64 hash_map" where
  "accept_sequence sequences source sequence_number =
    (case sequence_number of
       None \<Rightarrow> (Inr True, sequences)
     | Some n \<Rightarrow>
         if \<not> sequence_is_fresh sequences source (Some n) then (Inr False, sequences)
         else if \<not> hm_contains source sequences \<and> MAX_SEQUENCE_SOURCES \<le> length sequences
         then (Inl (), sequences)
         else (Inr True, hm_insert source n sequences))"

definition patch_token ::
  "nat option \<Rightarrow> str \<times> str option \<Rightarrow> bool \<times> metadata_tokens \<Rightarrow> bool \<times> metadata_tokens" where
  "patch_token expires_at = (\<lambda>(key, v) (changed, entries).
    (case v of
       Some v \<Rightarrow>
         let token = \<lparr>mt_value = v, mt_expires_at = expires_at\<rparr>
         in if map_of entries key \<noteq> Some token then (True, hm_insert key token entries)
            else (changed, entries)
     | None \<Rightarrow> (changed \<or> hm_contains key entries, hm_remove key entries)))"

definition tokens_patch ::
  "hash_order \<Rightarrow> str option hash_map \<Rightarrow> nat option \<Rightarrow> nat \<Rightarrow> metadata_tokens
   \<Rightarrow> bool \<times> metadata_tokens" where
  "tokens_patch iter patch ttl now entries =
    fold (patch_token (Option.bind ttl (instant_checked_add now))) (hm_entries iter patch)
      (False, entries)"

definition key_count_after_patch :: "hash_order \<Rightarrow> str option hash_map \<Rightarrow> metadata_tokens \<Rightarrow> nat" where
  "key_count_after_patch iter patch entries =
    length (fold (\<lambda>(key, v) keys. if v \<noteq> None then List.insert key keys else removeAll key keys)
      (hm_entries iter patch) (remdups (map fst entries)))"

definition tokens_values :: "metadata_tokens \<Rightarrow> str hash_map" where
  "tokens_values entries = map (\<lambda>(key, token). (key, mt_value token)) entries"

definition min_opt :: "nat list \<Rightarrow> nat option" where
  "min_opt ts = (case ts of [] \<Rightarrow> None | _ \<Rightarrow> Some (Min (set ts)))"

lemma min_opt_SomeD: "min_opt ts = Some t \<Longrightarrow> t \<in> set ts"
  using Min_in [of "set ts"] by (cases ts) (auto simp del: Min_in simp: min_opt_def)

definition tokens_next_expiry :: "metadata_tokens \<Rightarrow> nat option" where
  "tokens_next_expiry entries = min_opt (List.map_filter (\<lambda>(_, token). mt_expires_at token) entries)"

definition tokens_expire_at :: "nat \<Rightarrow> metadata_tokens \<Rightarrow> bool \<times> metadata_tokens" where
  "tokens_expire_at now entries =
    (let kept = hm_retain (\<lambda>_ token. case mt_expires_at token of None \<Rightarrow> True | Some d \<Rightarrow> now < d) entries
     in (length kept \<noteq> length entries, kept))"

section \<open>Which reports are accepted\<close>

definition official_for :: "str \<Rightarrow> str option \<Rightarrow> agent \<Rightarrow> bool" where
  "official_for source applies_to g \<longleftrightarrow>
     is_official_agent_source source (agent_label g)
     \<or> (case applies_to of None \<Rightarrow> False | Some s \<Rightarrow> is_official_agent_source s (agent_label g))"

definition metadata_report_agent :: "str \<Rightarrow> str option \<Rightarrow> str option \<Rightarrow> agent option" where
  "metadata_report_agent source label applies_to =
    (case Option.bind label parse_agent_label of
       Some g \<Rightarrow> Some g
     | None \<Rightarrow> find (official_for source applies_to) all_agents)"

definition metadata_report_blocked_by_process_exit ::
  "str \<Rightarrow> str option \<Rightarrow> str option \<Rightarrow> terminal_state \<Rightarrow> bool" where
  "metadata_report_blocked_by_process_exit source label applies_to s \<longleftrightarrow>
    (case t_recent_exit s of
       None \<Rightarrow> False
     | Some e \<Rightarrow> Option.bind label parse_agent_label = Some (pe_agent e)
                \<or> official_for source applies_to (pe_agent e))"

definition accept_metadata_report ::
  "str \<Rightarrow> u64 option \<Rightarrow> bool \<Rightarrow> agent option \<Rightarrow> terminal_state \<Rightarrow> (unit + bool) \<times> terminal_state" where
  "accept_metadata_report source sequence_number includes_tokens g s =
    (case sequence_number of
       None \<Rightarrow> (Inr True, s)
     | Some n \<Rightarrow>
         if \<not> sequence_is_fresh (t_metadata_sequences s) source (Some n) then (Inr False, s)
         else if includes_tokens \<and> source \<notin> set (t_token_sources s)
                 \<and> MAX_SEQUENCE_SOURCES \<le> length (t_token_sources s)
         then (Inl (), s)
         else (Inr True,
           s\<lparr>t_metadata_sequences := hm_insert source n (t_metadata_sequences s),
             t_metadata_agents :=
               (case g of None \<Rightarrow> t_metadata_agents s
                | Some g \<Rightarrow> hm_insert source g (t_metadata_agents s)),
             t_token_sources :=
               (if includes_tokens then List.insert source (t_token_sources s)
                else t_token_sources s)\<rparr>))"

section \<open>Reports\<close>

record metadata_report =
  mr_source :: str
  mr_agent_label :: "str option"
  mr_applies_to_source :: "str option"
  mr_title :: "str option"
  mr_display_agent :: "str option"
  mr_state_labels :: "str hash_map"
  mr_clear_title :: bool
  mr_clear_display_agent :: bool
  mr_clear_state_labels :: bool
  mr_ttl :: "nat option"
  mr_seq :: "u64 option"

text \<open>The entry a report without a \<open>clear_\<close> flag stores, and the blank one a clearing report starts from.\<close>

definition report_entry :: "nat \<Rightarrow> metadata_report \<Rightarrow> agent_metadata" where
  "report_entry now r =
    \<lparr>am_source = mr_source r, am_agent_label = mr_agent_label r,
     am_applies_to_source = mr_applies_to_source r, am_title = mr_title r,
     am_display_agent = mr_display_agent r, am_state_labels = mr_state_labels r,
     am_reported_at = now, am_title_reported_at = map_option (\<lambda>_. now) (mr_title r),
     am_display_agent_reported_at = map_option (\<lambda>_. now) (mr_display_agent r),
     am_state_label_reported_at = hm_map (\<lambda>_ _. now) (mr_state_labels r), am_ttl = mr_ttl r,
     am_expiry_event_pending = False\<rparr>"

definition blank_entry :: "nat \<Rightarrow> metadata_report \<Rightarrow> agent_metadata" where
  "blank_entry now r =
    \<lparr>am_source = mr_source r, am_agent_label = mr_agent_label r,
     am_applies_to_source = mr_applies_to_source r, am_title = None, am_display_agent = None,
     am_state_labels = [], am_reported_at = now, am_title_reported_at = None,
     am_display_agent_reported_at = None, am_state_label_reported_at = [], am_ttl = mr_ttl r,
     am_expiry_event_pending = False\<rparr>"

definition clear_fields :: "metadata_report \<Rightarrow> agent_metadata \<Rightarrow> agent_metadata" where
  "clear_fields r m =
    (let m1 = (if mr_clear_title r then m\<lparr>am_title := None, am_title_reported_at := None\<rparr> else m);
         m2 = (if mr_clear_display_agent r
               then m1\<lparr>am_display_agent := None, am_display_agent_reported_at := None\<rparr> else m1)
     in if mr_clear_state_labels r
        then m2\<lparr>am_state_labels := [], am_state_label_reported_at := []\<rparr> else m2)"

definition set_fields :: "hash_order \<Rightarrow> nat \<Rightarrow> metadata_report \<Rightarrow> agent_metadata \<Rightarrow> agent_metadata" where
  "set_fields iter now r m =
    (let m1 = (if mr_agent_label r \<noteq> None then m\<lparr>am_agent_label := mr_agent_label r\<rparr> else m);
         m2 = (if mr_applies_to_source r \<noteq> None
               then m1\<lparr>am_applies_to_source := mr_applies_to_source r\<rparr> else m1);
         m3 = (if mr_title r \<noteq> None
               then m2\<lparr>am_title := mr_title r, am_title_reported_at := Some now\<rparr> else m2);
         m4 = (if mr_display_agent r \<noteq> None
               then m3\<lparr>am_display_agent := mr_display_agent r, am_display_agent_reported_at := Some now\<rparr>
               else m3)
     in fold (\<lambda>(st, label) m. m\<lparr>am_state_labels := hm_insert st label (am_state_labels m),
                am_state_label_reported_at := hm_insert st now (am_state_label_reported_at m)\<rparr>)
          (hm_entries iter (mr_state_labels r)) m4)"

definition has_set_fields :: "metadata_report \<Rightarrow> bool" where
  "has_set_fields r \<longleftrightarrow> mr_title r \<noteq> None \<or> mr_display_agent r \<noteq> None \<or> mr_state_labels r \<noteq> []"

definition clearing_entry :: "hash_order \<Rightarrow> nat \<Rightarrow> metadata_report \<Rightarrow> agent_metadata \<Rightarrow> agent_metadata" where
  "clearing_entry iter now r m =
    (let m' = set_fields iter now r (clear_fields r m)
     in if has_set_fields r \<or> mr_ttl r \<noteq> None
        then m'\<lparr>am_reported_at := now, am_ttl := mr_ttl r, am_expiry_event_pending := False\<rparr>
        else m')"

definition is_clearing :: "metadata_report \<Rightarrow> bool" where
  "is_clearing r \<longleftrightarrow> mr_clear_title r \<or> mr_clear_display_agent r \<or> mr_clear_state_labels r"

definition store_report :: "hash_order \<Rightarrow> nat \<Rightarrow> metadata_report \<Rightarrow> terminal_state \<Rightarrow> terminal_state" where
  "store_report iter now r s =
    s\<lparr>t_agent_metadata := hm_insert (mr_source r)
        (if is_clearing r
         then clearing_entry iter now r
                (case map_of (t_agent_metadata s) (mr_source r) of
                   None \<Rightarrow> blank_entry now r | Some m \<Rightarrow> m)
         else report_entry now r) (t_agent_metadata s)\<rparr>"

definition drop_expired :: "nat \<Rightarrow> str \<Rightarrow> terminal_state \<Rightarrow> terminal_state" where
  "drop_expired now source s =
    (case map_of (t_agent_metadata s) source of
       None \<Rightarrow> s
     | Some m \<Rightarrow>
         if agent_metadata_is_expired m now
         then s\<lparr>t_agent_metadata := hm_remove source (t_agent_metadata s)\<rparr> else s)"

definition arm_expiry :: "metadata_report \<Rightarrow> terminal_state \<Rightarrow> terminal_state" where
  "arm_expiry r s =
    (case map_of (t_agent_metadata s) (mr_source r) of
       None \<Rightarrow> s
     | Some m \<Rightarrow>
         if mr_ttl r \<noteq> None \<and> agent_metadata_is_visible_ignoring_ttl m s
         then s\<lparr>t_agent_metadata := hm_modify (mr_source r)
                  (\<lambda>m. m\<lparr>am_expiry_event_pending := True\<rparr>) (t_agent_metadata s)\<rparr>
         else s)"

definition set_agent_metadata ::
  "hash_order \<Rightarrow> nat \<Rightarrow> metadata_report \<Rightarrow> terminal_state \<Rightarrow> state_mutation option \<times> terminal_state" where
  "set_agent_metadata iter now r s =
    (if metadata_report_blocked_by_process_exit (mr_source r) (mr_agent_label r) (mr_applies_to_source r) s
     then (None, s)
     else
       case accept_metadata_report (mr_source r) (mr_seq r) False
              (metadata_report_agent (mr_source r) (mr_agent_label r) (mr_applies_to_source r)) s of
         (Inr True, s1) \<Rightarrow>
           let s2 = drop_expired now (mr_source r) s1;
               prev = before_op_of iter now s2;
               (change, s3) =
                 recompute_effective_state iter prev now (arm_expiry r (store_report iter now r s2));
               s4 = (if change \<noteq> None then clear_expiry_pending_for_hidden_metadata s3 else s3)
           in (Some \<lparr>tm_change = change, tm_session_ref_changed = False, tm_agent_released = False\<rparr>, s4)
       | (_, s1) \<Rightarrow> (None, s1))"

section \<open>Expiry\<close>

definition next_agent_metadata_expiry :: "hash_order \<Rightarrow> nat \<Rightarrow> terminal_state \<Rightarrow> nat option" where
  "next_agent_metadata_expiry iter now s =
    (let ms = filter (\<lambda>m. agent_metadata_matches_guards m s) (hm_values iter (t_agent_metadata s))
     in min_opt
          (filter (\<lambda>d. now < d
                       \<or> list_ex (\<lambda>m. am_expiry_event_pending m \<and> agent_metadata_expiry m = Some d) ms)
            (List.map_filter agent_metadata_expiry ms)))"

definition expire_agent_metadata_at ::
  "hash_order \<Rightarrow> nat \<Rightarrow> nat \<Rightarrow> terminal_state \<Rightarrow> state_mutation option \<times> terminal_state" where
  "expire_agent_metadata_at iter scheduled_deadline now s =
    (let due = filter (\<lambda>(_, d). d \<le> now)
           (List.map_filter (\<lambda>(k, m). map_option (Pair k) (agent_metadata_expiry m))
             (hm_entries iter (t_agent_metadata s)));
         expired = map fst (filter (\<lambda>(_, d). scheduled_deadline \<le> d) due);
         stale = map fst (filter (\<lambda>(_, d). \<not> scheduled_deadline \<le> d) due);
         s1 = s\<lparr>t_agent_metadata := fold hm_remove stale (t_agent_metadata s)\<rparr>
     in if expired = [] then (None, s1)
        else
          let prev = (before_op_of iter now s1)
                \<lparr>bo_presentation := effective_presentation_with_ttl iter now False s1\<rparr>;
              (change, s2) = recompute_effective_state iter prev now
                (s1\<lparr>t_agent_metadata := fold hm_remove expired (t_agent_metadata s1)\<rparr>)
          in (Some \<lparr>tm_change = change, tm_session_ref_changed = False, tm_agent_released = False\<rparr>, s2))"

end
