(* ===== verification/AgentReports.thy ===== *)
theory AgentReports
  imports ManagedAgent AgentMetadata
begin

text \<open>
  How reports about the agent of a terminal are taken in (\<open>terminal/state.rs\<close>): the hooks of an
  agent report its state and its session, the detection reports the process in the foreground and what its
  screen shows. A report is numbered per source and attributed to a session; reports of a session
  that is over, of a process that has exited, or out of order, are kept out. \<open>now\<close> is the instant an
  operation works with, \<open>clock\<close> the one it reads later for a suppression.
\<close>

section \<open>Suppressed and stale sessions\<close>

definition suppress_with_session_ref ::
  "str \<Rightarrow> str \<Rightarrow> agent_session_ref option \<Rightarrow> suppression_reason \<Rightarrow> nat \<Rightarrow> terminal_state \<Rightarrow> terminal_state" where
  "suppress_with_session_ref source label r reason observed_at s =
    s\<lparr>t_suppressed := hm_insert source
        \<lparr>sr_agent_label = label, sr_session_ref = r, sr_observed_at = observed_at, sr_reason = reason,
         sr_replacement_session_ref = None, sr_pending = None\<rparr> (t_suppressed s)\<rparr>"

definition suppress_current_authority :: "suppression_reason \<Rightarrow> nat \<Rightarrow> terminal_state \<Rightarrow> terminal_state" where
  "suppress_current_authority reason clock s =
    (case t_hook_authority s of
       None \<Rightarrow> s
     | Some a \<Rightarrow>
         if full_lifecycle_hook_authority (ha_source a) (ha_agent_label a)
         then suppress_with_session_ref (ha_source a) (ha_agent_label a) (ha_session_ref a) reason clock s
         else s)"

definition suppress_report ::
  "str \<Rightarrow> str \<Rightarrow> suppression_reason \<Rightarrow> nat \<Rightarrow> terminal_state \<Rightarrow> terminal_state" where
  "suppress_report source label reason clock s =
    (if full_lifecycle_hook_authority source label
     then suppress_with_session_ref source label (Option.bind (t_hook_authority s) ha_session_ref)
            reason clock s
     else s)"

definition stale_sessions_of :: "str \<Rightarrow> terminal_state \<Rightarrow> stale_session list" where
  "stale_sessions_of source s = (case map_of (t_stale_sessions s) source of None \<Rightarrow> [] | Some l \<Rightarrow> l)"

definition remember_stale_session ::
  "str \<Rightarrow> str \<Rightarrow> agent_session_ref \<Rightarrow> terminal_state \<Rightarrow> terminal_state" where
  "remember_stale_session source label r s =
    (let stale = \<lparr>ss_agent_label = label, ss_session_ref = r\<rparr>; known = stale_sessions_of source s
     in s\<lparr>t_stale_sessions := hm_insert source (if stale \<in> set known then known else known @ [stale])
            (t_stale_sessions s)\<rparr>)"

definition forget_stale_session ::
  "str \<Rightarrow> str \<Rightarrow> agent_session_ref \<Rightarrow> terminal_state \<Rightarrow> terminal_state" where
  "forget_stale_session source label r s =
    (case map_of (t_stale_sessions s) source of
       None \<Rightarrow> s
     | Some known \<Rightarrow>
         let kept = filter (\<lambda>x. ss_agent_label x \<noteq> label \<or> ss_session_ref x \<noteq> r) known
         in s\<lparr>t_stale_sessions :=
               (if kept = [] then hm_remove source (t_stale_sessions s)
                else hm_insert source kept (t_stale_sessions s))\<rparr>)"

definition matches_stale_session ::
  "str \<Rightarrow> str \<Rightarrow> agent_session_ref option \<Rightarrow> terminal_state \<Rightarrow> bool" where
  "matches_stale_session source label r s \<longleftrightarrow>
     full_lifecycle_hook_authority source label
     \<and> (case r of
          None \<Rightarrow> False
        | Some r \<Rightarrow> list_ex (\<lambda>x. ss_agent_label x = label \<and> r = ss_session_ref x)
                      (stale_sessions_of source s))"

definition fresh_session_after_stale ::
  "str \<Rightarrow> str \<Rightarrow> agent_session_ref option \<Rightarrow> terminal_state \<Rightarrow> bool" where
  "fresh_session_after_stale source label r s \<longleftrightarrow>
     full_lifecycle_hook_authority source label
     \<and> list_ex (\<lambda>x. ss_agent_label x = label) (stale_sessions_of source s)
     \<and> (case r of
          None \<Rightarrow> False
        | Some r \<Rightarrow> list_all (\<lambda>x. ss_agent_label x \<noteq> label \<or> r \<noteq> ss_session_ref x)
                      (stale_sessions_of source s))"

section \<open>Owners of the session\<close>

definition process_present :: "str \<Rightarrow> terminal_state \<Rightarrow> bool" where
  "process_present label s \<longleftrightarrow>
    (case parse_agent_label label of
       None \<Rightarrow> False
     | Some g \<Rightarrow> t_detected_agent s = Some g \<and> t_recent_exit s = None)"

definition persisted_session_matches :: "str \<Rightarrow> str \<Rightarrow> terminal_state \<Rightarrow> bool" where
  "persisted_session_matches source label s \<longleftrightarrow>
    (case t_persisted_agent_session s of
       None \<Rightarrow> False | Some p \<Rightarrow> ps_source p = source \<and> ps_agent p = label)"

definition persisted_session_ref :: "str \<Rightarrow> str \<Rightarrow> terminal_state \<Rightarrow> agent_session_ref option" where
  "persisted_session_ref source label s =
    (case t_persisted_agent_session s of
       None \<Rightarrow> None
     | Some p \<Rightarrow> if ps_source p = source \<and> ps_agent p = label then Some (ps_session_ref p) else None)"

definition authority_session_ref :: "str \<Rightarrow> str \<Rightarrow> terminal_state \<Rightarrow> agent_session_ref option" where
  "authority_session_ref source label s =
    (case t_hook_authority s of
       None \<Rightarrow> None
     | Some a \<Rightarrow> if ha_source a = source \<and> ha_agent_label a = label then ha_session_ref a else None)"

definition anchored_session_ref :: "str \<Rightarrow> str \<Rightarrow> terminal_state \<Rightarrow> agent_session_ref option" where
  "anchored_session_ref source label s =
    (case authority_session_ref source label s of
       Some r \<Rightarrow> Some r
     | None \<Rightarrow> persisted_session_ref source label s)"

text \<open>The identity that is persisted; the code has it as a tuple of source, label, kind and value.\<close>

definition current_session_identity :: "terminal_state \<Rightarrow> persisted_agent_session option" where
  "current_session_identity s =
    (case t_hook_authority s of
       None \<Rightarrow> t_persisted_agent_session s
     | Some a \<Rightarrow>
         (case ha_session_ref a of
            None \<Rightarrow> t_persisted_agent_session s
          | Some r \<Rightarrow> Some \<lparr>ps_source = ha_source a, ps_agent = ha_agent_label a, ps_session_ref = r\<rparr>))"

definition current_session_owner_conflicts :: "str \<Rightarrow> str \<Rightarrow> terminal_state \<Rightarrow> bool" where
  "current_session_owner_conflicts source label s \<longleftrightarrow>
    (case current_session_identity s of
       None \<Rightarrow> False | Some p \<Rightarrow> ps_source p \<noteq> source \<or> ps_agent p \<noteq> label)"

definition known_label_conflicts_with_detected_agent :: "str \<Rightarrow> terminal_state \<Rightarrow> bool" where
  "known_label_conflicts_with_detected_agent label s \<longleftrightarrow>
    (case (t_detected_agent s, parse_agent_label label) of
       (Some d, Some g) \<Rightarrow> g \<noteq> d
     | _ \<Rightarrow> False)"

definition replacements :: "(string \<times> string \<times> string list) list" where
  "replacements =
    [(''herdr:claude'', ''claude'', [''clear'', ''resume'', ''compact'']),
     (''herdr:codex'', ''codex'', [''startup'', ''clear'', ''resume'', ''compact'']),
     (''herdr:mastracode'', ''mastracode'', [''startup'']),
     (''herdr:hermes'', ''hermes'', [''startup'', ''new'', ''resume'']),
     (''herdr:opencode'', ''opencode'', [''select'']),
     (''herdr:pi'', ''pi'', [''new'', ''resume'', ''fork'']),
     (''herdr:grok'', ''grok'', [''new'']),
     (''herdr:omp'', ''omp'', [''startup'', ''new'', ''resume'', ''fork'']),
     (''herdr:qwen'', ''qwen'', [''startup'', ''clear'', ''resume'', ''compact'', ''branch''])]"

definition session_report_allows_replacement :: "str \<Rightarrow> str \<Rightarrow> str option \<Rightarrow> bool" where
  "session_report_allows_replacement source label start_source \<longleftrightarrow>
    (case start_source of
       None \<Rightarrow> source = lit ''herdr:antigravity_cli'' \<and> label = lit ''agy''
     | Some st \<Rightarrow>
         list_ex (\<lambda>(s, l, starts). lit s = source \<and> lit l = label \<and> list_ex (\<lambda>x. lit x = st) starts)
           replacements)"

definition session_start_source_is_recognized :: "str option \<Rightarrow> bool" where
  "session_start_source_is_recognized start_source \<longleftrightarrow>
    (case start_source of
       None \<Rightarrow> False
     | Some st \<Rightarrow> list_ex (\<lambda>x. lit x = st)
         [''startup'', ''clear'', ''resume'', ''compact'', ''new'', ''fork'', ''select''])"

definition is_unsequenced_opencode_selection :: "str \<Rightarrow> str \<Rightarrow> str option \<Rightarrow> u64 option \<Rightarrow> bool" where
  "is_unsequenced_opencode_selection source label start_source n \<longleftrightarrow>
     source = lit ''herdr:opencode'' \<and> label = lit ''opencode'' \<and> start_source = Some (lit ''select'')
     \<and> n = None"

definition conflicting_same_owner_session_ref ::
  "str \<Rightarrow> str \<Rightarrow> agent_session_ref \<Rightarrow> str option \<Rightarrow> terminal_state \<Rightarrow> agent_session_ref option" where
  "conflicting_same_owner_session_ref source label r start_source s =
    (case current_session_identity s of
       None \<Rightarrow> None
     | Some p \<Rightarrow>
         if ps_source p = source \<and> ps_agent p = label \<and> ref_kind (ps_session_ref p) = SessionId
            \<and> ref_kind r = SessionId \<and> ref_value (ps_session_ref p) \<noteq> ref_value r
            \<and> \<not> session_report_allows_replacement source label start_source
         then Some (ps_session_ref p) else None)"

definition lifecycle_report_replaces_persisted_session ::
  "str \<Rightarrow> str \<Rightarrow> agent_session_ref \<Rightarrow> terminal_state \<Rightarrow> bool" where
  "lifecycle_report_replaces_persisted_session source label r s \<longleftrightarrow>
     t_hook_authority s = None \<and> source = lit ''herdr:mastracode'' \<and> label = lit ''mastracode''
     \<and> (case t_persisted_agent_session s of
          None \<Rightarrow> False
        | Some p \<Rightarrow> ps_source p = source \<and> ps_agent p = label
                   \<and> ref_kind (ps_session_ref p) = SessionId \<and> ref_kind r = SessionId
                   \<and> ref_value (ps_session_ref p) \<noteq> ref_value r)"

definition live_authority_conflicts_with_session ::
  "str \<Rightarrow> str \<Rightarrow> agent_session_ref option \<Rightarrow> terminal_state \<Rightarrow> bool" where
  "live_authority_conflicts_with_session source label r s \<longleftrightarrow>
    (case t_hook_authority s of
       None \<Rightarrow> False
     | Some a \<Rightarrow>
         full_lifecycle_hook_authority (ha_source a) (ha_agent_label a)
         \<and> ha_source a = source \<and> ha_agent_label a = label \<and> sessions_differ (ha_session_ref a) r)"

definition same_owner_authority_session_ref ::
  "str \<Rightarrow> str \<Rightarrow> agent_session_ref \<Rightarrow> terminal_state \<Rightarrow> agent_session_ref option" where
  "same_owner_authority_session_ref source label r s =
    (case t_hook_authority s of
       None \<Rightarrow> None
     | Some a \<Rightarrow>
         if \<not> full_lifecycle_hook_authority (ha_source a) (ha_agent_label a)
            \<or> ha_source a \<noteq> source \<or> ha_agent_label a \<noteq> label then None
         else (case ha_session_ref a of None \<Rightarrow> None | Some c \<Rightarrow> if c \<noteq> r then Some c else None))"

definition foreground_agent_confirms_session_owner ::
  "str \<Rightarrow> str \<Rightarrow> agent_session_ref \<Rightarrow> terminal_state \<Rightarrow> bool" where
  "foreground_agent_confirms_session_owner source label r s \<longleftrightarrow>
    (case t_detected_agent s of
       None \<Rightarrow> False
     | Some d \<Rightarrow> parse_agent_label label = Some d \<and> plan source label r \<noteq> None)"

definition foreground_confirms_different_owner ::
  "str \<Rightarrow> str \<Rightarrow> agent_session_ref \<Rightarrow> str option \<Rightarrow> terminal_state \<Rightarrow> bool" where
  "foreground_confirms_different_owner source label r start_source s \<longleftrightarrow>
     \<not> (source = lit ''herdr:grok'' \<and> label = lit ''grok'')
     \<and> session_start_source_is_recognized start_source
     \<and> foreground_agent_confirms_session_owner source label r s"

definition foreground_confirms_authority_takeover ::
  "str \<Rightarrow> str \<Rightarrow> agent_session_ref option \<Rightarrow> terminal_state \<Rightarrow> bool" where
  "foreground_confirms_authority_takeover source label r s \<longleftrightarrow>
    (case r of None \<Rightarrow> False | Some r \<Rightarrow> foreground_agent_confirms_session_owner source label r s)"

section \<open>Sequence numbers\<close>

definition accept_hook_report :: "str \<Rightarrow> u64 option \<Rightarrow> terminal_state \<Rightarrow> bool \<times> terminal_state" where
  "accept_hook_report source n s =
    (case n of
       None \<Rightarrow> (\<not> hm_contains source (t_hook_report_sequences s), s)
     | Some n \<Rightarrow>
         (case map_of (t_hook_report_sequences s) source of
            Some prev \<Rightarrow>
              if n \<le> prev then (False, s)
              else (True, s\<lparr>t_hook_report_sequences := hm_insert source n (t_hook_report_sequences s)\<rparr>)
          | None \<Rightarrow>
              (True, s\<lparr>t_hook_report_sequences := hm_insert source n (t_hook_report_sequences s)\<rparr>)))"

definition not_after_last :: "str \<Rightarrow> u64 \<Rightarrow> terminal_state \<Rightarrow> bool" where
  "not_after_last source n s \<longleftrightarrow>
    (case map_of (t_hook_report_sequences s) source of None \<Rightarrow> False | Some prev \<Rightarrow> n \<le> prev)"

definition forget_sequence :: "str \<Rightarrow> terminal_state \<Rightarrow> terminal_state" where
  "forget_sequence source s = s\<lparr>t_hook_report_sequences := hm_remove source (t_hook_report_sequences s)\<rparr>"

end
