(* ===== verification/HookReports.thy ===== *)
theory HookReports
  imports AgentReports
begin

text \<open>
  The operations by which an agent's hooks change a terminal (\<open>terminal/state.rs\<close>): a report of the
  agent's state (\<open>set_hook_authority_at\<close>), of its session (\<open>set_agent_session_ref_for_session_start\<close>),
  the clearing of a report and the release of an agent; and the validation of a session that was
  reported before its process was seen.
\<close>

section \<open>Routing of reports\<close>

text \<open>A report from a process that has not been seen yet is parked with the suppression of its source.\<close>

definition park_report ::
  "str \<Rightarrow> str \<Rightarrow> agent_state \<Rightarrow> str option \<Rightarrow> agent_session_ref \<Rightarrow> u64 \<Rightarrow> nat \<Rightarrow> terminal_state
   \<Rightarrow> terminal_state" where
  "park_report source label st message r n reported_at s =
    (let entry =
       (case map_of (t_suppressed s) source of
          Some entry \<Rightarrow> entry
        | None \<Rightarrow>
            \<lparr>sr_agent_label = label, sr_session_ref = persisted_session_ref source label s,
             sr_observed_at = reported_at, sr_reason = ProcessExit,
             sr_replacement_session_ref = None, sr_pending = None\<rparr>);
         replace_pending = (case sr_pending entry of None \<Rightarrow> True | Some p \<Rightarrow> pr_seq p < n);
         pending = \<lparr>pr_authority =
             \<lparr>ha_source = source, ha_agent_label = label, ha_state = st, ha_message = message,
              ha_reported_at = reported_at, ha_session_ref = Some r\<rparr>, pr_seq = n\<rparr>
     in s\<lparr>t_suppressed := hm_insert source
           (if replace_pending then entry\<lparr>sr_pending := Some pending\<rparr> else entry) (t_suppressed s)\<rparr>)"

definition session_anchored ::
  "str \<Rightarrow> str \<Rightarrow> agent_session_ref option \<Rightarrow> terminal_state \<Rightarrow> bool" where
  "session_anchored source label r s \<longleftrightarrow>
    (case anchored_session_ref source label s of
       None \<Rightarrow> False | Some x \<Rightarrow> r = None \<or> r = Some x)"

definition opencode_cross_talk ::
  "str \<Rightarrow> str \<Rightarrow> agent_session_ref option \<Rightarrow> terminal_state \<Rightarrow> bool" where
  "opencode_cross_talk source label r s \<longleftrightarrow>
     source = lit ''herdr:opencode'' \<and> label = lit ''opencode'' \<and> process_present label s
     \<and> sessions_differ (anchored_session_ref source label s) r"

definition accept_or_park ::
  "str \<Rightarrow> str \<Rightarrow> agent_state \<Rightarrow> str option \<Rightarrow> agent_session_ref option \<Rightarrow> u64 option \<Rightarrow> nat
   \<Rightarrow> terminal_state \<Rightarrow> report_route \<times> terminal_state" where
  "accept_or_park source label st message r n reported_at s =
    (if process_present label s \<and> session_anchored source label r s
        \<and> \<not> hm_contains source (t_suppressed s)
     then (Accept (fresh_session_after_stale source label r s), s)
     else case (r, n) of
       (Some r, Some n) \<Rightarrow>
         if not_after_last source n s then (Ignore, s)
         else (Ignore, park_report source label st message r n reported_at s)
     | _ \<Rightarrow> (Ignore, s))"

definition route_full_lifecycle_hook_report ::
  "str \<Rightarrow> str \<Rightarrow> agent_state \<Rightarrow> str option \<Rightarrow> agent_session_ref option \<Rightarrow> u64 option \<Rightarrow> nat
   \<Rightarrow> terminal_state \<Rightarrow> report_route \<times> terminal_state" where
  "route_full_lifecycle_hook_report source label st message r n reported_at s =
    (if \<not> full_lifecycle_hook_authority source label then (Accept False, s)
     else if matches_stale_session source label r s then (Ignore, s)
     else if opencode_cross_talk source label r s then (Ignore, s)
     else case map_of (t_suppressed s) source of
       None \<Rightarrow> accept_or_park source label st message r n reported_at s
     | Some entry \<Rightarrow>
         if sr_agent_label entry \<noteq> label then (Ignore, s)
         else if sr_reason entry = HookClear
         then (if sessions_differ (sr_session_ref entry) r then (Accept True, s) else (Ignore, s))
         else accept_or_park source label st message r n reported_at s)"

section \<open>Reports of the state\<close>

text \<open>
  \<open>recompute\<close> in the form every operation ends with: \<open>previous_session\<close> is the identity before.
\<close>

definition mutation_of ::
  "hash_order \<Rightarrow> before_op \<Rightarrow> nat \<Rightarrow> bool \<Rightarrow> bool \<Rightarrow> terminal_state \<Rightarrow> state_mutation option \<times> terminal_state" where
  "mutation_of iter prev now session_changed released s =
    (case recompute_effective_state iter prev now s of
       (change, s') \<Rightarrow>
         (Some \<lparr>tm_change = change, tm_session_ref_changed = session_changed, tm_agent_released = released\<rparr>, s'))"

definition drop_suppression :: "str \<Rightarrow> terminal_state \<Rightarrow> terminal_state" where
  "drop_suppression source s =
    (case map_of (t_suppressed s) source of
       None \<Rightarrow> s
     | Some entry \<Rightarrow>
         let s' = s\<lparr>t_suppressed := hm_remove source (t_suppressed s)\<rparr>
         in case sr_session_ref entry of
              None \<Rightarrow> s'
            | Some r \<Rightarrow> remember_stale_session source (sr_agent_label entry) r s')"

definition kept_session_ref ::
  "str \<Rightarrow> str \<Rightarrow> agent_session_ref option \<Rightarrow> terminal_state \<Rightarrow> agent_session_ref option" where
  "kept_session_ref source label r s =
    map_option (\<lambda>x.
      if lifecycle_report_replaces_persisted_session source label x s then x
      else (case conflicting_same_owner_session_ref source label x None s of None \<Rightarrow> x | Some y \<Rightarrow> y)) r"

definition install_authority ::
  "hash_order \<Rightarrow> str \<Rightarrow> str \<Rightarrow> agent_state \<Rightarrow> str option \<Rightarrow> agent_session_ref option \<Rightarrow> bool \<Rightarrow> bool
   \<Rightarrow> nat \<Rightarrow> nat \<Rightarrow> terminal_state \<Rightarrow> state_mutation option \<times> terminal_state" where
  "install_authority iter source label st message r takeover reanchor now clock s =
    (let prev = before_op_of iter now s; previous_session = current_session_identity s;
         s1 = reconcile_agent_name_owner label r s;
         s2 = (if takeover then suppress_current_authority HookClear clock s1 else s1);
         s3 = (if r \<noteq> None \<or> reanchor then drop_suppression source s2 else s2);
         s4 = s3\<lparr>t_persisted_agent_session := None,
                 t_hook_authority := Some
                   \<lparr>ha_source = source, ha_agent_label = label, ha_state = st, ha_message = message,
                    ha_reported_at = now, ha_session_ref = r\<rparr>\<rparr>
     in mutation_of iter prev now (previous_session \<noteq> current_session_identity s4) False s4)"

definition set_hook_authority_at ::
  "hash_order \<Rightarrow> str \<Rightarrow> str \<Rightarrow> agent_state \<Rightarrow> str option \<Rightarrow> agent_session_ref option \<Rightarrow> u64 option
   \<Rightarrow> nat \<Rightarrow> nat \<Rightarrow> terminal_state \<Rightarrow> state_mutation option \<times> terminal_state" where
  "set_hook_authority_at iter source label st message r n now clock s =
    (if session_identity_only_integration source label then (None, s)
     else if \<not> full_lifecycle_hook_authority source label
             \<and> (case t_recent_exit s of
                  None \<Rightarrow> False | Some e \<Rightarrow> parse_agent_label label = Some (pe_agent e))
     then (None, s)
     else case route_full_lifecycle_hook_report source label st message r n now s of
       (Ignore, s1) \<Rightarrow> (None, s1)
     | (Accept reanchor, s1) \<Rightarrow>
         if known_label_conflicts_with_detected_agent label s1 then (None, s1)
         else
           let conflicts = current_session_owner_conflicts source label s1;
               takeover = conflicts \<and> foreground_confirms_authority_takeover source label r s1
           in if conflicts \<and> \<not> takeover then (None, s1)
              else
                let r' = kept_session_ref source label r s1
                in if live_authority_conflicts_with_session source label r' s1 then (None, s1)
                   else
                     let s2 = (if reanchor then forget_sequence source s1 else s1)
                     in case accept_hook_report source n s2 of
                          (False, s3) \<Rightarrow> (None, s3)
                        | (True, s3) \<Rightarrow>
                            install_authority iter source label st message r' takeover reanchor now clock s3)"

section \<open>Clearing and releasing\<close>

definition clear_hook_authority_with_mutation ::
  "hash_order \<Rightarrow> str option \<Rightarrow> u64 option \<Rightarrow> nat \<Rightarrow> nat \<Rightarrow> terminal_state
   \<Rightarrow> state_mutation option \<times> terminal_state" where
  "clear_hook_authority_with_mutation iter source n now clock s =
    (case t_hook_authority s of
       None \<Rightarrow> (None, s)
     | Some a \<Rightarrow>
         if source \<noteq> None \<and> source \<noteq> Some (ha_source a) then (None, s)
         else case accept_hook_report (case source of Some x \<Rightarrow> x | None \<Rightarrow> ha_source a) n s of
           (False, s1) \<Rightarrow> (None, s1)
         | (True, s1) \<Rightarrow>
             let prev = before_op_of iter now s1;
                 s2 = (suppress_current_authority HookClear clock s1)
                        \<lparr>t_hook_authority := None, t_persisted_agent_session := None\<rparr>
             in mutation_of iter prev now (current_session_identity s1 \<noteq> None) False s2)"

definition forget_detection :: "terminal_state \<Rightarrow> terminal_state" where
  "forget_detection s =
    s\<lparr>t_detected_agent := None, t_fallback_state := UnknownState, t_fallback_visible_blocker := False,
      t_fallback_observed_at := None\<rparr>"

definition release_agent_with_mutation ::
  "hash_order \<Rightarrow> str \<Rightarrow> str \<Rightarrow> u64 option \<Rightarrow> nat \<Rightarrow> nat \<Rightarrow> terminal_state
   \<Rightarrow> state_mutation option \<times> terminal_state" where
  "release_agent_with_mutation iter source label n now clock s =
    (if (case t_hook_authority s of
           None \<Rightarrow> False | Some a \<Rightarrow> ha_agent_label a \<noteq> label \<or> ha_source a \<noteq> source)
     then (None, s)
     else if effective_agent_label s \<noteq> Some label \<and> \<not> persisted_session_matches source label s
     then (None, s)
     else case accept_hook_report source n s of
       (False, s1) \<Rightarrow> (None, s1)
     | (True, s1) \<Rightarrow>
         let preserve_foreign =
               (case t_persisted_agent_session s1 of
                  None \<Rightarrow> False | Some p \<Rightarrow> ps_source p \<noteq> source \<or> ps_agent p \<noteq> label);
             process_owns_agent = process_present label s1;
             prev = before_op_of iter now s1; previous_session = current_session_identity s1;
             s2 = suppress_report source label HookClear clock s1;
             s3 = (if process_owns_agent then s2 else clear_agent_name (forget_detection s2));
             s4 = s3\<lparr>t_hook_authority := None\<rparr>;
             s5 = (if preserve_foreign then s4 else s4\<lparr>t_persisted_agent_session := None\<rparr>)
         in mutation_of iter prev now (previous_session \<noteq> current_session_identity s5)
              (\<not> process_owns_agent) s5)"

section \<open>Sessions validated by a detected process\<close>

record validated_session =
  vs_source :: str
  vs_agent_label :: str
  vs_session_ref :: agent_session_ref
  vs_pending :: "pending_report option"

definition stale_of_suppressed :: "str \<times> suppressed_report \<Rightarrow> (str \<times> str \<times> agent_session_ref) option" where
  "stale_of_suppressed = (\<lambda>(source, entry).
    (case sr_reason entry of
       ProcessExit \<Rightarrow>
         (case (sr_replacement_session_ref entry, sr_session_ref entry) of
            (Some r, Some x) \<Rightarrow> if x \<noteq> r then Some (source, sr_agent_label entry, x) else None
          | _ \<Rightarrow> None)
     | HookClear \<Rightarrow> map_option (\<lambda>x. (source, sr_agent_label entry, x)) (sr_session_ref entry)))"

definition validated_of_suppressed ::
  "u64 hash_map \<Rightarrow> str \<times> suppressed_report \<Rightarrow> validated_session option" where
  "validated_of_suppressed sequences = (\<lambda>(source, entry).
    (if sr_reason entry \<noteq> ProcessExit then None
     else map_option (\<lambda>r.
       \<lparr>vs_source = source, vs_agent_label = sr_agent_label entry, vs_session_ref = r,
        vs_pending =
          (case sr_pending entry of
             None \<Rightarrow> None
           | Some p \<Rightarrow>
               if ha_session_ref (pr_authority p) = Some r
                  \<and> (case map_of sequences source of None \<Rightarrow> True | Some n \<Rightarrow> n < pr_seq p)
               then Some p else None)\<rparr>) (sr_replacement_session_ref entry)))"

definition install_validated :: "validated_session \<Rightarrow> terminal_state \<Rightarrow> terminal_state" where
  "install_validated v s =
    (let s1 = forget_stale_session (vs_source v) (vs_agent_label v) (vs_session_ref v) s;
         s2 = reconcile_agent_name_owner (vs_agent_label v) (Some (vs_session_ref v)) s1;
         s3 = s2\<lparr>t_persisted_agent_session := Some
                  \<lparr>ps_source = vs_source v, ps_agent = vs_agent_label v, ps_session_ref = vs_session_ref v\<rparr>\<rparr>
     in case vs_pending v of
          None \<Rightarrow> s3
        | Some p \<Rightarrow>
            s3\<lparr>t_hook_report_sequences := hm_insert (vs_source v) (pr_seq p) (t_hook_report_sequences s3),
               t_hook_authority := Some (pr_authority p)\<rparr>)"

definition clear_suppression_for_detected_agent ::
  "hash_order \<Rightarrow> agent option \<Rightarrow> agent option \<Rightarrow> terminal_state \<Rightarrow> terminal_state" where
  "clear_suppression_for_detected_agent iter previous detected s =
    (case detected of
       None \<Rightarrow> s
     | Some g \<Rightarrow>
         if previous = Some g then s
         else
           let matching = filter (\<lambda>(_, entry). parse_agent_label (sr_agent_label entry) = Some g)
                 (hm_entries iter (t_suppressed s));
               stale = List.map_filter stale_of_suppressed matching;
               validated = List.map_filter (validated_of_suppressed (t_hook_report_sequences s)) matching;
               s1 = s\<lparr>t_suppressed := hm_retain
                       (\<lambda>_ entry. parse_agent_label (sr_agent_label entry) \<noteq> Some g
                          \<or> (sr_reason entry = ProcessExit \<and> sr_replacement_session_ref entry = None))
                       (t_suppressed s)\<rparr>;
               s2 = fold (\<lambda>(source, label, r). remember_stale_session source label r) stale s1;
               s3 = s2\<lparr>t_hook_report_sequences := hm_retain
                       (\<lambda>source _. source \<in> set (map vs_source validated)
                          \<or> \<not> full_lifecycle_hook_authority source (agent_label g))
                       (t_hook_report_sequences s2)\<rparr>
           in fold install_validated validated s3)"

section \<open>Reports of the session\<close>

definition suppression_entry :: "str \<Rightarrow> suppressed_report \<Rightarrow> terminal_state \<Rightarrow> suppressed_report" where
  "suppression_entry source fresh s =
    (case map_of (t_suppressed s) source of Some entry \<Rightarrow> entry | None \<Rightarrow> fresh)"

definition blank_suppression :: "str \<Rightarrow> agent_session_ref option \<Rightarrow> nat \<Rightarrow> suppressed_report" where
  "blank_suppression label r now =
    \<lparr>sr_agent_label = label, sr_session_ref = r, sr_observed_at = now, sr_reason = ProcessExit,
     sr_replacement_session_ref = None, sr_pending = None\<rparr>"

definition set_suppression :: "str \<Rightarrow> suppressed_report \<Rightarrow> terminal_state \<Rightarrow> terminal_state" where
  "set_suppression source entry s = s\<lparr>t_suppressed := hm_insert source entry (t_suppressed s)\<rparr>"

text \<open>A selection in OpenCode whose process has not been seen waits for the process.\<close>

definition await_selection :: "str \<Rightarrow> str \<Rightarrow> agent_session_ref \<Rightarrow> nat \<Rightarrow> terminal_state \<Rightarrow> terminal_state" where
  "await_selection source label r now s =
    (let entry = suppression_entry source (blank_suppression label (anchored_session_ref source label s) now) s
     in set_suppression source (entry\<lparr>sr_replacement_session_ref := Some r, sr_pending := None\<rparr>) s)"

definition replace_session :: "agent_session_ref \<Rightarrow> suppressed_report \<Rightarrow> suppressed_report" where
  "replace_session r entry =
    (if sr_replacement_session_ref entry = Some r then entry
     else
       let entry' = (case sr_pending entry of
                     None \<Rightarrow> entry
                   | Some p \<Rightarrow> if ha_session_ref (pr_authority p) \<noteq> Some r
                              then entry\<lparr>sr_pending := None\<rparr> else entry)
       in entry'\<lparr>sr_replacement_session_ref := Some r\<rparr>)"

text \<open>A numbered start of a session whose process, or whose place, is not established yet.\<close>

definition await_session ::
  "hash_order \<Rightarrow> str \<Rightarrow> str \<Rightarrow> agent_session_ref \<Rightarrow> u64 option \<Rightarrow> str option \<Rightarrow> nat \<Rightarrow> terminal_state
   \<Rightarrow> state_mutation option \<times> terminal_state" where
  "await_session iter source label r n start_source now s =
    (if \<not> session_start_source_is_recognized start_source then (None, s)
     else case n of
       None \<Rightarrow> (None, s)
     | Some n \<Rightarrow>
         if not_after_last source n s then (None, s)
         else
           let prev = before_op_of iter now s; previous_session = current_session_identity s;
               entry = suppression_entry source (blank_suppression label None now) s;
               s1 = set_suppression source (replace_session r entry) s;
               s2 = s1\<lparr>t_hook_report_sequences := hm_insert source n (t_hook_report_sequences s1)\<rparr>
           in if process_present label s
              then
                let s3 = clear_suppression_for_detected_agent iter None (parse_agent_label label) s2
                in mutation_of iter prev now (previous_session \<noteq> current_session_identity s3) False s3
              else (None, s2))"

definition replacing_identity_only_session ::
  "str \<Rightarrow> str \<Rightarrow> agent_session_ref \<Rightarrow> str option \<Rightarrow> terminal_state \<Rightarrow> bool" where
  "replacing_identity_only_session source label r start_source s \<longleftrightarrow>
     session_identity_only_integration source label
     \<and> session_report_allows_replacement source label start_source
     \<and> (case current_session_identity s of
          None \<Rightarrow> False
        | Some p \<Rightarrow> ps_source p = source \<and> ps_agent p = label \<and> ref_kind (ps_session_ref p) = SessionId
                   \<and> ref_kind r = SessionId \<and> ref_value (ps_session_ref p) \<noteq> ref_value r)"

definition install_session ::
  "hash_order \<Rightarrow> str \<Rightarrow> str \<Rightarrow> agent_session_ref \<Rightarrow> bool \<Rightarrow> bool \<Rightarrow> agent_session_ref option \<Rightarrow> nat \<Rightarrow> nat
   \<Rightarrow> terminal_state \<Rightarrow> state_mutation option \<times> terminal_state" where
  "install_session iter source label r allowed takeover replaced now clock s =
    (let prev = before_op_of iter now s; previous_session = current_session_identity s;
         s1 = (if allowed \<or> takeover then forget_stale_session source label r s else s);
         s2 = (case replaced of
                 Some x \<Rightarrow> (remember_stale_session source label x s1)\<lparr>t_hook_authority := None\<rparr>
               | None \<Rightarrow>
                   if takeover
                   then (suppress_current_authority HookClear clock s1)\<lparr>t_hook_authority := None\<rparr>
                   else s1);
         s3 = reconcile_agent_name_owner label (Some r) s2;
         p = \<lparr>ps_source = source, ps_agent = label, ps_session_ref = r\<rparr>;
         s4 = (if t_managed_launch_session s3 = Some p then s3\<lparr>t_managed_launch_session := None\<rparr> else s3);
         s5 = s4\<lparr>t_persisted_agent_session := Some p\<rparr>
     in mutation_of iter prev now (previous_session \<noteq> current_session_identity s5) False s5)"

definition accept_session ::
  "hash_order \<Rightarrow> str \<Rightarrow> str \<Rightarrow> agent_session_ref \<Rightarrow> str option \<Rightarrow> nat \<Rightarrow> nat
   \<Rightarrow> terminal_state \<Rightarrow> state_mutation option \<times> terminal_state" where
  "accept_session iter source label r start_source now clock s =
    (if known_label_conflicts_with_detected_agent label s then (None, s)
     else
       let allowed = session_report_allows_replacement source label start_source
       in if replacing_identity_only_session source label r start_source s \<and> \<not> process_present label s
          then (None, s)
          else
            let conflicts = current_session_owner_conflicts source label s;
                takeover = conflicts \<and> foreground_confirms_different_owner source label r start_source s
            in if conflicts \<and> \<not> takeover then (None, s)
               else if conflicting_same_owner_session_ref source label r start_source s \<noteq> None then (None, s)
               else
                 let replaced = same_owner_authority_session_ref source label r s
                 in if replaced \<noteq> None \<and> \<not> allowed then (None, s)
                    else install_session iter source label r allowed takeover replaced now clock s)"

definition set_agent_session_ref_for_session_start ::
  "hash_order \<Rightarrow> str \<Rightarrow> str \<Rightarrow> agent_session_ref option \<Rightarrow> u64 option \<Rightarrow> str option \<Rightarrow> nat \<Rightarrow> nat
   \<Rightarrow> terminal_state \<Rightarrow> state_mutation option \<times> terminal_state" where
  "set_agent_session_ref_for_session_start iter source label session_ref n start_source now clock s =
    (case session_ref of
       None \<Rightarrow> (None, s)
     | Some r \<Rightarrow>
         let present = process_present label s;
             full = full_lifecycle_hook_authority source label;
             generation_gated =
               (case map_of (t_suppressed s) source of
                  None \<Rightarrow> False | Some entry \<Rightarrow> sr_agent_label entry = label \<and> sr_reason entry \<noteq> HookClear);
             anchored = authority_session_ref source label s \<noteq> None
                        \<or> persisted_session_matches source label s;
             unsequenced = is_unsequenced_opencode_selection source label start_source n;
             reconcile = unsequenced \<and> present
         in if \<not> reconcile \<and> full \<and> unsequenced then (None, await_selection source label r now s)
            else
              let s1 = (if reconcile then s\<lparr>t_suppressed := hm_remove source (t_suppressed s)\<rparr> else s)
              in if full \<and> \<not> reconcile \<and> (\<not> present \<or> generation_gated \<or> \<not> anchored)
                 then await_session iter source label r n start_source now s1
                 else if unsequenced then accept_session iter source label r start_source now clock s1
                 else case accept_hook_report source n s1 of
                   (False, s2) \<Rightarrow> (None, s2)
                 | (True, s2) \<Rightarrow> accept_session iter source label r start_source now clock s2)"

definition set_persisted_agent_session :: "persisted_agent_session \<Rightarrow> terminal_state \<Rightarrow> terminal_state" where
  "set_persisted_agent_session p s = s\<lparr>t_persisted_agent_session := Some p\<rparr>"

end
