(* ===== verification/AgentDetection.thy ===== *)
theory AgentDetection
  imports HookReports
begin

text \<open>
  What the detection of processes and screens changes in a terminal (\<open>terminal/state.rs\<close>): a process
  seen, its exit, the state read off its screen. An exit closes the sessions of its agent: their
  sequence numbers start anew, their reports are suppressed until another process of the agent is
  seen, and what they had reported is dropped. The two flags of \<open>set_detected_state_with_screen_signals_at\<close> that
  the code ignores are left out.
\<close>

section \<open>Process exits\<close>

definition exited_session_ref :: "suppressed_report \<Rightarrow> agent_session_ref option" where
  "exited_session_ref entry =
    (case sr_replacement_session_ref entry of
       Some r \<Rightarrow> Some r
     | None \<Rightarrow>
         (case Option.bind (sr_pending entry) (\<lambda>p. ha_session_ref (pr_authority p)) of
            Some r \<Rightarrow> Some r
          | None \<Rightarrow> sr_session_ref entry))"

definition exits_with :: "agent option \<Rightarrow> suppressed_report \<Rightarrow> bool" where
  "exits_with g entry \<longleftrightarrow> parse_agent_label (sr_agent_label entry) = g \<and> sr_reason entry \<noteq> HookClear"

definition close_suppressed :: "nat \<Rightarrow> suppressed_report \<Rightarrow> suppressed_report" where
  "close_suppressed now entry =
    entry\<lparr>sr_session_ref := exited_session_ref entry, sr_replacement_session_ref := None,
          sr_pending := None, sr_observed_at := now\<rparr>"

definition exit_suppressed :: "hash_order \<Rightarrow> agent option \<Rightarrow> nat \<Rightarrow> terminal_state \<Rightarrow> terminal_state" where
  "exit_suppressed iter g now s =
    (let entries = filter (\<lambda>(_, entry). exits_with g entry) (hm_entries iter (t_suppressed s));
         stale = List.map_filter (\<lambda>(source, entry).
             (case (sr_session_ref entry, exited_session_ref entry) of
                (Some x, Some y) \<Rightarrow> if x \<noteq> y then Some (source, sr_agent_label entry, x) else None
              | _ \<Rightarrow> None)) entries;
         s1 = s\<lparr>t_suppressed := hm_map (\<lambda>_ entry. if exits_with g entry then close_suppressed now entry else entry)
                 (t_suppressed s)\<rparr>;
         s2 = fold (\<lambda>(source, label, r). remember_stale_session source label r) stale s1
     in fold (\<lambda>(source, _). forget_sequence source) entries s2)"

definition official_session ::
  "agent option \<Rightarrow> terminal_state \<Rightarrow> (str \<times> str \<times> agent_session_ref option) option" where
  "official_session g s =
    (let by_hook =
       (case t_hook_authority s of
          None \<Rightarrow> None
        | Some a \<Rightarrow>
            if is_official_agent_source (ha_source a) (ha_agent_label a)
               \<and> parse_agent_label (ha_agent_label a) = g
            then Some (ha_source a, ha_agent_label a, ha_session_ref a) else None)
     in case by_hook of
          Some x \<Rightarrow> Some x
        | None \<Rightarrow>
            (case t_persisted_agent_session s of
               None \<Rightarrow> None
             | Some p \<Rightarrow>
                 if is_official_agent_source (ps_source p) (ps_agent p) \<and> parse_agent_label (ps_agent p) = g
                 then Some (ps_source p, ps_agent p, Some (ps_session_ref p)) else None))"

definition exit_official :: "agent option \<Rightarrow> nat \<Rightarrow> terminal_state \<Rightarrow> terminal_state" where
  "exit_official g now s =
    (case official_session g s of
       None \<Rightarrow> s
     | Some (source, label, r) \<Rightarrow>
         suppress_with_session_ref source label r ProcessExit now (forget_sequence source s))"

definition exit_authority :: "agent option \<Rightarrow> bool \<Rightarrow> terminal_state \<Rightarrow> terminal_state" where
  "exit_authority g newer_custom s =
    (case t_hook_authority s of
       None \<Rightarrow> s
     | Some a \<Rightarrow>
         if parse_agent_label (ha_agent_label a) = g \<and> \<not> newer_custom
         then (forget_sequence (ha_source a) s)\<lparr>t_hook_authority := None\<rparr> else s)"

definition exit_persisted :: "agent option \<Rightarrow> bool \<Rightarrow> terminal_state \<Rightarrow> terminal_state" where
  "exit_persisted g newer_custom s =
    (case t_persisted_agent_session s of
       None \<Rightarrow> s
     | Some p \<Rightarrow>
         if \<not> newer_custom \<and> parse_agent_label (ps_agent p) = g
         then s\<lparr>t_persisted_agent_session := None\<rparr> else s)"

definition cleared_by_exit :: "str \<Rightarrow> nat \<Rightarrow> agent_metadata \<Rightarrow> bool" where
  "cleared_by_exit label now m \<longleftrightarrow>
    (let official = is_official_agent_source (am_source m) label
           \<or> (case am_applies_to_source m of None \<Rightarrow> False | Some x \<Rightarrow> is_official_agent_source x label)
     in (am_agent_label m = Some label \<or> official) \<and> (official \<or> am_reported_at m \<le> now))"

definition forget_metadata_source :: "str \<Rightarrow> terminal_state \<Rightarrow> terminal_state" where
  "forget_metadata_source source s =
    s\<lparr>t_metadata_sequences := hm_remove source (t_metadata_sequences s),
      t_metadata_agents := hm_remove source (t_metadata_agents s),
      t_token_sources := removeAll source (t_token_sources s)\<rparr>"

definition exit_metadata :: "hash_order \<Rightarrow> agent \<Rightarrow> nat \<Rightarrow> terminal_state \<Rightarrow> terminal_state" where
  "exit_metadata iter g now s =
    (let cleared = map fst (filter (\<lambda>(_, m). cleared_by_exit (agent_label g) now m)
                             (hm_entries iter (t_agent_metadata s)));
         s1 = s\<lparr>t_agent_metadata :=
                 hm_retain (\<lambda>_ m. \<not> cleared_by_exit (agent_label g) now m) (t_agent_metadata s)\<rparr>;
         s2 = fold forget_metadata_source cleared s1;
         owned = map fst (filter (\<lambda>(_, h). h = g) (hm_entries iter (t_metadata_agents s2)))
     in fold forget_metadata_source owned s2)"

definition process_exit_cleanup ::
  "hash_order \<Rightarrow> agent option \<Rightarrow> bool \<Rightarrow> nat \<Rightarrow> terminal_state \<Rightarrow> terminal_state" where
  "process_exit_cleanup iter g newer_custom now s =
    (let s1 = exit_suppressed iter g now s; s2 = exit_official g now s1;
         s3 = exit_authority g newer_custom s2; s4 = exit_persisted g newer_custom s3
     in case g of None \<Rightarrow> s4 | Some g \<Rightarrow> exit_metadata iter g now s4)"

section \<open>Detected states\<close>

definition hook_authority_conflicts_with_detected_agent :: "agent option \<Rightarrow> terminal_state \<Rightarrow> bool" where
  "hook_authority_conflicts_with_detected_agent detected s \<longleftrightarrow>
    (case (detected, t_hook_authority s) of
       (Some d, Some a) \<Rightarrow>
         (case parse_agent_label (ha_agent_label a) of None \<Rightarrow> False | Some g \<Rightarrow> g \<noteq> d)
     | _ \<Rightarrow> False)"

definition should_ignore_detected_state :: "agent option \<Rightarrow> bool \<Rightarrow> terminal_state \<Rightarrow> bool" where
  "should_ignore_detected_state detected process_exited s \<longleftrightarrow>
     live_full_lifecycle_hook_authority s \<and> \<not> process_exited
     \<and> \<not> hook_authority_conflicts_with_detected_agent detected s"

definition observed_before_release_suppression :: "agent option \<Rightarrow> nat \<Rightarrow> terminal_state \<Rightarrow> bool" where
  "observed_before_release_suppression detected observed_at s \<longleftrightarrow>
    (case detected of
       None \<Rightarrow> False
     | Some d \<Rightarrow>
         list_ex (\<lambda>(_, entry). parse_agent_label (sr_agent_label entry) = Some d
                     \<and> observed_at \<le> sr_observed_at entry) (t_suppressed s))"

definition newer_custom_authority :: "agent option \<Rightarrow> bool \<Rightarrow> nat \<Rightarrow> terminal_state \<Rightarrow> bool" where
  "newer_custom_authority g process_exited now s \<longleftrightarrow>
     process_exited
     \<and> (case t_hook_authority s of
          None \<Rightarrow> False
        | Some a \<Rightarrow> parse_agent_label (ha_agent_label a) = g
                   \<and> \<not> is_official_agent_source (ha_source a) (ha_agent_label a)
                   \<and> now < ha_reported_at a)"

definition authority_outlived :: "agent option \<Rightarrow> agent option \<Rightarrow> nat \<Rightarrow> terminal_state \<Rightarrow> bool" where
  "authority_outlived previous g now s \<longleftrightarrow>
     hook_authority_not_newer_than now s
     \<and> (hook_authority_conflicts_with_detected_agent g s
        \<or> (previous \<noteq> None \<and> g \<noteq> previous
           \<and> (case t_hook_authority s of
                None \<Rightarrow> False | Some a \<Rightarrow> parse_agent_label (ha_agent_label a) = previous)))"

definition drop_outlived_authority ::
  "agent option \<Rightarrow> agent option \<Rightarrow> nat \<Rightarrow> nat \<Rightarrow> terminal_state \<Rightarrow> terminal_state" where
  "drop_outlived_authority previous g now clock s =
    (if authority_outlived previous g now s
     then
       let durable =
         (case t_hook_authority s of
            None \<Rightarrow> None
          | Some a \<Rightarrow> map_option (\<lambda>r. \<lparr>ps_source = ha_source a, ps_agent = ha_agent_label a,
                                     ps_session_ref = r\<rparr>) (ha_session_ref a))
       in (suppress_current_authority HookClear clock s)
            \<lparr>t_hook_authority := None, t_persisted_agent_session := durable\<rparr>
     else s)"

definition apply_detection ::
  "hash_order \<Rightarrow> agent option \<Rightarrow> agent_state \<Rightarrow> bool \<Rightarrow> bool \<Rightarrow> nat \<Rightarrow> nat \<Rightarrow> terminal_state
   \<Rightarrow> terminal_state" where
  "apply_detection iter g fallback visible_blocker process_exited now clock s =
    (let previous = t_detected_agent s;
         newer_custom = newer_custom_authority g process_exited now s;
         replacement_process = \<not> process_exited
           \<and> (case (t_recent_exit s, g) of
                (Some e, Some g) \<Rightarrow> pe_agent e = g \<and> pe_observed_at e < now
              | _ \<Rightarrow> False);
         s1 = s\<lparr>t_detected_agent := g\<rparr>;
         s2 = (case g of None \<Rightarrow> s1 | Some g \<Rightarrow> reconcile_agent_name_owner (agent_label g) None s1);
         s3 = (if \<not> process_exited
               then clear_suppression_for_detected_agent iter
                      (if replacement_process then None else previous) g s2
               else s2);
         s4 = s3\<lparr>t_fallback_state := fallback,
                 t_fallback_visible_blocker := (visible_blocker \<and> fallback = Blocked),
                 t_fallback_observed_at := Some now,
                 t_recent_exit :=
                   (if process_exited
                    then (case g of None \<Rightarrow> t_recent_exit s3
                          | Some g \<Rightarrow> Some \<lparr>pe_agent = g, pe_observed_at = now\<rparr>)
                    else if g \<noteq> None then None else t_recent_exit s3)\<rparr>;
         s5 = (if process_exited then process_exit_cleanup iter g newer_custom now s4 else s4);
         s6 = drop_outlived_authority previous g now clock s5
     in if g = None \<and> t_recent_exit s6 \<noteq> None then clear_agent_name s6 else s6)"

definition keep_hook_agent :: "agent option \<Rightarrow> terminal_state \<Rightarrow> terminal_state" where
  "keep_hook_agent g s =
    (if Option.bind (t_hook_authority s) (\<lambda>a. parse_agent_label (ha_agent_label a)) = g
     then s\<lparr>t_detected_agent := g\<rparr> else s)"

definition set_detected_state_with_screen_signals_at ::
  "hash_order \<Rightarrow> agent option \<Rightarrow> agent_state \<Rightarrow> bool \<Rightarrow> bool \<Rightarrow> nat \<Rightarrow> nat \<Rightarrow> terminal_state
   \<Rightarrow> state_mutation \<times> terminal_state" where
  "set_detected_state_with_screen_signals_at iter g fallback visible_blocker process_exited now clock s =
    (let prev = before_op_of iter now s; previous_session = current_session_identity s;
         released = process_exited \<and> \<not> newer_custom_authority g process_exited now s
           \<and> (effective_agent_label s \<noteq> None \<or> t_agent_name s \<noteq> None);
         finish = (\<lambda>released s'.
           (case recompute_effective_state iter prev now s' of
              (change, s'') \<Rightarrow>
                (\<lparr>tm_change = change,
                  tm_session_ref_changed = (previous_session \<noteq> current_session_identity s''),
                  tm_agent_released = released\<rparr>, s'')))
     in if should_ignore_detected_state g process_exited s then finish False (keep_hook_agent g s)
        else if \<not> process_exited \<and> observed_before_release_suppression g now s then finish False s
        else finish released (apply_detection iter g fallback visible_blocker process_exited now clock s))"

definition set_detected_agent_process_at ::
  "hash_order \<Rightarrow> agent \<Rightarrow> nat \<Rightarrow> nat \<Rightarrow> terminal_state \<Rightarrow> state_mutation \<times> terminal_state" where
  "set_detected_agent_process_at iter g now clock s =
    (let starts_acquisition = \<not> should_ignore_detected_state (Some g) False s
           \<and> \<not> observed_before_release_suppression (Some g) now s;
         (mutation, s') =
           set_detected_state_with_screen_signals_at iter (Some g) UnknownState False False now clock s
     in (mutation, if starts_acquisition then s'\<lparr>t_acquisition_pending := True\<rparr> else s'))"

definition finish_agent_process_acquisition :: "terminal_state \<Rightarrow> bool \<times> terminal_state" where
  "finish_agent_process_acquisition s =
    (let reached_idle = t_acquisition_pending s \<and> t_state s = Idle
     in (reached_idle \<and> t_recent_exit s = None,
         if reached_idle then s\<lparr>t_acquisition_pending := False\<rparr> else s))"

definition clear_agent_runtime_identity_after_respawn :: "terminal_state \<Rightarrow> terminal_state" where
  "clear_agent_runtime_identity_after_respawn s =
    clear_agent_name
      (s\<lparr>t_detected_agent := None, t_fallback_state := UnknownState, t_fallback_visible_blocker := False,
         t_fallback_observed_at := None, t_hook_authority := None, t_persisted_agent_session := None,
         t_agent_metadata := [], t_metadata_agents := [], t_suppressed := [], t_stale_sessions := [],
         t_state := UnknownState, t_last_change_seq := None, t_launch_argv := None,
         t_respawn_shell := False, t_recent_exit := None, t_acquisition_pending := False,
         t_resume_plan := None\<rparr>)"

end
