(* ===== verification/TerminalInv.thy ===== *)
theory TerminalInv
  imports AgentDetection
begin

text \<open>
  What every operation on a terminal keeps: its maps have one entry per key, a suppression stands under
  an official source and its label, a visible blocker was read off a blocked screen, and the state that is
  shown is the one the arbitration yields from the reports at hand.
\<close>

section \<open>Well-formed terminals\<close>

definition suppression_official :: "str \<times> suppressed_report \<Rightarrow> bool" where
  "suppression_official = (\<lambda>(source, entry). is_official_agent_source source (sr_agent_label entry))"

definition maps_ok :: "terminal_state \<Rightarrow> bool" where
  "maps_ok s \<longleftrightarrow>
     distinct (map fst (t_agent_metadata s)) \<and> distinct (map fst (t_hook_report_sequences s))
     \<and> distinct (map fst (t_suppressed s)) \<and> distinct (map fst (t_stale_sessions s))
     \<and> distinct (map fst (t_metadata_sequences s)) \<and> distinct (map fst (t_metadata_agents s))
     \<and> distinct (t_token_sources s) \<and> list_all suppression_official (t_suppressed s)
     \<and> (t_fallback_visible_blocker s \<longrightarrow> t_fallback_state s = Blocked)"

definition terminal_inv :: "terminal_state \<Rightarrow> bool" where
  "terminal_inv s \<longleftrightarrow> maps_ok s \<and> t_state s = arbitrated_state s"

text \<open>The part of the state the arbitration reads.\<close>

definition same_arbitration :: "terminal_state \<Rightarrow> terminal_state \<Rightarrow> bool" where
  "same_arbitration s s' \<longleftrightarrow>
     t_detected_agent s' = t_detected_agent s \<and> t_fallback_state s' = t_fallback_state s
     \<and> t_fallback_visible_blocker s' = t_fallback_visible_blocker s
     \<and> t_fallback_observed_at s' = t_fallback_observed_at s
     \<and> t_hook_authority s' = t_hook_authority s \<and> t_recent_exit s' = t_recent_exit s"

lemma arbitrated_cong:
  assumes "same_arbitration s s'"
  shows "arbitrated_state s' = arbitrated_state s" "effective_agent_label s' = effective_agent_label s"
    "effective_known_agent s' = effective_known_agent s" "effective_authority s' = effective_authority s"
proof -
  note e = assms [unfolded same_arbitration_def]
  have h: "hook_authority_is_effective a s' = hook_authority_is_effective a s" for a
    using e by (auto simp: hook_authority_is_effective_def split: option.splits)
  show a: "effective_authority s' = effective_authority s"
    using e by (auto simp: effective_authority_def h split: option.splits)
  show l: "effective_agent_label s' = effective_agent_label s"
    using e by (auto simp: effective_agent_label_def a split: option.splits)
  show "effective_known_agent s' = effective_known_agent s"
    by (simp add: effective_known_agent_def l)
  show "arbitrated_state s' = arbitrated_state s"
    using e by (auto simp: arbitrated_state_def visible_blocker_overrides_hook_def a h
        live_full_lifecycle_hook_authority_def fallback_not_older_than_hook_def split: option.splits)
qed

section \<open>Maps\<close>

lemma set_hm_insert: "set (hm_insert k v m) \<subseteq> insert (k, v) (set m)"
  by (induction m) auto

lemma list_all_hm_insert: "list_all P m \<Longrightarrow> P (k, v) \<Longrightarrow> list_all P (hm_insert k v m)"
  using set_hm_insert [of k v m] by (auto simp: list_all_iff)

lemma list_all_hm_remove: "list_all P m \<Longrightarrow> list_all P (hm_remove k m)"
  by (simp add: list_all_iff hm_remove_def)

lemma list_all_hm_retain: "list_all P m \<Longrightarrow> list_all P (hm_retain p m)"
  by (simp add: list_all_iff hm_retain_def)

lemma list_all_hm_map: "list_all P m \<Longrightarrow> (\<And>k v. P (k, v) \<Longrightarrow> P (k, f k v)) \<Longrightarrow> list_all P (hm_map f m)"
  by (auto simp: list_all_iff hm_map_def)

lemma distinct_hm_modify: "distinct (map fst (hm_modify k f m)) = distinct (map fst m)"
  by (simp add: hm_modify_def)

lemma distinct_fold_remove: "distinct (map fst m) \<Longrightarrow> distinct (map fst (fold hm_remove ks m))"
  by (induction ks arbitrary: m) (simp_all add: distinct_hm_remove)

lemmas map_intros = distinct_update distinct_hm_remove distinct_hm_retain list_all_hm_insert
  list_all_hm_remove list_all_hm_retain list_all_hm_map distinct_fold_remove

lemma suppression_at:
  assumes "maps_ok s" "map_of (t_suppressed s) source = Some entry"
  shows "is_official_agent_source source (sr_agent_label entry)"
  using assms map_of_SomeD [OF assms(2)]
  by (auto simp: maps_ok_def suppression_official_def list_all_iff)

lemma fold_inv: "P s \<Longrightarrow> (\<And>x s. P s \<Longrightarrow> P (f x s)) \<Longrightarrow> P (fold f xs s)"
  by (induction xs arbitrary: s) auto

section \<open>Helpers keep the maps\<close>

text \<open>
  \<open>quiet s s'\<close>: the helper kept the maps in order and what the arbitration reads; \<open>calm\<close> only the
  shown state (and the maps), as the helpers that clear or install an authority do.
\<close>

definition calm :: "terminal_state \<Rightarrow> terminal_state \<Rightarrow> bool" where
  "calm s s' \<longleftrightarrow> (maps_ok s \<longrightarrow> maps_ok s') \<and> t_state s' = t_state s"

definition quiet :: "terminal_state \<Rightarrow> terminal_state \<Rightarrow> bool" where
  "quiet s s' \<longleftrightarrow> calm s s' \<and> same_arbitration s s'"

lemma same_arbitration_refl [simp]: "same_arbitration s s"
  by (simp add: same_arbitration_def)

lemma calm_refl [simp]: "calm s s" and quiet_refl [simp]: "quiet s s"
  by (simp_all add: calm_def quiet_def)

lemma calm_trans: "calm s t \<Longrightarrow> calm t u \<Longrightarrow> calm s u"
  by (simp add: calm_def)

lemma quiet_trans: "quiet s t \<Longrightarrow> quiet t u \<Longrightarrow> quiet s u"
  by (auto simp: quiet_def same_arbitration_def intro: calm_trans)

lemma quiet_calm: "quiet s s' \<Longrightarrow> calm s s'"
  by (simp add: quiet_def)

lemma quiet_fold: "(\<And>x s. quiet s (f x s)) \<Longrightarrow> quiet s (fold f xs s)"
  by (rule fold_inv [where P = "quiet s"]) (auto intro: quiet_trans)

lemma calm_fold: "(\<And>x s. calm s (f x s)) \<Longrightarrow> calm s (fold f xs s)"
  by (rule fold_inv [where P = "calm s"]) (auto intro: calm_trans)

named_theorems quiet_intros \<open>helpers that leave the arbitration alone\<close>

lemma quiet_inv: "quiet s s' \<Longrightarrow> terminal_inv s \<Longrightarrow> terminal_inv s'"
  by (auto simp: terminal_inv_def quiet_def calm_def arbitrated_cong(1))

lemmas quiet_defs = quiet_def calm_def same_arbitration_def maps_ok_def

lemma quiet_suppress [quiet_intros]:
  "is_official_agent_source source label \<Longrightarrow> quiet s (suppress_with_session_ref source label r reason t s)"
  by (auto simp: quiet_defs suppress_with_session_ref_def suppression_official_def intro: map_intros)

lemma quiet_suppress_current [quiet_intros]: "quiet s (suppress_current_authority reason clock s)"
  by (auto simp: suppress_current_authority_def full_lifecycle_official split: option.splits
      intro: quiet_suppress)

lemma quiet_suppress_report [quiet_intros]: "quiet s (suppress_report source label reason clock s)"
  by (auto simp: suppress_report_def full_lifecycle_official intro: quiet_suppress)

lemma quiet_remember [quiet_intros]: "quiet s (remember_stale_session source label r s)"
  by (auto simp: quiet_defs remember_stale_session_def Let_def intro: map_intros)

lemma quiet_forget [quiet_intros]: "quiet s (forget_stale_session source label r s)"
  by (auto simp: quiet_defs forget_stale_session_def Let_def split: option.splits intro: map_intros)

lemma quiet_accept [quiet_intros]: "quiet s (snd (accept_hook_report source n s))"
  by (auto simp: quiet_defs accept_hook_report_def split: option.splits intro: map_intros)

lemma quiet_forget_sequence [quiet_intros]: "quiet s (forget_sequence source s)"
  by (auto simp: quiet_defs forget_sequence_def intro: map_intros)

lemma quiet_name_owner [quiet_intros]: "quiet s (reconcile_agent_name_owner label r s)"
  by (auto simp: quiet_defs reconcile_agent_name_owner_def split: option.splits)

lemma quiet_clear_name [quiet_intros]: "quiet s (clear_agent_name s)"
  by (auto simp: quiet_defs clear_agent_name_def Let_def)

lemma quiet_store [quiet_intros]: "quiet s (store_report iter now r s)"
  by (simp add: quiet_defs store_report_def distinct_update)

lemma quiet_drop_expired [quiet_intros]: "quiet s (drop_expired now source s)"
  by (simp add: quiet_defs drop_expired_def distinct_hm_remove split: option.splits)

lemma quiet_arm [quiet_intros]: "quiet s (arm_expiry r s)"
  by (simp add: quiet_defs arm_expiry_def distinct_hm_modify split: option.splits)

lemma quiet_hidden [quiet_intros]: "quiet s (clear_expiry_pending_for_hidden_metadata s)"
  by (simp add: quiet_defs clear_expiry_pending_for_hidden_metadata_def)

lemma quiet_accept_metadata [quiet_intros]: "quiet s (snd (accept_metadata_report source n tokens g s))"
  by (simp add: quiet_defs accept_metadata_report_def distinct_update split: option.splits)

lemma quiet_park [quiet_intros]:
  assumes "full_lifecycle_hook_authority source label"
  shows "quiet s (park_report source label st message r n t s)"
proof -
  note official = full_lifecycle_official [OF assms]
  have "suppression_official (source, e)"
    if "sr_agent_label e = (case map_of (t_suppressed s) source of None \<Rightarrow> label | Some e \<Rightarrow> sr_agent_label e)"
      and "maps_ok s" for e
    using that suppression_at [OF that(2)] official
    by (cases "map_of (t_suppressed s) source") (simp_all add: suppression_official_def)
  then show ?thesis
    by (auto simp: quiet_def calm_def same_arbitration_def park_report_def Let_def
        split: option.splits) (auto simp: maps_ok_def intro!: map_intros)
qed

lemma quiet_drop_suppression [quiet_intros]: "quiet s (drop_suppression source s)"
proof -
  have "quiet s (s\<lparr>t_suppressed := hm_remove source (t_suppressed s)\<rparr>)"
    by (auto simp: quiet_defs intro: map_intros)
  then show ?thesis
    by (auto simp: drop_suppression_def Let_def split: option.splits intro: quiet_trans quiet_remember)
qed

lemma quiet_route [quiet_intros]:
  "quiet s (snd (route_full_lifecycle_hook_report source label st message r n t s))"
  by (auto simp: route_full_lifecycle_hook_report_def accept_or_park_def split: option.splits
      intro: quiet_park)

lemma quiet_set_suppression:
  "is_official_agent_source source (sr_agent_label entry) \<Longrightarrow> quiet s (set_suppression source entry s)"
  by (auto simp: quiet_defs set_suppression_def suppression_official_def intro: map_intros)

lemma set_suppression_calm:
  assumes "maps_ok s \<Longrightarrow> is_official_agent_source source (sr_agent_label entry)"
  shows "quiet s (set_suppression source entry s)"
  using assms by (auto simp: quiet_defs set_suppression_def suppression_official_def intro: map_intros)

lemma suppression_entry_official:
  assumes "full_lifecycle_hook_authority source label" "maps_ok s"
  shows "is_official_agent_source source (sr_agent_label (suppression_entry source (blank_suppression label r t) s))"
  using suppression_at [OF assms(2)] full_lifecycle_official [OF assms(1)]
  by (auto simp: suppression_entry_def blank_suppression_def split: option.splits)

lemma quiet_await_selection [quiet_intros]:
  "full_lifecycle_hook_authority source label \<Longrightarrow> quiet s (await_selection source label r t s)"
  by (auto simp: await_selection_def Let_def suppression_entry_official intro!: set_suppression_calm)

lemma replace_session_label [simp]: "sr_agent_label (replace_session r entry) = sr_agent_label entry"
  by (auto simp: replace_session_def Let_def split: option.splits)

section \<open>Exits and detections\<close>

lemma quiet_exit_suppressed [quiet_intros]: "quiet s (exit_suppressed iter g now s)"
proof -
  have q: "quiet s (s\<lparr>t_suppressed := hm_map (\<lambda>_ e. if exits_with g e then close_suppressed now e else e)
      (t_suppressed s)\<rparr>)"
    by (auto simp: quiet_defs suppression_official_def close_suppressed_def intro!: map_intros)
  have r: "quiet s (fold (\<lambda>(source, label, r). remember_stale_session source label r) xs s)" for xs s
    by (rule quiet_fold) (auto intro: quiet_remember)
  have f: "quiet s (fold (\<lambda>(source, _). forget_sequence source) ys s)"
    for s and ys :: "(str \<times> suppressed_report) list"
    by (rule quiet_fold) (auto intro: quiet_forget_sequence)
  show ?thesis unfolding exit_suppressed_def Let_def
    by (rule quiet_trans [OF quiet_trans [OF q r] f])
qed

lemma official_session_official:
  "official_session g s = Some (source, label, r) \<Longrightarrow> is_official_agent_source source label"
  by (auto simp: official_session_def Let_def split: option.splits if_splits)

lemma quiet_exit_official [quiet_intros]: "quiet s (exit_official g now s)"
  by (auto simp: exit_official_def split: option.splits dest: official_session_official
      intro!: quiet_trans [OF quiet_forget_sequence quiet_suppress])

lemma quiet_exit_persisted [quiet_intros]: "quiet s (exit_persisted g newer s)"
  by (auto simp: quiet_defs exit_persisted_def split: option.splits)

lemma quiet_forget_metadata [quiet_intros]: "quiet s (forget_metadata_source source s)"
  by (auto simp: quiet_defs forget_metadata_source_def distinct_removeAll intro: map_intros)

lemma quiet_exit_metadata [quiet_intros]: "quiet s (exit_metadata iter g now s)"
proof -
  have f: "quiet s (fold forget_metadata_source ys s)" for ys s
    by (rule quiet_fold) (rule quiet_forget_metadata)
  have q: "quiet s (s\<lparr>t_agent_metadata := hm_retain p (t_agent_metadata s)\<rparr>)" for p
    by (auto simp: quiet_defs intro: map_intros)
  show ?thesis unfolding exit_metadata_def Let_def
    by (rule quiet_trans [OF quiet_trans [OF q f] f])
qed

lemma calm_authority: "calm s t \<Longrightarrow> calm s (t\<lparr>t_hook_authority := a\<rparr>)"
  "calm s t \<Longrightarrow> calm s (t\<lparr>t_persisted_agent_session := p\<rparr>)"
  "calm s t \<Longrightarrow> calm s (t\<lparr>t_detected_agent := g\<rparr>)"
  by (simp_all add: calm_def maps_ok_def)

lemma calm_exit_authority: "calm s (exit_authority g newer s)"
  by (auto simp: exit_authority_def split: option.splits
      intro!: calm_authority quiet_calm [OF quiet_forget_sequence])

lemma calm_process_exit: "calm s (process_exit_cleanup iter g newer now s)"
proof -
  have "calm s (exit_persisted g newer (exit_authority g newer (exit_official g now
      (exit_suppressed iter g now s))))"
    by (rule calm_trans [OF calm_trans [OF calm_trans [OF quiet_calm [OF quiet_exit_suppressed]
            quiet_calm [OF quiet_exit_official]] calm_exit_authority] quiet_calm [OF quiet_exit_persisted]])
  moreover have "calm t (exit_metadata iter a now t)" for t a
    by (rule quiet_calm [OF quiet_exit_metadata])
  ultimately show ?thesis
    by (auto simp: process_exit_cleanup_def Let_def split: option.splits intro: calm_trans)
qed

lemma calm_drop_outlived: "calm s (drop_outlived_authority previous g now clock s)"
  by (auto simp: drop_outlived_authority_def Let_def
      intro!: calm_authority quiet_calm [OF quiet_suppress_current])

lemma calm_sequences: "calm s t \<Longrightarrow> calm s (t\<lparr>t_hook_report_sequences :=
    hm_insert source n (t_hook_report_sequences t)\<rparr>)"
  by (auto simp: calm_def maps_ok_def intro: map_intros)

lemma calm_install_validated: "calm s (install_validated v s)"
proof -
  have "calm s (reconcile_agent_name_owner l r (forget_stale_session src l r' s))" for l r src r'
    by (rule quiet_calm [OF quiet_trans [OF quiet_forget quiet_name_owner]])
  note calm_authority(2) [OF this]
  from this calm_authority(1) [OF calm_sequences [OF this]] show ?thesis
    by (auto simp: install_validated_def Let_def split: option.splits)
qed

lemma calm_clear_suppression: "calm s (clear_suppression_for_detected_agent iter previous g s)"
proof -
  have a: "calm s (s\<lparr>t_suppressed := hm_retain p (t_suppressed s)\<rparr>)" for p
    by (auto simp: calm_def maps_ok_def intro: map_intros)
  have b: "calm s (fold (\<lambda>(source, label, r). remember_stale_session source label r) xs s)" for xs s
    by (rule calm_fold) (auto intro: quiet_calm quiet_remember)
  have c: "calm s (s\<lparr>t_hook_report_sequences := hm_retain p (t_hook_report_sequences s)\<rparr>)" for p s
    by (auto simp: calm_def maps_ok_def intro: map_intros)
  have d: "calm s (fold install_validated vs s)" for vs s
    by (rule calm_fold) (rule calm_install_validated)
  show ?thesis
    unfolding clear_suppression_for_detected_agent_def Let_def
    using calm_trans [OF calm_trans [OF calm_trans [OF a b] c] d] by (simp split: option.split)
qed

end
