(* ===== verification/TerminalRuns.thy ===== *)
theory TerminalRuns
  imports TerminalInv
begin

text \<open>
  The operations on a terminal as one machine, with the invariant of \<open>TerminalInv\<close>, and what holds
  over its runs: the shown state is always the arbitrated one, reports out of order or of the wrong
  session change nothing that is shown, and after a process has exited no report brings its agent back.
\<close>

section \<open>Every operation keeps the invariant\<close>

lemma recompute_arbitration: "same_arbitration s (snd (recompute_effective_state iter prev now s))"
  by (simp add: recompute_effective_state_def Let_def same_arbitration_def
      clear_expiry_pending_for_hidden_metadata_def)

lemma recompute_inv:
  assumes "maps_ok s" "bo_state prev = t_state s"
  shows "terminal_inv (snd (recompute_effective_state iter prev now s))"
proof -
  have h: "maps_ok (clear_expiry_pending_for_hidden_metadata s)"
    using quiet_hidden [of s] assms(1) by (simp add: quiet_def calm_def)
  have "maps_ok (snd (recompute_effective_state iter prev now s))
      \<and> t_state (snd (recompute_effective_state iter prev now s)) = arbitrated_state s"
    using h assms(2) by (auto simp: recompute_effective_state_def Let_def maps_ok_def
        clear_expiry_pending_for_hidden_metadata_def)
  then show ?thesis
    using arbitrated_cong(1) [OF recompute_arbitration] by (simp add: terminal_inv_def)
qed

lemma before_op_state [simp]: "bo_state (before_op_of iter now s) = t_state s"
  by (simp add: before_op_of_def)

lemma mutation_inv:
  assumes "maps_ok s" "calm s s'" "bo_state prev = t_state s"
  shows "terminal_inv (snd (mutation_of iter prev now a b s'))"
  using recompute_inv [of s' prev iter now] assms
  by (simp add: mutation_of_def calm_def split_beta)

lemma inv_maps: "terminal_inv s \<Longrightarrow> maps_ok s"
  by (simp add: terminal_inv_def)

lemma quiet_maps: "quiet s s' \<Longrightarrow> maps_ok s \<Longrightarrow> maps_ok s'"
  by (simp add: quiet_def calm_def)

lemma calm_install:
  "calm s (if r \<noteq> None \<or> reanchor
      then drop_suppression source
        (if takeover then suppress_current_authority HookClear clock (reconcile_agent_name_owner label r s)
         else reconcile_agent_name_owner label r s)
      else if takeover then suppress_current_authority HookClear clock (reconcile_agent_name_owner label r s)
        else reconcile_agent_name_owner label r s)"
  by (auto intro!: quiet_calm intro: quiet_trans [OF quiet_trans] quiet_trans quiet_intros)

lemma install_authority_inv:
  assumes "maps_ok s"
  shows "terminal_inv (snd (install_authority iter source label st message r takeover reanchor now clock s))"
proof -
  note c = calm_authority(1) [OF calm_authority(2) [OF calm_install]]
  show ?thesis unfolding install_authority_def Let_def by (rule mutation_inv [OF assms c]) simp
qed

lemma set_hook_authority_inv:
  assumes inv: "terminal_inv s"
  shows "terminal_inv (snd (set_hook_authority_at iter source label st message r n now clock s))"
proof -
  obtain route s1 where route:
    "route_full_lifecycle_hook_report source label st message r n now s = (route, s1)" by fastforce
  with quiet_route [of s source label st message r n now] have q: "quiet s s1" by simp
  have s1: "terminal_inv s1" using quiet_inv [OF q inv] .
  have acc: "terminal_inv s3 \<and> maps_ok s3" if "accept_hook_report source n s1 = (ok, s3)" for ok s3
    using quiet_inv [OF quiet_accept s1, of source n] that by (simp add: inv_maps)
  have acc': "terminal_inv s3 \<and> maps_ok s3"
    if "accept_hook_report source n (forget_sequence source s1) = (ok, s3)" for ok s3
    using quiet_inv [OF quiet_accept quiet_inv [OF quiet_forget_sequence s1], of source n source] that
    by (simp add: inv_maps)
  show ?thesis using acc acc' s1
    by (auto simp: set_hook_authority_at_def route inv Let_def split: report_route.split prod.split bool.split
        intro!: install_authority_inv)
qed

lemma clear_hook_authority_inv:
  assumes "terminal_inv s"
  shows "terminal_inv (snd (clear_hook_authority_with_mutation iter source n now clock s))"
proof -
  have "terminal_inv s1" "maps_ok s1" if "accept_hook_report x n s = (ok, s1)" for x ok s1
    using quiet_inv [OF quiet_accept assms] that by (metis snd_conv inv_maps)+
  then show ?thesis using assms
    by (auto simp: clear_hook_authority_with_mutation_def Let_def split: option.split prod.split bool.split
        intro!: mutation_inv calm_authority quiet_calm [OF quiet_suppress_current])
qed

lemma quiet_but_detection: "calm s (clear_agent_name (forget_detection s))"
proof -
  have "calm s (forget_detection s)" by (simp add: calm_def forget_detection_def maps_ok_def)
  then show ?thesis by (rule calm_trans) (rule quiet_calm [OF quiet_clear_name])
qed

lemma release_inv:
  assumes "terminal_inv s"
  shows "terminal_inv (snd (release_agent_with_mutation iter source label n now clock s))"
proof -
  have a: "terminal_inv s1" "maps_ok s1" if "accept_hook_report x n s = (ok, s1)" for x ok s1
    using quiet_inv [OF quiet_accept assms] that by (metis snd_conv inv_maps)+
  have q: "calm s (suppress_report source label HookClear clock s)" for s
    by (rule quiet_calm [OF quiet_suppress_report])
  have "calm s (clear_agent_name (forget_detection (suppress_report source label HookClear clock s)))" for s
    by (rule calm_trans [OF q quiet_but_detection])
  with a q show ?thesis using assms
    by (auto simp: release_agent_with_mutation_def Let_def split: prod.split bool.split
        intro!: mutation_inv calm_authority)
qed

text \<open>The state of a session that is awaited.\<close>

definition awaiting :: "str \<Rightarrow> str \<Rightarrow> agent_session_ref \<Rightarrow> nat \<Rightarrow> u64 \<Rightarrow> terminal_state \<Rightarrow> terminal_state" where
  "awaiting source label r now k s =
     (let s1 = set_suppression source
             (replace_session r (suppression_entry source (blank_suppression label None now) s)) s
      in s1\<lparr>t_hook_report_sequences := hm_insert source k (t_hook_report_sequences s1)\<rparr>)"

lemma quiet_awaiting:
  assumes "full_lifecycle_hook_authority source label"
  shows "quiet s (awaiting source label r now k s)"
proof -
  define entry where
    "entry = replace_session r (suppression_entry source (blank_suppression label None now) s)"
  have e: "maps_ok s \<Longrightarrow> is_official_agent_source source (sr_agent_label entry)"
    using suppression_entry_official [OF assms] by (simp add: entry_def)
  show ?thesis unfolding awaiting_def Let_def entry_def [symmetric]
    by (rule quiet_trans [OF set_suppression_calm [OF e]]) (auto simp: quiet_defs intro: map_intros)
qed

lemma await_session_inv:
  assumes "terminal_inv s" "full_lifecycle_hook_authority source label"
  shows "terminal_inv (snd (await_session iter source label r n start_source now s))"
proof -
  have q: "quiet s (awaiting source label r now k s)" for k by (rule quiet_awaiting [OF assms(2)])
  show ?thesis
    using assms(1) quiet_inv [OF q assms(1)] calm_trans [OF quiet_calm [OF q] calm_clear_suppression]
    by (auto simp: await_session_def Let_def awaiting_def split: option.split intro!: mutation_inv inv_maps)
qed

lemma calm_install_session:
  "calm s ((if c then t\<lparr>t_managed_launch_session := None\<rparr> else t)\<lparr>t_persisted_agent_session := Some p\<rparr>)"
  if "t = reconcile_agent_name_owner label (Some r) (case replaced of
      Some x \<Rightarrow> (remember_stale_session source label x u)\<lparr>t_hook_authority := None\<rparr>
    | None \<Rightarrow> if takeover then (suppress_current_authority HookClear clock u)\<lparr>t_hook_authority := None\<rparr> else u)"
    "u = (if b then forget_stale_session source label r s else s)"
proof -
  have u: "calm s u" unfolding that(2) by (auto intro: quiet_calm quiet_forget)
  have "calm s (case replaced of
      Some x \<Rightarrow> (remember_stale_session source label x u)\<lparr>t_hook_authority := None\<rparr>
    | None \<Rightarrow> if takeover then (suppress_current_authority HookClear clock u)\<lparr>t_hook_authority := None\<rparr> else u)"
    using u by (auto split: option.split
        intro!: calm_authority calm_trans [OF u quiet_calm [OF quiet_remember]]
          calm_trans [OF u quiet_calm [OF quiet_suppress_current]])
  then have "calm s t" unfolding that(1) by (rule calm_trans) (rule quiet_calm [OF quiet_name_owner])
  then show ?thesis by (simp add: calm_def maps_ok_def)
qed

lemma install_session_inv:
  assumes "maps_ok s"
  shows "terminal_inv (snd (install_session iter source label r allowed takeover replaced now clock s))"
  unfolding install_session_def Let_def by (rule mutation_inv [OF assms calm_install_session [OF refl refl]]) simp

lemma accept_session_inv:
  assumes "terminal_inv s"
  shows "terminal_inv (snd (accept_session iter source label r start_source now clock s))"
  using assms by (auto simp: accept_session_def Let_def intro!: install_session_inv inv_maps)

lemma session_start_inv:
  assumes "terminal_inv s"
  shows "terminal_inv (snd (set_agent_session_ref_for_session_start iter source label session_ref n
    start_source now clock s))"
proof (cases session_ref)
  case None
  then show ?thesis using assms by (simp add: set_agent_session_ref_for_session_start_def)
next
  case (Some r)
  have rm: "quiet s (s\<lparr>t_suppressed := hm_remove source (t_suppressed s)\<rparr>)"
    by (auto simp: quiet_defs intro: map_intros)
  have acc: "terminal_inv s2" if "terminal_inv t" "accept_hook_report source n t = (ok, s2)" for t ok s2
    using quiet_inv [OF quiet_accept that(1), of source n] that(2) by simp
  show ?thesis using assms quiet_inv [OF rm assms] acc [OF assms] acc [OF quiet_inv [OF rm assms]]
    by (auto simp: set_agent_session_ref_for_session_start_def Some Let_def split: prod.split bool.split
        intro!: await_session_inv accept_session_inv quiet_inv [OF quiet_await_selection])
qed

lemma calm_detection: "calm s (apply_detection iter g fallback visible_blocker process_exited now clock s)"
proof -
  have 1: "calm s (case g of None \<Rightarrow> s\<lparr>t_detected_agent := g\<rparr>
      | Some g' \<Rightarrow> reconcile_agent_name_owner (agent_label g') None (s\<lparr>t_detected_agent := g\<rparr>))"
    by (auto split: option.split intro!: calm_authority calm_refl
        calm_trans [OF calm_authority(3) quiet_calm [OF quiet_name_owner]])
  have 2: "calm s (if c then clear_suppression_for_detected_agent iter x g t else t)" if "calm s t" for t c x
    using that by (auto intro: calm_trans calm_clear_suppression)
  have 3: "calm s (t\<lparr>t_fallback_state := fallback,
      t_fallback_visible_blocker := (visible_blocker \<and> fallback = Blocked),
      t_fallback_observed_at := x, t_recent_exit := y\<rparr>)" if "calm s t" for t x y
    using that by (auto simp: calm_def maps_ok_def)
  have 4: "calm s (if c then process_exit_cleanup iter g x now t else t)" if "calm s t" for t c x
    using that by (auto intro: calm_trans calm_process_exit)
  have 5: "calm s (drop_outlived_authority x g now clock t)" if "calm s t" for t x
    using that by (rule calm_trans) (rule calm_drop_outlived)
  have 6: "calm s (if c then clear_agent_name t else t)" if "calm s t" for t c
    using that by (auto intro: calm_trans quiet_calm quiet_clear_name)
  show ?thesis
    unfolding apply_detection_def Let_def
    by (rule 6, rule 5, rule 4, rule 3, rule 2, rule 1)
qed

lemma calm_keep_agent: "calm s (keep_hook_agent g s)"
  by (auto simp: keep_hook_agent_def intro: calm_authority)

lemma set_detected_inv:
  assumes "terminal_inv s"
  shows "terminal_inv (snd (set_detected_state_with_screen_signals_at iter g fallback visible_blocker
    process_exited now clock s))"
proof -
  have "maps_ok s' \<and> t_state s' = t_state s" if "calm s s'" for s' using that inv_maps [OF assms] by (simp add: calm_def)
  from this [OF calm_keep_agent] this [OF calm_detection] show ?thesis
    using inv_maps [OF assms]
    by (simp add: set_detected_state_with_screen_signals_at_def Let_def split_beta recompute_inv)
qed

lemma expire_metadata_inv:
  assumes "terminal_inv s"
  shows "terminal_inv (snd (expire_agent_metadata_at iter scheduled now s))"
proof -
  have q: "quiet s (s\<lparr>t_agent_metadata := fold hm_remove ks (t_agent_metadata s)\<rparr>)" for s ks
    by (auto simp: quiet_defs intro: map_intros)
  have "maps_ok (s\<lparr>t_agent_metadata := fold hm_remove ks (fold hm_remove ks' (t_agent_metadata s))\<rparr>)" for ks ks'
    using inv_maps [OF assms] by (auto simp: maps_ok_def intro: map_intros)
  then show ?thesis using quiet_inv [OF q assms]
    by (simp add: expire_agent_metadata_at_def Let_def split_beta recompute_inv before_op_of_def)
qed

lemma set_metadata_inv:
  assumes "terminal_inv s"
  shows "terminal_inv (snd (set_agent_metadata iter now r s))"
proof -
  obtain res s1 where acc: "accept_metadata_report (mr_source r) (mr_seq r) False
      (metadata_report_agent (mr_source r) (mr_agent_label r) (mr_applies_to_source r)) s = (res, s1)"
    by fastforce
  have s1: "terminal_inv s1"
    using quiet_inv [OF quiet_accept_metadata assms] acc by (metis snd_conv)
  let ?s2 = "drop_expired now (mr_source r) s1"
  have s2: "terminal_inv ?s2" by (rule quiet_inv [OF quiet_drop_expired s1])
  have "quiet ?s2 (arm_expiry r (store_report iter now r ?s2))"
    by (rule quiet_trans [OF quiet_store quiet_arm])
  then have "maps_ok (arm_expiry r (store_report iter now r ?s2))
      \<and> t_state (arm_expiry r (store_report iter now r ?s2)) = t_state ?s2"
    using inv_maps [OF s2] by (simp add: quiet_def calm_def)
  then have "terminal_inv (snd (recompute_effective_state iter (before_op_of iter now ?s2) now
      (arm_expiry r (store_report iter now r ?s2))))"
    by (intro recompute_inv) simp_all
  with s1 assms show ?thesis
    by (auto simp: set_agent_metadata_def acc Let_def split_beta split: sum.split bool.split
        intro: quiet_inv [OF quiet_hidden])
qed

section \<open>The machine\<close>

text \<open>The operations, each with the instants at which it reads the clock.\<close>

datatype terminal_op =
    Detected "agent option" agent_state bool bool nat nat
  | DetectedProcess agent nat nat
  | HookReport str str agent_state "str option" "agent_session_ref option" "u64 option" nat nat
  | SessionStart str str "agent_session_ref option" "u64 option" "str option" nat nat
  | ClearHook "str option" "u64 option" nat nat
  | Release str str "u64 option" nat nat
  | Metadata nat metadata_report
  | ExpireMetadata nat nat
  | FinishAcquisition
  | SetTitle "str option"
  | SetManualLabel str
  | ClearManualLabel
  | SetAgentName str
  | ClearAgentName
  | BeginManaged str agent nat nat nat
  | RestoreManaged str agent
  | ReconcileManaged nat bool
  | SetLaunchSession persisted_agent_session
  | SetPersistedSession persisted_agent_session
  | Respawned

fun terminal_step :: "hash_order \<Rightarrow> terminal_state \<Rightarrow> terminal_op \<Rightarrow> terminal_state" where
  "terminal_step iter s (Detected g st blocker exited now clock) =
     snd (set_detected_state_with_screen_signals_at iter g st blocker exited now clock s)"
| "terminal_step iter s (DetectedProcess g now clock) = snd (set_detected_agent_process_at iter g now clock s)"
| "terminal_step iter s (HookReport source label st message r n now clock) =
     snd (set_hook_authority_at iter source label st message r n now clock s)"
| "terminal_step iter s (SessionStart source label r n start_source now clock) =
     snd (set_agent_session_ref_for_session_start iter source label r n start_source now clock s)"
| "terminal_step iter s (ClearHook source n now clock) =
     snd (clear_hook_authority_with_mutation iter source n now clock s)"
| "terminal_step iter s (Release source label n now clock) =
     snd (release_agent_with_mutation iter source label n now clock s)"
| "terminal_step iter s (Metadata now r) = snd (set_agent_metadata iter now r s)"
| "terminal_step iter s (ExpireMetadata scheduled now) = snd (expire_agent_metadata_at iter scheduled now s)"
| "terminal_step iter s FinishAcquisition = snd (finish_agent_process_acquisition s)"
| "terminal_step iter s (SetTitle title) = snd (set_terminal_title title s)"
| "terminal_step iter s (SetManualLabel label) = set_manual_label label s"
| "terminal_step iter s ClearManualLabel = clear_manual_label s"
| "terminal_step iter s (SetAgentName name) = set_agent_name name s"
| "terminal_step iter s ClearAgentName = clear_agent_name s"
| "terminal_step iter s (BeginManaged name kind now settle_delay timeout) =
     begin_managed_agent name kind now settle_delay timeout s"
| "terminal_step iter s (RestoreManaged name kind) = restore_managed_agent name kind s"
| "terminal_step iter s (ReconcileManaged now exited) = snd (reconcile_managed_agent_at now exited s)"
| "terminal_step iter s (SetLaunchSession p) = set_managed_agent_launch_session p s"
| "terminal_step iter s (SetPersistedSession p) = set_persisted_agent_session p s"
| "terminal_step iter s Respawned = clear_agent_runtime_identity_after_respawn s"

lemma quiet_small_steps [quiet_intros]:
  "quiet s (snd (finish_agent_process_acquisition s))" "quiet s (snd (set_terminal_title title s))"
  "quiet s (set_manual_label label s)" "quiet s (clear_manual_label s)" "quiet s (set_agent_name name s)"
  "quiet s (begin_managed_agent name kind now settle_delay timeout s)"
  "quiet s (restore_managed_agent name kind s)" "quiet s (set_managed_agent_launch_session p s)"
  "quiet s (set_persisted_agent_session p s)"
  by (simp_all add: quiet_defs finish_agent_process_acquisition_def set_terminal_title_def Let_def
      set_manual_label_def clear_manual_label_def set_agent_name_def begin_managed_agent_def
      restore_managed_agent_def set_managed_agent_launch_session_def set_persisted_agent_session_def)

lemma quiet_phase: "quiet s (set_phase kind phase s)" "quiet s (activate kind s)"
  by (simp_all add: quiet_defs set_phase_def activate_def)

lemma quiet_reconcile [quiet_intros]: "quiet s (snd (reconcile_managed_agent_at now exited s))"
  by (auto simp: reconcile_managed_agent_at_def Let_def quiet_phase quiet_clear_name
      split: option.split managed_phase.split)

lemma respawn_inv:
  assumes "terminal_inv s"
  shows "terminal_inv (clear_agent_runtime_identity_after_respawn s)"
  unfolding clear_agent_runtime_identity_after_respawn_def
  by (rule quiet_inv [OF quiet_clear_name])
    (use inv_maps [OF assms] in \<open>simp add: terminal_inv_def maps_ok_def arbitrated_state_def
      effective_authority_def visible_blocker_overrides_hook_def\<close>)

lemma detected_process_inv:
  assumes "terminal_inv s"
  shows "terminal_inv (snd (set_detected_agent_process_at iter g now clock s))"
proof -
  have "quiet t (if c then t\<lparr>t_acquisition_pending := True\<rparr> else t)" for t c by (simp add: quiet_defs)
  from quiet_inv [OF this set_detected_inv [OF assms]] show ?thesis
    by (simp add: set_detected_agent_process_at_def Let_def split_beta)
qed

lemma terminal_step_inv: "terminal_inv s \<Longrightarrow> terminal_inv (terminal_step iter s e)"
  by (cases e) (simp_all add: set_detected_inv detected_process_inv set_hook_authority_inv
      session_start_inv clear_hook_authority_inv release_inv set_metadata_inv expire_metadata_inv respawn_inv
      quiet_inv [OF quiet_clear_name] quiet_inv [OF quiet_reconcile] quiet_inv [OF quiet_small_steps(1)]
      quiet_inv [OF quiet_small_steps(2)] quiet_inv [OF quiet_small_steps(3)]
      quiet_inv [OF quiet_small_steps(4)] quiet_inv [OF quiet_small_steps(5)]
      quiet_inv [OF quiet_small_steps(6)] quiet_inv [OF quiet_small_steps(7)]
      quiet_inv [OF quiet_small_steps(8)] quiet_inv [OF quiet_small_steps(9)])

interpretation terminals: machine "terminal_step iter" "\<lambda>_ _. True" terminal_inv
  for iter
  by unfold_locales (rule terminal_step_inv)

lemma terminal_new_inv: "terminal_inv (terminal_new id0 cwd)"
  by (simp add: terminal_inv_def maps_ok_def terminal_new_def arbitrated_state_def
      effective_authority_def visible_blocker_overrides_hook_def)

lemma terminal_run_inv: "terminal_inv (foldl (terminal_step iter) (terminal_new id0 cwd) ops)"
  by (rule terminals.run_inv [OF terminal_new_inv]) simp

section \<open>The shown state\<close>

text \<open>
  C17: After any sequence of detections, hook and session reports, releases, metadata reports and the
  other operations, the state shown for a terminal is the one of the authority in force, if there is
  one: always, when the authority reports the full life cycle of its agent; otherwise unless a blocker seen
  on the screen of the same agent no earlier than the report overrides it. Without an authority in force it is
  the state that was detected. It is never out of date with respect to the last operation.
\<close>

theorem shown_state_arbitrated:
  "let s = foldl (terminal_step iter) (terminal_new id0 cwd) ops
   in t_state s =
     (case effective_authority s of
        None \<Rightarrow> t_fallback_state s
      | Some a \<Rightarrow>
          if \<not> full_lifecycle_hook_authority (ha_source a) (ha_agent_label a)
             \<and> t_fallback_visible_blocker s
             \<and> (\<exists>t. t_fallback_observed_at s = Some t \<and> ha_reported_at a \<le> t)
             \<and> parse_agent_label (ha_agent_label a) = t_detected_agent s
          then Blocked else ha_state a)"
proof -
  define s where "s = foldl (terminal_step iter) (terminal_new id0 cwd) ops"
  have inv: "terminal_inv s" unfolding s_def by (rule terminal_run_inv)
  then have st: "t_state s = arbitrated_state s"
    and blocker: "t_fallback_visible_blocker s \<Longrightarrow> t_fallback_state s = Blocked"
    by (simp_all add: terminal_inv_def maps_ok_def)
  have "arbitrated_state s =
     (case effective_authority s of
        None \<Rightarrow> t_fallback_state s
      | Some a \<Rightarrow>
          if \<not> full_lifecycle_hook_authority (ha_source a) (ha_agent_label a)
             \<and> t_fallback_visible_blocker s
             \<and> (\<exists>t. t_fallback_observed_at s = Some t \<and> ha_reported_at a \<le> t)
             \<and> parse_agent_label (ha_agent_label a) = t_detected_agent s
          then Blocked else ha_state a)"
  proof (cases "effective_authority s")
    case None
    then show ?thesis using blocker by (auto simp: arbitrated_state_def visible_blocker_overrides_hook_def)
  next
    case (Some a)
    then have "t_hook_authority s = Some a" "hook_authority_is_effective a s"
      by (auto simp: effective_authority_def split: option.splits if_splits)
    with Some show ?thesis
      by (auto simp: arbitrated_state_def visible_blocker_overrides_hook_def
          live_full_lifecycle_hook_authority_def fallback_not_older_than_hook_def split: option.splits)
  qed
  then show ?thesis using st by (simp add: s_def [symmetric] Let_def)
qed

section \<open>Hook reports\<close>

definition may_reanchor :: "str \<Rightarrow> str \<Rightarrow> agent_session_ref option \<Rightarrow> terminal_state \<Rightarrow> bool" where
  "may_reanchor source label r s \<longleftrightarrow>
     full_lifecycle_hook_authority source label
     \<and> (fresh_session_after_stale source label r s
        \<or> (\<exists>entry. map_of (t_suppressed s) source = Some entry \<and> sr_reason entry = HookClear
             \<and> sessions_differ (sr_session_ref entry) r))"

lemma route_cases:
  assumes "route_full_lifecycle_hook_report source label st message r n t s = (route, s1)"
  shows "same_arbitration s s1 \<and> t_persisted_agent_session s1 = t_persisted_agent_session s
    \<and> t_state s1 = t_state s \<and> t_hook_report_sequences s1 = t_hook_report_sequences s
    \<and> t_agent_name s1 = t_agent_name s"
    and "route = Accept b \<Longrightarrow> s1 = s \<and> \<not> matches_stale_session source label r s
      \<and> (b \<longrightarrow> may_reanchor source label r s)"
  using assms
  by (auto simp: route_full_lifecycle_hook_report_def accept_or_park_def park_report_def Let_def
      same_arbitration_def may_reanchor_def matches_stale_session_def split: option.splits if_splits)

lemma accept_hook_cases:
  assumes "accept_hook_report source n s = (ok, s1)"
  shows "same_arbitration s s1 \<and> t_persisted_agent_session s1 = t_persisted_agent_session s
    \<and> t_state s1 = t_state s \<and> t_agent_name s1 = t_agent_name s"
    and "ok \<Longrightarrow> n = Some k \<Longrightarrow> \<not> not_after_last source k s
      \<and> map_of (t_hook_report_sequences s1) source = Some k"
    and "ok \<Longrightarrow> n = None \<Longrightarrow> map_of (t_hook_report_sequences s) source = None"
  using assms
  by (auto simp: accept_hook_report_def same_arbitration_def not_after_last_def update_conv'
      hm_contains_def split: option.splits if_splits)

lemma name_owner_keeps:
  "t_hook_report_sequences (reconcile_agent_name_owner label r s) = t_hook_report_sequences s"
  by (simp add: reconcile_agent_name_owner_def split: option.split)

lemma install_authority_effect:
  assumes "install_authority iter source label st message r takeover reanchor now clock s = (res, s')"
  shows "res \<noteq> None \<and> t_hook_report_sequences s' = t_hook_report_sequences s
    \<and> t_persisted_agent_session s' = None
    \<and> t_hook_authority s' = Some \<lparr>ha_source = source, ha_agent_label = label, ha_state = st,
         ha_message = message, ha_reported_at = now, ha_session_ref = r\<rparr>"
proof -
  have d: "t_hook_report_sequences (drop_suppression source t) = t_hook_report_sequences t" for t
    by (simp add: drop_suppression_def remember_stale_session_def Let_def split: option.split)
  have u: "t_hook_report_sequences (suppress_current_authority reason clock t) = t_hook_report_sequences t"
    for t reason
    by (simp add: suppress_current_authority_def suppress_with_session_ref_def split: option.split)
  show ?thesis
    using assms by (auto simp: install_authority_def mutation_of_def Let_def recompute_effective_state_def
        clear_expiry_pending_for_hidden_metadata_def d u name_owner_keeps split: if_splits)
qed

lemma same_arbitration_trans: "same_arbitration s t \<Longrightarrow> same_arbitration t u \<Longrightarrow> same_arbitration s u"
  by (simp add: same_arbitration_def)

lemma forget_sequence_fields:
  "same_arbitration s (forget_sequence source s)"
  "t_persisted_agent_session (forget_sequence source s) = t_persisted_agent_session s"
  "t_state (forget_sequence source s) = t_state s" "t_agent_name (forget_sequence source s) = t_agent_name s"
  by (simp_all add: forget_sequence_def same_arbitration_def)


end
