(* ===== verification/TerminalExit.thy ===== *)
theory TerminalExit
  imports TerminalRuns
begin

text \<open>
  What a terminal forgets: the agent of a process that has exited, which no report brings back before
  another process is seen, and metadata whose time is up. With concrete runs of the operations, at
  which the properties of \<open>TerminalRuns\<close> and of this theory apply.
\<close>

section \<open>After an exit\<close>

text \<open>
  \<open>hidden g s\<close>: the exit of agent \<open>g\<close> is on record, and an authority that claims to be \<open>g\<close> can only be
  one of a full life cycle, which is not in force without its process.
\<close>

definition hidden :: "agent \<Rightarrow> terminal_state \<Rightarrow> bool" where
  "hidden g s \<longleftrightarrow>
     (\<exists>e. t_recent_exit s = Some e \<and> pe_agent e = g)
     \<and> (\<forall>a. t_hook_authority s = Some a \<longrightarrow> parse_agent_label (ha_agent_label a) = Some g
          \<longrightarrow> full_lifecycle_hook_authority (ha_source a) (ha_agent_label a))"

lemma hidden_agent: "hidden g s \<Longrightarrow> effective_known_agent s \<noteq> Some g"
  by (auto simp: hidden_def effective_known_agent_def effective_agent_label_def effective_authority_def
      hook_authority_is_effective_def split: option.splits if_splits)

lemma hidden_same: "hidden g s \<Longrightarrow> same_arbitration s s' \<Longrightarrow> hidden g s'"
  by (simp add: hidden_def same_arbitration_def)

lemma hidden_cleared:
  "hidden g s \<Longrightarrow> t_recent_exit s' = t_recent_exit s
    \<Longrightarrow> t_hook_authority s' = None \<or> t_hook_authority s' = t_hook_authority s \<Longrightarrow> hidden g s'"
  by (auto simp: hidden_def)

lemma quiet_same: "quiet s s' \<Longrightarrow> same_arbitration s s'"
  by (simp add: quiet_def)

lemma mutation_same: "same_arbitration s (snd (mutation_of iter prev now a b s))"
  using recompute_arbitration [of s iter prev now] by (simp add: mutation_of_def split_beta)

lemma exit_process_absent: "hidden g s \<Longrightarrow> \<not> process_present label s"
  by (auto simp: hidden_def process_present_def split: option.split)

lemma install_authority_exit:
  "t_recent_exit (snd (install_authority iter source label st message r takeover reanchor now clock s))
    = t_recent_exit s"
proof -
  have q: "t_recent_exit t' = t_recent_exit t" if "same_arbitration t t'" for t t'
    using that by (simp add: same_arbitration_def)
  show ?thesis unfolding install_authority_def Let_def
    by (simp add: q [OF mutation_same] q [OF quiet_same [OF quiet_name_owner]]
        q [OF quiet_same [OF quiet_suppress_current]] q [OF quiet_same [OF quiet_drop_suppression]])
qed

lemma hidden_hook_report:
  assumes h: "hidden g s"
  shows "hidden g (snd (set_hook_authority_at iter source label st message r n now clock s))"
proof -
  obtain route s1 where route:
    "route_full_lifecycle_hook_report source label st message r n now s = (route, s1)" by fastforce
  have s1: "hidden g s1" using hidden_same [OF h] route_cases(1) [OF route] by blast
  have acc: "hidden g u" if "hidden g t" "accept_hook_report source n t = (ok, u)" for t ok u
    using accept_hook_cases(1) [OF that(2)] hidden_same [OF that(1)] by blast
  note accs = acc [OF s1] acc [OF hidden_same [OF s1 forget_sequence_fields(1) [of s1 source]]]
  have inst: "hidden g (snd (install_authority iter source label st message r' takeover reanchor now clock t))"
    if "hidden g t" "full_lifecycle_hook_authority source label \<or> parse_agent_label label \<noteq> Some g"
    for t r' takeover reanchor
  proof -
    obtain res u where u: "install_authority iter source label st message r' takeover reanchor now clock t = (res, u)"
      by fastforce
    have "t_recent_exit u = t_recent_exit t"
      using install_authority_exit [of iter source label st message r' takeover reanchor now clock t] u by simp
    then show ?thesis using install_authority_effect [OF u] that u by (auto simp: hidden_def)
  qed
  have "parse_agent_label label \<noteq> Some g"
    if "\<not> (case t_recent_exit s of None \<Rightarrow> False | Some e \<Rightarrow> parse_agent_label label = Some (pe_agent e))"
    using that h by (auto simp: hidden_def)
  with h s1 accs inst show ?thesis
    by (auto simp: set_hook_authority_at_def route Let_def split: report_route.split prod.split bool.split)
qed

lemma hidden_session_start:
  assumes h: "hidden g s"
  shows "hidden g (snd (set_agent_session_ref_for_session_start iter source label session_ref n
    start_source now clock s))"
proof -
  have aw: "hidden g (snd (await_session iter source label r n start_source now t))" if "hidden g t" for r t
    using that exit_process_absent [OF that, of label]
    by (auto simp: await_session_def Let_def set_suppression_def split: option.split
        intro!: hidden_cleared [OF that])
  have ins: "hidden g (snd (install_session iter source label r allowed takeover replaced now clock t))"
    if "hidden g t" for r allowed takeover replaced t
  proof -
    have f: "t_recent_exit t' = t_recent_exit t \<and> t_hook_authority t' = t_hook_authority t"
      if "same_arbitration t t'" for t t' using that by (simp add: same_arbitration_def)
    show ?thesis
      by (rule hidden_cleared [OF that])
        (auto simp: install_session_def Let_def f [OF mutation_same] f [OF quiet_same [OF quiet_name_owner]]
          f [OF quiet_same [OF quiet_forget]] f [OF quiet_same [OF quiet_remember]]
          f [OF quiet_same [OF quiet_suppress_current]] split: option.split)
  qed
  have acs: "hidden g (snd (accept_session iter source label r start_source now clock t))" if "hidden g t" for r t
    using that by (auto simp: accept_session_def Let_def intro!: ins)
  have rm: "hidden g (t\<lparr>t_suppressed := x\<rparr>)" if "hidden g t" for t x
    using that by (rule hidden_cleared) simp_all
  have acc: "hidden g u" if "hidden g t" "accept_hook_report source n t = (ok, u)" for t ok u
    using accept_hook_cases(1) [OF that(2)] hidden_same [OF that(1)] by blast
  show ?thesis using h acc [OF h] acc [OF rm [OF h]]
    by (auto simp: set_agent_session_ref_for_session_start_def Let_def await_selection_def
        set_suppression_def split: option.split prod.split bool.split intro!: aw acs rm)
qed

text \<open>The operations that report; detections and a respawn of the terminal are not among them.\<close>

fun is_report :: "terminal_op \<Rightarrow> bool" where
  "is_report (Detected _ _ _ _ _ _) = False"
| "is_report (DetectedProcess _ _ _) = False"
| "is_report Respawned = False"
| "is_report _ = True"

lemma hidden_clear:
  assumes h: "hidden g s"
  shows "hidden g (snd (clear_hook_authority_with_mutation iter source n now clock s))"
proof -
  have acc: "hidden g u" if "accept_hook_report x n s = (ok, u)" for x ok u
    using accept_hook_cases(1) [OF that] hidden_same [OF h] by blast
  have f: "t_recent_exit t' = t_recent_exit t \<and> t_hook_authority t' = t_hook_authority t"
    if "same_arbitration t t'" for t t' using that by (simp add: same_arbitration_def)
  have "hidden g (snd (mutation_of iter prev now b c ((suppress_current_authority HookClear clock u)
      \<lparr>t_hook_authority := None, t_persisted_agent_session := None\<rparr>)))" if "hidden g u" for u prev b c
    by (rule hidden_cleared [OF that])
      (simp_all add: f [OF mutation_same] f [OF quiet_same [OF quiet_suppress_current]])
  then show ?thesis using h acc
    by (auto simp: clear_hook_authority_with_mutation_def Let_def split: option.split prod.split bool.split)
qed

lemma hidden_release:
  assumes h: "hidden g s"
  shows "hidden g (snd (release_agent_with_mutation iter source label n now clock s))"
proof -
  have acc: "hidden g u" if "accept_hook_report x n s = (ok, u)" for x ok u
    using accept_hook_cases(1) [OF that] hidden_same [OF h] by blast
  have f: "t_recent_exit t' = t_recent_exit t \<and> t_hook_authority t' = t_hook_authority t"
    if "same_arbitration t t'" for t t' using that by (simp add: same_arbitration_def)
  have c: "t_recent_exit (forget_detection t) = t_recent_exit t" for t
    by (simp add: forget_detection_def)
  have "hidden g (snd (release_agent_with_mutation iter source label n now clock s))"
    if u: "accept_hook_report source n s = (True, u)" for u
    by (rule hidden_cleared [OF acc [OF u]])
      (auto simp: release_agent_with_mutation_def Let_def u f [OF mutation_same] c
        f [OF quiet_same [OF quiet_suppress_report]] acc [OF u] f [OF conjunct1 [OF accept_hook_cases(1) [OF u]]])
  note taken = this
  obtain ok u where u: "accept_hook_report source n s = (ok, u)" by fastforce
  show ?thesis
  proof (cases ok)
    case True
    then show ?thesis using taken u by simp
  next
    case False
    then show ?thesis using h acc [OF u] u by (simp add: release_agent_with_mutation_def)
  qed
qed

lemma same_metadata: "same_arbitration s (snd (set_agent_metadata iter now r s))"
  "same_arbitration s (snd (expire_agent_metadata_at iter scheduled now s))"
proof -
  have a: "same_arbitration s (snd (accept_metadata_report source n tokens g s))" for source n tokens g
    by (rule quiet_same [OF quiet_accept_metadata])
  have b: "same_arbitration t (arm_expiry r (store_report iter now r (drop_expired now source t)))" for t source
    by (rule quiet_same [OF quiet_trans [OF quiet_trans [OF quiet_drop_expired quiet_store] quiet_arm]])
  have c: "same_arbitration t (if x then clear_expiry_pending_for_hidden_metadata t else t)" for t x
    using quiet_same [OF quiet_hidden, of t] by simp
  note chain = same_arbitration_trans [OF same_arbitration_trans [OF same_arbitration_trans [OF a b]
        recompute_arbitration] c]
  obtain res s1 where acc: "accept_metadata_report (mr_source r) (mr_seq r) False
      (metadata_report_agent (mr_source r) (mr_agent_label r) (mr_applies_to_source r)) s = (res, s1)"
    by fastforce
  have "same_arbitration s s1" using a acc by (metis snd_conv)
  note chain' = same_arbitration_trans [OF same_arbitration_trans [OF same_arbitration_trans [OF this b]
        recompute_arbitration] c]
  show "same_arbitration s (snd (set_agent_metadata iter now r s))"
    using chain' \<open>same_arbitration s s1\<close>
    by (simp add: set_agent_metadata_def acc Let_def split_beta split: sum.split bool.split)
  have m: "same_arbitration s (s\<lparr>t_agent_metadata := x\<rparr>)" for x by (simp add: same_arbitration_def)
  show "same_arbitration s (snd (expire_agent_metadata_at iter scheduled now s))"
    using same_arbitration_trans [OF m recompute_arbitration] m
    by (simp add: expire_agent_metadata_at_def Let_def split_beta)
qed

lemma hidden_step: "hidden g s \<Longrightarrow> is_report e \<Longrightarrow> hidden g (terminal_step iter s e)"
  by (cases e) (simp_all add: hidden_hook_report hidden_session_start hidden_clear hidden_release
      hidden_same [OF _ same_metadata(1)] hidden_same [OF _ same_metadata(2)]
      hidden_same [OF _ quiet_same [OF quiet_clear_name]] hidden_same [OF _ quiet_same [OF quiet_reconcile]]
      hidden_same [OF _ quiet_same [OF quiet_small_steps(1)]] hidden_same [OF _ quiet_same [OF quiet_small_steps(2)]]
      hidden_same [OF _ quiet_same [OF quiet_small_steps(3)]] hidden_same [OF _ quiet_same [OF quiet_small_steps(4)]]
      hidden_same [OF _ quiet_same [OF quiet_small_steps(5)]] hidden_same [OF _ quiet_same [OF quiet_small_steps(6)]]
      hidden_same [OF _ quiet_same [OF quiet_small_steps(7)]] hidden_same [OF _ quiet_same [OF quiet_small_steps(8)]]
      hidden_same [OF _ quiet_same [OF quiet_small_steps(9)]])

interpretation after_exit: machine "terminal_step iter" "\<lambda>_. is_report" "hidden g"
  for iter g
  by unfold_locales (rule hidden_step)

lemma exit_hides:
  assumes "\<not> newer_custom_authority (Some g) True now s"
  shows "hidden g (terminal_step iter s (Detected (Some g) st blocker True now clock))"
proof -
  have f: "t_recent_exit t' = t_recent_exit t \<and> t_hook_authority t' = t_hook_authority t"
    if "same_arbitration t t'" for t t' using that by (simp add: same_arbitration_def)
  have e: "t_recent_exit (exit_authority h b t) = t_recent_exit t"
    "t_hook_authority (exit_authority (Some g) False t) = Some a \<Longrightarrow> parse_agent_label (ha_agent_label a) \<noteq> Some g"
    for h b t a
    by (auto simp: exit_authority_def forget_sequence_def split: option.splits if_splits)
  have cleanup: "hidden g (process_exit_cleanup iter (Some g) False now t)"
    if "t_recent_exit t = Some \<lparr>pe_agent = g, pe_observed_at = now\<rparr>" for t
    using that e(2) by (auto simp: hidden_def process_exit_cleanup_def Let_def e(1)
        f [OF quiet_same [OF quiet_exit_metadata]] f [OF quiet_same [OF quiet_exit_persisted]]
        f [OF quiet_same [OF quiet_exit_official]] f [OF quiet_same [OF quiet_exit_suppressed]])
  have "hidden g (drop_outlived_authority p h now clock t)" if "hidden g t" for p h t
    by (rule hidden_cleared [OF that])
      (simp_all add: drop_outlived_authority_def Let_def f [OF quiet_same [OF quiet_suppress_current]])
  note dropped = this [OF cleanup]
  have "hidden g (apply_detection iter (Some g) st blocker True now clock s)"
    using assms by (auto simp: apply_detection_def Let_def intro!: dropped)
  then show ?thesis
    by (simp add: set_detected_state_with_screen_signals_at_def should_ignore_detected_state_def Let_def
        split_beta hidden_same [OF _ recompute_arbitration])
qed


section \<open>Metadata that expires\<close>

lemma map_of_fold_remove: "map_of (fold hm_remove ks m) k = (if k \<in> set ks then None else map_of m k)"
  by (induction ks arbitrary: m) auto

definition unarmed :: "agent_metadata \<Rightarrow> agent_metadata" where
  "unarmed m = m\<lparr>am_expiry_event_pending := False\<rparr>"

lemma unarmed_expiry: "agent_metadata_expiry (unarmed m) = agent_metadata_expiry m"
  by (simp add: unarmed_def agent_metadata_expiry_def)

lemma expired_iff: "agent_metadata_is_expired m now \<longleftrightarrow> (\<exists>d. agent_metadata_expiry m = Some d \<and> d \<le> now)"
  by (auto simp: agent_metadata_is_expired_def split: option.splits)

lemma set_due:
  assumes "iter_ok iter"
  shows "(k, d) \<in> set (List.map_filter (\<lambda>(k, m). map_option (Pair k) (f m)) (hm_entries iter ms))
    \<longleftrightarrow> (\<exists>m. map_of ms k = Some m \<and> f m = Some d)"
proof -
  have "(k, d) \<in> set (List.map_filter (\<lambda>(k, m). map_option (Pair k) (f m)) xs)
      \<longleftrightarrow> (\<exists>m. (k, m) \<in> set xs \<and> f m = Some d)" for xs
    by (induction xs) (auto simp: map_filter_simps' split: option.splits)
  then show ?thesis by (simp add: set_hm_entries [OF assms])
qed

lemma unarmed_recompute:
  "map_option unarmed (map_of (t_agent_metadata (snd (recompute_effective_state iter prev now s))) source)
    = map_option unarmed (map_of (t_agent_metadata s) source)"
  by (cases "map_of (t_agent_metadata s) source")
    (simp_all add: recompute_effective_state_def Let_def clear_expiry_pending_for_hidden_metadata_def unarmed_def)

lemma expire_metadata_map:
  assumes "iter_ok iter"
  shows "map_option unarmed (map_of (t_agent_metadata (snd (expire_agent_metadata_at iter scheduled now s))) source)
    = (case map_of (t_agent_metadata s) source of
         None \<Rightarrow> None
       | Some m \<Rightarrow> if agent_metadata_is_expired m now then None else Some (unarmed m))"
proof -
  define due where "due = filter (\<lambda>(_, d). d \<le> now)
    (List.map_filter (\<lambda>(k, m). map_option (Pair k) (agent_metadata_expiry m)) (hm_entries iter (t_agent_metadata s)))"
  define expired where "expired = map fst (filter (\<lambda>(_, d). scheduled \<le> d) due)"
  define stale where "stale = map fst (filter (\<lambda>(_, d). \<not> scheduled \<le> d) due)"
  have due: "(k, d) \<in> set due \<longleftrightarrow> (\<exists>m. map_of (t_agent_metadata s) k = Some m
      \<and> agent_metadata_expiry m = Some d) \<and> d \<le> now" for k d
    by (simp add: due_def set_due [OF assms])
  have "source \<in> set expired \<or> source \<in> set stale \<longleftrightarrow> (\<exists>d. (source, d) \<in> set due)"
    by (auto simp: expired_def stale_def image_iff)
  then have mem: "source \<in> set expired \<or> source \<in> set stale \<longleftrightarrow>
      (\<exists>m. map_of (t_agent_metadata s) source = Some m \<and> agent_metadata_is_expired m now)"
    using due by (simp add: expired_iff) blast
  have "map_option unarmed (map_of (t_agent_metadata (snd (expire_agent_metadata_at iter scheduled now s))) source)
    = map_option unarmed (map_of (fold hm_remove expired (fold hm_remove stale (t_agent_metadata s))) source)"
    unfolding expire_agent_metadata_at_def due_def [symmetric] expired_def [symmetric] stale_def [symmetric] Let_def
    by (simp add: split_beta unarmed_recompute)
  also have "\<dots> = map_option unarmed
      (if source \<in> set expired \<or> source \<in> set stale then None else map_of (t_agent_metadata s) source)"
    by (auto simp: map_of_fold_remove)
  finally show ?thesis using mem by (auto split: option.splits)
qed

text \<open>
  Metadata expires when it says. Waking up for an expiry at \<open>now\<close>, whatever deadline the wake-up was
  scheduled for, drops exactly the entries whose time is up at \<open>now\<close> and keeps all others (but for the flag that
  arms the event of a hidden one); what is shown no longer depends on enforcing the limits, and the next expiry
  announced lies after \<open>now\<close>, so that the terminal is not woken again for the same deadline.
\<close>

theorem metadata_expires:
  fixes s now scheduled
  assumes "iter_ok iter"
  defines "s' \<equiv> snd (expire_agent_metadata_at iter scheduled now s)"
  shows "map_option unarmed (map_of (t_agent_metadata s') source)
      = (case map_of (t_agent_metadata s) source of
           None \<Rightarrow> None
         | Some m \<Rightarrow> if agent_metadata_is_expired m now then None else Some (unarmed m))
    \<and> effective_presentation_with_ttl iter now True s' = effective_presentation_with_ttl iter now False s'
    \<and> (case next_agent_metadata_expiry iter now s' of None \<Rightarrow> True | Some d \<Rightarrow> now < d)"
proof -
  note m = expire_metadata_map [OF assms(1), of scheduled now s, folded s'_def]
  have live: "\<not> agent_metadata_is_expired e now" if "map_of (t_agent_metadata s') k = Some e" for k e
    using m [of k] that unarmed_expiry [of e]
    by (auto simp: expired_iff split: option.splits if_splits) (metis unarmed_expiry)
  have vals: "\<not> agent_metadata_is_expired e now" if "e \<in> set (hm_values iter (t_agent_metadata s'))" for e
    using that live by (auto simp: set_hm_values [OF assms(1)])
  have "valid_agent_metadata iter now True s' = valid_agent_metadata iter now False s'"
    unfolding valid_agent_metadata_def using vals by (auto simp: agent_metadata_is_valid_def intro!: filter_cong)
  then have p: "effective_presentation_with_ttl iter now True s' = effective_presentation_with_ttl iter now False s'"
    by (simp add: effective_presentation_with_ttl_def newest_metadata_title_def
        newest_metadata_display_agent_def effective_metadata_state_labels_def)
  have "now < d" if n: "next_agent_metadata_expiry iter now s' = Some d" for d
  proof -
    obtain e where "e \<in> set (hm_values iter (t_agent_metadata s'))" "agent_metadata_expiry e = Some d"
      using min_opt_SomeD [OF n [unfolded next_agent_metadata_expiry_def Let_def]]
      by (auto simp: List.map_filter_def)
    then show ?thesis using vals [of e] by (auto simp: expired_iff)
  qed
  with m p show ?thesis by (auto split: option.splits)
qed

section \<open>Concrete runs\<close>

text \<open>Claude working in a terminal, as its process and a numbered hook report tell; then its process exits.\<close>

definition demo_terminal :: terminal_state where
  "demo_terminal = (terminal_new (lit ''term_1'') (lit ''/''))
     \<lparr>t_detected_agent := Some Claude, t_fallback_state := Idle, t_fallback_observed_at := Some 5,
      t_hook_report_sequences := [(lit ''herdr:claude'', 4)], t_state := Idle\<rparr>"

abbreviation demo_report :: "terminal_op" where
  "demo_report \<equiv> HookReport (lit ''herdr:claude'') (lit ''claude'') Working None None (Some 5) 10 10"

lemma demo_claude:
  "\<not> full_lifecycle_hook_authority (lit ''herdr:claude'') (lit ''claude'')"
  "\<not> session_identity_only_integration (lit ''herdr:claude'') (lit ''claude'')"
  "parse_agent_label (lit ''claude'') = Some Claude"
  using parse_label [of Claude]
  by (simp_all add: full_lifecycle_hook_authority_def session_identity_only_integration_def
      is_pair_def full_lifecycle_pairs_def)

lemma demo_report_taken:
  "fst (set_hook_authority_at id (lit ''herdr:claude'') (lit ''claude'') Working None None (Some 5) 10 10
    demo_terminal) \<noteq> None"
proof -
  have "route_full_lifecycle_hook_report (lit ''herdr:claude'') (lit ''claude'') Working None None (Some 5) 10
      demo_terminal = (Accept False, demo_terminal)"
    by (simp add: route_full_lifecycle_hook_report_def demo_claude)
  then show ?thesis
    by (simp add: set_hook_authority_at_def demo_claude demo_terminal_def terminal_new_def Let_def
        known_label_conflicts_with_detected_agent_def current_session_owner_conflicts_def
        current_session_identity_def kept_session_ref_def live_authority_conflicts_with_session_def
        accept_hook_report_def install_authority_def mutation_of_def split_beta)
qed



definition demo_metadata :: terminal_state where
  "demo_metadata = demo_terminal\<lparr>t_agent_metadata :=
     [(lit ''user'', report_entry 5
        \<lparr>mr_source = lit ''user'', mr_agent_label = None, mr_applies_to_source = None,
         mr_title = Some (lit ''fix''), mr_display_agent = None, mr_state_labels = [],
         mr_clear_title = False, mr_clear_display_agent = False, mr_clear_state_labels = False,
         mr_ttl = Some 10, mr_seq = None\<rparr>)]\<rparr>"

lemma metadata_expires_witness:
  "map_option unarmed (map_of (t_agent_metadata (snd (expire_agent_metadata_at rev 15 15 demo_metadata)))
     (lit ''user'')) = None"
proof -
  have "agent_metadata_is_expired m 15" if "map_of (t_agent_metadata demo_metadata) (lit ''user'') = Some m" for m
  proof -
    have "agent_metadata_expiry m = Some 15"
      using that by (auto simp: demo_metadata_def report_entry_def agent_metadata_expiry_def
          instant_add_or_def instant_checked_add_def)
    then show ?thesis by (simp add: agent_metadata_is_expired_def)
  qed
  then show ?thesis
    using metadata_expires [of rev 15 15 demo_metadata "lit ''user''"] iter_ok_id(2)
    by (auto split: option.splits)
qed

end
