(* ===== verification/AppState.thy ===== *)
theory AppState
  imports WorkspaceRuns TerminalRuns
begin

text \<open>
  The state of the application (\<open>app/state.rs\<close>): the workspaces, the terminals their panes show, which
  workspace is active, the aliases of pane ids, and the notifications about agents. Left out are the organization, which
  has its own theory, the configuration that only drawing reads, and the view.
\<close>

section \<open>Notifications\<close>

datatype toast_kind = NeedsAttention | Finished | UpdateInstalled

datatype sound = SoundDone | SoundRequest

record focus_target =
  ft_workspace_id :: str
  ft_pane_id :: pane_id

text \<open>
  A toast points at a pane by the same two fields as \<open>PaneFocusTarget\<close>. Its context line and its position, which only
  drawing uses, are left out.
\<close>

record toast_notification =
  to_kind :: toast_kind
  to_title :: str
  to_target :: "focus_target option"

record pending_notification =
  pn_pane_id :: pane_id
  pn_workspace_id :: str
  pn_agent_label :: str
  pn_known_agent :: "agent option"
  pn_kind :: toast_kind
  pn_state :: agent_state
  pn_deadline :: nat

section \<open>Configuration\<close>

datatype toast_delivery = DeliveryOff | DeliveryHerdr | DeliveryTerminal | DeliverySystem

datatype agent_sound_setting = SoundDefault | SoundOn | SoundOff

text \<open>The overrides (\<open>AgentSoundOverrides\<close>) are a setting for each agent that has one.\<close>

record sound_config =
  sd_enabled :: bool
  sd_agents :: "agent \<Rightarrow> agent_sound_setting"

definition for_agent :: "agent option \<Rightarrow> sound_config \<Rightarrow> agent_sound_setting" where
  "for_agent a c =
    (case a of
       None \<Rightarrow> SoundDefault
     | Some a \<Rightarrow> if a = Omp \<or> a = Mastracode then SoundDefault else sd_agents c a)"

definition allows :: "agent option \<Rightarrow> sound_config \<Rightarrow> bool" where
  "allows a c \<longleftrightarrow> sd_enabled c \<and> for_agent a c \<noteq> SoundOff"

record toast_config =
  tc_delivery :: toast_delivery
  tc_delay_seconds :: u64

section \<open>The state\<close>

text \<open>
  \<open>as_terminal_mode\<close> tells whether the mode is \<open>Terminal\<close>. Of the plugin panes only the keys are kept. The pending
  notifications are walked in an order of their own, so they are an association list. The counter is the global
  one new workspaces take their number from.
\<close>

record app_state =
  as_workspaces :: "app_workspace list"
  as_active :: "nat option"
  as_selected :: nat
  as_terminals :: "terminal_id \<rightharpoonup> terminal_state"
  as_pane_id_aliases :: "u32 \<rightharpoonup> pane_id"
  as_public_aliases :: "str \<rightharpoonup> pane_id"
  as_previous_focus :: "focus_target option"
  as_terminal_mode :: bool
  as_session_dirty :: bool
  as_shutdowns :: "terminal_id list"
  as_plugin_panes :: "pane_id set"
  as_toast :: "toast_notification option"
  as_pending :: "(pane_id \<times> pending_notification) list"
  as_outer_focus :: "bool option"
  as_next_change_seq :: u64
  as_confirm_close :: bool
  as_sound :: sound_config
  as_toast_config :: toast_config
  as_counter :: u64

end
