(* ===== verification/AppIds.thy ===== *)
theory AppIds
  imports AppState
begin

text \<open>
  The identifiers in API requests (\<open>app/ids.rs\<close>): workspaces, tabs and panes are named by their public
  ids, by ordinal numbers, by older spellings, and panes also by ids they had before they moved to
  another workspace.
\<close>

section \<open>Finding and naming\<close>

definition find_pane :: "pane_id \<Rightarrow> app_state \<Rightarrow> (nat \<times> pane_state) option" where
  "find_pane i s =
    (case position (\<lambda>w. find_pane_state i w \<noteq> None) (as_workspaces s) of
       None \<Rightarrow> None
     | Some k \<Rightarrow> map_option (Pair k) (find_pane_state i (as_workspaces s ! k)))"

definition workspace_at :: "nat \<Rightarrow> app_state \<Rightarrow> app_workspace option" where
  "workspace_at k s = (if k < length (as_workspaces s) then Some (as_workspaces s ! k) else None)"

text \<open>\<open>public_workspace_id\<close> indexes the vector, so it panics (\<open>None\<close>) out of range.\<close>

definition public_workspace_id :: "nat \<Rightarrow> app_state \<Rightarrow> str option" where
  "public_workspace_id k s = map_option wk_id (workspace_at k s)"

definition public_tab_id :: "nat \<Rightarrow> nat \<Rightarrow> app_state \<Rightarrow> str option" where
  "public_tab_id k tab_idx s =
    (case workspace_at k s of
       None \<Rightarrow> None
     | Some w \<Rightarrow> map_option (public_tab_id_for_number (wk_id w)) (public_tab_number tab_idx w))"

definition public_pane_id :: "nat \<Rightarrow> pane_id \<Rightarrow> app_state \<Rightarrow> str option" where
  "public_pane_id k i s =
    (case workspace_at k s of
       None \<Rightarrow> None
     | Some w \<Rightarrow> map_option (public_pane_id_for_number (wk_id w)) (public_pane_number i w))"

section \<open>Parsing\<close>

text \<open>\<open>rsplit_once\<close> splits at the last occurrence of a pattern.\<close>

fun rsplit_once :: "str \<Rightarrow> str \<Rightarrow> (str \<times> str) option" where
  "rsplit_once pat [] = None"
| "rsplit_once pat (c # cs) =
     (case rsplit_once pat cs of
        Some (before, after) \<Rightarrow> Some (c # before, after)
      | None \<Rightarrow> map_option (Pair []) (strip_prefix pat (c # cs)))"

text \<open>\<open>parse::<usize>().ok()?.checked_sub(1)\<close>: an ordinal, counted from one.\<close>

definition parse_ordinal :: "str \<Rightarrow> nat option" where
  "parse_ordinal s =
    (case parse_unsigned 64 s of None \<Rightarrow> None | Some n \<Rightarrow> if n = 0 then None else Some (n - 1))"

definition parse_workspace_id :: "str \<Rightarrow> app_state \<Rightarrow> nat option" where
  "parse_workspace_id i s =
    (case position (\<lambda>w. wk_id w = i) (as_workspaces s) of
       Some k \<Rightarrow> Some k
     | None \<Rightarrow>
         (case Option.bind (strip_prefix (lit ''w_'') i) parse_ordinal of
            Some k \<Rightarrow> Some k
          | None \<Rightarrow> parse_ordinal i))"

definition tab_exists :: "nat \<Rightarrow> nat \<Rightarrow> app_state \<Rightarrow> bool" where
  "tab_exists k tab_idx s \<longleftrightarrow>
    (case workspace_at k s of None \<Rightarrow> False | Some w \<Rightarrow> tab_idx < length (wk_tabs w))"

definition parse_tab_id :: "str \<Rightarrow> app_state \<Rightarrow> (nat \<times> nat) option" where
  "parse_tab_id i s =
    (case strip_prefix (lit ''t_'') i of
       Some rest \<Rightarrow>
         (case rsplit_once (lit ''_'') rest of
            None \<Rightarrow> None
          | Some (ws_raw, tab_raw) \<Rightarrow>
              (case (parse_workspace_id ws_raw s, parse_ordinal tab_raw) of
                 (Some k, Some tab_idx) \<Rightarrow> if tab_exists k tab_idx s then Some (k, tab_idx) else None
               | _ \<Rightarrow> None))
     | None \<Rightarrow>
         (case rsplit_once (lit '':'') i of
            None \<Rightarrow> None
          | Some (ws_raw, tab_raw) \<Rightarrow>
              (case parse_workspace_id ws_raw s of
                 None \<Rightarrow> None
               | Some k \<Rightarrow>
                   (case (case strip_prefix (lit ''t'') tab_raw of
                            Some encoded \<Rightarrow>
                              (case (decode_public_number encoded, workspace_at k s) of
                                 (Some number, Some w) \<Rightarrow> position (\<lambda>t. tb_number t = number) (wk_tabs w)
                               | _ \<Rightarrow> None)
                          | None \<Rightarrow> parse_ordinal tab_raw) of
                      None \<Rightarrow> None
                    | Some tab_idx \<Rightarrow> if tab_exists k tab_idx s then Some (k, tab_idx) else None))))"

text \<open>The table of public numbers is walked in the order \<open>keys\<close> gives.\<close>

definition pane_with_number :: "(app_workspace \<Rightarrow> pane_id list) \<Rightarrow> u64 \<Rightarrow> app_workspace \<Rightarrow> pane_id option" where
  "pane_with_number keys number w = find (\<lambda>i. public_pane_numbers w i = Some number) (keys w)"

definition resolve_raw_pane_id :: "u32 \<Rightarrow> app_state \<Rightarrow> pane_id option" where
  "resolve_raw_pane_id raw s =
    (case as_pane_id_aliases s raw of
       Some alias \<Rightarrow> map_option (\<lambda>_. alias) (find_pane alias s)
     | None \<Rightarrow> if find_pane raw s \<noteq> None then Some raw else None)"

definition parse_raw_pane_id :: "str \<Rightarrow> app_state \<Rightarrow> pane_id option" where
  "parse_raw_pane_id raw s =
    (case parse_unsigned 32 raw of None \<Rightarrow> None | Some n \<Rightarrow> resolve_raw_pane_id (of_nat n) s)"

definition numbered_pane ::
  "(app_workspace \<Rightarrow> pane_id list) \<Rightarrow> str \<Rightarrow> u64 option \<Rightarrow> app_state \<Rightarrow> (nat \<times> pane_id) option" where
  "numbered_pane keys ws_raw number s =
    (case (parse_workspace_id ws_raw s, number) of
       (Some k, Some n) \<Rightarrow>
         (case workspace_at k s of
            None \<Rightarrow> None
          | Some w \<Rightarrow> map_option (Pair k) (pane_with_number keys n w))
     | _ \<Rightarrow> None)"

definition parse_pane_id ::
  "(app_workspace \<Rightarrow> pane_id list) \<Rightarrow> str \<Rightarrow> app_state \<Rightarrow> (nat \<times> pane_id) option" where
  "parse_pane_id keys i s =
    (case as_public_aliases s i of
       Some alias \<Rightarrow> map_option (\<lambda>(k, _). (k, alias)) (find_pane alias s)
     | None \<Rightarrow>
         (case strip_prefix (lit ''p_'') i of
            Some rest \<Rightarrow>
              (case rsplit_once (lit ''_'') rest of
                 Some (ws_raw, pane_raw) \<Rightarrow>
                   (case (parse_workspace_id ws_raw s, parse_raw_pane_id pane_raw s) of
                      (Some k, Some p) \<Rightarrow>
                        (case workspace_at k s of
                           None \<Rightarrow> None
                         | Some w \<Rightarrow> if find_pane_state p w \<noteq> None then Some (k, p) else None)
                    | _ \<Rightarrow> None)
               | None \<Rightarrow>
                   (case parse_raw_pane_id rest s of
                      None \<Rightarrow> None
                    | Some p \<Rightarrow> map_option (\<lambda>(k, _). (k, p)) (find_pane p s)))
          | None \<Rightarrow>
              (case rsplit_once (lit '':p'') i of
                 Some (ws_raw, number_raw) \<Rightarrow> numbered_pane keys ws_raw (decode_public_number number_raw) s
               | None \<Rightarrow>
                   (case rsplit_once (lit ''-'') i of
                      Some (ws_raw, number_raw) \<Rightarrow>
                        numbered_pane keys ws_raw (map_option of_nat (parse_unsigned 64 number_raw)) s
                    | None \<Rightarrow> None))))"

definition parse_current_public_pane_id ::
  "(app_workspace \<Rightarrow> pane_id list) \<Rightarrow> str \<Rightarrow> app_state \<Rightarrow> (nat \<times> pane_id) option" where
  "parse_current_public_pane_id keys i s =
    (case parse_pane_id keys i s of
       None \<Rightarrow> None
     | Some (k, p) \<Rightarrow> if public_pane_id k p s = Some i then Some (k, p) else None)"

section \<open>Names that are read back\<close>

text \<open>
  The ids of workspaces are pairwise different, hold no colon and do not begin like the older spellings
  of tabs and panes; generated ones do so.
\<close>

definition id_ok :: "str \<Rightarrow> bool" where
  "id_ok i \<longleftrightarrow> 58 \<notin> set i \<and> strip_prefix (lit ''t_'') i = None \<and> strip_prefix (lit ''p_'') i = None"

lemma generated_id_ok: "id_ok (fst (generate_workspace_id n))"
proof -
  have "58 \<notin> set (encode_public_number n)"
    using encode_chars [of n] by (auto simp: public_id_alphabet_def lit_def)
  then show ?thesis by (simp add: id_ok_def generate_workspace_id_def strip_prefix_def lit_def)
qed

lemma rsplit_once_None: "pat \<noteq> [] \<Longrightarrow> hd pat \<notin> set s \<Longrightarrow> rsplit_once pat s = None"
proof (induction s)
  case (Cons c s)
  then have "take (length pat) (c # s) \<noteq> pat" by (cases pat) auto
  with Cons show ?case by (simp add: strip_prefix_def)
qed simp

lemma rsplit_once_append:
  assumes "pat \<noteq> []" "hd pat \<notin> set (tl pat @ b)"
  shows "rsplit_once pat (a @ pat @ b) = Some (a, b)"
proof (induction a)
  case Nil
  obtain c cs where pat: "pat = c # cs" using assms(1) by (cases pat) auto
  have "rsplit_once pat (cs @ b) = None" by (rule rsplit_once_None) (use assms pat in auto)
  then show ?case by (simp add: pat strip_prefix_def)
qed simp

lemma strip_prefix_append_None:
  assumes "strip_prefix [c, d] i = None" "58 \<noteq> c" "58 \<noteq> d"
  shows "strip_prefix [c, d] (i @ 58 # rest) = None"
proof (cases i)
  case (Cons x xs)
  then show ?thesis using assms by (cases xs) (auto simp: strip_prefix_def split: if_splits)
qed (use assms in \<open>simp add: strip_prefix_def\<close>)

lemma encode_no_colon: "58 \<notin> set (encode_public_number n)"
  using encode_chars [of n] by (auto simp: public_id_alphabet_def lit_def)

lemma split_tab_id:
  "rsplit_once (lit '':'') (public_tab_id_for_number i n) = Some (i, lit ''t'' @ encode_public_number n)"
proof -
  have "public_tab_id_for_number i n = i @ lit '':'' @ (lit ''t'' @ encode_public_number n)"
    by (simp add: public_tab_id_for_number_def lit_def)
  also have "rsplit_once (lit '':'') \<dots> = Some (i, lit ''t'' @ encode_public_number n)"
    by (rule rsplit_once_append) (use encode_no_colon [of n] in \<open>auto simp: lit_def\<close>)
  finally show ?thesis .
qed

lemma split_pane_id:
  "rsplit_once (lit '':p'') (public_pane_id_for_number i n) = Some (i, encode_public_number n)"
  unfolding public_pane_id_for_number_def
  by (rule rsplit_once_append) (use encode_no_colon [of n] in \<open>auto simp: lit_def\<close>)

lemma position_unique:
  "k < length xs \<Longrightarrow> P (xs ! k) \<Longrightarrow> (\<And>j. j < length xs \<Longrightarrow> P (xs ! j) \<Longrightarrow> j = k) \<Longrightarrow> position P xs = Some k"
proof -
  assume a: "k < length xs" "P (xs ! k)" "\<And>j. j < length xs \<Longrightarrow> P (xs ! j) \<Longrightarrow> j = k"
  have "position P xs \<noteq> None" using a(1,2) nth_mem [OF a(1)] unfolding position_None by blast
  then obtain j where j: "position P xs = Some j" by blast
  then show ?thesis using a(3) position_Some [OF j] by auto
qed

lemma position_key:
  "distinct (map f xs) \<Longrightarrow> k < length xs \<Longrightarrow> position (\<lambda>x. f x = f (xs ! k)) xs = Some k"
  by (rule position_unique) (auto simp: distinct_conv_nth)

lemma parse_own_workspace_id:
  assumes "distinct (map wk_id (as_workspaces s))" "k < length (as_workspaces s)"
  shows "parse_workspace_id (wk_id (as_workspaces s ! k)) s = Some k"
  using position_key [OF assms] by (simp add: parse_workspace_id_def)

lemma parse_own_tab_id:
  assumes ids: "distinct (map wk_id (as_workspaces s))" and k: "k < length (as_workspaces s)"
    and w: "w = as_workspaces s ! k" "id_ok (wk_id w)" and t: "tab_idx < length (wk_tabs w)"
    and numbers: "distinct (map tb_number (wk_tabs w))" "tb_number (wk_tabs w ! tab_idx) \<noteq> 0"
  shows "parse_tab_id (public_tab_id_for_number (wk_id w) (tb_number (wk_tabs w ! tab_idx))) s = Some (k, tab_idx)"
proof -
  let ?n = "tb_number (wk_tabs w ! tab_idx)"
  have no: "strip_prefix (lit ''t_'') (public_tab_id_for_number (wk_id w) ?n) = None"
    using strip_prefix_append_None [of 116 95 "wk_id w"] w(2)
    by (simp add: id_ok_def public_tab_id_for_number_def lit_def)
  have enc: "strip_prefix (lit ''t'') (lit ''t'' @ encode_public_number ?n) = Some (encode_public_number ?n)"
    by (simp add: strip_prefix_def lit_def)
  have pos: "position (\<lambda>t. tb_number t = ?n) (wk_tabs w) = Some tab_idx"
    by (rule position_key [OF numbers(1) t])
  have ws: "parse_workspace_id (wk_id w) s = Some k" using parse_own_workspace_id [OF ids k] w(1) by simp
  show ?thesis
    by (simp add: parse_tab_id_def no split_tab_id ws enc decode_encode [OF numbers(2)] workspace_at_def k
        w(1) [symmetric] pos tab_exists_def t)
qed

definition keys_ok :: "(app_workspace \<Rightarrow> pane_id list) \<Rightarrow> app_state \<Rightarrow> bool" where
  "keys_ok keys s \<longleftrightarrow> (\<forall>w \<in> set (as_workspaces s). set (keys w) = dom (public_pane_numbers w))"

lemma parse_own_pane_id:
  assumes ids: "distinct (map wk_id (as_workspaces s))" and k: "k < length (as_workspaces s)"
    and w: "w = as_workspaces s ! k" "id_ok (wk_id w)" "workspace_inv w" and keys: "keys_ok keys s"
    and i: "public_pane_number i w = Some n"
    and unshadowed: "as_public_aliases s (public_pane_id_for_number (wk_id w) n) = None"
  shows "parse_pane_id keys (public_pane_id_for_number (wk_id w) n) s = Some (k, i)"
proof -
  have num: "numbers_ok (next_public_pane_number w) (public_pane_numbers w) (live w)"
    using w(3) by (simp add: workspace_inv_def workspace_ok_def)
  have i': "public_pane_numbers w i = Some n" using i by (simp add: public_pane_number_def)
  then have n: "n \<noteq> 0" "i \<in> dom (public_pane_numbers w)"
    using num by (auto simp: numbers_ok_def ran_def)
  have only: "j = i" if "public_pane_numbers w j = Some n" for j
    using num that i' unfolding numbers_ok_def inj_on_def by (metis domI)
  have "w \<in> set (as_workspaces s)" using k w(1) by simp
  then have "i \<in> set (keys w)" using keys n(2) by (auto simp: keys_ok_def)
  then have "find (\<lambda>i. public_pane_numbers w i = Some n) (keys w) \<noteq> None"
    using i' unfolding find_None_iff by blast
  then obtain j where j: "find (\<lambda>i. public_pane_numbers w i = Some n) (keys w) = Some j" by blast
  then have "public_pane_numbers w j = Some n" by (auto simp: find_Some_iff)
  then have found: "pane_with_number keys n w = Some i" using j only by (simp add: pane_with_number_def)
  have no: "strip_prefix (lit ''p_'') (public_pane_id_for_number (wk_id w) n) = None"
    using strip_prefix_append_None [of 112 95 "wk_id w"] w(2)
    by (simp add: id_ok_def public_pane_id_for_number_def lit_def)
  have ws: "parse_workspace_id (wk_id w) s = Some k" using parse_own_workspace_id [OF ids k] w(1) by simp
  show ?thesis
    by (simp add: parse_pane_id_def unshadowed no split_pane_id numbered_pane_def ws decode_encode [OF n(1)]
        workspace_at_def k w(1) [symmetric] found)
qed

end
