(* ===== verification/PaneMove.thy ===== *)
theory PaneMove
  imports AppIds
begin

text \<open>
  Moving a pane to another tab, a new tab or a new workspace (\<open>handle_pane_move\<close> of
  \<open>app/api/panes.rs\<close>, with the switching of workspaces of \<open>app/actions.rs\<close>): the pane is taken out of its
  tab, its workspace is closed when the pane was its last and leaves it, it is put into the destination, and
  when that fails it gets a tab of its own where it was. The result \<open>None\<close> is a panic. Of the
  response only its kind is kept: the snapshots it carries and the events that are emitted do not
  change the state, and where a snapshot is unavailable the code answers with another error.
\<close>

section \<open>Requests\<close>

datatype pane_split_direction = SplitRight | SplitDown

fun split_direction_to_layout :: "pane_split_direction \<Rightarrow> direction" where
  "split_direction_to_layout SplitRight = Horizontal"
| "split_direction_to_layout SplitDown = Vertical"

datatype move_destination =
    ToTab str "str option" pane_split_direction "f32 option"
  | ToNewTab "str option" "str option"
  | ToNewWorkspace "str option" "str option"

datatype resolved_destination =
    ExistingTab str pane_id pane_split_direction f32 bool
  | NewTab str "str option"
  | NewWorkspace "str option" "str option"

datatype move_error = PaneNotFound | TabNotFound | TargetPaneNotFound | WorkspaceNotFound | PaneMoveFailed

datatype move_reason = ZoomedTab | SameTab

datatype move_outcome = MoveError move_error | Unchanged move_reason | Moved

record recovery_context =
  rc_source_ws_idx :: nat
  rc_workspace_id :: str
  rc_workspace_label :: "str option"
  rc_tab_label :: "str option"
  rc_worktree_space :: "worktree_space option"
  rc_identity_cwd :: str

section \<open>Focus\<close>

definition mark_session_dirty :: "app_state \<Rightarrow> app_state" where
  "mark_session_dirty s = s\<lparr>as_session_dirty := True\<rparr>"

definition current_pane_focus_target :: "app_state \<Rightarrow> focus_target option" where
  "current_pane_focus_target s =
    (case as_active s of
       None \<Rightarrow> None
     | Some k \<Rightarrow>
         (case workspace_at k s of
            None \<Rightarrow> None
          | Some w \<Rightarrow>
              map_option (\<lambda>i. \<lparr>ft_workspace_id = wk_id w, ft_pane_id = i\<rparr>) (focused_pane_id w)))"

definition record_pane_focus_change :: "focus_target option \<Rightarrow> nat \<Rightarrow> pane_id \<Rightarrow> app_state \<Rightarrow> app_state" where
  "record_pane_focus_change previous k i s =
    (case workspace_at k s of
       None \<Rightarrow> s
     | Some w \<Rightarrow>
         if previous \<noteq> Some \<lparr>ft_workspace_id = wk_id w, ft_pane_id = i\<rparr>
         then s\<lparr>as_previous_focus := previous\<rparr> else s)"

definition record_pane_focus_after_navigation :: "focus_target option \<Rightarrow> app_state \<Rightarrow> app_state" where
  "record_pane_focus_after_navigation previous s =
    (if previous \<noteq> current_pane_focus_target s then s\<lparr>as_previous_focus := previous\<rparr> else s)"

definition switch_workspace :: "nat \<Rightarrow> app_state \<Rightarrow> app_state" where
  "switch_workspace k s =
    (case workspace_at k s of
       None \<Rightarrow> s
     | Some w \<Rightarrow>
         let s1 = mark_session_dirty (s\<lparr>as_active := Some k, as_selected := k\<rparr>);
             s2 = s1\<lparr>as_workspaces := (as_workspaces s1)[k := switch_tab (wk_active_tab w) w]\<rparr>
         in record_pane_focus_after_navigation (current_pane_focus_target s) s2)"

definition switch_workspace_tab :: "nat \<Rightarrow> nat \<Rightarrow> app_state \<Rightarrow> bool \<times> app_state" where
  "switch_workspace_tab k tab_idx s =
    (case workspace_at k s of
       None \<Rightarrow> (False, s)
     | Some w \<Rightarrow>
         if length (wk_tabs w) \<le> tab_idx then (False, s)
         else
           let s1 = mark_session_dirty (s\<lparr>as_active := Some k, as_selected := k\<rparr>);
               s2 = s1\<lparr>as_workspaces := (as_workspaces s1)[k := switch_tab tab_idx w]\<rparr>
           in (True, record_pane_focus_after_navigation (current_pane_focus_target s) s2))"

definition remove_alias_shadowed_by_new_pane :: "pane_id \<Rightarrow> app_state \<Rightarrow> app_state" where
  "remove_alias_shadowed_by_new_pane i s = s\<lparr>as_pane_id_aliases := (as_pane_id_aliases s)(i := None)\<rparr>"

section \<open>Resolving the destination\<close>

definition tab_at :: "nat \<Rightarrow> nat \<Rightarrow> app_state \<Rightarrow> tab option" where
  "tab_at k tab_idx s =
    (case workspace_at k s of
       None \<Rightarrow> None
     | Some w \<Rightarrow> if tab_idx < length (wk_tabs w) then Some (wk_tabs w ! tab_idx) else None)"

definition resolve_target_pane ::
  "(app_workspace \<Rightarrow> pane_id list) \<Rightarrow> str option \<Rightarrow> nat \<Rightarrow> nat \<Rightarrow> tab \<Rightarrow> app_state
   \<Rightarrow> (move_outcome + pane_id) option" where
  "resolve_target_pane keys target k tab_idx t s =
    (case target of
       None \<Rightarrow> Some (Inr (tl_focus (tb_layout t)))
     | Some raw \<Rightarrow>
         (case parse_pane_id keys raw s of
            None \<Rightarrow> Some (Inl (MoveError TargetPaneNotFound))
          | Some (k', i) \<Rightarrow>
              (case workspace_at k' s of
                 None \<Rightarrow> None
               | Some w \<Rightarrow>
                   if k' \<noteq> k \<or> find_tab_index_for_pane i w \<noteq> Some tab_idx
                   then Some (Inl (MoveError TargetPaneNotFound)) else Some (Inr i))))"

definition resolve_destination ::
  "(app_workspace \<Rightarrow> pane_id list) \<Rightarrow> move_destination \<Rightarrow> nat \<Rightarrow> nat \<Rightarrow> str \<Rightarrow> app_state
   \<Rightarrow> (move_outcome + resolved_destination) option" where
  "resolve_destination keys destination source_ws_idx source_tab_idx previous_workspace_id s =
    (case destination of
       ToTab i target split ratio \<Rightarrow>
         (case parse_tab_id i s of
            None \<Rightarrow> Some (Inl (MoveError TabNotFound))
          | Some (k, tab_idx) \<Rightarrow>
              if source_ws_idx = k \<and> source_tab_idx = tab_idx then Some (Inl (Unchanged SameTab))
              else (case tab_at k tab_idx s of
                None \<Rightarrow> None
              | Some t \<Rightarrow>
                  if tb_zoomed t then Some (Inl (Unchanged ZoomedTab))
                  else (case resolve_target_pane keys target k tab_idx t s of
                    None \<Rightarrow> None
                  | Some (Inl out) \<Rightarrow> Some (Inl out)
                  | Some (Inr p) \<Rightarrow>
                      (case public_tab_id k tab_idx s of
                         None \<Rightarrow> Some (Inl (MoveError TabNotFound))
                       | Some target_tab_id \<Rightarrow>
                           Some (Inr (ExistingTab target_tab_id p split
                             (case ratio of Some r \<Rightarrow> r | None \<Rightarrow> f32_round (1/2))
                             (source_ws_idx \<noteq> k)))))))
     | ToNewTab workspace_id label \<Rightarrow>
         (case workspace_id of
            None \<Rightarrow> Some (Inr (NewTab previous_workspace_id label))
          | Some raw \<Rightarrow>
              (case parse_workspace_id raw s of
                 None \<Rightarrow> Some (Inl (MoveError WorkspaceNotFound))
               | Some k \<Rightarrow> map_option (\<lambda>i. Inr (NewTab i label)) (public_workspace_id k s)))
     | ToNewWorkspace label tab_label \<Rightarrow> Some (Inr (NewWorkspace label tab_label)))"

section \<open>Moving\<close>

definition is_cross_workspace :: "resolved_destination \<Rightarrow> str \<Rightarrow> bool" where
  "is_cross_workspace resolved previous_workspace_id =
    (case resolved of
       ExistingTab _ _ _ _ cross \<Rightarrow> cross
     | NewTab workspace_id _ \<Rightarrow> workspace_id \<noteq> previous_workspace_id
     | NewWorkspace _ _ \<Rightarrow> True)"

definition close_emptied_workspace :: "nat \<Rightarrow> app_state \<Rightarrow> app_state" where
  "close_emptied_workspace k s =
    (let ws = remove_nth k (as_workspaces s); s1 = s\<lparr>as_workspaces := ws\<rparr>
     in if ws = [] then s1\<lparr>as_active := None, as_selected := 0\<rparr>
        else s1\<lparr>as_active :=
                 (case as_active s of
                    None \<Rightarrow> None
                  | Some a \<Rightarrow>
                      if a = k then Some (min k (length ws - 1))
                      else if k < a then Some (a - 1) else Some a),
               as_selected :=
                 (if as_selected s = k then min k (length ws - 1)
                  else if k < as_selected s then as_selected s - 1 else as_selected s)\<rparr>)"

definition recover_failed_pane_move :: "recovery_context \<Rightarrow> moved_pane \<Rightarrow> app_state \<Rightarrow> app_state option" where
  "recover_failed_pane_move context moved s =
    (case parse_workspace_id (rc_workspace_id context) s of
       Some k \<Rightarrow>
         map_option (\<lambda>w. mark_session_dirty
           (s\<lparr>as_workspaces := (as_workspaces s)[k := snd (create_tab_from_existing_pane moved (rc_tab_label context) w)]\<rparr>))
           (workspace_at k s)
     | None \<Rightarrow>
         let (w, counter) = workspace_from_existing_pane (rc_workspace_label context) (rc_tab_label context)
               (rc_identity_cwd context) moved (as_counter s);
             insert_idx = min (rc_source_ws_idx context) (length (as_workspaces s))
         in Some (mark_session_dirty
              (s\<lparr>as_counter := counter,
                 as_active := map_option (\<lambda>a. if insert_idx \<le> a then a + 1 else a) (as_active s),
                 as_selected :=
                   (if insert_idx \<le> as_selected s \<and> as_workspaces s \<noteq> []
                    then as_selected s + 1 else as_selected s),
                 as_workspaces := insert_nth insert_idx 
                   (w\<lparr>wk_id := rc_workspace_id context, wk_worktree_space := rc_worktree_space context\<rparr>) (as_workspaces s)\<rparr>)))"

text \<open>
  The moved pane is placed: the position of its tab and the state, or the state after the recovery.
\<close>

definition place_moved_pane ::
  "str \<Rightarrow> resolved_destination \<Rightarrow> recovery_context \<Rightarrow> moved_pane \<Rightarrow> terminal_id \<Rightarrow> bool \<Rightarrow> app_state
   \<Rightarrow> ((nat \<times> nat) option \<times> app_state) option" where
  "place_moved_pane current_dir resolved context moved terminal focus s =
    (case resolved of
       ExistingTab i target split ratio _ \<Rightarrow>
         (case parse_tab_id i s of
            None \<Rightarrow> map_option (Pair None) (recover_failed_pane_move context moved s)
          | Some (k, tab_idx) \<Rightarrow>
              (case workspace_at k s of
                 None \<Rightarrow> None
               | Some w \<Rightarrow>
                   (case insert_moved_pane_into_tab tab_idx target moved (split_direction_to_layout split) ratio focus w of
                      (Inr _, w') \<Rightarrow> Some (Some (k, tab_idx), s\<lparr>as_workspaces := (as_workspaces s)[k := w']\<rparr>)
                    | (Inl moved', w') \<Rightarrow>
                        map_option (Pair None)
                          (recover_failed_pane_move context moved'
                            (s\<lparr>as_workspaces := (as_workspaces s)[k := w']\<rparr>)))))
     | NewTab i label \<Rightarrow>
         (case parse_workspace_id i s of
            None \<Rightarrow> map_option (Pair None) (recover_failed_pane_move context moved s)
          | Some k \<Rightarrow>
              (case workspace_at k s of
                 None \<Rightarrow> None
               | Some w \<Rightarrow>
                   let (tab_idx, w') = create_tab_from_existing_pane moved label w
                   in Some (Some (k, tab_idx), s\<lparr>as_workspaces := (as_workspaces s)[k := w']\<rparr>)))
     | NewWorkspace label tab_label \<Rightarrow>
         let cwd = (case as_terminals s terminal of Some t \<Rightarrow> t_cwd t | None \<Rightarrow> current_dir);
             (w, counter) = workspace_from_existing_pane label tab_label cwd moved (as_counter s)
         in Some (Some (length (as_workspaces s), 0),
              s\<lparr>as_counter := counter, as_workspaces := as_workspaces s @ [w]\<rparr>))"

definition finish_pane_move ::
  "focus_target option \<Rightarrow> bool \<Rightarrow> nat \<Rightarrow> nat \<Rightarrow> pane_id \<Rightarrow> app_state \<Rightarrow> app_state" where
  "finish_pane_move previous_focus focus k tab_idx i s =
    (let s1 = (if focus \<or> as_active s = None
               then (record_pane_focus_change previous_focus k i (snd (switch_workspace_tab k tab_idx s)))
                      \<lparr>as_terminal_mode := True\<rparr>
               else s)
     in mark_session_dirty (remove_alias_shadowed_by_new_pane i s1))"

text \<open>
  The taken pane leaves its workspace, now \<open>w'\<close>: to another one it goes without its number, but its old
  public id stays an alias.
\<close>

definition leave_workspace ::
  "bool \<Rightarrow> bool \<Rightarrow> nat \<Rightarrow> pane_id \<Rightarrow> str \<Rightarrow> app_workspace \<Rightarrow> app_state \<Rightarrow> app_state" where
  "leave_workspace cross emptied k i previous_pane_id w' s =
    (let s1 = (if cross
               then s\<lparr>as_workspaces := (as_workspaces s)[k := unregister_moved_pane i w'],
                      as_public_aliases := (as_public_aliases s)(previous_pane_id \<mapsto> i)\<rparr>
               else s\<lparr>as_workspaces := (as_workspaces s)[k := w']\<rparr>)
     in if emptied \<and> cross then close_emptied_workspace k s1 else s1)"

definition move_resolved ::
  "str \<Rightarrow> resolved_destination \<Rightarrow> recovery_context \<Rightarrow> str \<Rightarrow> nat \<Rightarrow> pane_id \<Rightarrow> terminal_id \<Rightarrow> bool
   \<Rightarrow> app_workspace \<Rightarrow> app_state \<Rightarrow> (move_outcome \<times> app_state) option" where
  "move_resolved current_dir resolved context previous_pane_id k i terminal focus w s =
    (let previous_focus = current_pane_focus_target s
     in case take_pane_for_move i w of
          None \<Rightarrow> None
        | Some (None, w') \<Rightarrow>
            Some (MoveError PaneMoveFailed, s\<lparr>as_workspaces := (as_workspaces s)[k := w']\<rparr>)
        | Some (Some taken, w') \<Rightarrow>
            let cross = is_cross_workspace resolved (rc_workspace_id context);
                s2 = leave_workspace cross (tk_workspace_empty taken) k i previous_pane_id w' s
            in (case place_moved_pane current_dir resolved context (tk_moved taken) terminal focus s2 of
                  None \<Rightarrow> None
                | Some (None, s3) \<Rightarrow> Some (MoveError PaneMoveFailed, s3)
                | Some (Some (k', tab_idx), s3) \<Rightarrow>
                    Some (Moved, finish_pane_move previous_focus focus k' tab_idx (mp_pane_id (tk_moved taken)) s3)))"

definition handle_pane_move ::
  "(app_workspace \<Rightarrow> pane_id list) \<Rightarrow> str \<Rightarrow> str \<Rightarrow> move_destination \<Rightarrow> bool \<Rightarrow> app_state
   \<Rightarrow> (move_outcome \<times> app_state) option" where
  "handle_pane_move keys current_dir pane destination focus s =
    (case parse_pane_id keys pane s of
       None \<Rightarrow> Some (MoveError PaneNotFound, s)
     | Some (k, i) \<Rightarrow>
         (case workspace_at k s of
            None \<Rightarrow> None
          | Some w \<Rightarrow>
              (case find_tab_index_for_pane i w of
                 None \<Rightarrow> Some (MoveError PaneNotFound, s)
               | Some tab_idx \<Rightarrow>
                   let previous_pane_id = (case public_pane_id k i s of Some x \<Rightarrow> x | None \<Rightarrow> pane);
                       t = wk_tabs w ! tab_idx
                   in (case (public_tab_id k tab_idx s, tb_panes t i) of
                         (None, _) \<Rightarrow> Some (MoveError TabNotFound, s)
                       | (Some _, None) \<Rightarrow> Some (MoveError PaneNotFound, s)
                       | (Some _, Some st) \<Rightarrow>
                           if tb_zoomed t then Some (Unchanged ZoomedTab, s)
                           else (case resolve_destination keys destination k tab_idx (wk_id w) s of
                             None \<Rightarrow> None
                           | Some (Inl out) \<Rightarrow> Some (out, s)
                           | Some (Inr resolved) \<Rightarrow>
                               move_resolved current_dir resolved
                                 \<lparr>rc_source_ws_idx = k, rc_workspace_id = wk_id w,
                                  rc_workspace_label = wk_custom_name w, rc_tab_label = tb_custom_name t,
                                  rc_worktree_space = wk_worktree_space w,
                                  rc_identity_cwd = wk_identity_cwd w\<rparr>
                                 previous_pane_id k i (attached_terminal_id st) focus w s)))))"

end
