(* ===== verification/PaneMoveInv.thy ===== *)
theory PaneMoveInv
  imports PaneMove
begin

text \<open>
  What moving a pane keeps: the workspaces stay well-formed, no pane and no terminal is lost or
  duplicated, and the active and the selected workspace exist.
\<close>

section \<open>Well-formed states\<close>

definition all_entries :: "app_workspace list \<Rightarrow> (pane_id \<times> terminal_id) list" where
  "all_entries ws = concat (map (\<lambda>w. entries (wk_tabs w)) ws)"

definition ids_ok :: "app_workspace list \<Rightarrow> bool" where
  "ids_ok ws \<longleftrightarrow> distinct (map wk_id ws) \<and> (\<forall>w \<in> set ws. id_ok (wk_id w))"

definition panes_apart :: "(pane_id \<times> terminal_id) list \<Rightarrow> bool" where
  "panes_apart es \<longleftrightarrow> distinct (map fst es) \<and> distinct (map snd es)"

definition spaces_ok :: "app_workspace list \<Rightarrow> bool" where
  "spaces_ok ws \<longleftrightarrow> ids_ok ws \<and> (\<forall>w \<in> set ws. workspace_inv w) \<and> panes_apart (all_entries ws)"

definition in_range :: "app_state \<Rightarrow> bool" where
  "in_range s \<longleftrightarrow>
     (if as_workspaces s = [] then as_active s = None \<and> as_selected s = 0
      else (\<exists>a < length (as_workspaces s). as_active s = Some a) \<and> as_selected s < length (as_workspaces s))"

definition app_ok :: "app_state \<Rightarrow> bool" where
  "app_ok s \<longleftrightarrow> spaces_ok (as_workspaces s) \<and> in_range s"

text \<open>The counters are not exhausted and the next generated id is new.\<close>

definition room_left :: "app_state \<Rightarrow> bool" where
  "room_left s \<longleftrightarrow>
     (\<forall>w \<in> set (as_workspaces s). next_public_pane_number w \<noteq> -1 \<and> next_public_tab_number w \<noteq> -1)
     \<and> fst (generate_workspace_id (as_counter s)) \<notin> wk_id ` set (as_workspaces s)"

section \<open>Lists of workspaces\<close>

lemma all_entries_simps [simp]:
  "all_entries [] = []" "all_entries (w # ws) = entries (wk_tabs w) @ all_entries ws"
  "all_entries (ws @ vs) = all_entries ws @ all_entries vs"
  by (simp_all add: all_entries_def)

lemma mset_all_entries:
  "mset (all_entries ws) = \<Sum>\<^sub># (image_mset (\<lambda>w. mset (entries (wk_tabs w))) (mset ws))"
  by (induction ws) simp_all

lemma all_entries_nth:
  "k < length ws \<Longrightarrow> mset (all_entries ws) = mset (entries (wk_tabs (ws ! k))) + mset (all_entries (remove_nth k ws))"
  by (simp add: mset_all_entries mset_remove_nth [of k ws])

lemma all_entries_update:
  "k < length ws \<Longrightarrow> mset (all_entries (ws[k := w])) = mset (entries (wk_tabs w)) + mset (all_entries (remove_nth k ws))"
  by (simp add: mset_all_entries mset_list_update)

lemma panes_apart_mset: "mset es = mset fs \<Longrightarrow> panes_apart es \<longleftrightarrow> panes_apart fs"
  using distinct_mset_eq [of es fs fst] distinct_mset_eq [of es fs snd] by (simp add: panes_apart_def)

lemma panes_apart_sub: "mset es \<subseteq># mset fs \<Longrightarrow> panes_apart fs \<Longrightarrow> panes_apart es"
proof -
  assume s: "mset es \<subseteq># mset fs" and a: "panes_apart fs"
  obtain M where "mset fs = mset es + M" using s by (auto simp: mset_subset_eq_exists_conv)
  moreover obtain gs where "M = mset gs" using ex_mset by metis
  ultimately have "mset fs = mset (es @ gs)" by simp
  then have "panes_apart (es @ gs)" using a panes_apart_mset by blast
  then show ?thesis by (simp add: panes_apart_def)
qed

lemma distinct_entries: "workspace_ok R w \<Longrightarrow> distinct (entries (wk_tabs w))"
  by (auto simp: workspace_ok_def tabs_ok_def distinct_map)

lemma workspace_inv_ok: "workspace_inv w \<Longrightarrow> workspace_ok {} w"
  by (simp add: workspace_inv_def)

lemma ids_ok_update:
  "ids_ok ws \<Longrightarrow> k < length ws \<Longrightarrow> wk_id w = wk_id (ws ! k) \<Longrightarrow> ids_ok (ws[k := w])"
proof -
  assume a: "ids_ok ws" "k < length ws" "wk_id w = wk_id (ws ! k)"
  have "map wk_id (ws[k := w]) = map wk_id ws" using a by (metis list_update_id map_update)
  moreover have "id_ok (wk_id w)" using a by (simp add: ids_ok_def)
  ultimately show ?thesis using a set_update_subset_insert [of ws k w] by (auto simp: ids_ok_def)
qed

lemma remove_nth_map: "map f (remove_nth k xs) = remove_nth k (map f xs)"
  by (simp add: remove_nth_def take_map drop_map)

lemma set_remove_nth: "set (remove_nth k xs) \<subseteq> set xs"
  by (auto simp: remove_nth_def dest: in_set_takeD in_set_dropD)

lemma distinct_remove_nth: "distinct xs \<Longrightarrow> distinct (remove_nth k xs)"
  by (auto simp: remove_nth_def set_take_disj_set_drop_if_distinct distinct_append)

lemma ids_ok_remove: "ids_ok ws \<Longrightarrow> ids_ok (remove_nth k ws)"
  using set_remove_nth [of k ws] by (auto simp: ids_ok_def remove_nth_map distinct_remove_nth)

section \<open>Putting the pane into a workspace\<close>

definition placeable :: "pane_id \<times> terminal_id \<Rightarrow> nat \<Rightarrow> app_workspace list \<Rightarrow> bool" where
  "placeable x k ws \<longleftrightarrow>
     k < length ws \<and> (\<exists>R \<subseteq> {fst x}. workspace_ok R (ws ! k))
     \<and> (\<forall>j < length ws. j \<noteq> k \<longrightarrow> workspace_inv (ws ! j))"

lemma place_absent:
  assumes "add_mset x (mset (all_entries ws)) = mset es" "panes_apart es" "k < length ws"
  shows "fst x \<notin> live (ws ! k)" "snd x \<notin> terminals (ws ! k)" "x \<notin> panes_of (ws ! k)"
proof -
  have "mset es = mset (x # entries (wk_tabs (ws ! k)) @ all_entries (remove_nth k ws))"
    using assms(1) all_entries_nth [OF assms(3)] by simp
  then have "panes_apart (x # entries (wk_tabs (ws ! k)) @ all_entries (remove_nth k ws))"
    using assms(2) panes_apart_mset by blast
  then show "fst x \<notin> live (ws ! k)" "snd x \<notin> terminals (ws ! k)" "x \<notin> panes_of (ws ! k)"
    by (auto simp: panes_apart_def live_panes terminals_panes)
qed

lemma place_in:
  assumes ids: "ids_ok ws" and total: "add_mset x (mset (all_entries ws)) = mset es" "panes_apart es"
    and k: "placeable x k ws" and w: "workspace_inv w" "wk_id w = wk_id (ws ! k)"
    "panes_of w = insert x (panes_of (ws ! k))"
  shows "spaces_ok (ws[k := w])" "mset (all_entries (ws[k := w])) = mset es"
proof -
  have kl: "k < length ws" using k by (simp add: placeable_def)
  obtain R where R: "workspace_ok R (ws ! k)" using k by (auto simp: placeable_def)
  have "mset (x # entries (wk_tabs (ws ! k))) = mset (entries (wk_tabs w))"
    by (rule set_eq_iff_mset_eq_distinct [THEN iffD1])
      (use place_absent [OF total kl] distinct_entries [OF R] distinct_entries [OF workspace_inv_ok [OF w(1)]] w(3)
        in auto)
  then have "mset (entries (wk_tabs w)) = add_mset x (mset (entries (wk_tabs (ws ! k))))" by simp
  then show m: "mset (all_entries (ws[k := w])) = mset es"
    using total(1) by (simp add: all_entries_nth [OF kl] all_entries_update [OF kl, of w])
  have "workspace_inv v" if v: "v \<in> set (ws[k := w])" for v
  proof -
    obtain j where "j < length ws" "v = (if j = k then w else ws ! j)"
      using v by (auto simp: in_set_conv_nth nth_list_update)
    then show ?thesis using k w(1) by (auto simp: placeable_def)
  qed
  then show "spaces_ok (ws[k := w])"
    using ids_ok_update [OF ids kl w(2)] panes_apart_mset [OF m] total(2) by (auto simp: spaces_ok_def)
qed

lemma place_new:
  assumes ids: "ids_ok ws" and total: "add_mset x (mset (all_entries ws)) = mset es" "panes_apart es"
    and inv: "\<forall>v \<in> set ws. workspace_inv v"
    and w: "workspace_inv w" "wk_id w \<notin> wk_id ` set ws" "id_ok (wk_id w)" "panes_of w = {x}"
  shows "spaces_ok (ws @ [w])" "mset (all_entries (ws @ [w])) = mset es"
proof -
  have "mset (entries (wk_tabs w)) = {#x#}"
    using set_eq_iff_mset_eq_distinct [of "entries (wk_tabs w)" "[x]"] w(4)
      distinct_entries [OF workspace_inv_ok [OF w(1)]] by simp
  then show m: "mset (all_entries (ws @ [w])) = mset es" using total(1) by simp
  show "spaces_ok (ws @ [w])"
    using ids w inv panes_apart_mset [OF m] total(2) by (auto simp: spaces_ok_def ids_ok_def)
qed

end
