(* ===== verification/PaneMoveSafe.thy ===== *)
theory PaneMoveSafe
  imports PaneMoveInv
begin

text \<open>
  Moving a pane succeeds on well-formed states: it never panics, never needs the recovery, and leaves a
  well-formed state with the same panes.
\<close>

section \<open>Taking the pane out\<close>

text \<open>
  While the pane \<open>x\<close> is on its way, all panes but \<open>x\<close> are in the workspaces; if it stays in the workspace
  \<open>k\<close> it keeps its number there and the workspace may have no tab.
\<close>

definition afloat :: "pane_id \<times> terminal_id \<Rightarrow> (pane_id \<times> terminal_id) list \<Rightarrow> nat \<Rightarrow> bool \<Rightarrow> app_state \<Rightarrow> bool" where
  "afloat x es k cross s \<longleftrightarrow>
     ids_ok (as_workspaces s) \<and> add_mset x (mset (all_entries (as_workspaces s))) = mset es \<and> panes_apart es
     \<and> (if cross then \<forall>v \<in> set (as_workspaces s). workspace_inv v else placeable x k (as_workspaces s))
     \<and> room_left s \<and> in_range s"

lemma in_range_update [simp]:
  "in_range (s\<lparr>as_workspaces := (as_workspaces s)[k := w]\<rparr>) \<longleftrightarrow> in_range s"
  by (simp add: in_range_def)

lemma in_range_aliases [simp]: "in_range (s\<lparr>as_public_aliases := a\<rparr>) \<longleftrightarrow> in_range s"
  "in_range (s\<lparr>as_workspaces := (as_workspaces s)[k := w], as_public_aliases := a\<rparr>) \<longleftrightarrow> in_range s"
  by (simp_all add: in_range_def)

lemma in_range_close:
  assumes "in_range s" "k < length (as_workspaces s)"
  shows "in_range (close_emptied_workspace k s)"
proof -
  let ?ws = "remove_nth k (as_workspaces s)"
  have l: "length (as_workspaces s) = Suc (length ?ws)" using assms(2) length_remove_nth [OF assms(2)] by simp
  then have ne: "as_workspaces s \<noteq> []" by auto
  then obtain a where a: "as_active s = Some a" "a < length (as_workspaces s)" "as_selected s < length (as_workspaces s)"
    using assms(1) by (auto simp: in_range_def)
  show ?thesis
  proof (cases "?ws = []")
    case False
    then have "min k (length ?ws - 1) < length ?ws" by (simp add: min_less_iff_disj)
    then show ?thesis
      using a assms(2) False unfolding l by (auto simp: in_range_def close_emptied_workspace_def Let_def)
  qed (simp add: in_range_def close_emptied_workspace_def Let_def)
qed

lemma room_left_sub:
  assumes "room_left s" "as_counter s' = as_counter s"
    and "\<And>v. v \<in> set (as_workspaces s') \<Longrightarrow> \<exists>u \<in> set (as_workspaces s). wk_id v = wk_id u
      \<and> next_public_pane_number v = next_public_pane_number u \<and> next_public_tab_number v = next_public_tab_number u"
  shows "room_left s'"
  unfolding room_left_def assms(2)
proof
  show "\<forall>w \<in> set (as_workspaces s'). next_public_pane_number w \<noteq> -1 \<and> next_public_tab_number w \<noteq> -1"
    using assms(1,3) unfolding room_left_def by metis
  show "fst (generate_workspace_id (as_counter s)) \<notin> wk_id ` set (as_workspaces s')"
    using assms(1,3) unfolding room_left_def by force
qed

lemma set_update_remove: "k < length xs \<Longrightarrow> set (xs[k := y]) = insert y (set (remove_nth k xs))"
  using mset_list_update [of k xs y] by (metis set_mset_add_mset_insert set_mset_mset)

lemma mem_remove_nth: "j < length xs \<Longrightarrow> j \<noteq> k \<Longrightarrow> xs ! j \<in> set (remove_nth k xs)"
proof (cases "j < k")
  case True
  assume "j < length xs"
  with True have "xs ! j = take k xs ! j" "j < length (take k xs)" by simp_all
  then have "xs ! j \<in> set (take k xs)" by (metis nth_mem)
  then show ?thesis by (simp add: remove_nth_def)
next
  case False
  assume "j < length xs" "j \<noteq> k"
  with False have "xs ! j = drop (Suc k) xs ! (j - Suc k)" "j - Suc k < length (drop (Suc k) xs)" by simp_all
  then have "xs ! j \<in> set (drop (Suc k) xs)" by (metis nth_mem)
  then show ?thesis by (simp add: remove_nth_def)
qed

lemma remove_nth_update: "k < length xs \<Longrightarrow> remove_nth k (xs[k := y]) = remove_nth k xs"
  by (simp add: remove_nth_def)

lemma taken_entries:
  assumes w: "workspace_inv w" and t: "workspace_ok {i} w'" "panes_of w' = {x \<in> panes_of w. fst x \<noteq> i}"
    and x: "(i, j) \<in> panes_of w"
  shows "mset (entries (wk_tabs w)) = add_mset (i, j) (mset (entries (wk_tabs w')))"
proof -
  have d: "distinct (map fst (entries (wk_tabs w)))"
    using w by (simp add: workspace_inv_def workspace_ok_def tabs_ok_def)
  have "set (entries (wk_tabs w)) = set ((i, j) # entries (wk_tabs w'))"
    using t(2) x distinct_fst_unique [OF d] by auto
  moreover have "distinct ((i, j) # entries (wk_tabs w'))" using distinct_entries [OF t(1)] t(2) by simp
  ultimately show ?thesis
    using set_eq_iff_mset_eq_distinct distinct_entries [OF workspace_inv_ok [OF w]] by (metis mset.simps(2))
qed

lemma left_workspaces:
  "as_workspaces (leave_workspace cross emptied k i p w' s) =
     (if \<not> cross then (as_workspaces s)[k := w']
      else if emptied then remove_nth k ((as_workspaces s)[k := unregister_moved_pane i w'])
      else (as_workspaces s)[k := unregister_moved_pane i w'])"
  by (simp add: leave_workspace_def close_emptied_workspace_def Let_def)

lemma left_counter [simp]: "as_counter (leave_workspace cross emptied k i p w' s) = as_counter s"
  by (simp add: leave_workspace_def close_emptied_workspace_def Let_def)

lemma left_in_range:
  "in_range s \<Longrightarrow> k < length (as_workspaces s) \<Longrightarrow> in_range (leave_workspace cross emptied k i p w' s)"
  using in_range_close by (simp add: leave_workspace_def Let_def)

lemma unregister_moved_fields [simp]:
  "wk_tabs (unregister_moved_pane i w) = wk_tabs w" "wk_id (unregister_moved_pane i w) = wk_id w"
  "next_public_pane_number (unregister_moved_pane i w) = next_public_pane_number w"
  "next_public_tab_number (unregister_moved_pane i w) = next_public_tab_number w"
  by (simp_all add: unregister_moved_pane_def unregister_pane_def)

lemma app_ok_workspace:
  assumes "app_ok s" "k < length (as_workspaces s)"
  shows "workspace_inv (as_workspaces s ! k)" "id_ok (wk_id (as_workspaces s ! k))"
  using assms by (auto simp: app_ok_def spaces_ok_def ids_ok_def)

lemma left_state:
  assumes s: "app_ok s" "room_left s" and k: "k < length (as_workspaces s)" and i: "i \<in> live (as_workspaces s ! k)"
    and take: "take_pane_for_move i (as_workspaces s ! k) = Some (Some tk, w')"
  shows "afloat (i, attached_terminal_id (mp_pane_state (tk_moved tk))) (all_entries (as_workspaces s)) k cross
      (leave_workspace cross (tk_workspace_empty tk) k i p w' s)" (is "afloat ?x ?es k cross ?s'")
    and "mp_pane_id (tk_moved tk) = i" "wk_id w' = wk_id (as_workspaces s ! k)" "workspace_ok {i} w'"
proof -
  let ?w = "as_workspaces s ! k" and ?ws = "as_workspaces s"
  have w: "workspace_inv ?w" by (rule app_ok_workspace [OF s(1) k])
  have ids: "ids_ok ?ws" and inv: "\<forall>v \<in> set ?ws. workspace_inv v" and apart: "panes_apart ?es" and range: "in_range s"
    using s(1) by (auto simp: app_ok_def spaces_ok_def)
  obtain tk' v where t: "take_pane_for_move i ?w = Some (Some tk', v)" "workspace_ok {i} v"
      "panes_of v = {x \<in> panes_of ?w. fst x \<noteq> i}" "mp_pane_id (tk_moved tk') = i"
      "(i, attached_terminal_id (mp_pane_state (tk_moved tk'))) \<in> panes_of ?w"
      "tk_workspace_empty tk' \<longleftrightarrow> wk_tabs v = []"
      "next_public_pane_number v = next_public_pane_number ?w"
      "next_public_tab_number v = next_public_tab_number ?w" "wk_id v = wk_id ?w"
    by (rule take_pane_ok [OF w i])
  have eq: "tk' = tk" "v = w'" using t(1) take by simp_all
  note t = t(2-) [unfolded eq]
  show "mp_pane_id (tk_moved tk) = i" "wk_id w' = wk_id ?w" "workspace_ok {i} w'" using t by simp_all
  have e: "mset (entries (wk_tabs ?w)) = add_mset ?x (mset (entries (wk_tabs w')))"
    by (rule taken_entries [OF w t(1,2,4)])
  have mem: "v \<in> set ?ws \<or> v = w' \<or> v = unregister_moved_pane i w'" if "v \<in> set (as_workspaces ?s')" for v
    using that k set_update_subset_insert [of ?ws k] set_remove_nth [of k ?ws]
    by (auto simp: left_workspaces remove_nth_update split: if_splits)
  have room: "room_left ?s'"
  proof (rule room_left_sub [OF s(2)])
    fix v assume "v \<in> set (as_workspaces ?s')"
    then show "\<exists>u \<in> set ?ws. wk_id v = wk_id u \<and> next_public_pane_number v = next_public_pane_number u
        \<and> next_public_tab_number v = next_public_tab_number u"
      using mem [of v] k t(6-8) by (metis nth_mem unregister_moved_fields(2-4))
  qed simp
  have ids': "ids_ok (as_workspaces ?s')"
    using ids_ok_update [OF ids k] ids_ok_remove [OF ids, of k] k t(8)
    by (simp add: left_workspaces remove_nth_update)
  have total: "add_mset ?x (mset (all_entries (as_workspaces ?s'))) = mset ?es"
    using e k t(5)
    by (auto simp: left_workspaces remove_nth_update all_entries_nth [OF k] all_entries_update [OF k])
  have "if cross then \<forall>v \<in> set (as_workspaces ?s'). workspace_inv v else placeable ?x k (as_workspaces ?s')"
  proof (cases cross)
    case True
    have "workspace_inv v" if "v \<in> set (as_workspaces ?s')" for v
    proof (cases "tk_workspace_empty tk")
      case empty: True
      then show ?thesis using that True k inv set_remove_nth [of k ?ws] by (auto simp: left_workspaces remove_nth_update)
    next
      case False
      then have "workspace_inv (unregister_moved_pane i w')" using t(5) by (intro unregister_moved_ok [OF t(1)]) simp
      then show ?thesis using that True False inv set_update_subset_insert [of ?ws k] by (auto simp: left_workspaces)
    qed
    then show ?thesis using True by simp
  next
    case False
    then show ?thesis using k t(1) inv by (auto simp: placeable_def left_workspaces)
  qed
  then show "afloat ?x ?es k cross ?s'"
    unfolding afloat_def using ids' total apart room left_in_range [OF range k] by simp
qed

section \<open>Putting it into place\<close>

definition in_tab :: "pane_id \<Rightarrow> nat \<Rightarrow> app_workspace \<Rightarrow> bool" where
  "in_tab i tab_idx w \<longleftrightarrow> tab_idx < length (wk_tabs w) \<and> i \<in> dom (tb_panes (wk_tabs w ! tab_idx))"

definition placed :: "(pane_id \<times> terminal_id) list \<Rightarrow> pane_id \<Rightarrow> nat \<Rightarrow> nat \<Rightarrow> app_state \<Rightarrow> bool" where
  "placed es i k tab_idx s \<longleftrightarrow>
     spaces_ok (as_workspaces s) \<and> mset (all_entries (as_workspaces s)) = mset es
     \<and> k < length (as_workspaces s) \<and> in_tab i tab_idx (as_workspaces s ! k)
     \<and> (as_active s = None \<or> in_range s)"

lemma afloatD:
  assumes "afloat x es k cross s" "k' < length (as_workspaces s)" "\<not> cross \<longrightarrow> k' = k"
  shows "placeable x k' (as_workspaces s)" "fst x \<notin> live (as_workspaces s ! k')" "snd x \<notin> terminals (as_workspaces s ! k')"
    "next_public_pane_number (as_workspaces s ! k') \<noteq> -1" "next_public_tab_number (as_workspaces s ! k') \<noteq> -1"
    "\<exists>R \<subseteq> {fst x}. workspace_ok R (as_workspaces s ! k')"
proof -
  have total: "add_mset x (mset (all_entries (as_workspaces s))) = mset es" "panes_apart es"
    using assms(1) by (auto simp: afloat_def)
  show "fst x \<notin> live (as_workspaces s ! k')" "snd x \<notin> terminals (as_workspaces s ! k')"
    by (rule place_absent [OF total assms(2)])+
  show "next_public_pane_number (as_workspaces s ! k') \<noteq> -1" "next_public_tab_number (as_workspaces s ! k') \<noteq> -1"
    using assms(1,2) by (auto simp: afloat_def room_left_def)
  show p: "placeable x k' (as_workspaces s)"
  proof (cases cross)
    case True
    then show ?thesis using assms(1,2) workspace_inv_ok
      by (auto simp: afloat_def placeable_def intro: exI [of _ "{}"])
  qed (use assms in \<open>auto simp: afloat_def\<close>)
  then show "\<exists>R \<subseteq> {fst x}. workspace_ok R (as_workspaces s ! k')" by (simp add: placeable_def)
qed

lemma placed_update:
  assumes f: "afloat x es k cross s" and k': "k' < length (as_workspaces s)" "\<not> cross \<longrightarrow> k' = k"
    and w: "workspace_inv w" "wk_id w = wk_id (as_workspaces s ! k')" "panes_of w = insert x (panes_of (as_workspaces s ! k'))"
    and j: "in_tab i j w"
  shows "placed es i k' j (s\<lparr>as_workspaces := (as_workspaces s)[k' := w]\<rparr>)"
proof -
  have a: "ids_ok (as_workspaces s)" "add_mset x (mset (all_entries (as_workspaces s))) = mset es" "panes_apart es"
    using f by (auto simp: afloat_def)
  show ?thesis
    using place_in [OF a afloatD(1) [OF f k'] w] f k'(1) j by (simp add: placed_def afloat_def)
qed

lemma place_in_tab:
  assumes f: "afloat x es k cross s" and k': "k' < length (as_workspaces s)" "\<not> cross \<longrightarrow> k' = k"
    and j: "j < length (wk_tabs (as_workspaces s ! k'))" "target \<in> dom (tb_panes (wk_tabs (as_workspaces s ! k') ! j))"
    and m: "x = (mp_pane_id m, attached_terminal_id (mp_pane_state m))"
    and i: "parse_tab_id i s = Some (k', j)"
  shows "\<exists>s'. place_moved_pane dir (ExistingTab i target d r c) context m terminal focus s = Some (Some (k', j), s')
    \<and> placed es (mp_pane_id m) k' j s'"
proof -
  let ?w = "as_workspaces s ! k'"
  note a = afloatD [OF f k']
  obtain R where R: "workspace_ok R ?w" "R \<subseteq> {mp_pane_id m}" using a(6) m by auto
  obtain w where w: "insert_moved_pane_into_tab j target m (split_direction_to_layout d) r focus ?w = (Inr (mp_pane_id m), w)"
      "workspace_inv w" "panes_of w = insert x (panes_of ?w)" "in_tab (mp_pane_id m) j w" "wk_id w = wk_id ?w"
    using insert_moved_ok [OF R j] a(2-4) m j(1) by (metis fst_conv snd_conv in_tab_def)
  have "placed es (mp_pane_id m) k' j (s\<lparr>as_workspaces := (as_workspaces s)[k' := w]\<rparr>)"
    by (rule placed_update [OF f k']) (use w j in simp_all)
  then show ?thesis using i k'(1) w(1) by (simp add: place_moved_pane_def workspace_at_def)
qed

lemma place_in_new_tab:
  assumes f: "afloat x es k cross s" and k': "k' < length (as_workspaces s)" "\<not> cross \<longrightarrow> k' = k"
    and m: "x = (mp_pane_id m, attached_terminal_id (mp_pane_state m))"
    and i: "parse_workspace_id i s = Some k'"
  shows "\<exists>j s'. place_moved_pane dir (NewTab i label) context m terminal focus s = Some (Some (k', j), s')
    \<and> placed es (mp_pane_id m) k' j s'"
proof -
  let ?w = "as_workspaces s ! k'"
  note a = afloatD [OF f k']
  obtain R where R: "workspace_ok R ?w" "R \<subseteq> {mp_pane_id m}" using a(6) m by auto
  obtain w where w: "create_tab_from_existing_pane m label ?w = (length (wk_tabs ?w), w)"
      "workspace_inv w" "panes_of w = insert x (panes_of ?w)" "wk_id w = wk_id ?w" "in_tab (mp_pane_id m) (length (wk_tabs ?w)) w"
    using create_from_existing_ok [OF R] a(2-5) m by (metis fst_conv snd_conv in_tab_def lessI)
  have "placed es (mp_pane_id m) k' (length (wk_tabs ?w)) (s\<lparr>as_workspaces := (as_workspaces s)[k' := w]\<rparr>)"
    by (rule placed_update [OF f k']) (use w in simp_all)
  then show ?thesis using i k'(1) w(1) by (simp add: place_moved_pane_def workspace_at_def)
qed

lemma place_in_new_workspace:
  assumes f: "afloat x es k True s" and m: "x = (mp_pane_id m, attached_terminal_id (mp_pane_state m))"
  shows "\<exists>k' j s'. place_moved_pane dir (NewWorkspace label tab_label) context m terminal focus s = Some (Some (k', j), s')
    \<and> placed es (mp_pane_id m) k' j s'"
proof -
  let ?cwd = "case as_terminals s terminal of Some t \<Rightarrow> t_cwd t | None \<Rightarrow> dir"
  obtain w c where w: "workspace_from_existing_pane label tab_label ?cwd m (as_counter s) = (w, c)" by fastforce
  let ?s' = "s\<lparr>as_counter := c, as_workspaces := as_workspaces s @ [w]\<rparr>"
  have id: "wk_id w = fst (generate_workspace_id (as_counter s))" "in_tab (mp_pane_id m) 0 w"
    using w by (auto simp: workspace_from_existing_pane_def Let_def case_prod_beta in_tab_def tab_from_existing_pane_def)
  have a: "ids_ok (as_workspaces s)" "add_mset x (mset (all_entries (as_workspaces s))) = mset es" "panes_apart es"
    "\<forall>v \<in> set (as_workspaces s). workspace_inv v" "room_left s" "in_range s"
    using f by (auto simp: afloat_def)
  have fresh: "wk_id w \<notin> wk_id ` set (as_workspaces s)" "id_ok (wk_id w)"
    using a(5) generated_id_ok unfolding id(1) by (auto simp: room_left_def)
  have "panes_of w = {x}" using from_existing_ok(2) [OF w] m by simp
  note new = place_new [OF a(1-4) from_existing_ok(1) [OF w] fresh this]
  have "as_active ?s' = None \<or> in_range ?s'"
    using a(6) by (cases "as_workspaces s = []") (auto simp: in_range_def less_Suc_eq)
  with new id(2) have "placed es (mp_pane_id m) (length (as_workspaces s)) 0 ?s'" by (simp add: placed_def)
  then show ?thesis using w by (simp add: place_moved_pane_def Let_def)
qed

section \<open>Focus\<close>

lemma record_focus_fields [simp]:
  "as_workspaces (record_pane_focus_change f k i s) = as_workspaces s"
  "as_active (record_pane_focus_change f k i s) = as_active s"
  "as_selected (record_pane_focus_change f k i s) = as_selected s"
  "as_workspaces (record_pane_focus_after_navigation f s) = as_workspaces s"
  "as_active (record_pane_focus_after_navigation f s) = as_active s"
  "as_selected (record_pane_focus_after_navigation f s) = as_selected s"
  by (simp_all add: record_pane_focus_change_def record_pane_focus_after_navigation_def split: option.split)

lemma switch_tab_id [simp]: "wk_id (switch_tab j w) = wk_id w"
  by (simp add: switch_tab_def)

text \<open>One workspace changes, but keeps its id and its panes.\<close>

lemma spaces_ok_same:
  assumes ok: "spaces_ok ws" and k: "k < length ws"
    and w: "workspace_inv w" "wk_id w = wk_id (ws ! k)" "panes_of w = panes_of (ws ! k)"
  shows "spaces_ok (ws[k := w])" "mset (all_entries (ws[k := w])) = mset (all_entries ws)"
proof -
  have v: "workspace_inv (ws ! k)" using ok k by (simp add: spaces_ok_def)
  have "mset (entries (wk_tabs w)) = mset (entries (wk_tabs (ws ! k)))"
    using set_eq_iff_mset_eq_distinct w(3) distinct_entries [OF workspace_inv_ok [OF v]]
      distinct_entries [OF workspace_inv_ok [OF w(1)]] by metis
  then show m: "mset (all_entries (ws[k := w])) = mset (all_entries ws)"
    by (simp add: all_entries_nth [OF k] all_entries_update [OF k])
  have "ids_ok (ws[k := w])" using ok k w(2) by (intro ids_ok_update) (simp_all add: spaces_ok_def)
  then show "spaces_ok (ws[k := w])"
    using ok panes_apart_mset [OF m] w(1) set_update_subset_insert [of ws k] by (auto simp: spaces_ok_def)
qed

lemma spaces_ok_switch:
  assumes "spaces_ok ws" "k < length ws"
  shows "spaces_ok (ws[k := switch_tab j (ws ! k)])"
    "mset (all_entries (ws[k := switch_tab j (ws ! k)])) = mset (all_entries ws)"
proof -
  have "workspace_inv (ws ! k)" using assms by (simp add: spaces_ok_def)
  note s = spaces_ok_same [OF assms switch_tab_ok(1) [OF this] switch_tab_id switch_tab_ok(2) [OF this]]
  show "spaces_ok (ws[k := switch_tab j (ws ! k)])"
    "mset (all_entries (ws[k := switch_tab j (ws ! k)])) = mset (all_entries ws)" by (rule s)+
qed

text \<open>The pane is in the active tab of the active workspace.\<close>

definition on_screen :: "pane_id \<Rightarrow> app_state \<Rightarrow> bool" where
  "on_screen i s \<longleftrightarrow>
     (case as_active s of
        None \<Rightarrow> False
      | Some k \<Rightarrow> k < length (as_workspaces s) \<and> in_tab i (wk_active_tab (as_workspaces s ! k)) (as_workspaces s ! k))"

lemma in_tab_switch: "in_tab i j w \<Longrightarrow> in_tab i (wk_active_tab (switch_tab j w)) (switch_tab j w)"
  by (auto simp: in_tab_def switch_tab_def mark_seen_def dom_def)

lemma switched:
  assumes p: "placed es i k j s"
  shows "app_ok (snd (switch_workspace_tab k j s))"
    "mset (all_entries (as_workspaces (snd (switch_workspace_tab k j s)))) = mset es"
    "on_screen i (snd (switch_workspace_tab k j s))"
proof -
  have k: "k < length (as_workspaces s)" "j < length (wk_tabs (as_workspaces s ! k))"
    and ok: "spaces_ok (as_workspaces s)" "mset (all_entries (as_workspaces s)) = mset es"
    using p by (auto simp: placed_def in_tab_def)
  let ?s = "snd (switch_workspace_tab k j s)"
  have ws: "as_workspaces ?s = (as_workspaces s)[k := switch_tab j (as_workspaces s ! k)]"
    "as_active ?s = Some k" "as_selected ?s = k"
    using k by (simp_all add: switch_workspace_tab_def workspace_at_def Let_def mark_session_dirty_def)
  show "app_ok ?s" "mset (all_entries (as_workspaces ?s)) = mset es"
    using spaces_ok_switch [OF ok(1) k(1)] ok(2) k(1) ws by (auto simp: app_ok_def in_range_def)
  show "on_screen i ?s" using in_tab_switch p k(1) ws by (simp add: on_screen_def placed_def)
qed

lemma app_ok_cong:
  "as_workspaces s = as_workspaces s' \<Longrightarrow> as_active s = as_active s' \<Longrightarrow> as_selected s = as_selected s' \<Longrightarrow> app_ok s = app_ok s'"
  by (simp add: app_ok_def in_range_def)

lemma on_screen_cong:
  "as_workspaces s = as_workspaces s' \<Longrightarrow> as_active s = as_active s' \<Longrightarrow> on_screen i s = on_screen i s'"
  by (simp add: on_screen_def split: option.split)

lemma finished:
  assumes p: "placed es i k j s"
  shows "app_ok (finish_pane_move previous focus k j i s)"
    "mset (all_entries (as_workspaces (finish_pane_move previous focus k j i s))) = mset es"
    "focus \<Longrightarrow> on_screen i (finish_pane_move previous focus k j i s)"
proof -
  let ?t = "if focus \<or> as_active s = None then snd (switch_workspace_tab k j s) else s"
  let ?s' = "finish_pane_move previous focus k j i s"
  have f: "as_workspaces ?s' = as_workspaces ?t" "as_active ?s' = as_active ?t" "as_selected ?s' = as_selected ?t"
    by (simp_all add: finish_pane_move_def Let_def mark_session_dirty_def remove_alias_shadowed_by_new_pane_def)
  have "app_ok ?t \<and> mset (all_entries (as_workspaces ?t)) = mset es"
    using switched [OF p] p by (auto simp: placed_def app_ok_def)
  then show "app_ok ?s'" "mset (all_entries (as_workspaces ?s')) = mset es"
    using app_ok_cong [OF f] f(1) by simp_all
  show "on_screen i ?s'" if focus using switched(3) [OF p] that on_screen_cong [OF f(1,2)] by simp
qed

end
