(* ===== verification/PaneMoveRuns.thy ===== *)
theory PaneMoveRuns
  imports PaneMoveSafe
begin

text \<open>The whole request to move a pane: its cases, its effect, and the requests that make it panic.\<close>

section \<open>Names that exist\<close>

lemma parse_tab_id_exists: "parse_tab_id i s = Some (k, j) \<Longrightarrow> tab_exists k j s"
  by (auto simp: parse_tab_id_def split: option.splits prod.splits if_splits)

lemma find_pane_Some:
  assumes "find_pane i s = Some (k, p)"
  shows "k < length (as_workspaces s)"
  using assms position_Some by (fastforce simp: find_pane_def split: option.splits)

lemma numbered_pane_Some: "numbered_pane keys w n s = Some (k, i) \<Longrightarrow> k < length (as_workspaces s)"
  by (auto simp: numbered_pane_def workspace_at_def split: option.splits if_splits)

lemma parse_pane_id_Some:
  assumes "parse_pane_id keys i s = Some (k, p)"
  shows "k < length (as_workspaces s)"
  using assms find_pane_Some numbered_pane_Some
  by (fastforce simp: parse_pane_id_def workspace_at_def split: option.splits prod.splits if_splits)

lemma own_workspace:
  assumes "ids_ok (as_workspaces s)" "k < length (as_workspaces s)"
  shows "parse_workspace_id (wk_id (as_workspaces s ! k)) s = Some k"
  using assms parse_own_workspace_id by (simp add: ids_ok_def)

lemma own_tab:
  assumes "ids_ok (as_workspaces s)" "k < length (as_workspaces s)" "workspace_ok R (as_workspaces s ! k)"
    and "j < length (wk_tabs (as_workspaces s ! k))" "t = wk_tabs (as_workspaces s ! k) ! j"
  shows "parse_tab_id (public_tab_id_for_number (wk_id (as_workspaces s ! k)) (tb_number t)) s = Some (k, j)"
proof -
  have "tabs_ok (next_public_tab_number (as_workspaces s ! k)) (wk_tabs (as_workspaces s ! k))"
    using assms(3) by (simp add: workspace_ok_def)
  then have n: "distinct (map tb_number (wk_tabs (as_workspaces s ! k)))" "tb_number t \<noteq> 0"
    using assms(4,5) nth_mem [OF assms(4)] unfolding tabs_ok_def by fastforce+
  show ?thesis
    unfolding assms(5)
    by (rule parse_own_tab_id) (use assms n in \<open>auto simp: ids_ok_def\<close>)
qed

text \<open>The workspace id of a request for a new tab, if it is understood, is that of a workspace.\<close>

definition names_existing :: "move_destination \<Rightarrow> app_state \<Rightarrow> bool" where
  "names_existing destination s =
    (case destination of
       ToNewTab (Some i) _ \<Rightarrow>
         (case parse_workspace_id i s of None \<Rightarrow> True | Some k \<Rightarrow> k < length (as_workspaces s))
     | _ \<Rightarrow> True)"

lemma resolve_target_cases:
  assumes ok: "app_ok s" and k: "k < length (as_workspaces s)" "j < length (wk_tabs (as_workspaces s ! k))"
    and t: "t = wk_tabs (as_workspaces s ! k) ! j"
  obtains (refused) "resolve_target_pane keys target k j t s = Some (Inl (MoveError TargetPaneNotFound))"
  | (found) i where "resolve_target_pane keys target k j t s = Some (Inr i)" "i \<in> dom (tb_panes t)"
proof (cases target)
  case None
  have inv: "tab_inv t"
    using workspace_ok_tab [OF workspace_inv_ok [OF app_ok_workspace(1) [OF ok k(1)]] k(2)] t by simp
  then have "tl_focus (tb_layout t) \<in> dom (tb_panes t)" by (auto simp: tab_inv_def layout_inv_def)
  then show ?thesis using None found by (simp add: resolve_target_pane_def)
next
  case (Some raw)
  show ?thesis
  proof (cases "parse_pane_id keys raw s")
    case None
    with Some show ?thesis using refused by (simp add: resolve_target_pane_def)
  next
    case p: (Some y)
    obtain k' i where y: "y = (k', i)" by fastforce
    have k': "k' < length (as_workspaces s)" using parse_pane_id_Some p y by simp
    show ?thesis
    proof (cases "k' \<noteq> k \<or> find_tab_index_for_pane i (as_workspaces s ! k') \<noteq> Some j")
      case True
      then show ?thesis using refused Some p y k' by (auto simp: resolve_target_pane_def workspace_at_def)
    next
      case False
      then have "i \<in> dom (tb_panes t)" using find_tab_index_Some t by blast
      then show ?thesis using False found [of i] Some p y k' by (simp add: resolve_target_pane_def workspace_at_def)
    qed
  qed
qed

lemma resolve_destination_cases:
  assumes ok: "app_ok s" and k: "k < length (as_workspaces s)" and names: "names_existing destination s"
  obtains (refused) out where
      "resolve_destination keys destination k source (wk_id (as_workspaces s ! k)) s = Some (Inl out)" "out \<noteq> Moved"
  | (existing) k' j target d r where
      "resolve_destination keys destination k source (wk_id (as_workspaces s ! k)) s
       = Some (Inr (ExistingTab (public_tab_id_for_number (wk_id (as_workspaces s ! k'))
             (tb_number (wk_tabs (as_workspaces s ! k') ! j))) target d r (k \<noteq> k')))"
      "k' < length (as_workspaces s)" "j < length (wk_tabs (as_workspaces s ! k'))"
      "target \<in> dom (tb_panes (wk_tabs (as_workspaces s ! k') ! j))" "k' \<noteq> k \<or> j \<noteq> source"
  | (new_tab) k' label where
      "resolve_destination keys destination k source (wk_id (as_workspaces s ! k)) s
       = Some (Inr (NewTab (wk_id (as_workspaces s ! k')) label))" "k' < length (as_workspaces s)"
  | (new_workspace) label tab_label where
      "resolve_destination keys destination k source (wk_id (as_workspaces s ! k)) s
       = Some (Inr (NewWorkspace label tab_label))"
proof (cases destination)
  case (ToTab i target d ratio)
  show ?thesis
  proof (cases "parse_tab_id i s")
    case None
    then show ?thesis using ToTab refused by (simp add: resolve_destination_def)
  next
    case (Some y)
    obtain k' j where y: "y = (k', j)" by fastforce
    then have "tab_exists k' j s" using Some parse_tab_id_exists by simp
    then have l: "k' < length (as_workspaces s)" "j < length (wk_tabs (as_workspaces s ! k'))"
      by (auto simp: tab_exists_def workspace_at_def split: if_splits)
    let ?t = "wk_tabs (as_workspaces s ! k') ! j"
    have at: "tab_at k' j s = Some ?t"
      and id: "public_tab_id k' j s = Some (public_tab_id_for_number (wk_id (as_workspaces s ! k')) (tb_number ?t))"
      using l by (simp_all add: tab_at_def workspace_at_def public_tab_id_def public_tab_number_def)
    show ?thesis
    proof (cases "k = k' \<and> source = j \<or> tb_zoomed ?t")
      case True
      have "resolve_destination keys destination k source (wk_id (as_workspaces s ! k)) s
          = Some (Inl (Unchanged (if k = k' \<and> source = j then SameTab else ZoomedTab)))"
        using True ToTab Some y at by (auto simp: resolve_destination_def)
      then show ?thesis by (rule refused) simp
    next
      case False
      show ?thesis
      proof (rule resolve_target_cases [OF ok l refl, of keys target])
        assume "resolve_target_pane keys target k' j ?t s = Some (Inl (MoveError TargetPaneNotFound))"
        then show ?thesis using False ToTab Some y at refused by (auto simp: resolve_destination_def)
      next
        fix p assume "resolve_target_pane keys target k' j ?t s = Some (Inr p)" "p \<in> dom (tb_panes ?t)"
        then show ?thesis
          using existing [of k' j p d "case ratio of Some r \<Rightarrow> r | None \<Rightarrow> f32_round (1/2)"] False ToTab Some y at id l
          by (auto simp: resolve_destination_def)
      qed
    qed
  qed
next
  case (ToNewTab workspace_id label)
  show ?thesis
  proof (cases workspace_id)
    case None
    then show ?thesis using ToNewTab new_tab k by (simp add: resolve_destination_def)
  next
    case (Some raw)
    then show ?thesis
      using ToNewTab new_tab refused names
      by (cases "parse_workspace_id raw s")
        (auto simp: resolve_destination_def names_existing_def public_workspace_id_def workspace_at_def)
  qed
qed (use new_workspace in \<open>simp add: resolve_destination_def\<close>)

section \<open>The tabs that stay\<close>

lemma take_keeps_tabs:
  assumes "take_pane_for_move i w = Some (Some tk, w')" "find_tab_index_for_pane i w = Some source"
    and "j < length (wk_tabs w)" "j \<noteq> source"
  shows "wk_tabs w ! j \<in> set (wk_tabs w')"
proof -
  have "source < length (wk_tabs w)" using find_tab_index_Some [OF assms(2)] by simp
  then have "wk_tabs w ! j \<in> set ((wk_tabs w)[source := t])" for t
    using assms(3,4) by (simp add: set_update_remove mem_remove_nth)
  then show ?thesis
    using assms mem_remove_nth [OF assms(3,4)]
    by (auto simp: take_pane_for_move_def Let_def split: if_splits option.splits prod.splits)
qed

lemma left_others:
  assumes "k < length (as_workspaces s)" "k' < length (as_workspaces s)" "k' \<noteq> k"
  shows "as_workspaces s ! k' \<in> set (as_workspaces (leave_workspace cross emptied k i p w' s))"
  using assms by (auto simp: left_workspaces remove_nth_update set_update_remove mem_remove_nth)

section \<open>The whole request\<close>

lemma public_tab_id_at:
  "k < length (as_workspaces s) \<Longrightarrow> j < length (wk_tabs (as_workspaces s ! k)) \<Longrightarrow> public_tab_id k j s \<noteq> None"
  by (simp add: public_tab_id_def workspace_at_def public_tab_number_def)

text \<open>The destination is found again after the pane was taken out.\<close>

lemma place_taken:
  assumes s: "app_ok s" and k: "k < length (as_workspaces s)"
    and f: "find_tab_index_for_pane i (as_workspaces s ! k) = Some source"
    and take: "take_pane_for_move i (as_workspaces s ! k) = Some (Some tk, w')"
    and names: "names_existing destination s" and room: "room_left s"
    and res: "resolve_destination keys destination k source (wk_id (as_workspaces s ! k)) s = Some (Inr resolved)"
    and s2: "s2 = leave_workspace (is_cross_workspace resolved (wk_id (as_workspaces s ! k)))
      (tk_workspace_empty tk) k i p w' s"
  shows "\<exists>k' j s3. place_moved_pane dir resolved context (tk_moved tk) terminal focus s2 = Some (Some (k', j), s3)
    \<and> placed (all_entries (as_workspaces s)) (mp_pane_id (tk_moved tk)) k' j s3"
proof -
  let ?ws = "as_workspaces s" and ?m = "tk_moved tk"
  have w: "workspace_ok {} (?ws ! k)" by (rule workspace_inv_ok [OF app_ok_workspace(1) [OF s k]])
  have i: "i \<in> live (?ws ! k)" using in_tab_live [OF w] find_tab_index_Some [OF f] by blast
  note left = left_state [OF s room k i take]
  note fl = left(1) [where p = p and cross = "is_cross_workspace resolved (wk_id (?ws ! k))", folded s2]
  have m: "(i, attached_terminal_id (mp_pane_state ?m)) = (mp_pane_id ?m, attached_terminal_id (mp_pane_state ?m))"
    using left(2) by simp
  have ids: "ids_ok (as_workspaces s2)" using fl by (simp add: afloat_def)
  have same: "as_workspaces s2 ! k = w'" "k < length (as_workspaces s2)"
    if "\<not> is_cross_workspace resolved (wk_id (?ws ! k))"
    using that k unfolding s2 left_workspaces by simp_all
  have other: "\<exists>k2 < length (as_workspaces s2). as_workspaces s2 ! k2 = ?ws ! k'" if "k' < length ?ws" "k' \<noteq> k" for k'
    using left_others [OF k that] unfolding s2 by (metis in_set_conv_nth)
  show ?thesis
  proof (rule resolve_destination_cases [OF s k names, of keys source])
    fix k' j target d ratio
    let ?t = "wk_tabs (?ws ! k') ! j"
    assume "resolve_destination keys destination k source (wk_id (?ws ! k)) s
        = Some (Inr (ExistingTab (public_tab_id_for_number (wk_id (?ws ! k')) (tb_number ?t)) target d ratio (k \<noteq> k')))"
      and l: "k' < length ?ws" "j < length (wk_tabs (?ws ! k'))" "target \<in> dom (tb_panes ?t)" "k' \<noteq> k \<or> j \<noteq> source"
    then have r: "resolved = ExistingTab (public_tab_id_for_number (wk_id (?ws ! k')) (tb_number ?t)) target d ratio (k \<noteq> k')"
      using res by simp
    have cross: "is_cross_workspace resolved (wk_id (?ws ! k)) \<longleftrightarrow> k \<noteq> k'" by (simp add: r is_cross_workspace_def)
    have "\<exists>k2 j2. k2 < length (as_workspaces s2) \<and> (\<not> is_cross_workspace resolved (wk_id (?ws ! k)) \<longrightarrow> k2 = k)
        \<and> wk_id (as_workspaces s2 ! k2) = wk_id (?ws ! k')
        \<and> j2 < length (wk_tabs (as_workspaces s2 ! k2)) \<and> wk_tabs (as_workspaces s2 ! k2) ! j2 = ?t"
    proof (cases "k' = k")
      case True
      then have "?t \<in> set (wk_tabs w')" using take_keeps_tabs [OF take f] l by simp
      then show ?thesis using same left(3) cross True by (metis in_set_conv_nth)
    next
      case False
      then show ?thesis using other [OF l(1) False] cross l(2) by metis
    qed
    then obtain k2 j2 where t: "k2 < length (as_workspaces s2)"
        "\<not> is_cross_workspace resolved (wk_id (?ws ! k)) \<longrightarrow> k2 = k"
        "wk_id (as_workspaces s2 ! k2) = wk_id (?ws ! k')" "j2 < length (wk_tabs (as_workspaces s2 ! k2))"
        "wk_tabs (as_workspaces s2 ! k2) ! j2 = ?t"
      by blast
    obtain R where R: "workspace_ok R (as_workspaces s2 ! k2)" using afloatD(6) [OF fl t(1,2)] by blast
    have "parse_tab_id (public_tab_id_for_number (wk_id (?ws ! k')) (tb_number ?t)) s2 = Some (k2, j2)"
      using own_tab [OF ids t(1) R t(4) refl] t(3,5) by simp
    from place_in_tab [OF fl t(1,2,4) _ m this, of target dir d ratio "k \<noteq> k'" "context" terminal focus] l(3) t(5)
    show ?thesis unfolding r by auto
  next
    fix k' label
    assume "resolve_destination keys destination k source (wk_id (?ws ! k)) s = Some (Inr (NewTab (wk_id (?ws ! k')) label))"
      and l: "k' < length ?ws"
    then have r: "resolved = NewTab (wk_id (?ws ! k')) label" using res by simp
    have "distinct (map wk_id ?ws)" using s by (simp add: app_ok_def spaces_ok_def ids_ok_def)
    then have cross: "is_cross_workspace resolved (wk_id (?ws ! k)) \<longleftrightarrow> k \<noteq> k'"
      using l k by (auto simp: r is_cross_workspace_def distinct_conv_nth)
    have "\<exists>k2 < length (as_workspaces s2). (\<not> is_cross_workspace resolved (wk_id (?ws ! k)) \<longrightarrow> k2 = k)
        \<and> wk_id (as_workspaces s2 ! k2) = wk_id (?ws ! k')"
      using same left(3) cross other [OF l] by (cases "k' = k") metis+
    then obtain k2 where t: "k2 < length (as_workspaces s2)"
        "\<not> is_cross_workspace resolved (wk_id (?ws ! k)) \<longrightarrow> k2 = k"
        "wk_id (as_workspaces s2 ! k2) = wk_id (?ws ! k')" by blast
    from place_in_new_tab [OF fl t(1,2) m, of "wk_id (?ws ! k')" dir label "context" terminal focus]
      own_workspace [OF ids t(1)] t(3)
    show ?thesis unfolding r by auto
  next
    fix label tab_label
    assume "resolve_destination keys destination k source (wk_id (?ws ! k)) s = Some (Inr (NewWorkspace label tab_label))"
    then have r: "resolved = NewWorkspace label tab_label" using res by simp
    have "is_cross_workspace resolved (wk_id (?ws ! k))" by (simp add: r is_cross_workspace_def)
    then show ?thesis using place_in_new_workspace [OF _ m, of _ k s2 dir label tab_label "context" terminal focus] fl
      unfolding r by auto
  qed (use res in simp)
qed

lemma move_resolved_ok:
  assumes s: "app_ok s" and k: "k < length (as_workspaces s)"
    and f: "find_tab_index_for_pane i (as_workspaces s ! k) = Some source"
    and names: "names_existing destination s" and room: "room_left s"
    and res: "resolve_destination keys destination k source (wk_id (as_workspaces s ! k)) s = Some (Inr resolved)"
    and c: "rc_workspace_id context = wk_id (as_workspaces s ! k)"
  shows "\<exists>s'. move_resolved dir resolved context p k i terminal focus (as_workspaces s ! k) s = Some (Moved, s')
    \<and> app_ok s' \<and> mset (all_entries (as_workspaces s')) = mset (all_entries (as_workspaces s))
    \<and> (focus \<longrightarrow> on_screen i s')"
proof -
  have inv: "workspace_inv (as_workspaces s ! k)" by (rule app_ok_workspace(1) [OF s k])
  have i: "i \<in> live (as_workspaces s ! k)"
    using in_tab_live [OF workspace_inv_ok [OF inv]] find_tab_index_Some [OF f] by blast
  obtain tk w' where take: "take_pane_for_move i (as_workspaces s ! k) = Some (Some tk, w')" "mp_pane_id (tk_moved tk) = i"
    by (rule take_pane_ok [OF inv i])
  obtain k' j s3 where pl: "place_moved_pane dir resolved context (tk_moved tk) terminal focus
        (leave_workspace (is_cross_workspace resolved (wk_id (as_workspaces s ! k))) (tk_workspace_empty tk) k i p w' s)
        = Some (Some (k', j), s3)" "placed (all_entries (as_workspaces s)) (mp_pane_id (tk_moved tk)) k' j s3"
    using place_taken [OF s k f take(1) names room res refl] by blast
  show ?thesis using take pl(1) finished [OF pl(2)] by (simp add: move_resolved_def Let_def c)
qed

lemma handle_pane_move_cases:
  assumes s: "app_ok s" and room: "room_left s" and names: "names_existing destination s"
  obtains (refused) out where "handle_pane_move keys dir pane destination focus s = Some (out, s)" "out \<noteq> Moved"
  | (moved) k i s' where "parse_pane_id keys pane s = Some (k, i)"
      "handle_pane_move keys dir pane destination focus s = Some (Moved, s')" "app_ok s'"
      "mset (all_entries (as_workspaces s')) = mset (all_entries (as_workspaces s))" "focus \<longrightarrow> on_screen i s'"
proof (cases "parse_pane_id keys pane s")
  case None
  then show ?thesis using refused by (simp add: handle_pane_move_def)
next
  case (Some y)
  obtain k i where y: "y = (k, i)" by fastforce
  have k: "k < length (as_workspaces s)" using parse_pane_id_Some Some y by simp
  let ?w = "as_workspaces s ! k"
  have at: "workspace_at k s = Some ?w" using k by (simp add: workspace_at_def)
  show ?thesis
  proof (cases "find_tab_index_for_pane i ?w")
    case None
    then show ?thesis using refused Some y at by (simp add: handle_pane_move_def)
  next
    case f: (Some source)
    let ?t = "wk_tabs ?w ! source"
    have src: "source < length (wk_tabs ?w)" "i \<in> dom (tb_panes ?t)" using find_tab_index_Some [OF f] by auto
    obtain tab_id st where known: "public_tab_id k source s = Some tab_id" "tb_panes ?t i = Some st"
      using public_tab_id_at [OF k src(1)] src(2) by blast
    let ?prev = "case public_pane_id k i s of Some x \<Rightarrow> x | None \<Rightarrow> pane"
    let ?ctx = "\<lparr>rc_source_ws_idx = k, rc_workspace_id = wk_id ?w, rc_workspace_label = wk_custom_name ?w,
      rc_tab_label = tb_custom_name ?t, rc_worktree_space = wk_worktree_space ?w, rc_identity_cwd = wk_identity_cwd ?w\<rparr>"
    have h: "handle_pane_move keys dir pane destination focus s =
        (if tb_zoomed ?t then Some (Unchanged ZoomedTab, s)
         else (case resolve_destination keys destination k source (wk_id ?w) s of
             None \<Rightarrow> None
           | Some (Inl out) \<Rightarrow> Some (out, s)
           | Some (Inr resolved) \<Rightarrow>
               move_resolved dir resolved ?ctx ?prev k i (attached_terminal_id st) focus ?w s))"
      using Some y at f known by (simp add: handle_pane_move_def Let_def)
    show ?thesis
    proof (cases "tb_zoomed ?t")
      case True
      then show ?thesis using refused h by simp
    next
      case False
      have "\<exists>r. resolve_destination keys destination k source (wk_id ?w) s = Some r \<and> r \<noteq> Inl Moved"
        by (rule resolve_destination_cases [OF s k names, of keys source]) auto
      then obtain r where r: "resolve_destination keys destination k source (wk_id ?w) s = Some r" "r \<noteq> Inl Moved" by blast
      show ?thesis
      proof (cases r)
        case (Inl out)
        then show ?thesis using refused [of out] h False r by simp
      next
        case (Inr resolved)
        have "\<exists>s'. move_resolved dir resolved ?ctx ?prev k i (attached_terminal_id st) focus ?w s = Some (Moved, s')
            \<and> app_ok s' \<and> mset (all_entries (as_workspaces s')) = mset (all_entries (as_workspaces s))
            \<and> (focus \<longrightarrow> on_screen i s')"
          by (rule move_resolved_ok [OF s k f names room]) (use r Inr in simp_all)
        then show ?thesis using moved [of k i] h False r Inr Some y by auto
      qed
    qed
  qed
qed

section \<open>Properties\<close>


text \<open>
  C12: the public ids of a well-formed state are read back: those of a workspace and of a tab always, that of a pane unless
  it is also the former id of a pane that moved.
\<close>

theorem public_ids_read_back:
  assumes s: "app_ok s" and keys: "keys_ok keys s" and k: "k < length (as_workspaces s)"
    and tab: "public_tab_id k tab_idx s = Some t" and pane: "public_pane_id k i s = Some p"
    and unshadowed: "as_public_aliases s p = None"
  shows "parse_workspace_id (wk_id (as_workspaces s ! k)) s = Some k \<and> parse_tab_id t s = Some (k, tab_idx)
    \<and> parse_pane_id keys p s = Some (k, i)"
proof (intro conjI)
  let ?w = "as_workspaces s ! k"
  have ids: "ids_ok (as_workspaces s)" using s by (simp add: app_ok_def spaces_ok_def)
  note w = app_ok_workspace [OF s k]
  show "parse_workspace_id (wk_id ?w) s = Some k" by (rule own_workspace [OF ids k])
  have t: "tab_idx < length (wk_tabs ?w)" "t = public_tab_id_for_number (wk_id ?w) (tb_number (wk_tabs ?w ! tab_idx))"
    using tab k by (auto simp: public_tab_id_def workspace_at_def public_tab_number_def split: if_splits)
  show "parse_tab_id t s = Some (k, tab_idx)"
    unfolding t(2) by (rule own_tab [OF ids k workspace_inv_ok [OF w(1)] t(1) refl])
  obtain n where n: "public_pane_number i ?w = Some n" "p = public_pane_id_for_number (wk_id ?w) n"
    using pane k by (auto simp: public_pane_id_def workspace_at_def)
  show "parse_pane_id keys p s = Some (k, i)"
    unfolding n(2)
    by (rule parse_own_pane_id [OF _ k refl w(2,1) keys n(1)]) (use ids unshadowed n(2) in \<open>simp_all add: ids_ok_def\<close>)
qed

text \<open>
  An ordinal of no workspace is understood too; a request for a new tab there panics.
\<close>

lemma missing_workspace_panics:
  assumes "parse_pane_id keys pane s = Some (k, i)" "k < length (as_workspaces s)"
    and "find_tab_index_for_pane i (as_workspaces s ! k) = Some source" "\<not> tb_zoomed (wk_tabs (as_workspaces s ! k) ! source)"
    and "parse_workspace_id x s = Some n" "length (as_workspaces s) \<le> n"
  shows "handle_pane_move keys dir pane (ToNewTab (Some x) label) focus s = None"
proof -
  have at: "workspace_at k s = Some (as_workspaces s ! k)" using assms(2) by (simp add: workspace_at_def)
  have src: "source < length (wk_tabs (as_workspaces s ! k))" "i \<in> dom (tb_panes (wk_tabs (as_workspaces s ! k) ! source))"
    using find_tab_index_Some [OF assms(3)] by auto
  obtain tab_id st where known: "public_tab_id k source s = Some tab_id" "tb_panes (wk_tabs (as_workspaces s ! k) ! source) i = Some st"
    using public_tab_id_at [OF assms(2) src(1)] src(2) by blast
  have "resolve_destination keys (ToNewTab (Some x) label) k source c s = None" for c
    using assms(5,6) by (simp add: resolve_destination_def public_workspace_id_def workspace_at_def)
  then show ?thesis using assms(1,3,4) at known by (simp add: handle_pane_move_def Let_def)
qed

section \<open>Witnesses\<close>

definition demo_second :: app_workspace where
  "demo_second = \<lparr>wk_id = lit ''w2'', wk_custom_name = None, wk_identity_cwd = lit ''/'', wk_worktree_space = None,
     public_pane_numbers = [8 \<mapsto> 1], next_public_pane_number = 2, next_public_tab_number = 2,
     wk_tabs = [\<lparr>tb_custom_name = None, tb_number = 1, tb_root_pane = 8,
       tb_layout = \<lparr>tl_root = Pane 8, tl_focus = 8, tl_prev_focus = None\<rparr>,
       tb_panes = [8 \<mapsto> pane_state_new (lit ''term_2'')], tb_zoomed = False\<rparr>],
     wk_active_tab = 0\<rparr>"

definition demo_state :: app_state where
  "demo_state = \<lparr>as_workspaces = [demo_workspace, demo_second], as_active = Some 0, as_selected = 0,
     as_terminals = (\<lambda>i. if i \<in> {lit ''term_1'', lit ''term_2''} then Some (terminal_new i (lit ''/'')) else None),
     as_pane_id_aliases = Map.empty, as_public_aliases = Map.empty, as_previous_focus = None,
     as_terminal_mode = True, as_session_dirty = False, as_shutdowns = [], as_plugin_panes = {},
     as_toast = None, as_pending = [], as_outer_focus = None, as_next_change_seq = 0, as_confirm_close = True,
     as_sound = \<lparr>sd_enabled = True, sd_agents = \<lambda>_. SoundDefault\<rparr>,
     as_toast_config = \<lparr>tc_delivery = DeliveryHerdr, tc_delay_seconds = 0\<rparr>, as_counter = 3\<rparr>"

definition demo_keys :: "app_workspace \<Rightarrow> pane_id list" where
  "demo_keys w = (if wk_id w = lit ''w1'' then [7] else [8])"

lemma demo_second_inv: "workspace_inv demo_second"
  unfolding demo_second_def
  by (rule fresh_workspace_ok [where terminal = "lit ''term_2''"])
    (auto simp: tab_inv_def layout_inv_def pane_ids_def tab_entries_def pane_state_new_def)

lemma demo_state_ws: "as_workspaces demo_state = [demo_workspace, demo_second]" "wk_id demo_workspace = lit ''w1''"
  "wk_id demo_second = lit ''w2''" "as_active demo_state = Some 0" "as_selected demo_state = 0" "as_counter demo_state = 3"
  by (simp_all add: demo_state_def demo_workspace_def demo_second_def)

lemma demo_second_entries: "entries (wk_tabs demo_second) = [(8, lit ''term_2'')]"
  by (simp add: demo_second_def entries_def tab_entries_def pane_ids_def pane_state_new_def)

lemma demo_workspace_entries: "entries (wk_tabs demo_workspace) = [(7, lit ''term_1'')]"
  by (simp add: demo_workspace_def entries_def tab_entries_def pane_ids_def pane_state_new_def)

lemma demo_state_ok: "app_ok demo_state"
  using demo_workspace_inv demo_second_inv
  by (auto simp: app_ok_def spaces_ok_def ids_ok_def panes_apart_def in_range_def demo_state_ws demo_second_entries
      demo_workspace_entries id_ok_def strip_prefix_def lit_def)

lemma encode_3: "encode_public_number 3 = lit ''3''"
proof -
  have "digits 3 = digits 0 @ [public_id_alphabet ! 2]" by (subst digits.simps) simp
  then show ?thesis using encode_digits [of 3] by (simp add: public_id_alphabet_def lit_def)
qed

lemma encode_1: "encode_public_number 1 = lit ''1''"
  using encode_digits [of 1] digits_step [of 0 0] by (simp add: public_id_alphabet_def lit_def)

lemma demo_room_left: "room_left demo_state"
  by (auto simp: room_left_def demo_state_ws generate_workspace_id_def encode_3 lit_def demo_workspace_def demo_second_def)

lemma demo_keys_ok: "keys_ok demo_keys demo_state"
  by (simp add: keys_ok_def demo_keys_def demo_state_ws) (simp add: demo_workspace_def demo_second_def)

lemma demo_parse: "parse_pane_id demo_keys (lit ''w1:p1'') demo_state = Some (0, 7)"
proof -
  have ids: "distinct (map wk_id (as_workspaces demo_state))" by (simp add: demo_state_ws lit_def)
  have "id_ok (wk_id demo_workspace)" by (simp add: demo_state_ws id_ok_def strip_prefix_def lit_def)
  moreover have "public_pane_number 7 demo_workspace = Some 1" by (simp add: public_pane_number_def demo_workspace_def)
  moreover have "public_pane_id_for_number (wk_id demo_workspace) 1 = lit ''w1:p1''"
    by (simp add: public_pane_id_for_number_def demo_state_ws encode_1 [simplified]) (simp add: lit_def)
  ultimately show ?thesis
    using parse_own_pane_id [OF ids, of 0 demo_workspace demo_keys 7 1] demo_workspace_inv demo_keys_ok
    by (simp add: demo_state_ws) (simp add: demo_state_def)
qed

lemma demo_ordinal: "parse_workspace_id (lit ''9'') demo_state = Some 8"
  by (simp add: parse_workspace_id_def demo_state_ws)
   (simp add: lit_def strip_prefix_def parse_ordinal_def parse_unsigned_def strip_plus_def is_ascii_digit_def digits_value_def Let_def)

lemma demo_destination: "parse_workspace_id (lit ''w2'') demo_state = Some 1"
  by (simp add: parse_workspace_id_def demo_state_ws lit_def)

lemma demo_taken: "take_pane_for_move 7 demo_workspace = Some (Some \<lparr>tk_moved = \<lparr>mp_pane_id = 7, mp_pane_state = pane_state_new (lit ''term_1'')\<rparr>,
   tk_removed_tab_idx = Some 0, tk_workspace_empty = True\<rparr>, demo_workspace\<lparr>wk_tabs := []\<rparr>)"
  by (simp add: take_pane_for_move_def demo_workspace_def find_tab_index_for_pane_def pane_count_def Let_def remove_nth_def tab_take_pane_for_move_def adjust_active_tab_after_removal_def)


theorem public_ids_read_back_witness:
  "parse_tab_id (lit ''w1:t1'') demo_state = Some (0, 0) \<and> parse_pane_id demo_keys (lit ''w1:p1'') demo_state = Some (0, 7)"
proof -
  have "public_tab_id 0 0 demo_state = Some (lit ''w1:t1'')" "public_pane_id 0 7 demo_state = Some (lit ''w1:p1'')"
    by (simp add: public_tab_id_def public_pane_id_def workspace_at_def demo_state_ws public_tab_number_def public_pane_number_def,
        simp add: demo_workspace_def public_tab_id_for_number_def public_pane_id_for_number_def encode_1 [simplified],
        simp add: lit_def)+
  then show ?thesis
    using public_ids_read_back [OF demo_state_ok demo_keys_ok, of 0 0 "lit ''w1:t1''" 7 "lit ''w1:p1''"]
    by (simp add: demo_state_ws) (simp add: demo_state_def)
qed

text \<open>With two workspaces, \<open>9\<close> is the ordinal of none.\<close>

lemma missing_workspace_panics_instance:
  "app_ok demo_state
   \<and> handle_pane_move demo_keys (lit ''/'') (lit ''w1:p1'') (ToNewTab (Some (lit ''9'')) None) focus demo_state = None"
proof -
  have "find_tab_index_for_pane 7 demo_workspace = Some 0" "\<not> tb_zoomed (wk_tabs demo_workspace ! 0)"
    by (simp_all add: find_tab_index_for_pane_def demo_workspace_def)
  then show ?thesis
    using missing_workspace_panics [OF demo_parse, of 0 "lit ''9''" 8 "lit ''/''" None focus] demo_ordinal demo_state_ok
    by (simp add: demo_state_ws)
qed

text \<open>
  When the last pane of the active workspace moves to another one, the focus before the move names the workspace
  that is closed, which the invariants of \<open>AppState\<close> (\<open>assert_invariants_for_test\<close>) exclude.
\<close>

lemma moved_away_focus_is_stale:
  "\<exists>s'. handle_pane_move demo_keys (lit ''/'') (lit ''w1:p1'') (ToNewTab (Some (lit ''w2'')) None) True demo_state
     = Some (Moved, s')
  \<and> as_previous_focus s' = Some \<lparr>ft_workspace_id = lit ''w1'', ft_pane_id = 7\<rparr> \<and> map wk_id (as_workspaces s') = [lit ''w2'']"
proof -
  have r: "resolve_destination demo_keys (ToNewTab (Some (lit ''w2'')) None) 0 0 (lit ''w1'') demo_state
      = Some (Inr (NewTab (lit ''w2'') None))"
    by (simp add: resolve_destination_def demo_destination public_workspace_id_def workspace_at_def demo_state_ws)
  have f: "find_tab_index_for_pane 7 demo_workspace = Some 0" by (simp add: find_tab_index_for_pane_def demo_workspace_def)
  have at: "workspace_at 0 demo_state = Some demo_workspace" by (simp add: workspace_at_def demo_state_ws)
  have tabs: "wk_tabs demo_workspace \<noteq> []" "\<not> tb_zoomed (wk_tabs demo_workspace ! 0)"
    "tb_panes (wk_tabs demo_workspace ! 0) 7 = Some (pane_state_new (lit ''term_1''))"
    by (simp_all add: demo_workspace_def)
  have id: "public_tab_id 0 0 demo_state \<noteq> None" by (simp add: public_tab_id_def at public_tab_number_def tabs)
  then obtain i where id: "public_tab_id 0 0 demo_state = Some i" by blast
  have cur: "current_pane_focus_target demo_state = Some \<lparr>ft_workspace_id = lit ''w1'', ft_pane_id = 7\<rparr>"
    by (simp add: current_pane_focus_target_def demo_state_ws at) (simp add: focused_pane_id_def active_tab_def demo_workspace_def)
  have ne: "lit ''w2'' \<noteq> lit ''w1''" by (simp add: lit_def)
  show ?thesis
    by (simp add: handle_pane_move_def demo_parse at f id tabs Let_def demo_state_ws r,
      simp add: move_resolved_def demo_taken is_cross_workspace_def ne cur Let_def,
      simp add: leave_workspace_def Let_def close_emptied_workspace_def demo_state_ws remove_nth_def,
      simp add: place_moved_pane_def parse_workspace_id_def demo_state_ws workspace_at_def,
      simp add: create_tab_from_existing_pane_def Let_def finish_pane_move_def demo_state_ws ne,
      simp add: switch_workspace_tab_def workspace_at_def ne mark_session_dirty_def
        remove_alias_shadowed_by_new_pane_def demo_state_ws Let_def,
      simp add: record_pane_focus_change_def workspace_at_def demo_state_ws ne)
qed

end
