(* ===== verification/AppActions.thy ===== *)
theory AppActions
  imports PaneMove
begin

text \<open>
  Operations on workspaces, panes and terminals of \<open>app/actions.rs\<close>: focus, zoom, the order of workspaces,
  closing them, and the death of a pane. The operations that exist only in test builds are left out.
\<close>

section \<open>Focus and zoom\<close>

definition update_workspace :: "nat \<Rightarrow> (app_workspace \<Rightarrow> app_workspace) \<Rightarrow> app_state \<Rightarrow> app_state" where
  "update_workspace k f s =
     (if k < length (as_workspaces s)
      then s\<lparr>as_workspaces := (as_workspaces s)[k := f (as_workspaces s ! k)]\<rparr> else s)"

definition update_tab :: "nat \<Rightarrow> (tab \<Rightarrow> tab) \<Rightarrow> app_workspace \<Rightarrow> app_workspace" where
  "update_tab tab_idx f w =
     (if tab_idx < length (wk_tabs w)
      then w\<lparr>wk_tabs := (wk_tabs w)[tab_idx := f (wk_tabs w ! tab_idx)]\<rparr> else w)"

definition focus_tab_pane :: "pane_id \<Rightarrow> tab \<Rightarrow> tab" where
  "focus_tab_pane i t = t\<lparr>tb_layout := focus_pane i (tb_layout t)\<rparr>"

definition focus_pane_in_workspace :: "nat \<Rightarrow> pane_id \<Rightarrow> app_state \<Rightarrow> bool \<times> app_state" where
  "focus_pane_in_workspace k i s =
    (case workspace_at k s of
       None \<Rightarrow> (False, s)
     | Some w \<Rightarrow>
         (case find_tab_index_for_pane i w of
            None \<Rightarrow> (False, s)
          | Some tab_idx \<Rightarrow>
              let previous = current_pane_focus_target s
              in if previous = Some \<lparr>ft_workspace_id = wk_id w, ft_pane_id = i\<rparr> then (False, s)
                 else let s1 = snd (switch_workspace_tab k tab_idx s)
                      in if tab_at k tab_idx s1 = None then (False, s1)
                         else (True, mark_session_dirty
                                ((update_workspace k (update_tab tab_idx (focus_tab_pane i)) s1)
                                   \<lparr>as_previous_focus := previous\<rparr>))))"

text \<open>
  \<open>pane_is_in_active_tab\<close> indexes the vector with \<open>k\<close>; every caller has found a workspace there.
\<close>

definition pane_is_in_active_tab :: "nat \<Rightarrow> pane_id \<Rightarrow> app_state \<Rightarrow> bool" where
  "pane_is_in_active_tab k i s \<longleftrightarrow>
     as_active s = Some k
     \<and> (case workspace_at k s of
          None \<Rightarrow> False | Some w \<Rightarrow> find_tab_index_for_pane i w = Some (wk_active_tab w))"

text \<open>
  The panes of a tab are walked in the order \<open>iter\<close> gives for a tab (\<open>pane_order_ok\<close>); only the order in which
  terminals are shut down depends on it.
\<close>

type_synonym pane_order = "tab \<Rightarrow> pane_id list"

definition pane_order_ok :: "pane_order \<Rightarrow> bool" where
  "pane_order_ok iter \<longleftrightarrow> (\<forall>t. finite (dom (tb_panes t)) \<longrightarrow> set (iter t) = dom (tb_panes t) \<and> distinct (iter t))"

definition tab_values :: "pane_order \<Rightarrow> tab \<Rightarrow> pane_state list" where
  "tab_values iter t = List.map_filter (tb_panes t) (iter t)"

definition mark_active_tab_seen :: "pane_order \<Rightarrow> app_state \<Rightarrow> bool \<times> app_state" where
  "mark_active_tab_seen iter s =
    (case as_active s of
       None \<Rightarrow> (False, s)
     | Some k \<Rightarrow>
         (case Option.bind (workspace_at k s) active_tab of
            None \<Rightarrow> (False, s)
          | Some t \<Rightarrow> (list_ex (\<lambda>p. \<not> seen p) (tab_values iter t),
                     update_workspace k (\<lambda>w. update_tab (wk_active_tab w) mark_seen w) s)))"

datatype zoom_command = ZoomToggle | ZoomOn | ZoomOff

datatype zoom_noop_reason = SinglePane | AlreadyZoomed | AlreadyUnzoomed

record zoom_outcome =
  zo_changed :: bool
  zo_focus_changed :: bool
  zo_reason :: "zoom_noop_reason option"
  zo_zoomed :: bool

definition desired_zoom :: "zoom_command \<Rightarrow> bool \<Rightarrow> bool" where
  "desired_zoom command zoomed =
     (case command of ZoomToggle \<Rightarrow> \<not> zoomed | ZoomOn \<Rightarrow> True | ZoomOff \<Rightarrow> False)"

definition zoom_noop :: "zoom_command \<Rightarrow> bool \<Rightarrow> zoom_noop_reason option" where
  "zoom_noop command zoomed =
     (if command = ZoomOn \<and> zoomed then Some AlreadyZoomed
      else if command = ZoomOff \<and> \<not> zoomed then Some AlreadyUnzoomed else None)"

definition set_zoomed :: "bool \<Rightarrow> tab \<Rightarrow> tab" where
  "set_zoomed z t = t\<lparr>tb_zoomed := z\<rparr>"

definition apply_pane_zoom :: "nat \<Rightarrow> pane_id \<Rightarrow> zoom_command \<Rightarrow> app_state \<Rightarrow> zoom_outcome option \<times> app_state" where
  "apply_pane_zoom k i command s =
    (case Option.bind (workspace_at k s) (find_tab_index_for_pane i) of
       None \<Rightarrow> (None, s)
     | Some tab_idx \<Rightarrow>
         let (focus_changed, s1) = focus_pane_in_workspace k i s
         in (case tab_at k tab_idx s1 of
               None \<Rightarrow> (None, s1)
             | Some t \<Rightarrow>
                 if pane_count (tb_layout t) \<le> 1
                 then (Some \<lparr>zo_changed = False, zo_focus_changed = focus_changed,
                             zo_reason = Some SinglePane, zo_zoomed = tb_zoomed t\<rparr>, s1)
                 else let desired = desired_zoom command (tb_zoomed t); reason = zoom_noop command (tb_zoomed t)
                      in if reason \<noteq> None
                         then (Some \<lparr>zo_changed = False, zo_focus_changed = focus_changed,
                                     zo_reason = reason, zo_zoomed = tb_zoomed t\<rparr>, s1)
                         else (Some \<lparr>zo_changed = True, zo_focus_changed = focus_changed,
                                     zo_reason = None, zo_zoomed = desired\<rparr>,
                               mark_session_dirty
                                 (update_workspace k (update_tab tab_idx (set_zoomed desired)) s1))))"

section \<open>The order of workspaces\<close>

text \<open>The active and the selected workspace are found again by their ids.\<close>

definition refind :: "str option \<Rightarrow> app_workspace list \<Rightarrow> nat option" where
  "refind i ws = Option.bind i (\<lambda>i. position (\<lambda>w. wk_id w = i) ws)"

definition with_order :: "app_workspace list \<Rightarrow> app_state \<Rightarrow> app_state" where
  "with_order ws s =
     s\<lparr>as_workspaces := ws,
       as_active := refind (map_option (\<lambda>k. wk_id (as_workspaces s ! k)) (as_active s)) ws,
       as_selected := (case refind (map_option wk_id (workspace_at (as_selected s) s)) ws of
                         Some k \<Rightarrow> k | None \<Rightarrow> 0)\<rparr>"

text \<open>Both index the vector with the active workspace: \<open>None\<close> is the panic when it is out of range.\<close>

definition active_in_range :: "app_state \<Rightarrow> bool" where
  "active_in_range s \<longleftrightarrow> (case as_active s of None \<Rightarrow> True | Some k \<Rightarrow> k < length (as_workspaces s))"

definition move_workspace :: "nat \<Rightarrow> nat \<Rightarrow> app_state \<Rightarrow> (bool \<times> app_state) option" where
  "move_workspace source_idx insert_idx s =
    (if length (as_workspaces s) \<le> source_idx \<or> length (as_workspaces s) < insert_idx then Some (False, s)
     else let target_idx = (if source_idx < insert_idx then insert_idx - 1 else insert_idx)
          in if source_idx = target_idx then Some (False, s)
             else if \<not> active_in_range s then None
             else Some (True, with_order
                    (insert_nth target_idx (as_workspaces s ! source_idx) (remove_nth source_idx (as_workspaces s)))
                    (mark_session_dirty s)))"

definition desired_order :: "str list \<Rightarrow> str option \<Rightarrow> str list \<Rightarrow> str list" where
  "desired_order moved before ids =
    (let rest = filter (\<lambda>i. i \<notin> set moved) ids;
         k = (case Option.bind before (\<lambda>i. position (\<lambda>c. c = i) rest) of Some k \<Rightarrow> k | None \<Rightarrow> length rest)
     in take k rest @ moved @ drop k rest)"

definition move_workspace_block :: "str list \<Rightarrow> str option \<Rightarrow> app_state \<Rightarrow> (bool \<times> app_state) option" where
  "move_workspace_block moved before s =
    (let ids = map wk_id (as_workspaces s)
     in if moved = [] \<or> \<not> distinct moved \<or> \<not> list_all (\<lambda>i. i \<in> set ids) moved
          \<or> (case before of None \<Rightarrow> False | Some i \<Rightarrow> i \<in> set moved \<or> i \<notin> set ids)
        then Some (False, s)
        else let desired = desired_order moved before ids
             in if ids = desired then Some (False, s)
                else if \<not> active_in_range s then None
                else Some (True, with_order
                  (sort_key (\<lambda>w. case position (\<lambda>i. i = wk_id w) desired of Some k \<Rightarrow> k | None \<Rightarrow> 2 ^ 64 - 1)
                     (as_workspaces s))
                  (mark_session_dirty s)))"

section \<open>Terminals of closed panes\<close>

definition terminal_ids_for_tabs :: "pane_order \<Rightarrow> tab list \<Rightarrow> terminal_id list" where
  "terminal_ids_for_tabs iter ts =
    concat (map (\<lambda>t. map attached_terminal_id (tab_values iter t)) ts)"

definition terminal_ids_for_workspace :: "pane_order \<Rightarrow> nat \<Rightarrow> app_state \<Rightarrow> terminal_id list" where
  "terminal_ids_for_workspace iter k s =
    (case workspace_at k s of None \<Rightarrow> [] | Some w \<Rightarrow> terminal_ids_for_tabs iter (wk_tabs w))"

definition pane_ids_for_workspace :: "nat \<Rightarrow> app_state \<Rightarrow> pane_id list" where
  "pane_ids_for_workspace k s =
    (case workspace_at k s of None \<Rightarrow> [] | Some w \<Rightarrow> concat (map (\<lambda>t. pane_ids (tb_layout t)) (wk_tabs w)))"

definition terminal_ids_for_tab :: "pane_order \<Rightarrow> nat \<Rightarrow> nat \<Rightarrow> app_state \<Rightarrow> terminal_id list" where
  "terminal_ids_for_tab iter k tab_idx s =
    (case tab_at k tab_idx s of None \<Rightarrow> [] | Some t \<Rightarrow> terminal_ids_for_tabs iter [t])"

definition pane_ids_for_tab :: "nat \<Rightarrow> nat \<Rightarrow> app_state \<Rightarrow> pane_id list" where
  "pane_ids_for_tab k tab_idx s = (case tab_at k tab_idx s of None \<Rightarrow> [] | Some t \<Rightarrow> pane_ids (tb_layout t))"

definition terminal_id_for_pane :: "nat \<Rightarrow> pane_id \<Rightarrow> app_state \<Rightarrow> terminal_id option" where
  "terminal_id_for_pane k i s =
    map_option attached_terminal_id (Option.bind (workspace_at k s) (find_pane_state i))"

definition is_attached :: "pane_order \<Rightarrow> terminal_id \<Rightarrow> app_workspace list \<Rightarrow> bool" where
  "is_attached iter j ws \<longleftrightarrow>
     list_ex (\<lambda>w. list_ex (\<lambda>t. list_ex (\<lambda>p. attached_terminal_id p = j) (tab_values iter t)) (wk_tabs w)) ws"

definition remove_unattached_terminal_id :: "pane_order \<Rightarrow> terminal_id \<Rightarrow> app_state \<Rightarrow> app_state" where
  "remove_unattached_terminal_id iter j s =
    (if is_attached iter j (as_workspaces s) \<or> as_terminals s j = None then s
     else s\<lparr>as_terminals := (as_terminals s)(j := None),
            as_shutdowns := (if j \<in> set (as_shutdowns s) then as_shutdowns s else as_shutdowns s @ [j])\<rparr>)"

definition remove_unattached_terminal_ids :: "pane_order \<Rightarrow> terminal_id list \<Rightarrow> app_state \<Rightarrow> app_state" where
  "remove_unattached_terminal_ids iter js s = foldl (\<lambda>s j. remove_unattached_terminal_id iter j s) s js"

definition remove_plugin_pane_records :: "pane_id list \<Rightarrow> app_state \<Rightarrow> app_state" where
  "remove_plugin_pane_records is s =
    s\<lparr>as_previous_focus :=
        (case as_previous_focus s of
           None \<Rightarrow> None
         | Some f \<Rightarrow> if ft_pane_id f \<in> set is then None else Some f),
      as_plugin_panes := as_plugin_panes s - set is\<rparr>"

section \<open>Closing workspaces\<close>

text \<open>The main workspace of a group of worktrees is closed with the whole group.\<close>

definition same_space :: "worktree_space \<Rightarrow> app_workspace \<Rightarrow> bool" where
  "same_space space w \<longleftrightarrow> (case wk_worktree_space w of None \<Rightarrow> False | Some m \<Rightarrow> wt_key m = wt_key space)"

definition workspace_close_indices :: "nat \<Rightarrow> app_state \<Rightarrow> nat list" where
  "workspace_close_indices k s =
    (case Option.bind (workspace_at k s) wk_worktree_space of
       None \<Rightarrow> [k]
     | Some space \<Rightarrow>
         if wt_is_linked_worktree space then [k]
         else let ks = filter (\<lambda>j. same_space space (as_workspaces s ! j)) [0..<length (as_workspaces s)]
              in if 2 \<le> length ks then ks else [k])"

definition workspace_close_would_close_worktree_group :: "nat \<Rightarrow> app_state \<Rightarrow> bool" where
  "workspace_close_would_close_worktree_group k s \<longleftrightarrow> 2 \<le> length (workspace_close_indices k s)"

definition confirm_implicit_worktree_group_close :: "nat \<Rightarrow> app_state \<Rightarrow> bool" where
  "confirm_implicit_worktree_group_close k s \<longleftrightarrow>
     as_confirm_close s \<and> workspace_close_would_close_worktree_group k s"

definition close_pane_would_close_workspace :: "nat \<Rightarrow> pane_id \<Rightarrow> app_state \<Rightarrow> bool" where
  "close_pane_would_close_workspace k i s \<longleftrightarrow>
    (case workspace_at k s of
       None \<Rightarrow> False
     | Some w \<Rightarrow>
         (case find_tab_index_for_pane i w of
            None \<Rightarrow> False
          | Some tab_idx \<Rightarrow> pane_count (tb_layout (wk_tabs w ! tab_idx)) \<le> 1 \<and> length (wk_tabs w) \<le> 1))"

text \<open>\<open>Vec::remove\<close> panics out of range.\<close>

fun remove_indices :: "nat list \<Rightarrow> app_workspace list \<Rightarrow> app_workspace list option" where
  "remove_indices [] ws = Some ws"
| "remove_indices (k # ks) ws = (if k < length ws then remove_indices ks (remove_nth k ws) else None)"

definition select_after_close :: "str option \<Rightarrow> app_state \<Rightarrow> app_state" where
  "select_after_close active s =
    (if as_workspaces s = [] then s\<lparr>as_active := None, as_selected := 0\<rparr>
     else let k = (case refind active (as_workspaces s) of Some k \<Rightarrow> k | None \<Rightarrow> as_selected s);
              k' = (if length (as_workspaces s) \<le> k then length (as_workspaces s) - 1 else k)
          in s\<lparr>as_active := Some k', as_selected := k'\<rparr>)"

definition active_workspace_id :: "app_state \<Rightarrow> str option" where
  "active_workspace_id s = map_option wk_id (Option.bind (as_active s) (\<lambda>k. workspace_at k s))"

definition close_selected_workspace :: "pane_order \<Rightarrow> app_state \<Rightarrow> app_state option" where
  "close_selected_workspace iter s =
    (if as_workspaces s = [] then Some s
     else let ks = workspace_close_indices (as_selected s) s;
              terminal_ids = concat (map (\<lambda>k. terminal_ids_for_workspace iter k s) ks);
              pane_ids0 = concat (map (\<lambda>k. pane_ids_for_workspace k s) ks);
              s1 = remove_plugin_pane_records pane_ids0 (mark_session_dirty s)
          in (case remove_indices (rev ks) (as_workspaces s) of
                None \<Rightarrow> None
              | Some ws \<Rightarrow>
                  Some (select_after_close (active_workspace_id s)
                    (remove_unattached_terminal_ids iter terminal_ids (s1\<lparr>as_workspaces := ws\<rparr>)))))"

section \<open>The death of a pane\<close>

definition forget_aliases :: "pane_id \<Rightarrow> app_state \<Rightarrow> app_state" where
  "forget_aliases i s =
    s\<lparr>as_pane_id_aliases := (\<lambda>raw. if as_pane_id_aliases s raw = Some i then None else as_pane_id_aliases s raw),
      as_public_aliases := (\<lambda>x. if as_public_aliases s x = Some i then None else as_public_aliases s x)\<rparr>"

definition clamp_selection :: "str option \<Rightarrow> str option \<Rightarrow> app_state \<Rightarrow> app_state" where
  "clamp_selection active selected s =
    (let n = length (as_workspaces s);
         active1 = (case refind active (as_workspaces s) of Some k \<Rightarrow> Some k | None \<Rightarrow> as_active s);
         active2 = (case active1 of None \<Rightarrow> None | Some a \<Rightarrow> if n \<le> a then Some (n - 1) else Some a);
         selected1 = (case refind selected (as_workspaces s) of Some k \<Rightarrow> k | None \<Rightarrow> as_selected s)
     in s\<lparr>as_active := active2, as_selected := (if n \<le> selected1 then n - 1 else selected1)\<rparr>)"

definition close_dead_workspace :: "pane_order \<Rightarrow> nat \<Rightarrow> terminal_id list \<Rightarrow> app_state \<Rightarrow> app_state" where
  "close_dead_workspace iter k terminal_ids s =
    (let s1 = remove_unattached_terminal_ids iter terminal_ids (s\<lparr>as_workspaces := remove_nth k (as_workspaces s)\<rparr>)
     in if as_workspaces s1 = []
        then s1\<lparr>as_active := None, as_selected := 0, as_terminal_mode := False\<rparr>
        else clamp_selection (active_workspace_id s) (map_option wk_id (workspace_at (as_selected s) s)) s1)"

definition handle_pane_died :: "pane_order \<Rightarrow> pane_id \<Rightarrow> app_state \<Rightarrow> app_state option" where
  "handle_pane_died iter i s =
    (let s1 = remove_plugin_pane_records [i] (s\<lparr>as_pending := filter (\<lambda>(j, _). j \<noteq> i) (as_pending s)\<rparr>)
     in case position (\<lambda>w. find_tab_index_for_pane i w \<noteq> None) (as_workspaces s1) of
          None \<Rightarrow> Some s1
        | Some k \<Rightarrow>
            let terminal = terminal_id_for_pane k i s1;
                terminals0 = terminal_ids_for_workspace iter k s1;
                s2 = forget_aliases i s1
            in (case workspace_remove_pane i (as_workspaces s2 ! k) of
                  None \<Rightarrow> None
                | Some (closes, w) \<Rightarrow>
                    let s3 = mark_session_dirty (s2\<lparr>as_workspaces := (as_workspaces s2)[k := w]\<rparr>)
                    in Some (if closes then close_dead_workspace iter k terminals0 s3
                             else remove_unattached_terminal_ids iter (case terminal of None \<Rightarrow> [] | Some j \<Rightarrow> [j]) s3)))"

end
