(* ===== verification/AppEvents.thy ===== *)
theory AppEvents
  imports AppActions
begin

text \<open>
  Events of panes and agents (\<open>app/actions.rs\<close>): an event changes a terminal, the change of its shown
  state is entered into the pane, and the user is notified, at once or after a delay.
\<close>

section \<open>When to notify\<close>

definition is_background_completion_transition :: "agent_state \<Rightarrow> agent_state \<Rightarrow> bool" where
  "is_background_completion_transition prev new \<longleftrightarrow> new = Idle \<and> (prev = Working \<or> prev = Blocked)"

definition is_completion_transition_parts ::
  "agent_state \<Rightarrow> agent_state \<Rightarrow> str option \<Rightarrow> str option \<Rightarrow> bool" where
  "is_completion_transition_parts prev new prev_label label \<longleftrightarrow>
     is_background_completion_transition prev new
     \<or> prev = UnknownState \<and> new = Idle \<and> prev_label \<noteq> None \<and> prev_label = label"

definition is_completion_transition :: "state_change \<Rightarrow> bool" where
  "is_completion_transition c =
    is_completion_transition_parts (sc_previous_state c) (sc_state c) (sc_previous_agent_label c) (sc_agent_label c)"

definition active_tab_suppresses_notifications :: "bool \<Rightarrow> bool option \<Rightarrow> bool" where
  "active_tab_suppresses_notifications in_active_tab outer_focus \<longleftrightarrow> in_active_tab \<and> outer_focus \<noteq> Some False"

definition notification_sound_with_labels ::
  "bool \<Rightarrow> agent_state \<Rightarrow> agent_state \<Rightarrow> str option \<Rightarrow> str option \<Rightarrow> sound option" where
  "notification_sound_with_labels suppress prev new prev_label label =
    (if new = prev then None
     else if new = Blocked then Some SoundRequest
     else if new = Idle \<and> is_completion_transition_parts prev new prev_label label \<and> \<not> suppress then Some SoundDone
     else None)"

definition notification_sound :: "bool \<Rightarrow> state_change \<Rightarrow> sound option" where
  "notification_sound suppress c =
    (if sc_state c = sc_previous_state c then None
     else if sc_state c = Blocked then Some SoundRequest
     else if sc_state c = Idle \<and> is_completion_transition c \<and> \<not> suppress then Some SoundDone
     else None)"

definition notification_toast_with_labels ::
  "bool \<Rightarrow> agent_state \<Rightarrow> agent_state \<Rightarrow> str option \<Rightarrow> str option \<Rightarrow> toast_kind option" where
  "notification_toast_with_labels suppress prev new prev_label label =
    (if suppress \<or> new = prev then None
     else if new = Blocked then Some NeedsAttention
     else if new = Idle \<and> is_completion_transition_parts prev new prev_label label then Some Finished
     else None)"

definition notification_toast :: "bool \<Rightarrow> state_change \<Rightarrow> toast_kind option" where
  "notification_toast suppress c =
    (if suppress \<or> sc_state c = sc_previous_state c then None
     else if sc_state c = Blocked then Some NeedsAttention
     else if sc_state c = Idle \<and> is_completion_transition c then Some Finished
     else None)"

definition sound_for_toast_kind :: "toast_kind \<Rightarrow> bool \<Rightarrow> sound option" where
  "sound_for_toast_kind kind suppress =
    (case kind of
       NeedsAttention \<Rightarrow> Some SoundRequest
     | Finished \<Rightarrow> if suppress then None else Some SoundDone
     | UpdateInstalled \<Rightarrow> None)"

fun toast_event_text :: "toast_kind \<Rightarrow> str" where
  "toast_event_text NeedsAttention = lit ''needs attention''"
| "toast_event_text Finished = lit ''finished''"
| "toast_event_text UpdateInstalled = lit ''updated''"

section \<open>Updates of panes\<close>

datatype agent_status = StatusIdle | StatusWorking | StatusBlocked | StatusDone | StatusUnknown

definition pane_agent_status :: "agent_state \<Rightarrow> bool \<Rightarrow> agent_status" where
  "pane_agent_status st seen_flag =
    (case st of
       Idle \<Rightarrow> if seen_flag then StatusIdle else StatusDone
     | Working \<Rightarrow> StatusWorking
     | Blocked \<Rightarrow> StatusBlocked
     | UnknownState \<Rightarrow> StatusUnknown)"

record pane_state_update =
  pu_pane_id :: pane_id
  pu_ws_idx :: nat
  pu_previous_agent_label :: "str option"
  pu_previous_known_agent :: "agent option"
  pu_previous_state :: agent_state
  pu_previous_seen :: bool
  pu_previous_presentation :: presentation
  pu_agent_label :: "str option"
  pu_known_agent :: "agent option"
  pu_state :: agent_state
  pu_seen :: bool
  pu_presentation :: presentation
  pu_agent_name_changed :: bool
  pu_agent_released :: bool
  pu_agent_release_status :: "agent_status option"
  pu_suppress_completion :: bool

definition notification_toast_for_update :: "bool \<Rightarrow> pane_state_update \<Rightarrow> toast_kind option" where
  "notification_toast_for_update suppress u =
    (if pu_suppress_completion u \<or> suppress \<or> pu_state u = pu_previous_state u then None
     else notification_toast_with_labels suppress (pu_previous_state u) (pu_state u)
            (pu_previous_agent_label u) (pu_agent_label u))"

record delivery =
  dl_pane_id :: pane_id
  dl_workspace_id :: str
  dl_agent_label :: str
  dl_known_agent :: "agent option"
  dl_kind :: toast_kind
  dl_toast :: "toast_notification option"
  dl_client_notification :: "toast_notification option"
  dl_sound :: "sound option"

definition suppressed_here :: "nat \<Rightarrow> pane_id \<Rightarrow> app_state \<Rightarrow> bool" where
  "suppressed_here k i s = active_tab_suppresses_notifications (pane_is_in_active_tab k i s) (as_outer_focus s)"

definition agent_notification_delivery ::
  "nat \<Rightarrow> pane_id \<Rightarrow> str \<Rightarrow> str \<Rightarrow> agent option \<Rightarrow> toast_kind \<Rightarrow> agent_state \<Rightarrow> app_state \<Rightarrow> delivery option" where
  "agent_notification_delivery k i workspace_id label known kind expected s =
    (case Option.bind (terminal_id_for_pane k i s) (as_terminals s) of
       None \<Rightarrow> None
     | Some t \<Rightarrow>
         if t_state t \<noteq> expected then None
         else if (case effective_agent_label t of None \<Rightarrow> False | Some current \<Rightarrow> current \<noteq> label) then None
         else
           let active = pane_is_in_active_tab k i s; suppress = suppressed_here k i s;
               sound = (if allows known (as_sound s) then sound_for_toast_kind kind suppress else None);
               message = \<lparr>to_kind = kind, to_title = label @ lit '' '' @ toast_event_text kind,
                          to_target = Some \<lparr>ft_workspace_id = workspace_id, ft_pane_id = i\<rparr>\<rparr>;
               toast = (if active then None else Some message);
               client = (if suppress then None else Some message)
           in if toast = None \<and> client = None \<and> sound = None then None
              else Some \<lparr>dl_pane_id = i, dl_workspace_id = workspace_id, dl_agent_label = label,
                         dl_known_agent = known, dl_kind = kind, dl_toast = toast,
                         dl_client_notification = client, dl_sound = sound\<rparr>)"

definition apply_agent_notification_delivery :: "delivery \<Rightarrow> app_state \<Rightarrow> app_state" where
  "apply_agent_notification_delivery d s =
    (if tc_delivery (as_toast_config s) = DeliveryHerdr
     then (case dl_toast d of None \<Rightarrow> s | Some toast \<Rightarrow> s\<lparr>as_toast := Some toast\<rparr>) else s)"

definition MAX_TOAST_DELAY_SECONDS :: u64 where
  "MAX_TOAST_DELAY_SECONDS = 3600"

definition remove_pending :: "pane_id \<Rightarrow> app_state \<Rightarrow> app_state" where
  "remove_pending i s = s\<lparr>as_pending := filter (\<lambda>(j, _). j \<noteq> i) (as_pending s)\<rparr>"

definition notify_deadline :: "nat \<Rightarrow> app_state \<Rightarrow> nat" where
  "notify_deadline now s =
     instant_add_or now (unat (min (tc_delay_seconds (as_toast_config s)) MAX_TOAST_DELAY_SECONDS) * 10 ^ 9)"

definition record_or_deliver ::
  "nat \<Rightarrow> nat \<Rightarrow> pane_id \<Rightarrow> state_change \<Rightarrow> app_state \<Rightarrow> delivery option \<times> app_state" where
  "record_or_deliver now k i c s0 =
    (let s = remove_pending i s0; suppress = suppressed_here k i s;
         client = notification_toast suppress c; sound = notification_sound suppress c
     in if client = None \<and> sound = None then (None, s)
        else
          (case (case sc_agent_label c of Some l \<Rightarrow> Some l | None \<Rightarrow> sc_previous_agent_label c) of
             None \<Rightarrow> (None, s)
           | Some label \<Rightarrow>
               let known = (case sc_known_agent c of Some g \<Rightarrow> Some g | None \<Rightarrow> sc_previous_known_agent c);
                   kind = (case client of Some kind \<Rightarrow> kind
                           | None \<Rightarrow> if sound = Some SoundRequest then NeedsAttention else Finished);
                   workspace_id = wk_id (as_workspaces s ! k)
               in if tc_delay_seconds (as_toast_config s) = 0
                  then (agent_notification_delivery k i workspace_id label known kind (sc_state c) s, s)
                  else (None, s\<lparr>as_pending := AList.update i
                    \<lparr>pn_pane_id = i, pn_workspace_id = workspace_id, pn_agent_label = label,
                     pn_known_agent = known, pn_kind = kind, pn_state = sc_state c,
                     pn_deadline = notify_deadline now s\<rparr> (as_pending s)\<rparr>)))"

section \<open>Entering a change\<close>

definition set_seen :: "pane_id \<Rightarrow> bool \<Rightarrow> app_workspace \<Rightarrow> app_workspace" where
  "set_seen i flag w =
    (case find_tab_index_for_pane i w of
       None \<Rightarrow> w
     | Some tab_idx \<Rightarrow>
         update_tab tab_idx
           (\<lambda>t. t\<lparr>tb_panes := (tb_panes t)(i := map_option (seen_update (\<lambda>_. flag)) (tb_panes t i))\<rparr>) w)"

definition pane_seen :: "nat \<Rightarrow> pane_id \<Rightarrow> app_state \<Rightarrow> bool option" where
  "pane_seen k i s = map_option seen (Option.bind (workspace_at k s) (find_pane_state i))"

definition seen_after :: "bool \<Rightarrow> bool \<Rightarrow> state_change \<Rightarrow> bool \<Rightarrow> bool" where
  "seen_after suppress suppress_completion c flag =
    (if sc_state c \<noteq> Idle then True
     else if \<not> suppress_completion \<and> is_completion_transition c then suppress
     else flag)"

definition apply_pane_state_change ::
  "nat \<Rightarrow> nat \<Rightarrow> pane_id \<Rightarrow> state_change \<Rightarrow> bool \<Rightarrow> app_state \<Rightarrow> bool option \<times> app_state" where
  "apply_pane_state_change now k i c suppress_completion s =
    (case pane_seen k i s of
       None \<Rightarrow> (None, s)
     | Some flag \<Rightarrow>
         let flag' = seen_after (suppressed_here k i s) suppress_completion c flag;
             s1 = update_workspace k (set_seen i flag') s
         in if suppress_completion then (Some flag', s1)
            else
              (case record_or_deliver now k i c s1 of
                 (None, s2) \<Rightarrow> (Some flag', s2)
               | (Some d, s2) \<Rightarrow> (Some flag', apply_agent_notification_delivery d s2)))"

text \<open>
  \<open>clocks\<close>: the instants an event reads, in the update of the terminal (\<open>ck_op\<close>, \<open>ck_clock\<close>), around it and when a
  notification is put off.
\<close>

record clocks =
  ck_now :: nat
  ck_op :: nat
  ck_clock :: nat
  ck_notify :: nat

type_synonym terminal_update = "terminal_state \<Rightarrow> state_mutation option \<times> terminal_state"

definition set_terminal :: "terminal_id \<Rightarrow> terminal_state \<Rightarrow> app_state \<Rightarrow> app_state" where
  "set_terminal j t s = s\<lparr>as_terminals := (as_terminals s)(j \<mapsto> t)\<rparr>"

definition count_state_change :: "terminal_id \<Rightarrow> state_change \<Rightarrow> app_state \<Rightarrow> app_state" where
  "count_state_change j c s =
    (if sc_previous_state c = sc_state c then s
     else let n = as_next_change_seq s + 1
          in s\<lparr>as_next_change_seq := n,
               as_terminals := (as_terminals s)
                 (j := map_option (t_last_change_seq_update (\<lambda>_. Some n)) (as_terminals s j))\<rparr>)"

definition update_of_change ::
  "pane_id \<Rightarrow> nat \<Rightarrow> state_change \<Rightarrow> bool \<Rightarrow> bool \<Rightarrow> bool \<Rightarrow> bool \<Rightarrow> bool \<Rightarrow> pane_state_update" where
  "update_of_change i k c previous_seen seen_flag name_changed released suppress_completion =
    \<lparr>pu_pane_id = i, pu_ws_idx = k, pu_previous_agent_label = sc_previous_agent_label c,
     pu_previous_known_agent = sc_previous_known_agent c, pu_previous_state = sc_previous_state c,
     pu_previous_seen = previous_seen, pu_previous_presentation = sc_previous_presentation c,
     pu_agent_label = (if released then sc_previous_agent_label c else sc_agent_label c),
     pu_known_agent = (if released then sc_previous_known_agent c else sc_known_agent c),
     pu_state = sc_state c, pu_seen = seen_flag, pu_presentation = sc_presentation c,
     pu_agent_name_changed = name_changed, pu_agent_released = released,
     pu_agent_release_status = (if released then Some (pane_agent_status (sc_state c) seen_flag) else None),
     pu_suppress_completion = suppress_completion\<rparr>"

definition update_terminal_state ::
  "hash_order \<Rightarrow> clocks \<Rightarrow> pane_id \<Rightarrow> bool \<Rightarrow> terminal_update \<Rightarrow> app_state \<Rightarrow> pane_state_update option \<times> app_state" where
  "update_terminal_state iter ck i force_suppress update s =
    (case find_pane i s of
       None \<Rightarrow> (None, s)
     | Some (k, p) \<Rightarrow>
         let j = attached_terminal_id p in
         (case as_terminals s j of
            None \<Rightarrow> (None, s)
          | Some t \<Rightarrow>
              let launch_pending = managed_agent_launch_pending t in
              (case update t of
                 (None, t1) \<Rightarrow> (None, set_terminal j t1 s)
               | (Some mutation, t1) \<Rightarrow>
                   let (managed_changed, t2) = reconcile_managed_agent_at (ck_now ck) False t1;
                       (acquired, t3) = finish_agent_process_acquisition t2;
                       name_changed = (t_agent_name t3 \<noteq> t_agent_name t);
                       released = tm_agent_released mutation;
                       s1 = set_terminal j t3 s;
                       s2 = (if tm_session_ref_changed mutation \<or> managed_changed \<or> name_changed
                             then mark_session_dirty s1 else s1);
                       change = (case tm_change mutation of
                           Some c \<Rightarrow> Some c
                         | None \<Rightarrow> if released \<or> name_changed
                                   then Some (unchanged_effective_state_change iter (ck_now ck) t3) else None)
                   in (case change of
                         None \<Rightarrow> (None, s2)
                       | Some c \<Rightarrow>
                           let suppress = (force_suppress \<or> sc_state c = Idle \<and> (launch_pending \<or> acquired));
                               s3 = count_state_change j c s2
                           in (case apply_pane_state_change (ck_notify ck) k i c suppress s3 of
                                 (None, s4) \<Rightarrow> (None, s4)
                               | (Some seen_flag, s4) \<Rightarrow>
                                   (Some (update_of_change i k c (seen p) seen_flag name_changed released suppress),
                                    s4))))))"

section \<open>Events\<close>

text \<open>
  Events that do not touch the modelled state are \<open>OtherEvent\<close>; \<open>CwdReported\<close> carries whether the path is absolute
  and a directory.
\<close>

datatype app_event =
    PaneDied pane_id
  | UpdateReady str
  | ManifestsUpdated "(agent \<times> str) list"
  | AgentProcessDetected pane_id agent nat
  | StateChanged pane_id "agent option" agent_state bool bool nat
  | HookStateReported pane_id str str agent_state "str option" "u64 option" "agent_session_ref option"
  | AgentSessionReported pane_id str str "u64 option" "agent_session_ref option" "str option"
  | HookMetadataReported pane_id metadata_report
  | HookAuthorityCleared pane_id "str option" "u64 option"
  | HookAgentReleased pane_id str str "u64 option"
  | CwdReported pane_id str bool
  | OtherEvent

definition herdr_toast :: "str \<Rightarrow> app_state \<Rightarrow> app_state" where
  "herdr_toast title s =
    (if tc_delivery (as_toast_config s) = DeliveryHerdr
     then s\<lparr>as_toast := Some \<lparr>to_kind = UpdateInstalled, to_title = title, to_target = None\<rparr>\<rparr> else s)"

definition set_terminal_cwd :: "str \<Rightarrow> bool \<Rightarrow> pane_id \<Rightarrow> app_state \<Rightarrow> app_state" where
  "set_terminal_cwd cwd usable i s =
    (if \<not> usable then s
     else case map_option (attached_terminal_id \<circ> snd) (find_pane i s) of
            None \<Rightarrow> s
          | Some j \<Rightarrow>
              (case as_terminals s j of
                 None \<Rightarrow> s
               | Some t \<Rightarrow> if t_cwd t = cwd then s else mark_session_dirty (set_terminal j (t\<lparr>t_cwd := cwd\<rparr>) s)))"

definition always :: "(terminal_state \<Rightarrow> state_mutation \<times> terminal_state) \<Rightarrow> terminal_update" where
  "always f t = (case f t of (m, t') \<Rightarrow> (Some m, t'))"

text \<open>What an event does to the terminal of its pane.\<close>

fun terminal_update_of :: "hash_order \<Rightarrow> clocks \<Rightarrow> app_event \<Rightarrow> (pane_id \<times> terminal_update) option" where
  "terminal_update_of iter ck (AgentProcessDetected i g observed) =
     Some (i, always (set_detected_agent_process_at iter g observed (ck_clock ck)))"
| "terminal_update_of iter ck (StateChanged i g st blocker exited observed) =
     Some (i, always (set_detected_state_with_screen_signals_at iter g st blocker exited observed (ck_clock ck)))"
| "terminal_update_of iter ck (HookStateReported i source label st message n r) =
     Some (i, if is_reserved_native_state_source source label
              then set_agent_session_ref_for_session_start iter source label r n None (ck_op ck) (ck_clock ck)
              else set_hook_authority_at iter source label st message r n (ck_op ck) (ck_clock ck))"
| "terminal_update_of iter ck (AgentSessionReported i source label n r start_source) =
     Some (i, set_agent_session_ref_for_session_start iter source label r n start_source (ck_op ck) (ck_clock ck))"
| "terminal_update_of iter ck (HookMetadataReported i report) = Some (i, set_agent_metadata iter (ck_op ck) report)"
| "terminal_update_of iter ck (HookAuthorityCleared i source n) =
     Some (i, clear_hook_authority_with_mutation iter source n (ck_op ck) (ck_clock ck))"
| "terminal_update_of iter ck (HookAgentReleased i source label n) =
     (if is_official_agent_source source label then None
      else Some (i, release_agent_with_mutation iter source label n (ck_op ck) (ck_clock ck)))"
| "terminal_update_of iter ck _ = None"

definition handle_app_event ::
  "hash_order \<Rightarrow> pane_order \<Rightarrow> clocks \<Rightarrow> app_event \<Rightarrow> app_state \<Rightarrow> (pane_state_update list \<times> app_state) option" where
  "handle_app_event iter porder ck e s =
    (case terminal_update_of iter ck e of
       Some (i, f) \<Rightarrow>
         (case update_terminal_state iter ck i False f s of
            (u, s') \<Rightarrow> Some (case u of None \<Rightarrow> [] | Some u \<Rightarrow> [u], s'))
     | None \<Rightarrow>
         (case e of
            PaneDied i \<Rightarrow> map_option (Pair []) (handle_pane_died porder i s)
          | UpdateReady version \<Rightarrow> Some ([], herdr_toast (lit ''v'' @ version @ lit '' available'') s)
          | ManifestsUpdated updated \<Rightarrow>
              Some ([], if updated = [] then s else herdr_toast (lit ''Agent detection rules updated'') s)
          | CwdReported i cwd usable \<Rightarrow> Some ([], set_terminal_cwd cwd usable i s)
          | _ \<Rightarrow> Some ([], s)))"

definition process_exit_update :: "hash_order \<Rightarrow> nat \<Rightarrow> clocks \<Rightarrow> terminal_update" where
  "process_exit_update iter observed ck t =
    (let g = (case effective_known_agent t of Some g \<Rightarrow> Some g | None \<Rightarrow> t_detected_agent t)
     in if g = None \<and> \<not> live_full_lifecycle_hook_authority t then (None, t)
        else always (set_detected_state_with_screen_signals_at iter g Idle False True observed (ck_clock ck)) t)"

definition publish_pane_process_exit_if_agent ::
  "hash_order \<Rightarrow> nat \<Rightarrow> clocks \<Rightarrow> pane_id \<Rightarrow> bool \<Rightarrow> app_state \<Rightarrow> pane_state_update option \<times> app_state" where
  "publish_pane_process_exit_if_agent iter observed ck i suppress_completion s =
    (case update_terminal_state iter ck i suppress_completion (process_exit_update iter observed ck) s of
       (u, s') \<Rightarrow> (Option.bind u (\<lambda>u. if pu_agent_released u then Some u else None), s'))"

section \<open>What is put off\<close>

definition next_pending_agent_notification_deadline :: "app_state \<Rightarrow> nat option" where
  "next_pending_agent_notification_deadline s = min_opt (map (\<lambda>(_, p). pn_deadline p) (as_pending s))"

definition deliver_pending :: "pane_id \<Rightarrow> app_state \<Rightarrow> delivery option \<times> app_state" where
  "deliver_pending i s =
    (case map_of (as_pending s) i of
       None \<Rightarrow> (None, s)
     | Some p \<Rightarrow>
         let s1 = remove_pending i s in
         (case position (\<lambda>w. wk_id w = pn_workspace_id p) (as_workspaces s1) of
            None \<Rightarrow> (None, s1)
          | Some k \<Rightarrow>
              (case agent_notification_delivery k (pn_pane_id p) (pn_workspace_id p) (pn_agent_label p)
                      (pn_known_agent p) (pn_kind p) (pn_state p) s1 of
                 None \<Rightarrow> (None, s1)
               | Some d \<Rightarrow> (Some d, apply_agent_notification_delivery d s1))))"

fun deliver_all :: "pane_id list \<Rightarrow> app_state \<Rightarrow> delivery list \<times> app_state" where
  "deliver_all [] s = ([], s)"
| "deliver_all (i # is) s =
     (let (d, s1) = deliver_pending i s; (ds, s2) = deliver_all is s1
      in (case d of None \<Rightarrow> ds | Some d \<Rightarrow> d # ds, s2))"

text \<open>The pending notifications are walked in the order \<open>order\<close> puts their panes.\<close>

definition due_panes :: "(pane_id list \<Rightarrow> pane_id list) \<Rightarrow> nat \<Rightarrow> app_state \<Rightarrow> pane_id list" where
  "due_panes order now s =
    filter (\<lambda>i. case map_of (as_pending s) i of None \<Rightarrow> False | Some p \<Rightarrow> pn_deadline p \<le> now)
      (order (map fst (as_pending s)))"

definition drain_due_agent_notifications ::
  "(pane_id list \<Rightarrow> pane_id list) \<Rightarrow> nat \<Rightarrow> app_state \<Rightarrow> delivery list \<times> app_state" where
  "drain_due_agent_notifications order now s = deliver_all (due_panes order now s) s"

text \<open>\<open>notify\<close>: the instant read when the expiry of the pane's metadata puts off a notification.\<close>

definition pane_terminals :: "app_state \<Rightarrow> (nat \<times> pane_id \<times> terminal_id) list" where
  "pane_terminals s =
    concat (map (\<lambda>(k, w). concat (map (\<lambda>t.
        List.map_filter (\<lambda>i. map_option (\<lambda>p. (k, i, attached_terminal_id p)) (find_pane_state i w))
          (pane_ids (tb_layout t))) (wk_tabs w)))
      (List.enumerate 0 (as_workspaces s)))"

definition expire_pane_metadata ::
  "hash_order \<Rightarrow> nat \<Rightarrow> nat \<Rightarrow> nat \<Rightarrow> nat \<times> pane_id \<times> terminal_id \<Rightarrow> app_state
   \<Rightarrow> pane_state_update option \<times> app_state" where
  "expire_pane_metadata iter scheduled now notify x s =
    (case x of (k, i, j) \<Rightarrow>
      (case (pane_seen k i s, as_terminals s j) of
         (Some previous_seen, Some t) \<Rightarrow>
           (case expire_agent_metadata_at iter scheduled now t of (m, t') \<Rightarrow>
             let s1 = set_terminal j t' s in
             (case Option.bind m tm_change of
                None \<Rightarrow> (None, s1)
              | Some c \<Rightarrow>
                  (case apply_pane_state_change notify k i c False s1 of
                     (None, s2) \<Rightarrow> (None, s2)
                   | (Some flag, s2) \<Rightarrow>
                       (Some ((update_of_change i k c previous_seen flag False False False)
                                \<lparr>pu_agent_release_status := None\<rparr>), s2))))
       | _ \<Rightarrow> (None, s)))"

fun expire_all ::
  "hash_order \<Rightarrow> nat \<Rightarrow> nat \<Rightarrow> nat \<Rightarrow> (nat \<times> pane_id \<times> terminal_id) list \<Rightarrow> app_state
   \<Rightarrow> pane_state_update list \<times> app_state" where
  "expire_all iter scheduled now notify [] s = ([], s)"
| "expire_all iter scheduled now notify (x # xs) s =
     (let (u, s1) = expire_pane_metadata iter scheduled now notify x s;
          (us, s2) = expire_all iter scheduled now notify xs s1
      in (case u of None \<Rightarrow> us | Some u \<Rightarrow> u # us, s2))"

definition expire_agent_metadata ::
  "hash_order \<Rightarrow> nat \<Rightarrow> nat \<Rightarrow> nat \<Rightarrow> app_state \<Rightarrow> pane_state_update list \<times> app_state" where
  "expire_agent_metadata iter scheduled now notify s =
     expire_all iter scheduled now notify (pane_terminals s) s"

end
