(* ===== verification/AppInv.thy ===== *)
theory AppInv
  imports AppEvents PaneMoveRuns
begin

text \<open>
  What the operations on the application keep: the workspaces are well-formed, every pane has a terminal,
  the shown state of every terminal is the arbitrated one, and a pending notification is filed under its pane.
\<close>

section \<open>The invariant\<close>

definition attached :: "app_state \<Rightarrow> terminal_id set" where
  "attached s = snd ` set (all_entries (as_workspaces s))"

definition pending_ok :: "(pane_id \<times> pending_notification) list \<Rightarrow> bool" where
  "pending_ok ps \<longleftrightarrow> distinct (map fst ps) \<and> (\<forall>(i, p) \<in> set ps. pn_pane_id p = i)"

definition terminals_ok :: "(terminal_id \<rightharpoonup> terminal_state) \<Rightarrow> bool" where
  "terminals_ok m \<longleftrightarrow> (\<forall>t \<in> ran m. terminal_inv t)"

definition app_inv :: "app_state \<Rightarrow> bool" where
  "app_inv s \<longleftrightarrow>
     app_ok s \<and> attached s \<subseteq> dom (as_terminals s) \<and> terminals_ok (as_terminals s) \<and> pending_ok (as_pending s)"

text \<open>Operations that neither add nor remove panes and do not touch the terminals.\<close>

definition rearranged :: "app_state \<Rightarrow> app_state \<Rightarrow> bool" where
  "rearranged s s' \<longleftrightarrow>
     app_ok s' \<and> mset (all_entries (as_workspaces s')) = mset (all_entries (as_workspaces s))
     \<and> as_terminals s' = as_terminals s \<and> as_shutdowns s' = as_shutdowns s \<and> as_pending s' = as_pending s"

lemma attached_mset: "mset (all_entries (as_workspaces s')) = mset (all_entries (as_workspaces s)) \<Longrightarrow> attached s' = attached s"
  unfolding attached_def by (metis mset_eq_setD)

lemma rearranged_inv: "rearranged s s' \<Longrightarrow> app_inv s \<Longrightarrow> app_inv s'"
  using attached_mset [of s' s] by (simp add: rearranged_def app_inv_def)

lemma rearranged_refl: "app_ok s \<Longrightarrow> rearranged s s"
  by (simp add: rearranged_def)

lemma rearranged_trans: "rearranged s t \<Longrightarrow> rearranged t u \<Longrightarrow> rearranged s u"
  by (simp add: rearranged_def)

text \<open>Fields that the invariant does not depend on.\<close>

lemma rearranged_dirty: "app_ok s \<Longrightarrow> rearranged s (mark_session_dirty s)"
  using app_ok_cong [of s "mark_session_dirty s"] by (simp add: rearranged_def mark_session_dirty_def)

section \<open>Changing a tab\<close>

definition tab_kept :: "tab \<Rightarrow> tab \<Rightarrow> bool" where
  "tab_kept t t' \<longleftrightarrow> tab_inv t' \<and> tb_number t' = tb_number t \<and> tab_entries t' = tab_entries t"

lemma kept_mark_seen: "tab_inv t \<Longrightarrow> tab_kept t (mark_seen t)"
  by (simp add: tab_kept_def mark_seen_ok)

lemma kept_zoom: "tab_inv t \<Longrightarrow> tab_kept t (set_zoomed z t)"
  by (auto simp: tab_kept_def set_zoomed_def tab_inv_def tab_entries_def)

lemma kept_focus: "tab_inv t \<Longrightarrow> tab_kept t (focus_tab_pane i t)"
  using focus_pane_inv [of "tb_layout t" i] by (auto simp: tab_kept_def focus_tab_pane_def tab_inv_def tab_entries_def)

lemma kept_seen: "tab_inv t \<Longrightarrow> tab_kept t (t\<lparr>tb_panes := (tb_panes t)(i := map_option (seen_update f) (tb_panes t i))\<rparr>)"
  by (auto simp: tab_kept_def tab_inv_def tab_entries_def)

lemma update_tab_ok:
  assumes w: "workspace_inv w" and f: "\<And>t. tab_inv t \<Longrightarrow> tab_kept t (f t)"
  shows "workspace_inv (update_tab j f w)" "wk_id (update_tab j f w) = wk_id w"
    "panes_of (update_tab j f w) = panes_of w"
proof -
  have ok: "workspace_ok {} w" using w by (simp add: workspace_inv_def)
  have "workspace_inv (update_tab j f w) \<and> panes_of (update_tab j f w) = panes_of w"
  proof (cases "j < length (wk_tabs w)")
    case True
    have k: "tab_kept (wk_tabs w ! j) (f (wk_tabs w ! j))" by (rule f [OF workspace_ok_tab [OF ok True]])
    then have "tab_inv (f (wk_tabs w ! j))" "tb_number (f (wk_tabs w ! j)) = tb_number (wk_tabs w ! j)"
      "mset (tab_entries (f (wk_tabs w ! j))) = mset (tab_entries (wk_tabs w ! j))"
      by (simp_all add: tab_kept_def)
    from workspace_same [OF ok True this] show ?thesis using True w by (auto simp: update_tab_def workspace_inv_def)
  qed (use w in \<open>simp add: update_tab_def\<close>)
  then show "workspace_inv (update_tab j f w)" "panes_of (update_tab j f w) = panes_of w" by auto
  show "wk_id (update_tab j f w) = wk_id w" by (simp add: update_tab_def)
qed

lemma update_workspace_rearranged:
  assumes s: "app_ok s"
    and f: "\<And>w. workspace_inv w \<Longrightarrow> workspace_inv (f w) \<and> wk_id (f w) = wk_id w \<and> panes_of (f w) = panes_of w"
  shows "rearranged s (update_workspace k f s)"
proof (cases "k < length (as_workspaces s)")
  case True
  have "workspace_inv (as_workspaces s ! k)" by (rule app_ok_workspace(1) [OF s True])
  from f [OF this] spaces_ok_same [of "as_workspaces s" k "f (as_workspaces s ! k)"] s True
  show ?thesis by (auto simp: rearranged_def update_workspace_def app_ok_def)
qed (use s in \<open>simp add: update_workspace_def rearranged_refl\<close>)

lemma set_seen_ok:
  assumes "workspace_inv w"
  shows "workspace_inv (set_seen i b w) \<and> wk_id (set_seen i b w) = wk_id w \<and> panes_of (set_seen i b w) = panes_of w"
  using assms update_tab_ok [OF assms] kept_seen unfolding set_seen_def by (auto split: option.split)

lemma rearranged_record [simp]:
  "rearranged s (record_pane_focus_after_navigation f s') = rearranged s s'"
  using app_ok_cong [of "record_pane_focus_after_navigation f s'" s']
  by (simp add: rearranged_def) (simp add: record_pane_focus_after_navigation_def)

lemma switch_workspace_tab_rearranged:
  assumes "app_ok s"
  shows "rearranged s (snd (switch_workspace_tab k j s))"
proof (cases "k < length (as_workspaces s) \<and> j < length (wk_tabs (as_workspaces s ! k))")
  case True
  have "spaces_ok (as_workspaces s)" using assms by (simp add: app_ok_def)
  from spaces_ok_switch [OF this, of k j] True show ?thesis
    by (simp add: switch_workspace_tab_def workspace_at_def Let_def)
      (auto simp: rearranged_def app_ok_def in_range_def mark_session_dirty_def)
qed (use assms in \<open>auto simp: switch_workspace_tab_def workspace_at_def rearranged_refl\<close>)

lemma switch_workspace_rearranged:
  assumes "app_ok s"
  shows "rearranged s (switch_workspace k s)"
proof (cases "k < length (as_workspaces s)")
  case True
  have "spaces_ok (as_workspaces s)" using assms by (simp add: app_ok_def)
  from spaces_ok_switch [OF this True, of "wk_active_tab (as_workspaces s ! k)"] True show ?thesis
    by (simp add: switch_workspace_def workspace_at_def Let_def)
      (auto simp: rearranged_def app_ok_def in_range_def mark_session_dirty_def)
qed (use assms in \<open>auto simp: switch_workspace_def workspace_at_def rearranged_refl\<close>)

lemma rearranged_ok: "rearranged s s' \<Longrightarrow> app_ok s'"
  by (simp add: rearranged_def)

lemma rearranged_previous [simp]: "rearranged s (s'\<lparr>as_previous_focus := f\<rparr>) = rearranged s s'"
  using app_ok_cong [of "s'\<lparr>as_previous_focus := f\<rparr>" s'] by (simp add: rearranged_def)

lemma rearranged_dirty_iff [simp]: "rearranged s (mark_session_dirty s') = rearranged s s'"
  using app_ok_cong [of "mark_session_dirty s'" s'] by (simp add: rearranged_def mark_session_dirty_def)

lemma focus_rearranged:
  assumes "app_ok s"
  shows "rearranged s (snd (focus_pane_in_workspace k i s))"
proof -
  have sw: "rearranged s (snd (switch_workspace_tab k j s))" for j by (rule switch_workspace_tab_rearranged [OF assms])
  have up: "rearranged (snd (switch_workspace_tab k j s))
      (update_workspace k (update_tab j (focus_tab_pane i)) (snd (switch_workspace_tab k j s)))" for j
    by (rule update_workspace_rearranged [OF rearranged_ok [OF sw]]) (use update_tab_ok kept_focus in blast)
  from sw rearranged_trans [OF sw up] rearranged_refl [OF assms] show ?thesis
    by (auto simp: focus_pane_in_workspace_def Let_def split: option.split)
qed

lemma mark_active_seen_rearranged:
  assumes "app_ok s"
  shows "rearranged s (snd (mark_active_tab_seen iter s))"
proof -
  have "rearranged s (update_workspace k (\<lambda>w. update_tab (wk_active_tab w) mark_seen w) s)" for k
    by (rule update_workspace_rearranged [OF assms]) (use update_tab_ok kept_mark_seen in blast)
  then show ?thesis using rearranged_refl [OF assms] by (auto simp: mark_active_tab_seen_def split: option.split)
qed

lemma zoom_rearranged:
  assumes "app_ok s"
  shows "rearranged s (snd (apply_pane_zoom k i command s))"
proof -
  let ?s1 = "snd (focus_pane_in_workspace k i s)"
  note f = focus_rearranged [OF assms, of k i]
  have up: "rearranged ?s1 (update_workspace k (update_tab j (set_zoomed z)) ?s1)" for j z
    by (rule update_workspace_rearranged [OF rearranged_ok [OF f]]) (use update_tab_ok kept_zoom in blast)
  from f rearranged_trans [OF f up] rearranged_refl [OF assms] show ?thesis
    by (auto simp: apply_pane_zoom_def Let_def split_beta split: option.split)
qed

end
