(* ===== verification/AppLifecycle.thy ===== *)
theory AppLifecycle
  imports AppInv
begin

text \<open>
  The order of workspaces and their end: what moving, closing and the death of a pane do to the workspaces, the panes
  and the terminals.
\<close>

section \<open>Order\<close>

lemma refind_Some:
  assumes "i \<in> wk_id ` set ws"
  shows "\<exists>k < length ws. refind (Some i) ws = Some k \<and> wk_id (ws ! k) = i"
proof -
  have "position (\<lambda>w. wk_id w = i) ws \<noteq> None" using assms by (auto simp: position_None)
  then obtain k where "position (\<lambda>w. wk_id w = i) ws = Some k" by blast
  with position_Some [OF this] show ?thesis by (auto simp: refind_def)
qed

lemma refind_range: "refind i ws = Some k \<Longrightarrow> k < length ws"
  using position_Some by (fastforce simp: refind_def bind_eq_Some_conv)

lemma ids_ok_mset: "mset ws = mset vs \<Longrightarrow> ids_ok ws \<longleftrightarrow> ids_ok vs"
  using distinct_mset_eq [of ws vs wk_id] mset_eq_setD [of ws vs] by (simp add: ids_ok_def)

lemma spaces_ok_mset:
  assumes "mset ws = mset vs" "spaces_ok vs"
  shows "spaces_ok ws" "mset (all_entries ws) = mset (all_entries vs)"
proof -
  show m: "mset (all_entries ws) = mset (all_entries vs)" by (simp add: mset_all_entries assms(1))
  show "spaces_ok ws"
    using assms ids_ok_mset [OF assms(1)] panes_apart_mset [OF m] mset_eq_setD [OF assms(1)] by (simp add: spaces_ok_def)
qed

lemma with_order_rearranged:
  assumes s: "app_ok s" and ws: "mset ws = mset (as_workspaces s)"
  shows "rearranged s (with_order ws s)"
proof -
  have set: "set ws = set (as_workspaces s)" by (rule mset_eq_setD [OF ws])
  have "in_range (with_order ws s)"
  proof (cases "ws = []")
    case True
    then have "as_workspaces s = []" using ws by simp
    then show ?thesis
      using s True by (simp add: app_ok_def in_range_def with_order_def refind_def workspace_at_def)
  next
    case False
    then have "as_workspaces s \<noteq> []" using ws by auto
    then obtain a where a: "as_active s = Some a" "a < length (as_workspaces s)" "as_selected s < length (as_workspaces s)"
      using s by (auto simp: app_ok_def in_range_def)
    then have "wk_id (as_workspaces s ! a) \<in> wk_id ` set ws" "wk_id (as_workspaces s ! as_selected s) \<in> wk_id ` set ws"
      unfolding set by simp_all
    from this [THEN refind_Some] show ?thesis
      using False a by (auto simp: in_range_def with_order_def workspace_at_def)
  qed
  then show ?thesis
    using spaces_ok_mset [OF ws] s by (simp add: rearranged_def app_ok_def with_order_def)
qed

lemma rearranged_after_dirty: "rearranged (mark_session_dirty s) s' = rearranged s s'"
  by (simp add: rearranged_def mark_session_dirty_def)

lemma app_ok_dirty: "app_ok (mark_session_dirty s) = app_ok s"
  by (rule app_ok_cong) (simp_all add: mark_session_dirty_def)

lemma app_ok_active: "app_ok s \<Longrightarrow> active_in_range s"
  by (auto simp: app_ok_def in_range_def active_in_range_def split: if_splits)

lemma mset_moved:
  assumes "k < length xs"
  shows "mset (insert_nth j (xs ! k) (remove_nth k xs)) = mset xs"
  using mset_remove_nth [OF assms] by (simp add: mset_insert_nth)

lemma move_workspace_ok:
  assumes s: "app_ok s"
  shows "\<exists>r s'. move_workspace a b s = Some (r, s') \<and> rearranged s s'"
proof -
  have "rearranged s (with_order ws (mark_session_dirty s))" if "mset ws = mset (as_workspaces s)" for ws
    using with_order_rearranged [of "mark_session_dirty s" ws] that s
    by (simp add: app_ok_dirty rearranged_after_dirty) (simp add: mark_session_dirty_def)
  then show ?thesis
    using mset_moved [of a "as_workspaces s"] app_ok_active [OF s] rearranged_refl [OF s]
    by (auto simp: move_workspace_def Let_def)
qed

lemma move_block_ok:
  assumes s: "app_ok s"
  shows "\<exists>r s'. move_workspace_block moved before s = Some (r, s') \<and> rearranged s s'"
proof -
  have "rearranged s (with_order (sort_key f (as_workspaces s)) (mark_session_dirty s))" for f :: "app_workspace \<Rightarrow> nat"
    using with_order_rearranged [of "mark_session_dirty s"] s
    by (simp add: app_ok_dirty rearranged_after_dirty) (simp add: mark_session_dirty_def)
  then show ?thesis
    using app_ok_active [OF s] rearranged_refl [OF s] by (auto simp: move_workspace_block_def Let_def)
qed

text \<open>The order of a block move.\<close>

lemma desired_order_mset:
  assumes "distinct ids" "distinct moved" "set moved \<subseteq> set ids"
  shows "distinct (desired_order moved before ids)" "set (desired_order moved before ids) = set ids"
proof -
  let ?rest = "filter (\<lambda>i. i \<notin> set moved) ids"
  obtain k where d: "desired_order moved before ids = take k ?rest @ moved @ drop k ?rest"
    by (auto simp: desired_order_def Let_def)
  have "distinct (take k ?rest @ drop k ?rest)" using assms(1) by simp
  then have "set (take k ?rest) \<inter> set (drop k ?rest) = {}" by (metis distinct_append)
  moreover have "set (take k ?rest) \<union> set (drop k ?rest) = set ?rest" by (metis append_take_drop_id set_append)
  ultimately show "distinct (desired_order moved before ids)" "set (desired_order moved before ids) = set ids"
    unfolding d using assms by auto
qed

lemma sort_by_position:
  assumes d: "distinct (map f xs)" "distinct ks" "set ks = f ` set xs"
  shows "map f (sort_key (\<lambda>x. case position (\<lambda>i. i = f x) ks of Some k \<Rightarrow> k | None \<Rightarrow> n) xs) = ks"
proof -
  define pos where "pos i = (case position (\<lambda>j. j = i) ks of Some k \<Rightarrow> k | None \<Rightarrow> n)" for i
  have at: "pos i < length ks \<and> ks ! pos i = i" if "i \<in> set ks" for i
  proof -
    have "position (\<lambda>j. j = i) ks \<noteq> None" using that by (auto simp: position_None)
    then obtain k where "position (\<lambda>j. j = i) ks = Some k" by blast
    with position_Some [OF this] show ?thesis by (simp add: pos_def)
  qed
  let ?ys = "sort_key (\<lambda>x. pos (f x)) xs"
  have len: "length xs = length ks" using d distinct_card [of ks] distinct_card [of "map f xs"] by simp
  have ys: "set (map f ?ys) = set ks" using d(3) by simp
  have "distinct (map f ?ys)" using d(1) by (metis mset_map mset_sort mset_eq_imp_distinct_iff)
  moreover have inj: "inj_on pos (set ks)" by (rule inj_onI) (metis at)
  ultimately have "distinct (map pos (map f ?ys))" using ys unfolding distinct_map [of pos] by metis
  moreover have "sorted (map pos (map f ?ys))" using sorted_sort_key [of "\<lambda>x. pos (f x)" xs] by (simp add: comp_def)
  moreover have ks: "map pos ks = [0..<length ks]"
    by (rule nth_equalityI) (use at d(2) in \<open>auto simp: distinct_conv_nth, metis at nth_mem\<close>)
  moreover have "set (map pos (map f ?ys)) = set (map pos ks)" using ys by (simp only: set_map)
  ultimately have "map pos (map f ?ys) = map pos ks"
    by (intro sorted_distinct_set_unique) (simp_all only: ks sorted_upt distinct_upt)
  then have "map f ?ys = ks" using inj ys map_inj_on [of pos "map f ?ys" ks] by simp
  then show ?thesis by (simp add: pos_def)
qed

lemma move_block_order:
  assumes s: "app_ok s" and r: "move_workspace_block moved before s = Some (True, s')"
  shows "map wk_id (as_workspaces s') = desired_order moved before (map wk_id (as_workspaces s))"
proof -
  let ?ids = "map wk_id (as_workspaces s)"
  have "\<not> (moved = [] \<or> \<not> distinct moved \<or> \<not> list_all (\<lambda>i. i \<in> set ?ids) moved)"
    using r by (auto simp: move_workspace_block_def Let_def split: if_splits)
  then have m: "distinct moved" "set moved \<subseteq> set ?ids" by (auto simp: list_all_iff)
  have d: "distinct ?ids" using s by (simp add: app_ok_def spaces_ok_def ids_ok_def)
  have "as_workspaces s' = sort_key (\<lambda>w. case position (\<lambda>i. i = wk_id w) (desired_order moved before ?ids) of
      Some k \<Rightarrow> k | None \<Rightarrow> 2 ^ 64 - 1) (as_workspaces s)"
    using r by (auto simp: move_workspace_block_def Let_def with_order_def split: if_splits)
  then show ?thesis using sort_by_position [OF d desired_order_mset(1) [OF d m]] desired_order_mset(2) [OF d m] by simp
qed

text \<open>The active and the selected workspace are still the same.\<close>

definition current_ids :: "app_state \<Rightarrow> str option \<times> str option" where
  "current_ids s = (active_workspace_id s, map_option wk_id (workspace_at (as_selected s) s))"

lemma with_order_current:
  assumes s: "app_ok s" and ws: "set ws = set (as_workspaces s)"
  shows "current_ids (with_order ws s) = current_ids s"
proof (cases "as_workspaces s = []")
  case True
  then show ?thesis
    using s ws by (simp add: app_ok_def in_range_def with_order_def refind_def workspace_at_def current_ids_def
        active_workspace_id_def)
next
  case False
  then obtain a where a: "as_active s = Some a" "a < length (as_workspaces s)" "as_selected s < length (as_workspaces s)"
    using s by (auto simp: app_ok_def in_range_def)
  then have "wk_id (as_workspaces s ! a) \<in> wk_id ` set ws" "wk_id (as_workspaces s ! as_selected s) \<in> wk_id ` set ws"
    unfolding ws by simp_all
  then obtain j k where "j < length ws" "refind (Some (wk_id (as_workspaces s ! a))) ws = Some j"
      "wk_id (ws ! j) = wk_id (as_workspaces s ! a)" "k < length ws"
      "refind (Some (wk_id (as_workspaces s ! as_selected s))) ws = Some k"
      "wk_id (ws ! k) = wk_id (as_workspaces s ! as_selected s)"
    using refind_Some by metis
  then show ?thesis
    using a by (simp add: current_ids_def active_workspace_id_def with_order_def workspace_at_def)
qed

lemma current_ids_dirty [simp]: "current_ids (mark_session_dirty s) = current_ids s"
  by (simp add: current_ids_def active_workspace_id_def workspace_at_def mark_session_dirty_def cong: if_cong)

text \<open>A block of workspaces put before another one, or at the end; the others keep their order.\<close>

definition block_moved :: "str list \<Rightarrow> str option \<Rightarrow> str list \<Rightarrow> str list \<Rightarrow> bool" where
  "block_moved moved before ids ids' \<longleftrightarrow>
     filter (\<lambda>i. i \<notin> set moved) ids' = filter (\<lambda>i. i \<notin> set moved) ids
     \<and> (\<exists>xs ys. ids' = xs @ moved @ ys \<and> (case before of None \<Rightarrow> ys = [] | Some b \<Rightarrow> \<exists>zs. ys = b # zs))"

lemma desired_order_block:
  assumes "set moved \<subseteq> set ids" and b: "\<forall>b. before = Some b \<longrightarrow> b \<in> set ids \<and> b \<notin> set moved"
  shows "block_moved moved before ids (desired_order moved before ids)"
proof -
  let ?rest = "filter (\<lambda>i. i \<notin> set moved) ids"
  obtain k where k: "desired_order moved before ids = take k ?rest @ moved @ drop k ?rest"
      "case before of None \<Rightarrow> k = length ?rest | Some b \<Rightarrow> position (\<lambda>c. c = b) ?rest = Some k"
  proof (cases before)
    case None
    then show ?thesis using that [of "length ?rest"] by (simp add: desired_order_def Let_def)
  next
    case (Some c)
    then have "position (\<lambda>d. d = c) ?rest \<noteq> None" using b by (auto simp: position_None)
    then obtain k where "position (\<lambda>d. d = c) ?rest = Some k" by blast
    then show ?thesis using that [of k] Some by (simp add: desired_order_def Let_def)
  qed
  have none: "filter (\<lambda>i. i \<notin> set moved) moved = []" by (simp add: filter_empty_conv)
  have "filter (\<lambda>i. i \<notin> set moved) ?rest = ?rest" by simp
  then have "filter (\<lambda>i. i \<notin> set moved) (take k ?rest) @ filter (\<lambda>i. i \<notin> set moved) (drop k ?rest) = ?rest"
    by (metis append_take_drop_id filter_append)
  then have "filter (\<lambda>i. i \<notin> set moved) (desired_order moved before ids) = ?rest" by (simp add: k(1) none)
  moreover have "case before of None \<Rightarrow> drop k ?rest = [] | Some b \<Rightarrow> \<exists>zs. drop k ?rest = b # zs"
  proof (cases before)
    case (Some c)
    then have "position (\<lambda>d. d = c) ?rest = Some k" using k(2) by simp
    from position_Some [OF this] have "drop k ?rest = c # drop (Suc k) ?rest" by (auto simp: Cons_nth_drop_Suc [symmetric])
    then show ?thesis using Some by auto
  qed (use k(2) in simp)
  ultimately show ?thesis unfolding block_moved_def using k(1) by blast
qed

text \<open>
  Moving a block of workspaces never panics and keeps the workspaces, which one is active and which is
  selected. A well-formed request puts the block, in the order given, directly before the named workspace, or at the end,
  and leaves the others in their order; any other request, and one that asks for the present order, changes nothing.
\<close>

theorem move_block_effect:
  assumes s: "app_ok s"
  shows "\<exists>r s'. move_workspace_block moved before s = Some (r, s') \<and> app_ok s' \<and> current_ids s' = current_ids s
    \<and> mset (as_workspaces s') = mset (as_workspaces s)
    \<and> (if r then block_moved moved before (map wk_id (as_workspaces s)) (map wk_id (as_workspaces s')) else s' = s)"
proof -
  obtain r s' where m: "move_workspace_block moved before s = Some (r, s')" "rearranged s s'"
    using move_block_ok [OF s] by blast
  let ?ids = "map wk_id (as_workspaces s)"
  show ?thesis
  proof (cases r)
    case False
    then have "s' = s" using m(1) by (auto simp: move_workspace_block_def Let_def split: if_splits)
    then show ?thesis using m(1) False s by auto
  next
    case True
    then have v: "set moved \<subseteq> set ?ids" "\<forall>b. before = Some b \<longrightarrow> b \<in> set ?ids \<and> b \<notin> set moved"
      using m(1) by (auto simp: move_workspace_block_def Let_def list_all_iff split: if_splits)
    let ?sort = "sort_key (\<lambda>w. case position (\<lambda>i. i = wk_id w) (desired_order moved before ?ids) of
        Some k \<Rightarrow> k | None \<Rightarrow> 2 ^ 64 - 1) (as_workspaces s)"
    have f: "s' = with_order ?sort (mark_session_dirty s)"
      using m(1) True by (auto simp only: move_workspace_block_def Let_def option.inject prod.inject split: if_splits)
    have "as_workspaces (mark_session_dirty s) = as_workspaces s" by (simp add: mark_session_dirty_def)
    then have "current_ids s' = current_ids s"
      using with_order_current [of "mark_session_dirty s" ?sort] s f by (simp add: app_ok_dirty)
    moreover have "mset (as_workspaces s') = mset (as_workspaces s)" unfolding f with_order_def by simp
    moreover have "block_moved moved before ?ids (map wk_id (as_workspaces s'))"
      using desired_order_block [OF v] move_block_order [OF s] m(1) True by simp
    ultimately show ?thesis using m True by (auto simp: rearranged_def)
  qed
qed

theorem move_block_effect_witness:
  "\<exists>s'. move_workspace_block [lit ''w2''] (Some (lit ''w1'')) demo_state = Some (True, s')
     \<and> map wk_id (as_workspaces s') = [lit ''w2'', lit ''w1'']"
proof -
  have ne: "lit ''w2'' \<noteq> lit ''w1''" by (simp add: lit_def)
  have ids: "map wk_id (as_workspaces demo_state) = [lit ''w1'', lit ''w2'']" by (simp add: demo_state_ws)
  obtain r s' where m: "move_workspace_block [lit ''w2''] (Some (lit ''w1'')) demo_state = Some (r, s')"
      "mset (as_workspaces s') = mset (as_workspaces demo_state)"
      "if r then block_moved [lit ''w2''] (Some (lit ''w1'')) (map wk_id (as_workspaces demo_state))
         (map wk_id (as_workspaces s')) else s' = demo_state"
    using move_block_effect [OF demo_state_ok, of "[lit ''w2'']" "Some (lit ''w1'')"] by blast
  have r using m(1) ne by (auto simp: move_workspace_block_def ids Let_def desired_order_def active_in_range_def
        demo_state_ws split: if_splits)
  then obtain xs zs where e: "map wk_id (as_workspaces s') = xs @ [lit ''w2''] @ lit ''w1'' # zs"
    using m(3) by (auto simp: block_moved_def)
  have "length (map wk_id (as_workspaces s')) = 2" using mset_eq_length [OF m(2)] by (simp add: demo_state_ws)
  then have "xs = []" "zs = []" unfolding e by simp_all
  then show ?thesis using m(1) \<open>r\<close> e by simp
qed

section \<open>Terminals\<close>

lemma pane_order_values:
  assumes "pane_order_ok iter" "tab_inv t"
  shows "attached_terminal_id ` set (tab_values iter t) = snd ` set (tab_entries t)"
proof -
  have "finite (dom (tb_panes t))" using assms(2) by (simp add: tab_inv_def)
  then have "set (iter t) = set (pane_ids (tb_layout t))" and p: "\<forall>i \<in> set (pane_ids (tb_layout t)). tb_panes t i \<noteq> None"
    using assms by (auto simp: pane_order_ok_def tab_inv_def)
  then show ?thesis by (force simp: tab_values_def tab_entries_def map_filter_def image_iff)
qed

lemma attached_values:
  assumes o: "pane_order_ok iter" and inv: "\<forall>w \<in> set ws. workspace_inv w"
  shows "is_attached iter j ws \<longleftrightarrow> j \<in> snd ` set (all_entries ws)"
proof -
  have "snd ` set (tab_entries t) = attached_terminal_id ` set (tab_values iter t)" if "w \<in> set ws" "t \<in> set (wk_tabs w)" for w t
    using pane_order_values [OF o] that inv by (auto simp: workspace_inv_def workspace_ok_def tabs_ok_def)
  then have "snd ` set (all_entries ws)
      = (\<Union>w \<in> set ws. \<Union>t \<in> set (wk_tabs w). attached_terminal_id ` set (tab_values iter t))"
    by (simp add: all_entries_def entries_def image_UN)
  then show ?thesis by (auto simp: is_attached_def list_ex_iff)
qed

lemma workspace_values:
  assumes "pane_order_ok iter" "workspace_inv w"
  shows "set (terminal_ids_for_tabs iter (wk_tabs w)) = terminals w"
proof -
  have "snd ` set (tab_entries t) = attached_terminal_id ` set (tab_values iter t)" if "t \<in> set (wk_tabs w)" for t
    using pane_order_values [OF assms(1)] that assms(2) by (auto simp: workspace_inv_def workspace_ok_def tabs_ok_def)
  then show ?thesis by (simp add: terminal_ids_for_tabs_def terminals_def entries_def image_UN)
qed

text \<open>The terminals among \<open>js\<close> that no pane shows any more are dropped and shut down; the rest stay.\<close>

lemma remove_unattached_frame [simp]:
  "as_workspaces (remove_unattached_terminal_ids iter js s) = as_workspaces s"
  "as_active (remove_unattached_terminal_ids iter js s) = as_active s"
  "as_selected (remove_unattached_terminal_ids iter js s) = as_selected s"
  "as_pending (remove_unattached_terminal_ids iter js s) = as_pending s"
  unfolding remove_unattached_terminal_ids_def
  by (induction js arbitrary: s) (simp_all add: remove_unattached_terminal_id_def)

lemma remove_unattached_terminals:
  "as_terminals (remove_unattached_terminal_ids iter js s)
     = as_terminals s |` (- {j \<in> set js. \<not> is_attached iter j (as_workspaces s)})"
  unfolding remove_unattached_terminal_ids_def
proof (induction js arbitrary: s)
  case (Cons j js)
  have ws: "as_workspaces (remove_unattached_terminal_id iter j s) = as_workspaces s"
    by (simp add: remove_unattached_terminal_id_def)
  have "as_terminals (remove_unattached_terminal_id iter j s)
      = (if is_attached iter j (as_workspaces s) then as_terminals s else (as_terminals s)(j := None))"
    by (auto simp: remove_unattached_terminal_id_def)
  with Cons.IH [of "remove_unattached_terminal_id iter j s"] ws show ?case
    by (auto simp: restrict_map_def fun_eq_iff)
qed (simp add: restrict_map_def)

lemma remove_unattached_shutdowns:
  "set (as_shutdowns (remove_unattached_terminal_ids iter js s))
     = set (as_shutdowns s) \<union> {j \<in> set js. \<not> is_attached iter j (as_workspaces s) \<and> as_terminals s j \<noteq> None}"
  unfolding remove_unattached_terminal_ids_def
proof (induction js arbitrary: s)
  case (Cons j js)
  show ?case
    unfolding foldl_Cons Cons.IH by (auto simp: remove_unattached_terminal_id_def split: if_splits)
qed simp

text \<open>Exactly the terminals of the panes that went away are dropped.\<close>

lemma dropped_terminals:
  assumes o: "pane_order_ok iter" and ok: "app_ok s'" and m: "mset (all_entries (as_workspaces s)) = mset gone + mset (all_entries (as_workspaces s'))"
    and s: "app_inv s" and j: "snd ` set gone \<subseteq> set js" "set js \<subseteq> attached s"
    and t: "as_terminals s'' = as_terminals s" "as_workspaces s'' = as_workspaces s'" "as_shutdowns s'' = as_shutdowns s"
  shows "as_terminals (remove_unattached_terminal_ids iter js s'') = as_terminals s |` (- snd ` set gone)"
    "set (as_shutdowns (remove_unattached_terminal_ids iter js s'')) = set (as_shutdowns s) \<union> snd ` set gone"
    "snd ` set (all_entries (as_workspaces s')) \<subseteq> dom (as_terminals s |` (- snd ` set gone))"
proof -
  have inv: "\<forall>w \<in> set (as_workspaces s'). workspace_inv w" using ok by (simp add: app_ok_def spaces_ok_def)
  note att = attached_values [OF o inv]
  have apart: "panes_apart (all_entries (as_workspaces s))" using s by (simp add: app_inv_def app_ok_def spaces_ok_def)
  have "mset (all_entries (as_workspaces s)) = mset (gone @ all_entries (as_workspaces s'))" using m by simp
  then have a: "panes_apart (gone @ all_entries (as_workspaces s'))"
    and all: "set (all_entries (as_workspaces s)) = set gone \<union> set (all_entries (as_workspaces s'))"
    using apart panes_apart_mset mset_eq_setD by (blast, metis set_append)
  have dis: "snd ` set gone \<inter> snd ` set (all_entries (as_workspaces s')) = {}" using a by (simp add: panes_apart_def)
  have att_s: "attached s = snd ` set gone \<union> snd ` set (all_entries (as_workspaces s'))" by (auto simp: attached_def all)
  have goneq: "{j \<in> set js. \<not> is_attached iter j (as_workspaces s')} = snd ` set gone"
    using j dis att att_s by auto
  have dom: "attached s \<subseteq> dom (as_terminals s)" using s by (simp add: app_inv_def)
  show "as_terminals (remove_unattached_terminal_ids iter js s'') = as_terminals s |` (- snd ` set gone)"
    unfolding remove_unattached_terminals t goneq ..
  show "set (as_shutdowns (remove_unattached_terminal_ids iter js s'')) = set (as_shutdowns s) \<union> snd ` set gone"
    unfolding remove_unattached_shutdowns t using goneq dom att_s by auto
  show "snd ` set (all_entries (as_workspaces s')) \<subseteq> dom (as_terminals s |` (- snd ` set gone))"
    using dis dom att_s by (auto simp: restrict_map_def dom_def)
qed

end
