(* ===== verification/AppClose.thy ===== *)
theory AppClose
  imports AppLifecycle
begin

text \<open>Closing the selected workspace and the death of a pane: exactly the panes that go lose their terminals.\<close>

section \<open>Removing workspaces\<close>

lemma remove_indices_ok:
  assumes "sorted_wrt (>) ks" "\<forall>k \<in> set ks. k < length ws"
  shows "\<exists>rest. remove_indices ks ws = Some rest \<and> mset ws = mset (map ((!) ws) ks) + mset rest"
  using assms
proof (induction ks arbitrary: ws)
  case (Cons k ks)
  have k: "k < length ws" using Cons.prems by simp
  have below: "\<forall>j \<in> set ks. j < k" using Cons.prems by simp
  then have "\<forall>j \<in> set ks. j < length (remove_nth k ws)" using length_remove_nth [OF k] k by fastforce
  then obtain rest where r: "remove_indices ks (remove_nth k ws) = Some rest"
      "mset (remove_nth k ws) = mset (map ((!) (remove_nth k ws)) ks) + mset rest"
    using Cons.IH [of "remove_nth k ws"] Cons.prems by auto
  have e: "map ((!) (remove_nth k ws)) ks = map ((!) ws) ks"
    using below k by (auto simp: remove_nth_def nth_append)
  show ?case using r(1) k mset_remove_nth [OF k] r(2) [unfolded e] by simp
qed simp

lemma close_indices_ok:
  assumes "k < length (as_workspaces s)"
  shows "sorted_wrt (>) (rev (workspace_close_indices k s))"
    "\<forall>j \<in> set (workspace_close_indices k s). j < length (as_workspaces s)"
proof -
  have "sorted_wrt (<) (filter P [0..<n])" for P and n :: nat by (rule sorted_wrt_filter) simp
  then show "sorted_wrt (>) (rev (workspace_close_indices k s))"
    by (simp add: workspace_close_indices_def sorted_wrt_rev Let_def split: option.split)
  show "\<forall>j \<in> set (workspace_close_indices k s). j < length (as_workspaces s)"
    using assms by (auto simp: workspace_close_indices_def Let_def split: option.splits)
qed

lemma spaces_ok_part:
  assumes "spaces_ok ws" "mset ws = mset gone + mset rest"
  shows "spaces_ok rest" "mset (all_entries ws) = mset (all_entries gone) + mset (all_entries rest)"
proof -
  have m: "mset ws = mset (gone @ rest)" using assms(2) by simp
  show e: "mset (all_entries ws) = mset (all_entries gone) + mset (all_entries rest)"
    by (simp add: mset_all_entries assms(2))
  have "spaces_ok (gone @ rest)" by (rule spaces_ok_mset(1) [OF m [symmetric] assms(1)])
  then show "spaces_ok rest" by (simp add: spaces_ok_def ids_ok_def panes_apart_def)
qed

lemma select_after_close_range: "in_range (select_after_close i s)"
proof (cases "as_workspaces s = []")
  case False
  then have "length (as_workspaces s) - 1 < length (as_workspaces s)" by simp
  then show ?thesis
    using False by (auto simp: in_range_def select_after_close_def Let_def)
qed (simp add: in_range_def select_after_close_def)

lemma select_after_close_frame [simp]:
  "as_workspaces (select_after_close i s) = as_workspaces s" "as_terminals (select_after_close i s) = as_terminals s"
  "as_shutdowns (select_after_close i s) = as_shutdowns s" "as_pending (select_after_close i s) = as_pending s"
  by (simp_all add: select_after_close_def Let_def)

lemma plugin_records_frame [simp]:
  "as_workspaces (remove_plugin_pane_records ks s) = as_workspaces s"
  "as_terminals (remove_plugin_pane_records ks s) = as_terminals s"
  "as_shutdowns (remove_plugin_pane_records ks s) = as_shutdowns s"
  "as_pending (remove_plugin_pane_records ks s) = as_pending s"
  "as_active (remove_plugin_pane_records ks s) = as_active s"
  "as_selected (remove_plugin_pane_records ks s) = as_selected s"
  by (simp_all add: remove_plugin_pane_records_def)

lemma dirty_frame [simp]:
  "as_workspaces (mark_session_dirty s) = as_workspaces s" "as_terminals (mark_session_dirty s) = as_terminals s"
  "as_shutdowns (mark_session_dirty s) = as_shutdowns s" "as_pending (mark_session_dirty s) = as_pending s"
  "as_active (mark_session_dirty s) = as_active s" "as_selected (mark_session_dirty s) = as_selected s"
  by (simp_all add: mark_session_dirty_def)

lemma terminals_ok_sub: "terminals_ok m \<Longrightarrow> terminals_ok (m |` A)"
  by (auto simp: terminals_ok_def ran_def restrict_map_def split: if_splits)

lemma dropped_inv:
  assumes "app_inv s" "app_ok s'" "as_terminals s' = as_terminals s |` A" "as_pending s' = filter P (as_pending s)"
    and "attached s' \<subseteq> dom (as_terminals s |` A)"
  shows "app_inv s'"
  using assms terminals_ok_sub [of "as_terminals s" A]
  by (auto simp: app_inv_def pending_ok_def distinct_map_filter)

text \<open>What goes when the selected workspace is closed: it, or the whole group of worktrees it is the main one of.\<close>

definition closed_workspaces :: "app_state \<Rightarrow> app_workspace list" where
  "closed_workspaces s = map ((!) (as_workspaces s)) (workspace_close_indices (as_selected s) s)"

lemma close_selected_cases:
  assumes s: "app_inv s" and o: "pane_order_ok iter" and ne: "as_workspaces s \<noteq> []"
  obtains s' where "close_selected_workspace iter s = Some s'" "app_inv s'"
    "mset (as_workspaces s) = mset (closed_workspaces s) + mset (as_workspaces s')"
    "as_terminals s' = as_terminals s |` (- snd ` set (all_entries (closed_workspaces s)))"
    "set (as_shutdowns s') = set (as_shutdowns s) \<union> snd ` set (all_entries (closed_workspaces s))"
proof -
  let ?ks = "workspace_close_indices (as_selected s) s" and ?ws = "as_workspaces s"
  have ok: "app_ok s" using s by (simp add: app_inv_def)
  have sel: "as_selected s < length ?ws" using ok ne by (simp add: app_ok_def in_range_def)
  note ks = close_indices_ok [OF sel]
  obtain rest where r: "remove_indices (rev ?ks) ?ws = Some rest"
      "mset ?ws = mset (map ((!) ?ws) (rev ?ks)) + mset rest"
    using remove_indices_ok [OF ks(1)] ks(2) by auto
  let ?gone = "closed_workspaces s"
  let ?js = "concat (map (\<lambda>k. terminal_ids_for_workspace iter k s) ?ks)"
  let ?s2 = "(remove_plugin_pane_records (concat (map (\<lambda>k. pane_ids_for_workspace k s) ?ks)) (mark_session_dirty s))
    \<lparr>as_workspaces := rest\<rparr>"
  let ?s' = "select_after_close (active_workspace_id s) (remove_unattached_terminal_ids iter ?js ?s2)"
  have c: "close_selected_workspace iter s = Some ?s'"
    using ne r(1) by (simp add: close_selected_workspace_def Let_def)
  have m: "mset ?ws = mset ?gone + mset rest" using r(2) by (simp add: closed_workspaces_def rev_map [symmetric])
  have sp: "spaces_ok ?ws" using ok by (simp add: app_ok_def)
  note part = spaces_ok_part [OF sp m]
  have ok': "app_ok ?s'" using part(1) select_after_close_range by (simp add: app_ok_def)
  have inv: "workspace_inv (?ws ! k)" if "k \<in> set ?ks" for k
    using ks(2) that app_ok_workspace(1) [OF ok] by blast
  have "set ?js = (\<Union>k \<in> set ?ks. terminals (?ws ! k))"
    using workspace_values [OF o inv] ks(2) by (simp add: terminal_ids_for_workspace_def workspace_at_def)
  moreover have gone: "snd ` set (all_entries ?gone) = (\<Union>k \<in> set ?ks. terminals (?ws ! k))"
    by (simp add: closed_workspaces_def all_entries_def terminals_def image_UN)
  ultimately have js: "set ?js = snd ` set (all_entries ?gone)" by simp
  have e: "mset (all_entries ?ws) = mset (all_entries ?gone) + mset (all_entries (as_workspaces ?s'))"
    using part(2) by simp
  have sub: "set ?js \<subseteq> attached s"
    unfolding js attached_def using mset_eq_setD [of "all_entries ?ws" "all_entries ?gone @ all_entries rest"] part(2) by auto
  have "snd ` set (all_entries ?gone) \<subseteq> set ?js" using js by simp
  note d = dropped_terminals [OF o ok' e s this sub, of ?s2]
  have t: "as_terminals ?s2 = as_terminals s" "as_workspaces ?s2 = as_workspaces ?s'" "as_shutdowns ?s2 = as_shutdowns s"
    by simp_all
  note d = d [OF t]
  have "attached ?s' \<subseteq> dom (as_terminals s |` (- snd ` set (all_entries ?gone)))"
    unfolding attached_def by (rule d(3))
  from dropped_inv [OF s ok' _ _ this, of "\<lambda>_. True"] d(1) have "app_inv ?s'" by simp
  then show ?thesis using c d(1,2) m by (intro that [of ?s']) simp_all
qed

section \<open>The death of a pane\<close>

lemma in_workspace_iff:
  assumes "workspace_inv w"
  shows "find_tab_index_for_pane i w \<noteq> None \<longleftrightarrow> i \<in> live w"
proof -
  have "tabs_ok (next_public_tab_number w) (wk_tabs w)" using assms by (simp add: workspace_inv_def workspace_ok_def)
  from find_tab_index_None [OF this] show ?thesis by simp
qed

lemma find_pane_state_entry:
  assumes w: "workspace_inv w" and i: "i \<in> live w"
  obtains p where "find_pane_state i w = Some p" "(i, attached_terminal_id p) \<in> panes_of w"
proof -
  have ok: "workspace_ok {} w" using w by (simp add: workspace_inv_def)
  have "find_tab_index_for_pane i w \<noteq> None" using in_workspace_iff [OF w] i by blast
  then have "find (\<lambda>t. tb_panes t i \<noteq> None) (wk_tabs w) \<noteq> None"
    by (auto simp: find_tab_index_for_pane_def position_None find_None_iff)
  then obtain t where t: "find (\<lambda>t. tb_panes t i \<noteq> None) (wk_tabs w) = Some t" by blast
  then obtain k p where "k < length (wk_tabs w)" "t = wk_tabs w ! k" "tb_panes t i = Some p"
    by (auto simp: find_Some_iff)
  moreover from this have "(i, attached_terminal_id p) \<in> set (tab_entries t)"
    using tab_entry [of t i "attached_terminal_id p"] workspace_ok_tab [OF ok] by auto
  ultimately have "find_pane_state i w = Some p" "(i, attached_terminal_id p) \<in> panes_of w"
    using t entries_nth [of k "wk_tabs w"] by (auto simp: find_pane_state_def)
  then show ?thesis by (rule that)
qed

lemma pane_workspace:
  assumes "spaces_ok ws" "x \<in> set (all_entries ws)"
  obtains k where "k < length ws" "x \<in> panes_of (ws ! k)"
    "position (\<lambda>w. find_tab_index_for_pane (fst x) w \<noteq> None) ws = Some k"
proof -
  obtain k where k: "k < length ws" "x \<in> panes_of (ws ! k)"
    using assms(2) by (auto simp: all_entries_def in_set_conv_nth [of _ ws])
  have has: "find_tab_index_for_pane (fst x) (ws ! j) \<noteq> None \<longleftrightarrow> fst x \<in> live (ws ! j)" if "j < length ws" for j
    by (rule in_workspace_iff) (use assms(1) that in \<open>simp add: spaces_ok_def\<close>)
  have only: "j = k" if "j < length ws" "fst x \<in> live (ws ! j)" for j
  proof (rule ccontr)
    assume "j \<noteq> k"
    then have "ws ! j \<in> set (remove_nth k ws)" by (rule mem_remove_nth [OF that(1)])
    then have "fst x \<in> fst ` set (all_entries (remove_nth k ws))"
      using that(2) by (force simp: live_panes all_entries_def)
    moreover have "panes_apart (entries (wk_tabs (ws ! k)) @ all_entries (remove_nth k ws))"
      using assms(1) all_entries_nth [OF k(1)] panes_apart_mset [of "all_entries ws"] by (simp add: spaces_ok_def)
    then have "fst ` panes_of (ws ! k) \<inter> fst ` set (all_entries (remove_nth k ws)) = {}"
      by (simp add: panes_apart_def)
    ultimately show False using imageI [OF k(2), of fst] by blast
  qed
  have "fst x \<in> live (ws ! k)" using k(2) by (auto simp: live_panes)
  then have "position (\<lambda>w. find_tab_index_for_pane (fst x) w \<noteq> None) ws = Some k"
    by (intro position_unique [OF k(1)]) (use has [OF k(1)] in simp, use has only in blast)
  with k show ?thesis by (rule that)
qed

lemma clamp_selection_frame [simp]:
  "as_workspaces (clamp_selection a b s) = as_workspaces s" "as_terminals (clamp_selection a b s) = as_terminals s"
  "as_shutdowns (clamp_selection a b s) = as_shutdowns s" "as_pending (clamp_selection a b s) = as_pending s"
  by (simp_all add: clamp_selection_def Let_def)

lemma clamp_selection_range:
  assumes "as_workspaces s \<noteq> []" "as_active s \<noteq> None"
  shows "in_range (clamp_selection a b s)"
proof -
  have "length (as_workspaces s) - 1 < length (as_workspaces s)" using assms(1) by simp
  then show ?thesis
    using assms by (auto simp: in_range_def clamp_selection_def Let_def split: option.split)
qed

lemma forget_aliases_frame [simp]:
  "as_workspaces (forget_aliases i s) = as_workspaces s" "as_terminals (forget_aliases i s) = as_terminals s"
  "as_shutdowns (forget_aliases i s) = as_shutdowns s" "as_pending (forget_aliases i s) = as_pending s"
  "as_active (forget_aliases i s) = as_active s" "as_selected (forget_aliases i s) = as_selected s"
  by (simp_all add: forget_aliases_def)

lemma close_dead_frame:
  "as_workspaces (close_dead_workspace iter k js s) = remove_nth k (as_workspaces s)"
  "as_terminals (close_dead_workspace iter k js s)
     = as_terminals (remove_unattached_terminal_ids iter js (s\<lparr>as_workspaces := remove_nth k (as_workspaces s)\<rparr>))"
  "as_shutdowns (close_dead_workspace iter k js s)
     = as_shutdowns (remove_unattached_terminal_ids iter js (s\<lparr>as_workspaces := remove_nth k (as_workspaces s)\<rparr>))"
  "as_pending (close_dead_workspace iter k js s) = as_pending s"
  by (simp_all add: close_dead_workspace_def Let_def)

lemma close_dead_range:
  assumes "in_range s" "k < length (as_workspaces s)"
  shows "in_range (close_dead_workspace iter k js s)"
proof (cases "remove_nth k (as_workspaces s) = []")
  case True
  then show ?thesis by (simp add: close_dead_workspace_def Let_def in_range_def)
next
  case False
  have "as_active s \<noteq> None" using assms by (auto simp: in_range_def split: if_splits)
  with False show ?thesis by (simp add: close_dead_workspace_def Let_def clamp_selection_range)
qed

text \<open>A pane went, and its terminal with it.\<close>

definition pane_gone :: "pane_id \<Rightarrow> terminal_id \<Rightarrow> app_state \<Rightarrow> app_state \<Rightarrow> bool" where
  "pane_gone i j s s' \<longleftrightarrow>
     mset (all_entries (as_workspaces s)) = add_mset (i, j) (mset (all_entries (as_workspaces s')))
     \<and> as_terminals s' = (as_terminals s)(j := None) \<and> set (as_shutdowns s') = insert j (set (as_shutdowns s))
     \<and> as_pending s' = filter (\<lambda>(j, _). j \<noteq> i) (as_pending s)"

lemma one_pane_gone:
  assumes s: "app_inv s" and o: "pane_order_ok iter" and ok: "app_ok s'"
    and m: "mset (all_entries (as_workspaces s)) = add_mset (i, j) (mset (all_entries (as_workspaces s')))"
    and t: "as_terminals s' = as_terminals (remove_unattached_terminal_ids iter ls s3)"
      "as_shutdowns s' = as_shutdowns (remove_unattached_terminal_ids iter ls s3)"
    and p: "as_pending s' = filter (\<lambda>(j, _). j \<noteq> i) (as_pending s)"
    and ls: "j \<in> set ls" "set ls \<subseteq> attached s"
    and s3: "as_terminals s3 = as_terminals s" "as_workspaces s3 = as_workspaces s'" "as_shutdowns s3 = as_shutdowns s"
  shows "app_inv s' \<and> pane_gone i j s s'"
proof -
  have "mset (all_entries (as_workspaces s)) = mset [(i, j)] + mset (all_entries (as_workspaces s'))"
    "snd ` set [(i, j)] \<subseteq> set ls"
    using m ls(1) by simp_all
  note d = dropped_terminals [OF o ok this(1) s this(2) ls(2) s3]
  have r: "as_terminals s' = as_terminals s |` (- {j})" using d(1) t(1) by simp
  have att: "attached s' \<subseteq> dom (as_terminals s |` (- {j}))" unfolding attached_def using d(3) by simp
  have "as_terminals s |` (- {j}) = (as_terminals s)(j := None)" by (auto simp: restrict_map_def)
  then show ?thesis using dropped_inv [OF s ok r p att] m r d(2) t(2) p by (simp add: pane_gone_def)
qed

text \<open>The whole workspace goes with its only pane, or the pane is taken out of it.\<close>

lemma last_pane_gone:
  assumes s: "app_inv s" and o: "pane_order_ok iter" and k: "k < length (as_workspaces s)"
    and e: "mset (entries (wk_tabs (as_workspaces s ! k))) = {#(i, j)#}" and js: "set js = {j}"
    and s3: "as_workspaces s3 = as_workspaces s" "as_active s3 = as_active s" "as_selected s3 = as_selected s"
      "as_terminals s3 = as_terminals s" "as_shutdowns s3 = as_shutdowns s"
      "as_pending s3 = filter (\<lambda>(j, _). j \<noteq> i) (as_pending s)"
  shows "app_inv (close_dead_workspace iter k js s3) \<and> pane_gone i j s (close_dead_workspace iter k js s3)"
proof (rule one_pane_gone [OF s o, of _ i j js "s3\<lparr>as_workspaces := remove_nth k (as_workspaces s3)\<rparr>"])
  let ?ws = "as_workspaces s" and ?s' = "close_dead_workspace iter k js s3"
  have ok: "spaces_ok ?ws" "in_range s" using s by (auto simp: app_inv_def app_ok_def)
  have "mset ?ws = mset [?ws ! k] + mset (remove_nth k ?ws)" using mset_remove_nth [OF k] by simp
  moreover have "in_range s3" using ok(2) s3(1-3) by (simp add: in_range_def)
  ultimately show "app_ok ?s'"
    using spaces_ok_part(1) [OF ok(1)] close_dead_range [of s3 k iter js] k s3(1) by (simp add: app_ok_def close_dead_frame)
  show "mset (all_entries ?ws) = add_mset (i, j) (mset (all_entries (as_workspaces ?s')))"
    using all_entries_nth [OF k] e s3(1) by (simp add: close_dead_frame)
  then have "(i, j) \<in> set (all_entries ?ws)" by (metis set_mset_add_mset_insert set_mset_mset insertI1)
  then show "set js \<subseteq> attached s" using js by (force simp: attached_def)
qed (use s3 js in \<open>simp_all add: close_dead_frame\<close>)

lemma inner_pane_gone:
  assumes s: "app_inv s" and o: "pane_order_ok iter" and k: "k < length (as_workspaces s)"
    and w: "workspace_inv w" "wk_id w = wk_id (as_workspaces s ! k)"
    and e: "mset (entries (wk_tabs (as_workspaces s ! k))) = add_mset (i, j) (mset (entries (wk_tabs w)))"
    and s3: "as_workspaces s3 = (as_workspaces s)[k := w]" "as_active s3 = as_active s" "as_selected s3 = as_selected s"
      "as_terminals s3 = as_terminals s" "as_shutdowns s3 = as_shutdowns s"
      "as_pending s3 = filter (\<lambda>(j, _). j \<noteq> i) (as_pending s)"
  shows "app_inv (remove_unattached_terminal_ids iter [j] s3) \<and> pane_gone i j s (remove_unattached_terminal_ids iter [j] s3)"
proof (rule one_pane_gone [OF s o, of _ i j "[j]" s3])
  let ?ws = "as_workspaces s" and ?s' = "remove_unattached_terminal_ids iter [j] s3"
  have ok: "spaces_ok ?ws" "in_range s" using s by (auto simp: app_inv_def app_ok_def)
  show m: "mset (all_entries ?ws) = add_mset (i, j) (mset (all_entries (as_workspaces ?s')))"
    using e s3(1) by (simp add: all_entries_nth [OF k] all_entries_update [OF k])
  then have "(i, j) \<in> set (all_entries ?ws)" by (metis set_mset_add_mset_insert set_mset_mset insertI1)
  then show "set [j] \<subseteq> attached s" by (force simp: attached_def)
  have "mset (all_entries (?ws[k := w])) \<subseteq># mset (all_entries ?ws)" using m s3(1) by simp
  then have "spaces_ok (?ws[k := w])"
    using ok(1) ids_ok_update [OF _ k w(2)] panes_apart_sub w(1) set_update_subset_insert [of ?ws k w]
    by (auto simp: spaces_ok_def)
  then show "app_ok ?s'" using ok(2) s3(1-3) by (simp add: app_ok_def in_range_def)
qed (use s3 in simp_all)

lemma only_pane:
  assumes d: "distinct (map fst ps)" and x: "(i, j) \<in> set ps" and i: "fst ` set ps = {i}"
  shows "mset ps = {#(i, j)#}"
proof -
  have "length ps = card (fst ` set ps)" using d distinct_card by fastforce
  then have "length ps = 1" using i by simp
  then obtain y where "ps = [y]" by (auto simp: length_Suc_conv)
  then show ?thesis using x by simp
qed

lemma pane_removed:
  assumes d: "distinct (map fst ps)" and x: "(i, j) \<in> set ps"
    and qs: "distinct qs" "set qs = {y \<in> set ps. fst y \<noteq> i}"
  shows "mset ps = add_mset (i, j) (mset qs)"
proof -
  have uniq: "y = (i, j)" if "y \<in> set ps" "fst y = i" for y
    using eq_key_imp_eq_value [OF d, of i "snd y" j] x that by (metis prod.collapse)
  have "distinct ((i, j) # qs)" using qs by simp
  moreover have "y \<in> set ps \<longleftrightarrow> y \<in> set ((i, j) # qs)" for y
    unfolding list.set qs(2) using uniq [of y] x by blast
  then have "set ps = set ((i, j) # qs)" by blast
  moreover have "distinct ps" using d by (simp add: distinct_map)
  ultimately have "mset ps = mset ((i, j) # qs)" using set_eq_iff_mset_eq_distinct by blast
  then show ?thesis by simp
qed

text \<open>
  A pane that is in no workspace leaves only its records; one that is takes its terminal along, and its workspace when it
  was the last.
\<close>

lemma pane_died_unknown:
  assumes s: "app_inv s" and i: "i \<notin> fst ` set (all_entries (as_workspaces s))"
  shows "\<exists>s'. handle_pane_died iter i s = Some s' \<and> app_inv s' \<and> as_workspaces s' = as_workspaces s
    \<and> as_terminals s' = as_terminals s \<and> as_shutdowns s' = as_shutdowns s
    \<and> as_pending s' = filter (\<lambda>(j, _). j \<noteq> i) (as_pending s)"
proof -
  let ?s1 = "remove_plugin_pane_records [i] (s\<lparr>as_pending := filter (\<lambda>(j, _). j \<noteq> i) (as_pending s)\<rparr>)"
  have ok: "app_ok s" and sp: "spaces_ok (as_workspaces s)" using s by (auto simp: app_inv_def app_ok_def)
  have "find_tab_index_for_pane i w = None" if w: "w \<in> set (as_workspaces s)" for w
  proof -
    have "workspace_inv w" using sp w by (simp add: spaces_ok_def)
    moreover have "i \<notin> live w" using i w by (force simp: live_panes all_entries_def)
    ultimately show ?thesis using in_workspace_iff by blast
  qed
  then have "position (\<lambda>w. find_tab_index_for_pane i w \<noteq> None) (as_workspaces s) = None" by (simp add: position_None)
  then have c: "handle_pane_died iter i s = Some ?s1" by (simp add: handle_pane_died_def Let_def)
  have "app_ok ?s1" using app_ok_cong [of ?s1 s] ok by simp
  then have "app_inv ?s1"
    using s by (intro dropped_inv [OF s, of _ UNIV]) (auto simp: attached_def app_inv_def)
  with c show ?thesis by simp
qed

lemma pane_died_known:
  assumes s: "app_inv s" and o: "pane_order_ok iter" and x: "(i, j) \<in> set (all_entries (as_workspaces s))"
  shows "\<exists>s'. handle_pane_died iter i s = Some s' \<and> app_inv s' \<and> pane_gone i j s s'"
proof -
  let ?ws = "as_workspaces s"
  let ?s1 = "remove_plugin_pane_records [i] (s\<lparr>as_pending := filter (\<lambda>(j, _). j \<noteq> i) (as_pending s)\<rparr>)"
  have ok: "app_ok s" and sp: "spaces_ok ?ws" using s by (auto simp: app_inv_def app_ok_def)
  obtain k where k: "k < length ?ws" "(i, j) \<in> panes_of (?ws ! k)"
      "position (\<lambda>w. find_tab_index_for_pane i w \<noteq> None) ?ws = Some k"
    using pane_workspace [OF sp x] by (metis fst_conv)
  let ?w = "?ws ! k"
  have w: "workspace_inv ?w" by (rule app_ok_workspace(1) [OF ok k(1)])
  have live: "i \<in> live ?w" using imageI [OF k(2), of fst] by (simp add: live_panes)
  have d: "distinct (map fst (entries (wk_tabs ?w)))" using w by (simp add: workspace_inv_def workspace_ok_def tabs_ok_def)
  obtain p where p: "find_pane_state i ?w = Some p" "(i, attached_terminal_id p) \<in> panes_of ?w"
    by (rule find_pane_state_entry [OF w live])
  have tid: "terminal_id_for_pane k i ?s1 = Some j"
    using k(1) p(1) distinct_fst_unique [OF d p(2) k(2)] by (simp add: terminal_id_for_pane_def workspace_at_def)
  let ?s2 = "forget_aliases i ?s1" and ?js = "terminal_ids_for_workspace iter k ?s1"
  have js: "set ?js = terminals ?w"
    using workspace_values [OF o w] k(1) by (simp add: terminal_ids_for_workspace_def workspace_at_def)
  have h: "handle_pane_died iter i s = (case workspace_remove_pane i ?w of None \<Rightarrow> None
      | Some (closes, w) \<Rightarrow>
          let s3 = mark_session_dirty (?s2\<lparr>as_workspaces := ?ws[k := w]\<rparr>)
          in Some (if closes then close_dead_workspace iter k ?js s3
                   else remove_unattached_terminal_ids iter [j] s3))"
    using k(3) tid by (simp add: handle_pane_died_def Let_def split: option.split)
  show ?thesis
  proof (rule drop_pane_cases [OF w, of tab_remove_pane i])
    show "tab_remove_pane i t = detach_pane i t" for t by (simp add: tab_remove_pane_def)
  next
    assume last: "live ?w = {i}" "drop_pane tab_remove_pane i ?w = Some (True, ?w)"
    have one: "fst ` panes_of ?w = {i}" using last(1) by (simp only: live_panes)
    note e = only_pane [OF d k(2) one]
    have "panes_of ?w = {(i, j)}" using e by (metis set_mset_mset set_mset_single)
    then have "set ?js = {j}" using js by (simp add: terminals_panes)
    from last_pane_gone [OF s o k(1) e this, of "mark_session_dirty (?s2\<lparr>as_workspaces := ?ws[k := ?w]\<rparr>)"]
    show ?thesis using h last(2) by (simp add: workspace_remove_pane_def)
  next
    fix w' assume dr: "drop_pane tab_remove_pane i ?w = Some (False, w')" "workspace_inv w'"
      "panes_of w' = {x \<in> panes_of ?w. fst x \<noteq> i}" "wk_id w' = wk_id ?w"
    note e = pane_removed [OF d k(2) distinct_entries [OF workspace_inv_ok [OF dr(2)]] dr(3)]
    from inner_pane_gone [OF s o k(1) dr(2,4) e, of "mark_session_dirty (?s2\<lparr>as_workspaces := ?ws[k := w']\<rparr>)"]
    show ?thesis using h dr(1) by (simp add: workspace_remove_pane_def)
  qed (use live in simp)
qed

end
