(* ===== verification/AppRuns.thy ===== *)
theory AppRuns
  imports AppClose
begin

text \<open>
  The application as a machine: the requests and events that change its workspaces, panes, terminals and notifications,
  and what holds at every moment of a run.
\<close>

section \<open>Moving a pane leaves the terminals alone\<close>

definition same_terminals :: "app_state \<Rightarrow> app_state \<Rightarrow> bool" where
  "same_terminals s s' \<longleftrightarrow>
     as_terminals s' = as_terminals s \<and> as_shutdowns s' = as_shutdowns s \<and> as_pending s' = as_pending s"

lemma same_terminals_refl [simp]: "same_terminals s s"
  by (simp add: same_terminals_def)

lemma same_terminals_trans: "same_terminals s t \<Longrightarrow> same_terminals t u \<Longrightarrow> same_terminals s u"
  by (simp add: same_terminals_def)

lemma leave_terminals: "same_terminals s (leave_workspace cross emptied k i p w s)"
  by (simp add: same_terminals_def leave_workspace_def close_emptied_workspace_def Let_def)

lemma recover_terminals: "recover_failed_pane_move c m s = Some s' \<Longrightarrow> same_terminals s s'"
  by (auto simp: same_terminals_def recover_failed_pane_move_def mark_session_dirty_def Let_def
      split: option.splits prod.splits)

lemma place_terminals: "place_moved_pane dir r c m j focus s = Some (x, s') \<Longrightarrow> same_terminals s s'"
  by (auto simp: place_moved_pane_def Let_def same_terminals_def
      split: resolved_destination.splits option.splits prod.splits sum.splits
      dest!: recover_terminals [unfolded same_terminals_def])

lemma switch_tab_terminals: "same_terminals s (snd (switch_workspace_tab k j s))"
  by (simp add: same_terminals_def switch_workspace_tab_def mark_session_dirty_def
      record_pane_focus_after_navigation_def Let_def split: option.split)

lemma finish_terminals: "same_terminals s (finish_pane_move f focus k j i s)"
  using switch_tab_terminals [of s k j]
  by (simp add: same_terminals_def finish_pane_move_def mark_session_dirty_def remove_alias_shadowed_by_new_pane_def
      record_pane_focus_change_def Let_def split: option.split)

lemma move_resolved_terminals: "move_resolved dir r c p k i j focus w s = Some (out, s') \<Longrightarrow> same_terminals s s'"
  using leave_terminals place_terminals finish_terminals same_terminals_trans
  by (auto simp: move_resolved_def Let_def same_terminals_def [of s "s\<lparr>as_workspaces := _\<rparr>"]
      split: option.splits prod.splits) (blast | simp add: same_terminals_def)+

lemma pane_move_terminals: "handle_pane_move keys dir pane d focus s = Some (out, s') \<Longrightarrow> same_terminals s s'"
  by (auto simp: handle_pane_move_def Let_def move_resolved_terminals split: option.splits prod.splits if_splits sum.splits)

lemma pane_move_rearranged:
  assumes "app_ok s" "room_left s" "names_existing destination s"
  shows "\<exists>out s'. handle_pane_move keys dir pane destination focus s = Some (out, s') \<and> rearranged s s'"
proof -
  obtain out s' where h: "handle_pane_move keys dir pane destination focus s = Some (out, s')" "app_ok s'"
      "mset (all_entries (as_workspaces s')) = mset (all_entries (as_workspaces s))"
    by (rule handle_pane_move_cases [OF assms, of keys dir pane focus]) (use assms(1) in blast)+
  with pane_move_terminals [OF h(1)] show ?thesis by (simp add: rearranged_def same_terminals_def)
qed


section \<open>Events keep the invariant\<close>

lemma set_terminal_inv:
  assumes s: "app_inv s" and t: "terminal_inv t"
  shows "app_inv (set_terminal j t s)"
proof -
  have ok: "app_ok (set_terminal j t s)"
    using app_ok_cong [of "set_terminal j t s" s] s by (simp add: app_inv_def) (simp add: set_terminal_def)
  moreover have "terminals_ok ((as_terminals s)(j \<mapsto> t))"
    using s t by (auto simp: app_inv_def terminals_ok_def ran_def)
  ultimately show ?thesis using s by (auto simp: app_inv_def set_terminal_def attached_def)
qed

lemma app_inv_fields [simp]:
  "app_inv (s\<lparr>as_toast := x\<rparr>) = app_inv s" "app_inv (s\<lparr>as_next_change_seq := n\<rparr>) = app_inv s"
  "app_inv (mark_session_dirty s) = app_inv s"
  using app_ok_cong [of "s\<lparr>as_toast := x\<rparr>" s] app_ok_cong [of "s\<lparr>as_next_change_seq := n\<rparr>" s]
    app_ok_cong [of "mark_session_dirty s" s]
  by (simp_all add: app_inv_def attached_def)

lemma pending_inv: "app_inv s \<Longrightarrow> pending_ok ps \<Longrightarrow> app_inv (s\<lparr>as_pending := ps\<rparr>)"
  using app_ok_cong [of "s\<lparr>as_pending := ps\<rparr>" s] by (simp add: app_inv_def attached_def)

lemma remove_pending_ok: "pending_ok ps \<Longrightarrow> pending_ok (filter (\<lambda>(j, _). j \<noteq> i) ps)"
  by (auto simp: pending_ok_def distinct_map_filter)

lemma update_pending_ok:
  assumes "pending_ok ps" "pn_pane_id p = i"
  shows "pending_ok (AList.update i p ps)"
proof -
  have "x \<in> set ps \<or> x = (i, p)" if "x \<in> set (AList.update i p ps)" for x
    using that by (induction ps) (auto split: if_splits)
  then show ?thesis using assms by (fastforce simp: pending_ok_def distinct_update)
qed

lemma remove_pending_inv: "app_inv s \<Longrightarrow> app_inv (remove_pending i s)"
  unfolding remove_pending_def by (rule pending_inv) (simp_all add: app_inv_def remove_pending_ok)

lemma put_off_inv: "app_inv s \<Longrightarrow> pn_pane_id p = i \<Longrightarrow> app_inv (s\<lparr>as_pending := AList.update i p (as_pending s)\<rparr>)"
  by (rule pending_inv) (simp_all add: app_inv_def update_pending_ok)

lemma record_or_deliver_inv:
  assumes "app_inv s"
  shows "app_inv (snd (record_or_deliver now k i c s))"
  using remove_pending_inv [OF assms] put_off_inv [OF remove_pending_inv [OF assms]]
  by (simp add: record_or_deliver_def Let_def split: option.split)

lemma delivery_inv: "app_inv s \<Longrightarrow> app_inv (apply_agent_notification_delivery d s)"
  by (simp add: apply_agent_notification_delivery_def split: option.split)

lemma change_inv:
  assumes s: "app_inv s"
  shows "app_inv (snd (apply_pane_state_change now k i c suppress s))"
proof -
  have "app_ok s" using s by (simp add: app_inv_def)
  then have "rearranged s (update_workspace k (set_seen i b) s)" for b
    using update_workspace_rearranged set_seen_ok by blast
  then have u: "app_inv (update_workspace k (set_seen i b) s)" for b using rearranged_inv s by blast
  have r: "app_inv s2" if "record_or_deliver now k i c (update_workspace k (set_seen i b) s) = (d, s2)" for b d s2
    using record_or_deliver_inv [OF u [of b], of now k i c] that by simp
  show ?thesis
    using s u r delivery_inv [OF r] by (auto simp: apply_pane_state_change_def Let_def split: option.split prod.split)
qed

text \<open>A change of the terminal that keeps the shown state the arbitrated one.\<close>

definition keeps_terminal :: "terminal_update \<Rightarrow> bool" where
  "keeps_terminal f \<longleftrightarrow> (\<forall>t. terminal_inv t \<longrightarrow> terminal_inv (snd (f t)))"

lemma quiet_fields [quiet_intros]: "quiet t (t\<lparr>t_last_change_seq := n\<rparr>)" "quiet t (t\<lparr>t_cwd := cwd\<rparr>)"
  by (simp_all add: quiet_defs)

lemma app_inv_terminal: "app_inv s \<Longrightarrow> as_terminals s j = Some t \<Longrightarrow> terminal_inv t"
  by (auto simp: app_inv_def terminals_ok_def ran_def)

lemma count_inv:
  assumes s: "app_inv s"
  shows "app_inv (count_state_change j c s)"
proof (cases "as_terminals s j")
  case None
  then have e: "(as_terminals s)(j := map_option f (as_terminals s j)) = as_terminals s" for f by auto
  show ?thesis using s by (simp add: count_state_change_def Let_def e)
next
  case (Some t)
  have "terminal_inv (t\<lparr>t_last_change_seq := n\<rparr>)" for n
    by (rule quiet_inv [OF quiet_fields(1) app_inv_terminal [OF s Some]])
  then have "app_inv (set_terminal j (t\<lparr>t_last_change_seq := m\<rparr>) (s\<lparr>as_next_change_seq := n\<rparr>))" for m n
    using s by (intro set_terminal_inv) simp_all
  with s Some show ?thesis by (simp add: count_state_change_def Let_def set_terminal_def)
qed

text \<open>
  What an update does: nothing, or it changes the terminal of the pane; then the change it reports is entered.
\<close>

definition settled :: "clocks \<Rightarrow> terminal_state \<Rightarrow> terminal_state" where
  "settled ck t = snd (finish_agent_process_acquisition (snd (reconcile_managed_agent_at (ck_now ck) False t)))"

lemma quiet_settled: "quiet t (settled ck t)"
  unfolding settled_def by (rule quiet_trans [OF quiet_reconcile quiet_small_steps(1)])

lemma update_terminal_cases:
  obtains (unknown) "update_terminal_state iter ck i force f s = (None, s)"
  | (silent) k p t t1 where "find_pane i s = Some (k, p)" "as_terminals s (attached_terminal_id p) = Some t" "f t = (None, t1)"
      "update_terminal_state iter ck i force f s = (None, set_terminal (attached_terminal_id p) t1 s)"
  | (changed) k p t m t1 s1 where "find_pane i s = Some (k, p)" "as_terminals s (attached_terminal_id p) = Some t"
      "f t = (Some m, t1)" "tm_change m = None"
      "update_terminal_state iter ck i force f s = (None, s1)"
      "s1 = set_terminal (attached_terminal_id p) (settled ck t1) s
       \<or> s1 = mark_session_dirty (set_terminal (attached_terminal_id p) (settled ck t1) s)"
  | (entered) k p t m t1 c b s1 where "find_pane i s = Some (k, p)" "as_terminals s (attached_terminal_id p) = Some t"
      "f t = (Some m, t1)"
      "tm_change m = Some c \<or> tm_change m = None \<and> c = unchanged_effective_state_change iter (ck_now ck) (settled ck t1)"
      "snd (update_terminal_state iter ck i force f s)
       = snd (apply_pane_state_change (ck_notify ck) k i c b (count_state_change (attached_terminal_id p) c s1))"
      "s1 = set_terminal (attached_terminal_id p) (settled ck t1) s
       \<or> s1 = mark_session_dirty (set_terminal (attached_terminal_id p) (settled ck t1) s)"
proof (cases "find_pane i s")
  case None
  then show ?thesis using unknown by (simp add: update_terminal_state_def)
next
  case (Some y)
  obtain k p where y: "find_pane i s = Some (k, p)" using Some by (cases y) simp
  let ?j = "attached_terminal_id p"
  show ?thesis
  proof (cases "as_terminals s ?j")
    case None
    then show ?thesis using unknown y by (simp add: update_terminal_state_def Let_def)
  next
    case t: (Some t)
    obtain mo t1 where u: "f t = (mo, t1)" by fastforce
    show ?thesis
    proof (cases mo)
      case None
      then show ?thesis using silent y t u by (simp add: update_terminal_state_def Let_def)
    next
      case m: (Some m)
      obtain b2 t2 where t2: "reconcile_managed_agent_at (ck_now ck) False t1 = (b2, t2)" by fastforce
      obtain b3 t3 where t3: "finish_agent_process_acquisition t2 = (b3, t3)" by fastforce
      have st: "settled ck t1 = t3" by (simp add: settled_def t2 t3)
      let ?s1 = "set_terminal ?j t3 s"
      let ?named = "t_agent_name t3 \<noteq> t_agent_name t"
      define s1 where "s1 = (if tm_session_ref_changed m \<or> b2 \<or> ?named then mark_session_dirty ?s1 else ?s1)"
      have s1: "s1 = ?s1 \<or> s1 = mark_session_dirty ?s1" by (simp add: s1_def)
      define ch where "ch = (case tm_change m of Some c \<Rightarrow> Some c | None \<Rightarrow>
          if tm_agent_released m \<or> ?named then Some (unchanged_effective_state_change iter (ck_now ck) t3) else None)"
      have e: "update_terminal_state iter ck i force f s = (case ch of None \<Rightarrow> (None, s1)
          | Some c \<Rightarrow> let suppress = (force \<or> sc_state c = Idle \<and> (managed_agent_launch_pending t \<or> b3));
              s3 = count_state_change ?j c s1
            in (case apply_pane_state_change (ck_notify ck) k i c suppress s3 of
                  (None, s4) \<Rightarrow> (None, s4)
                | (Some flag, s4) \<Rightarrow>
                    (Some (update_of_change i k c (seen p) flag ?named (tm_agent_released m) suppress), s4)))"
        unfolding update_terminal_state_def s1_def ch_def by (simp only: y t u m t2 t3 option.case prod.case Let_def)
      show ?thesis
      proof (cases ch)
        case None
        then have "tm_change m = None" by (auto simp: ch_def split: option.splits)
        then show ?thesis using changed [of k p t m t1 s1] y t u m s1 None e st by simp
      next
        case (Some c)
        then have "tm_change m = Some c \<or> tm_change m = None \<and> c = unchanged_effective_state_change iter (ck_now ck) t3"
          by (auto simp: ch_def split: option.splits if_splits)
        then show ?thesis
          using entered [of k p t m t1 c "force \<or> sc_state c = Idle \<and> (managed_agent_launch_pending t \<or> b3)" s1]
            y t u m s1 Some e st
          by (simp add: Let_def split: prod.split option.split)
      qed
    qed
  qed
qed

lemma update_terminal_inv:
  assumes s: "app_inv s" and f: "keeps_terminal f"
  shows "app_inv (snd (update_terminal_state iter ck i force f s))"
proof -
  have t: "terminal_inv t1" if "as_terminals s j = Some t" "f t = (m, t1)" for j t m t1
    using f app_inv_terminal [OF s that(1)] that(2) unfolding keeps_terminal_def by (metis snd_conv)
  show ?thesis
  proof (rule update_terminal_cases [of iter ck i force f s])
    fix p t t1 assume "as_terminals s (attached_terminal_id p) = Some t" "f t = (None, t1)"
      "update_terminal_state iter ck i force f s = (None, set_terminal (attached_terminal_id p) t1 s)"
    then show ?thesis using set_terminal_inv [OF s t] by simp
  next
    fix p t t1 m s1 assume "as_terminals s (attached_terminal_id p) = Some t" "f t = (Some m, t1)"
      "update_terminal_state iter ck i force f s = (None, s1)"
      "s1 = set_terminal (attached_terminal_id p) (settled ck t1) s
       \<or> s1 = mark_session_dirty (set_terminal (attached_terminal_id p) (settled ck t1) s)"
    then show ?thesis using set_terminal_inv [OF s quiet_inv [OF quiet_settled t]] by auto
  next
    fix k p t t1 m c b s1 assume "as_terminals s (attached_terminal_id p) = Some t" "f t = (Some m, t1)"
      and e: "snd (update_terminal_state iter ck i force f s)
         = snd (apply_pane_state_change (ck_notify ck) k i c b (count_state_change (attached_terminal_id p) c s1))"
      and s1: "s1 = set_terminal (attached_terminal_id p) (settled ck t1) s
       \<or> s1 = mark_session_dirty (set_terminal (attached_terminal_id p) (settled ck t1) s)"
    then have "app_inv s1" using set_terminal_inv [OF s quiet_inv [OF quiet_settled t]] by auto
    then show ?thesis unfolding e by (intro change_inv count_inv)
  qed (use s in simp)
qed


text \<open>What each event does to a terminal keeps its invariant.\<close>

lemma snd_always [simp]: "snd (always f t) = snd (f t)"
  by (simp add: always_def split_beta)

lemma terminal_update_keeps: "terminal_update_of iter ck e = Some (i, f) \<Longrightarrow> keeps_terminal f"
  by (cases e) (auto split: if_splits
      simp: keeps_terminal_def set_detected_inv detected_process_inv set_hook_authority_inv
        session_start_inv clear_hook_authority_inv release_inv set_metadata_inv)

lemma process_exit_keeps: "keeps_terminal (process_exit_update iter observed ck)"
  by (simp add: keeps_terminal_def process_exit_update_def Let_def set_detected_inv)

lemma cwd_inv:
  assumes s: "app_inv s"
  shows "app_inv (set_terminal_cwd cwd usable i s)"
proof -
  have "app_inv (set_terminal j (t\<lparr>t_cwd := cwd\<rparr>) s)" if "as_terminals s j = Some t" for j t
    by (rule set_terminal_inv [OF s quiet_inv [OF quiet_fields(2) app_inv_terminal [OF s that]]])
  with s show ?thesis by (simp add: set_terminal_cwd_def split: option.split)
qed

lemma pane_died_total:
  assumes "app_inv s" "pane_order_ok iter"
  shows "\<exists>s'. handle_pane_died iter i s = Some s' \<and> app_inv s'"
proof (cases "i \<in> fst ` set (all_entries (as_workspaces s))")
  case True
  then obtain j where "(i, j) \<in> set (all_entries (as_workspaces s))" by auto
  then show ?thesis using pane_died_known [OF assms] by blast
qed (use pane_died_unknown [OF assms(1)] in blast)

lemma toast_inv: "app_inv s \<Longrightarrow> app_inv (herdr_toast x s)"
  by (simp add: herdr_toast_def)

lemma event_inv:
  assumes s: "app_inv s" and o: "pane_order_ok porder"
  shows "\<exists>us s'. handle_app_event iter porder ck e s = Some (us, s') \<and> app_inv s'"
proof (cases "terminal_update_of iter ck e")
  case (Some x)
  obtain i f where x: "terminal_update_of iter ck e = Some (i, f)" using Some by (cases x) simp
  show ?thesis
    using update_terminal_inv [OF s terminal_update_keeps [OF x], of iter ck i False] x
    by (simp add: handle_app_event_def split_beta)
next
  case None
  then show ?thesis
    using s pane_died_total [OF s o] toast_inv [OF s] cwd_inv [OF s]
    by (cases e) (auto simp: handle_app_event_def)
qed

section \<open>What is put off keeps the invariant\<close>

lemma deliver_pending_inv: "app_inv s \<Longrightarrow> app_inv (snd (deliver_pending i s))"
  using remove_pending_inv [of s i] delivery_inv [of "remove_pending i s"]
  by (simp add: deliver_pending_def Let_def split: option.split)

lemma deliver_all_inv: "app_inv s \<Longrightarrow> app_inv (snd (deliver_all is s))"
  by (induction "is" arbitrary: s) (simp_all add: split_beta deliver_pending_inv)

lemma expire_pane_inv:
  assumes s: "app_inv s"
  shows "app_inv (snd (expire_pane_metadata iter scheduled now notify x s))"
proof -
  obtain k i j where x: "x = (k, i, j)" by (cases x) simp
  show ?thesis
  proof (cases "pane_seen k i s = None \<or> as_terminals s j = None")
    case True
    then show ?thesis using s by (auto simp: x expire_pane_metadata_def split: option.split)
  next
    case False
    then obtain b t where bt: "pane_seen k i s = Some b" "as_terminals s j = Some t" by auto
    obtain m t' where m: "expire_agent_metadata_at iter scheduled now t = (m, t')" by fastforce
    then have "terminal_inv t'" using expire_metadata_inv [OF app_inv_terminal [OF s bt(2)]] by (metis snd_conv)
    note inv = set_terminal_inv [OF s this, of j]
    have "app_inv s2" if "apply_pane_state_change notify k i c False (set_terminal j t' s) = (y, s2)" for c y s2
      using change_inv [OF inv, of notify k i c False] that by simp
    then show ?thesis using inv bt m by (auto simp: x expire_pane_metadata_def Let_def split: option.split prod.split)
  qed
qed

lemma expire_all_inv: "app_inv s \<Longrightarrow> app_inv (snd (expire_all iter scheduled now notify xs s))"
  by (induction xs arbitrary: s) (simp_all add: split_beta expire_pane_inv)

section \<open>The machine\<close>

text \<open>
  The requests and events, with what each reads from outside: the instants, the directory, the orders in which maps are
  walked.
\<close>

datatype app_op =
    Event clocks app_event
  | ProcessExited nat clocks pane_id bool
  | DrainNotifications "pane_id list \<Rightarrow> pane_id list" nat
  | ExpireAgentMetadata nat nat nat
  | FocusPane nat pane_id
  | ZoomPane nat pane_id zoom_command
  | SeeActiveTab
  | SwitchWorkspace nat
  | SwitchTab nat nat
  | MoveWorkspace nat nat
  | MoveBlock "str list" "str option"
  | CloseSelected
  | MovePane "app_workspace \<Rightarrow> pane_id list" str str move_destination bool

fun app_apply :: "hash_order \<Rightarrow> pane_order \<Rightarrow> app_op \<Rightarrow> app_state \<Rightarrow> app_state option" where
  "app_apply iter porder (Event ck e) s = map_option snd (handle_app_event iter porder ck e s)"
| "app_apply iter porder (ProcessExited observed ck i b) s =
     Some (snd (publish_pane_process_exit_if_agent iter observed ck i b s))"
| "app_apply iter porder (DrainNotifications order now) s = Some (snd (drain_due_agent_notifications order now s))"
| "app_apply iter porder (ExpireAgentMetadata scheduled now notify) s =
     Some (snd (expire_agent_metadata iter scheduled now notify s))"
| "app_apply iter porder (FocusPane k i) s = Some (snd (focus_pane_in_workspace k i s))"
| "app_apply iter porder (ZoomPane k i command) s = Some (snd (apply_pane_zoom k i command s))"
| "app_apply iter porder SeeActiveTab s = Some (snd (mark_active_tab_seen porder s))"
| "app_apply iter porder (SwitchWorkspace k) s = Some (switch_workspace k s)"
| "app_apply iter porder (SwitchTab k j) s = Some (snd (switch_workspace_tab k j s))"
| "app_apply iter porder (MoveWorkspace a b) s = map_option snd (move_workspace a b s)"
| "app_apply iter porder (MoveBlock moved before) s = map_option snd (move_workspace_block moved before s)"
| "app_apply iter porder CloseSelected s = close_selected_workspace porder s"
| "app_apply iter porder (MovePane keys dir pane destination focus) s =
     map_option snd (handle_pane_move keys dir pane destination focus s)"

text \<open>Only a pane move can fail: its new workspace needs an unused id, and the workspace it names for a new tab must exist.\<close>

fun app_op_ok :: "app_state \<Rightarrow> app_op \<Rightarrow> bool" where
  "app_op_ok s (MovePane _ _ _ destination _) = (room_left s \<and> names_existing destination s)"
| "app_op_ok s _ = True"

lemma close_selected_inv:
  assumes "app_inv s" "pane_order_ok porder"
  shows "\<exists>s'. close_selected_workspace porder s = Some s' \<and> app_inv s'"
proof (cases "as_workspaces s = []")
  case False
  show ?thesis by (rule close_selected_cases [OF assms False]) blast
qed (use assms in \<open>simp add: close_selected_workspace_def\<close>)

lemma app_apply_inv:
  assumes s: "app_inv s" and o: "pane_order_ok porder" and ok: "app_op_ok s op"
  shows "\<exists>s'. app_apply iter porder op s = Some s' \<and> app_inv s'"
proof -
  have a: "app_ok s" using s by (simp add: app_inv_def)
  note r = rearranged_inv [OF _ s]
  show ?thesis
  proof (cases op)
    case (Event ck e)
    then show ?thesis using event_inv [OF s o, of iter ck e] by auto
  next
    case (ProcessExited observed ck i b)
    then show ?thesis using update_terminal_inv [OF s process_exit_keeps, of iter ck i b iter observed ck]
      by (simp add: publish_pane_process_exit_if_agent_def split_beta)
  next
    case (MoveWorkspace x y)
    then show ?thesis using move_workspace_ok [OF a, of x y] r by auto
  next
    case (MoveBlock moved before)
    then show ?thesis using move_block_ok [OF a, of moved before] r by auto
  next
    case (MovePane keys dir pane destination focus)
    then have "room_left s" "names_existing destination s" using ok by simp_all
    from pane_move_rearranged [OF a this, of keys dir pane focus] MovePane r show ?thesis by auto
  qed (use s close_selected_inv [OF s o] deliver_all_inv [OF s] expire_all_inv [OF s] r [OF focus_rearranged [OF a]]
      r [OF zoom_rearranged [OF a]] r [OF mark_active_seen_rearranged [OF a]] r [OF switch_workspace_rearranged [OF a]]
      r [OF switch_workspace_tab_rearranged [OF a]]
    in \<open>simp_all add: drain_due_agent_notifications_def expire_agent_metadata_def\<close>)
qed

definition app_step :: "hash_order \<Rightarrow> pane_order \<Rightarrow> app_state option \<Rightarrow> app_op \<Rightarrow> app_state option" where
  "app_step iter porder x op = Option.bind x (app_apply iter porder op)"

definition step_ok :: "pane_order \<Rightarrow> app_state option \<Rightarrow> app_op \<Rightarrow> bool" where
  "step_ok porder x op \<longleftrightarrow> pane_order_ok porder \<and> (case x of None \<Rightarrow> True | Some s \<Rightarrow> app_op_ok s op)"

definition app_safe :: "app_state option \<Rightarrow> bool" where
  "app_safe x \<longleftrightarrow> (case x of None \<Rightarrow> False | Some s \<Rightarrow> app_inv s)"

lemma app_step_safe:
  assumes "app_safe x" "step_ok porder x op"
  shows "app_safe (app_step iter porder x op)"
proof -
  obtain s where s: "x = Some s" "app_inv s" using assms(1) by (auto simp: app_safe_def split: option.splits)
  have "pane_order_ok porder" "app_op_ok s op" using assms(2) s(1) by (simp_all add: step_ok_def)
  then obtain s' where "app_apply iter porder op s = Some s'" "app_inv s'" using app_apply_inv [OF s(2)] by blast
  then show ?thesis by (simp add: app_step_def s(1) app_safe_def)
qed

interpretation app: machine "app_step iter porder" "step_ok porder" app_safe for iter porder
  by unfold_locales (rule app_step_safe)

section \<open>Properties\<close>

text \<open>
  C13: no sequence of requests and events panics, as long as a pane move finds an unused id for a new workspace and names
  an existing one for a new tab: at every moment the workspaces are well-formed, no pane or terminal is shown twice, every
  pane has a terminal, every terminal shows its arbitrated state, and the active and the selected workspace exist.
\<close>

theorem app_run_safe:
  assumes "app_inv s" "ok_run (app_step iter porder) (step_ok porder) (Some s) ops"
  shows "\<exists>s'. foldl (app_step iter porder) (Some s) (take n ops) = Some s' \<and> app_inv s'"
proof -
  have "app_safe (Some s)" using assms(1) by (simp add: app_safe_def)
  from app.run_inv_at [OF this assms(2), of n] show ?thesis
    by (simp add: app_safe_def split: option.splits)
qed

text \<open>
  C15: the death of a pane never panics. A pane of no workspace loses only its pending notification; any other goes,
  it alone, and with it its terminal, which is queued to be shut down, and its pending notification.
\<close>

theorem pane_died_effect:
  assumes "app_inv s" "pane_order_ok iter"
  shows "\<exists>s'. handle_pane_died iter i s = Some s' \<and> app_inv s'
    \<and> as_pending s' = filter (\<lambda>(j, _). j \<noteq> i) (as_pending s)
    \<and> (case map_of (all_entries (as_workspaces s)) i of
         None \<Rightarrow> as_workspaces s' = as_workspaces s \<and> as_terminals s' = as_terminals s
           \<and> as_shutdowns s' = as_shutdowns s
       | Some j \<Rightarrow> mset (all_entries (as_workspaces s)) = add_mset (i, j) (mset (all_entries (as_workspaces s')))
           \<and> as_terminals s' = (as_terminals s)(j := None) \<and> set (as_shutdowns s') = insert j (set (as_shutdowns s)))"
proof (cases "map_of (all_entries (as_workspaces s)) i")
  case None
  then have "i \<notin> fst ` set (all_entries (as_workspaces s))" by (simp add: map_of_eq_None_iff)
  from pane_died_unknown [OF assms(1) this] None show ?thesis by auto
next
  case (Some j)
  from pane_died_known [OF assms map_of_SomeD [OF Some]] Some show ?thesis by (auto simp: pane_gone_def)
qed

text \<open>
  Closing the selected workspace never panics. It removes exactly that workspace, or, if it is the main one of a
  group of worktrees, the whole group, and drops and queues for shutdown exactly the terminals shown there; the others keep
  theirs, and an active workspace is left if any workspace is.
\<close>

theorem close_selected_effect:
  assumes "app_inv s" "pane_order_ok iter" "as_workspaces s \<noteq> []"
  shows "\<exists>s'. close_selected_workspace iter s = Some s' \<and> app_inv s'
    \<and> mset (as_workspaces s) = mset (closed_workspaces s) + mset (as_workspaces s')
    \<and> as_workspaces s ! as_selected s \<in> set (closed_workspaces s)
    \<and> as_terminals s' = as_terminals s |` (- snd ` set (all_entries (closed_workspaces s)))
    \<and> set (as_shutdowns s') = set (as_shutdowns s) \<union> snd ` set (all_entries (closed_workspaces s))
    \<and> (as_workspaces s' = [] \<longleftrightarrow> as_active s' = None)"
proof -
  have sel: "as_selected s < length (as_workspaces s)" using assms(1,3) by (simp add: app_inv_def app_ok_def in_range_def)
  then have "as_selected s \<in> set (workspace_close_indices (as_selected s) s)"
    by (auto simp: workspace_close_indices_def Let_def workspace_at_def same_space_def split: option.split)
  then have "as_workspaces s ! as_selected s \<in> set (closed_workspaces s)" by (simp add: closed_workspaces_def)
  moreover have "as_workspaces s' = [] \<longleftrightarrow> as_active s' = None" if "app_inv s'" for s'
    using that by (auto simp: app_inv_def app_ok_def in_range_def split: if_splits)
  ultimately show ?thesis by - (rule close_selected_cases [OF assms], simp)
qed

section \<open>Witnesses\<close>

definition demo_order :: pane_order where
  "demo_order t = sorted_list_of_set (dom (tb_panes t))"

lemma demo_order_ok: "pane_order_ok demo_order"
  by (simp add: pane_order_ok_def demo_order_def)

lemma demo_entries: "all_entries (as_workspaces demo_state) = [(7, lit ''term_1''), (8, lit ''term_2'')]"
  by (simp add: all_entries_def demo_state_ws demo_workspace_entries demo_second_entries)

lemma demo_inv: "app_inv demo_state"
proof -
  have t: "as_terminals demo_state
      = (\<lambda>i. if i \<in> {lit ''term_1'', lit ''term_2''} then Some (terminal_new i (lit ''/'')) else None)"
    "as_pending demo_state = []"
    by (simp_all add: demo_state_def)
  have "terminals_ok (as_terminals demo_state)" by (auto simp: t terminals_ok_def ran_def terminal_new_inv split: if_splits)
  then show ?thesis
    using demo_state_ok by (auto simp: app_inv_def attached_def demo_entries t pending_ok_def dom_def)
qed

theorem app_run_safe_witness:
  "\<exists>s'. foldl (app_step (\<lambda>xs. xs) demo_order) (Some demo_state)
     [CloseSelected, Event \<lparr>ck_now = 1, ck_op = 1, ck_clock = 1, ck_notify = 1\<rparr> (PaneDied 8)] = Some s' \<and> app_inv s'"
  using app_run_safe [OF demo_inv, of "\<lambda>xs. xs" demo_order
      "[CloseSelected, Event \<lparr>ck_now = 1, ck_op = 1, ck_clock = 1, ck_notify = 1\<rparr> (PaneDied 8)]" 2] demo_order_ok
  by (simp add: step_ok_def split: option.split)

theorem pane_died_effect_witness:
  "\<exists>s'. handle_pane_died demo_order 8 demo_state = Some s'
     \<and> mset (all_entries (as_workspaces s')) = {#(7, lit ''term_1'')#} \<and> set (as_shutdowns s') = {lit ''term_2''}"
proof -
  have "as_shutdowns demo_state = []" by (simp add: demo_state_def)
  then show ?thesis
    using pane_died_effect [OF demo_inv demo_order_ok, of 8] by (auto simp: demo_entries add_mset_commute)
qed

theorem close_selected_effect_witness:
  "\<exists>s'. close_selected_workspace demo_order demo_state = Some s' \<and> as_workspaces s' = [demo_second]
     \<and> set (as_shutdowns s') = {lit ''term_1''}"
proof -
  have ne: "as_workspaces demo_state \<noteq> []" and sh: "as_shutdowns demo_state = []"
    by (simp_all add: demo_state_ws) (simp add: demo_state_def)
  have "workspace_close_indices 0 demo_state = [0]"
    by (simp add: workspace_close_indices_def workspace_at_def demo_state_ws) (simp add: demo_workspace_def)
  then have c: "closed_workspaces demo_state = [demo_workspace]" by (simp add: closed_workspaces_def demo_state_ws)
  show ?thesis
    using close_selected_effect [OF demo_inv demo_order_ok ne] sh
    by (auto simp: c demo_state_ws all_entries_def demo_workspace_entries)
qed

end
