(* ===== verification/AppNotify.thy ===== *)
theory AppNotify
  imports AppRuns
begin

text \<open>
  Notifications that were put off: what is delivered when they are due, and that the panes whose completion has not been
  seen are exactly those shown as done.
\<close>

section \<open>Notifications that were put off\<close>

text \<open>What a notification reads: everything but the toast and the pending notifications.\<close>

definition same_view :: "app_state \<Rightarrow> app_state \<Rightarrow> bool" where
  "same_view s s' \<longleftrightarrow>
     as_workspaces s' = as_workspaces s \<and> as_terminals s' = as_terminals s \<and> as_active s' = as_active s
     \<and> as_outer_focus s' = as_outer_focus s \<and> as_sound s' = as_sound s \<and> as_toast_config s' = as_toast_config s"

lemma same_view_delivery: "same_view s s' \<Longrightarrow> agent_notification_delivery k i w l g kind st s' = agent_notification_delivery k i w l g kind st s"
proof -
  assume v: "same_view s s'"
  have "terminal_id_for_pane k i s' = terminal_id_for_pane k i s" "pane_is_in_active_tab k i s' = pane_is_in_active_tab k i s"
    "suppressed_here k i s' = suppressed_here k i s"
    using v by (simp_all add: same_view_def terminal_id_for_pane_def workspace_at_def pane_is_in_active_tab_def suppressed_here_def)
  moreover have "as_terminals s' = as_terminals s" "as_sound s' = as_sound s" using v by (simp_all add: same_view_def)
  ultimately show ?thesis unfolding agent_notification_delivery_def by (simp only:)
qed

text \<open>What is delivered for a notification that is due.\<close>

definition due_delivery :: "app_state \<Rightarrow> pending_notification \<Rightarrow> delivery option" where
  "due_delivery s p =
    (case position (\<lambda>w. wk_id w = pn_workspace_id p) (as_workspaces s) of
       None \<Rightarrow> None
     | Some k \<Rightarrow> agent_notification_delivery k (pn_pane_id p) (pn_workspace_id p) (pn_agent_label p)
                   (pn_known_agent p) (pn_kind p) (pn_state p) s)"

lemma deliver_pending_Some:
  assumes "map_of (as_pending s) i = Some p"
  shows "fst (deliver_pending i s) = due_delivery s p" "same_view s (snd (deliver_pending i s))"
    "as_pending (snd (deliver_pending i s)) = filter (\<lambda>(j, _). j \<noteq> i) (as_pending s)"
proof -
  have v: "same_view s (remove_pending i s)" by (simp add: same_view_def remove_pending_def)
  show "fst (deliver_pending i s) = due_delivery s p"
    using assms same_view_delivery [OF v]
    by (simp add: deliver_pending_def due_delivery_def remove_pending_def Let_def split: option.split)
  show "same_view s (snd (deliver_pending i s))"
    "as_pending (snd (deliver_pending i s)) = filter (\<lambda>(j, _). j \<noteq> i) (as_pending s)"
    using assms by (simp_all add: deliver_pending_def remove_pending_def same_view_def Let_def
        apply_agent_notification_delivery_def split: option.split)
qed

lemma same_view_due: "same_view s s' \<Longrightarrow> due_delivery s' p = due_delivery s p"
  using same_view_delivery [of s s'] by (simp add: due_delivery_def same_view_def split: option.split)

lemma same_view_trans: "same_view s t \<Longrightarrow> same_view t u \<Longrightarrow> same_view s u"
  by (simp add: same_view_def)

lemma map_of_filter_ne: "j \<noteq> i \<Longrightarrow> map_of (filter (\<lambda>(j, _). j \<noteq> i) ps) j = map_of ps j"
  by (induction ps) auto

lemma map_filter_eq: "(\<And>x. x \<in> set xs \<Longrightarrow> f x = g x) \<Longrightarrow> List.map_filter f xs = List.map_filter g xs"
  by (induction xs) (simp_all add: map_filter_simps split: option.split)

lemma deliver_all_result:
  assumes "distinct is" "set is \<subseteq> dom (map_of (as_pending s))"
  shows "fst (deliver_all is s) = List.map_filter (\<lambda>i. due_delivery s (the (map_of (as_pending s) i))) is
    \<and> same_view s (snd (deliver_all is s))
    \<and> as_pending (snd (deliver_all is s)) = filter (\<lambda>(j, _). j \<notin> set is) (as_pending s)"
  using assms
proof (induction "is" arbitrary: s)
  case Nil
  then show ?case by (simp add: same_view_def map_filter_def)
next
  case (Cons i js)
  obtain p where p: "map_of (as_pending s) i = Some p" using Cons.prems by auto
  note d = deliver_pending_Some [OF p]
  let ?s1 = "snd (deliver_pending i s)"
  have m: "map_of (as_pending ?s1) j = map_of (as_pending s) j" if "j \<in> set js" for j
  proof -
    have "j \<noteq> i" using that Cons.prems by auto
    then show ?thesis unfolding d(3) using map_of_filter_ne [of j i] by simp
  qed
  have "set js \<subseteq> dom (map_of (as_pending ?s1))" using m Cons.prems by auto
  note ih = Cons.IH [OF _ this]
  have e: "List.map_filter (\<lambda>j. due_delivery ?s1 (the (map_of (as_pending ?s1) j))) js
      = List.map_filter (\<lambda>j. due_delivery s (the (map_of (as_pending s) j))) js"
    by (rule map_filter_eq) (simp add: m same_view_due [OF d(2)])
  show ?case
    using ih d(1) same_view_trans [OF d(2)] Cons.prems(1) p e
    by (auto simp: split_beta map_filter_def d(3) split: option.split intro!: filter_cong)
qed

text \<open>A drain delivers what is due, in the order of the walk, and keeps the rest.\<close>

definition walk_ok :: "(pane_id list \<Rightarrow> pane_id list) \<Rightarrow> bool" where
  "walk_ok order \<longleftrightarrow> (\<forall>is. mset (order is) = mset is)"

lemma due_panes_set:
  assumes "walk_ok order" "pending_ok (as_pending s)"
  shows "distinct (due_panes order now s)"
    "set (due_panes order now s) = {i. \<exists>p. map_of (as_pending s) i = Some p \<and> pn_deadline p \<le> now}"
proof -
  have m: "mset (order (map fst (as_pending s))) = mset (map fst (as_pending s))" using assms(1) by (simp add: walk_ok_def)
  have "distinct (order (map fst (as_pending s)))"
    using mset_eq_imp_distinct_iff [OF m] assms(2) by (simp add: pending_ok_def)
  then show "distinct (due_panes order now s)" by (simp add: due_panes_def)
  have "set (order (map fst (as_pending s))) = dom (map_of (as_pending s))"
    using mset_eq_setD [OF m] by (simp add: dom_map_of_conv_image_fst)
  then show "set (due_panes order now s) = {i. \<exists>p. map_of (as_pending s) i = Some p \<and> pn_deadline p \<le> now}"
    by (auto simp: due_panes_def split: option.splits)
qed

lemma drain_result:
  assumes "walk_ok order" "pending_ok (as_pending s)" "drain_due_agent_notifications order now s = (ds, s')"
  shows "set ds = {d. \<exists>(i, p) \<in> set (as_pending s). pn_deadline p \<le> now \<and> due_delivery s p = Some d}"
    "as_pending s' = filter (\<lambda>(i, p). now < pn_deadline p) (as_pending s)" "same_view s s'"
proof -
  let ?is = "due_panes order now s"
  note due = due_panes_set [OF assms(1,2), of now]
  have d: "distinct (map fst (as_pending s))" using assms(2) by (simp add: pending_ok_def)
  have "set ?is \<subseteq> dom (map_of (as_pending s))" using due(2) by auto
  note r = deliver_all_result [OF due(1) this, folded drain_due_agent_notifications_def, unfolded assms(3), simplified]
  show "same_view s s'" using r by simp
  have m: "(i, p) \<in> set (as_pending s) \<longleftrightarrow> map_of (as_pending s) i = Some p" for i p
    using map_of_eq_Some_iff [OF d] by simp
  show "set ds = {d. \<exists>(i, p) \<in> set (as_pending s). pn_deadline p \<le> now \<and> due_delivery s p = Some d}"
    using r due(2) by (force simp: map_filter_def m)
  have e: "(case x of (i, _) \<Rightarrow> i \<notin> set ?is) \<longleftrightarrow> (case x of (i, p) \<Rightarrow> now < pn_deadline p)" if "x \<in> set (as_pending s)" for x
    using due(2) m [of "fst x" "snd x"] that by (cases x) auto
  show "as_pending s' = filter (\<lambda>(i, p). now < pn_deadline p) (as_pending s)"
    using r filter_cong [OF refl e] by simp
qed

lemma delivery_fields:
  assumes "due_delivery s p = Some d"
  shows "dl_pane_id d = pn_pane_id p \<and> dl_kind d = pn_kind p \<and> dl_agent_label d = pn_agent_label p
    \<and> dl_workspace_id d = pn_workspace_id p
    \<and> (\<exists>k w q t. workspace_at k s = Some w \<and> wk_id w = pn_workspace_id p \<and> find_pane_state (pn_pane_id p) w = Some q
        \<and> as_terminals s (attached_terminal_id q) = Some t \<and> t_state t = pn_state p
        \<and> effective_agent_label t \<in> {None, Some (pn_agent_label p)})"
proof -
  obtain k where k: "position (\<lambda>w. wk_id w = pn_workspace_id p) (as_workspaces s) = Some k"
    and a: "agent_notification_delivery k (pn_pane_id p) (pn_workspace_id p) (pn_agent_label p)
                   (pn_known_agent p) (pn_kind p) (pn_state p) s = Some d"
    using assms by (auto simp: due_delivery_def split: option.splits)
  have w: "workspace_at k s = Some (as_workspaces s ! k)" "wk_id (as_workspaces s ! k) = pn_workspace_id p"
    using position_Some [OF k] by (auto simp: workspace_at_def)
  obtain t where t: "Option.bind (terminal_id_for_pane k (pn_pane_id p) s) (as_terminals s) = Some t"
    "t_state t = pn_state p" "effective_agent_label t \<in> {None, Some (pn_agent_label p)}"
    using a by (auto simp: agent_notification_delivery_def split: option.splits if_splits)
  then obtain q where "find_pane_state (pn_pane_id p) (as_workspaces s ! k) = Some q"
      "as_terminals s (attached_terminal_id q) = Some t"
    using w by (auto simp: terminal_id_for_pane_def bind_eq_Some_conv)
  moreover have "dl_pane_id d = pn_pane_id p \<and> dl_kind d = pn_kind p \<and> dl_agent_label d = pn_agent_label p
    \<and> dl_workspace_id d = pn_workspace_id p"
    using a by (auto simp: agent_notification_delivery_def Let_def split: option.splits if_splits)
  ultimately show ?thesis using w t by blast
qed

lemma due_delivered:
  assumes "position (\<lambda>w. wk_id w = pn_workspace_id p) (as_workspaces s) = Some k"
    and "find_pane_state (pn_pane_id p) (as_workspaces s ! k) = Some q"
    and "as_terminals s (attached_terminal_id q) = Some t" "t_state t = pn_state p"
    and "effective_agent_label t \<in> {None, Some (pn_agent_label p)}"
    and "\<not> suppressed_here k (pn_pane_id p) s"
  shows "\<exists>d. due_delivery s p = Some d \<and> dl_client_notification d \<noteq> None"
proof -
  have "terminal_id_for_pane k (pn_pane_id p) s = Some (attached_terminal_id q)"
    using assms(1,2) position_Some [OF assms(1)] by (simp add: terminal_id_for_pane_def workspace_at_def)
  then show ?thesis
    using assms by (auto simp: due_delivery_def agent_notification_delivery_def Let_def)
qed

text \<open>The pane of a state shows a terminal in this state.\<close>

definition shows_state :: "app_state \<Rightarrow> pane_id \<Rightarrow> agent_state \<Rightarrow> bool" where
  "shows_state s i st \<longleftrightarrow>
     (\<exists>j t. (i, j) \<in> set (all_entries (as_workspaces s)) \<and> as_terminals s j = Some t \<and> t_state t = st)"

lemma find_pane_state_panes:
  assumes w: "workspace_inv w" and q: "find_pane_state i w = Some q"
  shows "(i, attached_terminal_id q) \<in> panes_of w"
proof -
  have ok: "workspace_ok {} w" using w by (simp add: workspace_inv_def)
  obtain t where t: "find (\<lambda>t. tb_panes t i \<noteq> None) (wk_tabs w) = Some t" "tb_panes t i = Some q"
    using q by (auto simp: find_pane_state_def bind_eq_Some_conv)
  then obtain k where "k < length (wk_tabs w)" "t = wk_tabs w ! k" by (auto simp: find_Some_iff)
  then have "i \<in> live w" using in_tab_live [OF ok] t(2) by blast
  from find_pane_state_entry [OF w this] q show ?thesis by auto
qed

lemma delivered_shows:
  assumes s: "app_ok s" and d: "due_delivery s p = Some d"
  shows "shows_state s (pn_pane_id p) (pn_state p)"
proof -
  obtain k w q t where k: "workspace_at k s = Some w" "find_pane_state (pn_pane_id p) w = Some q"
      "as_terminals s (attached_terminal_id q) = Some t" "t_state t = pn_state p"
    using delivery_fields [OF d] by blast
  then have l: "k < length (as_workspaces s)" "w = as_workspaces s ! k" by (auto simp: workspace_at_def split: if_splits)
  have "(pn_pane_id p, attached_terminal_id q) \<in> panes_of w"
    using find_pane_state_panes [OF _ k(2)] app_ok_workspace(1) [OF s l(1)] l(2) by simp
  then have "(pn_pane_id p, attached_terminal_id q) \<in> set (all_entries (as_workspaces s))"
    using l nth_mem [OF l(1)] unfolding all_entries_def by auto
  with k show ?thesis unfolding shows_state_def by blast
qed

lemma next_deadline_later:
  assumes "as_pending s = filter (\<lambda>(i, p). now < pn_deadline p) ps" "next_pending_agent_notification_deadline s = Some t"
  shows "now < t"
  using min_opt_SomeD [OF assms(2) [unfolded next_pending_agent_notification_deadline_def]] assms(1) by auto

text \<open>A pane whose notification still holds, and that the user does not look at.\<close>

definition still_due :: "app_state \<Rightarrow> pending_notification \<Rightarrow> bool" where
  "still_due s p \<longleftrightarrow>
     (\<exists>k q t. position (\<lambda>w. wk_id w = pn_workspace_id p) (as_workspaces s) = Some k
       \<and> find_pane_state (pn_pane_id p) (as_workspaces s ! k) = Some q
       \<and> as_terminals s (attached_terminal_id q) = Some t \<and> t_state t = pn_state p
       \<and> effective_agent_label t \<in> {None, Some (pn_agent_label p)} \<and> \<not> suppressed_here k (pn_pane_id p) s)"

text \<open>
  C16: when the notifications that were put off are drained, each one that is due is taken off the queue and the
  others stay, so the next deadline is later; a notification is delivered only if it was due and its pane still shows the
  state it announces, and it is delivered if moreover the label is the one announced and the user is not looking at the
  pane.
\<close>

theorem drain_delivers:
  assumes "walk_ok order" and s: "app_inv s" and d: "drain_due_agent_notifications order now s = (ds, s')"
  shows "as_pending s' = filter (\<lambda>(i, p). now < pn_deadline p) (as_pending s)
    \<and> (\<forall>t. next_pending_agent_notification_deadline s' = Some t \<longrightarrow> now < t)
    \<and> (\<forall>d \<in> set ds. \<exists>p. (dl_pane_id d, p) \<in> set (as_pending s) \<and> pn_deadline p \<le> now
         \<and> dl_kind d = pn_kind p \<and> shows_state s (dl_pane_id d) (pn_state p))
    \<and> (\<forall>(i, p) \<in> set (as_pending s). pn_deadline p \<le> now \<and> still_due s p \<longrightarrow>
         (\<exists>d \<in> set ds. dl_pane_id d = i \<and> dl_client_notification d \<noteq> None))"
proof (intro conjI)
  have ok: "app_ok s" and po: "pending_ok (as_pending s)" using s by (simp_all add: app_inv_def)
  note r = drain_result [OF assms(1) po d]
  show "as_pending s' = filter (\<lambda>(i, p). now < pn_deadline p) (as_pending s)" by (rule r(2))
  show "\<forall>t. next_pending_agent_notification_deadline s' = Some t \<longrightarrow> now < t"
    using next_deadline_later [OF r(2)] by blast
  have i: "pn_pane_id p = i" if "(i, p) \<in> set (as_pending s)" for i p
    using po that by (auto simp: pending_ok_def)
  show "\<forall>d \<in> set ds. \<exists>p. (dl_pane_id d, p) \<in> set (as_pending s) \<and> pn_deadline p \<le> now
         \<and> dl_kind d = pn_kind p \<and> shows_state s (dl_pane_id d) (pn_state p)"
  proof
    fix e assume "e \<in> set ds"
    then obtain i p where p: "(i, p) \<in> set (as_pending s)" "pn_deadline p \<le> now" "due_delivery s p = Some e"
      unfolding r(1) by auto
    then have "dl_pane_id e = i" "dl_kind e = pn_kind p" "shows_state s i (pn_state p)"
      using delivery_fields [OF p(3)] delivered_shows [OF ok p(3)] i [OF p(1)] by simp_all
    with p show "\<exists>p. (dl_pane_id e, p) \<in> set (as_pending s) \<and> pn_deadline p \<le> now
         \<and> dl_kind e = pn_kind p \<and> shows_state s (dl_pane_id e) (pn_state p)" by blast
  qed
  show "\<forall>(i, p) \<in> set (as_pending s). pn_deadline p \<le> now \<and> still_due s p \<longrightarrow>
         (\<exists>d \<in> set ds. dl_pane_id d = i \<and> dl_client_notification d \<noteq> None)"
  proof (clarify)
    fix i p assume p: "(i, p) \<in> set (as_pending s)" "pn_deadline p \<le> now" "still_due s p"
    obtain e where e: "due_delivery s p = Some e" "dl_client_notification e \<noteq> None"
      using due_delivered p(3) unfolding still_due_def by blast
    moreover have "dl_pane_id e = i" using delivery_fields [OF e(1)] i [OF p(1)] by simp
    moreover have "e \<in> set ds" unfolding r(1) using p e by auto
    ultimately show "\<exists>d \<in> set ds. dl_pane_id d = i \<and> dl_client_notification d \<noteq> None" by blast
  qed
qed

definition demo_pending :: pending_notification where
  "demo_pending = \<lparr>pn_pane_id = 7, pn_workspace_id = lit ''w1'', pn_agent_label = lit ''claude'', pn_known_agent = None,
     pn_kind = Finished, pn_state = UnknownState, pn_deadline = 5\<rparr>"

definition waiting_state :: app_state where
  "waiting_state = demo_state\<lparr>as_pending := [(7, demo_pending)], as_outer_focus := Some False\<rparr>"

theorem drain_delivers_witness:
  "\<exists>ds s'. drain_due_agent_notifications (\<lambda>is. is) 5 waiting_state = (ds, s') \<and> as_pending s' = []
     \<and> (\<exists>d \<in> set ds. dl_pane_id d = 7)"
proof -
  have "app_inv (demo_state\<lparr>as_pending := [(7, demo_pending)]\<rparr>)"
    by (rule pending_inv [OF demo_inv]) (simp add: pending_ok_def demo_pending_def)
  moreover have "app_ok (s\<lparr>as_outer_focus := b\<rparr>) = app_ok s" for s b by (rule app_ok_cong) simp_all
  ultimately have inv: "app_inv waiting_state" by (simp add: waiting_state_def app_inv_def attached_def)
  have p: "as_pending waiting_state = [(7, demo_pending)]" by (simp add: waiting_state_def)
  have ws: "as_workspaces waiting_state = [demo_workspace, demo_second]" "as_outer_focus waiting_state = Some False"
    "as_terminals waiting_state (lit ''term_1'') = Some (terminal_new (lit ''term_1'') (lit ''/''))"
    by (simp_all add: waiting_state_def demo_state_ws) (simp add: demo_state_def)
  have q: "find_pane_state 7 demo_workspace = Some (pane_state_new (lit ''term_1''))"
    by (simp add: find_pane_state_def demo_workspace_def)
  have "position (\<lambda>w. wk_id w = lit ''w1'') [demo_workspace, demo_second] = Some 0"
    by (simp add: demo_state_ws)
  then have "still_due waiting_state demo_pending"
    unfolding still_due_def
    by (intro exI [of _ 0] exI [of _ "pane_state_new (lit ''term_1'')"] exI [of _ "terminal_new (lit ''term_1'') (lit ''/'')"])
      (simp add: demo_pending_def ws q pane_state_new_def suppressed_here_def active_tab_suppresses_notifications_def,
       simp add: terminal_new_def effective_agent_label_def effective_authority_def)
  moreover have "walk_ok (\<lambda>is. is)" by (simp add: walk_ok_def)
  ultimately show ?thesis
    using drain_delivers [OF _ inv, of "\<lambda>is. is" 5] p
    by (cases "drain_due_agent_notifications (\<lambda>is. is) 5 waiting_state") (auto simp: demo_pending_def)
qed

end
