(* ===== verification/TerminalChanges.thy ===== *)
theory TerminalChanges
  imports AppEvents
begin

text \<open>
  What an operation on a terminal reports: its change, if it reports one, goes from the state shown before to the one
  shown after, and without one the shown state is the same.
\<close>

definition leads :: "agent_state \<Rightarrow> state_change option \<Rightarrow> agent_state \<Rightarrow> bool" where
  "leads before change after \<longleftrightarrow>
    (case change of
       None \<Rightarrow> after = before
     | Some c \<Rightarrow> sc_previous_state c = before \<and> sc_state c = after)"

definition honest :: "terminal_state \<Rightarrow> state_mutation option \<times> terminal_state \<Rightarrow> bool" where
  "honest s r \<longleftrightarrow> leads (t_state s) (Option.bind (fst r) tm_change) (t_state (snd r))"

lemma honest_None [simp]: "honest s (None, s') \<longleftrightarrow> t_state s' = t_state s"
  by (simp add: honest_def leads_def)

lemma clear_pending_state [simp]: "t_state (clear_expiry_pending_for_hidden_metadata s) = t_state s"
  by (simp add: clear_expiry_pending_for_hidden_metadata_def)

lemma recompute_leads:
  assumes "bo_state prev = t_state s"
  shows "leads (t_state s) (fst (recompute_effective_state iter prev now s)) (t_state (snd (recompute_effective_state iter prev now s)))"
  using assms by (simp add: recompute_effective_state_def Let_def leads_def)

lemma mutation_honest:
  assumes "calm s s'" "bo_state prev = t_state s"
  shows "honest s (mutation_of iter prev now a b s')"
  using recompute_leads [of prev s' iter now] assms by (simp add: calm_def mutation_of_def honest_def split_beta)

lemma honest_from: "t_state s' = t_state s \<Longrightarrow> honest s' r \<Longrightarrow> honest s r"
  by (simp add: honest_def)

lemma quiet_state: "quiet s s' \<Longrightarrow> t_state s' = t_state s"
  by (simp add: quiet_def calm_def)

lemma accept_state: "accept_hook_report x n s = (ok, s1) \<Longrightarrow> t_state s1 = t_state s"
  using quiet_state [OF quiet_accept [of s x n]] by simp

lemma install_authority_honest:
  "honest s (install_authority iter source label st message r takeover reanchor now clock s)"
proof -
  note c = calm_authority(1) [OF calm_authority(2) [OF calm_install]]
  show ?thesis unfolding install_authority_def Let_def by (rule mutation_honest [OF c]) simp
qed

lemma set_hook_authority_honest:
  "honest s (set_hook_authority_at iter source label st message r n now clock s)"
proof -
  obtain route s1 where route:
    "route_full_lifecycle_hook_report source label st message r n now s = (route, s1)" by fastforce
  with quiet_route [of s source label st message r n now] have s1: "t_state s1 = t_state s"
    using quiet_state by (metis snd_conv)
  have f: "t_state (forget_sequence source s1) = t_state s" using quiet_state [OF quiet_forget_sequence] s1 by simp
  have i: "honest s (install_authority iter source label st message r' takeover reanchor now clock s3)"
    if "t_state s3 = t_state s" for r' takeover reanchor s3
    by (rule honest_from [OF that install_authority_honest])
  show ?thesis using accept_state [of source n s1] accept_state [of source n "forget_sequence source s1"] s1 f i
    by (auto simp: set_hook_authority_at_def route Let_def split: report_route.split prod.split bool.split)
qed

lemma clear_hook_authority_honest: "honest s (clear_hook_authority_with_mutation iter source n now clock s)"
proof -
  have m: "honest s (mutation_of iter (before_op_of iter now s1) now a b
      ((suppress_current_authority HookClear clock s1)\<lparr>t_hook_authority := None, t_persisted_agent_session := None\<rparr>))"
    if "t_state s1 = t_state s" for s1 a b
    by (rule honest_from [OF that]) (auto intro!: mutation_honest calm_authority quiet_calm [OF quiet_suppress_current])
  show ?thesis using accept_state m
    by (auto simp: clear_hook_authority_with_mutation_def Let_def split: option.split prod.split bool.split)
qed

lemma release_honest: "honest s (release_agent_with_mutation iter source label n now clock s)"
proof -
  have q: "calm s1 (suppress_report source label HookClear clock s1)" for s1
    by (rule quiet_calm [OF quiet_suppress_report])
  have c: "calm s1 (clear_agent_name (forget_detection (suppress_report source label HookClear clock s1)))" for s1
    by (rule calm_trans [OF q quiet_but_detection])
  have m: "honest s (mutation_of iter (before_op_of iter now s1) now a b s2)"
    if "t_state s1 = t_state s" "calm s1 s2" for s1 s2 a b
    by (rule honest_from [OF that(1) mutation_honest [OF that(2)]]) simp
  show ?thesis using accept_state q c
    by (auto simp: release_agent_with_mutation_def Let_def split: prod.split bool.split
        intro!: m calm_authority)
qed

lemma await_session_honest:
  assumes "full_lifecycle_hook_authority source label"
  shows "honest s (await_session iter source label r n start_source now s)"
proof -
  have q: "quiet s (awaiting source label r now k s)" for k by (rule quiet_awaiting [OF assms])
  show ?thesis
    using quiet_state [OF q] calm_trans [OF quiet_calm [OF q] calm_clear_suppression]
    by (auto simp: await_session_def Let_def awaiting_def split: option.split intro!: mutation_honest)
qed

lemma install_session_honest:
  "honest s (install_session iter source label r allowed takeover replaced now clock s)"
  unfolding install_session_def Let_def by (rule mutation_honest [OF calm_install_session [OF refl refl]]) simp

lemma accept_session_honest: "honest s (accept_session iter source label r start_source now clock s)"
  by (auto simp: accept_session_def Let_def intro!: install_session_honest)

lemma session_start_honest:
  "honest s (set_agent_session_ref_for_session_start iter source label session_ref n start_source now clock s)"
proof (cases session_ref)
  case None
  then show ?thesis by (simp add: set_agent_session_ref_for_session_start_def)
next
  case (Some r)
  let ?rm = "s\<lparr>t_suppressed := hm_remove source (t_suppressed s)\<rparr>"
  have a: "honest s (accept_session iter source label r start_source now clock t)" if "t_state t = t_state s" for t
    by (rule honest_from [OF that accept_session_honest])
  have w: "honest s (await_session iter source label r n start_source now t)"
    if "t_state t = t_state s" "full_lifecycle_hook_authority source label" for t
    by (rule honest_from [OF that(1) await_session_honest [OF that(2)]])
  have "t_state ?rm = t_state s" by simp
  then show ?thesis
    using a w quiet_state [OF quiet_await_selection] accept_state [of source n s] accept_state [of source n ?rm]
    by (auto simp: set_agent_session_ref_for_session_start_def Some Let_def split: prod.split bool.split)
qed

lemma set_detected_honest:
  "honest s (always (set_detected_state_with_screen_signals_at iter g fallback visible_blocker process_exited now clock) s)"
proof -
  have r: "leads (t_state s) (fst (recompute_effective_state iter (before_op_of iter now s) now s'))
      (t_state (snd (recompute_effective_state iter (before_op_of iter now s) now s')))" if "calm s s'" for s'
    using recompute_leads [of "before_op_of iter now s" s' iter now] that by (simp add: calm_def)
  from r [OF calm_keep_agent] r [OF calm_refl] r [OF calm_detection] show ?thesis
    by (simp add: set_detected_state_with_screen_signals_at_def always_def honest_def Let_def split_beta)
qed

lemma detected_process_honest: "honest s (always (set_detected_agent_process_at iter g now clock) s)"
  using set_detected_honest [of s iter "Some g" UnknownState False False now clock]
  by (simp add: set_detected_agent_process_at_def always_def honest_def Let_def split_beta)

lemma expire_metadata_honest: "honest s (expire_agent_metadata_at iter scheduled now s)"
proof -
  have "leads (t_state s) (fst (recompute_effective_state iter prev now (s\<lparr>t_agent_metadata := m\<rparr>)))
      (t_state (snd (recompute_effective_state iter prev now (s\<lparr>t_agent_metadata := m\<rparr>))))"
    if "bo_state prev = t_state s" for prev m
    using recompute_leads [of prev "s\<lparr>t_agent_metadata := m\<rparr>" iter now] that by simp
  then show ?thesis
    by (simp add: expire_agent_metadata_at_def Let_def split_beta honest_def before_op_of_def leads_def [of _ None])
qed

lemma set_metadata_honest: "honest s (set_agent_metadata iter now r s)"
proof -
  obtain res s1 where acc: "accept_metadata_report (mr_source r) (mr_seq r) False
      (metadata_report_agent (mr_source r) (mr_agent_label r) (mr_applies_to_source r)) s = (res, s1)"
    by fastforce
  have s1: "t_state s1 = t_state s" using quiet_state [OF quiet_accept_metadata] acc by (metis snd_conv)
  let ?s2 = "drop_expired now (mr_source r) s1"
  let ?s3 = "arm_expiry r (store_report iter now r ?s2)"
  have s2: "t_state ?s2 = t_state s" using quiet_state [OF quiet_drop_expired] s1 by simp
  have s3: "t_state ?s3 = t_state s"
    using quiet_state [OF quiet_trans [OF quiet_store quiet_arm], of r iter now r ?s2] s2 by simp
  have "bo_state (before_op_of iter now ?s2) = t_state ?s3" using s2 s3 by simp
  note l = recompute_leads [OF this, of iter now]
  obtain change s4 where r: "recompute_effective_state iter (before_op_of iter now ?s2) now ?s3 = (change, s4)" by fastforce
  have "leads (t_state s) change (t_state s4)" using l s3 by (simp add: r)
  then show ?thesis using s1
    by (auto simp: set_agent_metadata_def acc Let_def r honest_def leads_def split: sum.split bool.split option.splits)
qed

text \<open>What every event does to a terminal is reported.\<close>

definition reports :: "terminal_update \<Rightarrow> bool" where
  "reports f \<longleftrightarrow> (\<forall>t. honest t (f t))"

lemma terminal_update_reports: "terminal_update_of iter ck e = Some (i, f) \<Longrightarrow> reports f"
  by (cases e) (auto split: if_splits
      simp: reports_def set_detected_honest detected_process_honest set_hook_authority_honest
        session_start_honest clear_hook_authority_honest release_honest set_metadata_honest)

lemma process_exit_reports: "reports (process_exit_update iter observed ck)"
  by (simp add: reports_def process_exit_update_def Let_def set_detected_honest)

end
