(* ===== verification/AppUnseen.thy ===== *)
theory AppUnseen
  imports AppRuns
begin

text \<open>
  The terminals of panes that have not been seen: no request makes a pane unseen, and a pane that moves takes its flag
  along.
\<close>

section \<open>Panes that are not seen\<close>

definition tab_unseen :: "tab \<Rightarrow> terminal_id set" where
  "tab_unseen t = attached_terminal_id ` {p \<in> ran (tb_panes t). \<not> seen p}"

definition tabs_unseen :: "tab list \<Rightarrow> terminal_id set" where
  "tabs_unseen ts = (\<Union>t \<in> set ts. tab_unseen t)"

definition unseen :: "app_workspace list \<Rightarrow> terminal_id set" where
  "unseen ws = (\<Union>w \<in> set ws. tabs_unseen (wk_tabs w))"

definition moved_unseen :: "moved_pane \<Rightarrow> terminal_id set" where
  "moved_unseen m = attached_terminal_id ` {p \<in> {mp_pane_state m}. \<not> seen p}"

lemma tabs_unseen_simps [simp]:
  "tabs_unseen [] = {}" "tabs_unseen (t # ts) = tab_unseen t \<union> tabs_unseen ts"
  "tabs_unseen (ts @ us) = tabs_unseen ts \<union> tabs_unseen us"
  by (auto simp: tabs_unseen_def)

lemma unseen_simps [simp]:
  "unseen [] = {}" "unseen (w # ws) = tabs_unseen (wk_tabs w) \<union> unseen ws" "unseen (ws @ vs) = unseen ws \<union> unseen vs"
  by (auto simp: unseen_def)

lemma tabs_unseen_update:
  assumes "tab_unseen t \<subseteq> A" "tabs_unseen ts \<subseteq> A"
  shows "tabs_unseen (ts[k := t]) \<subseteq> A"
proof -
  have "tabs_unseen (ts[k := t]) \<subseteq> tabs_unseen (t # ts)"
    unfolding tabs_unseen_def using set_update_subset_insert [of ts k t] by (intro UN_mono) simp_all
  with assms show ?thesis by auto
qed

lemma unseen_update:
  assumes "tabs_unseen (wk_tabs w) \<subseteq> A" "unseen ws \<subseteq> A"
  shows "unseen (ws[k := w]) \<subseteq> A"
proof -
  have "unseen (ws[k := w]) \<subseteq> unseen (w # ws)"
    unfolding unseen_def using set_update_subset_insert [of ws k w] by (intro UN_mono) simp_all
  with assms show ?thesis by auto
qed

lemma tabs_unseen_nth: "k < length ts \<Longrightarrow> tab_unseen (ts ! k) \<subseteq> tabs_unseen ts"
  unfolding tabs_unseen_def by (intro UN_upper nth_mem)

lemma unseen_nth: "k < length ws \<Longrightarrow> tabs_unseen (wk_tabs (ws ! k)) \<subseteq> unseen ws"
  unfolding unseen_def by (intro UN_upper nth_mem)

lemma remove_nth_subset: "set (remove_nth k xs) \<subseteq> set xs"
  by (auto simp: remove_nth_def dest: in_set_takeD in_set_dropD)

lemma tab_unseen_mono: "ran (tb_panes t') \<subseteq> ran (tb_panes t) \<Longrightarrow> tab_unseen t' \<subseteq> tab_unseen t"
  unfolding tab_unseen_def by blast

lemma ran_without: "ran (m(i := None)) \<subseteq> ran m"
  by (auto simp: ran_def)

lemma ran_with: "ran (m(i \<mapsto> p)) \<subseteq> insert p (ran m)"
  by (auto simp: ran_def)

lemma tabs_unseen_remove: "tabs_unseen (remove_nth k ts) \<subseteq> tabs_unseen ts"
  using remove_nth_subset [of k ts] by (auto simp: tabs_unseen_def)

lemma unseen_remove: "unseen (remove_nth k ws) \<subseteq> unseen ws"
  using remove_nth_subset [of k ws] by (auto simp: unseen_def)

section \<open>Operations on tabs and workspaces\<close>

lemma promote_panes [simp]: "tb_panes (promote x t) = tb_panes t"
  by (simp add: promote_def split: option.split)

lemma without_unseen:
  "tb_panes t' = tb_panes t \<or> tb_panes t' = (tb_panes t)(i := None) \<Longrightarrow> tab_unseen t' \<subseteq> tab_unseen t"
  using ran_without [of "tb_panes t" i] by (intro tab_unseen_mono) fastforce

lemma detach_unseen:
  assumes "detach_pane i t = Some (r, t')"
  shows "tab_unseen t' \<subseteq> tab_unseen t"
proof (rule without_unseen)
  show "tb_panes t' = tb_panes t \<or> tb_panes t' = (tb_panes t)(i := None)"
    using assms by (auto simp: detach_pane_def Let_def split: if_splits option.splits)
qed

lemma take_unseen:
  assumes "tab_take_pane_for_move i t = Some (r, t')"
  shows "tab_unseen t' \<subseteq> tab_unseen t" "r = Some m \<Longrightarrow> moved_unseen m \<subseteq> tab_unseen t"
proof -
  show "tab_unseen t' \<subseteq> tab_unseen t"
  proof (rule without_unseen)
    show "tb_panes t' = tb_panes t \<or> tb_panes t' = (tb_panes t)(i := None)"
      using assms by (auto simp: tab_take_pane_for_move_def Let_def split: if_splits option.splits)
  qed
  show "moved_unseen m \<subseteq> tab_unseen t" if "r = Some m"
    using assms that by (auto simp: tab_take_pane_for_move_def tab_unseen_def moved_unseen_def ran_def split: option.splits)
qed

lemma insert_unseen:
  assumes "insert_existing_pane target m d r focus t = (x, t')"
  shows "tab_unseen t' \<subseteq> tab_unseen t \<union> moved_unseen m"
proof -
  have "tb_panes t' = tb_panes t \<or> tb_panes t' = (tb_panes t)(mp_pane_id m \<mapsto> mp_pane_state m)"
    using assms by (auto simp: insert_existing_pane_def split: prod.splits bool.splits)
  then have "ran (tb_panes t') \<subseteq> insert (mp_pane_state m) (ran (tb_panes t))"
    using ran_with [of "tb_panes t" "mp_pane_id m" "mp_pane_state m"] by fastforce
  then show ?thesis unfolding tab_unseen_def moved_unseen_def by blast
qed

lemma new_tab_unseen: "tab_unseen (tab_from_existing_pane n label m) \<subseteq> moved_unseen m"
  by (simp add: tab_from_existing_pane_def tab_unseen_def moved_unseen_def)

lemma mark_seen_unseen [simp]: "tab_unseen (mark_seen t) = {}"
  by (auto simp: mark_seen_def tab_unseen_def ran_def)

lemma tab_same_unseen [simp]:
  "tab_unseen (set_zoomed z t) = tab_unseen t" "tab_unseen (focus_tab_pane i t) = tab_unseen t"
  by (simp_all add: set_zoomed_def focus_tab_pane_def tab_unseen_def)

lemma same_tabs [simp]:
  "wk_tabs (unregister_pane i w) = wk_tabs w" "wk_tabs (unregister_moved_pane i w) = wk_tabs w"
  "wk_tabs (register_if_new i w) = wk_tabs w" "wk_tabs (adjust_active_tab_after_removal k w) = wk_tabs w"
  by (simp_all add: unregister_pane_def unregister_moved_pane_def register_if_new_def register_new_pane_with_number_def
      adjust_active_tab_after_removal_def)

lemma switch_unseen: "tabs_unseen (wk_tabs (switch_tab k w)) \<subseteq> tabs_unseen (wk_tabs w)"
  by (simp add: switch_tab_def tabs_unseen_update)

lemma update_tab_unseen:
  assumes "\<And>t. tab_unseen (f t) \<subseteq> tab_unseen t"
  shows "tabs_unseen (wk_tabs (update_tab k f w)) \<subseteq> tabs_unseen (wk_tabs w)"
proof (cases "k < length (wk_tabs w)")
  case True
  have "tab_unseen (f (wk_tabs w ! k)) \<subseteq> tabs_unseen (wk_tabs w)"
    using assms tabs_unseen_nth [OF True] by blast
  then show ?thesis using tabs_unseen_update by (simp add: update_tab_def)
qed (simp add: update_tab_def)

lemma find_tab_in: "find_tab_index_for_pane i w = Some k \<Longrightarrow> k < length (wk_tabs w)"
  using find_tab_index_Some by blast

lemma replaced_unseen: "k < length ts \<Longrightarrow> tab_unseen t \<subseteq> tab_unseen (ts ! k) \<Longrightarrow> tabs_unseen (ts[k := t]) \<subseteq> tabs_unseen ts"
  using tabs_unseen_nth [of k ts] by (intro tabs_unseen_update) auto

lemma remove_pane_unseen:
  assumes "workspace_remove_pane i w = Some (b, w')"
  shows "tabs_unseen (wk_tabs w') \<subseteq> tabs_unseen (wk_tabs w)"
proof -
  consider "wk_tabs w' = wk_tabs w" | k where "wk_tabs w' = remove_nth k (wk_tabs w)"
    | k t' r where "wk_tabs w' = (wk_tabs w)[k := t']" "k < length (wk_tabs w)" "detach_pane i (wk_tabs w ! k) = Some (r, t')"
    using assms find_tab_in
    by (fastforce simp: workspace_remove_pane_def drop_pane_def tab_remove_pane_def Let_def
        split: if_splits option.splits prod.splits)
  then show ?thesis
  proof cases
    case (3 k t' r)
    from replaced_unseen [OF 3(2) detach_unseen [OF 3(3)]] show ?thesis by (simp add: 3(1))
  qed (simp_all add: tabs_unseen_remove)
qed

lemma take_pane_unseen:
  assumes "take_pane_for_move i w = Some (x, w')"
  shows "tabs_unseen (wk_tabs w') \<subseteq> tabs_unseen (wk_tabs w)"
    "x = Some tk \<Longrightarrow> moved_unseen (tk_moved tk) \<subseteq> tabs_unseen (wk_tabs w)"
proof -
  consider "wk_tabs w' = wk_tabs w" "x = None"
    | k t' r where "k < length (wk_tabs w)" "tab_take_pane_for_move i (wk_tabs w ! k) = Some (r, t')"
      "map_option tk_moved x = r" "wk_tabs w' = (wk_tabs w)[k := t'] \<or> wk_tabs w' = remove_nth k (wk_tabs w)"
  proof (cases "find_tab_index_for_pane i w")
    case None
    then show ?thesis using that(1) assms by (simp add: take_pane_for_move_def)
  next
    case (Some k)
    obtain r t' where t: "tab_take_pane_for_move i (wk_tabs w ! k) = Some (r, t')"
      using assms Some by (fastforce simp: take_pane_for_move_def Let_def split: if_splits option.splits)
    have "map_option tk_moved x = r \<and> (wk_tabs w' = (wk_tabs w)[k := t'] \<or> wk_tabs w' = remove_nth k (wk_tabs w))"
      using assms Some t by (cases r) (auto simp: take_pane_for_move_def Let_def split: if_splits)
    then show ?thesis using that(2) [OF find_tab_in [OF Some] t] by blast
  qed
  note cases = this
  from cases show "tabs_unseen (wk_tabs w') \<subseteq> tabs_unseen (wk_tabs w)"
  proof cases
    case (2 k t' r)
    from replaced_unseen [OF 2(1) take_unseen(1) [OF 2(2)]] tabs_unseen_remove [of k "wk_tabs w"] 2(4) show ?thesis by auto
  qed simp
  from cases show "moved_unseen (tk_moved tk) \<subseteq> tabs_unseen (wk_tabs w)" if "x = Some tk"
  proof cases
    case (2 k t' r)
    have "r = Some (tk_moved tk)" using 2(3) that by simp
    from take_unseen(2) [OF 2(2) this] tabs_unseen_nth [OF 2(1)] show ?thesis by blast
  qed (use that in simp)
qed

lemma insert_moved_unseen:
  assumes "insert_moved_pane_into_tab j target m d r focus w = (x, w')"
  shows "tabs_unseen (wk_tabs w') \<subseteq> tabs_unseen (wk_tabs w) \<union> moved_unseen m"
    "x = Inl m' \<Longrightarrow> m' = m"
proof -
  obtain y t' where t: "insert_existing_pane target m d r focus (wk_tabs w ! j) = (y, t')" by fastforce
  have y: "y = Inl m' \<Longrightarrow> m' = m" for m'
    using t by (auto simp: insert_existing_pane_def split: prod.splits bool.splits)
  show "tabs_unseen (wk_tabs w') \<subseteq> tabs_unseen (wk_tabs w) \<union> moved_unseen m"
  proof (cases "j < length (wk_tabs w)")
    case True
    have "wk_tabs w' = (wk_tabs w)[j := t']"
      using assms t True by (auto simp: insert_moved_pane_into_tab_def split: sum.splits)
    moreover have "tab_unseen t' \<subseteq> tabs_unseen (wk_tabs w) \<union> moved_unseen m"
      using insert_unseen [OF t] tabs_unseen_nth [OF True] by blast
    ultimately show ?thesis using tabs_unseen_update by simp
  qed (use assms in \<open>simp add: insert_moved_pane_into_tab_def\<close>)
  show "m' = m" if "x = Inl m'"
    using assms t y that by (auto simp: insert_moved_pane_into_tab_def split: if_splits sum.splits)
qed

lemma new_workspace_unseen:
  "workspace_from_existing_pane label tab_label cwd m c = (w, c') \<Longrightarrow> tabs_unseen (wk_tabs w) \<subseteq> moved_unseen m"
  by (auto simp: workspace_from_existing_pane_def Let_def split: prod.splits dest: new_tab_unseen [THEN subsetD])

lemma created_tab_unseen:
  "tabs_unseen (wk_tabs (snd (create_tab_from_existing_pane m label w))) \<subseteq> tabs_unseen (wk_tabs w) \<union> moved_unseen m"
  by (auto simp: create_tab_from_existing_pane_def Let_def dest: new_tab_unseen [THEN subsetD])

section \<open>Operations on the application\<close>

definition all_unseen :: "app_state \<Rightarrow> terminal_id set" where
  "all_unseen s = unseen (as_workspaces s)"

lemma workspace_at_unseen: "workspace_at k s = Some w \<Longrightarrow> tabs_unseen (wk_tabs w) \<subseteq> all_unseen s"
  using unseen_nth [of k "as_workspaces s"] by (auto simp: workspace_at_def all_unseen_def split: if_splits)

lemma update_workspace_unseen:
  assumes "\<And>w. tabs_unseen (wk_tabs (f w)) \<subseteq> tabs_unseen (wk_tabs w)"
  shows "all_unseen (update_workspace k f s) \<subseteq> all_unseen s"
proof (cases "k < length (as_workspaces s)")
  case True
  have "tabs_unseen (wk_tabs (f (as_workspaces s ! k))) \<subseteq> unseen (as_workspaces s)"
    using assms unseen_nth [OF True] by blast
  then show ?thesis using unseen_update by (simp add: update_workspace_def all_unseen_def)
qed (simp add: update_workspace_def all_unseen_def)

lemma same_workspaces_unseen [simp]:
  "all_unseen (mark_session_dirty s) = all_unseen s" "all_unseen (record_pane_focus_after_navigation f s) = all_unseen s"
  "all_unseen (record_pane_focus_change f k i s) = all_unseen s" "all_unseen (remove_alias_shadowed_by_new_pane i s) = all_unseen s"
  "all_unseen (s\<lparr>as_previous_focus := g\<rparr>) = all_unseen s" "all_unseen (s\<lparr>as_terminal_mode := b\<rparr>) = all_unseen s"
  by (simp_all add: all_unseen_def mark_session_dirty_def record_pane_focus_after_navigation_def
      record_pane_focus_change_def remove_alias_shadowed_by_new_pane_def Let_def split: option.split)

lemma put_workspace_unseen:
  "tabs_unseen (wk_tabs w) \<subseteq> A \<Longrightarrow> all_unseen s \<subseteq> A \<Longrightarrow> all_unseen (s\<lparr>as_workspaces := (as_workspaces s)[k := w]\<rparr>) \<subseteq> A"
  using unseen_update by (simp add: all_unseen_def)

lemma switch_workspace_tab_unseen: "all_unseen (snd (switch_workspace_tab k j s)) \<subseteq> all_unseen s"
proof (cases "workspace_at k s")
  case (Some w)
  have "tabs_unseen (wk_tabs (switch_tab j w)) \<subseteq> all_unseen s"
    using switch_unseen workspace_at_unseen [OF Some] by blast
  then show ?thesis using Some unseen_update
    by (simp add: switch_workspace_tab_def Let_def) (simp add: all_unseen_def mark_session_dirty_def)
qed (simp add: switch_workspace_tab_def)

lemma switch_workspace_unseen: "all_unseen (switch_workspace k s) \<subseteq> all_unseen s"
proof (cases "workspace_at k s")
  case (Some w)
  have "tabs_unseen (wk_tabs (switch_tab j w)) \<subseteq> all_unseen s" for j
    using switch_unseen workspace_at_unseen [OF Some] by blast
  then show ?thesis using Some unseen_update
    by (simp add: switch_workspace_def Let_def) (simp add: all_unseen_def mark_session_dirty_def)
qed (simp add: switch_workspace_def)

lemma focus_unseen: "all_unseen (snd (focus_pane_in_workspace k i s)) \<subseteq> all_unseen s"
proof -
  have "all_unseen (update_workspace k (update_tab j (focus_tab_pane i)) (snd (switch_workspace_tab k j s))) \<subseteq> all_unseen s" for j
    by (rule order_trans [OF update_workspace_unseen switch_workspace_tab_unseen]) (simp add: update_tab_unseen)
  then show ?thesis using switch_workspace_tab_unseen
    by (simp add: focus_pane_in_workspace_def Let_def split: option.split)
qed

lemma zoom_unseen: "all_unseen (snd (apply_pane_zoom k i command s)) \<subseteq> all_unseen s"
proof -
  have "all_unseen (update_workspace k (update_tab j (set_zoomed z)) (snd (focus_pane_in_workspace k i s))) \<subseteq> all_unseen s" for j z
    by (rule order_trans [OF update_workspace_unseen focus_unseen]) (simp add: update_tab_unseen)
  then show ?thesis using focus_unseen
    by (simp add: apply_pane_zoom_def Let_def split_beta split: option.split)
qed

lemma mark_active_unseen: "all_unseen (snd (mark_active_tab_seen iter s)) \<subseteq> all_unseen s"
proof -
  have "all_unseen (update_workspace k (\<lambda>w. update_tab (wk_active_tab w) mark_seen w) s) \<subseteq> all_unseen s" for k
    by (rule update_workspace_unseen) (simp add: update_tab_unseen)
  then show ?thesis by (simp add: mark_active_tab_seen_def split: option.split)
qed

text \<open>A pane that moves takes its flag along.\<close>

lemma leave_unseen:
  assumes "tabs_unseen (wk_tabs w) \<subseteq> all_unseen s"
  shows "all_unseen (leave_workspace cross emptied k i p w s) \<subseteq> all_unseen s"
proof -
  have "unseen ((as_workspaces s)[k := v]) \<subseteq> all_unseen s" if "wk_tabs v = wk_tabs w" for v
    using unseen_update [of v "all_unseen s" "as_workspaces s" k] assms that by (simp add: all_unseen_def)
  note u = this [of w] this [of "unregister_moved_pane i w"]
  note u' = order_trans [OF unseen_remove [of k] u(1)] order_trans [OF unseen_remove [of k] u(2)]
  show ?thesis
    using u u' by (simp add: leave_workspace_def close_emptied_workspace_def all_unseen_def [of "_ :: app_state"] Let_def)
qed

lemma unseen_insert_nth: "unseen (insert_nth k w ws) \<subseteq> tabs_unseen (wk_tabs w) \<union> unseen ws"
proof -
  have "unseen (take k ws) \<union> unseen (drop k ws) = unseen ws" by (metis append_take_drop_id unseen_simps(3))
  then show ?thesis by (auto simp: insert_nth_def)
qed

lemma recover_unseen:
  assumes "recover_failed_pane_move c m s = Some s'" "moved_unseen m \<subseteq> A" "all_unseen s \<subseteq> A"
  shows "all_unseen s' \<subseteq> A"
proof (cases "parse_workspace_id (rc_workspace_id c) s")
  case (Some k)
  then obtain w where w: "workspace_at k s = Some w" using assms(1) by (auto simp: recover_failed_pane_move_def)
  have "tabs_unseen (wk_tabs (snd (create_tab_from_existing_pane m (rc_tab_label c) w))) \<subseteq> A"
    using created_tab_unseen workspace_at_unseen [OF w] assms(2,3) by blast
  from put_workspace_unseen [OF this assms(3), of k] assms(1) Some w show ?thesis
    by (auto simp: recover_failed_pane_move_def)
next
  case None
  obtain w counter where w: "workspace_from_existing_pane (rc_workspace_label c) (rc_tab_label c) (rc_identity_cwd c) m (as_counter s)
      = (w, counter)" by fastforce
  have "tabs_unseen (wk_tabs w) \<subseteq> A" using new_workspace_unseen [OF w] assms(2) by blast
  then have i: "unseen (insert_nth k (w\<lparr>wk_id := x, wk_worktree_space := y\<rparr>) (as_workspaces s)) \<subseteq> A" for k x y
    using unseen_insert_nth [of k "w\<lparr>wk_id := x, wk_worktree_space := y\<rparr>" "as_workspaces s"] assms(3) by (auto simp: all_unseen_def)
  have "as_workspaces s' = insert_nth (min (rc_source_ws_idx c) (length (as_workspaces s)))
      (w\<lparr>wk_id := rc_workspace_id c, wk_worktree_space := rc_worktree_space c\<rparr>) (as_workspaces s)"
    using assms(1) None w by (auto simp: recover_failed_pane_move_def Let_def mark_session_dirty_def)
  then show ?thesis unfolding all_unseen_def using i by simp
qed

lemma place_unseen:
  assumes p: "place_moved_pane dir r c m j focus s = Some (x, s')" and m: "moved_unseen m \<subseteq> A" and s: "all_unseen s \<subseteq> A"
  shows "all_unseen s' \<subseteq> A"
proof (cases r)
  case (ExistingTab i target split ratio cross)
  show ?thesis
  proof (cases "parse_tab_id i s")
    case None
    then show ?thesis using p ExistingTab recover_unseen [OF _ m s] by (auto simp: place_moved_pane_def)
  next
    case (Some y)
    obtain k tab_idx where y: "parse_tab_id i s = Some (k, tab_idx)" using Some by (cases y) simp
    obtain w where w: "workspace_at k s = Some w" using p ExistingTab y by (auto simp: place_moved_pane_def split: option.splits)
    obtain z w' where z: "insert_moved_pane_into_tab tab_idx target m (split_direction_to_layout split) ratio focus w = (z, w')"
      by fastforce
    have "tabs_unseen (wk_tabs w') \<subseteq> A"
      using insert_moved_unseen(1) [OF z] workspace_at_unseen [OF w] m s by blast
    note u = put_workspace_unseen [OF this s, of k]
    show ?thesis
    proof (cases z)
      case (Inl m')
      then have "m' = m" using insert_moved_unseen(2) [OF z] by simp
      then show ?thesis using p ExistingTab y w z Inl recover_unseen [OF _ m u] by (auto simp: place_moved_pane_def)
    next
      case (Inr _)
      then show ?thesis using p ExistingTab y w z u by (auto simp: place_moved_pane_def)
    qed
  qed
next
  case (NewTab i label)
  show ?thesis
  proof (cases "parse_workspace_id i s")
    case None
    then show ?thesis using p NewTab recover_unseen [OF _ m s] by (auto simp: place_moved_pane_def)
  next
    case (Some k)
    obtain w where w: "workspace_at k s = Some w" using p NewTab Some by (auto simp: place_moved_pane_def split: option.splits)
    have "tabs_unseen (wk_tabs (snd (create_tab_from_existing_pane m label w))) \<subseteq> A"
      using created_tab_unseen workspace_at_unseen [OF w] m s by blast
    from put_workspace_unseen [OF this s, of k] show ?thesis
      using p NewTab Some w by (auto simp: place_moved_pane_def split_beta)
  qed
next
  case (NewWorkspace label tab_label)
  obtain w counter where w: "workspace_from_existing_pane label tab_label
      (case as_terminals s j of Some t \<Rightarrow> t_cwd t | None \<Rightarrow> dir) m (as_counter s) = (w, counter)" by fastforce
  have "as_workspaces s' = as_workspaces s @ [w]" using p NewWorkspace w by (auto simp: place_moved_pane_def Let_def)
  moreover have "tabs_unseen (wk_tabs w) \<subseteq> A" using new_workspace_unseen [OF w] m by blast
  ultimately show ?thesis using s by (simp add: all_unseen_def)
qed

lemma finish_unseen: "all_unseen (finish_pane_move f focus k j i s) \<subseteq> all_unseen s"
  using switch_workspace_tab_unseen [of k j s] by (simp add: finish_pane_move_def Let_def)

lemma move_resolved_unseen:
  assumes h: "move_resolved dir r c p k i j focus w s = Some (out, s')" and w: "workspace_at k s = Some w"
  shows "all_unseen s' \<subseteq> all_unseen s"
proof -
  obtain x w' where t: "take_pane_for_move i w = Some (x, w')"
    using h by (auto simp: move_resolved_def Let_def split: option.splits)
  have w': "tabs_unseen (wk_tabs w') \<subseteq> all_unseen s" using take_pane_unseen(1) [OF t] workspace_at_unseen [OF w] by blast
  show ?thesis
  proof (cases x)
    case None
    then have "s' = s\<lparr>as_workspaces := (as_workspaces s)[k := w']\<rparr>" using h t by (simp add: move_resolved_def)
    then show ?thesis using put_workspace_unseen [OF w'] by simp
  next
    case (Some tk)
    let ?s2 = "leave_workspace (is_cross_workspace r (rc_workspace_id c)) (tk_workspace_empty tk) k i p w' s"
    have m: "moved_unseen (tk_moved tk) \<subseteq> all_unseen s" using take_pane_unseen(2) [OF t Some] workspace_at_unseen [OF w] by blast
    obtain y s3 where y: "place_moved_pane dir r c (tk_moved tk) j focus ?s2 = Some (y, s3)"
      using h t Some by (auto simp: move_resolved_def Let_def split: option.splits)
    have s3: "all_unseen s3 \<subseteq> all_unseen s" by (rule place_unseen [OF y m leave_unseen [OF w']])
    show ?thesis
    proof (cases y)
      case None
      then show ?thesis using h t Some y s3 by (simp add: move_resolved_def Let_def)
    next
      case (Some z)
      obtain k' j' where "z = (k', j')" by fastforce
      then have "s' = finish_pane_move (current_pane_focus_target s) focus k' j' (mp_pane_id (tk_moved tk)) s3"
        using h t \<open>x = Some tk\<close> y Some by (simp add: move_resolved_def Let_def)
      then show ?thesis using finish_unseen s3 by blast
    qed
  qed
qed

lemma pane_move_unseen:
  assumes "handle_pane_move keys dir pane d focus s = Some (out, s')"
  shows "all_unseen s' \<subseteq> all_unseen s"
  using assms move_resolved_unseen
  by (fastforce simp: handle_pane_move_def Let_def split: option.splits prod.splits if_splits sum.splits)

lemma pane_died_unseen:
  assumes "handle_pane_died iter i s = Some s'"
  shows "all_unseen s' \<subseteq> all_unseen s"
proof (cases "position (\<lambda>w. find_tab_index_for_pane i w \<noteq> None) (as_workspaces s)")
  case None
  then have "as_workspaces s' = as_workspaces s" using assms by (auto simp: handle_pane_died_def Let_def)
  then show ?thesis by (simp add: all_unseen_def)
next
  case (Some k)
  have k: "k < length (as_workspaces s)" using position_Some [OF Some] by simp
  obtain closes w where w: "workspace_remove_pane i (as_workspaces s ! k) = Some (closes, w)"
    using assms Some by (auto simp: handle_pane_died_def Let_def split: option.splits)
  have "tabs_unseen (wk_tabs w) \<subseteq> all_unseen s"
    using remove_pane_unseen [OF w] unseen_nth [OF k] by (auto simp: all_unseen_def)
  then have u: "unseen ((as_workspaces s)[k := w]) \<subseteq> all_unseen s" by (rule unseen_update) (simp add: all_unseen_def)
  have "as_workspaces s' = (as_workspaces s)[k := w] \<or> as_workspaces s' = remove_nth k ((as_workspaces s)[k := w])"
    using assms Some w by (auto simp: handle_pane_died_def Let_def close_dead_frame)
  then show ?thesis
    unfolding all_unseen_def [of s'] using u order_trans [OF unseen_remove u, of k] by (elim disjE) simp_all
qed

lemma set_unseen: "set ws \<subseteq> set vs \<Longrightarrow> unseen ws \<subseteq> unseen vs"
  unfolding unseen_def by (intro UN_mono) simp_all

end
