(* ===== verification/AppSeen.thy ===== *)
theory AppSeen
  imports AppUnseen AppNotify TerminalChanges
begin

text \<open>
  Which completions have not been seen: a pane that is not seen is shown as done, and its terminal is idle, whatever
  requests and events the application handles.
\<close>

section \<open>Entering a change\<close>

text \<open>The panes of a state with their records.\<close>

definition tab_states :: "tab \<Rightarrow> (pane_id \<times> pane_state) list" where
  "tab_states t = map (\<lambda>i. (i, the (tb_panes t i))) (pane_ids (tb_layout t))"

definition pane_states :: "app_workspace list \<Rightarrow> (pane_id \<times> pane_state) list" where
  "pane_states ws = concat (map (\<lambda>w. concat (map tab_states (wk_tabs w))) ws)"

lemma states_entries: "all_entries ws = map (apsnd attached_terminal_id) (pane_states ws)"
proof -
  have "tab_entries = (\<lambda>t. map (apsnd attached_terminal_id) (tab_states t))"
    by (rule ext) (simp add: tab_entries_def tab_states_def)
  then show ?thesis by (simp add: all_entries_def entries_def pane_states_def map_concat comp_def)
qed

lemma states_tab:
  assumes "tab_inv t"
  shows "set (tab_states t) = {(i, p). tb_panes t i = Some p}"
proof -
  have "dom (tb_panes t) = set (pane_ids (tb_layout t))" using assms by (simp add: tab_inv_def)
  then show ?thesis by (force simp: tab_states_def)
qed

lemma states_unseen:
  assumes "\<forall>w \<in> set ws. workspace_inv w"
  shows "unseen ws = {attached_terminal_id p |i p. (i, p) \<in> set (pane_states ws) \<and> \<not> seen p}"
proof -
  have "tab_unseen t = {attached_terminal_id p |i p. (i, p) \<in> set (tab_states t) \<and> \<not> seen p}"
    if "w \<in> set ws" "t \<in> set (wk_tabs w)" for w t
  proof -
    have "tab_inv t" using assms that by (auto simp: workspace_inv_def workspace_ok_def tabs_ok_def)
    from states_tab [OF this] show ?thesis by (auto simp: tab_unseen_def ran_def)
  qed
  then have "unseen ws = (\<Union>w \<in> set ws. \<Union>t \<in> set (wk_tabs w).
      {attached_terminal_id p |i p. (i, p) \<in> set (tab_states t) \<and> \<not> seen p})"
    by (simp add: unseen_def tabs_unseen_def)
  then show ?thesis by (auto simp: pane_states_def)
qed

definition put_seen :: "pane_id \<Rightarrow> bool \<Rightarrow> pane_id \<times> pane_state \<Rightarrow> pane_id \<times> pane_state" where
  "put_seen i b x = (fst x, if fst x = i then seen_update (\<lambda>_. b) (snd x) else snd x)"

lemma put_seen_other: "i \<notin> fst ` set xs \<Longrightarrow> map (put_seen i b) xs = xs"
  by (intro map_idI) (auto simp: put_seen_def image_iff)

lemma concat_put:
  assumes "distinct (map fst (concat xs))" "k < length xs" "i \<in> fst ` set (xs ! k)"
  shows "concat (xs[k := map (put_seen i b) (xs ! k)]) = map (put_seen i b) (concat xs)"
  using assms
proof (induction xs arbitrary: k)
  case (Cons x xs)
  show ?case
  proof (cases k)
    case 0
    then have "i \<notin> fst ` set (concat xs)" using Cons.prems by auto
    then show ?thesis using 0 put_seen_other [of i "concat xs" b] by simp
  next
    case (Suc j)
    have i: "i \<in> fst ` set (concat xs)" using Cons.prems Suc nth_mem [of j xs] by fastforce
    then have "i \<notin> fst ` set x" using Cons.prems(1) by auto
    then show ?thesis using Cons.IH [of j] Cons.prems Suc put_seen_other [of i x b] by simp
  qed
qed simp

lemma tab_put:
  assumes "tab_inv t"
  shows "tab_states (t\<lparr>tb_panes := (tb_panes t)(i := map_option (seen_update (\<lambda>_. b)) (tb_panes t i))\<rparr>)
    = map (put_seen i b) (tab_states t)"
proof -
  have "set (pane_ids (tb_layout t)) = dom (tb_panes t)" using assms by (simp add: tab_inv_def)
  then show ?thesis by (auto simp: tab_states_def put_seen_def)
qed

lemma set_seen_states:
  assumes w: "workspace_inv w" and i: "find_tab_index_for_pane i w \<noteq> None" 
  shows "concat (map tab_states (wk_tabs (set_seen i b w))) = map (put_seen i b) (concat (map tab_states (wk_tabs w)))"
proof -
  obtain j where j: "find_tab_index_for_pane i w = Some j" using i by blast
  note t = find_tab_index_Some [OF j]
  have inv: "tab_inv (wk_tabs w ! j)" by (rule workspace_ok_tab [OF workspace_inv_ok [OF w]]) (use t in blast)
  have "map fst (concat (map tab_states (wk_tabs w))) = map fst (entries (wk_tabs w))"
    by (simp add: entries_def tab_states_def tab_entries_def map_concat comp_def)
  then have d: "distinct (map fst (concat (map tab_states (wk_tabs w))))"
    using w by (simp add: workspace_inv_def workspace_ok_def tabs_ok_def)
  have "i \<in> fst ` set (tab_states (wk_tabs w ! j))" using t states_tab [OF inv] by force
  then have m: "i \<in> fst ` set (map tab_states (wk_tabs w) ! j)" "j < length (map tab_states (wk_tabs w))" using t by simp_all
  from concat_put [OF d m(2,1), of b] t show ?thesis
    by (simp add: set_seen_def j update_tab_def map_update tab_put [OF inv])
qed

lemma update_seen_states:
  assumes s: "spaces_ok ws" and k: "k < length ws" and i: "find_tab_index_for_pane i (ws ! k) \<noteq> None"
  shows "pane_states (ws[k := set_seen i b (ws ! k)]) = map (put_seen i b) (pane_states ws)"
proof -
  let ?st = "\<lambda>w. concat (map tab_states (wk_tabs w))"
  have w: "workspace_inv (ws ! k)" using s k by (simp add: spaces_ok_def)
  have "map fst (pane_states ws) = map fst (all_entries ws)" by (simp add: states_entries)
  then have d: "distinct (map fst (concat (map ?st ws)))" using s by (simp add: spaces_ok_def panes_apart_def pane_states_def)
  obtain j where j: "find_tab_index_for_pane i (ws ! k) = Some j" using i by blast
  note t = find_tab_index_Some [OF j]
  have "tab_inv (wk_tabs (ws ! k) ! j)" by (rule workspace_ok_tab [OF workspace_inv_ok [OF w]]) (use t in blast)
  from states_tab [OF this] t have "i \<in> fst ` set (tab_states (wk_tabs (ws ! k) ! j))" by force
  then have "i \<in> fst ` set (?st (ws ! k))" using t by force
  then have m: "i \<in> fst ` set (map ?st ws ! k)" "k < length (map ?st ws)" using k by simp_all
  from concat_put [OF d m(2,1), of b] set_seen_states [OF w i, of b] k show ?thesis
    by (simp add: pane_states_def map_update)
qed

section \<open>Unseen panes are idle\<close>

definition seen_ok :: "app_state \<Rightarrow> bool" where
  "seen_ok s \<longleftrightarrow> (\<forall>j \<in> all_unseen s. \<forall>t. as_terminals s j = Some t \<longrightarrow> t_state t = Idle)"

lemma seen_ok_less:
  assumes "seen_ok s" "all_unseen s' \<subseteq> all_unseen s"
    and "\<And>j t'. as_terminals s' j = Some t' \<Longrightarrow> \<exists>t. as_terminals s j = Some t \<and> t_state t' = t_state t"
  shows "seen_ok s'"
  using assms unfolding seen_ok_def by (metis subsetD)

lemma seen_ok_same: "seen_ok s \<Longrightarrow> all_unseen s' \<subseteq> all_unseen s \<Longrightarrow> as_terminals s' = as_terminals s \<Longrightarrow> seen_ok s'"
  by (rule seen_ok_less) auto

lemma seen_ok_sub: "seen_ok s \<Longrightarrow> all_unseen s' \<subseteq> all_unseen s \<Longrightarrow> as_terminals s' = as_terminals s |` A \<Longrightarrow> seen_ok s'"
  by (rule seen_ok_less) (auto simp: restrict_map_def split: if_splits)

lemma record_workspaces [simp]:
  "as_workspaces (snd (record_or_deliver now k i c s)) = as_workspaces s"
  "as_terminals (snd (record_or_deliver now k i c s)) = as_terminals s"
  by (simp_all add: record_or_deliver_def remove_pending_def Let_def split: option.split)

lemma delivery_workspaces [simp]:
  "as_workspaces (apply_agent_notification_delivery d s) = as_workspaces s"
  "as_terminals (apply_agent_notification_delivery d s) = as_terminals s"
  by (simp_all add: apply_agent_notification_delivery_def split: option.split)

lemma change_workspaces:
  assumes "pane_seen k i s = Some flag"
  shows "as_workspaces (snd (apply_pane_state_change now k i c b s))
      = as_workspaces (update_workspace k (set_seen i (seen_after (suppressed_here k i s) b c flag)) s)"
    "as_terminals (snd (apply_pane_state_change now k i c b s)) = as_terminals s"
proof -
  let ?s1 = "update_workspace k (set_seen i (seen_after (suppressed_here k i s) b c flag)) s"
  obtain d s2 where r: "record_or_deliver now k i c ?s1 = (d, s2)" by fastforce
  have "as_workspaces s2 = as_workspaces ?s1" "as_terminals s2 = as_terminals ?s1"
    using record_workspaces [of now k i c ?s1] by (simp_all add: r)
  then have "as_workspaces (snd (apply_pane_state_change now k i c b s)) = as_workspaces ?s1"
    "as_terminals (snd (apply_pane_state_change now k i c b s)) = as_terminals ?s1"
    using assms r by (cases b; cases d; simp add: apply_pane_state_change_def Let_def)+
  then show "as_workspaces (snd (apply_pane_state_change now k i c b s)) = as_workspaces ?s1"
    "as_terminals (snd (apply_pane_state_change now k i c b s)) = as_terminals s"
    by (simp_all add: update_workspace_def)
qed

text \<open>A pane and its terminal in a workspace.\<close>

definition pane_in :: "app_workspace list \<Rightarrow> nat \<times> pane_id \<times> terminal_id \<Rightarrow> bool" where
  "pane_in ws x = (case x of (k, i, j) \<Rightarrow> k < length ws \<and> (i, j) \<in> panes_of (ws ! k))"

lemma pane_in_found:
  assumes s: "spaces_ok ws" and x: "pane_in ws (k, i, j)"
  shows "find_tab_index_for_pane i (ws ! k) \<noteq> None" "\<exists>p. find_pane_state i (ws ! k) = Some p \<and> attached_terminal_id p = j
    \<and> (i, p) \<in> set (pane_states ws)"
proof -
  have k: "k < length ws" and ij: "(i, j) \<in> panes_of (ws ! k)" using x by (simp_all add: pane_in_def)
  have w: "workspace_inv (ws ! k)" using s k by (simp add: spaces_ok_def)
  have live: "i \<in> live (ws ! k)" using imageI [OF ij, of fst] by (simp add: live_panes)
  then show f: "find_tab_index_for_pane i (ws ! k) \<noteq> None" using in_workspace_iff [OF w] by blast
  obtain p where p: "find_pane_state i (ws ! k) = Some p" "(i, attached_terminal_id p) \<in> panes_of (ws ! k)"
    by (rule find_pane_state_entry [OF w live])
  have "distinct (map fst (entries (wk_tabs (ws ! k))))" using w by (simp add: workspace_inv_def workspace_ok_def tabs_ok_def)
  then have j: "attached_terminal_id p = j" using distinct_fst_unique p(2) ij by blast
  obtain t where f: "find (\<lambda>t. tb_panes t i \<noteq> None) (wk_tabs (ws ! k)) = Some t" "tb_panes t i = Some p"
    using p(1) by (auto simp: find_pane_state_def bind_eq_Some_conv)
  then have t: "t \<in> set (wk_tabs (ws ! k))" "tb_panes t i = Some p" by (auto simp: find_Some_iff)
  then have "tab_inv t" using w by (auto simp: workspace_inv_def workspace_ok_def tabs_ok_def)
  with t have "(i, p) \<in> set (tab_states t)" using states_tab by simp
  then have "(i, p) \<in> set (pane_states ws)" unfolding pane_states_def using t(1) nth_mem [OF k] by auto
  with p(1) j show "\<exists>p. find_pane_state i (ws ! k) = Some p \<and> attached_terminal_id p = j \<and> (i, p) \<in> set (pane_states ws)" by blast
qed

lemma entered_unseen:
  assumes s: "app_ok s" and x: "pane_in (as_workspaces s) (k, i, j)"
    and e: "snd (apply_pane_state_change now k i c b s) = s'"
  shows "all_unseen s' \<subseteq> (all_unseen s - {j}) \<union> {l. l = j \<and> sc_state c = Idle}"
    "as_terminals s' = as_terminals s"
proof -
  let ?ws = "as_workspaces s"
  have sp: "spaces_ok ?ws" using s by (simp add: app_ok_def)
  have k: "k < length ?ws" using x by (simp add: pane_in_def)
  obtain p where p: "find_pane_state i (?ws ! k) = Some p" "attached_terminal_id p = j" "(i, p) \<in> set (pane_states ?ws)"
    using pane_in_found(2) [OF sp x] by blast
  have flag: "pane_seen k i s = Some (seen p)" using p(1) k by (simp add: pane_seen_def workspace_at_def)
  define flag' where "flag' = seen_after (suppressed_here k i s) b c (seen p)"
  note ch = change_workspaces [OF flag, of now c b, folded flag'_def, unfolded e]
  show "as_terminals s' = as_terminals s" by (rule ch(2))
  have ws: "as_workspaces s' = ?ws[k := set_seen i flag' (?ws ! k)]" using ch(1) k by (simp add: update_workspace_def)
  have st: "pane_states (as_workspaces s') = map (put_seen i flag') (pane_states ?ws)"
    unfolding ws by (rule update_seen_states [OF sp k pane_in_found(1) [OF sp x]])
  have "rearranged s (update_workspace k (set_seen i flag') s)" using update_workspace_rearranged [OF s] set_seen_ok by blast
  then have "\<forall>w \<in> set (as_workspaces s'). workspace_inv w"
    using ch(1) by (simp add: rearranged_def app_ok_def spaces_ok_def)
  note un = states_unseen [OF this, folded all_unseen_def]
  have "\<forall>w \<in> set ?ws. workspace_inv w" using sp by (simp add: spaces_ok_def)
  note un0 = states_unseen [OF this, folded all_unseen_def]
  have d: "distinct (map fst (pane_states ?ws))" "distinct (map (attached_terminal_id \<circ> snd) (pane_states ?ws))"
    using sp by (simp_all add: spaces_ok_def panes_apart_def states_entries comp_def)
  show "all_unseen s' \<subseteq> (all_unseen s - {j}) \<union> {l. l = j \<and> sc_state c = Idle}"
  proof
    fix l assume "l \<in> all_unseen s'"
    then obtain i' q where q: "(i', q) \<in> set (pane_states ?ws)" and l: "l = attached_terminal_id (snd (put_seen i flag' (i', q)))"
      "\<not> seen (snd (put_seen i flag' (i', q)))"
      unfolding un st by (auto simp: put_seen_def split: if_splits)
    show "l \<in> (all_unseen s - {j}) \<union> {l. l = j \<and> sc_state c = Idle}"
    proof (cases "i' = i")
      case True
      then have "q = p" using d(1) q p(3) by (metis eq_key_imp_eq_value)
      then have "l = j" "\<not> flag'" using l p(2) True by (simp_all add: put_seen_def)
      then show ?thesis by (auto simp: flag'_def seen_after_def split: if_splits)
    next
      case False
      then have "l = attached_terminal_id q" "\<not> seen q" using l by (simp_all add: put_seen_def)
      moreover have "attached_terminal_id q \<noteq> j"
      proof
        assume "attached_terminal_id q = j"
        then have "(i', q) = (i, p)" using inj_onD [OF conjunct2 [OF d(2) [unfolded distinct_map]] _ q p(3)] p(2) by simp
        then show False using False by simp
      qed
      ultimately show ?thesis using q unfolding un0 by blast
    qed
  qed
qed

lemma find_pane_in:
  assumes s: "app_ok s" and f: "find_pane i s = Some (k, p)"
  shows "pane_in (as_workspaces s) (k, i, attached_terminal_id p)"
proof -
  have k: "k < length (as_workspaces s)" by (rule find_pane_Some [OF f])
  have "find_pane_state i (as_workspaces s ! k) = Some p" using f by (auto simp: find_pane_def split: option.splits)
  then show ?thesis using find_pane_state_panes [OF app_ok_workspace(1) [OF s k]] k by (simp add: pane_in_def)
qed

text \<open>A terminal in a new state, whose change is entered into its pane.\<close>

lemma entered_seen_ok:
  assumes s: "seen_ok s" and ok: "app_ok s1" and ws: "as_workspaces s1 = as_workspaces s"
    and x: "pane_in (as_workspaces s) (k, i, j)"
    and t: "as_terminals s1 j = Some t'" "sc_state c = t_state t'"
    and others: "\<And>l t2. l \<noteq> j \<Longrightarrow> as_terminals s1 l = Some t2 \<Longrightarrow> as_terminals s l = Some t2"
  shows "seen_ok (snd (apply_pane_state_change now k i c b s1))"
  unfolding seen_ok_def
proof (intro ballI allI impI)
  fix l t2
  let ?s' = "snd (apply_pane_state_change now k i c b s1)"
  have u: "all_unseen s1 = all_unseen s" by (simp add: all_unseen_def ws)
  note e = entered_unseen [OF ok x [folded ws] refl, of now c b]
  assume l: "l \<in> all_unseen ?s'" and t2: "as_terminals ?s' l = Some t2"
  show "t_state t2 = Idle"
  proof (cases "l = j")
    case True
    then show ?thesis using e l t t2 by auto
  next
    case False
    then have "l \<in> all_unseen s" "as_terminals s l = Some t2" using e l t2 others u by auto
    then show ?thesis using s by (simp add: seen_ok_def)
  qed
qed

lemma count_terminals:
  "as_workspaces (count_state_change j c s) = as_workspaces s"
  "l \<noteq> j \<Longrightarrow> as_terminals (count_state_change j c s) l = as_terminals s l"
  "as_terminals s j = Some t \<Longrightarrow> \<exists>t'. as_terminals (count_state_change j c s) j = Some t' \<and> t_state t' = t_state t"
  by (simp_all add: count_state_change_def Let_def)

lemma settled_state [simp]: "t_state (settled ck t) = t_state t"
  by (rule quiet_state [OF quiet_settled])

lemma set_terminal_seen:
  assumes "seen_ok s" "as_terminals s j = Some t" "t_state t' = t_state t"
  shows "seen_ok (set_terminal j t' s)"
  using assms by (intro seen_ok_less [OF assms(1)]) (auto simp: set_terminal_def all_unseen_def split: if_splits)

lemma seen_ok_dirty [simp]: "seen_ok (mark_session_dirty s) = seen_ok s"
  by (simp add: seen_ok_def)

lemma update_terminal_seen:
  assumes s: "app_inv s" and seen: "seen_ok s" and f: "reports f" and keeps: "keeps_terminal f"
  shows "seen_ok (snd (update_terminal_state iter ck i force f s))"
proof -
  have ok: "app_ok s" using s by (simp add: app_inv_def)
  have h: "honest t (f t)" for t using f by (simp add: reports_def)
  show ?thesis
  proof (rule update_terminal_cases [of iter ck i force f s])
    fix p t t1 assume t: "as_terminals s (attached_terminal_id p) = Some t" "f t = (None, t1)"
      and e: "update_terminal_state iter ck i force f s = (None, set_terminal (attached_terminal_id p) t1 s)"
    have "t_state t1 = t_state t" using h [of t] by (simp add: t)
    from set_terminal_seen [OF seen t(1) this] show ?thesis by (simp add: e)
  next
    fix p t m t1 s1 assume t: "as_terminals s (attached_terminal_id p) = Some t" "f t = (Some m, t1)" "tm_change m = None"
      and e: "update_terminal_state iter ck i force f s = (None, s1)"
      and s1: "s1 = set_terminal (attached_terminal_id p) (settled ck t1) s
       \<or> s1 = mark_session_dirty (set_terminal (attached_terminal_id p) (settled ck t1) s)"
    have "t_state (settled ck t1) = t_state t" using h [of t] by (simp add: t honest_def leads_def)
    from set_terminal_seen [OF seen t(1) this] s1 show ?thesis by (auto simp: e)
  next
    fix k p t m t1 c b s1 assume p: "find_pane i s = Some (k, p)"
      and t: "as_terminals s (attached_terminal_id p) = Some t" "f t = (Some m, t1)"
      and c: "tm_change m = Some c \<or> tm_change m = None \<and> c = unchanged_effective_state_change iter (ck_now ck) (settled ck t1)"
      and e: "snd (update_terminal_state iter ck i force f s)
         = snd (apply_pane_state_change (ck_notify ck) k i c b (count_state_change (attached_terminal_id p) c s1))"
      and s1: "s1 = set_terminal (attached_terminal_id p) (settled ck t1) s
       \<or> s1 = mark_session_dirty (set_terminal (attached_terminal_id p) (settled ck t1) s)"
    let ?j = "attached_terminal_id p" and ?s2 = "count_state_change (attached_terminal_id p) c s1"
    have st: "sc_state c = t_state t1"
      using h [of t] c by (auto simp: t honest_def leads_def unchanged_effective_state_change_def Let_def)
    have ws: "as_workspaces s1 = as_workspaces s" and j: "as_terminals s1 ?j = Some (settled ck t1)"
      and l: "\<And>l. l \<noteq> ?j \<Longrightarrow> as_terminals s1 l = as_terminals s l"
      using s1 by (auto simp: set_terminal_def)
    have "terminal_inv t1" using keeps app_inv_terminal [OF s t(1)] t(2) unfolding keeps_terminal_def by (metis snd_conv)
    then have "app_inv s1" using set_terminal_inv [OF s quiet_inv [OF quiet_settled]] s1 by auto
    then have ok2: "app_ok ?s2" using count_inv by (simp add: app_inv_def)
    obtain t' where t': "as_terminals ?s2 ?j = Some t'" "t_state t' = t_state t1"
      using count_terminals(3) [OF j, of c] by auto
    show ?thesis
      unfolding e
      by (rule entered_seen_ok [OF seen ok2 _ find_pane_in [OF ok p] t'(1)])
        (simp_all add: count_terminals ws st t'(2) l)
  qed (use seen in simp)
qed

text \<open>The expiry of metadata walks panes that stay where they are.\<close>

lemma pane_in_change:
  assumes s: "app_ok s" and x: "pane_in (as_workspaces s) x"
  shows "pane_in (as_workspaces (snd (apply_pane_state_change now k i c b s))) x"
proof (cases "pane_seen k i s")
  case None
  then show ?thesis using x by (simp add: apply_pane_state_change_def)
next
  case (Some flag)
  let ?f = "set_seen i (seen_after (suppressed_here k i s) b c flag)"
  obtain k' i' j where y: "x = (k', i', j)" by (cases x) simp
  have "panes_of (?f (as_workspaces s ! k)) = panes_of (as_workspaces s ! k)" if "k < length (as_workspaces s)"
    using set_seen_ok [OF app_ok_workspace(1) [OF s that]] by blast
  then show ?thesis
    unfolding change_workspaces(1) [OF Some] using x y by (auto simp: pane_in_def update_workspace_def nth_list_update)
qed

lemma expire_pane_seen:
  assumes s: "app_inv s" and seen: "seen_ok s" and x: "pane_in (as_workspaces s) x"
  shows "seen_ok (snd (expire_pane_metadata iter scheduled now notify x s))
    \<and> (pane_in (as_workspaces s) y \<longrightarrow> pane_in (as_workspaces (snd (expire_pane_metadata iter scheduled now notify x s))) y)"
proof -
  obtain k i j where y: "x = (k, i, j)" by (cases x) simp
  have ok: "app_ok s" using s by (simp add: app_inv_def)
  show ?thesis
  proof (cases "pane_seen k i s = None \<or> as_terminals s j = None")
    case True
    then show ?thesis using seen by (auto simp: y expire_pane_metadata_def split: option.split)
  next
    case False
    then obtain b t where bt: "pane_seen k i s = Some b" "as_terminals s j = Some t" by auto
    obtain m t' where m: "expire_agent_metadata_at iter scheduled now t = (m, t')" by fastforce
    have h: "honest t (m, t')" using expire_metadata_honest [of t iter scheduled now] by (simp add: m)
    have "terminal_inv t'" using expire_metadata_inv [OF app_inv_terminal [OF s bt(2)]] m by (metis snd_conv)
    then have ok1: "app_ok (set_terminal j t' s)" using set_terminal_inv [OF s] by (simp add: app_inv_def)
    have ws: "as_workspaces (set_terminal j t' s) = as_workspaces s" by (simp add: set_terminal_def)
    show ?thesis
    proof (cases "Option.bind m tm_change")
      case None
      then have "t_state t' = t_state t" using h by (simp add: honest_def leads_def)
      from set_terminal_seen [OF seen bt(2) this] show ?thesis
        using bt m None ws by (simp add: y expire_pane_metadata_def Let_def)
    next
      case (Some c)
      have e: "snd (expire_pane_metadata iter scheduled now notify x s)
          = snd (apply_pane_state_change notify k i c False (set_terminal j t' s))"
        using bt m Some by (simp add: y expire_pane_metadata_def Let_def split: option.split prod.split)
      have st: "sc_state c = t_state t'" using h Some by (simp add: honest_def leads_def)
      have "seen_ok (snd (apply_pane_state_change notify k i c False (set_terminal j t' s)))"
        by (rule entered_seen_ok [OF seen ok1 ws x [unfolded y] _ st]) (simp_all add: set_terminal_def)
      then show ?thesis using pane_in_change [OF ok1, unfolded ws] unfolding e by blast
    qed
  qed
qed

lemma expire_all_seen:
  assumes "app_inv s" "seen_ok s" "\<forall>x \<in> set xs. pane_in (as_workspaces s) x"
  shows "seen_ok (snd (expire_all iter scheduled now notify xs s))"
  using assms
proof (induction xs arbitrary: s)
  case (Cons x xs)
  let ?s1 = "snd (expire_pane_metadata iter scheduled now notify x s)"
  have "app_inv ?s1" by (rule expire_pane_inv [OF Cons.prems(1)])
  moreover have "seen_ok ?s1" "\<forall>y \<in> set xs. pane_in (as_workspaces ?s1) y"
    using expire_pane_seen [OF Cons.prems(1,2), of x] Cons.prems(3) by auto
  ultimately show ?case using Cons.IH by (simp add: split_beta)
qed simp

lemma pane_terminals_in:
  assumes s: "app_ok s" and x: "x \<in> set (pane_terminals s)"
  shows "pane_in (as_workspaces s) x"
proof -
  obtain k w t i p where k: "(k, w) \<in> set (List.enumerate 0 (as_workspaces s))"
      and p: "find_pane_state i w = Some p" "x = (k, i, attached_terminal_id p)"
    using x by (auto simp: pane_terminals_def map_filter_def)
  have l: "k < length (as_workspaces s)" "w = as_workspaces s ! k" using k by (auto simp: in_set_enumerate_eq)
  show ?thesis using find_pane_state_panes [OF _ p(1)] app_ok_workspace(1) [OF s l(1)] l p(2) by (simp add: pane_in_def)
qed

lemma deliver_all_view: "same_view s (snd (deliver_all is s))"
proof (induction "is" arbitrary: s)
  case (Cons i js)
  have "same_view s (snd (deliver_pending i s))"
    by (simp add: same_view_def deliver_pending_def remove_pending_def apply_agent_notification_delivery_def Let_def
        split: option.split)
  from same_view_trans [OF this Cons.IH] show ?case by (simp add: split_beta)
qed (simp add: same_view_def)

section \<open>Runs\<close>

lemma update_all_unseen_same: "as_workspaces s' = as_workspaces s \<Longrightarrow> all_unseen s' = all_unseen s"
  by (simp add: all_unseen_def)

lemma cwd_seen: "seen_ok s \<Longrightarrow> seen_ok (set_terminal_cwd cwd usable i s)"
  by (simp add: set_terminal_cwd_def set_terminal_seen split: option.split)

lemma pane_died_terminals:
  assumes s: "app_inv s" and o: "pane_order_ok porder" and d: "handle_pane_died porder i s = Some s'"
  shows "as_terminals s' = as_terminals s \<or> (\<exists>l. as_terminals s' = (as_terminals s)(l := None))"
proof (cases "i \<in> fst ` set (all_entries (as_workspaces s))")
  case True
  then obtain j where "(i, j) \<in> set (all_entries (as_workspaces s))" by auto
  from pane_died_known [OF s o this] d show ?thesis by (auto simp: pane_gone_def)
next
  case False
  from pane_died_unknown [OF s False, of porder] d show ?thesis by auto
qed

lemma pane_died_seen:
  assumes s: "app_inv s" and o: "pane_order_ok porder" and seen: "seen_ok s" and d: "handle_pane_died porder i s = Some s'"
  shows "seen_ok s'"
proof (rule seen_ok_less [OF seen pane_died_unseen [OF d]])
  fix j t' assume t: "as_terminals s' j = Some t'"
  have "as_terminals s' = as_terminals s \<or> (\<exists>l. as_terminals s' = (as_terminals s)(l := None))"
    using pane_died_terminals [OF s o d] .
  then show "\<exists>t. as_terminals s j = Some t \<and> t_state t' = t_state t" using t by (auto split: if_splits)
qed

lemma event_seen:
  assumes s: "app_inv s" and o: "pane_order_ok porder" and seen: "seen_ok s"
    and e: "handle_app_event iter porder ck e s = Some (us, s')"
  shows "seen_ok s'"
proof (cases "terminal_update_of iter ck e")
  case (Some x)
  obtain i f where x: "terminal_update_of iter ck e = Some (i, f)" using Some by (cases x) simp
  have "s' = snd (update_terminal_state iter ck i False f s)" using e x by (auto simp: handle_app_event_def split: prod.splits)
  then show ?thesis
    using update_terminal_seen [OF s seen terminal_update_reports [OF x] terminal_update_keeps [OF x]] by simp
next
  case None
  have "seen_ok (herdr_toast x s)" for x using seen by (simp add: herdr_toast_def seen_ok_def all_unseen_def)
  then show ?thesis
    using e None seen pane_died_seen [OF s o seen] cwd_seen [OF seen]
    by (cases e) (auto simp: handle_app_event_def split: if_splits)
qed

lemma close_selected_seen:
  assumes s: "app_inv s" and o: "pane_order_ok porder" and seen: "seen_ok s" and c: "close_selected_workspace porder s = Some s'"
  shows "seen_ok s'"
proof (cases "as_workspaces s = []")
  case True
  then show ?thesis using c seen by (simp add: close_selected_workspace_def)
next
  case False
  obtain A where m: "mset (as_workspaces s) = mset (closed_workspaces s) + mset (as_workspaces s')"
      and A: "as_terminals s' = as_terminals s |` A"
    using close_selected_cases [OF s o False] c by (metis option.inject)
  have "set (as_workspaces s') \<subseteq> set (as_workspaces s)"
    using mset_eq_setD [of "as_workspaces s" "closed_workspaces s @ as_workspaces s'"] m by auto
  from seen_ok_sub [OF seen set_unseen [OF this, folded all_unseen_def] A] show ?thesis .
qed

lemma rearranged_seen:
  assumes "seen_ok s" "rearranged s s'" "mset (as_workspaces s') = mset (as_workspaces s)"
  shows "seen_ok s'"
  using set_unseen [of "as_workspaces s'" "as_workspaces s"] mset_eq_setD [OF assms(3)] assms(2)
  by (intro seen_ok_same [OF assms(1)]) (simp_all add: all_unseen_def rearranged_def)

lemma move_workspace_mset: "move_workspace a b s = Some (r, s') \<Longrightarrow> mset (as_workspaces s') = mset (as_workspaces s)"
  using mset_moved [of a "as_workspaces s"] by (auto simp: move_workspace_def Let_def with_order_def split: if_splits)

lemma move_block_mset: "move_workspace_block moved before s = Some (r, s') \<Longrightarrow> mset (as_workspaces s') = mset (as_workspaces s)"
  by (auto simp: move_workspace_block_def Let_def with_order_def split: if_splits)

lemma app_apply_seen:
  assumes s: "app_inv s" and seen: "seen_ok s" and o: "pane_order_ok porder" and ok: "app_op_ok s op"
    and e: "app_apply iter porder op s = Some s'"
  shows "seen_ok s'"
proof -
  have a: "app_ok s" using s by (simp add: app_inv_def)
  have r: "seen_ok t" if "rearranged s t" "all_unseen t \<subseteq> all_unseen s" for t
    using seen_ok_same [OF seen that(2)] that(1) by (simp add: rearranged_def)
  show ?thesis
  proof (cases op)
    case (Event ck ev)
    then show ?thesis using event_seen [OF s o seen] e by auto
  next
    case (ProcessExited observed ck i b)
    then show ?thesis
      using update_terminal_seen [OF s seen process_exit_reports process_exit_keeps, of iter ck i b iter observed ck] e
      by (simp add: publish_pane_process_exit_if_agent_def split_beta)
  next
    case (DrainNotifications order now)
    then show ?thesis using deliver_all_view [of s "due_panes order now s"] e seen
      by (auto simp: drain_due_agent_notifications_def same_view_def all_unseen_def intro: seen_ok_same)
  next
    case (ExpireAgentMetadata scheduled now notify)
    have "\<forall>x \<in> set (pane_terminals s). pane_in (as_workspaces s) x" using pane_terminals_in [OF a] by blast
    from expire_all_seen [OF s seen this] e ExpireAgentMetadata show ?thesis by (auto simp: expire_agent_metadata_def)
  next
    case (MoveWorkspace x y)
    then show ?thesis using move_workspace_ok [OF a, of x y] move_workspace_mset e rearranged_seen [OF seen] by fastforce
  next
    case (MoveBlock moved before)
    then show ?thesis using move_block_ok [OF a, of moved before] move_block_mset e rearranged_seen [OF seen] by fastforce
  next
    case CloseSelected
    then show ?thesis using close_selected_seen [OF s o seen] e by simp
  next
    case (MovePane keys dir pane destination focus)
    then obtain out where out: "handle_pane_move keys dir pane destination focus s = Some (out, s')" using e by auto
    from seen_ok_same [OF seen pane_move_unseen [OF out]] pane_move_terminals [OF out] show ?thesis
      by (simp add: same_terminals_def)
  qed (use e r [OF focus_rearranged [OF a] focus_unseen] r [OF zoom_rearranged [OF a] zoom_unseen]
      r [OF mark_active_seen_rearranged [OF a] mark_active_unseen] r [OF switch_workspace_rearranged [OF a] switch_workspace_unseen]
      r [OF switch_workspace_tab_rearranged [OF a] switch_workspace_tab_unseen] in auto)
qed

definition app_seen :: "app_state option \<Rightarrow> bool" where
  "app_seen x \<longleftrightarrow> (case x of None \<Rightarrow> False | Some s \<Rightarrow> app_inv s \<and> seen_ok s)"

lemma app_step_seen:
  assumes "app_seen x" "step_ok porder x op"
  shows "app_seen (app_step iter porder x op)"
proof -
  obtain s where s: "x = Some s" "app_inv s" "seen_ok s" using assms(1) by (auto simp: app_seen_def split: option.splits)
  have ok: "pane_order_ok porder" "app_op_ok s op" using assms(2) s(1) by (simp_all add: step_ok_def)
  then obtain s' where "app_apply iter porder op s = Some s'" "app_inv s'" using app_apply_inv [OF s(2)] by blast
  with app_apply_seen [OF s(2,3) ok this(1)] show ?thesis by (simp add: app_step_def s(1) app_seen_def)
qed

interpretation seen_panes: machine "app_step iter porder" "step_ok porder" app_seen for iter porder
  by unfold_locales (rule app_step_seen)



end
