(* ===== verification/KittyKeyboard.thy ===== *)
theory KittyKeyboard
  imports Prelude
begin

text \<open>
  The keyboard modes an application has asked for (\<open>pane/kitty_keyboard.rs\<close>): a tracker watches the
  output of a pane for the escape sequences that set them, and can replay the modes to another terminal.
\<close>

section \<open>The tracker\<close>

text \<open>The output is a list of bytes; the stack grows at its end.\<close>

record kitty_tracker =
  kk_pending :: "nat list"
  kk_stack :: "u16 list"
  kk_flags :: u16
  kk_level :: u8

definition kitty_new :: kitty_tracker where
  "kitty_new = \<lparr>kk_pending = [], kk_stack = [], kk_flags = 0, kk_level = 0\<rparr>"

text \<open>
  The parameters before the first semicolon. Bytes that are no UTF-8 are no digits either, so both failures of the
  source are the one of \<open>parse_unsigned\<close>.
\<close>

definition parse_kitty_keyboard_flags :: "nat list \<Rightarrow> u16" where
  "parse_kitty_keyboard_flags bytes =
    (case parse_unsigned 16 (takeWhile (\<lambda>b. b \<noteq> 59) bytes) of Some n \<Rightarrow> of_nat n | None \<Rightarrow> 0)"

definition store_pending :: "nat list \<Rightarrow> kitty_tracker \<Rightarrow> kitty_tracker" where
  "store_pending bytes t = t\<lparr>kk_pending := (if length bytes \<le> 64 then bytes else [])\<rparr>"

fun pop_flags :: "nat \<Rightarrow> kitty_tracker \<Rightarrow> kitty_tracker" where
  "pop_flags 0 t = t"
| "pop_flags (Suc n) t =
     pop_flags n (if kk_stack t = [] then t\<lparr>kk_flags := 0\<rparr>
                  else t\<lparr>kk_flags := last (kk_stack t), kk_stack := butlast (kk_stack t)\<rparr>)"

definition observe_csi_u :: "nat list \<Rightarrow> kitty_tracker \<Rightarrow> kitty_tracker" where
  "observe_csi_u params t =
    (case params of
       [] \<Rightarrow> t
     | kind # rest \<Rightarrow>
         if kind = 62 then t\<lparr>kk_stack := kk_stack t @ [kk_flags t], kk_flags := parse_kitty_keyboard_flags rest\<rparr>
         else if kind = 61 then t\<lparr>kk_flags := parse_kitty_keyboard_flags rest\<rparr>
         else if kind = 60 then pop_flags (unat (max (parse_kitty_keyboard_flags rest) 1)) t
         else t)"

text \<open>\<open>params.split(|byte| *byte == b';')\<close>: at least one part.\<close>

fun split_semicolon :: "nat list \<Rightarrow> nat list list" where
  "split_semicolon [] = [[]]"
| "split_semicolon (b # bs) =
     (if b = 59 then [] # split_semicolon bs
      else case split_semicolon bs of [] \<Rightarrow> [[b]] | p # ps \<Rightarrow> (b # p) # ps)"

definition observe_modify_other_keys :: "nat list \<Rightarrow> kitty_tracker \<Rightarrow> kitty_tracker" where
  "observe_modify_other_keys params t =
    (case strip_prefix [62] params of
       None \<Rightarrow> t
     | Some params \<Rightarrow>
         if params = [] then t\<lparr>kk_level := 0\<rparr>
         else (case split_semicolon params of
                resource # [] \<Rightarrow> if parse_kitty_keyboard_flags resource = 4 then t\<lparr>kk_level := 0\<rparr> else t
              | resource # value # [] \<Rightarrow>
                  if parse_kitty_keyboard_flags resource = 4
                  then t\<lparr>kk_level := of_nat (unat (min (parse_kitty_keyboard_flags value) 2))\<rparr> else t
              | _ \<Rightarrow> t))"

definition dispatch_csi :: "nat \<Rightarrow> nat list \<Rightarrow> kitty_tracker \<Rightarrow> kitty_tracker" where
  "dispatch_csi final params t =
    (if final = 117 then observe_csi_u params t
     else if final = 109 then observe_modify_other_keys params t
     else if final = 110
             \<and> (case strip_prefix [62] params of
                  None \<Rightarrow> False | Some ps \<Rightarrow> 59 \<notin> set ps \<and> parse_kitty_keyboard_flags ps = 4)
     then t\<lparr>kk_level := 0\<rparr> else t)"

text \<open>The final byte of a control sequence and what surrounds it.\<close>

fun split_final :: "nat list \<Rightarrow> (nat list \<times> nat \<times> nat list) option" where
  "split_final [] = None"
| "split_final (b # bs) =
     (if 64 \<le> b \<and> b \<le> 126 then Some ([], b, bs)
      else map_option (\<lambda>(ps, f, rest). (b # ps, f, rest)) (split_final bs))"

lemma split_final_shorter: "split_final bs = Some (ps, f, rest) \<Longrightarrow> length rest < length bs"
  by (induction bs arbitrary: ps) (auto split: if_splits)

function scan :: "nat list \<Rightarrow> kitty_tracker \<Rightarrow> kitty_tracker" where
  "scan bytes t =
    (case bytes of
       [] \<Rightarrow> t
     | b # bs \<Rightarrow>
         if b \<noteq> 27 then scan bs t
         else case bs of
                [] \<Rightarrow> store_pending [27] t
              | c # rest \<Rightarrow>
                  let t1 = (if c = 99 then t\<lparr>kk_stack := [], kk_flags := 0, kk_level := 0\<rparr> else t)
                  in if c \<noteq> 91 then scan bs t1
                     else case split_final rest of
                            None \<Rightarrow> store_pending bytes t1
                          | Some (params, final, rest') \<Rightarrow> scan rest' (dispatch_csi final params t1))"
  by pat_completeness auto
termination
  by (relation "measure (length \<circ> fst)") (auto dest: split_final_shorter)

declare scan.simps [simp del]

definition observe :: "kitty_tracker \<Rightarrow> nat list \<Rightarrow> kitty_tracker" where
  "observe t bytes = scan (kk_pending t @ bytes) (t\<lparr>kk_pending := []\<rparr>)"

definition csi :: "nat list \<Rightarrow> u16 \<Rightarrow> nat \<Rightarrow> nat list" where
  "csi prefix n final = [27, 91] @ prefix @ decimal (unat n) @ [final]"

definition replay_ansi :: "kitty_tracker \<Rightarrow> nat list option" where
  "replay_ansi t =
    (let kitty = (if kk_stack t = [] then (if kk_flags t \<noteq> 0 then csi [61] (kk_flags t) 117 else [])
                  else (if hd (kk_stack t) \<noteq> 0 then csi [61] (hd (kk_stack t)) 117 else [])
                       @ concat (map (\<lambda>f. csi [62] f 117) (tl (kk_stack t) @ [kk_flags t])));
         ansi = kitty @ (if 0 < kk_level t then csi [62, 52, 59] (of_nat (unat (kk_level t))) 109 else [])
     in if ansi = [] then None else Some ansi)"

section \<open>Splitting the output\<close>

text \<open>The part of the output that may be the start of an escape sequence, which the tracker keeps.\<close>

function unfinished :: "nat list \<Rightarrow> nat list" where
  "unfinished bytes =
    (case bytes of
       [] \<Rightarrow> []
     | b # bs \<Rightarrow>
         if b \<noteq> 27 then unfinished bs
         else case bs of
                [] \<Rightarrow> [27]
              | c # rest \<Rightarrow>
                  if c \<noteq> 91 then unfinished bs
                  else case split_final rest of None \<Rightarrow> bytes | Some (_, _, rest') \<Rightarrow> unfinished rest')"
  by pat_completeness auto
termination
  by (relation "measure length") (auto dest: split_final_shorter)

declare unfinished.simps [simp del]

lemma split_final_append: "split_final bs = Some (ps, f, rest) \<Longrightarrow> split_final (bs @ cs) = Some (ps, f, rest @ cs)"
  by (induction bs arbitrary: ps) (auto split: if_splits)

lemma pop_flags_pending [simp]: "kk_pending (pop_flags n t) = kk_pending t"
  by (induction n t rule: pop_flags.induct) auto

lemma dispatch_pending [simp]: "kk_pending (dispatch_csi f ps t) = kk_pending t"
  by (simp add: dispatch_csi_def observe_csi_u_def observe_modify_other_keys_def split: option.split list.split)

lemma scan_simps:
  "scan [] t = t" "b \<noteq> 27 \<Longrightarrow> scan (b # bs) t = scan bs t" "scan [27] t = store_pending [27] t"
  "c \<noteq> 91 \<Longrightarrow> scan (27 # c # rest) t
     = scan (c # rest) (if c = 99 then t\<lparr>kk_stack := [], kk_flags := 0, kk_level := 0\<rparr> else t)"
  "split_final rest = None \<Longrightarrow> scan (27 # 91 # rest) t = store_pending (27 # 91 # rest) t"
  "split_final rest = Some (ps, f, rest') \<Longrightarrow> scan (27 # 91 # rest) t = scan rest' (dispatch_csi f ps t)"
  by (simp_all add: scan.simps Let_def)

lemma unfinished_simps:
  "unfinished [] = []" "b \<noteq> 27 \<Longrightarrow> unfinished (b # bs) = unfinished bs" "unfinished [27] = [27]"
  "c \<noteq> 91 \<Longrightarrow> unfinished (27 # c # rest) = unfinished (c # rest)"
  "split_final rest = None \<Longrightarrow> unfinished (27 # 91 # rest) = 27 # 91 # rest"
  "split_final rest = Some (ps, f, rest') \<Longrightarrow> unfinished (27 # 91 # rest) = unfinished rest'"
  by (simp_all add: unfinished.simps)

text \<open>The cases of the scan.\<close>

lemma scan_induct [case_names empty plain lone escape unended ended]:
  assumes "P []" "\<And>b bs. b \<noteq> 27 \<Longrightarrow> P bs \<Longrightarrow> P (b # bs)" "P [27]"
    and "\<And>c rest. c \<noteq> 91 \<Longrightarrow> P (c # rest) \<Longrightarrow> P (27 # c # rest)"
    and "\<And>rest. split_final rest = None \<Longrightarrow> P (27 # 91 # rest)"
    and "\<And>rest ps f rest'. split_final rest = Some (ps, f, rest') \<Longrightarrow> P rest' \<Longrightarrow> P (27 # 91 # rest)"
  shows "P bytes"
proof (induction bytes rule: length_induct)
  case (1 bytes)
  consider "bytes = []" | b bs where "bytes = b # bs" "b \<noteq> 27" | "bytes = [27]"
    | c rest where "bytes = 27 # c # rest" "c \<noteq> 91" | rest where "bytes = 27 # 91 # rest"
    by (metis list.exhaust)
  then show ?case
  proof cases
    case (5 rest)
    show ?thesis
    proof (cases "split_final rest")
      case None
      then show ?thesis using 5 assms(5) by simp
    next
      case (Some y)
      obtain ps f rest' where y: "y = (ps, f, rest')" by (cases y) auto
      have "length rest' < length bytes" using split_final_shorter Some y 5 by fastforce
      then show ?thesis using 1 5 assms(6) Some y by blast
    qed
  qed (use 1 assms in auto)
qed

lemma no_pending: "kk_pending t = [] \<Longrightarrow> t\<lparr>kk_pending := []\<rparr> = t"
  by (cases t) simp

lemma scan_append:
  "kk_pending t = [] \<Longrightarrow> length (unfinished xs) \<le> 64 \<Longrightarrow> scan (xs @ ys) t = observe (scan xs t) ys"
proof (induction xs arbitrary: t rule: scan_induct)
  case (lone t)
  then show ?case by (simp add: scan_simps observe_def store_pending_def no_pending)
next
  case (escape c rest)
  then show ?case by (simp add: scan_simps unfinished_simps)
next
  case (ended rest ps f rest')
  then show ?case by (simp add: scan_simps unfinished_simps split_final_append)
qed (simp_all add: scan_simps unfinished_simps observe_def store_pending_def no_pending)

lemma scan_pending: "kk_pending t = [] \<Longrightarrow> kk_pending (scan xs t) = (if length (unfinished xs) \<le> 64 then unfinished xs else [])"
  by (induction xs arbitrary: t rule: scan_induct) (simp_all add: scan_simps unfinished_simps store_pending_def)

lemma observe_append:
  "length (unfinished (kk_pending t @ xs)) \<le> 64 \<Longrightarrow> observe (observe t xs) ys = observe t (xs @ ys)"
  by (simp add: observe_def [of t] scan_append [of "t\<lparr>kk_pending := []\<rparr>", symmetric])

lemma chunks:
  "\<forall>k \<le> length chunks. length (unfinished (kk_pending t @ concat (take k chunks))) \<le> 64
   \<Longrightarrow> foldl observe t chunks = (if chunks = [] then t else observe t (concat chunks))"
proof (induction chunks rule: rev_induct)
  case (snoc c cs)
  have "\<forall>k \<le> length cs. length (unfinished (kk_pending t @ concat (take k cs))) \<le> 64"
  proof (intro allI impI)
    fix k assume "k \<le> length cs"
    then show "length (unfinished (kk_pending t @ concat (take k cs))) \<le> 64" using snoc.prems [rule_format, of k] by simp
  qed
  then have ih: "foldl observe t cs = (if cs = [] then t else observe t (concat cs))" by (rule snoc.IH)
  have "length (unfinished (kk_pending t @ concat cs)) \<le> 64" using snoc.prems [rule_format, of "length cs"] by simp
  then show ?case using ih observe_append [of t "concat cs" c] by simp
qed simp

section \<open>Replaying\<close>

lemma split_final_at:
  "list_all (\<lambda>b. b < 64) xs \<Longrightarrow> 64 \<le> f \<Longrightarrow> f \<le> 126 \<Longrightarrow> split_final (xs @ f # rest) = Some (xs, f, rest)"
  by (induction xs) auto

lemma decimal_small: "list_all (\<lambda>b. b < 64) (decimal n)" "59 \<notin> set (decimal n)"
  using decimal_digits(2) [of _ n] by (fastforce simp: list_all_iff is_ascii_digit_def)+

lemma flags_decimal: "parse_kitty_keyboard_flags (decimal (unat n)) = n"
proof -
  have "takeWhile (\<lambda>b. b \<noteq> 59) (decimal (unat n)) = decimal (unat n)"
    using decimal_small(2) by (auto simp: takeWhile_eq_all_conv)
  moreover have "parse_unsigned 16 (decimal (unat n)) = Some (unat n)" 
    using unsigned_less [of n] by (intro parse_decimal) simp
  ultimately show ?thesis unfolding parse_kitty_keyboard_flags_def by (simp only: option.case of_nat_unat ucast_id)
qed

lemma scan_csi:
  assumes "list_all (\<lambda>b. b < 64) prefix" "64 \<le> f" "f \<le> 126"
  shows "scan (csi prefix n f @ rest) t = scan rest (dispatch_csi f (prefix @ decimal (unat n)) t)"
proof -
  have "split_final ((prefix @ decimal (unat n)) @ f # rest) = Some (prefix @ decimal (unat n), f, rest)"
    by (rule split_final_at) (use assms decimal_small in simp_all)
  then show ?thesis by (simp add: csi_def scan_simps)
qed

definition push_flags :: "kitty_tracker \<Rightarrow> u16 \<Rightarrow> kitty_tracker" where
  "push_flags t f = t\<lparr>kk_stack := kk_stack t @ [kk_flags t], kk_flags := f\<rparr>"

lemma scan_set: "scan (csi [61] n 117 @ rest) t = scan rest (t\<lparr>kk_flags := n\<rparr>)"
  by (simp add: scan_csi dispatch_csi_def observe_csi_u_def flags_decimal)

lemma scan_push: "scan (csi [62] n 117 @ rest) t = scan rest (push_flags t n)"
  by (simp add: scan_csi dispatch_csi_def observe_csi_u_def flags_decimal push_flags_def)

lemma scan_pushes: "scan (concat (map (\<lambda>f. csi [62] f 117) fs) @ rest) t = scan rest (foldl push_flags t fs)"
  by (induction fs arbitrary: t) (simp_all add: scan_push)

lemma pushed: "foldl push_flags t fs = t\<lparr>kk_stack := kk_stack t @ butlast (kk_flags t # fs), kk_flags := last (kk_flags t # fs)\<rparr>"
  by (induction fs arbitrary: t) (simp_all add: push_flags_def)

lemma small_word: "n < 2 ^ LENGTH('a) \<Longrightarrow> unat (of_nat n :: 'a :: len word) = n"
  by (simp only: unat_of_nat take_bit_eq_mod mod_less)

lemma split_decimal: "59 \<notin> set ds \<Longrightarrow> split_semicolon ds = [ds]"
  by (induction ds) auto

lemma scan_level:
  assumes "l \<le> 2"
  shows "scan (csi [62, 52, 59] (of_nat (unat l)) 109 @ rest) t = scan rest (t\<lparr>kk_level := l\<rparr>)"
proof -
  have l: "unat l \<le> 2" using assms by (simp add: word_le_nat_alt)
  have u: "unat (of_nat (unat l) :: u16) = unat l" 

    using l by (intro small_word) simp_all
  have "parse_kitty_keyboard_flags [52] = 4"
    by (simp add: parse_kitty_keyboard_flags_def parse_unsigned_def strip_plus_def is_ascii_digit_def digits_value_def Let_def)
  moreover have "split_semicolon ([52, 59] @ decimal (unat l)) = [[52], decimal (unat l)]"
    using split_decimal [OF decimal_small(2)] by simp
  moreover have "of_nat (unat (min (of_nat (unat l) :: u16) 2)) = l"
    using l u by (simp add: min_def word_le_nat_alt)
  ultimately show ?thesis
    using flags_decimal [of "of_nat (unat l)"] u
    by (simp add: scan_csi dispatch_csi_def observe_modify_other_keys_def strip_prefix_def)
qed

text \<open>The level is at most two.\<close>

lemma dispatch_level: "kk_level t \<le> 2 \<Longrightarrow> kk_level (dispatch_csi f ps t) \<le> 2"
proof -
  have pop: "kk_level (pop_flags n u) = kk_level u" for n u by (induction n u rule: pop_flags.induct) auto
  have capped: "(of_nat (unat (min n (2 :: u16))) :: u8) \<le> 2" for n
  proof -
    have "unat (min n 2) \<le> 2" by (simp add: min_def word_le_nat_alt)
    moreover from this have "unat (of_nat (unat (min n 2)) :: u8) = unat (min n 2)" 
      by (intro small_word) simp_all
    ultimately show ?thesis by (simp add: word_le_nat_alt)
  qed
  assume "kk_level t \<le> 2"
  then show ?thesis
    by (simp add: dispatch_csi_def observe_csi_u_def observe_modify_other_keys_def pop capped [simplified] split: option.split list.split)
qed

lemma scan_level_bound: "kk_level t \<le> 2 \<Longrightarrow> kk_level (scan xs t) \<le> 2"
proof (induction xs arbitrary: t rule: scan_induct)
  case (ended rest ps f rest')
  then show ?case by (simp add: scan_simps dispatch_level)
qed (simp_all add: scan_simps store_pending_def)

lemma observed_level: "kk_level t \<le> 2 \<Longrightarrow> kk_level (foldl observe t chunks) \<le> 2"
  by (induction chunks arbitrary: t) (simp_all add: observe_def scan_level_bound)

lemma replayed:
  assumes "kk_level t \<le> 2"
  shows "scan (case replay_ansi t of None \<Rightarrow> [] | Some a \<Rightarrow> a) kitty_new = t\<lparr>kk_pending := []\<rparr>"
proof -
  define kitty where "kitty = (if kk_stack t = [] then (if kk_flags t \<noteq> 0 then csi [61] (kk_flags t) 117 else [])
    else (if hd (kk_stack t) \<noteq> 0 then csi [61] (hd (kk_stack t)) 117 else [])
      @ concat (map (\<lambda>f. csi [62] f 117) (tl (kk_stack t) @ [kk_flags t])))"
  define modify where "modify = (if 0 < kk_level t then csi [62, 52, 59] (of_nat (unat (kk_level t))) 109 else [])"
  have keys: "scan (kitty @ rest) kitty_new = scan rest (kitty_new\<lparr>kk_stack := kk_stack t, kk_flags := kk_flags t\<rparr>)" for rest
    by (cases "kk_stack t") (simp_all add: kitty_def scan_set scan_push scan_pushes pushed kitty_new_def push_flags_def butlast_append)
  have level: "scan (modify @ []) u = u\<lparr>kk_level := kk_level t\<rparr>" if "kk_level u = 0" for u
    using that scan_level [OF assms, of "[]" u] by (cases u) (auto simp: modify_def scan_simps word_neq_0_conv [symmetric])
  have "(case replay_ansi t of None \<Rightarrow> [] | Some a \<Rightarrow> a) = kitty @ modify"
    by (simp add: replay_ansi_def kitty_def modify_def Let_def)
  then show ?thesis using keys [of "modify @ []"] level [of "kitty_new\<lparr>kk_stack := kk_stack t, kk_flags := kk_flags t\<rparr>"]
    by (cases t) (simp add: kitty_new_def)
qed

section \<open>Properties\<close>

text \<open>
  C30: how the output of a pane is cut into reads does not matter to the tracker, as long as no escape sequence is left
  open for more than the 64 bytes it remembers: reading the pieces ends where reading the whole output does.
\<close>

theorem chunks_do_not_matter:
  assumes "\<forall>k \<le> length chunks. length (unfinished (concat (take k chunks))) \<le> 64"
  shows "foldl observe kitty_new chunks = observe kitty_new (concat chunks)"
proof -
  have "observe kitty_new [] = kitty_new" by (simp add: observe_def kitty_new_def scan_simps)
  then show ?thesis using chunks [of chunks kitty_new] assms by (simp add: kitty_new_def)
qed

theorem chunks_do_not_matter_witness:
  "foldl observe kitty_new [[27], [91, 62], [53, 117, 65]] = observe kitty_new [27, 91, 62, 53, 117, 65]
   \<and> kk_flags (observe kitty_new [27, 91, 62, 53, 117, 65]) = 5"
proof
  have "\<forall>k \<le> 3. length (unfinished (concat (take k [[27], [91, 62], [53, 117, 65]]))) \<le> (64 :: nat)"
    by (simp add: le_Suc_eq numeral_3_eq_3 unfinished_simps unfinished.simps all_conj_distrib)
  then show "foldl observe kitty_new [[27], [91, 62], [53, 117, 65]] = observe kitty_new [27, 91, 62, 53, 117, 65]"
    using chunks_do_not_matter [of "[[27], [91, 62], [53, 117, 65]]"] by simp
  show "kk_flags (observe kitty_new [27, 91, 62, 53, 117, 65]) = 5"
    by (simp add: observe_def kitty_new_def scan_simps dispatch_csi_def observe_csi_u_def parse_kitty_keyboard_flags_def
        parse_unsigned_def strip_plus_def is_ascii_digit_def digits_value_def Let_def)
qed

text \<open>
  C31: what \<open>replay_ansi\<close> writes brings a fresh tracker to the state of the one that wrote it, whatever output that
  one has seen, except for an escape sequence still open.
\<close>

theorem replay_restores:
  "observe kitty_new
     (case replay_ansi (foldl observe kitty_new chunks) of None \<Rightarrow> [] | Some ansi \<Rightarrow> ansi)
   = (foldl observe kitty_new chunks)\<lparr>kk_pending := []\<rparr>"
proof -
  have "kk_level (foldl observe kitty_new chunks) \<le> 2" by (rule observed_level) (simp add: kitty_new_def)
  then show ?thesis using replayed by (simp add: observe_def kitty_new_def)
qed

end
