(* ===== verification/RenderSignal.thy ===== *)
theory RenderSignal
  imports Prelude
begin

text \<open>
  The signal between the threads that read the output of panes and the one that draws (\<open>render_signal.rs\<close>). Every
  operation but \<open>is_pending\<close> holds the lock of the request for its whole length, so a run is a sequence of operations.
\<close>

section \<open>State\<close>

text \<open>\<open>'p\<close> is the type of pane ids, of which the signal only needs equality.\<close>

record 'p render_request =
  rr_generic :: bool
  rr_pty :: "'p set"
  rr_titles :: "'p set"

record 'p render_signal =
  rs_pending :: bool
  rs_request :: "'p render_request"
  rs_immediate :: "'p set"

definition no_request :: "'p render_request" where
  "no_request = \<lparr>rr_generic = False, rr_pty = {}, rr_titles = {}\<rparr>"

definition signal_new :: "'p render_signal" where
  "signal_new = \<lparr>rs_pending = False, rs_request = no_request, rs_immediate = {}\<rparr>"

section \<open>Operations\<close>

definition request_generic :: "'p render_signal \<Rightarrow> 'p render_signal" where
  "request_generic s = s\<lparr>rs_request := (rs_request s)\<lparr>rr_generic := True\<rparr>, rs_pending := True\<rparr>"

definition request_pty :: "'p \<Rightarrow> 'p render_signal \<Rightarrow> bool \<times> 'p render_signal" where
  "request_pty p s =
    (let source_added = p \<notin> rr_pty (rs_request s);
         wake_for_source = source_added \<and> p \<in> rs_immediate s;
         became_pending = \<not> rs_pending s
     in (became_pending \<or> wake_for_source,
         s\<lparr>rs_request := (rs_request s)\<lparr>rr_pty := insert p (rr_pty (rs_request s))\<rparr>, rs_pending := True\<rparr>))"

definition set_immediate_pty_sources :: "'p set \<Rightarrow> 'p render_signal \<Rightarrow> 'p render_signal" where
  "set_immediate_pty_sources sources s = s\<lparr>rs_immediate := sources\<rparr>"

definition has_immediate_work :: "'p render_signal \<Rightarrow> bool" where
  "has_immediate_work s \<longleftrightarrow>
     rr_generic (rs_request s) \<or> rr_titles (rs_request s) \<noteq> {}
     \<or> (\<exists>p \<in> rr_pty (rs_request s). p \<in> rs_immediate s)"

definition request_terminal_title :: "'p \<Rightarrow> 'p render_signal \<Rightarrow> bool \<times> 'p render_signal" where
  "request_terminal_title p s =
    (let source_added = p \<notin> rr_titles (rs_request s); became_pending = \<not> rs_pending s
     in (became_pending \<or> source_added,
         s\<lparr>rs_request := (rs_request s)\<lparr>rr_titles := insert p (rr_titles (rs_request s))\<rparr>, rs_pending := True\<rparr>))"

definition pending_terminal_title_sources :: "'p render_signal \<Rightarrow> 'p set" where
  "pending_terminal_title_sources s = rr_titles (rs_request s)"

definition take_request :: "'p render_signal \<Rightarrow> 'p render_request \<times> 'p render_signal" where
  "take_request s = (rs_request s, s\<lparr>rs_pending := False, rs_request := no_request\<rparr>)"

section \<open>Runs\<close>

datatype 'p signal_op =
  RequestGeneric | RequestPty 'p | SetImmediate "'p set" | RequestTitle 'p | TakeRequest

fun signal_step :: "'p render_signal \<Rightarrow> 'p signal_op \<Rightarrow> 'p render_signal" where
  "signal_step s RequestGeneric = request_generic s"
| "signal_step s (RequestPty p) = snd (request_pty p s)"
| "signal_step s (SetImmediate ps) = set_immediate_pty_sources ps s"
| "signal_step s (RequestTitle p) = snd (request_terminal_title p s)"
| "signal_step s TakeRequest = snd (take_request s)"

text \<open>The reference: what was asked for since the last \<open>take\<close>, and the sources named last as immediate.\<close>

definition since_take :: "'p signal_op list \<Rightarrow> 'p signal_op set" where
  "since_take ops = set (takeWhile (\<lambda>x. x \<noteq> TakeRequest) (rev ops))"

definition requested :: "'p signal_op list \<Rightarrow> 'p render_request" where
  "requested ops = \<lparr>rr_generic = (RequestGeneric \<in> since_take ops), rr_pty = {p. RequestPty p \<in> since_take ops},
                    rr_titles = {p. RequestTitle p \<in> since_take ops}\<rparr>"

fun immediate :: "'p signal_op list \<Rightarrow> 'p set" where
  "immediate [] = {}"
| "immediate (x # ops) = (case x of SetImmediate ps \<Rightarrow> ps | _ \<Rightarrow> immediate ops)"

definition signal_at :: "'p signal_op list \<Rightarrow> 'p render_signal" where
  "signal_at ops = foldl signal_step signal_new ops"

lemma since_take_snoc:
  "since_take [] = {}" "since_take (ops @ [x]) = (if x = TakeRequest then {} else insert x (since_take ops))"
proof -
  show "since_take ([] :: 'a signal_op list) = {}" by (simp add: since_take_def)
  show "since_take (ops @ [x]) = (if x = TakeRequest then {} else insert x (since_take ops))"
    by (cases "x = TakeRequest") (simp_all add: since_take_def)
qed

lemma requested_snoc:
  "requested [] = no_request" "requested (ops @ [TakeRequest]) = no_request"
  "requested (ops @ [RequestGeneric]) = (requested ops)\<lparr>rr_generic := True\<rparr>"
  "requested (ops @ [RequestPty p]) = (requested ops)\<lparr>rr_pty := insert p (rr_pty (requested ops))\<rparr>"
  "requested (ops @ [RequestTitle p]) = (requested ops)\<lparr>rr_titles := insert p (rr_titles (requested ops))\<rparr>"
  "requested (ops @ [SetImmediate ps]) = requested ops"
  by (simp_all add: requested_def since_take_snoc no_request_def) auto

lemma signal_is:
  "signal_at ops = \<lparr>rs_pending = (requested ops \<noteq> no_request), rs_request = requested ops, rs_immediate = immediate (rev ops)\<rparr>"
proof (induction ops rule: rev_induct)
  case (snoc x ops)
  then have s: "signal_at (ops @ [x]) = signal_step \<lparr>rs_pending = (requested ops \<noteq> no_request),
      rs_request = requested ops, rs_immediate = immediate (rev ops)\<rparr> x"
    by (simp add: signal_at_def)
  show ?case unfolding s
    by (cases x; cases "requested ops")
      (auto simp: requested_snoc request_generic_def request_pty_def set_immediate_pty_sources_def
        request_terminal_title_def take_request_def no_request_def Let_def)
qed (simp add: signal_at_def signal_new_def requested_snoc)

text \<open>
  C32: after any sequence of operations the signal holds exactly what was asked for since the last \<open>take\<close>, each pane
  once, and is pending if that is anything; \<open>take\<close> hands it over. A pane asks for a wake if nothing was asked for
  before it, or if it is the first output of a visible pane, and a title if it is the first of its pane.
\<close>

theorem signal_coalesces:
  "fst (take_request (signal_at ops)) = requested ops
   \<and> (rs_pending (signal_at ops) \<longleftrightarrow> requested ops \<noteq> no_request)
   \<and> (has_immediate_work (signal_at ops) \<longleftrightarrow>
        RequestGeneric \<in> since_take ops \<or> (\<exists>p. RequestTitle p \<in> since_take ops)
        \<or> (\<exists>p \<in> immediate (rev ops). RequestPty p \<in> since_take ops))
   \<and> (fst (request_pty p (signal_at ops)) \<longleftrightarrow>
        requested ops = no_request \<or> (p \<in> immediate (rev ops) \<and> RequestPty p \<notin> since_take ops))
   \<and> (fst (request_terminal_title p (signal_at ops)) \<longleftrightarrow> RequestTitle p \<notin> since_take ops)"
proof -
  have "RequestTitle p \<notin> since_take ops" if "requested ops = no_request"
    using that by (auto simp: requested_def no_request_def)
  then show ?thesis
    by (auto simp: signal_is take_request_def request_pty_def request_terminal_title_def has_immediate_work_def
        requested_def Let_def)
qed

end
