(* ===== verification/EndpointCatalog.thy ===== *)
theory EndpointCatalog
  imports Prelude
begin

text \<open>
  The machines a client has saved (\<open>client/endpoint.rs\<close>, \<open>client/endpoint/catalog.rs\<close>): ids of endpoints, the
  checks of a profile, the operations on the catalog, and the catalog a client starts with. Reading and writing the
  files, and JSON, are I/O. A new profile id is an argument: the code hashes the clock and a counter.
\<close>

section \<open>Ids\<close>

type_synonym profile_id = str

datatype client_endpoint_id = Local | Ssh profile_id

datatype client_endpoint_status = Connecting | Online | Reconnecting | Attention | Disabled

definition is_local :: "client_endpoint_id \<Rightarrow> bool" where
  "is_local e = (case e of Local \<Rightarrow> True | Ssh _ \<Rightarrow> False)"

definition storage_key :: "client_endpoint_id \<Rightarrow> str" where
  "storage_key e = (case e of Local \<Rightarrow> lit ''local'' | Ssh profile_id \<Rightarrow> lit ''ssh:'' @ profile_id)"

definition parse_profile_id :: "str \<Rightarrow> str + profile_id" where
  "parse_profile_id value =
    (if str_len value \<noteq> 32
        \<or> \<not> list_all (\<lambda>b. is_ascii_digit b \<or> (97 \<le> b \<and> b \<le> 102)) (str_bytes value)
     then Inl (lit ''endpoint profile id must be 32 lowercase hexadecimal characters'')
     else Inr value)"

section \<open>Profiles\<close>

record saved_ssh_endpoint =
  se_id :: profile_id
  se_label :: str
  se_target :: str
  se_session :: str
  se_enabled :: bool

text \<open>\<open>validate_remote_target\<close> and \<open>session::validate_name\<close>.\<close>

definition validate_remote_target :: "str \<Rightarrow> str + str" where
  "validate_remote_target target =
    (if target = [] then Inl (lit ''missing value for --remote'')
     else if strip_prefix [45] target \<noteq> None then Inl (lit ''--remote target must not start with '' @ [39, 45, 39])
     else Inr target)"

definition validate_name :: "str \<Rightarrow> str + unit" where
  "validate_name name =
    (if name = [] then Inl (lit ''session name cannot be empty'')
     else if 64 < str_len name then Inl (lit ''session name cannot be longer than 64 bytes'')
     else if name = lit ''.'' \<or> name = lit ''..'' then Inl (lit ''session name cannot be . or ..'')
     else if \<not> list_all (\<lambda>b. is_ascii_alphanumeric b \<or> b = 46 \<or> b = 95 \<or> b = 45) (str_bytes name)
     then Inl (lit ''session name may only contain ASCII letters, numbers, '' @ [39, 46, 39, 44, 32, 39, 95, 39]
               @ lit '' and '' @ [39, 45, 39])
     else Inr ())"

text \<open>\<open>rsplit_at('@')\<close>: what stands before and after the last one.\<close>

definition rsplit_at :: "nat \<Rightarrow> str \<Rightarrow> (str \<times> str) option" where
  "rsplit_at c s =
    (let after = rev (takeWhile (\<lambda>x. x \<noteq> c) (rev s))
     in if c \<in> set s then Some (take (length s - length after - 1) s, after) else None)"

definition validate_profile :: "saved_ssh_endpoint \<Rightarrow> str + unit" where
  "validate_profile p =
    and_then (parse_profile_id (se_id p)) (\<lambda>_.
      let label = trim (se_label p)
      in if label = [] then Inl (lit ''SSH endpoint label cannot be empty'')
         else if 128 < str_len label \<or> list_ex is_control label
         then Inl (lit ''SSH endpoint label must be at most 128 bytes and contain no control characters'')
         else if 1024 < str_len (se_target p) \<or> list_ex is_control (se_target p)
         then Inl (lit ''SSH target must be at most 1024 bytes and contain no control characters'')
         else and_then (validate_remote_target (se_target p)) (\<lambda>_.
           let authority = (case strip_prefix (lit ''ssh://'') (se_target p) of None \<Rightarrow> se_target p | Some a \<Rightarrow> a)
           in if (case rsplit_at 64 authority of None \<Rightarrow> False | Some (userinfo, _) \<Rightarrow> 58 \<in> set userinfo)
              then Inl (lit ''SSH target must not contain a password'')
              else validate_name (se_session p)))"

definition new_profile :: "profile_id \<Rightarrow> str \<Rightarrow> str \<Rightarrow> str \<Rightarrow> str + saved_ssh_endpoint" where
  "new_profile generated label target session =
    (let profile = \<lparr>se_id = generated, se_label = label, se_target = target, se_session = session, se_enabled = True\<rparr>
     in and_then (validate_profile profile) (\<lambda>_. Inr profile))"

section \<open>The catalog\<close>

record endpoint_catalog =
  ec_version :: u32
  selected_profile :: "profile_id option"
  ec_ssh :: "saved_ssh_endpoint list"

definition default_catalog :: endpoint_catalog where
  "default_catalog = \<lparr>ec_version = 1, selected_profile = None, ec_ssh = []\<rparr>"

definition add_ssh :: "profile_id \<Rightarrow> str \<Rightarrow> str \<Rightarrow> str \<Rightarrow> endpoint_catalog \<Rightarrow> (str + profile_id) \<times> endpoint_catalog" where
  "add_ssh generated label target session c =
    (if 64 \<le> length (ec_ssh c) then (Inl (lit ''at most 64 SSH endpoints can be saved''), c)
     else case new_profile generated label target session of
            Inl e \<Rightarrow> (Inl e, c)
          | Inr profile \<Rightarrow> (Inr (se_id profile), c\<lparr>ec_ssh := ec_ssh c @ [profile]\<rparr>))"

definition rename_ssh :: "profile_id \<Rightarrow> str \<Rightarrow> endpoint_catalog \<Rightarrow> (str + bool) \<times> endpoint_catalog" where
  "rename_ssh i label c =
    (case position (\<lambda>p. se_id p = i) (ec_ssh c) of
       None \<Rightarrow> (Inr False, c)
     | Some k \<Rightarrow>
         let renamed = (ec_ssh c ! k)\<lparr>se_label := label\<rparr>
         in (case validate_profile renamed of
               Inl e \<Rightarrow> (Inl e, c)
             | Inr _ \<Rightarrow> (Inr True, c\<lparr>ec_ssh := (ec_ssh c)[k := renamed]\<rparr>)))"

definition remove_ssh :: "profile_id \<Rightarrow> endpoint_catalog \<Rightarrow> bool \<times> endpoint_catalog" where
  "remove_ssh i c =
    (let kept = filter (\<lambda>p. se_id p \<noteq> i) (ec_ssh c)
     in (length kept \<noteq> length (ec_ssh c),
         c\<lparr>ec_ssh := kept, selected_profile := (if selected_profile c = Some i then None else selected_profile c)\<rparr>))"

definition select_local :: "endpoint_catalog \<Rightarrow> endpoint_catalog" where
  "select_local c = c\<lparr>selected_profile := None\<rparr>"

definition is_enabled :: "profile_id \<Rightarrow> endpoint_catalog \<Rightarrow> bool" where
  "is_enabled i c \<longleftrightarrow> list_ex (\<lambda>p. se_id p = i \<and> se_enabled p) (ec_ssh c)"

definition select_ssh :: "profile_id \<Rightarrow> endpoint_catalog \<Rightarrow> bool \<times> endpoint_catalog" where
  "select_ssh i c = (if \<not> is_enabled i c then (False, c) else (True, c\<lparr>selected_profile := Some i\<rparr>))"

definition select_endpoint :: "client_endpoint_id \<Rightarrow> endpoint_catalog \<Rightarrow> bool \<times> endpoint_catalog" where
  "select_endpoint e c = (case e of Local \<Rightarrow> (True, select_local c) | Ssh i \<Rightarrow> select_ssh i c)"

definition has_enabled_ssh :: "endpoint_catalog \<Rightarrow> bool" where
  "has_enabled_ssh c \<longleftrightarrow> list_ex se_enabled (ec_ssh c)"

definition contains_enabled_target_session :: "str \<Rightarrow> str \<Rightarrow> endpoint_catalog \<Rightarrow> bool" where
  "contains_enabled_target_session target session c \<longleftrightarrow>
     list_ex (\<lambda>p. se_enabled p \<and> se_target p = target \<and> se_session p = session) (ec_ssh c)"

definition set_enabled :: "profile_id \<Rightarrow> bool \<Rightarrow> endpoint_catalog \<Rightarrow> bool \<times> endpoint_catalog" where
  "set_enabled i enabled c =
    (case update_first (\<lambda>p. se_id p = i) (\<lambda>p. p\<lparr>se_enabled := enabled\<rparr>) (ec_ssh c) of
       None \<Rightarrow> (False, c)
     | Some ps \<Rightarrow>
         (True, c\<lparr>ec_ssh := ps,
                  selected_profile := (if \<not> enabled \<and> selected_profile c = Some i then None else selected_profile c)\<rparr>))"

text \<open>The loop of \<open>validate\<close>, with the ids seen so far.\<close>

fun validate_profiles :: "profile_id set \<Rightarrow> saved_ssh_endpoint list \<Rightarrow> str + unit" where
  "validate_profiles ids [] = Inr ()"
| "validate_profiles ids (p # ps) =
     and_then (validate_profile p) (\<lambda>_.
       if se_id p \<in> ids then Inl (lit ''duplicate endpoint profile id '' @ se_id p)
       else validate_profiles (insert (se_id p) ids) ps)"

definition validate_catalog :: "endpoint_catalog \<Rightarrow> str + unit" where
  "validate_catalog c =
    (if ec_version c \<noteq> 1
     then Inl (lit ''unsupported endpoint catalog version '' @ decimal (unat (ec_version c)) @ lit ''; expected 1'')
     else if 64 < length (ec_ssh c) then Inl (lit ''endpoint catalog contains more than 64 SSH profiles'')
     else and_then (validate_profiles {} (ec_ssh c)) (\<lambda>_.
       if (case selected_profile c of None \<Rightarrow> False | Some i \<Rightarrow> \<not> is_enabled i c)
       then Inl (lit ''selected SSH endpoint is absent or disabled in the catalog'') else Inr ()))"

text \<open>
  \<open>load_from_paths\<close>, given what the two files hold: the catalog, and the saved selection, absent or unreadable.
\<close>

definition with_selection :: "(str + profile_id option option) \<Rightarrow> endpoint_catalog \<Rightarrow> endpoint_catalog" where
  "with_selection saved c =
    (case saved of
       Inr (Some selected) \<Rightarrow>
         if (case selected of None \<Rightarrow> True | Some i \<Rightarrow> is_enabled i c) then c\<lparr>selected_profile := selected\<rparr> else c
     | Inr None \<Rightarrow> c
     | Inl _ \<Rightarrow> c)"

section \<open>Runs\<close>

datatype catalog_op =
  AddSsh profile_id str str str | RenameSsh profile_id str | RemoveSsh profile_id | SelectEndpoint client_endpoint_id
  | SetEnabled profile_id bool | LoadSelection "str + profile_id option option"

fun catalog_step :: "endpoint_catalog \<Rightarrow> catalog_op \<Rightarrow> endpoint_catalog" where
  "catalog_step c (AddSsh generated label target session) = snd (add_ssh generated label target session c)"
| "catalog_step c (RenameSsh i label) = snd (rename_ssh i label c)"
| "catalog_step c (RemoveSsh i) = snd (remove_ssh i c)"
| "catalog_step c (SelectEndpoint e) = snd (select_endpoint e c)"
| "catalog_step c (SetEnabled i enabled) = snd (set_enabled i enabled c)"
| "catalog_step c (LoadSelection saved) = with_selection saved c"

text \<open>A generated id is the id of no saved profile; that it is well formed is checked.\<close>

fun catalog_ok :: "endpoint_catalog \<Rightarrow> catalog_op \<Rightarrow> bool" where
  "catalog_ok c (AddSsh generated _ _ _) = (generated \<notin> se_id ` set (ec_ssh c))"
| "catalog_ok c _ = True"

definition selection_ok :: "profile_id option \<Rightarrow> saved_ssh_endpoint list \<Rightarrow> bool" where
  "selection_ok sel ps \<longleftrightarrow> (\<forall>i. sel = Some i \<longrightarrow> (\<exists>p \<in> set ps. se_id p = i \<and> se_enabled p))"

lemma validate_profiles_iff:
  "validate_profiles ids ps = Inr () \<longleftrightarrow>
     (\<forall>p \<in> set ps. validate_profile p = Inr ()) \<and> distinct (map se_id ps) \<and> ids \<inter> se_id ` set ps = {}"
  by (induction ps arbitrary: ids) (auto simp: and_then_Inr)

lemma validate_iff:
  "validate_catalog c = Inr () \<longleftrightarrow>
     ec_version c = 1 \<and> length (ec_ssh c) \<le> 64 \<and> (\<forall>p \<in> set (ec_ssh c). validate_profile p = Inr ())
     \<and> distinct (map se_id (ec_ssh c)) \<and> selection_ok (selected_profile c) (ec_ssh c)"
  by (auto simp: validate_catalog_def validate_profiles_iff and_then_Inr is_enabled_def list_ex_iff selection_ok_def
      split: option.splits if_splits)

lemma selection_ok_mono:
  "selection_ok sel ps \<Longrightarrow> (\<And>p. p \<in> set ps \<Longrightarrow> se_enabled p \<Longrightarrow> sel = Some (se_id p) \<Longrightarrow>
     \<exists>q \<in> set qs. se_id q = se_id p \<and> se_enabled q) \<Longrightarrow> selection_ok sel qs"
  by (metis selection_ok_def)

lemma validate_enabled: "validate_profile (p\<lparr>se_enabled := e\<rparr>) = validate_profile p"
  by (simp add: validate_profile_def Let_def cong: option.case_cong)

lemma selection_ok_append: "selection_ok sel ps \<Longrightarrow> selection_ok sel (ps @ qs)"
  by (fastforce simp: selection_ok_def)

lemma add_ssh_valid:
  assumes "validate_catalog c = Inr ()" "generated \<notin> se_id ` set (ec_ssh c)"
  shows "validate_catalog (snd (add_ssh generated label target session c)) = Inr ()"
proof (cases "64 \<le> length (ec_ssh c) \<or> (\<exists>e. new_profile generated label target session = Inl e)")
  case True
  then show ?thesis using assms by (auto simp: add_ssh_def)
next
  case False
  then obtain p where p: "new_profile generated label target session = Inr p" by (cases "new_profile generated label target session") auto
  then have "validate_profile p = Inr ()" "se_id p = generated" by (auto simp: new_profile_def Let_def and_then_Inr)
  then show ?thesis
    using assms p False by (auto simp: validate_iff add_ssh_def intro: selection_ok_append)
qed

lemma rename_ssh_valid:
  assumes "validate_catalog c = Inr ()"
  shows "validate_catalog (snd (rename_ssh i label c)) = Inr ()"
proof (cases "position (\<lambda>p. se_id p = i) (ec_ssh c)")
  case None
  then show ?thesis using assms by (simp add: rename_ssh_def)
next
  case (Some k)
  let ?r = "(ec_ssh c ! k)\<lparr>se_label := label\<rparr>"
  have k: "k < length (ec_ssh c)" using position_Some [OF Some] by simp
  show ?thesis
  proof (cases "validate_profile ?r")
    case (Inl e)
    then show ?thesis using assms Some by (simp add: rename_ssh_def Let_def)
  next
    case (Inr u)
    have ids: "map se_id ((ec_ssh c)[k := ?r]) = map se_id (ec_ssh c)"
      using k by (simp add: map_update list_update_same_conv)
    have "selection_ok (selected_profile c) ((ec_ssh c)[k := ?r])"
    proof (rule selection_ok_mono)
      show "selection_ok (selected_profile c) (ec_ssh c)" using assms by (simp add: validate_iff)
    next
      fix p assume p: "p \<in> set (ec_ssh c)" "se_enabled p"
      then obtain j where j: "j < length (ec_ssh c)" "p = ec_ssh c ! j" by (auto simp: in_set_conv_nth)
      then show "\<exists>q \<in> set ((ec_ssh c)[k := ?r]). se_id q = se_id p \<and> se_enabled q"
        using p by (cases "j = k") (auto simp: in_set_conv_nth intro!: exI [of _ j] bexI [of _ "(ec_ssh c)[k := ?r] ! j"])
    qed
    moreover have "validate_profile q = Inr ()" if "q \<in> set ((ec_ssh c)[k := ?r])" for q
      using that assms Inr set_update_subset_insert [of "ec_ssh c" k ?r] by (auto simp: validate_iff)
    ultimately show ?thesis using assms Some Inr ids by (simp add: rename_ssh_def Let_def validate_iff)
  qed
qed

lemma set_enabled_valid:
  assumes "validate_catalog c = Inr ()"
  shows "validate_catalog (snd (set_enabled i enabled c)) = Inr ()"
proof (cases "update_first (\<lambda>p. se_id p = i) (\<lambda>p. p\<lparr>se_enabled := enabled\<rparr>) (ec_ssh c)")
  case None
  then show ?thesis using assms by (simp add: set_enabled_def)
next
  case (Some ps)
  obtain us p vs where u: "ec_ssh c = us @ p # vs" "ps = us @ p\<lparr>se_enabled := enabled\<rparr> # vs" "se_id p = i"
    using update_first_Some [OF Some] by auto
  show ?thesis
    using assms Some u by (auto simp: set_enabled_def validate_iff validate_enabled selection_ok_def)
qed

interpretation catalog: machine catalog_step catalog_ok "\<lambda>c. validate_catalog c = Inr ()"
proof
  fix c x assume v: "validate_catalog c = Inr ()" and o: "catalog_ok c x"
  show "validate_catalog (catalog_step c x) = Inr ()"
  proof (cases x)
    case (RemoveSsh i)
    then show ?thesis using v
      by (auto simp: remove_ssh_def Let_def validate_iff selection_ok_def distinct_map_filter intro: order_trans [OF length_filter_le])
  next
    case (SelectEndpoint e)
    then show ?thesis using v
      by (auto simp: select_endpoint_def select_local_def select_ssh_def is_enabled_def list_ex_iff validate_iff selection_ok_def
          split: client_endpoint_id.split)
  next
    case (LoadSelection saved)
    then show ?thesis using v
      by (auto simp: with_selection_def is_enabled_def list_ex_iff validate_iff selection_ok_def split: sum.split option.split)
  qed (use v o in \<open>simp_all add: add_ssh_valid rename_ssh_valid set_enabled_valid\<close>)
qed

section \<open>Properties\<close>

text \<open>
  C33: whatever is added, renamed, removed, selected, enabled or disabled, the catalog stays one that \<open>validate\<close>
  accepts, so that it can be stored: its profiles are well formed, their ids are distinct, and the selected one exists
  and is enabled; all that is asked is that generated ids are new.
\<close>

theorem catalog_stays_valid:
  assumes "validate_catalog c = Inr ()" "ok_run catalog_step catalog_ok c ops"
  shows "validate_catalog (foldl catalog_step c ops) = Inr ()"
  using assms by (rule catalog.run_inv)

definition demo_id :: profile_id where
  "demo_id = lit ''0123456789abcdef0123456789abcdef''"

definition demo_ops :: "catalog_op list" where
  "demo_ops = [AddSsh demo_id (lit ''Build'') (lit ''ssh://dev@build:2222'') (lit ''agents''),
               SelectEndpoint (Ssh demo_id), RenameSsh demo_id (lit ''Box'')]"

lemma demo_profile: "validate_profile \<lparr>se_id = demo_id, se_label = l, se_target = lit ''ssh://dev@build:2222'', se_session = lit ''agents'', se_enabled = e\<rparr> = Inr ()"
  if "l = lit ''Build'' \<or> l = lit ''Box''"
  using that by (elim disjE) (simp_all add: validate_profile_def parse_profile_id_def validate_remote_target_def validate_name_def
      demo_id_def lit_def str_len_def utf8_char_def is_ascii_digit_def is_ascii_alphanumeric_def is_control_def is_whitespace_def
      trim_def strip_prefix_def rsplit_at_def Let_def)

theorem catalog_stays_valid_witness:
  "validate_catalog (foldl catalog_step default_catalog demo_ops) = Inr ()
   \<and> selected_profile (foldl catalog_step default_catalog demo_ops) = Some demo_id
   \<and> map se_label (ec_ssh (foldl catalog_step default_catalog demo_ops)) = [lit ''Box'']"
proof -
  have d: "validate_catalog default_catalog = Inr ()" by (simp add: validate_iff default_catalog_def selection_ok_def)
  have r: "foldl catalog_step default_catalog demo_ops
      = default_catalog\<lparr>selected_profile := Some demo_id,
          ec_ssh := [\<lparr>se_id = demo_id, se_label = lit ''Box'', se_target = lit ''ssh://dev@build:2222'',
                      se_session = lit ''agents'', se_enabled = True\<rparr>]\<rparr>"
    by (simp add: demo_ops_def add_ssh_def new_profile_def demo_profile select_endpoint_def select_ssh_def is_enabled_def
        rename_ssh_def default_catalog_def Let_def)
  have "validate_catalog (foldl catalog_step default_catalog demo_ops) = Inr ()"
    by (rule catalog_stays_valid [OF d]) (simp add: demo_ops_def default_catalog_def)
  then show ?thesis by (simp add: r)
qed

end
