(* ===== verification/EndpointRegistry.thy ===== *)
theory EndpointRegistry
  imports EndpointCatalog "HOL-Library.AList" "HOL-Library.Multiset"
begin

text \<open>
  The connections of a client to its machines: their heartbeat (\<open>client/endpoint/health.rs\<close>) and the registry
  (\<open>client/endpoint/registry.rs\<close>). Instants are milliseconds; the clock, where the code reads it, is an argument. A
  transport is a value of type \<open>'tr\<close> and the operations of the trait are the record \<open>transport_ops\<close>; the one of the
  product is a socket with its threads. The order in which a \<open>HashMap\<close> is walked is the argument \<open>walk\<close>.
\<close>

section \<open>Heartbeats\<close>

datatype health_action = NoAction | Ping | Expired

definition HEARTBEAT_INTERVAL :: nat where "HEARTBEAT_INTERVAL = 5000"
definition HEARTBEAT_TIMEOUT :: nat where "HEARTBEAT_TIMEOUT = 10000"

record endpoint_health =
  connected_at :: nat
  last_received :: nat
  ping_sent_at :: "nat option"
  is_ready :: bool

definition health_new :: "nat \<Rightarrow> endpoint_health" where
  "health_new now = \<lparr>connected_at = now, last_received = now, ping_sent_at = None, is_ready = False\<rparr>"

definition health_received :: "nat \<Rightarrow> endpoint_health \<Rightarrow> endpoint_health" where
  "health_received now h = h\<lparr>last_received := now, ping_sent_at := None\<rparr>"

definition health_ready :: "endpoint_health \<Rightarrow> endpoint_health" where
  "health_ready h = h\<lparr>is_ready := True\<rparr>"

definition ping_sent :: "nat \<Rightarrow> endpoint_health \<Rightarrow> endpoint_health" where
  "ping_sent now h = h\<lparr>ping_sent_at := Some now\<rparr>"

definition next_action :: "nat \<Rightarrow> endpoint_health \<Rightarrow> health_action" where
  "next_action now h =
    (let initial_snapshot_expired = \<not> is_ready h \<and> HEARTBEAT_TIMEOUT \<le> now - connected_at h;
         probe_expired = (case ping_sent_at h of None \<Rightarrow> False | Some sent_at \<Rightarrow> HEARTBEAT_TIMEOUT \<le> now - sent_at)
     in if initial_snapshot_expired \<or> probe_expired then Expired
        else if ping_sent_at h = None \<and> HEARTBEAT_INTERVAL \<le> now - last_received h then Ping
        else NoAction)"

section \<open>Connections\<close>

datatype io_error_kind =
  NotFound | PermissionDenied | ConnectionRefused | ConnectionAborted | NotConnected | BrokenPipe | InvalidInput
  | InvalidData | TimedOut | Unsupported | UnexpectedEof | OtherKind

record transport_error =
  ie_kind :: io_error_kind
  ie_message :: str

text \<open>The messages to a server this component sends itself or its callers build; \<open>'m\<close> stands for the others.\<close>

datatype 'm client_message =
  EndpointControl str str | Detach | ClientShellEndpointRequest str str | OtherMessage 'm

record ('tr, 'm) transport_ops =
  tr_send :: "'m client_message \<Rightarrow> 'tr \<Rightarrow> (transport_error + unit) \<times> 'tr"
  tr_disconnect :: "'tr \<Rightarrow> 'tr"
  tr_flush :: "nat \<Rightarrow> 'tr \<Rightarrow> (transport_error + unit) \<times> 'tr"
  tr_take_error :: "'tr \<Rightarrow> transport_error option \<times> 'tr"

record endpoint_negotiation =
  ng_methods :: "str set"
  ng_capabilities :: "str set"

definition negotiation_new :: "str list \<Rightarrow> str list \<Rightarrow> endpoint_negotiation" where
  "negotiation_new methods capabilities = \<lparr>ng_methods = set methods, ng_capabilities = set capabilities\<rparr>"

definition supports_surface_interest :: "endpoint_negotiation \<Rightarrow> bool" where
  "supports_surface_interest n \<longleftrightarrow>
     lit ''surface_interest'' \<in> ng_capabilities n \<and> lit ''presentation_effects_fence'' \<in> ng_capabilities n
     \<and> lit ''client_shell.surface.set'' \<in> ng_methods n"

definition supports_health_check :: "endpoint_negotiation \<Rightarrow> bool" where
  "supports_health_check n \<longleftrightarrow> lit ''health_check'' \<in> ng_capabilities n"

record 'tr endpoint_connection =
  cn_transport :: 'tr
  cn_generation :: u64
  cn_surface_active :: bool
  cn_negotiation :: endpoint_negotiation
  cn_health :: "endpoint_health option"

record endpoint_failure =
  ef_endpoint :: client_endpoint_id
  ef_generation :: u64
  ef_kind :: io_error_kind
  ef_message :: str

text \<open>
  The registry. \<open>er_closed\<close> is a log of the effects, which the code does not keep: the transports it disconnected, with
  the generation of their connection, in order.
\<close>

record 'tr endpoint_registry =
  er_active :: client_endpoint_id
  er_input_enabled :: bool
  er_connections :: "(client_endpoint_id \<times> 'tr endpoint_connection) list"
  er_failures :: "endpoint_failure list"
  er_closed :: "(u64 \<times> 'tr) list"

type_synonym endpoint_order = "client_endpoint_id list \<Rightarrow> client_endpoint_id list"

datatype send_outcome = Sent | NotSent

section \<open>The registry\<close>

definition connection :: "client_endpoint_id \<Rightarrow> 'tr endpoint_registry \<Rightarrow> 'tr endpoint_connection option" where
  "connection i s = map_of (er_connections s) i"

definition registry_empty :: "'tr endpoint_registry" where
  "registry_empty = \<lparr>er_active = Local, er_input_enabled = False, er_connections = [], er_failures = [], er_closed = []\<rparr>"

definition close_transport :: "('tr, 'm) transport_ops \<Rightarrow> 'tr endpoint_connection \<Rightarrow> 'tr endpoint_registry \<Rightarrow> 'tr endpoint_registry" where
  "close_transport ops c s = s\<lparr>er_closed := er_closed s @ [(cn_generation c, tr_disconnect ops (cn_transport c))]\<rparr>"

definition modify_connection ::
  "client_endpoint_id \<Rightarrow> ('tr endpoint_connection \<Rightarrow> 'tr endpoint_connection) \<Rightarrow> 'tr endpoint_registry \<Rightarrow> 'tr endpoint_registry" where
  "modify_connection i f s = s\<lparr>er_connections := AList.map_entry i f (er_connections s)\<rparr>"

definition remove_connection :: "('tr, 'm) transport_ops \<Rightarrow> client_endpoint_id \<Rightarrow> 'tr endpoint_registry \<Rightarrow> 'tr endpoint_registry" where
  "remove_connection ops i s =
    (case connection i s of
       None \<Rightarrow> s
     | Some c \<Rightarrow> close_transport ops c (s\<lparr>er_connections := AList.delete i (er_connections s)\<rparr>))"

definition insert_connection ::
  "('tr, 'm) transport_ops \<Rightarrow> nat \<Rightarrow> client_endpoint_id \<Rightarrow> 'tr \<Rightarrow> u64 \<Rightarrow> endpoint_negotiation \<Rightarrow> bool
    \<Rightarrow> 'tr endpoint_registry \<Rightarrow> 'tr endpoint_registry" where
  "insert_connection ops now i transport generation negotiation surface_active s =
    (let health = (if \<not> is_local i \<and> supports_health_check negotiation then Some (health_new now) else None);
         s' = s\<lparr>er_connections := AList.update i
                 \<lparr>cn_transport = transport, cn_generation = generation, cn_surface_active = surface_active,
                  cn_negotiation = negotiation, cn_health = health\<rparr> (er_connections s)\<rparr>
     in case connection i s of None \<Rightarrow> s' | Some previous \<Rightarrow> close_transport ops previous s')"

definition registry_new :: "('tr, 'm) transport_ops \<Rightarrow> nat \<Rightarrow> 'tr \<Rightarrow> u64 \<Rightarrow> endpoint_negotiation \<Rightarrow> 'tr endpoint_registry" where
  "registry_new ops now local generation negotiation =
     insert_connection ops now Local local generation negotiation True (registry_empty\<lparr>er_input_enabled := True\<rparr>)"

definition active_surface_available :: "'tr endpoint_registry \<Rightarrow> bool" where
  "active_surface_available s \<longleftrightarrow>
     er_input_enabled s
     \<and> (case connection (er_active s) s of None \<Rightarrow> False | Some c \<Rightarrow> cn_surface_active c)"

definition freeze_input :: "'tr endpoint_registry \<Rightarrow> 'tr endpoint_registry" where
  "freeze_input s = s\<lparr>er_input_enabled := False\<rparr>"

definition unfreeze_input :: "'tr endpoint_registry \<Rightarrow> 'tr endpoint_registry" where
  "unfreeze_input s = s\<lparr>er_input_enabled := True\<rparr>"

definition select_unavailable_local :: "'tr endpoint_registry \<Rightarrow> 'tr endpoint_registry" where
  "select_unavailable_local s = freeze_input (s\<lparr>er_active := Local\<rparr>)"

definition accepts_generation :: "client_endpoint_id \<Rightarrow> u64 \<Rightarrow> 'tr endpoint_registry \<Rightarrow> bool" where
  "accepts_generation i generation s \<longleftrightarrow>
     (case connection i s of None \<Rightarrow> False | Some c \<Rightarrow> cn_generation c = generation)"

definition update_health :: "(endpoint_health \<Rightarrow> endpoint_health) \<Rightarrow> 'tr endpoint_connection \<Rightarrow> 'tr endpoint_connection" where
  "update_health f c = c\<lparr>cn_health := map_option f (cn_health c)\<rparr>"

definition registry_received :: "client_endpoint_id \<Rightarrow> u64 \<Rightarrow> nat \<Rightarrow> 'tr endpoint_registry \<Rightarrow> 'tr endpoint_registry" where
  "registry_received i generation now s =
    (if accepts_generation i generation s then modify_connection i (update_health (health_received now)) s else s)"

definition mark_ready :: "client_endpoint_id \<Rightarrow> u64 \<Rightarrow> 'tr endpoint_registry \<Rightarrow> 'tr endpoint_registry" where
  "mark_ready i generation s =
    (if accepts_generation i generation s then modify_connection i (update_health health_ready) s else s)"

definition set_active :: "client_endpoint_id \<Rightarrow> 'tr endpoint_registry \<Rightarrow> bool \<times> 'tr endpoint_registry" where
  "set_active i s =
    (if \<not> (case connection i s of None \<Rightarrow> False | Some c \<Rightarrow> cn_surface_active c) then (False, s)
     else (True, s\<lparr>er_active := i\<rparr>))"

definition set_surface_active :: "client_endpoint_id \<Rightarrow> bool \<Rightarrow> 'tr endpoint_registry \<Rightarrow> bool \<times> 'tr endpoint_registry" where
  "set_surface_active i active s =
    (case connection i s of
       None \<Rightarrow> (False, s)
     | Some c \<Rightarrow> (cn_surface_active c \<noteq> active, modify_connection i (\<lambda>c. c\<lparr>cn_surface_active := active\<rparr>) s))"

definition record_failure :: "('tr, 'm) transport_ops \<Rightarrow> client_endpoint_id \<Rightarrow> transport_error \<Rightarrow> 'tr endpoint_registry \<Rightarrow> 'tr endpoint_registry" where
  "record_failure ops i error s =
    (case connection i s of
       None \<Rightarrow> s
     | Some c \<Rightarrow>
         let failure = \<lparr>ef_endpoint = i, ef_generation = cn_generation c, ef_kind = ie_kind error,
                        ef_message = ie_message error\<rparr>;
             s' = remove_connection ops i s
         in s'\<lparr>er_failures :=
                 (case update_first (\<lambda>f. ef_endpoint f = i) (\<lambda>_. failure) (er_failures s') of
                    Some fs \<Rightarrow> fs | None \<Rightarrow> er_failures s' @ [failure])\<rparr>)"

definition send_to ::
  "('tr, 'm) transport_ops \<Rightarrow> client_endpoint_id \<Rightarrow> 'm client_message \<Rightarrow> 'tr endpoint_registry
    \<Rightarrow> send_outcome \<times> 'tr endpoint_registry" where
  "send_to ops i message s =
    (case connection i s of
       None \<Rightarrow>
         (NotSent, record_failure ops i \<lparr>ie_kind = NotConnected, ie_message = lit ''endpoint is unavailable''\<rparr> s)
     | Some c \<Rightarrow>
         let (result, transport) = tr_send ops message (cn_transport c);
             s' = modify_connection i (\<lambda>c. c\<lparr>cn_transport := transport\<rparr>) s
         in (case result of Inr _ \<Rightarrow> (Sent, s') | Inl error \<Rightarrow> (NotSent, record_failure ops i error s')))"

definition send_active ::
  "('tr, 'm) transport_ops \<Rightarrow> 'm client_message \<Rightarrow> 'tr endpoint_registry \<Rightarrow> send_outcome \<times> 'tr endpoint_registry" where
  "send_active ops message s = send_to ops (er_active s) message s"

definition registry_disconnect :: "('tr, 'm) transport_ops \<Rightarrow> client_endpoint_id \<Rightarrow> 'tr endpoint_registry \<Rightarrow> 'tr endpoint_registry" where
  "registry_disconnect ops i s =
     remove_connection ops i (s\<lparr>er_failures := filter (\<lambda>f. ef_endpoint f \<noteq> i) (er_failures s)\<rparr>)"

text \<open>The entries of the map, in the order of a walk over its keys.\<close>

definition connection_entries :: "endpoint_order \<Rightarrow> 'tr endpoint_registry \<Rightarrow> (client_endpoint_id \<times> 'tr endpoint_connection) list" where
  "connection_entries walk s =
     List.map_filter (\<lambda>i. map_option (Pair i) (connection i s)) (walk (map fst (er_connections s)))"

definition health_ping :: "'m client_message" where
  "health_ping = EndpointControl (lit ''endpoint.health.ping.v1'') []"

definition health_actions :: "endpoint_order \<Rightarrow> nat \<Rightarrow> 'tr endpoint_registry \<Rightarrow> (client_endpoint_id \<times> health_action) list" where
  "health_actions walk now s =
     filter (\<lambda>(_, action). action \<noteq> NoAction)
       (List.map_filter (\<lambda>(i, c). map_option (\<lambda>h. (i, next_action now h)) (cn_health c)) (connection_entries walk s))"

definition take_action ::
  "('tr, 'm) transport_ops \<Rightarrow> nat \<Rightarrow> 'tr endpoint_registry \<Rightarrow> client_endpoint_id \<times> health_action \<Rightarrow> 'tr endpoint_registry" where
  "take_action ops now s a =
    (case a of
       (i, NoAction) \<Rightarrow> s
     | (i, Ping) \<Rightarrow>
         let (outcome, s') = send_to ops i health_ping s
         in if outcome = Sent then modify_connection i (update_health (ping_sent now)) s' else s'
     | (i, Expired) \<Rightarrow>
         record_failure ops i \<lparr>ie_kind = TimedOut, ie_message = lit ''endpoint health check timed out''\<rparr> s)"

definition tick_health :: "('tr, 'm) transport_ops \<Rightarrow> endpoint_order \<Rightarrow> nat \<Rightarrow> 'tr endpoint_registry \<Rightarrow> 'tr endpoint_registry" where
  "tick_health ops walk now s = foldl (take_action ops now) s (health_actions walk now s)"

text \<open>\<open>take_failures\<close>: first every transport is asked for its error, then the errors are recorded.\<close>

definition ask_error ::
  "('tr, 'm) transport_ops \<Rightarrow> 'tr endpoint_registry \<times> (client_endpoint_id \<times> transport_error) list \<Rightarrow> client_endpoint_id
    \<Rightarrow> 'tr endpoint_registry \<times> (client_endpoint_id \<times> transport_error) list" where
  "ask_error ops st i =
    (let (s, errors) = st
     in case connection i s of
          None \<Rightarrow> (s, errors)
        | Some c \<Rightarrow>
            let (e, transport) = tr_take_error ops (cn_transport c)
            in (modify_connection i (\<lambda>c. c\<lparr>cn_transport := transport\<rparr>) s,
                case e of None \<Rightarrow> errors | Some error \<Rightarrow> errors @ [(i, error)]))"

definition take_failures ::
  "('tr, 'm) transport_ops \<Rightarrow> endpoint_order \<Rightarrow> 'tr endpoint_registry \<Rightarrow> endpoint_failure list \<times> 'tr endpoint_registry" where
  "take_failures ops walk s =
    (let (s1, errors) = foldl (ask_error ops) (s, []) (walk (map fst (er_connections s)));
         s2 = foldl (\<lambda>s (i, error). record_failure ops i error s) s1 errors
     in (er_failures s2, s2\<lparr>er_failures := []\<rparr>))"

text \<open>
  \<open>Drop\<close>: every server is told, then every transport is flushed and disconnected; errors are ignored, and the
  deadline is a quarter of a second away.
\<close>

definition registry_drop :: "('tr, 'm) transport_ops \<Rightarrow> nat \<Rightarrow> endpoint_order \<Rightarrow> 'tr endpoint_registry \<Rightarrow> 'tr list" where
  "registry_drop ops now walk s =
    (let told = map (\<lambda>(i, c). snd (tr_send ops Detach (cn_transport c))) (connection_entries walk s)
     in map (\<lambda>t. tr_disconnect ops (snd (tr_flush ops (now + 250) t))) told)"

end
