(* ===== verification/EndpointRegistryRuns.thy ===== *)
theory EndpointRegistryRuns
  imports EndpointRegistry
begin

text \<open>
  What the registry of connections guarantees over any sequence of its operations: every transport is closed once, and
  a link is given up only when it has been silent, and is when it has.
\<close>

section \<open>No transport is leaked or closed twice\<close>

datatype ('tr, 'm) registry_op =
  InsertConnection client_endpoint_id 'tr u64 endpoint_negotiation bool nat
  | ServerReceived client_endpoint_id u64 nat | MarkReady client_endpoint_id u64
  | TickHealth endpoint_order nat | SetActive client_endpoint_id | SetSurfaceActive client_endpoint_id bool
  | SendTo client_endpoint_id "'m client_message" | SendActive "'m client_message"
  | DisconnectEndpoint client_endpoint_id | FailEndpoint client_endpoint_id transport_error
  | TakeFailures endpoint_order | SelectUnavailableLocal | FreezeInput | UnfreezeInput

fun registry_step :: "('tr, 'm) transport_ops \<Rightarrow> 'tr endpoint_registry \<Rightarrow> ('tr, 'm) registry_op \<Rightarrow> 'tr endpoint_registry" where
  "registry_step ops s (InsertConnection i t g n a now) = insert_connection ops now i t g n a s"
| "registry_step ops s (ServerReceived i g now) = registry_received i g now s"
| "registry_step ops s (MarkReady i g) = mark_ready i g s"
| "registry_step ops s (TickHealth walk now) = tick_health ops walk now s"
| "registry_step ops s (SetActive i) = snd (set_active i s)"
| "registry_step ops s (SetSurfaceActive i a) = snd (set_surface_active i a s)"
| "registry_step ops s (SendTo i m) = snd (send_to ops i m s)"
| "registry_step ops s (SendActive m) = snd (send_active ops m s)"
| "registry_step ops s (DisconnectEndpoint i) = registry_disconnect ops i s"
| "registry_step ops s (FailEndpoint i e) = record_failure ops i e s"
| "registry_step ops s (TakeFailures walk) = snd (take_failures ops walk s)"
| "registry_step ops s SelectUnavailableLocal = select_unavailable_local s"
| "registry_step ops s FreezeInput = freeze_input s"
| "registry_step ops s UnfreezeInput = unfreeze_input s"

definition live_generations :: "'tr endpoint_registry \<Rightarrow> u64 multiset" where
  "live_generations s = mset (map (cn_generation \<circ> snd) (er_connections s))"

definition closed_generations :: "'tr endpoint_registry \<Rightarrow> u64 multiset" where
  "closed_generations s = mset (map fst (er_closed s))"

definition generations :: "'tr endpoint_registry \<Rightarrow> u64 multiset" where
  "generations s = live_generations s + closed_generations s"

text \<open>The generations of the connections a run inserts.\<close>

fun inserted :: "('tr, 'm) registry_op \<Rightarrow> u64 multiset" where
  "inserted (InsertConnection i t g n a now) = {#g#}"
| "inserted _ = {#}"

definition registry_inv :: "'tr endpoint_registry \<Rightarrow> bool" where
  "registry_inv s \<longleftrightarrow>
     distinct (map fst (er_connections s)) \<and> distinct (map ef_endpoint (er_failures s))
     \<and> (\<forall>f \<in> set (er_failures s). ef_generation f \<in># closed_generations s)"

text \<open>What an operation that inserts nothing keeps.\<close>

definition keeps :: "'tr endpoint_registry \<Rightarrow> 'tr endpoint_registry \<Rightarrow> bool" where
  "keeps s s' \<longleftrightarrow> (registry_inv s \<longrightarrow> registry_inv s' \<and> generations s' = generations s)"

lemma keeps_refl [simp, intro]: "keeps s s"
  by (simp add: keeps_def)

lemma keeps_trans: "keeps s t \<Longrightarrow> keeps t u \<Longrightarrow> keeps s u"
  by (auto simp: keeps_def)

lemma keeps_foldl: "(\<And>s x. keeps s (f s x)) \<Longrightarrow> keeps s (foldl f s xs)"
  by (induction xs arbitrary: s) (auto intro: keeps_trans)

lemma map_entry_fst: "map fst (AList.map_entry i f xs) = map fst xs"
  by (induction xs) auto

lemma map_entry_generation:
  "(\<And>c. cn_generation (f c) = cn_generation c) \<Longrightarrow>
   map (cn_generation \<circ> snd) (AList.map_entry i f xs) = map (cn_generation \<circ> snd) xs"
  by (induction xs) auto

lemma keeps_modify:
  "(\<And>c. cn_generation (f c) = cn_generation c) \<Longrightarrow> keeps s (modify_connection i f s)"
  by (simp add: keeps_def registry_inv_def generations_def live_generations_def closed_generations_def modify_connection_def
      map_entry_generation map_entry_fst)

lemma keeps_fields:
  "keeps s (s\<lparr>er_active := a\<rparr>)" "keeps s (s\<lparr>er_input_enabled := e\<rparr>)" "keeps s (s\<lparr>er_failures := []\<rparr>)"
  "keeps s (s\<lparr>er_failures := filter p (er_failures s)\<rparr>)"
  by (auto simp: keeps_def registry_inv_def generations_def live_generations_def closed_generations_def distinct_map_filter)

lemma delete_generations:
  "distinct (map fst xs) \<Longrightarrow> map_of xs i = Some c \<Longrightarrow>
   mset (map (cn_generation \<circ> snd) xs) = add_mset (cn_generation c) (mset (map (cn_generation \<circ> snd) (AList.delete i xs)))"
proof (induction xs)
  case (Cons x xs)
  have "AList.delete i xs = xs" if "fst x = i" using Cons.prems that by (simp add: delete_id)
  with Cons show ?case by (auto split: if_splits)
qed simp

lemma keeps_remove: "keeps s (remove_connection ops i s)"
proof (cases "connection i s")
  case (Some c)
  show ?thesis
    unfolding keeps_def
  proof
    assume inv: "registry_inv s"
    have "distinct (map fst (er_connections s))" using inv by (simp add: registry_inv_def)
    then have "mset (map (cn_generation \<circ> snd) (er_connections s))
        = add_mset (cn_generation c) (mset (map (cn_generation \<circ> snd) (AList.delete i (er_connections s))))"
      using Some by (intro delete_generations) (simp_all add: connection_def)
    then show "registry_inv (remove_connection ops i s) \<and> generations (remove_connection ops i s) = generations s"
      using inv Some by (auto simp: remove_connection_def close_transport_def registry_inv_def generations_def
          live_generations_def closed_generations_def distinct_delete)
  qed
qed (simp add: remove_connection_def)

lemma keeps_failure: "keeps s (record_failure ops i e s)"
proof (cases "connection i s")
  case (Some c)
  define f where "f = \<lparr>ef_endpoint = i, ef_generation = cn_generation c, ef_kind = ie_kind e, ef_message = ie_message e\<rparr>"
  define t where "t = remove_connection ops i s"
  have closed: "cn_generation c \<in># closed_generations t" and fails: "er_failures t = er_failures s"
    using Some by (simp_all add: t_def remove_connection_def close_transport_def closed_generations_def)
  define fs where "fs = (case update_first (\<lambda>f. ef_endpoint f = i) (\<lambda>_. f) (er_failures t) of
      Some fs \<Rightarrow> fs | None \<Rightarrow> er_failures t @ [f])"
  have fs_ok: "distinct (map ef_endpoint fs) \<and> (\<forall>f \<in> set fs. ef_generation f \<in># closed_generations t)"
    if "registry_inv t"
  proof (cases "update_first (\<lambda>f. ef_endpoint f = i) (\<lambda>_. f) (er_failures t)")
    case None
    then have "i \<notin> ef_endpoint ` set (er_failures t)" by (auto simp: update_first_None)
    then show ?thesis using None that closed by (auto simp: fs_def registry_inv_def f_def)
  next
    case (Some gs)
    from update_first_Some [OF Some] obtain us x vs where
      "er_failures t = us @ x # vs" "gs = us @ f # vs" "ef_endpoint x = i" by auto
    then show ?thesis using Some that closed by (auto simp: fs_def registry_inv_def f_def)
  qed
  have "record_failure ops i e s = t\<lparr>er_failures := fs\<rparr>"
    using Some by (simp add: record_failure_def t_def fs_def f_def Let_def cong: option.case_cong)
  then have "keeps t (record_failure ops i e s)"
    using fs_ok by (auto simp: keeps_def registry_inv_def generations_def live_generations_def closed_generations_def)
  then show ?thesis using keeps_remove [of s ops i] keeps_trans unfolding t_def by blast
qed (simp add: record_failure_def)

lemma keeps_send: "keeps s (snd (send_to ops i m s))"
proof (cases "connection i s")
  case None
  then show ?thesis by (simp add: send_to_def keeps_failure)
next
  case (Some c)
  obtain r t where r: "tr_send ops m (cn_transport c) = (r, t)" by (cases "tr_send ops m (cn_transport c)")
  have "keeps s (modify_connection i (\<lambda>c. c\<lparr>cn_transport := t\<rparr>) s)" by (rule keeps_modify) simp
  then show ?thesis using Some r keeps_failure keeps_trans by (simp add: send_to_def Let_def split: sum.split) blast
qed

lemma keeps_action: "keeps s (take_action ops now s a)"
proof -
  obtain i x where a: "a = (i, x)" by (cases a)
  have "keeps s (snd (send_to ops i health_ping s))" by (rule keeps_send)
  moreover have "keeps t (modify_connection i (update_health (ping_sent now)) t)" for t :: "'a endpoint_registry"
    by (rule keeps_modify) (simp add: update_health_def)
  ultimately show ?thesis unfolding a
    by (cases x) (auto simp: take_action_def Let_def keeps_failure case_prod_beta intro: keeps_trans)
qed

lemma keeps_ask: "keeps s (fst (foldl (ask_error ops) (s, es) is))"
proof (induction "is" arbitrary: s es)
  case (Cons i "is")
  obtain t es' where t: "ask_error ops (s, es) i = (t, es')" by (cases "ask_error ops (s, es) i")
  have "keeps s t"
    using t by (auto simp: ask_error_def Let_def case_prod_beta split: option.splits intro!: keeps_modify)
  then show ?case using Cons [of t es'] t keeps_trans by simp blast
qed simp

lemma keeps_take: "keeps s (snd (take_failures ops walk s))"
proof -
  obtain s1 es where s1: "foldl (ask_error ops) (s, []) (walk (map fst (er_connections s))) = (s1, es)"
    by (cases "foldl (ask_error ops) (s, []) (walk (map fst (er_connections s)))")
  have "keeps s s1" using keeps_ask [of s ops "[]" "walk (map fst (er_connections s))"] s1 by simp
  moreover have "keeps s1 (foldl (\<lambda>s (i, error). record_failure ops i error s) s1 es)"
    by (rule keeps_foldl) (simp add: keeps_failure case_prod_beta)
  ultimately show ?thesis
    using s1 keeps_fields(3) keeps_trans by (simp add: take_failures_def Let_def) blast
qed

lemma keeps_step: "inserted x = {#} \<Longrightarrow> keeps s (registry_step ops s x)"
proof (cases x)
  case (ServerReceived i g now)
  then show ?thesis by (auto simp: registry_received_def update_health_def intro: keeps_modify)
next
  case (MarkReady i g)
  then show ?thesis by (auto simp: mark_ready_def update_health_def intro: keeps_modify)
next
  case (TickHealth walk now)
  then show ?thesis by (simp add: tick_health_def keeps_foldl keeps_action)
next
  case (SetActive i)
  then show ?thesis by (simp add: set_active_def keeps_fields)
next
  case (SetSurfaceActive i a)
  then show ?thesis by (auto simp: set_surface_active_def split: option.split intro: keeps_modify)
next
  case (DisconnectEndpoint i)
  then show ?thesis using keeps_fields(4) keeps_remove keeps_trans by (simp add: registry_disconnect_def) blast
next
  case SelectUnavailableLocal
  then show ?thesis
    using keeps_trans [OF keeps_fields(1) [of s Local] keeps_fields(2)] by (simp add: select_unavailable_local_def freeze_input_def)
qed (auto simp: keeps_send send_active_def keeps_failure keeps_take freeze_input_def unfreeze_input_def keeps_fields)

lemma insert_step:
  assumes "registry_inv s"
  shows "registry_inv (insert_connection ops now i t g n a s)"
    and "generations (insert_connection ops now i t g n a s) = add_mset g (generations s)"
proof -
  let ?xs = "er_connections s"
  define c where "c = \<lparr>cn_transport = t, cn_generation = g, cn_surface_active = a, cn_negotiation = n,
    cn_health = (if \<not> is_local i \<and> supports_health_check n then Some (health_new now) else None)\<rparr>"
  have d: "distinct (map fst ?xs)" using assms by (simp add: registry_inv_def)
  have live: "mset (map (cn_generation \<circ> snd) (AList.update i c ?xs)) +
      (case map_of ?xs i of None \<Rightarrow> {#} | Some p \<Rightarrow> {#cn_generation p#}) = add_mset g (mset (map (cn_generation \<circ> snd) ?xs))"
    using d
  proof (induction ?xs arbitrary: s)
    case (Cons x xs)
    show ?case
    proof (cases "fst x = i")
      case False
      have "mset (map (cn_generation \<circ> snd) (AList.update i c xs)) +
        (case map_of xs i of None \<Rightarrow> {#} | Some p \<Rightarrow> {#cn_generation p#}) = add_mset g (mset (map (cn_generation \<circ> snd) xs))"
        using Cons.hyps(1) [of "s\<lparr>er_connections := xs\<rparr>"] Cons.prems Cons.hyps(2) [symmetric] by simp
      then show ?thesis using False Cons.hyps(2) [symmetric] by (cases x) (simp add: add_mset_commute)
    qed (use Cons.hyps(2) [symmetric] in \<open>cases x; simp add: c_def\<close>)
  qed (simp add: c_def)
  show "registry_inv (insert_connection ops now i t g n a s)"
    using assms by (auto simp: insert_connection_def Let_def registry_inv_def closed_generations_def close_transport_def
        distinct_update split: option.split)
  show "generations (insert_connection ops now i t g n a s) = add_mset g (generations s)"
    using live by (auto simp: insert_connection_def Let_def generations_def live_generations_def closed_generations_def
        close_transport_def connection_def c_def split: option.splits)
qed

lemma registry_step_accounts:
  "registry_inv s \<Longrightarrow> registry_inv (registry_step ops s x) \<and> generations (registry_step ops s x) = inserted x + generations s"
proof (cases "inserted x = {#}")
  case True
  assume "registry_inv s"
  then show ?thesis using keeps_step [OF True, of s ops] True by (simp add: keeps_def)
next
  case False
  assume "registry_inv s"
  then show ?thesis using False by (cases x) (simp_all add: insert_step)
qed

lemma registry_run_accounts:
  "registry_inv s \<Longrightarrow>
     registry_inv (foldl (registry_step ops) s xs)
     \<and> generations (foldl (registry_step ops) s xs) = sum_list (map inserted xs) + generations s"
proof (induction xs arbitrary: s)
  case (Cons x xs)
  then have "registry_inv (registry_step ops s x)" using registry_step_accounts by blast
  with Cons registry_step_accounts [of s ops x] show ?case by (simp add: ac_simps)
qed simp

definition registry_after :: "('tr, 'm) transport_ops \<Rightarrow> ('tr, 'm) registry_op list \<Rightarrow> 'tr endpoint_registry" where
  "registry_after ops xs = foldl (registry_step ops) registry_empty xs"

text \<open>
  C34: in any run that starts with an empty registry, whatever the transports answer, every connection that was inserted
  is either live or was closed exactly once; an endpoint has at most one connection and at most one failure waiting, and
  that failure is of a connection that has been closed.
\<close>

theorem registry_accounts:
  fixes xs :: "('tr, 'm) registry_op list"
  shows "live_generations (registry_after ops xs) + closed_generations (registry_after ops xs) = sum_list (map inserted xs)
         \<and> distinct (map fst (er_connections (registry_after ops xs)))
         \<and> distinct (map ef_endpoint (er_failures (registry_after ops xs)))
         \<and> ef_generation ` set (er_failures (registry_after ops xs)) \<subseteq> set_mset (closed_generations (registry_after ops xs))"
proof -
  define s where "s = registry_after ops xs"
  have "registry_inv (registry_empty :: 'tr endpoint_registry)" "generations (registry_empty :: 'tr endpoint_registry) = {#}"
    by (simp_all add: registry_inv_def registry_empty_def generations_def live_generations_def closed_generations_def)
  then have "registry_inv s" "generations s = sum_list (map inserted xs)"
    using registry_run_accounts [of registry_empty ops xs] 
    by (simp_all add: s_def registry_after_def)
  then show ?thesis by (auto simp: registry_inv_def generations_def s_def)
qed

section \<open>Heartbeats\<close>

text \<open>
  What happens to a healthy transport: a tick of the timer, a message from the server, its first snapshot. A link that
  was given up is \<open>None\<close>; pings are taken to be sent, since a link whose transport refuses one is given up at once.
\<close>

datatype beat = Tick nat | Received nat | Ready nat

fun beat_time :: "beat \<Rightarrow> nat" where
  "beat_time (Tick t) = t" | "beat_time (Received t) = t" | "beat_time (Ready t) = t"

fun beat_step :: "endpoint_health option \<Rightarrow> beat \<Rightarrow> endpoint_health option" where
  "beat_step None b = None"
| "beat_step (Some h) (Tick now) =
     (case next_action now h of NoAction \<Rightarrow> Some h | Ping \<Rightarrow> Some (ping_sent now h) | Expired \<Rightarrow> None)"
| "beat_step (Some h) (Received now) = Some (health_received now h)"
| "beat_step (Some h) (Ready now) = Some (health_ready h)"

definition heard_at :: "nat \<Rightarrow> beat list \<Rightarrow> nat" where
  "heard_at start bs = foldl (\<lambda>t b. case b of Received now \<Rightarrow> now | _ \<Rightarrow> t) start bs"

definition was_ready :: "beat list \<Rightarrow> bool" where
  "was_ready bs \<longleftrightarrow> (\<exists>t. Ready t \<in> set bs)"

text \<open>What a live link remembers of its past, \<open>now\<close> being the time of the last event.\<close>

definition remembers :: "nat \<Rightarrow> beat list \<Rightarrow> nat \<Rightarrow> endpoint_health \<Rightarrow> bool" where
  "remembers start bs now h \<longleftrightarrow>
     connected_at h = start \<and> last_received h = heard_at start bs \<and> is_ready h = was_ready bs
     \<and> heard_at start bs \<le> now
     \<and> (\<forall>p. ping_sent_at h = Some p \<longrightarrow> heard_at start bs + HEARTBEAT_INTERVAL \<le> p \<and> p \<le> now)"

lemma remembers_step:
  assumes "remembers start bs now h" "now \<le> beat_time b" "beat_step (Some h) b = Some h'"
  shows "remembers start (bs @ [b]) (beat_time b) h'"
  using assms
  by (cases b) (auto simp: remembers_def heard_at_def was_ready_def next_action_def Let_def health_received_def health_ready_def
      ping_sent_def HEARTBEAT_INTERVAL_def split: health_action.splits if_splits option.splits)

text \<open>Times do not go back.\<close>

fun in_order :: "nat \<Rightarrow> beat list \<Rightarrow> bool" where
  "in_order now [] = True"
| "in_order now (b # bs) = (now \<le> beat_time b \<and> in_order (beat_time b) bs)"

definition last_time :: "nat \<Rightarrow> beat list \<Rightarrow> nat" where
  "last_time start bs = foldl (\<lambda>_ b. beat_time b) start bs"

lemma last_time_snoc [simp]: "last_time start [] = start" "last_time start (bs @ [b]) = beat_time b"
  by (simp_all add: last_time_def)

lemma in_order_snoc: "in_order start (bs @ [b]) \<longleftrightarrow> in_order start bs \<and> last_time start bs \<le> beat_time b"
  by (induction bs arbitrary: start) (auto simp: last_time_def)

lemma in_order_prefix: "in_order start (bs @ cs) \<Longrightarrow> in_order start bs"
  by (induction bs arbitrary: start) auto

lemma dead_stays: "foldl beat_step None bs = None"
  by (induction bs) simp_all

lemma live_remembers:
  "in_order start bs \<Longrightarrow> foldl beat_step (Some (health_new start)) bs = Some h \<Longrightarrow> remembers start bs (last_time start bs) h"
proof (induction bs arbitrary: h rule: rev_induct)
  case Nil
  then show ?case by (auto simp: remembers_def heard_at_def was_ready_def health_new_def)
next
  case (snoc b bs)
  then obtain h0 where h0: "foldl beat_step (Some (health_new start)) bs = Some h0"
    by (cases "foldl beat_step (Some (health_new start)) bs") simp_all
  then show ?case using snoc remembers_step [of start bs "last_time start bs" h0 b h] by (simp add: in_order_snoc)
qed

definition silent :: "beat list \<Rightarrow> bool" where
  "silent bs \<longleftrightarrow> (\<forall>t. Received t \<notin> set bs)"

text \<open>While nothing is heard a ping stays unanswered.\<close>

lemma ping_waits:
  assumes "silent bs" "ping_sent_at h = Some p"
  shows "foldl beat_step (Some h) bs = None \<or> (\<exists>h'. foldl beat_step (Some h) bs = Some h' \<and> ping_sent_at h' = Some p)"
  using assms
proof (induction bs arbitrary: h)
  case (Cons b bs)
  have "silent bs" using Cons.prems by (simp add: silent_def)
  moreover have "beat_step (Some h) b = None \<or> (\<exists>h'. beat_step (Some h) b = Some h' \<and> ping_sent_at h' = Some p)"
    using Cons.prems by (cases b) (auto simp: silent_def next_action_def Let_def health_ready_def split: health_action.splits if_splits)
  ultimately show ?case using Cons.IH dead_stays by fastforce
qed simp

lemma ticked_ping:
  assumes "remembers start bs now h" "now \<le> a" "heard_at start bs + HEARTBEAT_INTERVAL \<le> a" "beat_step (Some h) (Tick a) = Some h'"
  shows "\<exists>p \<le> a. ping_sent_at h' = Some p"
  using assms
  by (cases "ping_sent_at h")
    (auto simp: remembers_def next_action_def Let_def ping_sent_def split: health_action.splits if_splits)

text \<open>
  C35: a link is given up only if nothing was heard on it for fifteen seconds, or if its first snapshot is missing ten
  seconds after it was made; and one on which nothing is heard is: it is pinged at the first tick five seconds after its
  last message, and gone by any tick ten seconds after that.
\<close>

theorem silent_links_expire:
  assumes "in_order start (bs @ Tick a # cs @ [Tick b])"
  shows "(foldl beat_step (Some (health_new start)) bs \<noteq> None
            \<and> foldl beat_step (Some (health_new start)) (bs @ [Tick a]) = None
            \<longrightarrow> heard_at start bs + 15000 \<le> a \<or> (\<not> was_ready bs \<and> start + 10000 \<le> a))
         \<and> (heard_at start bs + 5000 \<le> a \<and> silent cs \<and> a + 10000 \<le> b
            \<longrightarrow> foldl beat_step (Some (health_new start)) (bs @ Tick a # cs @ [Tick b]) = None)"
proof (cases "foldl beat_step (Some (health_new start)) bs")
  case None
  then show ?thesis by (simp add: dead_stays)
next
  case (Some h)
  have bs: "in_order start bs" "last_time start bs \<le> a"
    using in_order_prefix [of start "bs @ [Tick a]" "cs @ [Tick b]"] assms by (simp_all add: in_order_snoc)
  have h: "remembers start bs (last_time start bs) h" by (rule live_remembers [OF bs(1) Some])
  have gone: "heard_at start bs + 15000 \<le> a \<or> (\<not> was_ready bs \<and> start + 10000 \<le> a)"
    if "beat_step (Some h) (Tick a) = None"
    using that h by (auto simp: remembers_def next_action_def Let_def HEARTBEAT_INTERVAL_def HEARTBEAT_TIMEOUT_def
        split: if_splits option.splits)
  have "foldl beat_step (beat_step (Some h) (Tick a)) (cs @ [Tick b]) = None"
    if s: "heard_at start bs + 5000 \<le> a" "silent cs" "a + 10000 \<le> b"
  proof (cases "beat_step (Some h) (Tick a)")
    case None
    then show ?thesis by (simp only: dead_stays)
  next
    case (Some h1)
    obtain p where p: "p \<le> a" "ping_sent_at h1 = Some p"
      using ticked_ping [OF h bs(2) _ Some] s(1) by (auto simp: HEARTBEAT_INTERVAL_def)
    have "beat_step (Some h2) (Tick b) = None" if "ping_sent_at h2 = Some p" for h2
    proof -
      have "10000 \<le> b - p" using p(1) s(3) by linarith
      then show ?thesis using that by (simp add: next_action_def HEARTBEAT_TIMEOUT_def)
    qed
    then show ?thesis using ping_waits [OF s(2) p(2)] Some by auto
  qed
  then show ?thesis using Some gone by simp
qed

theorem silent_links_expire_witness:
  "foldl beat_step (Some (health_new 0)) ([Ready 1000, Received 3000] @ Tick 8000 # [Ready 9000] @ [Tick 18000]) = None
   \<and> foldl beat_step (Some (health_new 0)) ([Ready 1000, Received 3000] @ Tick 8000 # [Ready 9000]) \<noteq> None"
proof
  have "in_order 0 ([Ready 1000, Received 3000] @ Tick 8000 # [Ready 9000] @ [Tick 18000])"
    "heard_at 0 [Ready 1000, Received 3000] + 5000 \<le> 8000 \<and> silent [Ready 9000] \<and> (8000 :: nat) + 10000 \<le> 18000"
    by (simp_all add: heard_at_def silent_def)
  then show "foldl beat_step (Some (health_new 0)) ([Ready 1000, Received 3000] @ Tick 8000 # [Ready 9000] @ [Tick 18000]) = None"
    using silent_links_expire [of 0 "[Ready 1000, Received 3000]" 8000 "[Ready 9000]" 18000] by blast
qed (simp add: health_new_def health_ready_def health_received_def next_action_def ping_sent_def HEARTBEAT_INTERVAL_def
    HEARTBEAT_TIMEOUT_def)

end
