(* ===== verification/EndpointCommands.thy ===== *)
theory EndpointCommands
  imports EndpointRegistryRuns
begin

text \<open>
  The requests a client sends to its machines (\<open>client/endpoint_commands.rs\<close>): per endpoint a queue, one request in
  flight, and tombstones of requests given up whose answer may still come. A request is its id and a method of type
  \<open>'q\<close>; its encoding as JSON is the argument \<open>encode\<close> and the decoding of an answer the argument \<open>parse\<close>, given the
  id the answer must have.
\<close>

section \<open>Lanes\<close>

record 'q api_request =
  rq_id :: str
  rq_method :: 'q

record 'q queued_command =
  qc_generation :: u64
  qc_boot_id :: str
  qc_request :: "'q api_request"

record in_flight_command =
  if_generation :: u64
  if_boot_id :: str
  if_request_id :: str
  if_response :: "nat list"
  if_sent_at :: nat

record endpoint_error =
  ee_code :: "str option"
  ee_message :: str

record 'a command_result =
  cr_endpoint :: client_endpoint_id
  cr_generation :: u64
  cr_boot_id :: str
  cr_request_id :: str
  cr_result :: "endpoint_error + 'a"

type_synonym request_key = "u64 \<times> str \<times> str"

record 'q command_lane =
  ln_queued :: "'q queued_command list"
  ln_in_flight :: "in_flight_command option"
  ln_retired :: "request_key list"

type_synonym 'q endpoint_commands = "(client_endpoint_id \<times> 'q command_lane) list"

definition ENDPOINT_COMMAND_TIMEOUT :: nat where "ENDPOINT_COMMAND_TIMEOUT = 60000"
definition MAX_RETIRED_REQUESTS_PER_ENDPOINT :: nat where "MAX_RETIRED_REQUESTS_PER_ENDPOINT = 128"

definition empty_lane :: "'q command_lane" where
  "empty_lane = \<lparr>ln_queued = [], ln_in_flight = None, ln_retired = []\<rparr>"

definition retire :: "request_key \<Rightarrow> 'q command_lane \<Rightarrow> 'q command_lane" where
  "retire request lane =
    (if request \<in> set (ln_retired lane) then lane
     else let kept = (if length (ln_retired lane) = MAX_RETIRED_REQUESTS_PER_ENDPOINT then tl (ln_retired lane)
                      else ln_retired lane)
          in lane\<lparr>ln_retired := kept @ [request]\<rparr>)"

definition consume_retired :: "request_key \<Rightarrow> bool \<Rightarrow> 'q command_lane \<Rightarrow> bool \<times> 'q command_lane" where
  "consume_retired request final_chunk lane =
    (case remove_first (\<lambda>r. r = request) (ln_retired lane) of
       None \<Rightarrow> (False, lane)
     | Some rest \<Rightarrow> (True, if final_chunk then lane\<lparr>ln_retired := rest\<rparr> else lane))"

definition key_of :: "in_flight_command \<Rightarrow> request_key" where
  "key_of c = (if_generation c, if_boot_id c, if_request_id c)"

section \<open>Operations\<close>

text \<open>\<open>entry(id).or_default()\<close>.\<close>

definition lane_of :: "client_endpoint_id \<Rightarrow> 'q endpoint_commands \<Rightarrow> 'q command_lane" where
  "lane_of i cs = (case map_of cs i of None \<Rightarrow> empty_lane | Some lane \<Rightarrow> lane)"

definition enqueue ::
  "client_endpoint_id \<Rightarrow> u64 \<Rightarrow> str \<Rightarrow> 'q api_request \<Rightarrow> 'q endpoint_commands \<Rightarrow> 'q endpoint_commands" where
  "enqueue i generation boot_id request cs =
    (let lane = lane_of i cs
     in AList.update i (lane\<lparr>ln_queued := ln_queued lane
          @ [\<lparr>qc_generation = generation, qc_boot_id = boot_id, qc_request = request\<rparr>]\<rparr>) cs)"

text \<open>
  The loop of \<open>send_next\<close>: what is left in the queue, what is in flight, the ids of what was cancelled.
\<close>

fun send_queue ::
  "('tr, 'm) transport_ops \<Rightarrow> ('q api_request \<Rightarrow> str option) \<Rightarrow> nat \<Rightarrow> client_endpoint_id \<Rightarrow> 'q queued_command list
    \<Rightarrow> 'tr endpoint_registry \<Rightarrow> 'q queued_command list \<times> in_flight_command option \<times> str list \<times> 'tr endpoint_registry" where
  "send_queue ops encode now i [] s = ([], None, [], s)"
| "send_queue ops encode now i (q # queue) s =
     (let request_id = rq_id (qc_request q);
          cancel = (\<lambda>s. let (rest, sent, cancelled, s') = send_queue ops encode now i queue s
                         in (rest, sent, request_id # cancelled, s'))
      in if \<not> accepts_generation i (qc_generation q) s then cancel s
         else case encode (qc_request q) of
                None \<Rightarrow> cancel s
              | Some request \<Rightarrow>
                  let (outcome, s1) = send_to ops i (ClientShellEndpointRequest (qc_boot_id q) request) s
                  in if outcome \<noteq> Sent then cancel s1
                     else (queue, Some \<lparr>if_generation = qc_generation q, if_boot_id = qc_boot_id q,
                             if_request_id = request_id, if_response = [], if_sent_at = now\<rparr>, [], s1))"

definition send_next ::
  "('tr, 'm) transport_ops \<Rightarrow> ('q api_request \<Rightarrow> str option) \<Rightarrow> nat \<Rightarrow> client_endpoint_id \<Rightarrow> 'q endpoint_commands
    \<Rightarrow> 'tr endpoint_registry \<Rightarrow> str list \<times> 'q endpoint_commands \<times> 'tr endpoint_registry" where
  "send_next ops encode now i cs s =
    (let lane = lane_of i cs
     in if ln_in_flight lane \<noteq> None then ([], AList.update i lane cs, s)
        else let (rest, sent, cancelled, s') = send_queue ops encode now i (ln_queued lane) s
             in (cancelled, AList.update i (lane\<lparr>ln_queued := rest, ln_in_flight := sent\<rparr>) cs, s'))"

definition accepts_response :: "client_endpoint_id \<Rightarrow> request_key \<Rightarrow> 'q endpoint_commands \<Rightarrow> bool" where
  "accepts_response i key cs \<longleftrightarrow>
     (case map_of cs i of
        None \<Rightarrow> False
      | Some lane \<Rightarrow> (case ln_in_flight lane of None \<Rightarrow> False | Some c \<Rightarrow> key_of c = key))"

definition retire_lane :: "client_endpoint_id \<Rightarrow> 'q endpoint_commands \<Rightarrow> str list \<times> 'q endpoint_commands" where
  "retire_lane i cs =
    (case map_of cs i of
       None \<Rightarrow> ([], cs)
     | Some lane \<Rightarrow>
         let (flying, lane1) =
               (case ln_in_flight lane of
                  None \<Rightarrow> ([], lane)
                | Some c \<Rightarrow> ([if_request_id c], retire (key_of c) (lane\<lparr>ln_in_flight := None\<rparr>)))
         in (flying @ map (\<lambda>q. rq_id (qc_request q)) (ln_queued lane1), AList.update i (lane1\<lparr>ln_queued := []\<rparr>) cs))"

definition timeout_result :: "client_endpoint_id \<Rightarrow> in_flight_command \<Rightarrow> 'a command_result" where
  "timeout_result i c =
    \<lparr>cr_endpoint = i, cr_generation = if_generation c, cr_boot_id = if_boot_id c, cr_request_id = if_request_id c,
     cr_result = Inl \<lparr>ee_code = Some (lit ''endpoint_timeout''),
                      ee_message = lit ''this server did not respond to the action''\<rparr>\<rparr>"

definition expire_lane :: "nat \<Rightarrow> client_endpoint_id \<Rightarrow> 'q command_lane \<Rightarrow> 'a command_result option \<times> 'q command_lane" where
  "expire_lane now i lane =
    (case ln_in_flight lane of
       None \<Rightarrow> (None, lane)
     | Some c \<Rightarrow>
         if now - if_sent_at c < ENDPOINT_COMMAND_TIMEOUT then (None, lane)
         else (Some (timeout_result i c), retire (key_of c) (lane\<lparr>ln_in_flight := None\<rparr>)))"

text \<open>\<open>expire\<close> walks over the lanes in the order of the map.\<close>

fun expire_lanes ::
  "nat \<Rightarrow> client_endpoint_id list \<Rightarrow> 'q endpoint_commands \<Rightarrow> 'a command_result list \<times> 'q endpoint_commands" where
  "expire_lanes now [] cs = ([], cs)"
| "expire_lanes now (i # is) cs =
     (case map_of cs i of
        None \<Rightarrow> expire_lanes now is cs
      | Some lane \<Rightarrow>
          let (r, lane') = expire_lane now i lane;
              (rs, cs') = expire_lanes now is (AList.update i lane' cs)
          in (case r of None \<Rightarrow> rs | Some x \<Rightarrow> x # rs, cs'))"

definition expire :: "endpoint_order \<Rightarrow> nat \<Rightarrow> 'q endpoint_commands \<Rightarrow> 'a command_result list \<times> 'q endpoint_commands" where
  "expire walk now cs = expire_lanes now (walk (map fst cs)) cs"

definition receive_chunk ::
  "(str \<Rightarrow> nat list \<Rightarrow> endpoint_error + 'a) \<Rightarrow> client_endpoint_id \<Rightarrow> request_key \<Rightarrow> bool \<Rightarrow> nat list
    \<Rightarrow> 'q endpoint_commands \<Rightarrow> 'a command_result option \<times> 'q endpoint_commands" where
  "receive_chunk parse i key final_chunk data cs =
    (case map_of cs i of
       None \<Rightarrow> (None, cs)
     | Some lane \<Rightarrow>
         let (consumed, lane1) = consume_retired key final_chunk lane
         in if consumed then (None, AList.update i lane1 cs)
            else case ln_in_flight lane1 of
                   None \<Rightarrow> (None, cs)
                 | Some c \<Rightarrow>
                     if key_of c \<noteq> key then (None, cs)
                     else let c' = c\<lparr>if_response := if_response c @ data\<rparr>
                          in if \<not> final_chunk then (None, AList.update i (lane1\<lparr>ln_in_flight := Some c'\<rparr>) cs)
                             else (Some \<lparr>cr_endpoint = i, cr_generation = if_generation c', cr_boot_id = if_boot_id c',
                                      cr_request_id = if_request_id c',
                                      cr_result = parse (if_request_id c') (if_response c')\<rparr>,
                                   AList.update i (lane1\<lparr>ln_in_flight := None\<rparr>) cs))"

definition disconnect_lane :: "client_endpoint_id \<Rightarrow> 'q endpoint_commands \<Rightarrow> str list \<times> 'q endpoint_commands" where
  "disconnect_lane i cs =
    (case map_of cs i of
       None \<Rightarrow> ([], cs)
     | Some lane \<Rightarrow>
         (map (\<lambda>q. rq_id (qc_request q)) (ln_queued lane)
            @ (case ln_in_flight lane of None \<Rightarrow> [] | Some c \<Rightarrow> [if_request_id c]),
          AList.delete i cs))"

section \<open>Every request is answered or cancelled once\<close>

datatype ('tr, 'm, 'q) command_op =
  Enqueue client_endpoint_id u64 str "'q api_request" | SendNext nat client_endpoint_id | RetireLane client_endpoint_id
  | ExpireCommands endpoint_order nat | ReceiveChunk client_endpoint_id request_key bool "nat list"
  | DisconnectLane client_endpoint_id | RegistryOp "('tr, 'm) registry_op"

text \<open>The commands and the registry they are sent through, and what was handed back: ids cancelled, results.\<close>

record ('tr, 'q, 'a) command_state =
  cm_commands :: "'q endpoint_commands"
  cm_registry :: "'tr endpoint_registry"
  cm_cancelled :: "str list"
  cm_results :: "'a command_result list"

definition command_step ::
  "('tr, 'm) transport_ops \<Rightarrow> ('q api_request \<Rightarrow> str option) \<Rightarrow> (str \<Rightarrow> nat list \<Rightarrow> endpoint_error + 'a)
    \<Rightarrow> ('tr, 'q, 'a) command_state \<Rightarrow> ('tr, 'm, 'q) command_op \<Rightarrow> ('tr, 'q, 'a) command_state" where
  "command_step ops encode parse s x =
    (case x of
       Enqueue i generation boot_id request \<Rightarrow>
         s\<lparr>cm_commands := enqueue i generation boot_id request (cm_commands s)\<rparr>
     | SendNext now i \<Rightarrow>
         (let (cancelled, cs, r) = send_next ops encode now i (cm_commands s) (cm_registry s)
          in s\<lparr>cm_commands := cs, cm_registry := r, cm_cancelled := cm_cancelled s @ cancelled\<rparr>)
     | RetireLane i \<Rightarrow>
         (let (cancelled, cs) = retire_lane i (cm_commands s)
          in s\<lparr>cm_commands := cs, cm_cancelled := cm_cancelled s @ cancelled\<rparr>)
     | ExpireCommands walk now \<Rightarrow>
         (let (results, cs) = expire walk now (cm_commands s)
          in s\<lparr>cm_commands := cs, cm_results := cm_results s @ results\<rparr>)
     | ReceiveChunk i key final_chunk data \<Rightarrow>
         (let (result, cs) = receive_chunk parse i key final_chunk data (cm_commands s)
          in s\<lparr>cm_commands := cs,
               cm_results := cm_results s @ (case result of None \<Rightarrow> [] | Some r \<Rightarrow> [r])\<rparr>)
     | DisconnectLane i \<Rightarrow>
         (let (cancelled, cs) = disconnect_lane i (cm_commands s)
          in s\<lparr>cm_commands := cs, cm_cancelled := cm_cancelled s @ cancelled\<rparr>)
     | RegistryOp y \<Rightarrow> s\<lparr>cm_registry := registry_step ops (cm_registry s) y\<rparr>)"

definition lane_waiting :: "'q command_lane \<Rightarrow> str multiset" where
  "lane_waiting lane = mset (map (\<lambda>q. rq_id (qc_request q)) (ln_queued lane))
     + (case ln_in_flight lane of None \<Rightarrow> {#} | Some c \<Rightarrow> {#if_request_id c#})"

definition waiting :: "'q endpoint_commands \<Rightarrow> str multiset" where
  "waiting cs = sum_list (map (lane_waiting \<circ> snd) cs)"

definition accounted :: "('tr, 'q, 'a) command_state \<Rightarrow> str multiset" where
  "accounted s = waiting (cm_commands s) + mset (cm_cancelled s) + mset (map cr_request_id (cm_results s))"

fun enqueued :: "('tr, 'm, 'q) command_op \<Rightarrow> str multiset" where
  "enqueued (Enqueue i generation boot_id request) = {#rq_id request#}"
| "enqueued _ = {#}"

definition lane_ok :: "'q command_lane \<Rightarrow> bool" where
  "lane_ok lane \<longleftrightarrow> distinct (ln_retired lane) \<and> length (ln_retired lane) \<le> MAX_RETIRED_REQUESTS_PER_ENDPOINT"

definition commands_inv :: "'q endpoint_commands \<Rightarrow> bool" where
  "commands_inv cs \<longleftrightarrow> distinct (map fst cs) \<and> (\<forall>(i, lane) \<in> set cs. lane_ok lane)"

lemma waiting_simps [simp]: "waiting [] = {#}" "waiting ((i, lane) # cs) = lane_waiting lane + waiting cs"
  by (simp_all add: waiting_def)

lemma empty_lane_ok [simp]: "lane_ok empty_lane" "lane_waiting empty_lane = {#}"
  by (simp_all add: lane_ok_def empty_lane_def lane_waiting_def)

lemma lane_of_ok: "commands_inv cs \<Longrightarrow> lane_ok (lane_of i cs)"
  by (auto simp: commands_inv_def lane_of_def dest: map_of_SomeD split: option.split)

lemma update_inv: "commands_inv cs \<Longrightarrow> lane_ok lane \<Longrightarrow> commands_inv (AList.update i lane cs)"
proof -
  have "set (AList.update i lane cs) \<subseteq> insert (i, lane) (set cs)" by (induction cs) auto
  moreover assume "commands_inv cs" "lane_ok lane"
  ultimately show ?thesis by (fastforce simp: commands_inv_def distinct_update)
qed

lemma delete_inv: "commands_inv cs \<Longrightarrow> commands_inv (AList.delete i cs)"
proof -
  have "set (AList.delete i cs) \<subseteq> set cs" by (auto simp: AList.delete_eq)
  moreover assume "commands_inv cs"
  ultimately show ?thesis by (auto simp: commands_inv_def distinct_delete)
qed

lemma waiting_update:
  "distinct (map fst cs) \<Longrightarrow> waiting (AList.update i lane cs) + lane_waiting (lane_of i cs) = waiting cs + lane_waiting lane"
  by (induction cs) (auto simp: lane_of_def ac_simps)

lemma waiting_delete:
  "distinct (map fst cs) \<Longrightarrow> waiting (AList.delete i cs) + lane_waiting (lane_of i cs) = waiting cs"
proof (induction cs)
  case (Cons x cs)
  have "AList.delete i cs = cs \<and> map_of cs i = None" if "fst x = i"
    using Cons.prems that by (auto simp: delete_id map_of_eq_None_iff)
  with Cons show ?case by (cases x) (auto simp: lane_of_def ac_simps)
qed (simp add: lane_of_def)

text \<open>An operation that replaces one lane and hands back what is then missing.\<close>

lemma replace_lane:
  assumes "commands_inv cs" "lane_ok lane" "lane_waiting lane + gone = lane_waiting (lane_of i cs) + new"
  shows "commands_inv (AList.update i lane cs)" and "waiting (AList.update i lane cs) + gone = waiting cs + new"
proof -
  show "commands_inv (AList.update i lane cs)" using assms by (simp add: update_inv)
  have "waiting (AList.update i lane cs) + gone + lane_waiting (lane_of i cs)
      = (waiting (AList.update i lane cs) + lane_waiting (lane_of i cs)) + gone" by (simp add: ac_simps)
  also have "\<dots> = waiting cs + (lane_waiting lane + gone)"
    using waiting_update [of cs i lane] assms(1) by (simp add: commands_inv_def ac_simps)
  also have "\<dots> = waiting cs + new + lane_waiting (lane_of i cs)" using assms(3) by (simp add: ac_simps)
  finally show "waiting (AList.update i lane cs) + gone = waiting cs + new" by simp
qed

lemma retire_ok: "lane_ok lane \<Longrightarrow> lane_ok (retire k lane)"
  by (cases "ln_retired lane")
    (auto simp: retire_def lane_ok_def Let_def MAX_RETIRED_REQUESTS_PER_ENDPOINT_def split: if_splits)

lemma retire_fields [simp]:
  "ln_queued (retire k lane) = ln_queued lane" "ln_in_flight (retire k lane) = ln_in_flight lane"
  by (simp_all add: retire_def Let_def)

lemma retire_waiting [simp]: "lane_waiting (retire k lane) = lane_waiting lane"
  by (simp add: lane_waiting_def)

lemma lane_fields:
  "lane_ok (lane\<lparr>ln_queued := q\<rparr>) = lane_ok lane" "lane_ok (lane\<lparr>ln_in_flight := f\<rparr>) = lane_ok lane"
  by (simp_all add: lane_ok_def)

lemma consume_ok:
  assumes "lane_ok lane" "consume_retired k final lane = (c, lane')"
  shows "lane_ok lane' \<and> lane_waiting lane' = lane_waiting lane \<and> (\<not> c \<longrightarrow> lane' = lane)"
proof (cases "remove_first (\<lambda>r. r = k) (ln_retired lane)")
  case (Some rest)
  from remove_first_Some [OF Some] obtain us vs where "ln_retired lane = us @ k # vs" "rest = us @ vs" by auto
  then show ?thesis using assms Some by (auto simp: consume_retired_def lane_ok_def lane_waiting_def)
qed (use assms in \<open>simp add: consume_retired_def\<close>)

lemma send_queue_waiting:
  "send_queue ops encode now i queue s = (rest, sent, cancelled, s') \<Longrightarrow>
   mset (map (\<lambda>q. rq_id (qc_request q)) rest) + (case sent of None \<Rightarrow> {#} | Some c \<Rightarrow> {#if_request_id c#}) + mset cancelled
     = mset (map (\<lambda>q. rq_id (qc_request q)) queue)"
proof (induction queue arbitrary: s rest sent cancelled s')
  case (Cons q queue)
  show ?case
  proof (cases "\<exists>t rest' sent' cancelled' t'. send_queue ops encode now i queue t = (rest', sent', cancelled', t')
      \<and> (rest, sent, cancelled, s') = (rest', sent', rq_id (qc_request q) # cancelled', t')")
    case True
    then show ?thesis using Cons.IH by fastforce
  next
    case False
    then have "rest = queue \<and> cancelled = [] \<and> (\<exists>c. sent = Some c \<and> if_request_id c = rq_id (qc_request q))"
      using Cons.prems
      by (auto simp: Let_def case_prod_beta split: if_splits option.splits prod.splits) (metis prod.collapse)+
    then show ?thesis by auto
  qed
qed simp

lemma expire_lanes_accounts:
  "commands_inv cs \<Longrightarrow> expire_lanes now is cs = (rs, cs') \<Longrightarrow>
   commands_inv cs' \<and> waiting cs' + mset (map cr_request_id rs) = waiting cs"
proof (induction "is" arbitrary: cs rs cs')
  case (Cons i "is")
  show ?case
  proof (cases "map_of cs i")
    case None
    then show ?thesis using Cons by simp
  next
    case (Some lane)
    obtain r lane' where e: "expire_lane now i lane = (r :: 'b command_result option, lane')" by (cases "expire_lane now i lane :: 'b command_result option \<times> _")
    obtain rs1 cs1 where r: "expire_lanes now is (AList.update i lane' cs) = (rs1 :: 'b command_result list, cs1)"
      by (cases "expire_lanes now is (AList.update i lane' cs) :: 'b command_result list \<times> _")
    have l: "lane_of i cs = lane" using Some by (simp add: lane_of_def)
    have ok: "lane_ok lane" using lane_of_ok [OF Cons.prems(1), of i] l by simp
    define gone where "gone = (case r of None \<Rightarrow> {#} | Some x \<Rightarrow> {#cr_request_id x#})"
    have "lane_ok lane' \<and> lane_waiting lane' + gone = lane_waiting lane"
      using e ok
      by (auto simp: expire_lane_def gone_def timeout_result_def retire_ok lane_fields lane_waiting_def split: option.splits if_splits)
    then have u: "commands_inv (AList.update i lane' cs)" "waiting (AList.update i lane' cs) + gone = waiting cs"
      using replace_lane [OF Cons.prems(1), of lane' gone i "{#}"] l by simp_all
    have "commands_inv cs1 \<and> waiting cs1 + mset (map cr_request_id rs1) = waiting (AList.update i lane' cs)"
      using Cons.IH [OF u(1)] r by simp
    then show ?thesis using Cons.prems(2) Some e r u(2) gone_def
      by (auto simp: ac_simps split: option.splits)
  qed
qed simp

text \<open>Each operation hands back exactly what it takes out of the lanes.\<close>

lemma enqueue_accounts:
  assumes "commands_inv cs"
  shows "commands_inv (enqueue i g b r cs)" "waiting (enqueue i g b r cs) = add_mset (rq_id r) (waiting cs)"
proof -
  let ?lane = "lane_of i cs"
  let ?q = "ln_queued ?lane @ [\<lparr>qc_generation = g, qc_boot_id = b, qc_request = r\<rparr>]"
  have "lane_ok (?lane\<lparr>ln_queued := ?q\<rparr>)" using assms by (simp add: lane_fields lane_of_ok)
  moreover have "lane_waiting (?lane\<lparr>ln_queued := ?q\<rparr>) + {#} = lane_waiting ?lane + {#rq_id r#}"
    by (simp add: lane_waiting_def)
  ultimately show "commands_inv (enqueue i g b r cs)" "waiting (enqueue i g b r cs) = add_mset (rq_id r) (waiting cs)"
    using replace_lane [OF assms, of "?lane\<lparr>ln_queued := ?q\<rparr>" "{#}" i "{#rq_id r#}"] by (simp_all add: enqueue_def Let_def)
qed

lemma send_next_accounts:
  assumes "commands_inv cs" "send_next ops encode now i cs s = (cancelled, cs', s')"
  shows "commands_inv cs'" "waiting cs' + mset cancelled = waiting cs"
proof -
  let ?lane = "lane_of i cs"
  obtain lane where lane: "cs' = AList.update i lane cs" "lane_ok lane" "lane_waiting lane + mset cancelled = lane_waiting ?lane"
  proof (cases "ln_in_flight ?lane")
    case (Some c)
    then show ?thesis using assms that [of ?lane] by (auto simp: send_next_def Let_def lane_of_ok)
  next
    case None
    obtain rest sent c t where q: "send_queue ops encode now i (ln_queued ?lane) s = (rest, sent, c, t)"
      using prod_cases4 by blast
    then show ?thesis using None assms that [of "?lane\<lparr>ln_queued := rest, ln_in_flight := sent\<rparr>"] send_queue_waiting [OF q]
      by (auto simp: send_next_def Let_def lane_of_ok lane_fields lane_waiting_def)
  qed
  then show "commands_inv cs'" "waiting cs' + mset cancelled = waiting cs"
    using replace_lane [OF assms(1), of lane "mset cancelled" i "{#}"] by simp_all
qed

lemma retire_lane_accounts:
  assumes "commands_inv cs" "retire_lane i cs = (cancelled, cs')"
  shows "commands_inv cs'" "waiting cs' + mset cancelled = waiting cs"
proof -
  have "commands_inv cs' \<and> waiting cs' + mset cancelled = waiting cs"
  proof (cases "map_of cs i")
    case (Some lane)
    then have l: "lane_of i cs = lane" by (simp add: lane_of_def)
    define lane1 where "lane1 = (case ln_in_flight lane of None \<Rightarrow> lane | Some c \<Rightarrow> retire (key_of c) (lane\<lparr>ln_in_flight := None\<rparr>))"
    have ok: "lane_ok (lane1\<lparr>ln_queued := []\<rparr>)"
      using lane_of_ok [OF assms(1), of i] l by (auto simp: lane1_def lane_fields retire_ok split: option.split)
    have c: "cs' = AList.update i (lane1\<lparr>ln_queued := []\<rparr>) cs" "lane_waiting (lane1\<lparr>ln_queued := []\<rparr>) + mset cancelled = lane_waiting lane"
      using assms(2) Some by (auto simp: retire_lane_def lane1_def lane_waiting_def Let_def split: option.splits)
    show ?thesis using replace_lane [OF assms(1) ok, of "mset cancelled" i "{#}"] c l by simp
  qed (use assms in \<open>simp add: retire_lane_def\<close>)
  then show "commands_inv cs'" "waiting cs' + mset cancelled = waiting cs" by simp_all
qed

lemma receive_accounts:
  assumes "commands_inv cs" "receive_chunk parse i key final data cs = (r, cs')"
  shows "commands_inv cs'" "waiting cs' + (case r of None \<Rightarrow> {#} | Some x \<Rightarrow> {#cr_request_id x#}) = waiting cs"
proof -
  define gone where "gone = (case r of None \<Rightarrow> {#} | Some x \<Rightarrow> {#cr_request_id x#})"
  have "cs' = cs \<and> r = None \<or> (\<exists>lane. cs' = AList.update i lane cs \<and> lane_ok lane \<and> lane_waiting lane + gone = lane_waiting (lane_of i cs))"
  proof (cases "map_of cs i")
    case (Some lane)
    then have l: "lane_of i cs = lane" by (simp add: lane_of_def)
    obtain c lane1 where k: "consume_retired key final lane = (c, lane1)" by (cases "consume_retired key final lane")
    have ok: "lane_ok lane1" "lane_waiting lane1 = lane_waiting lane"
      using consume_ok [OF _ k] lane_of_ok [OF assms(1), of i] l by simp_all
    show ?thesis
    proof (cases c)
      case True
      then show ?thesis using assms(2) Some k ok l by (auto simp: receive_chunk_def gone_def)
    next
      case False
      then have same: "lane1 = lane" using consume_ok [OF _ k] lane_of_ok [OF assms(1), of i] l by simp
      show ?thesis
      proof (cases "\<exists>f. ln_in_flight lane = Some f \<and> key_of f = key")
        case False
        then show ?thesis using assms(2) Some k \<open>\<not> c\<close> same by (auto simp: receive_chunk_def split: option.splits)
      next
        case True
        then obtain f where f: "ln_in_flight lane = Some f" "key_of f = key" by blast
        let ?lane = "lane\<lparr>ln_in_flight := (if final then None else Some (f\<lparr>if_response := if_response f @ data\<rparr>))\<rparr>"
        have "cs' = AList.update i ?lane cs" "lane_waiting ?lane + gone = lane_waiting lane"
          using assms(2) Some k \<open>\<not> c\<close> same f by (auto simp: receive_chunk_def gone_def lane_waiting_def Let_def)
        moreover have "lane_ok ?lane" using ok(1) same by (simp add: lane_fields)
        ultimately show ?thesis using l by blast
      qed
    qed
  qed (use assms in \<open>simp add: receive_chunk_def\<close>)
  then have "commands_inv cs' \<and> waiting cs' + gone = waiting cs"
    using replace_lane [OF assms(1), of _ gone i "{#}"] assms(1) by (auto simp: gone_def)
  then show "commands_inv cs'" "waiting cs' + (case r of None \<Rightarrow> {#} | Some x \<Rightarrow> {#cr_request_id x#}) = waiting cs"
    by (simp_all add: gone_def)
qed

lemma disconnect_lane_accounts:
  assumes "commands_inv cs" "disconnect_lane i cs = (cancelled, cs')"
  shows "commands_inv cs'" "waiting cs' + mset cancelled = waiting cs"
proof -
  have "waiting (AList.delete i cs) + lane_waiting (lane_of i cs) = waiting cs"
    using assms(1) by (intro waiting_delete) (simp add: commands_inv_def)
  then show "waiting cs' + mset cancelled = waiting cs"
    using assms(2) by (auto simp: disconnect_lane_def lane_of_def lane_waiting_def ac_simps split: option.splits)
  show "commands_inv cs'" using assms by (auto simp: disconnect_lane_def delete_inv split: option.splits)
qed

lemma command_step_accounts:
  assumes "commands_inv (cm_commands s)"
  shows "commands_inv (cm_commands (command_step ops encode parse s x))
         \<and> accounted (command_step ops encode parse s x) = enqueued x + accounted s"
proof (cases x)
  case (Enqueue i g b r)
  then show ?thesis using enqueue_accounts [OF assms] by (simp add: command_step_def accounted_def)
next
  case (SendNext now i)
  obtain c cs r where n: "send_next ops encode now i (cm_commands s) (cm_registry s) = (c, cs, r)" by (rule prod_cases3)
  show ?thesis using SendNext n send_next_accounts(1) [OF assms n] send_next_accounts(2) [OF assms n, symmetric]
    by (simp add: command_step_def accounted_def ac_simps)
next
  case (RetireLane i)
  obtain c cs where n: "retire_lane i (cm_commands s) = (c, cs)" by (cases "retire_lane i (cm_commands s)")
  show ?thesis using RetireLane n retire_lane_accounts(1) [OF assms n] retire_lane_accounts(2) [OF assms n, symmetric]
    by (simp add: command_step_def accounted_def ac_simps)
next
  case (ExpireCommands walk now)
  obtain rs cs where n: "expire walk now (cm_commands s) = (rs :: 'c command_result list, cs)"
    by (cases "expire walk now (cm_commands s) :: 'c command_result list \<times> _")
  have "commands_inv cs" "waiting (cm_commands s) = waiting cs + mset (map cr_request_id rs)"
    using expire_lanes_accounts [OF assms, of now _ rs cs] n by (simp_all add: expire_def)
  then show ?thesis using ExpireCommands n by (simp add: command_step_def accounted_def ac_simps)
next
  case (ReceiveChunk i k f d)
  obtain r cs where n: "receive_chunk parse i k f d (cm_commands s) = (r, cs)" by (cases "receive_chunk parse i k f d (cm_commands s)")
  show ?thesis using ReceiveChunk n receive_accounts(1) [OF assms n] receive_accounts(2) [OF assms n, symmetric]
    by (cases r) (simp_all add: command_step_def accounted_def ac_simps)
next
  case (DisconnectLane i)
  obtain c cs where n: "disconnect_lane i (cm_commands s) = (c, cs)" by (cases "disconnect_lane i (cm_commands s)")
  show ?thesis using DisconnectLane n disconnect_lane_accounts(1) [OF assms n] disconnect_lane_accounts(2) [OF assms n, symmetric]
    by (simp add: command_step_def accounted_def ac_simps)
next
  case (RegistryOp y)
  then show ?thesis using assms by (simp add: command_step_def accounted_def)
qed

definition commands_after ::
  "('tr, 'm) transport_ops \<Rightarrow> ('q api_request \<Rightarrow> str option) \<Rightarrow> (str \<Rightarrow> nat list \<Rightarrow> endpoint_error + 'a)
    \<Rightarrow> 'tr endpoint_registry \<Rightarrow> ('tr, 'm, 'q) command_op list \<Rightarrow> ('tr, 'q, 'a) command_state" where
  "commands_after ops encode parse registry xs =
     foldl (command_step ops encode parse)
       \<lparr>cm_commands = [], cm_registry = registry, cm_cancelled = [], cm_results = []\<rparr> xs"

lemma command_run_accounts:
  "commands_inv (cm_commands s) \<Longrightarrow>
     commands_inv (cm_commands (foldl (command_step ops encode parse) s xs))
     \<and> accounted (foldl (command_step ops encode parse) s xs) = sum_list (map enqueued xs) + accounted s"
proof (induction xs arbitrary: s)
  case (Cons x xs)
  from Cons.IH [of "command_step ops encode parse s x"] command_step_accounts [OF Cons.prems, of ops encode parse x]
  show ?case by (simp add: ac_simps)
qed simp

text \<open>
  C36: whatever servers, transports and connections do, every request that was enqueued is answered once, cancelled once,
  or still waiting, and nothing else is answered or cancelled; an endpoint has one lane, whose tombstones are distinct
  and at most 128.
\<close>

theorem commands_account:
  fixes xs :: "('tr, 'm, 'q) command_op list" and parse :: "str \<Rightarrow> nat list \<Rightarrow> endpoint_error + 'a"
  shows "waiting (cm_commands (commands_after ops encode parse registry xs))
           + mset (cm_cancelled (commands_after ops encode parse registry xs))
           + mset (map cr_request_id (cm_results (commands_after ops encode parse registry xs)))
         = sum_list (map enqueued xs)
         \<and> distinct (map fst (cm_commands (commands_after ops encode parse registry xs)))
         \<and> ln_retired ` snd ` set (cm_commands (commands_after ops encode parse registry xs))
             \<subseteq> {keys. distinct keys \<and> length keys \<le> 128}"
proof -
  let ?s = "commands_after ops encode parse registry xs"
  have "commands_inv (cm_commands ?s)" "accounted ?s = sum_list (map enqueued xs)"
    using command_run_accounts [of "\<lparr>cm_commands = [], cm_registry = registry, cm_cancelled = [], cm_results = []\<rparr>" ops encode parse xs]
    by (simp_all add: commands_after_def accounted_def commands_inv_def)
  then show ?thesis
    by (auto simp: accounted_def commands_inv_def lane_ok_def MAX_RETIRED_REQUESTS_PER_ENDPOINT_def)
qed

lemma consume_remains: "consume_retired key False lane = (c, lane') \<Longrightarrow> lane' = lane"
  by (auto simp: consume_retired_def split: option.splits)

lemma update_same: "map_of cs i = Some lane \<Longrightarrow> AList.update i lane cs = cs"
  by (induction cs) auto

text \<open>
  How a server cuts its answer does not matter: a chunk that is not the last hands nothing back, and the next one is
  then taken as if both had come in one, whether the request is in flight, given up or unknown.
\<close>

theorem chunks_join:
  "fst (receive_chunk parse i key False data cs) = None
   \<and> receive_chunk parse i key final data2 (snd (receive_chunk parse i key False data cs))
     = receive_chunk parse i key final (data @ data2) cs"
proof (cases "map_of cs i")
  case (Some lane)
  obtain c lane1 where k: "consume_retired key False lane = (c, lane1)" by (cases "consume_retired key False lane")
  then have [simp]: "lane1 = lane" by (rule consume_remains)
  obtain lane2 where c: "consume_retired key final lane = (c, lane2)" "\<not> c \<Longrightarrow> lane2 = lane"
    using k by (auto simp: consume_retired_def split: option.splits)
  show ?thesis
  proof (cases "c \<or> (\<forall>x. ln_in_flight lane = Some x \<longrightarrow> key_of x \<noteq> key)")
    case True
    then have "receive_chunk parse i key False data cs = (None, cs)"
      using Some k by (auto simp: receive_chunk_def update_same split: option.splits)
    moreover have "receive_chunk parse i key final data2 cs = receive_chunk parse i key final (data @ data2) cs"
      using Some c True by (auto simp: receive_chunk_def Let_def split: option.splits)
    ultimately show ?thesis by simp
  next
    case False
    then obtain x where x: "ln_in_flight lane = Some x" "key_of x = key" "\<not> c" by blast
    let ?lane = "\<lambda>d. lane\<lparr>ln_in_flight := Some (x\<lparr>if_response := if_response x @ d\<rparr>)\<rparr>"
    have none: "remove_first (\<lambda>r. r = key) (ln_retired lane) = None"
      using k x(3) by (auto simp: consume_retired_def split: option.splits)
    have "receive_chunk parse i key False data cs = (None, AList.update i (?lane data) cs)"
      using Some x none by (simp add: receive_chunk_def consume_retired_def Let_def)
    then show ?thesis
      using Some x none by (simp add: receive_chunk_def consume_retired_def Let_def key_of_def update_conv')
  qed
qed (simp add: receive_chunk_def)

end
