(* ===== verification/EndpointSupervisor.thy ===== *)
theory EndpointSupervisor
  imports EndpointCatalog "HOL-Library.AList"
begin

text \<open>
  Reconnecting to machines (\<open>client/endpoint/supervisor.rs\<close>): which endpoints there are, when each is tried next, and
  the generation that tells its latest attempt from earlier ones. Instants are milliseconds. An attempt is a task that
  connects and reports back; starting it is an entry of the log \<open>sv_spawned\<close>, which the code does not keep, and its
  report, if any, is a later operation with any status. The order of a walk over the \<open>HashMap\<close> is an argument.
\<close>

section \<open>State\<close>

definition INITIAL_RETRY_DELAY :: nat where "INITIAL_RETRY_DELAY = 500"
definition MAX_RETRY_DELAY :: nat where "MAX_RETRY_DELAY = 120000"
definition MAX_LOCAL_RETRY_DELAY :: nat where "MAX_LOCAL_RETRY_DELAY = 30000"
definition STABLE_CONNECTION_PERIOD :: nat where "STABLE_CONNECTION_PERIOD = 60000"

datatype connect_target = LocalTarget str | SshTarget saved_ssh_endpoint

record reconnect_state =
  rc_target :: connect_target
  rc_attempts :: u32
  rc_next_attempt :: "nat option"
  rc_in_flight :: bool
  rc_generation :: "u64 option"
  rc_online_since :: "nat option"

record supervisors =
  sv_endpoints :: "(client_endpoint_id \<times> reconnect_state) list"
  sv_next_generation :: u64
  sv_shutdown :: bool
  sv_spawned :: "(client_endpoint_id \<times> u64 \<times> connect_target) list"

definition reconnect_new :: "connect_target \<Rightarrow> nat \<Rightarrow> reconnect_state" where
  "reconnect_new target now = \<lparr>rc_target = target, rc_attempts = 0, rc_next_attempt = Some now, rc_in_flight = False,
     rc_generation = None, rc_online_since = None\<rparr>"

section \<open>Operations\<close>

definition supervisors_new :: "saved_ssh_endpoint list \<Rightarrow> nat \<Rightarrow> supervisors" where
  "supervisors_new profiles now =
    \<lparr>sv_endpoints = foldl (\<lambda>m p. AList.update (Ssh (se_id p)) (reconnect_new (SshTarget p) now) m) []
                      (filter se_enabled profiles),
     sv_next_generation = 2, sv_shutdown = False, sv_spawned = []\<rparr>"

definition add_local :: "str \<Rightarrow> u64 option \<Rightarrow> nat \<Rightarrow> supervisors \<Rightarrow> supervisors" where
  "add_local path generation now s =
    (let state = (reconnect_new (LocalTarget path) now)\<lparr>rc_generation := generation\<rparr>;
         state' = (if generation \<noteq> None then state\<lparr>rc_next_attempt := None\<rparr> else state)
     in s\<lparr>sv_endpoints := AList.update Local state' (sv_endpoints s)\<rparr>)"

definition keep_endpoint :: "saved_ssh_endpoint list \<Rightarrow> reconnect_state \<Rightarrow> bool" where
  "keep_endpoint profiles state =
    (case rc_target state of
       LocalTarget _ \<Rightarrow> True
     | SshTarget previous \<Rightarrow>
         list_ex (\<lambda>p. se_id p = se_id previous \<and> se_enabled p \<and> se_target p = se_target previous
                     \<and> se_session p = se_session previous) profiles)"

definition add_profile :: "nat \<Rightarrow> (client_endpoint_id \<times> reconnect_state) list \<Rightarrow> saved_ssh_endpoint
    \<Rightarrow> (client_endpoint_id \<times> reconnect_state) list" where
  "add_profile now m p =
    (let state = (case map_of m (Ssh (se_id p)) of None \<Rightarrow> reconnect_new (SshTarget p) now | Some st \<Rightarrow> st)
     in AList.update (Ssh (se_id p)) (state\<lparr>rc_target := SshTarget p\<rparr>) m)"

definition reconcile_profiles ::
  "(client_endpoint_id list \<Rightarrow> client_endpoint_id list) \<Rightarrow> saved_ssh_endpoint list \<Rightarrow> nat \<Rightarrow> supervisors
    \<Rightarrow> client_endpoint_id list \<times> supervisors" where
  "reconcile_profiles walk profiles now s =
    (let kept = filter (\<lambda>(i, state). keep_endpoint profiles state) (sv_endpoints s);
         retired = filter (\<lambda>i. case map_of (sv_endpoints s) i of None \<Rightarrow> False | Some st \<Rightarrow> \<not> keep_endpoint profiles st)
                     (walk (map fst (sv_endpoints s)))
     in (retired, s\<lparr>sv_endpoints := foldl (add_profile now) kept (filter se_enabled profiles)\<rparr>))"

definition spawn_one :: "nat \<Rightarrow> supervisors \<Rightarrow> client_endpoint_id \<Rightarrow> supervisors" where
  "spawn_one now s i =
    (case map_of (sv_endpoints s) i of
       None \<Rightarrow> s
     | Some state \<Rightarrow>
         if rc_in_flight state \<or> (case rc_next_attempt state of None \<Rightarrow> True | Some deadline \<Rightarrow> now < deadline) then s
         else let generation = sv_next_generation s
              in s\<lparr>sv_endpoints := AList.update i (state\<lparr>rc_in_flight := True, rc_next_attempt := None,
                      rc_generation := Some generation\<rparr>) (sv_endpoints s),
                   sv_next_generation := saturating_add (sv_next_generation s) 1,
                   sv_spawned := sv_spawned s @ [(i, generation, rc_target state)]\<rparr>)"

definition spawn_due :: "(client_endpoint_id list \<Rightarrow> client_endpoint_id list) \<Rightarrow> nat \<Rightarrow> supervisors \<Rightarrow> supervisors" where
  "spawn_due walk now s = foldl (spawn_one now) s (walk (map fst (sv_endpoints s)))"

definition retry_delay :: "u32 \<Rightarrow> nat" where
  "retry_delay attempt =
     min (INITIAL_RETRY_DELAY * unat (push_bit (unat (min (saturating_sub attempt 1) 8)) 1 :: u32)) MAX_RETRY_DELAY"

definition after_status :: "client_endpoint_id \<Rightarrow> client_endpoint_status \<Rightarrow> nat \<Rightarrow> reconnect_state \<Rightarrow> reconnect_state" where
  "after_status i status now st =
    (let state = st\<lparr>rc_in_flight := False\<rparr>
     in case status of
          Online \<Rightarrow>
            state\<lparr>rc_attempts := (if is_local i then 0 else rc_attempts state),
                  rc_online_since := Some (case rc_online_since state of None \<Rightarrow> now | Some t \<Rightarrow> t),
                  rc_next_attempt := None\<rparr>
        | Attention \<Rightarrow> state\<lparr>rc_online_since := None, rc_next_attempt := None\<rparr>
        | Disabled \<Rightarrow> state\<lparr>rc_online_since := None, rc_next_attempt := None\<rparr>
        | _ \<Rightarrow>
            let stable = (case rc_online_since state of
                            None \<Rightarrow> False | Some since \<Rightarrow> STABLE_CONNECTION_PERIOD \<le> now - since);
                attempts = saturating_add (if stable then 0 else rc_attempts state) 1;
                delay = retry_delay attempts
            in state\<lparr>rc_online_since := None, rc_attempts := attempts,
                     rc_next_attempt := Some (now + (if is_local i then min delay MAX_LOCAL_RETRY_DELAY else delay))\<rparr>)"

definition record_status ::
  "client_endpoint_id \<Rightarrow> u64 \<Rightarrow> client_endpoint_status \<Rightarrow> nat \<Rightarrow> supervisors \<Rightarrow> bool \<times> supervisors" where
  "record_status i generation status now s =
    (case map_of (sv_endpoints s) i of
       None \<Rightarrow> (False, s)
     | Some state \<Rightarrow>
         if rc_generation state \<noteq> Some generation then (False, s)
         else (True, s\<lparr>sv_endpoints := AList.update i (after_status i status now state) (sv_endpoints s)\<rparr>))"

definition disconnected :: "client_endpoint_id \<Rightarrow> u64 \<Rightarrow> nat \<Rightarrow> supervisors \<Rightarrow> bool \<times> supervisors" where
  "disconnected i generation now s = record_status i generation Reconnecting now s"

text \<open>\<open>Drop\<close>; a task that has not started, or has not reported yet, then does not.\<close>

definition supervisors_drop :: "supervisors \<Rightarrow> supervisors" where
  "supervisors_drop s = s\<lparr>sv_shutdown := True\<rparr>"

end
