(* ===== verification/EndpointRetry.thy ===== *)
theory EndpointRetry
  imports EndpointSupervisor "HOL-Library.Multiset"
begin

text \<open>
  What the supervisor of connections guarantees: the generation of an attempt is its own, so that a report of an attempt
  that was superseded is refused for ever; an endpoint that is neither online nor set aside is tried again; and how long
  it waits.
\<close>

section \<open>Runs\<close>

datatype supervisor_op =
  AddLocal str "u64 option" nat
  | Reconcile "client_endpoint_id list \<Rightarrow> client_endpoint_id list" "saved_ssh_endpoint list" nat
  | SpawnDue "client_endpoint_id list \<Rightarrow> client_endpoint_id list" nat
  | RecordStatus client_endpoint_id u64 client_endpoint_status nat

fun supervisor_step :: "supervisors \<Rightarrow> supervisor_op \<Rightarrow> supervisors" where
  "supervisor_step s (AddLocal path g now) = add_local path g now s"
| "supervisor_step s (Reconcile walk profiles now) = snd (reconcile_profiles walk profiles now s)"
| "supervisor_step s (SpawnDue walk now) = spawn_due walk now s"
| "supervisor_step s (RecordStatus i g status now) = snd (record_status i g status now s)"

definition walk_ok :: "(client_endpoint_id list \<Rightarrow> client_endpoint_id list) \<Rightarrow> bool" where
  "walk_ok walk \<longleftrightarrow> (\<forall>ks. mset (walk ks) = mset ks)"

text \<open>
  A walk meets every endpoint once, the local connection the client starts with has generation 1, and generations do not
  run out.
\<close>

fun supervisor_ok :: "supervisors \<Rightarrow> supervisor_op \<Rightarrow> bool" where
  "supervisor_ok s (AddLocal path g now) = (g = None \<or> g = Some 1)"
| "supervisor_ok s (Reconcile walk profiles now) = True"
| "supervisor_ok s (SpawnDue walk now) =
     (walk_ok walk \<and> unat (sv_next_generation s) + length (sv_endpoints s) < 2 ^ 64 - 1)"
| "supervisor_ok s (RecordStatus i g status now) = True"

definition current :: "supervisors \<Rightarrow> client_endpoint_id \<Rightarrow> u64 \<Rightarrow> bool" where
  "current s i g \<longleftrightarrow> (\<exists>st. map_of (sv_endpoints s) i = Some st \<and> rc_generation st = Some g)"

section \<open>Generations\<close>

definition generation_inv :: "supervisors \<Rightarrow> bool" where
  "generation_inv s \<longleftrightarrow>
     distinct (map fst (sv_endpoints s)) \<and> 2 \<le> sv_next_generation s
     \<and> distinct (map (\<lambda>(_, g, _). g) (sv_spawned s))
     \<and> (\<forall>(i, g, t) \<in> set (sv_spawned s). 2 \<le> g \<and> g < sv_next_generation s)"

definition fenced :: "client_endpoint_id \<Rightarrow> u64 \<Rightarrow> supervisors \<Rightarrow> bool" where
  "fenced i g s \<longleftrightarrow> \<not> current s i g \<and> 2 \<le> g \<and> g < sv_next_generation s"

lemma current_update:
  "map_of (sv_endpoints (s\<lparr>sv_endpoints := AList.update j st (sv_endpoints s)\<rparr>)) i =
     (if i = j then Some st else map_of (sv_endpoints s) i)"
  by (simp add: update_conv')

lemma record_status_current: "current (snd (record_status j h status now s)) i g \<longleftrightarrow> current s i g"
  by (auto simp: record_status_def current_def update_conv' after_status_def Let_def split: option.split client_endpoint_status.split)

lemma distinct_add_profiles: "distinct (map fst m) \<Longrightarrow> distinct (map fst (foldl (add_profile now) m ps))"
  by (induction ps arbitrary: m) (simp_all add: add_profile_def Let_def distinct_update)

lemma add_profiles_generation:
  "map_of (foldl (add_profile now) m ps) i = Some st \<Longrightarrow> rc_generation st = Some g \<Longrightarrow>
   \<exists>st'. map_of m i = Some st' \<and> rc_generation st' = Some g"
proof (induction ps arbitrary: m)
  case (Cons p ps)
  then obtain st' where st': "map_of (add_profile now m p) i = Some st'" "rc_generation st' = Some g" by auto
  then show ?case
    by (auto simp: add_profile_def Let_def update_conv' reconnect_new_def split: if_splits option.splits)
qed simp

lemma reconcile_current: "distinct (map fst (sv_endpoints s)) \<Longrightarrow> current (snd (reconcile_profiles walk ps now s)) i g \<Longrightarrow> current s i g"
proof -
  assume d: "distinct (map fst (sv_endpoints s))" and c: "current (snd (reconcile_profiles walk ps now s)) i g"
  let ?kept = "filter (\<lambda>(i, state). keep_endpoint ps state) (sv_endpoints s)"
  obtain st where "map_of ?kept i = Some st" "rc_generation st = Some g"
    using c add_profiles_generation [of now ?kept "filter se_enabled ps" i _ g]
    by (auto simp: current_def reconcile_profiles_def Let_def)
  moreover from this have "(i, st) \<in> set (sv_endpoints s)" by (auto dest: map_of_SomeD)
  ultimately show "current s i g" using d by (auto simp: current_def)
qed

lemma spawn_one_step:
  assumes "generation_inv s" "unat (sv_next_generation s) < 2 ^ 64 - 1"
  shows "generation_inv (spawn_one now s j)" "fenced i g s \<Longrightarrow> fenced i g (spawn_one now s j)"
    "unat (sv_next_generation (spawn_one now s j)) \<le> Suc (unat (sv_next_generation s))"
    "map fst (sv_endpoints (spawn_one now s j)) = map fst (sv_endpoints s)"
proof -
  let ?n = "sv_next_generation s"
  have sat: "saturating_add ?n 1 = ?n + 1" using assms(2) by (simp add: saturating_add_def)
  have u: "unat (?n + 1) = Suc (unat ?n)" using assms(2) by (simp add: unat_add_small)
  have lt: "?n < ?n + 1" by (simp add: word_less_nat_alt u)
  have keys: "map fst (AList.update j st m) = map fst m" if "map_of m j = Some st0" for st st0 :: reconnect_state and m
    using that by (induction m) auto
  show "generation_inv (spawn_one now s j)"
    using assms(1) lt keys
    by (auto simp: spawn_one_def generation_inv_def sat Let_def split: option.split intro: less_trans dest: order_less_imp_le)
  show "fenced i g s \<Longrightarrow> fenced i g (spawn_one now s j)"
    using lt by (auto simp: fenced_def spawn_one_def current_def sat Let_def update_conv' split: option.splits if_splits)
  show "unat (sv_next_generation (spawn_one now s j)) \<le> Suc (unat ?n)"
    using u by (auto simp: spawn_one_def sat Let_def split: option.split)
  show "map fst (sv_endpoints (spawn_one now s j)) = map fst (sv_endpoints s)"
    using keys by (auto simp: spawn_one_def Let_def split: option.split)
qed

lemma spawn_many:
  "generation_inv s \<Longrightarrow> unat (sv_next_generation s) + length is < 2 ^ 64 - 1 \<Longrightarrow>
   generation_inv (foldl (spawn_one now) s is) \<and> (fenced i g s \<longrightarrow> fenced i g (foldl (spawn_one now) s is))"
proof (induction "is" arbitrary: s)
  case (Cons j "is")
  then have n: "unat (sv_next_generation s) < 2 ^ 64 - 1" by simp
  note one = spawn_one_step [OF Cons.prems(1) n, where now = now and j = j]
  have "unat (sv_next_generation (spawn_one now s j)) + length is < 2 ^ 64 - 1"
    using one(3) Cons.prems(2) by simp
  from Cons.IH [OF one(1) this] one(2) [of i g] show ?case by simp
qed simp

lemma walk_length: "walk_ok walk \<Longrightarrow> length (walk ks) = length ks"
  by (metis walk_ok_def size_mset)

lemma supervisor_step_inv:
  assumes "generation_inv s" "supervisor_ok s x"
  shows "generation_inv (supervisor_step s x)" and "fenced i g s \<Longrightarrow> fenced i g (supervisor_step s x)"
proof -
  have one: "\<not> 2 \<le> (1 :: u64)" by (simp add: word_le_nat_alt)
  have "generation_inv (supervisor_step s x) \<and> (fenced i g s \<longrightarrow> fenced i g (supervisor_step s x))"
  proof (cases x)
    case (AddLocal path h now)
    then show ?thesis using assms
      by (auto simp: add_local_def Let_def generation_inv_def fenced_def current_def distinct_update update_conv' reconnect_new_def one
          split: if_splits)
  next
    case (Reconcile walk ps now)
    have "distinct (map fst (sv_endpoints s))" using assms(1) by (simp add: generation_inv_def)
    then show ?thesis using Reconcile assms reconcile_current [of s walk ps now i g]
      by (auto simp: fenced_def generation_inv_def reconcile_profiles_def Let_def distinct_map_filter intro!: distinct_add_profiles)
  next
    case (SpawnDue walk now)
    then show ?thesis using assms spawn_many [of s "walk (map fst (sv_endpoints s))" now i g]
      by (simp add: spawn_due_def walk_length)
  next
    case (RecordStatus j h status now)
    then show ?thesis using assms record_status_current [of j h status now s i g]
      by (auto simp: fenced_def generation_inv_def record_status_def distinct_update split: option.splits)
  qed
  then show "generation_inv (supervisor_step s x)" "fenced i g s \<Longrightarrow> fenced i g (supervisor_step s x)" by simp_all
qed

interpretation supervisor: related_machine supervisor_step supervisor_ok generation_inv
  "\<lambda>s t. \<forall>i g. fenced i g s \<longrightarrow> fenced i g t"
  by unfold_locales (auto intro: supervisor_step_inv)

lemma distinct_initial:
  "distinct (map fst m) \<Longrightarrow> distinct (map fst (foldl (\<lambda>m p. AList.update (Ssh (se_id p)) (reconnect_new (SshTarget p) now) m) m ps))"
  by (induction ps arbitrary: m) (simp_all add: distinct_update)

lemma new_inv: "generation_inv (supervisors_new profiles t0)"
  by (simp add: generation_inv_def supervisors_new_def distinct_initial)

text \<open>
  C37: every attempt has a generation of its own. Once an endpoint is retired, or tried again, no report of its earlier
  attempts is accepted any more, whatever happens later, as long as generations do not run out.
\<close>

theorem superseded_attempts_refused:
  assumes "ok_run supervisor_step supervisor_ok (supervisors_new profiles t0) (xs @ ys)"
    and "(i, g, target) \<in> set (sv_spawned (foldl supervisor_step (supervisors_new profiles t0) xs))"
    and "\<not> current (foldl supervisor_step (supervisors_new profiles t0) xs) i g"
  shows "record_status i g status now (foldl supervisor_step (supervisors_new profiles t0) (xs @ ys))
           = (False, foldl supervisor_step (supervisors_new profiles t0) (xs @ ys))
         \<and> distinct (map (\<lambda>(_, g, _). g) (sv_spawned (foldl supervisor_step (supervisors_new profiles t0) (xs @ ys))))"
proof -
  let ?s = "foldl supervisor_step (supervisors_new profiles t0) xs"
  have runs: "ok_run supervisor_step supervisor_ok (supervisors_new profiles t0) xs" "ok_run supervisor_step supervisor_ok ?s ys"
    using assms(1) by (simp_all add: supervisor.ok_run_append)
  have inv: "generation_inv ?s" by (rule supervisor.run_inv [OF new_inv runs(1)])
  then have "fenced i g ?s" using assms(2,3) by (auto simp: fenced_def generation_inv_def)
  then have "fenced i g (foldl supervisor_step ?s ys)" using supervisor.run_rel [OF inv runs(2)] by blast
  then have "record_status i g status now (foldl supervisor_step ?s ys) = (False, foldl supervisor_step ?s ys)"
    by (auto simp: fenced_def current_def record_status_def split: option.split)
  moreover have "generation_inv (foldl supervisor_step ?s ys)" by (rule supervisor.run_inv [OF inv runs(2)])
  ultimately show ?thesis by (simp add: generation_inv_def)
qed

definition demo_profile :: saved_ssh_endpoint where
  "demo_profile = \<lparr>se_id = demo_id, se_label = lit ''Build'', se_target = lit ''build'', se_session = lit ''agents'', se_enabled = True\<rparr>"

theorem superseded_attempts_refused_witness:
  "fst (record_status (Ssh demo_id) 2 Online 9000
     (foldl supervisor_step (supervisors_new [demo_profile] 0)
       ([SpawnDue id 0, RecordStatus (Ssh demo_id) 2 Reconnecting 400, SpawnDue id 900] @ [RecordStatus (Ssh demo_id) 3 Online 1000]))) = False"
proof -
  let ?xs = "[SpawnDue id 0, RecordStatus (Ssh demo_id) 2 Reconnecting 400, SpawnDue id 900]"
  let ?ys = "[RecordStatus (Ssh demo_id) 3 Online 1000]"
  note defs = supervisors_new_def demo_profile_def reconnect_new_def spawn_due_def spawn_one_def record_status_def walk_ok_def
    after_status_def current_def saturating_add_def retry_delay_def is_local_def INITIAL_RETRY_DELAY_def MAX_RETRY_DELAY_def
    saturating_sub_def Let_def
  have "ok_run supervisor_step supervisor_ok (supervisors_new [demo_profile] 0) (?xs @ ?ys)" by (simp add: defs)
  moreover have "(Ssh demo_id, 2, SshTarget demo_profile)
      \<in> set (sv_spawned (foldl supervisor_step (supervisors_new [demo_profile] 0) ?xs))" by (simp add: defs)
  moreover have "\<not> current (foldl supervisor_step (supervisors_new [demo_profile] 0) ?xs) (Ssh demo_id) 2" by (simp add: defs)
  ultimately show ?thesis
    using superseded_attempts_refused [of "[demo_profile]" 0 ?xs ?ys "Ssh demo_id" 2 "SshTarget demo_profile" Online 9000] by simp
qed

section \<open>Nothing is forgotten\<close>

text \<open>The latest status accepted of every endpoint, as the shell is told it.\<close>

definition watch ::
  "supervisors \<times> (client_endpoint_id \<Rightarrow> client_endpoint_status) \<Rightarrow> supervisor_op
    \<Rightarrow> supervisors \<times> (client_endpoint_id \<Rightarrow> client_endpoint_status)" where
  "watch w x =
    (let (s, seen) = w in
     (supervisor_step s x,
      case x of
        AddLocal path g now \<Rightarrow> seen(Local := if g = None then Connecting else Online)
      | Reconcile walk profiles now \<Rightarrow>
          (\<lambda>i. if map_of (sv_endpoints s) i = None \<or> i \<in> set (fst (reconcile_profiles walk profiles now s))
               then Connecting else seen i)
      | SpawnDue walk now \<Rightarrow> seen
      | RecordStatus i g status now \<Rightarrow> if fst (record_status i g status now s) then seen(i := status) else seen))"

fun op_time :: "supervisor_op \<Rightarrow> nat" where
  "op_time (AddLocal path g now) = now" | "op_time (Reconcile walk profiles now) = now"
| "op_time (SpawnDue walk now) = now" | "op_time (RecordStatus i g status now) = now"

definition longest_delay :: "client_endpoint_id \<Rightarrow> nat" where
  "longest_delay i = (if is_local i then MAX_LOCAL_RETRY_DELAY else MAX_RETRY_DELAY)"

definition retrying :: "client_endpoint_status \<Rightarrow> bool" where
  "retrying status \<longleftrightarrow> status = Connecting \<or> status = Reconnecting"

definition tried :: "nat \<Rightarrow> client_endpoint_id \<Rightarrow> reconnect_state \<Rightarrow> bool" where
  "tried now i st \<longleftrightarrow> rc_in_flight st \<or> (\<exists>d. rc_next_attempt st = Some d \<and> d \<le> now + longest_delay i)"

definition remembered :: "nat \<Rightarrow> supervisors \<times> (client_endpoint_id \<Rightarrow> client_endpoint_status) \<Rightarrow> bool" where
  "remembered now w \<longleftrightarrow>
     distinct (map fst (sv_endpoints (fst w)))
     \<and> (\<forall>i st. map_of (sv_endpoints (fst w)) i = Some st \<longrightarrow> retrying (snd w i) \<longrightarrow> tried now i st)"

lemma small_power: "k \<le> 8 \<Longrightarrow> unat (2 ^ k :: u32) = 2 ^ k"
proof -
  assume "k \<le> 8"
  then have "(2 :: nat) ^ k < 2 ^ 32" by (intro power_strict_increasing) auto
  then have "unat (of_nat (2 ^ k) :: u32) = 2 ^ k" by (intro unat_of_nat_less) simp
  then show ?thesis by simp
qed

lemma retry_delay_eq: "retry_delay n = min (500 * 2 ^ min (unat n - 1) 8) 120000"
  by (simp add: retry_delay_def small_power unat_min unat_saturating_sub INITIAL_RETRY_DELAY_def MAX_RETRY_DELAY_def)

lemma retry_delay_bounds: "INITIAL_RETRY_DELAY \<le> retry_delay n" "retry_delay n \<le> MAX_RETRY_DELAY"
  by (simp_all add: retry_delay_eq INITIAL_RETRY_DELAY_def MAX_RETRY_DELAY_def)

lemma new_tried: "now \<le> T \<Longrightarrow> tried T i ((reconnect_new target now)\<lparr>rc_target := target'\<rparr>)"
  by (simp add: tried_def reconnect_new_def)

lemma status_tried: "now \<le> T \<Longrightarrow> retrying status \<Longrightarrow> tried T i (after_status i status now st)"
proof -
  assume t: "now \<le> T" and r: "retrying status"
  obtain a where "rc_next_attempt (after_status i status now st)
      = Some (now + (if is_local i then min (retry_delay a) MAX_LOCAL_RETRY_DELAY else retry_delay a))"
    using r by (cases status) (auto simp: after_status_def Let_def retrying_def)
  then show ?thesis
    using t retry_delay_bounds(2) [of a] by (simp add: tried_def longest_delay_def min_def)
qed

lemma spawn_one_tried:
  "map_of (sv_endpoints (spawn_one now s j)) i = Some st \<Longrightarrow>
   \<exists>st0. map_of (sv_endpoints s) i = Some st0 \<and> (tried T i st0 \<longrightarrow> tried T i st)"
  by (auto simp: spawn_one_def Let_def update_conv' tried_def split: option.splits if_splits)

lemma spawn_tried:
  "map_of (sv_endpoints (foldl (spawn_one now) s is)) i = Some st \<Longrightarrow>
   \<exists>st0. map_of (sv_endpoints s) i = Some st0 \<and> (tried T i st0 \<longrightarrow> tried T i st)"
proof (induction "is" arbitrary: s)
  case (Cons j "is")
  then obtain st1 where "map_of (sv_endpoints (spawn_one now s j)) i = Some st1" "tried T i st1 \<longrightarrow> tried T i st"
    by fastforce
  with spawn_one_tried [of now s j i st1 T] show ?case by blast
qed simp

lemma spawn_keys: "map fst (sv_endpoints (foldl (spawn_one now) s is)) = map fst (sv_endpoints s)"
proof (induction "is" arbitrary: s)
  case (Cons j "is")
  have "map fst (AList.update j st m) = map fst m" if "map_of m j = Some st0" for st st0 :: reconnect_state and m
    using that by (induction m) auto
  then have "map fst (sv_endpoints (spawn_one now s j)) = map fst (sv_endpoints s)"
    by (auto simp: spawn_one_def Let_def split: option.split)
  with Cons show ?case by simp
qed simp

lemma add_profiles_cases:
  "map_of (foldl (add_profile now) m ps) i = Some st \<Longrightarrow>
   (\<exists>st'. map_of m i = Some st' \<and> st = st'\<lparr>rc_target := rc_target st\<rparr>)
   \<or> (map_of m i = None \<and> (\<exists>t. st = (reconnect_new t now)\<lparr>rc_target := rc_target st\<rparr>))"
proof (induction ps arbitrary: m)
  case (Cons p ps)
  then have "(\<exists>st'. map_of (add_profile now m p) i = Some st' \<and> st = st'\<lparr>rc_target := rc_target st\<rparr>)
   \<or> (map_of (add_profile now m p) i = None \<and> (\<exists>t. st = (reconnect_new t now)\<lparr>rc_target := rc_target st\<rparr>))" by simp
  then show ?case
    by (cases "map_of m i") (auto simp: add_profile_def Let_def update_conv' split: if_splits option.splits)
qed simp

lemma reconcile_tried:
  assumes d: "distinct (map fst (sv_endpoints s))" and "now \<le> T"
    and st: "map_of (sv_endpoints (snd (reconcile_profiles walk ps now s))) i = Some st"
  shows "tried T i st \<or> (\<exists>st0. map_of (sv_endpoints s) i = Some st0 \<and> i \<notin> set (fst (reconcile_profiles walk ps now s))
           \<and> (tried T i st0 \<longrightarrow> tried T i st))"
proof -
  let ?kept = "filter (\<lambda>(i, state). keep_endpoint ps state) (sv_endpoints s)"
  have "map_of (foldl (add_profile now) ?kept (filter se_enabled ps)) i = Some st"
    using st by (simp add: reconcile_profiles_def Let_def)
  from add_profiles_cases [OF this] show ?thesis
  proof
    assume "\<exists>st'. map_of ?kept i = Some st' \<and> st = st'\<lparr>rc_target := rc_target st\<rparr>"
    then obtain st' where st': "map_of ?kept i = Some st'" "st = st'\<lparr>rc_target := rc_target st\<rparr>" by blast
    then have k: "(i, st') \<in> set (sv_endpoints s)" "keep_endpoint ps st'" by (auto dest: map_of_SomeD)
    then have m: "map_of (sv_endpoints s) i = Some st'" using d by simp
    have "tried T i st' \<longrightarrow> tried T i st" by (subst st'(2)) (simp add: tried_def)
    then show ?thesis using m k by (auto simp: reconcile_profiles_def Let_def)
  next
    assume "map_of ?kept i = None \<and> (\<exists>t. st = (reconnect_new t now)\<lparr>rc_target := rc_target st\<rparr>)"
    then show ?thesis using new_tried [OF assms(2)] by metis
  qed
qed

lemma watch_remembers:
  assumes "remembered T w" "op_time x \<le> T"
  shows "remembered T (watch w x)"
proof -
  obtain s seen where w: "w = (s, seen)" by (cases w)
  have d: "distinct (map fst (sv_endpoints s))"
    and t: "\<And>i st. map_of (sv_endpoints s) i = Some st \<Longrightarrow> retrying (seen i) \<Longrightarrow> tried T i st"
    using assms(1) by (simp_all add: w remembered_def)
  show ?thesis
  proof (cases x)
    case (AddLocal path g now)
    then show ?thesis using d t assms(2)
      by (auto simp: w watch_def remembered_def add_local_def Let_def distinct_update update_conv' retrying_def tried_def
          reconnect_new_def)
  next
    case (Reconcile walk ps now)
    have "tried T i st" if "map_of (sv_endpoints (snd (reconcile_profiles walk ps now s))) i = Some st"
      "retrying (snd (watch w x) i)" for i st
      using reconcile_tried [OF d _ that(1), of T] that(2) t assms(2) Reconcile
      by (auto simp: w watch_def split: if_splits)
    then show ?thesis using Reconcile d
      by (auto simp: w watch_def remembered_def reconcile_profiles_def Let_def distinct_map_filter intro!: distinct_add_profiles)
  next
    case (SpawnDue walk now)
    have "tried T i st" if "map_of (sv_endpoints (spawn_due walk now s)) i = Some st" "retrying (seen i)" for i st
      using spawn_tried [of now s "walk (map fst (sv_endpoints s))" i st T] that t by (auto simp: spawn_due_def)
    then show ?thesis using SpawnDue d by (auto simp: w watch_def remembered_def spawn_due_def spawn_keys)
  next
    case (RecordStatus j g status now)
    then show ?thesis using d t assms(2)
      by (auto simp: w watch_def remembered_def record_status_def distinct_update update_conv' status_tried
          simp del: map_of_eq_Some_iff split: option.splits if_splits)
  qed
qed

lemma initial_tried:
  assumes "\<And>i st. map_of m i = Some st \<Longrightarrow> tried T i st" "t0 \<le> T"
    and "map_of (foldl (\<lambda>m p. AList.update (Ssh (se_id p)) (reconnect_new (SshTarget p) t0) m) m ps) i = Some st"
  shows "tried T i st"
  using assms(1,3)
proof (induction ps arbitrary: m)
  case (Cons p ps)
  let ?m = "AList.update (Ssh (se_id p)) (reconnect_new (SshTarget p) t0) m"
  have "tried T j st'" if "map_of ?m j = Some st'" for j st'
  proof (cases "j = Ssh (se_id p)")
    case True
    then have "st' = reconnect_new (SshTarget p) t0" using that by (simp add: update_conv')
    then show ?thesis using assms(2) by (simp add: tried_def reconnect_new_def)
  next
    case False
    then show ?thesis using that Cons.prems(1) by (simp add: update_conv')
  qed
  then show ?case using Cons.IH [of ?m] Cons.prems(2) by simp
qed simp

lemma new_remembered: "t0 \<le> T \<Longrightarrow> remembered T (supervisors_new profiles t0, \<lambda>_. Connecting)"
  using initial_tried [of "[]" T t0 "filter se_enabled profiles"]
  by (auto simp: remembered_def supervisors_new_def distinct_initial simp del: map_of_eq_Some_iff)

lemma run_remembered: "remembered T w \<Longrightarrow> list_all (\<lambda>x. op_time x \<le> T) xs \<Longrightarrow> remembered T (foldl watch w xs)"
proof (induction xs arbitrary: w)
  case (Cons x xs)
  then have "remembered T (watch w x)" by (intro watch_remembers) simp_all
  then show ?case using Cons.IH [of "watch w x"] Cons.prems(2) by (simp only: foldl_Cons list.pred_inject)
qed simp

lemma due_spawned:
  "map_of (sv_endpoints s) i = Some st \<Longrightarrow> rc_in_flight st \<or> (\<exists>d \<le> now. rc_next_attempt st = Some d) \<Longrightarrow> i \<in> set is \<or> rc_in_flight st \<Longrightarrow>
   \<exists>st'. map_of (sv_endpoints (foldl (spawn_one now) s is)) i = Some st' \<and> rc_in_flight st'"
proof (induction "is" arbitrary: s st)
  case (Cons j "is")
  show ?case
  proof (cases "i = j \<and> \<not> rc_in_flight st")
    case True
    then show ?thesis using Cons.prems Cons.IH [of "spawn_one now s j" "st\<lparr>rc_in_flight := True, rc_next_attempt := None,
        rc_generation := Some (sv_next_generation s)\<rparr>"]
      by (auto simp: spawn_one_def Let_def update_conv')
  next
    case False
    then have "map_of (sv_endpoints (spawn_one now s j)) i = Some st"
      using Cons.prems by (auto simp: spawn_one_def Let_def update_conv' split: option.split)
    then show ?thesis using False Cons.prems Cons.IH [of "spawn_one now s j" st] by auto
  qed
qed simp

text \<open>
  C38: an endpoint whose latest status is neither online nor one that asks for attention is being tried, or will be within
  two minutes of the last thing that happened, half a minute for the local one: a walk over what is due then starts it.
\<close>

theorem nothing_forgotten:
  assumes "t0 \<le> T" "list_all (\<lambda>x. op_time x \<le> T) xs" "walk_ok walk"
    and "foldl watch (supervisors_new profiles t0, \<lambda>_. Connecting) xs = (s, seen)"
    and "map_of (sv_endpoints s) i = Some st" "retrying (seen i)"
  shows "\<exists>st'. map_of (sv_endpoints (spawn_due walk (T + (if i = Local then 30000 else 120000)) s)) i = Some st' \<and> rc_in_flight st'"
proof -
  have "remembered T (s, seen)" using run_remembered [OF new_remembered [OF assms(1)] assms(2)] assms(4) by metis
  then have "tried T i st" using assms(5,6) by (simp add: remembered_def)
  moreover have "longest_delay i = (if i = Local then 30000 else 120000)"
    by (cases i) (simp_all add: longest_delay_def is_local_def MAX_LOCAL_RETRY_DELAY_def MAX_RETRY_DELAY_def)
  ultimately have "rc_in_flight st \<or> (\<exists>d \<le> T + (if i = Local then 30000 else 120000). rc_next_attempt st = Some d)"
    by (auto simp: tried_def)
  moreover have "i \<in> set (walk (map fst (sv_endpoints s)))"
  proof -
    have "set (walk (map fst (sv_endpoints s))) = set (map fst (sv_endpoints s))"
      using assms(3) by (metis walk_ok_def set_mset_mset)
    then show ?thesis using map_of_SomeD [OF assms(5)] by force
  qed
  ultimately show ?thesis using due_spawned [OF assms(5)] by (simp add: spawn_due_def)
qed

theorem nothing_forgotten_witness:
  "\<exists>st'. map_of (sv_endpoints (spawn_due id (400 + 120000)
      (fst (foldl watch (supervisors_new [demo_profile] 0, \<lambda>_. Connecting)
        [SpawnDue id 0, RecordStatus (Ssh demo_id) 2 Reconnecting 400])))) (Ssh demo_id) = Some st' \<and> rc_in_flight st'"
proof -
  let ?st = "\<lparr>rc_target = SshTarget demo_profile, rc_attempts = 1, rc_next_attempt = Some 900, rc_in_flight = False,
     rc_generation = Some 2, rc_online_since = None\<rparr>"
  let ?s = "\<lparr>sv_endpoints = [(Ssh demo_id, ?st)], sv_next_generation = 3, sv_shutdown = False,
     sv_spawned = [(Ssh demo_id, 2, SshTarget demo_profile)]\<rparr>"
  have w: "foldl watch (supervisors_new [demo_profile] 0, \<lambda>_. Connecting)
        [SpawnDue id 0, RecordStatus (Ssh demo_id) 2 Reconnecting 400] = (?s, (\<lambda>_. Connecting)(Ssh demo_id := Reconnecting))"
    by (simp add: watch_def supervisors_new_def demo_profile_def reconnect_new_def spawn_due_def spawn_one_def record_status_def
        after_status_def saturating_add_def retry_delay_def is_local_def INITIAL_RETRY_DELAY_def MAX_RETRY_DELAY_def
        saturating_sub_def Let_def)
  show ?thesis unfolding w fst_conv
    using nothing_forgotten [OF _ _ _ w, of 400 id "Ssh demo_id" ?st] by (simp add: walk_ok_def retrying_def)
qed

section \<open>Backoff\<close>

text \<open>A machine that is tried, comes up and is lost again.\<close>

definition flap :: "client_endpoint_id \<Rightarrow> reconnect_state \<Rightarrow> nat \<times> nat \<Rightarrow> reconnect_state" where
  "flap i st x =
    (case x of (up, down) \<Rightarrow>
       after_status i Reconnecting down
         (after_status i Online up (st\<lparr>rc_in_flight := True, rc_next_attempt := None\<rparr>)))"

lemma flap_step:
  assumes "rc_online_since st = None"
  shows "rc_online_since (flap i st (up, down)) = None"
    and "rc_attempts (flap i st (up, down)) = saturating_add (if is_local i \<or> up + 60000 \<le> down then 0 else rc_attempts st) 1"
    and "rc_next_attempt (flap i st (up, down)) = Some (down +
           (if is_local i then min (retry_delay (rc_attempts (flap i st (up, down)))) 30000
            else retry_delay (rc_attempts (flap i st (up, down)))))"
  using assms
  by (auto simp: flap_def after_status_def Let_def STABLE_CONNECTION_PERIOD_def MAX_LOCAL_RETRY_DELAY_def)

lemma short_flaps:
  "rc_online_since st = None \<Longrightarrow> list_all (\<lambda>(up, down). down < up + 60000) xs \<Longrightarrow> unat (rc_attempts st) + length xs < 2 ^ 32 \<Longrightarrow>
   rc_online_since (foldl (flap (Ssh p)) st xs) = None
   \<and> unat (rc_attempts (foldl (flap (Ssh p)) st xs)) = unat (rc_attempts st) + length xs"
proof (induction xs arbitrary: st)
  case (Cons x xs)
  obtain up down where x: "x = (up, down)" by (cases x)
  let ?st = "flap (Ssh p) st (up, down)"
  have "unat (rc_attempts ?st) = Suc (unat (rc_attempts st))"
    using Cons.prems flap_step(2) [OF Cons.prems(1), of "Ssh p" up down] by (simp add: x is_local_def unat_saturating_add)
  then show ?case
    using Cons.IH [of ?st] flap_step(1) [OF Cons.prems(1), of "Ssh p" up down] Cons.prems(2,3) by (simp add: x)
qed simp

text \<open>
  A machine that comes up for less than a minute each time is tried after half a second, one, two and so on up to
  two minutes, its short wakes notwithstanding; one that was up for a minute, and the local server, start over.
\<close>

theorem backoff:
  assumes "rc_online_since st = None" "rc_attempts st = 0"
    and "list_all (\<lambda>(up, down). down < up + 60000) xs" "length xs + 1 < 2 ^ 32"
  shows "rc_next_attempt (foldl (flap (Ssh p)) st (xs @ [(up, down)]))
           = Some (down + (if up + 60000 \<le> down then 500 else min (500 * 2 ^ min (length xs) 8) 120000))
         \<and> rc_next_attempt (foldl (flap Local) st (xs @ [(up, down)])) = Some (down + 500)"
proof -
  let ?st = "foldl (flap (Ssh p)) st xs"
  have short: "rc_online_since ?st = None" "unat (rc_attempts ?st) = length xs"
    using short_flaps [OF assms(1,3), of p] assms(2,4) by simp_all
  have "unat (rc_attempts (flap (Ssh p) ?st (up, down))) = (if up + 60000 \<le> down then 1 else Suc (length xs))"
    using flap_step(2) [OF short(1), of "Ssh p" up down] short(2) assms(4) by (simp add: is_local_def unat_saturating_add)
  then have ssh: "rc_next_attempt (flap (Ssh p) ?st (up, down))
      = Some (down + (if up + 60000 \<le> down then 500 else min (500 * 2 ^ min (length xs) 8) 120000))"
    using flap_step(3) [OF short(1), of "Ssh p" up down] by (simp add: is_local_def retry_delay_eq)
  have "rc_online_since (foldl (flap Local) st xs) = None"
    using assms(1) by (induction xs arbitrary: st) (auto simp: flap_step(1))
  then have "rc_next_attempt (flap Local (foldl (flap Local) st xs) (up, down)) = Some (down + 500)"
    using flap_step(2,3) [of "foldl (flap Local) st xs" Local up down] by (simp add: is_local_def retry_delay_eq saturating_add_def)
  then show ?thesis using ssh by simp
qed

theorem backoff_witness:
  "rc_next_attempt (foldl (flap (Ssh demo_id)) (reconnect_new (SshTarget demo_profile) 0) ([(100, 20000), (20600, 40000)] @ [(41100, 50000)]))
     = Some 52000"
  using backoff [of "reconnect_new (SshTarget demo_profile) 0" "[(100, 20000), (20600, 40000)]" demo_id 41100 50000]
  by (simp add: reconnect_new_def)

end
