(* ===== verification/Selection.thy ===== *)
theory Selection
  imports Geometry
begin

text \<open>
  Mouse selection in a pane (\<open>selection.rs\<close>): the anchor and the moving end in screen-buffer
  coordinates, the phases of the gesture, which cells are inside, and the at most three rectangles
  the renderer highlights. \<open>clamp\<close> panics when its bounds are crossed, so what uses it returns an
  option. The clipboard half of the file decides whether the OSC 52 escape sequence is used;
  base64 encoding and the platform clipboard are outside.
\<close>

section \<open>State\<close>

datatype phase = Anchored | Dragging | Done

record scroll_metrics =
  offset_from_bottom :: u64
  max_offset_from_bottom :: u64
  viewport_rows :: u64

type_synonym cell_pos = "u32 \<times> u16"

record 'p selection =
  sel_pane_id :: 'p
  sel_anchor :: cell_pos
  sel_cursor :: cell_pos
  sel_phase :: phase

section \<open>Scrolling\<close>

definition viewport_top_row :: "scroll_metrics option \<Rightarrow> u32" where
  "viewport_top_row metrics =
    ucast (case metrics of
        Some m \<Rightarrow> saturating_sub (max_offset_from_bottom m) (offset_from_bottom m)
      | None \<Rightarrow> 0)"

definition absolute_row_for_viewport_row :: "u16 \<Rightarrow> scroll_metrics option \<Rightarrow> u32" where
  "absolute_row_for_viewport_row viewport_row metrics = viewport_top_row metrics + ucast viewport_row"

text \<open>\<open>try_into().unwrap_or(0)\<close> from \<open>u32\<close> to \<open>u16\<close>.\<close>

definition u16_try_from :: "u32 \<Rightarrow> u16" where
  "u16_try_from w = (if unat w < 65536 then ucast w else 0)"

definition viewport_row_for_absolute_row :: "u32 \<Rightarrow> scroll_metrics option \<Rightarrow> u16" where
  "viewport_row_for_absolute_row absolute_row metrics =
    u16_try_from (saturating_sub absolute_row (viewport_top_row metrics))"

text \<open>\<open>Ord::clamp\<close> asserts that the bounds are in order.\<close>

definition clamp_checked :: "'a::linorder \<Rightarrow> 'a \<Rightarrow> 'a \<Rightarrow> 'a option" where
  "clamp_checked v lo hi =
    (if lo \<le> hi then Some (if v < lo then lo else if hi < v then hi else v) else None)"

definition clamp_to_pane :: "u16 \<Rightarrow> u16 \<Rightarrow> rect \<Rightarrow> (u16 \<times> u16) option" where
  "clamp_to_pane screen_col screen_row pane_inner =
    (case clamp_checked screen_col (r_x pane_inner) (r_x pane_inner + saturating_sub (r_w pane_inner) 1) of
       None \<Rightarrow> None
     | Some clamped_col \<Rightarrow>
         (case clamp_checked screen_row (r_y pane_inner) (r_y pane_inner + saturating_sub (r_h pane_inner) 1) of
            None \<Rightarrow> None
          | Some clamped_row \<Rightarrow> Some (clamped_row - r_y pane_inner, clamped_col - r_x pane_inner)))"

section \<open>The gesture\<close>

definition anchor_at :: "'p \<Rightarrow> u16 \<Rightarrow> u16 \<Rightarrow> scroll_metrics option \<Rightarrow> 'p selection" where
  "anchor_at pane_id viewport_row col metrics =
    (let a = (absolute_row_for_viewport_row viewport_row metrics, col)
     in \<lparr>sel_pane_id = pane_id, sel_anchor = a, sel_cursor = a, sel_phase = Anchored\<rparr>)"

definition absolute_anchor :: "'p \<Rightarrow> cell_pos \<Rightarrow> 'p selection" where
  "absolute_anchor pane_id a =
    \<lparr>sel_pane_id = pane_id, sel_anchor = a, sel_cursor = a, sel_phase = Anchored\<rparr>"

definition absolute_range :: "'p \<Rightarrow> cell_pos \<Rightarrow> cell_pos \<Rightarrow> 'p selection" where
  "absolute_range pane_id a c =
    \<lparr>sel_pane_id = pane_id, sel_anchor = a, sel_cursor = c, sel_phase = Dragging\<rparr>"

definition line_range :: "'p \<Rightarrow> u32 \<Rightarrow> u32 \<Rightarrow> u16 \<Rightarrow> 'p selection" where
  "line_range pane_id anchor_row cursor_row end_col =
    (let (anchor_col, cursor_col) = (if anchor_row \<le> cursor_row then (0, end_col) else (end_col, 0))
     in \<lparr>sel_pane_id = pane_id, sel_anchor = (anchor_row, anchor_col),
          sel_cursor = (cursor_row, cursor_col), sel_phase = Dragging\<rparr>)"

definition anchor_screen_pos :: "'p selection \<Rightarrow> rect \<Rightarrow> scroll_metrics option \<Rightarrow> (u16 \<times> u16) option" where
  "anchor_screen_pos s pane_inner metrics =
    (let viewport_row = viewport_row_for_absolute_row (fst (sel_anchor s)) metrics
     in case clamp_checked (saturating_add viewport_row (r_y pane_inner)) (r_y pane_inner)
               (r_y pane_inner + saturating_sub (r_h pane_inner) 1) of
          None \<Rightarrow> None
        | Some row \<Rightarrow>
            (case clamp_checked (saturating_add (snd (sel_anchor s)) (r_x pane_inner)) (r_x pane_inner)
                    (r_x pane_inner + saturating_sub (r_w pane_inner) 1) of
               None \<Rightarrow> None
             | Some col \<Rightarrow> Some (row, col)))"

definition drag :: "u16 \<Rightarrow> u16 \<Rightarrow> rect \<Rightarrow> scroll_metrics option \<Rightarrow> 'p selection \<Rightarrow> 'p selection option" where
  "drag screen_col screen_row pane_inner metrics s =
    (case clamp_to_pane screen_col screen_row pane_inner of
       None \<Rightarrow> None
     | Some (viewport_row, col) \<Rightarrow>
         let s' = s\<lparr>sel_cursor := (absolute_row_for_viewport_row viewport_row metrics, col)\<rparr>
         in Some (if sel_cursor s' \<noteq> sel_anchor s' then s'\<lparr>sel_phase := Dragging\<rparr> else s'))"

definition finish :: "'p selection \<Rightarrow> bool \<times> 'p selection" where
  "finish s = (if sel_phase s = Dragging then (True, s\<lparr>sel_phase := Done\<rparr>) else (False, s))"

definition is_visible :: "'p selection \<Rightarrow> bool" where
  "is_visible s \<longleftrightarrow> sel_phase s = Dragging \<or> sel_phase s = Done"

definition is_just_click :: "'p selection \<Rightarrow> bool" where
  "is_just_click s \<longleftrightarrow> sel_phase s = Anchored"

definition force_dragging :: "'p selection \<Rightarrow> 'p selection" where
  "force_dragging s = (if sel_phase s = Anchored then s\<lparr>sel_phase := Dragging\<rparr> else s)"

definition is_in_progress :: "'p selection \<Rightarrow> bool" where
  "is_in_progress s \<longleftrightarrow> (case sel_phase s of Anchored \<Rightarrow> True | Dragging \<Rightarrow> True | Done \<Rightarrow> False)"

definition is_dragging :: "'p selection \<Rightarrow> bool" where
  "is_dragging s \<longleftrightarrow> sel_phase s = Dragging"

definition ordered :: "'p selection \<Rightarrow> cell_pos \<times> cell_pos" where
  "ordered s =
    (let (ar, ac) = sel_anchor s; (cr, cc) = sel_cursor s
     in if ar < cr \<or> (ar = cr \<and> ac \<le> cc) then ((ar, ac), (cr, cc)) else ((cr, cc), (ar, ac)))"

section \<open>What is highlighted\<close>

definition contains :: "'p selection \<Rightarrow> u16 \<Rightarrow> u16 \<Rightarrow> scroll_metrics option \<Rightarrow> bool" where
  "contains s viewport_row col metrics =
    (if \<not> is_visible s then False
     else let row = absolute_row_for_viewport_row viewport_row metrics;
              ((sr, sc), (er, ec)) = ordered s
          in if row < sr \<or> row > er then False
             else if sr = er then col \<ge> sc \<and> col \<le> ec
             else if row = sr then col \<ge> sc
             else if row = er then col \<le> ec
             else True)"

definition rect_default :: rect where
  "rect_default = \<lparr>r_x = 0, r_y = 0, r_w = 0, r_h = 0\<rparr>"

text \<open>The closure \<open>rect\<close> of \<open>visible_rects\<close>.\<close>

definition clip_rect :: "rect_new \<Rightarrow> rect \<Rightarrow> u32 \<Rightarrow> u32 \<Rightarrow> u32 \<Rightarrow> u32 \<Rightarrow> u16 \<Rightarrow> u16 \<Rightarrow> rect" where
  "clip_rect mk inner vtop bottom first0 end0 left0 right0 =
    (let first = max first0 vtop; end = min end0 bottom;
         left = min left0 (r_w inner); right = min right0 (r_w inner)
     in if first \<ge> end \<or> left \<ge> right then rect_default
        else mk (r_x inner + left) (r_y inner + ucast (first - vtop)) (right - left) (ucast (end - first)))"

text \<open>\<open>is_empty\<close> is ratatui's \<open>Rect::is_empty\<close>.\<close>

definition visible_rects ::
  "rect_new \<Rightarrow> (rect \<Rightarrow> bool) \<Rightarrow> 'p selection \<Rightarrow> rect \<Rightarrow> scroll_metrics option \<Rightarrow> rect list" where
  "visible_rects mk is_empty s inner metrics =
    (if \<not> is_visible s \<or> is_empty inner then [rect_default, rect_default, rect_default]
     else let ((start_row, start_col), (end_row, end_col)) = ordered s;
              vtop = viewport_top_row metrics;
              bottom = saturating_add vtop (ucast (r_h inner));
              part = clip_rect mk inner vtop bottom
          in if start_row = end_row
             then [part start_row (saturating_add start_row 1) start_col (saturating_add end_col 1),
                   rect_default, rect_default]
             else [part start_row (saturating_add start_row 1) start_col (r_w inner),
                   part (saturating_add start_row 1) end_row 0 (r_w inner),
                   part end_row (saturating_add end_row 1) 0 (saturating_add end_col 1)])"

section \<open>The clipboard decision\<close>

definition to_ascii_lowercase :: "str \<Rightarrow> str" where
  "to_ascii_lowercase s = map (\<lambda>c. if 65 \<le> c \<and> c \<le> 90 then c + 32 else c) s"

fun starts_with :: "'a list \<Rightarrow> 'a list \<Rightarrow> bool" where
  "starts_with s [] = True"
| "starts_with [] (p # ps) = False"
| "starts_with (c # s) (p # ps) = (c = p \<and> starts_with s ps)"

fun str_contains :: "'a list \<Rightarrow> 'a list \<Rightarrow> bool" where
  "str_contains [] p = (p = [])"
| "str_contains (c # s) p = (starts_with (c # s) p \<or> str_contains s p)"

definition contains_wsl_marker :: "str \<Rightarrow> bool" where
  "contains_wsl_marker value =
    (let lower = to_ascii_lowercase value
     in str_contains lower (lit ''microsoft'') \<or> str_contains lower (lit ''wsl2'')
        \<or> str_contains lower (lit ''-wsl''))"

definition is_wsl_for_env ::
  "str option \<Rightarrow> str option \<Rightarrow> 'o option \<Rightarrow> 'o option \<Rightarrow> bool \<Rightarrow> bool" where
  "is_wsl_for_env os_release proc_version wsl_distro_name wsl_interop runtime_marker_exists \<longleftrightarrow>
     wsl_distro_name \<noteq> None \<or> wsl_interop \<noteq> None
     \<or> (case os_release of None \<Rightarrow> False | Some v \<Rightarrow> contains_wsl_marker v)
     \<or> (case proc_version of None \<Rightarrow> False | Some v \<Rightarrow> contains_wsl_marker v)
     \<or> runtime_marker_exists"

definition should_prefer_osc52_for_env :: "'o option \<Rightarrow> 'o option \<Rightarrow> 'o option \<Rightarrow> bool \<Rightarrow> bool" where
  "should_prefer_osc52_for_env ssh_connection ssh_tty vscode_ipc_hook_cli wsl \<longleftrightarrow>
     ssh_connection \<noteq> None \<or> ssh_tty \<noteq> None \<or> vscode_ipc_hook_cli \<noteq> None \<or> wsl"

section \<open>Rectangles and cells\<close>

lemma rect_cells_default [simp]: "rect_cells rect_default = {}"
  by (simp add: rect_cells_def rect_default_def)

lemma range_shift:
  "l < r \<Longrightarrow> x + l \<le> x + c \<and> x + c < x + l + (r - l) \<longleftrightarrow> l \<le> c \<and> c < r" for l r c x :: nat
  by auto

lemma range_shift_below:
  "t \<le> f \<Longrightarrow> f < e \<Longrightarrow>
   y + (f - t) \<le> y + v \<and> y + v < y + (f - t) + (e - f) \<longleftrightarrow> f \<le> t + v \<and> t + v < e" for t f e y v :: nat
  by auto

text \<open>The cells of a clipped part are those in its rows, its columns and the viewport.\<close>

lemma clip_rect_cells:
  assumes law: "rect_new_law mk" and ok: "rect_ok inner" and vtop: "unat vtop + unat (r_h inner) < 2 ^ 32"
    and bottom: "bottom = saturating_add vtop (ucast (r_h inner))"
  shows "(unat (r_x inner) + c, unat (r_y inner) + v) \<in> rect_cells (clip_rect mk inner vtop bottom f e l r) \<longleftrightarrow>
     v < unat (r_h inner) \<and> c < unat (r_w inner)
     \<and> unat f \<le> unat vtop + v \<and> unat vtop + v < unat e \<and> unat l \<le> c \<and> c < unat r"
proof -
  have b: "unat bottom = unat vtop + unat (r_h inner)"
    using vtop by (simp add: bottom unat_saturating_add unat_ucast_16_32)
  let ?f = "max f vtop" and ?e = "min e bottom" and ?l = "min l (r_w inner)" and ?r = "min r (r_w inner)"
  show ?thesis
  proof (cases "?f \<ge> ?e \<or> ?l \<ge> ?r")
    case True
    then have "unat ?f \<ge> unat ?e \<or> unat ?l \<ge> unat ?r" by (simp add: word_le_nat_alt)
    then have "\<not> (v < unat (r_h inner) \<and> c < unat (r_w inner)
        \<and> unat f \<le> unat vtop + v \<and> unat vtop + v < unat e \<and> unat l \<le> c \<and> c < unat r)"
      unfolding unat_max unat_min b by linarith
    with True show ?thesis by (simp add: clip_rect_def Let_def)
  next
    case False
    then have lt: "unat ?f < unat ?e" "unat ?l < unat ?r" by (simp_all only: word_less_nat_alt not_le de_Morgan_disj)
    have bnd: "unat (r_x inner) + unat (r_w inner) \<le> 65535" "unat (r_y inner) + unat (r_h inner) \<le> 65535"
      using ok by (simp_all add: rect_ok_def)
    have ord: "?f < ?e" "?l < ?r" using False by (simp_all only: not_le de_Morgan_disj)
    have le: "vtop \<le> ?f" "?f \<le> ?e" "?l \<le> ?r"
      using ord by (simp_all only: max.cobounded2 less_imp_le)
    have d1: "unat (?f - vtop) = unat ?f - unat vtop" using le(1) by (rule unat_sub)
    have d2: "unat (?e - ?f) = unat ?e - unat ?f" using le(2) by (rule unat_sub)
    have d3: "unat (?r - ?l) = unat ?r - unat ?l" using le(3) by (rule unat_sub)
    have rng: "unat ?f - unat vtop < unat (r_h inner)" "unat ?e - unat ?f \<le> unat (r_h inner)"
      "unat ?e \<le> unat vtop + unat (r_h inner)" "unat ?r \<le> unat (r_w inner)" "unat vtop \<le> unat ?f"
      using lt b unfolding unat_max unat_min by linarith+
    have u1: "unat (ucast (?f - vtop) :: u16) = unat ?f - unat vtop"
      using rng bnd d1 by (subst unat_ucast_32_16) linarith+
    have u2: "unat (ucast (?e - ?f) :: u16) = unat ?e - unat ?f"
      using rng bnd d2 by (subst unat_ucast_32_16) linarith+
    have x: "unat (r_x inner + ?l) = unat (r_x inner) + unat ?l"
      using rng lt bnd by (intro unat_add_small) simp
    have y: "unat (r_y inner + ucast (?f - vtop)) = unat (r_y inner) + (unat ?f - unat vtop)"
    proof -
      have "unat (r_y inner) + (unat ?f - unat vtop) < 65536" using rng(1) bnd(2) by linarith
      then show ?thesis using u1 by (subst unat_add_small) simp_all
    qed
    have mk: "mk (r_x inner + ?l) (r_y inner + ucast (?f - vtop)) (?r - ?l) (ucast (?e - ?f))
        = \<lparr>r_x = r_x inner + ?l, r_y = r_y inner + ucast (?f - vtop), r_w = ?r - ?l, r_h = ucast (?e - ?f)\<rparr>"
    proof (rule law [unfolded rect_new_law_def, rule_format])
      show "unat (r_x inner + ?l) + unat (?r - ?l) \<le> 65535"
        unfolding x d3 using rng(4) lt(2) bnd(1) by linarith
      show "unat (r_y inner + ucast (?f - vtop)) + unat (ucast (?e - ?f) :: u16) \<le> 65535"
        unfolding y u2 using rng(3,5) lt(1) bnd(2) by linarith
    qed
    have "clip_rect mk inner vtop bottom f e l r
        = mk (r_x inner + ?l) (r_y inner + ucast (?f - vtop)) (?r - ?l) (ucast (?e - ?f))"
      using False unfolding clip_rect_def Let_def by (simp only: if_False)
    then have cl: "rect_cells (clip_rect mk inner vtop bottom f e l r) =
        {unat (r_x inner) + unat ?l ..< unat (r_x inner) + unat ?l + (unat ?r - unat ?l)}
        \<times> {unat (r_y inner) + (unat ?f - unat vtop) ..< unat (r_y inner) + (unat ?f - unat vtop) + (unat ?e - unat ?f)}"
      unfolding mk by (simp only: rect_cells_def rect.simps x y u2 d3)
    have "(unat (r_x inner) + c, unat (r_y inner) + v) \<in> rect_cells (clip_rect mk inner vtop bottom f e l r)
        \<longleftrightarrow> unat ?l \<le> c \<and> c < unat ?r \<and> unat ?f \<le> unat vtop + v \<and> unat vtop + v < unat ?e"
      unfolding cl mem_Times_iff fst_conv snd_conv atLeastLessThan_iff
        range_shift [OF lt(2)] range_shift_below [OF rng(5) lt(1)] by (rule conj_assoc)
    then show ?thesis
      unfolding unat_max unat_min b min_le_iff_disj min_less_iff_conj max.bounded_iff by auto
  qed
qed

lemma below_succ:
  "x < 2 ^ LENGTH('a) - 1 \<Longrightarrow> x < unat (saturating_add (w :: 'a::len word) 1) \<longleftrightarrow> x \<le> unat w"
  "x < 2 ^ LENGTH('a) - 1 \<Longrightarrow> unat (saturating_add (w :: 'a::len word) 1) \<le> x \<longleftrightarrow> unat w < x"
  by (auto simp: unat_saturating_add min_def)

lemmas below_succ16 = below_succ [where 'a = 16, simplified]
lemmas below_succ32 = below_succ [where 'a = 32, simplified]

lemma ordered_rows: "ordered s = ((sr, sc), (er, ec)) \<Longrightarrow> unat sr \<le> unat er"
  by (auto simp: ordered_def Let_def word_less_nat_alt split: if_splits prod.splits)

text \<open>
  C26: the rectangles the renderer highlights cover exactly the cells of the viewport that the
  selection contains, wherever the pane is scrolled and in whichever direction the mouse went.
\<close>

theorem visible_rects_iff_contains:
  assumes "rect_new_law mk" "\<And>r. is_empty r \<Longrightarrow> r_w r = 0 \<or> r_h r = 0" "rect_ok inner"
    and "unat (viewport_top_row metrics) + unat (r_h inner) < 2 ^ 32"
    and "v < r_h inner" "c < r_w inner"
  shows "(\<exists>r \<in> set (visible_rects mk is_empty s inner metrics).
       (unat (r_x inner) + unat c, unat (r_y inner) + unat v) \<in> rect_cells r) = contains s v c metrics"
proof -
  let ?tp = "viewport_top_row metrics"
  let ?row = "absolute_row_for_viewport_row v metrics"
  have ne: "\<not> is_empty inner" using assms(2) [of inner] assms(5,6) by (auto simp: word_less_nat_alt)
  have v: "unat v < unat (r_h inner)" and c: "unat c < unat (r_w inner)"
    using assms(5,6) by (simp_all add: word_less_nat_alt)
  have row: "unat ?row = unat ?tp + unat v"
    using v assms(4) by (simp add: absolute_row_for_viewport_row_def unat_ucast_16_32
        unat_add_small)
  note cells = clip_rect_cells [OF assms(1,3,4) refl, of "unat c" "unat v"]
  have rb: "unat ?row < 4294967295" using row v assms(4) by simp
  have cb: "unat c < 65535" using c u16_bound [of "r_w inner"] by simp
  obtain sr sc er ec where o: "ordered s = ((sr, sc), (er, ec))" by (metis surj_pair)
  note rows = ordered_rows [OF o]
  show ?thesis
  proof (cases "is_visible s")
    case True
    have "sr = er \<longleftrightarrow> unat sr = unat er" by (rule word_eq_unat)
    moreover have "?row = sr \<longleftrightarrow> unat ?row = unat sr" "?row = er \<longleftrightarrow> unat ?row = unat er"
      by (rule word_eq_unat)+
    ultimately show ?thesis
      using True ne v c rows
      by (simp add: visible_rects_def contains_def o Let_def cells below_succ32 [OF rb [unfolded row]]
          below_succ16 [OF cb] word_less_nat_alt word_le_nat_alt row)
  qed (simp add: visible_rects_def contains_def)
qed

lemma clamp_checked_between:
  assumes "lo \<le> hi"
  shows "\<exists>x. clamp_checked v lo hi = Some x \<and> lo \<le> x \<and> x \<le> hi \<and> (lo \<le> v \<and> v \<le> hi \<longrightarrow> x = v)"
  using assms by (auto simp: clamp_checked_def not_less)

lemma clamp_axis:
  assumes "unat (o0 :: u16) + unat len \<le> 65535" "len \<noteq> 0"
  shows "\<exists>x. clamp_checked v o0 (o0 + saturating_sub len 1) = Some x \<and> x - o0 < len
    \<and> unat (x - o0) = unat x - unat o0
    \<and> (unat o0 \<le> unat v \<and> unat v < unat o0 + unat len \<longrightarrow> x = v)"
proof -
  have pos: "0 < unat len" using assms(2) by (simp add: unat_gt_0)
  have hi: "unat (o0 + saturating_sub len 1) = unat o0 + (unat len - 1)"
    using assms(1) by (subst unat_add_small) (simp_all add: unat_saturating_sub)
  have "o0 \<le> o0 + saturating_sub len 1" by (simp add: word_le_nat_alt hi)
  from clamp_checked_between [OF this, of v] obtain x where
    x: "clamp_checked v o0 (o0 + saturating_sub len 1) = Some x" "o0 \<le> x" "x \<le> o0 + saturating_sub len 1"
      "o0 \<le> v \<and> v \<le> o0 + saturating_sub len 1 \<longrightarrow> x = v" by blast
  have s: "unat (x - o0) = unat x - unat o0" using x(2) by (rule unat_sub)
  have "unat x \<le> unat o0 + (unat len - 1)" using x(3) by (simp only: word_le_nat_alt hi)
  then have "x - o0 < len" using pos x(2) by (simp add: word_less_nat_alt s)
  moreover have "unat o0 \<le> unat v \<and> unat v < unat o0 + unat len \<longrightarrow> x = v"
    using x(4) pos by (auto simp: word_le_nat_alt hi)
  ultimately show ?thesis using x(1) s by blast
qed

text \<open>
  Dragging over a pane with at least one cell never panics, moves the end of the selection to a
  cell of the pane (the very cell under the mouse when the mouse is inside), keeps the anchor, and
  turns a click into a visible selection exactly when the end leaves the anchor cell.
\<close>

theorem drag_in_pane:
  assumes "rect_ok inner" "r_w inner \<noteq> 0" "r_h inner \<noteq> 0"
  shows "\<exists>s' row col. drag screen_col screen_row inner metrics s = Some s'
    \<and> sel_cursor s' = (absolute_row_for_viewport_row row metrics, col)
    \<and> row < r_h inner \<and> col < r_w inner \<and> sel_anchor s' = sel_anchor s
    \<and> ((unat screen_col, unat screen_row) \<in> rect_cells inner \<longrightarrow>
         row = screen_row - r_y inner \<and> col = screen_col - r_x inner)
    \<and> is_visible s' = (is_visible s \<or> sel_cursor s' \<noteq> sel_anchor s)"
proof -
  have ok: "unat (r_x inner) + unat (r_w inner) \<le> 65535" "unat (r_y inner) + unat (r_h inner) \<le> 65535"
    using assms(1) by (simp_all add: rect_ok_def)
  from clamp_axis [OF ok(1) assms(2), of screen_col] obtain x where
    x: "clamp_checked screen_col (r_x inner) (r_x inner + saturating_sub (r_w inner) 1) = Some x"
      "x - r_x inner < r_w inner"
      "unat (r_x inner) \<le> unat screen_col \<and> unat screen_col < unat (r_x inner) + unat (r_w inner) \<longrightarrow> x = screen_col"
    by blast
  from clamp_axis [OF ok(2) assms(3), of screen_row] obtain y where
    y: "clamp_checked screen_row (r_y inner) (r_y inner + saturating_sub (r_h inner) 1) = Some y"
      "y - r_y inner < r_h inner"
      "unat (r_y inner) \<le> unat screen_row \<and> unat screen_row < unat (r_y inner) + unat (r_h inner) \<longrightarrow> y = screen_row"
    by blast
  let ?c = "(absolute_row_for_viewport_row (y - r_y inner) metrics, x - r_x inner)"
  let ?s = "if ?c \<noteq> sel_anchor s then s\<lparr>sel_cursor := ?c, sel_phase := Dragging\<rparr> else s\<lparr>sel_cursor := ?c\<rparr>"
  have d: "drag screen_col screen_row inner metrics s = Some ?s"
    by (simp add: drag_def clamp_to_pane_def x(1) y(1) Let_def)
  have "is_visible ?s = (is_visible s \<or> ?c \<noteq> sel_anchor s)" by (auto simp: is_visible_def)
  moreover have "sel_cursor ?s = ?c" "sel_anchor ?s = sel_anchor s" by simp_all
  moreover have "(unat screen_col, unat screen_row) \<in> rect_cells inner \<longrightarrow>
      y - r_y inner = screen_row - r_y inner \<and> x - r_x inner = screen_col - r_x inner"
    using x(3) y(3) by (auto simp: rect_cells_def)
  ultimately show ?thesis using d x(2) y(2) by metis
qed

section \<open>Witnesses\<close>

definition demo_selection :: "nat selection" where
  "demo_selection = absolute_range 0 (12, 40) (10, 5)"

definition demo_metrics :: scroll_metrics where
  "demo_metrics = \<lparr>offset_from_bottom = 3, max_offset_from_bottom = 11, viewport_rows = 24\<rparr>"

lemma demo_top: "unat (viewport_top_row (Some demo_metrics)) = 8"
  by (simp add: viewport_top_row_def demo_metrics_def saturating_sub_def)

theorem visible_rects_iff_contains_witness:
  "(\<exists>r \<in> set (visible_rects rect_new_saturating (\<lambda>r. r_w r = 0 \<or> r_h r = 0) demo_selection demo_area (Some demo_metrics)).
      (unat (r_x demo_area) + unat (7 :: u16), unat (r_y demo_area) + unat (3 :: u16)) \<in> rect_cells r)
   = contains demo_selection 3 7 (Some demo_metrics)"
proof (rule visible_rects_iff_contains [OF rect_new_saturating_law])
  show "rect_ok demo_area" by (simp add: demo_area_def rect_ok_def)
  show "unat (viewport_top_row (Some demo_metrics)) + unat (r_h demo_area) < 2 ^ 32"
    by (simp only: demo_top) (simp add: demo_area_def)
qed (auto simp: demo_area_def)

theorem drag_in_pane_witness:
  "\<exists>s'. drag 500 3 demo_area None demo_selection = Some s' \<and> sel_anchor s' = (12, 40) \<and> is_visible s'"
proof -
  have "rect_ok demo_area" "r_w demo_area \<noteq> 0" "r_h demo_area \<noteq> 0"
    by (simp_all add: demo_area_def rect_ok_def)
  from drag_in_pane [OF this, of 500 3 None demo_selection] show ?thesis
    by (auto simp: demo_selection_def absolute_range_def is_visible_def)
qed

end
