(* ===== verification/EndpointPolicy.thy ===== *)
theory EndpointPolicy
  imports EndpointCommands Selection
begin

text \<open>
  Which messages of a server a client lets through (\<open>client/endpoint/message_policy.rs\<close> and the gate of the main loop
  in \<open>client/mod.rs\<close>), which failures need a person (\<open>remote/saved.rs\<close>), and when a remote server must restart
  (\<open>remote/restart_policy.rs\<close>).
\<close>

section \<open>Messages\<close>

text \<open>The variants of a message; of their contents only the key of an answer is looked at.\<close>

datatype endpoint_message =
  WelcomeMessage | TerminalMessage | GraphicsMessage | ServerShutdownMessage | NotifyMessage | ClipboardMessage
  | WindowTitleMessage | ReloadSoundConfigMessage | MouseCaptureMessage | TerminalBellMessage | GraphicsFileMessage
  | GraphicsTransmissionRetiredMessage | ClientShellSnapshotMessage | PaneSurfaceMessage | SemanticNotificationMessage
  | ClientShellErrorMessage | DirectTerminalKeyboardProtocolMessage | ClientShellKeyboardReportAllMessage
  | ResponseChunkMessage str str | PaneSurfacePatchMessage | EndpointControlMessage

definition is_presentation_effect :: "endpoint_message \<Rightarrow> bool" where
  "is_presentation_effect m \<longleftrightarrow>
     m \<in> {MouseCaptureMessage, ClientShellKeyboardReportAllMessage, WindowTitleMessage, GraphicsMessage,
          GraphicsFileMessage, GraphicsTransmissionRetiredMessage, TerminalBellMessage}"

definition is_response_chunk :: "endpoint_message \<Rightarrow> bool" where
  "is_response_chunk m = (case m of ResponseChunkMessage _ _ \<Rightarrow> True | _ \<Rightarrow> False)"

definition accepts_endpoint_message :: "bool \<Rightarrow> bool \<Rightarrow> bool \<Rightarrow> endpoint_message \<Rightarrow> bool" where
  "accepts_endpoint_message endpoint_active activation_message command_response m \<longleftrightarrow>
     endpoint_active
     \<or> m \<in> {EndpointControlMessage, SemanticNotificationMessage, ServerShutdownMessage, ClientShellSnapshotMessage,
            WelcomeMessage}
     \<or> (activation_message \<and> (m = PaneSurfaceMessage \<or> is_response_chunk m))
     \<or> (command_response \<and> is_response_chunk m)"

text \<open>
  The gate: what the main loop does with a message before it looks at its kind. \<open>activation\<close> says that a handoff waits
  for this connection, \<open>frozen\<close> that the screen is held during it.
\<close>

definition admit_message ::
  "bool \<Rightarrow> bool \<Rightarrow> nat \<Rightarrow> client_endpoint_id \<Rightarrow> u64 \<Rightarrow> endpoint_message \<Rightarrow> 'q endpoint_commands
    \<Rightarrow> 'tr endpoint_registry \<Rightarrow> bool \<times> 'tr endpoint_registry" where
  "admit_message frozen activation now i generation m cs s =
    (if \<not> accepts_generation i generation s then (False, s)
     else let s1 = registry_received i generation now s;
              endpoint_active = (er_active s1 = i
                \<and> (case connection i s1 of None \<Rightarrow> False | Some c \<Rightarrow> cn_surface_active c));
              command_response =
                (case m of ResponseChunkMessage boot_id request_id \<Rightarrow> accepts_response i (generation, boot_id, request_id) cs
                 | _ \<Rightarrow> False)
          in (accepts_endpoint_message endpoint_active activation command_response m
                \<and> \<not> (frozen \<and> activation \<and> is_presentation_effect m), s1))"

definition displays :: "client_endpoint_id \<Rightarrow> 'tr endpoint_registry \<Rightarrow> bool" where
  "displays i s \<longleftrightarrow> er_active s = i \<and> (\<exists>c. connection i s = Some c \<and> cn_surface_active c)"

lemma connection_modify: "connection j (modify_connection i f s) = (if j = i then map_option f (connection i s) else connection j s)"
proof -
  have "map_of (AList.map_entry i f xs) j = (if j = i then map_option f (map_of xs i) else map_of xs j)" for xs
    by (induction xs) auto
  then show ?thesis by (simp add: connection_def modify_connection_def)
qed

lemma received_connection:
  "connection i (registry_received i g now s) =
     (if accepts_generation i g s then map_option (update_health (health_received now)) (connection i s) else connection i s)"
  by (simp add: registry_received_def connection_modify)

lemma received_active: "er_active (registry_received i g now s) = er_active s"
  by (simp add: registry_received_def modify_connection_def)

text \<open>
  C39: a message is let through only if it comes over the live connection of its endpoint, which then counts as heard
  from. What changes the host's terminal is taken only from the endpoint that is shown, and never while a handoff holds
  the screen; contents of panes from that endpoint or the one that is about to be; an answer also from the endpoint that
  was asked, for the request in flight.
\<close>

theorem message_gate:
  assumes "admit_message frozen activation now i g m cs s = (True, s')"
  shows "(\<exists>c. connection i s = Some c \<and> cn_generation c = g
             \<and> connection i s' = Some (update_health (health_received now) c))
         \<and> (is_presentation_effect m \<longrightarrow> displays i s \<and> \<not> (frozen \<and> activation))
         \<and> (m \<in> {PaneSurfaceMessage, PaneSurfacePatchMessage, TerminalMessage, ClipboardMessage}
              \<longrightarrow> displays i s \<or> (activation \<and> m = PaneSurfaceMessage))
         \<and> (\<forall>b r. m = ResponseChunkMessage b r \<longrightarrow> displays i s \<or> activation \<or> accepts_response i (g, b, r) cs)"
proof -
  have acc: "accepts_generation i g s" using assms by (auto simp: admit_message_def split: if_splits)
  then obtain c where c: "connection i s = Some c" "cn_generation c = g"
    by (auto simp: accepts_generation_def split: option.splits)
  have s': "s' = registry_received i g now s" using assms acc by (simp add: admit_message_def Let_def)
  have "connection i s' = Some (update_health (health_received now) c)" using acc c by (simp add: s' received_connection)
  moreover have "(er_active s' = i \<and> (case connection i s' of None \<Rightarrow> False | Some c \<Rightarrow> cn_surface_active c)) \<longleftrightarrow> displays i s"
    using acc c by (simp add: s' received_connection received_active displays_def update_health_def)
  ultimately show ?thesis
    using assms acc c
    by (cases m) (simp_all add: admit_message_def Let_def s' accepts_endpoint_message_def is_presentation_effect_def is_response_chunk_def)
qed

definition quiet_transport :: "(unit, unit) transport_ops" where
  "quiet_transport = \<lparr>tr_send = \<lambda>m t. (Inr (), t), tr_disconnect = id, tr_flush = \<lambda>d t. (Inr (), t), tr_take_error = \<lambda>t. (None, t)\<rparr>"

theorem message_gate_witness:
  "displays Local (registry_new quiet_transport 0 () 1 (negotiation_new [] []))"
proof -
  let ?s = "registry_new quiet_transport 0 () 1 (negotiation_new [] [])"
  have "admit_message False False 5 Local 1 WindowTitleMessage ([] :: unit endpoint_commands) ?s
      = (True, registry_received Local 1 5 ?s)"
    by (simp add: admit_message_def registry_new_def insert_connection_def registry_empty_def accepts_generation_def connection_def
        registry_received_def modify_connection_def update_health_def accepts_endpoint_message_def is_local_def Let_def)
  from message_gate [OF this] show ?thesis by (simp add: is_presentation_effect_def)
qed

section \<open>Failures that need a person\<close>

definition saved_ssh_failure_needs_attention :: "transport_error \<Rightarrow> bool" where
  "saved_ssh_failure_needs_attention e \<longleftrightarrow>
     ie_kind e \<in> {InvalidInput, InvalidData, NotFound, PermissionDenied, Unsupported}
     \<or> list_ex (str_contains (to_ascii_lowercase (ie_message e)))
         [lit ''permission denied'', lit ''host key verification failed'', lit ''remote host identification has changed'',
          lit ''no matching host key'', lit ''unsupported remote platform'', lit ''not ready'', lit ''install or update'',
          lit ''protocol'', lit ''handshake'']"

text \<open>The errors of a handshake, and what a connection attempt that fails reports.\<close>

datatype framing_error = FramingIo transport_error | FramingOther str

datatype client_error =
  ConnectionFailed transport_error | ConnectionLost transport_error | HandshakeRejected u32 str | ProtocolError framing_error
  | ServerShutdown "str option"

definition handshake_error :: "client_error \<Rightarrow> transport_error" where
  "handshake_error error =
    (case error of
       ConnectionFailed e \<Rightarrow> e
     | ConnectionLost e \<Rightarrow> e
     | HandshakeRejected version e \<Rightarrow> \<lparr>ie_kind = Unsupported, ie_message = e\<rparr>
     | ProtocolError (FramingIo e) \<Rightarrow> e
     | ProtocolError (FramingOther message) \<Rightarrow> \<lparr>ie_kind = InvalidData, ie_message = message\<rparr>
     | ServerShutdown reason \<Rightarrow>
         \<lparr>ie_kind = ConnectionAborted,
          ie_message = (case reason of None \<Rightarrow> lit ''server shut down during handshake'' | Some r \<Rightarrow> r)\<rparr>)"

definition failure_status :: "transport_error \<Rightarrow> client_endpoint_status" where
  "failure_status error = (if saved_ssh_failure_needs_attention error then Attention else Reconnecting)"

section \<open>Restarting a remote server\<close>

datatype restart_reason = EndpointProtocol | SurfaceInterest | HealthCheck | DaemonDetach

datatype install_plan = KeepRunning | LiveHandoff | StopRequired restart_reason

definition remote_server_restart_reason :: "u32 option \<Rightarrow> bool \<Rightarrow> bool \<Rightarrow> bool \<Rightarrow> bool \<Rightarrow> restart_reason option" where
  "remote_server_restart_reason endpoint_protocol_generation detached_server_daemon require_surface_interest
     surface_interest health_check =
    (if endpoint_protocol_generation \<noteq> Some 1 then Some EndpointProtocol
     else if require_surface_interest \<and> \<not> surface_interest then Some SurfaceInterest
     else if require_surface_interest \<and> \<not> health_check then Some HealthCheck
     else if \<not> detached_server_daemon then Some DaemonDetach
     else None)"

definition remote_install_running_server_plan ::
  "u32 option \<Rightarrow> bool \<Rightarrow> bool \<Rightarrow> bool \<Rightarrow> bool \<Rightarrow> bool \<Rightarrow> bool \<Rightarrow> install_plan" where
  "remote_install_running_server_plan endpoint_protocol_generation detached_server_daemon surface_interest health_check
     live_handoff live_handoff_enabled require_surface_interest =
    (case remote_server_restart_reason endpoint_protocol_generation detached_server_daemon require_surface_interest
            surface_interest health_check of
       None \<Rightarrow> KeepRunning
     | Some reason \<Rightarrow> if live_handoff_enabled \<and> live_handoff then LiveHandoff else StopRequired reason)"

text \<open>A server is kept only if it speaks the protocol, runs as a daemon and has what a saved machine needs.\<close>

lemma keep_running_iff:
  "remote_install_running_server_plan generation daemon interest health handoff enabled required = KeepRunning
   \<longleftrightarrow> generation = Some 1 \<and> daemon \<and> (required \<longrightarrow> interest \<and> health)"
  by (auto simp: remote_install_running_server_plan_def remote_server_restart_reason_def)

end
