(* ===== verification/ProcessAgents.thy ===== *)
theory ProcessAgents
  imports Agents
begin

text \<open>
  Which agent runs in a pane, from the processes in its foreground (\<open>detect/mod.rs\<close>): the name a process goes by, seen
  through the shells and runtimes that start it, and the choice among the processes of a job. Two functions of the
  platform are arguments: \<open>lower\<close> is \<open>str::to_lowercase\<close> on all of Unicode, used to compare two names, and
  \<open>resolve\<close> is the name of the file a path leads to after \<open>fs::canonicalize\<close>, if there is one. Paths are those of Unix.
\<close>

section \<open>Strings\<close>

definition trim_matches :: "(nat \<Rightarrow> bool) \<Rightarrow> str \<Rightarrow> str" where
  "trim_matches p s = rev (dropWhile p (rev (dropWhile p s)))"

definition split_whitespace :: "str \<Rightarrow> str list" where
  "split_whitespace s = filter (\<lambda>w. w \<noteq> []) (split_on is_whitespace s)"

definition is_separator :: "nat \<Rightarrow> bool" where
  "is_separator c \<longleftrightarrow> c = 47 \<or> c = 92"

definition is_quote :: "nat \<Rightarrow> bool" where
  "is_quote c \<longleftrightarrow> c = 34 \<or> c = 39"

definition names :: "string list \<Rightarrow> str \<Rightarrow> bool" where
  "names ns s \<longleftrightarrow> list_ex (\<lambda>n. lit n = s) ns"

section \<open>Processes\<close>

record foreground_process =
  fp_pid :: u32
  fp_name :: str
  fp_argv0 :: "str option"
  fp_argv :: "str list option"
  fp_cmdline :: "str option"

record foreground_job =
  fj_process_group_id :: u32
  fj_processes :: "foreground_process list"

definition identify_agent :: "str \<Rightarrow> agent option" where
  "identify_agent process_name = parse_agent_label process_name"

definition is_python_runtime :: "str \<Rightarrow> bool" where
  "is_python_runtime name \<longleftrightarrow>
     name = lit ''python''
     \<or> (case strip_prefix (lit ''python'') name of
          None \<Rightarrow> False
        | Some version \<Rightarrow>
            version \<noteq> [] \<and> list_all (\<lambda>part. part \<noteq> [] \<and> list_all is_ascii_digit part) (split_on (\<lambda>c. c = 46) version))"

definition is_generic_runtime_or_shell :: "str \<Rightarrow> bool" where
  "is_generic_runtime_or_shell name =
    (let name' = normalized_agent_lookup_name (path_basename name)
     in is_python_runtime name'
        \<or> names [''sh'', ''bash'', ''zsh'', ''fish'', ''tmux'', ''node'', ''bun'', ''cmd'', ''powershell'', ''pwsh''] name')"

section \<open>Names of agents in arguments\<close>

definition agent_name_from_basename :: "str \<Rightarrow> str option" where
  "agent_name_from_basename basename = map_option agent_label (parse_agent_label basename)"

text \<open>\<open>Path::components().count()\<close>: the root, a leading dot, and every other component that is not a dot.\<close>

definition component_count :: "str \<Rightarrow> nat" where
  "component_count path =
    (let parts = split_on (\<lambda>c. c = 47) path
     in (if starts_with path [47] then 1 else if hd parts = [46] then 1 else 0)
        + length (filter (\<lambda>p. p \<noteq> [] \<and> p \<noteq> [46]) parts))"

definition resolved_agent_name_from_path_token :: "(str \<Rightarrow> str option) \<Rightarrow> str \<Rightarrow> str option" where
  "resolved_agent_name_from_path_token resolve token =
    (if component_count token < 2 then None
     else case resolve token of None \<Rightarrow> None | Some basename \<Rightarrow> agent_name_from_basename basename)"

definition ends_with_components :: "str list \<Rightarrow> string list \<Rightarrow> bool" where
  "ends_with_components components suffix \<longleftrightarrow>
     length suffix \<le> length components
     \<and> list_all2 eq_ignore_ascii_case (drop (length components - length suffix) components) (map lit suffix)"

fun has_window :: "str list \<Rightarrow> string list \<Rightarrow> bool" where
  "has_window [] window = False"
| "has_window (c # cs) window = (take (length window) (c # cs) = map lit window \<or> has_window cs window)"

text \<open>The loop over windows of four components stops at the first that matches either package.\<close>

fun four_component_agent :: "str list \<Rightarrow> agent option" where
  "four_component_agent [] = None"
| "four_component_agent (c # cs) =
     (if take 4 (c # cs) = map lit [''node_modules'', ''mastracode'', ''dist'', ''cli''] then Some Mastracode
      else if take 4 (c # cs) = map lit [''node_modules'', ''@letta-ai'', ''letta-code'', ''letta''] then Some Letta
      else four_component_agent cs)"

definition agent_name_from_known_package_path :: "str \<Rightarrow> str option" where
  "agent_name_from_known_package_path path =
    (let raw_components = filter (\<lambda>c. c \<noteq> []) (split_path path)
     in if ends_with_components raw_components [''node_modules'', ''@earendil-works'', ''pi-coding-agent'', ''dist'', ''cli.js'']
           \<or> ends_with_components raw_components
               [''node_modules'', ''@earendil-works'', ''pi-coding-agent'', ''dist'', ''bundle'', ''cli.js'']
        then Some (agent_label Pi)
        else if ends_with_components raw_components [''node_modules'', ''@moonshot-ai'', ''kimi-code'', ''dist'', ''main.mjs'']
        then Some (agent_label Kimi)
        else let components = map normalized_agent_lookup_name raw_components
             in if has_window components [''node_modules'', ''@qwen-code'', ''qwen-code'', ''dist'', ''index'']
                then Some (agent_label Qwen)
                else map_option agent_label (four_component_agent components))"

definition agent_name_from_path_token :: "(str \<Rightarrow> str option) \<Rightarrow> str \<Rightarrow> str option" where
  "agent_name_from_path_token resolve token =
    (let trimmed = trim_matches is_quote token
     in if trimmed = [] \<or> starts_with trimmed [45] then None
        else or_else (agent_name_from_basename (path_basename trimmed))
               (or_else (agent_name_from_known_package_path trimmed)
                 (resolved_agent_name_from_path_token resolve trimmed)))"

definition short_flag_payload :: "str \<Rightarrow> str \<Rightarrow> bool" where
  "short_flag_payload arg flag \<longleftrightarrow>
     starts_with flag [45] \<and> \<not> starts_with flag [45, 45] \<and> starts_with arg flag \<and> str_len flag < str_len arg"

definition long_flag_value :: "str \<Rightarrow> str \<Rightarrow> bool" where
  "long_flag_value arg flag \<longleftrightarrow>
     starts_with flag [45, 45] \<and> (case strip_prefix flag arg of None \<Rightarrow> False | Some rest \<Rightarrow> starts_with rest [61])"

definition flag_matches :: "str \<Rightarrow> string list \<Rightarrow> bool" where
  "flag_matches arg flags \<longleftrightarrow>
     list_ex (\<lambda>flag. arg = lit flag \<or> short_flag_payload arg (lit flag) \<or> long_flag_value arg (lit flag)) flags"

definition option_takes_value :: "str \<Rightarrow> bool" where
  "option_takes_value arg \<longleftrightarrow>
     names [''-r'', ''--require'', ''--loader'', ''--import'', ''--experimental-loader'', ''--inspect-port'', ''-W'',
            ''-X'', ''-S'', ''-L'', ''-o''] arg"

text \<open>The argument that names the script a runtime runs; \<open>argv\<close> without its first element.\<close>

fun script_args :: "(str \<Rightarrow> str option) \<Rightarrow> string list \<Rightarrow> string list \<Rightarrow> str list \<Rightarrow> str option" where
  "script_args resolve eval_flags module_flags [] = None"
| "script_args resolve eval_flags module_flags (arg # args) =
     (if arg = lit ''--''
      then (case args of [] \<Rightarrow> None | token # _ \<Rightarrow> agent_name_from_path_token resolve token)
      else if flag_matches arg eval_flags \<or> flag_matches arg module_flags then None
      else if starts_with arg [45]
      then (if option_takes_value arg
            then (case args of [] \<Rightarrow> None | _ # args' \<Rightarrow> script_args resolve eval_flags module_flags args')
            else script_args resolve eval_flags module_flags args)
      else agent_name_from_path_token resolve arg)"

definition script_arg_agent_name :: "(str \<Rightarrow> str option) \<Rightarrow> str list \<Rightarrow> string list \<Rightarrow> string list \<Rightarrow> str option" where
  "script_arg_agent_name resolve argv eval_flags module_flags = script_args resolve eval_flags module_flags (drop 1 argv)"

section \<open>Command lines of Windows\<close>

text \<open>\<open>str::trim_start\<close>, then a quoted token or one up to the next blank.\<close>

definition command_text_token :: "str \<Rightarrow> (str \<times> str) option" where
  "command_text_token input =
    (case dropWhile is_whitespace input of
       [] \<Rightarrow> None
     | first # rest \<Rightarrow>
         if is_quote first
         then Some (takeWhile (\<lambda>c. c \<noteq> first) rest, drop 1 (dropWhile (\<lambda>c. c \<noteq> first) rest))
         else Some (takeWhile (\<lambda>c. \<not> is_whitespace c) (first # rest), dropWhile (\<lambda>c. \<not> is_whitespace c) (first # rest)))"

lemma command_text_token_shorter: "command_text_token s = Some (token, rest) \<Longrightarrow> length rest < length s"
proof -
  assume t: "command_text_token s = Some (token, rest)"
  obtain c cs where d: "dropWhile is_whitespace s = c # cs"
    using t by (cases "dropWhile is_whitespace s") (simp_all add: command_text_token_def)
  have "length (c # cs) \<le> length s" using length_dropWhile_le [of is_whitespace s] d by simp
  moreover have "length rest \<le> length cs"
  proof (cases "is_quote c")
    case True
    then have "rest = drop 1 (dropWhile (\<lambda>x. x \<noteq> c) cs)" using t d by (simp add: command_text_token_def)
    then show ?thesis using length_dropWhile_le [of "\<lambda>x. x \<noteq> c" cs] by simp
  next
    case False
    moreover have "\<not> is_whitespace c" using hd_dropWhile [of is_whitespace s] d by simp
    ultimately have "rest = dropWhile (\<lambda>x. \<not> is_whitespace x) cs" using t d by (simp add: command_text_token_def)
    then show ?thesis using length_dropWhile_le [of "\<lambda>x. \<not> is_whitespace x" cs] by simp
  qed
  ultimately show ?thesis by simp
qed

function command_text_agent_name :: "(str \<Rightarrow> str option) \<Rightarrow> str \<Rightarrow> str option" where
  "command_text_agent_name resolve rest =
    (case command_text_token rest of
       None \<Rightarrow> None
     | Some (token, next) \<Rightarrow>
         let token = trim token
         in if eq_ignore_ascii_case token (lit ''&'') \<or> eq_ignore_ascii_case token (lit ''.'')
               \<or> eq_ignore_ascii_case token (lit ''call'')
            then command_text_agent_name resolve next
            else agent_name_from_path_token resolve token)"
  by pat_completeness auto
termination
  by (relation "measure (length \<circ> snd)") (auto dest: command_text_token_shorter)

declare command_text_agent_name.simps [simp del]

definition windows_flag :: "str \<Rightarrow> str" where
  "windows_flag arg = to_lowercase (trim_matches (\<lambda>c. c = 34) arg)"

fun windows_cmd_args :: "(str \<Rightarrow> str option) \<Rightarrow> str list \<Rightarrow> str option" where
  "windows_cmd_args resolve [] = None"
| "windows_cmd_args resolve (arg # args) =
     (if names [''/c'', ''/k''] (windows_flag arg)
      then (case args of [] \<Rightarrow> None | command # _ \<Rightarrow> command_text_agent_name resolve command)
      else windows_cmd_args resolve args)"

definition windows_cmd_arg_agent_name :: "(str \<Rightarrow> str option) \<Rightarrow> str list \<Rightarrow> str option" where
  "windows_cmd_arg_agent_name resolve argv = windows_cmd_args resolve (drop 1 argv)"

fun powershell_args :: "(str \<Rightarrow> str option) \<Rightarrow> str list \<Rightarrow> str option" where
  "powershell_args resolve [] = None"
| "powershell_args resolve (arg # args) =
     (let flag = windows_flag arg in
      if names [''-file'', ''-f'', ''/file''] flag
      then (case args of [] \<Rightarrow> None | path # _ \<Rightarrow> agent_name_from_path_token resolve path)
      else if names [''-command'', ''-c'', ''/command'', ''/c''] flag
      then (case args of [] \<Rightarrow> None | command # _ \<Rightarrow> command_text_agent_name resolve command)
      else if names [''-encodedcommand'', ''-enc'', ''/encodedcommand'', ''/enc''] flag then None
      else if names [''-configurationname'', ''-executionpolicy'', ''-outputformat'', ''-psconsolefile'', ''-version'',
                     ''-windowstyle'', ''-workingdirectory''] flag
      then (case args of [] \<Rightarrow> None | _ # args' \<Rightarrow> powershell_args resolve args')
      else if starts_with flag [45] \<or> starts_with flag [47] then powershell_args resolve args
      else agent_name_from_path_token resolve arg)"

definition powershell_arg_agent_name :: "(str \<Rightarrow> str option) \<Rightarrow> str list \<Rightarrow> str option" where
  "powershell_arg_agent_name resolve argv = powershell_args resolve (drop 1 argv)"

section \<open>Runtimes\<close>

text \<open>The last separator splits a path; separators at the end of the parent are dropped.\<close>

definition path_parent_and_basename :: "str \<Rightarrow> (str \<times> str) option" where
  "path_parent_and_basename path =
    (if \<not> list_ex is_separator path then None
     else let basename = rev (takeWhile (\<lambda>c. \<not> is_separator c) (rev path));
              front = take (length path - length basename - 1) path;
              parent = rev (dropWhile is_separator (rev front))
          in if parent \<noteq> [] \<and> basename \<noteq> [] then Some (parent, basename) else None)"

definition cursor_agent_name_from_bundled_node_argv :: "str list \<Rightarrow> str option" where
  "cursor_agent_name_from_bundled_node_argv argv =
    (case argv of
       runtime # script # _ \<Rightarrow>
         (case (path_parent_and_basename runtime, path_parent_and_basename script) of
            (Some (runtime_parent, runtime_name), Some (script_parent, script_name)) \<Rightarrow>
              if \<not> eq_ignore_ascii_case runtime_name (lit ''node.exe'')
                 \<or> \<not> eq_ignore_ascii_case script_name (lit ''index.js'')
                 \<or> \<not> eq_ignore_ascii_case runtime_parent script_parent then None
              else (case filter (\<lambda>c. c \<noteq> []) (rev (split_path runtime_parent)) of
                      version # versions # package # _ \<Rightarrow>
                        if eq_ignore_ascii_case package (lit ''cursor-agent'')
                           \<and> eq_ignore_ascii_case versions (lit ''versions'') \<and> trim version \<noteq> []
                        then Some (agent_label Cursor) else None
                    | _ \<Rightarrow> None)
          | _ \<Rightarrow> None)
     | _ \<Rightarrow> None)"

definition eval_flags :: "string list" where
  "eval_flags = [''-e'', ''--eval'', ''-p'', ''--print'']"

definition wrapped_agent_name_from_runtime_argv :: "(str \<Rightarrow> str option) \<Rightarrow> str \<Rightarrow> str list option \<Rightarrow> str option" where
  "wrapped_agent_name_from_runtime_argv resolve runtime argv =
    (case argv of
       None \<Rightarrow> None
     | Some argv \<Rightarrow>
         let runtime_name = normalized_agent_lookup_name (path_basename runtime)
         in if runtime_name = lit ''node''
            then or_else (cursor_agent_name_from_bundled_node_argv argv) (script_arg_agent_name resolve argv eval_flags [])
            else if runtime_name = lit ''bun'' then script_arg_agent_name resolve argv eval_flags []
            else if is_python_runtime runtime_name then script_arg_agent_name resolve argv [''-c''] [''-m'']
            else if names [''sh'', ''bash'', ''zsh'', ''fish''] runtime_name then script_arg_agent_name resolve argv [''-c''] []
            else if runtime_name = lit ''cmd'' then windows_cmd_arg_agent_name resolve argv
            else if names [''powershell'', ''pwsh''] runtime_name then powershell_arg_agent_name resolve argv
            else None)"

definition argv0_agent_name :: "(str \<Rightarrow> str option) \<Rightarrow> str list option \<Rightarrow> str option" where
  "argv0_agent_name resolve argv =
    (case argv of Some (arg # _) \<Rightarrow> agent_name_from_path_token resolve arg | _ \<Rightarrow> None)"

definition cmdline_argv0_agent_name :: "(str \<Rightarrow> str option) \<Rightarrow> str \<Rightarrow> str option" where
  "cmdline_argv0_agent_name resolve cmdline =
    (case split_whitespace cmdline of [] \<Rightarrow> None | token # _ \<Rightarrow> agent_name_from_path_token resolve token)"

definition bundled_agent_name :: "(str \<Rightarrow> str option) \<Rightarrow> foreground_process \<Rightarrow> str option" where
  "bundled_agent_name resolve process =
    (case fp_argv process of
       Some (runtime # _) \<Rightarrow>
         if names [''node'', ''bun''] (normalized_agent_lookup_name (path_basename runtime))
         then (case wrapped_agent_name_from_runtime_argv resolve runtime (fp_argv process) of
                 None \<Rightarrow> None
               | Some wrapped_agent \<Rightarrow>
                   if identify_agent wrapped_agent \<in> {Some Qwen, Some Cline, Some Letta} then Some wrapped_agent else None)
         else None
     | _ \<Rightarrow> None)"

definition effective_name :: "foreground_process \<Rightarrow> str" where
  "effective_name process = (case fp_argv0 process of None \<Rightarrow> fp_name process | Some n \<Rightarrow> n)"

definition normalized_process_name :: "(str \<Rightarrow> str option) \<Rightarrow> foreground_process \<Rightarrow> str" where
  "normalized_process_name resolve process =
    (let effective = effective_name process; lower_effective = to_lowercase effective;
         wrapped = (if is_generic_runtime_or_shell lower_effective
                    then wrapped_agent_name_from_runtime_argv resolve lower_effective (fp_argv process) else None)
     in case wrapped of
          Some wrapped_agent \<Rightarrow> wrapped_agent
        | None \<Rightarrow>
            if identify_agent effective \<noteq> None then effective
            else case bundled_agent_name resolve process of
                   Some wrapped_agent \<Rightarrow> wrapped_agent
                 | None \<Rightarrow>
                     (case or_else (argv0_agent_name resolve (fp_argv process))
                             (cmdline_argv0_agent_name resolve (case fp_cmdline process of None \<Rightarrow> [] | Some l \<Rightarrow> l)) of
                        Some wrapped_agent \<Rightarrow> wrapped_agent
                      | None \<Rightarrow> effective))"

section \<open>Letta\<close>

definition is_letta :: "(str \<Rightarrow> str option) \<Rightarrow> str \<Rightarrow> bool" where
  "is_letta resolve arg \<longleftrightarrow> agent_name_from_path_token resolve arg = Some (agent_label Letta)"

text \<open>The loop over the arguments of a runtime: the list is what is left from position \<open>index\<close> on.\<close>

fun letta_script_index :: "(str \<Rightarrow> str option) \<Rightarrow> nat \<Rightarrow> str list \<Rightarrow> nat option" where
  "letta_script_index resolve index [] = None"
| "letta_script_index resolve index (arg # args) =
     (if arg = lit ''--''
      then (case args of [] \<Rightarrow> None | a # _ \<Rightarrow> if is_letta resolve a then Some (index + 1) else None)
      else if flag_matches arg eval_flags then None
      else if starts_with arg [45]
      then (if option_takes_value arg
            then (case args of [] \<Rightarrow> None | _ # args' \<Rightarrow> letta_script_index resolve (index + 2) args')
            else letta_script_index resolve (index + 1) args)
      else if is_letta resolve arg then Some index else None)"

definition letta_entrypoint_index :: "(str \<Rightarrow> str option) \<Rightarrow> str list \<Rightarrow> nat option" where
  "letta_entrypoint_index resolve argv =
    (case argv of
       [] \<Rightarrow> None
     | arg # args \<Rightarrow>
         if is_letta resolve arg then Some 0
         else if \<not> names [''node'', ''bun''] (normalized_agent_lookup_name (path_basename arg)) then None
         else letta_script_index resolve 1 args)"

fun letta_first_arg_after_backend_selection :: "str list \<Rightarrow> str option" where
  "letta_first_arg_after_backend_selection [] = None"
| "letta_first_arg_after_backend_selection (arg # args) =
     (if arg = lit ''--backend''
      then (case args of [] \<Rightarrow> None | _ # args' \<Rightarrow> letta_first_arg_after_backend_selection args')
      else if starts_with arg (lit ''--backend='') then letta_first_arg_after_backend_selection args
      else Some arg)"

definition headless_letta_options :: "string list" where
  "headless_letta_options =
    [''-p'', ''--print'', ''--prompt'', ''--json'', ''--stream-json'', ''--run'', ''--disable-memory-guard'',
     ''--output-format'', ''--input-format'', ''--include-partial-messages'', ''--from-agent'', ''--environment'',
     ''--env'', ''--pre-load-skills'', ''--tags'', ''--ephemeral'', ''--stateless'', ''--max-turns'',
     ''--memfs-startup'', ''-h'', ''--help'', ''-v'', ''--version'', ''--info'', ''--update'', ''--upgrade'']"

definition is_interactive_letta_argv :: "(str \<Rightarrow> str option) \<Rightarrow> str list \<Rightarrow> bool" where
  "is_interactive_letta_argv resolve argv =
    (let cli_args = (case letta_entrypoint_index resolve argv of None \<Rightarrow> argv | Some index \<Rightarrow> drop (index + 1) argv)
     in if list_ex (\<lambda>arg. names headless_letta_options (takeWhile (\<lambda>c. c \<noteq> 61) arg)) cli_args then False
        else (case letta_first_arg_after_backend_selection cli_args of None \<Rightarrow> True | Some arg \<Rightarrow> starts_with arg [45]))"

definition is_interactive_letta_process :: "(str \<Rightarrow> str option) \<Rightarrow> foreground_process \<Rightarrow> bool" where
  "is_interactive_letta_process resolve process =
    (case fp_argv process of
       Some argv \<Rightarrow> is_interactive_letta_argv resolve argv
     | None \<Rightarrow>
         let parsed_cmdline = map (trim_matches is_quote)
               (split_whitespace (case fp_cmdline process of None \<Rightarrow> [] | Some l \<Rightarrow> l))
         in parsed_cmdline = [] \<or> is_interactive_letta_argv resolve parsed_cmdline)"

section \<open>The agent of a job\<close>

definition process_priority :: "(str \<Rightarrow> str) \<Rightarrow> foreground_process \<Rightarrow> str \<Rightarrow> u8" where
  "process_priority lower process normalized_name =
    (if lower normalized_name \<noteq> lower (fp_name process) then 3
     else if \<not> is_generic_runtime_or_shell (lower normalized_name) then 2 else 1)"

text \<open>A process that runs an agent, with the name it goes by.\<close>

definition process_agent :: "(str \<Rightarrow> str option) \<Rightarrow> foreground_process \<Rightarrow> (agent \<times> str) option" where
  "process_agent resolve process =
    (let candidate = normalized_process_name resolve process
     in case identify_agent candidate of
          None \<Rightarrow> None
        | Some agent \<Rightarrow>
            if agent = Letta \<and> \<not> is_interactive_letta_process resolve process then None else Some (agent, candidate))"

fun best_process ::
  "(str \<Rightarrow> str) \<Rightarrow> (str \<Rightarrow> str option) \<Rightarrow> (u8 \<times> agent \<times> str) option \<Rightarrow> foreground_process list
    \<Rightarrow> (u8 \<times> agent \<times> str) option" where
  "best_process lower resolve best [] = best"
| "best_process lower resolve best (process # processes) =
     (case process_agent resolve process of
        None \<Rightarrow> best_process lower resolve best processes
      | Some (agent, candidate) \<Rightarrow>
          let score = process_priority lower process candidate
          in if (case best of None \<Rightarrow> False | Some (best_score, _) \<Rightarrow> score \<le> best_score)
             then best_process lower resolve best processes
             else best_process lower resolve (Some (score, agent, candidate)) processes)"

definition identify_agent_in_job ::
  "(str \<Rightarrow> str) \<Rightarrow> (str \<Rightarrow> str option) \<Rightarrow> foreground_job \<Rightarrow> (agent \<times> str) option" where
  "identify_agent_in_job lower resolve job =
    (case (case find (\<lambda>p. fp_pid p = fj_process_group_id job) (fj_processes job) of
             None \<Rightarrow> None | Some leader \<Rightarrow> process_agent resolve leader) of
       Some found \<Rightarrow> Some found
     | None \<Rightarrow> map_option snd (best_process lower resolve None (fj_processes job)))"

section \<open>Properties\<close>

text \<open>What a job shows, with its rank.\<close>

definition rank :: "(str \<Rightarrow> str) \<Rightarrow> (str \<Rightarrow> str option) \<Rightarrow> foreground_process \<Rightarrow> nat" where
  "rank lower resolve process =
    (case process_agent resolve process of
       None \<Rightarrow> 0
     | Some (_, candidate) \<Rightarrow> unat (process_priority lower process candidate))"

definition leader_agent :: "(str \<Rightarrow> str option) \<Rightarrow> foreground_job \<Rightarrow> (agent \<times> str) option" where
  "leader_agent resolve job =
    (case find (\<lambda>p. fp_pid p = fj_process_group_id job) (fj_processes job) of
       None \<Rightarrow> None | Some leader \<Rightarrow> process_agent resolve leader)"

lemma rank_pos: "rank lower resolve p = 0 \<longleftrightarrow> process_agent resolve p = None"
  by (auto simp: rank_def process_priority_def split: option.split)

text \<open>The loop keeps the first of the processes seen that rank highest.\<close>

definition is_best ::
  "(str \<Rightarrow> str) \<Rightarrow> (str \<Rightarrow> str option) \<Rightarrow> foreground_process list \<Rightarrow> (u8 \<times> agent \<times> str) option \<Rightarrow> bool" where
  "is_best lower resolve ps best =
    (case best of
       None \<Rightarrow> \<forall>p \<in> set ps. process_agent resolve p = None
     | Some (score, found) \<Rightarrow>
         \<exists>us p vs. ps = us @ p # vs \<and> process_agent resolve p = Some found \<and> unat score = rank lower resolve p
           \<and> (\<forall>q \<in> set us. rank lower resolve q < rank lower resolve p)
           \<and> (\<forall>q \<in> set vs. rank lower resolve q \<le> rank lower resolve p))"

lemma is_best_SomeI:
  "process_agent resolve p = Some found \<Longrightarrow> unat score = rank lower resolve p \<Longrightarrow>
   \<forall>q \<in> set us. rank lower resolve q < rank lower resolve p \<Longrightarrow>
   \<forall>q \<in> set vs. rank lower resolve q \<le> rank lower resolve p \<Longrightarrow> is_best lower resolve (us @ p # vs) (Some (score, found))"
  unfolding is_best_def by auto

lemma is_best_step:
  assumes "is_best lower resolve ps best"
  shows "is_best lower resolve (ps @ [p])
    (case process_agent resolve p of
       None \<Rightarrow> best
     | Some (agent, candidate) \<Rightarrow>
         if (case best of None \<Rightarrow> False | Some (best_score, _) \<Rightarrow> process_priority lower p candidate \<le> best_score)
         then best else Some (process_priority lower p candidate, agent, candidate))"
proof (cases "process_agent resolve p")
  case None
  then have "rank lower resolve p = 0" by (simp add: rank_pos)
  then show ?thesis using None assms by (cases best) (fastforce simp: is_best_def)+
next
  case (Some found)
  obtain agent candidate where f: "found = (agent, candidate)" by (cases found)
  then have r: "rank lower resolve p = unat (process_priority lower p candidate)" using Some by (simp add: rank_def)
  show ?thesis
  proof (cases best)
    case None
    then have "\<forall>q \<in> set ps. rank lower resolve q = 0" using assms by (simp add: is_best_def rank_pos)
    moreover have "0 < rank lower resolve p" using Some rank_pos [of lower resolve p] by simp
    ultimately have "is_best lower resolve (ps @ [p]) (Some (process_priority lower p candidate, found))"
      using Some r by (intro is_best_SomeI) simp_all
    then show ?thesis using None Some f by simp
  next
    case b: (Some b)
    obtain score old where b': "b = (score, old)" by (cases b)
    then obtain us q vs where q: "ps = us @ q # vs" "process_agent resolve q = Some old" "unat score = rank lower resolve q"
      "\<forall>x \<in> set us. rank lower resolve x < rank lower resolve q" "\<forall>x \<in> set vs. rank lower resolve x \<le> rank lower resolve q"
      using assms b by (auto simp: is_best_def)
    show ?thesis
    proof (cases "process_priority lower p candidate \<le> score")
      case True
      then have "rank lower resolve p \<le> rank lower resolve q" using r q(3) by (simp add: word_le_nat_alt)
      then have "is_best lower resolve (us @ q # (vs @ [p])) (Some (score, old))" using q by (intro is_best_SomeI) auto
      then show ?thesis using True Some f b b' q(1) by simp
    next
      case False
      then have "rank lower resolve q < rank lower resolve p" using r q(3) by (simp add: word_le_nat_alt)
      moreover from this have "\<forall>x \<in> set ps. rank lower resolve x < rank lower resolve p" using q(1,4,5) by force
      ultimately have "is_best lower resolve (ps @ [p]) (Some (process_priority lower p candidate, found))"
        using Some r by (intro is_best_SomeI) simp_all
      then show ?thesis using False Some f b b' by simp
    qed
  qed
qed

lemma best_is_best: "is_best lower resolve ps best \<Longrightarrow> is_best lower resolve (ps @ qs) (best_process lower resolve best qs)"
proof (induction qs arbitrary: ps best)
  case (Cons q qs)
  note step = is_best_step [OF Cons.prems, of q]
  show ?case
  proof (cases "process_agent resolve q")
    case None
    then show ?thesis using step Cons.IH [of "ps @ [q]" best] by simp
  next
    case (Some found)
    obtain agent candidate where f: "found = (agent, candidate)" by (cases found)
    show ?thesis
    proof (cases "case best of None \<Rightarrow> False | Some (best_score, _) \<Rightarrow> process_priority lower q candidate \<le> best_score")
      case True
      then have "is_best lower resolve (ps @ [q]) best" using step Some f by simp
      then show ?thesis using Cons.IH [of "ps @ [q]" best] Some f True by (simp add: Let_def)
    next
      case False
      then have "is_best lower resolve (ps @ [q]) (Some (process_priority lower q candidate, agent, candidate))"
        using step Some f by simp
      then show ?thesis using Cons.IH [of "ps @ [q]"] Some f False by (simp add: Let_def)
    qed
  qed
qed simp

text \<open>
  C40: a job shows no agent only if none of its processes runs one. It shows that of the group leader if the leader runs
  one, and otherwise that of the first process of the highest rank.
\<close>

theorem job_shows_best:
  "case identify_agent_in_job lower resolve job of
     None \<Rightarrow> process_agent resolve ` set (fj_processes job) \<subseteq> {None}
   | Some found \<Rightarrow>
       leader_agent resolve job = Some found
       \<or> (leader_agent resolve job = None
          \<and> (\<exists>us p vs. fj_processes job = us @ p # vs \<and> process_agent resolve p = Some found
               \<and> rank lower resolve ` set us \<subseteq> {..<rank lower resolve p}
               \<and> rank lower resolve ` set vs \<subseteq> {..rank lower resolve p}))"
proof -
  let ?best = "best_process lower resolve None (fj_processes job)"
  have best: "is_best lower resolve (fj_processes job) ?best"
    using best_is_best [of lower resolve "[]" None "fj_processes job"] by (simp add: is_best_def)
  have job: "identify_agent_in_job lower resolve job =
      (case leader_agent resolve job of Some found \<Rightarrow> Some found | None \<Rightarrow> map_option snd ?best)"
    by (simp add: identify_agent_in_job_def leader_agent_def)
  show ?thesis
  proof (cases "leader_agent resolve job")
    case None
    show ?thesis
    proof (cases ?best)
      case None
      then show ?thesis using best job \<open>leader_agent resolve job = None\<close> by (auto simp: is_best_def)
    next
      case (Some b)
      obtain score found where b: "b = (score, found)" by (cases b)
      have "\<exists>us p vs. fj_processes job = us @ p # vs \<and> process_agent resolve p = Some found
               \<and> rank lower resolve ` set us \<subseteq> {..<rank lower resolve p}
               \<and> rank lower resolve ` set vs \<subseteq> {..rank lower resolve p}"
        using best Some b unfolding is_best_def by (simp add: image_subset_iff) blast
      then show ?thesis using job None Some b by (simp del: ex_simps)
    qed
  next
    case (Some found)
    then show ?thesis using job by simp
  qed
qed

end
