(* ===== verification/Popup.thy ===== *)
theory Popup
  imports Geometry
begin

text \<open>
  Sizes of popups (\<open>popup_size.rs\<close>): a number of cells or a percentage of the screen, their textual
  and serialized forms, and the rectangles of the popup's border and of its terminal.
\<close>

datatype popup_size = Cells u16 | Percent u8

section \<open>Text forms\<close>

definition resolve_size :: "popup_size \<Rightarrow> u16 \<Rightarrow> u16" where
  "resolve_size sz available =
    (case sz of
       Cells cells \<Rightarrow> cells
     | Percent percent \<Rightarrow> ucast ((ucast available * ucast percent :: u32) div 100))"

definition strip_percent :: "str \<Rightarrow> str option" where
  "strip_percent s = (if s \<noteq> [] \<and> last s = 37 then Some (butlast s) else None)"

definition bad_size :: str where
  "bad_size = lit ''must be a number of cells or a percentage like 80%''"

definition bad_percent :: str where
  "bad_percent = lit ''percentage must be between 1% and 100%''"

definition parse_cli :: "str \<Rightarrow> str + popup_size" where
  "parse_cli value =
    (case strip_percent value of
       Some digits \<Rightarrow>
         (case parse_unsigned 8 digits of
            None \<Rightarrow> Inl bad_size
          | Some percent \<Rightarrow>
              if \<not> (1 \<le> percent \<and> percent \<le> 100) then Inl bad_percent
              else Inr (Percent (of_nat percent)))
     | None \<Rightarrow>
         (case parse_unsigned 16 value of
            None \<Rightarrow> Inl bad_size
          | Some cells \<Rightarrow> Inr (Cells (of_nat cells))))"

definition parse_percent_string :: "str \<Rightarrow> str + popup_size" where
  "parse_percent_string value =
    (if value \<noteq> [] \<and> last value = 37 then parse_cli value
     else Inl (lit ''string sizes must be percentages like 80%; use a number for cells''))"

text \<open>The values serde passes between a data format and the type.\<close>

datatype serde_value = SerdeU64 u64 | SerdeI64 int | SerdeStr str

definition serialize_size :: "popup_size \<Rightarrow> serde_value" where
  "serialize_size sz =
    (case sz of
       Cells cells \<Rightarrow> SerdeU64 (ucast cells)
     | Percent percent \<Rightarrow> SerdeStr (decimal (unat percent) @ [37]))"

definition deserialize_size :: "serde_value \<Rightarrow> str + popup_size" where
  "deserialize_size v =
    (case v of
       SerdeU64 value \<Rightarrow>
         if unat value < 65536 then Inr (Cells (ucast value)) else Inl (lit ''cell count must fit in u16'')
     | SerdeI64 value \<Rightarrow>
         if 0 \<le> value \<and> value < 65536 then Inr (Cells (of_int value))
         else Inl (lit ''cell count must be between 0 and 65535'')
     | SerdeStr value \<Rightarrow> parse_percent_string value)"

section \<open>Geometry\<close>

record popup_geometry =
  pg_outer :: rect
  pg_inner :: rect

definition resolve_popup_geometry ::
  "rect_new \<Rightarrow> popup_size option \<Rightarrow> popup_size option \<Rightarrow> rect \<Rightarrow> popup_geometry option" where
  "resolve_popup_geometry mk width height area =
    (let default_width = max (r_w area div 2) 6;
         default_height = max (r_h area div 2) 4;
         outer_width = min (max (case width of Some w \<Rightarrow> resolve_size w (r_w area) | None \<Rightarrow> default_width) 6) (r_w area);
         outer_height = min (max (case height of Some h \<Rightarrow> resolve_size h (r_h area) | None \<Rightarrow> default_height) 4) (r_h area)
     in if outer_width < 6 \<or> outer_height < 4 then None
        else let outer_x = r_x area + saturating_sub (r_w area) outer_width div 2;
                 outer_y = r_y area + saturating_sub (r_h area) outer_height div 2;
                 pane_inner_width = saturating_sub outer_width 2;
                 pane_inner_height = saturating_sub outer_height 2;
                 terminal_cols = (if pane_inner_width \<le> 4 then pane_inner_width
                                  else saturating_sub pane_inner_width 1);
                 inner = mk (saturating_add outer_x 1) (saturating_add outer_y 1) terminal_cols pane_inner_height
             in Some \<lparr>pg_outer = mk outer_x outer_y outer_width outer_height, pg_inner = inner\<rparr>)"

section \<open>Text forms are read back\<close>

lemma strip_percent_snoc [simp]: "strip_percent (s @ [37]) = Some s"
  by (simp add: strip_percent_def)

lemma parse_cli_percent:
  assumes "1 \<le> n" "n \<le> 100"
  shows "parse_cli (decimal n @ [37]) = Inr (Percent (of_nat n))"
proof -
  have "parse_unsigned 8 (decimal n) = Some n" by (rule parse_decimal) (use assms in simp)
  with assms show ?thesis by (simp add: parse_cli_def)
qed

lemma parse_cli_cells:
  assumes "n < 65536"
  shows "parse_cli (decimal n) = Inr (Cells (of_nat n))"
proof -
  have "last (decimal n) \<noteq> 37"
    using decimal_digits(2) [of "last (decimal n)" n] decimal_digits(1) [of n] by (auto simp: is_ascii_digit_def)
  then have "strip_percent (decimal n) = None" by (simp add: strip_percent_def)
  moreover have "parse_unsigned 16 (decimal n) = Some n" by (rule parse_decimal) (use assms in simp)
  ultimately show ?thesis by (simp add: parse_cli_def)
qed

text \<open>
  Every size the parser can produce is written and read back unchanged, and a parsed percentage
  lies between 1 and 100, so that it never resolves to more than the space there is.
\<close>

theorem popup_size_roundtrip:
  "case parse_cli text of
     Inl _ \<Rightarrow> True
   | Inr sz \<Rightarrow> deserialize_size (serialize_size sz) = Inr sz
       \<and> (\<forall>p available. sz = Percent p \<longrightarrow> 1 \<le> unat p \<and> unat p \<le> 100 \<and> resolve_size sz available \<le> available)"
proof (cases "parse_cli text")
  case (Inr sz)
  show ?thesis
  proof (cases sz)
    case (Cells c)
    have "unat (ucast c :: u64) = unat c"
      using unat_less_pow [of c] by (simp add: unsigned_ucast_eq take_bit_nat_eq_self)
    moreover from this have "(ucast (ucast c :: u64) :: u16) = c"
      by (intro ucast_up_ucast_id) (simp add: is_up)
    ultimately have "deserialize_size (serialize_size sz) = Inr sz"
      using u16_bound [of c] Cells by (simp add: deserialize_size_def serialize_size_def)
    with Inr Cells show ?thesis by simp
  next
    case (Percent p)
    then obtain n where n: "1 \<le> n" "n \<le> 100" "p = of_nat n"
      using Inr by (auto simp: parse_cli_def split: option.splits if_splits)
    then have p: "unat p = n" by (simp add: unat_of_nat)
    have "deserialize_size (serialize_size sz) = Inr sz"
      using parse_cli_percent [OF n(1,2)] n(3) p Percent
      by (simp add: deserialize_size_def serialize_size_def parse_percent_string_def)
    moreover have "resolve_size sz available \<le> available" for available
    proof -
      let ?a = "ucast available :: u32" and ?p = "ucast p :: u32"
      have u: "unat ?a = unat available" "unat ?p = n"
        using p unat_less_pow [of p]
        by (simp_all add: unat_ucast_16_32 unsigned_ucast_eq take_bit_nat_eq_self)
      have le: "unat available * n \<le> unat available * 100" using n(2) by simp
      also have "\<dots> < 2 ^ 32" using u16_bound [of available] by simp
      finally have "unat available * n < 2 ^ 32" .
      then have m: "unat (?a * ?p) = unat available * n" by (simp add: unat_word_ariths u)
      then have d: "unat (?a * ?p div 100) = unat available * n div 100" by (simp add: unat_div)
      also have "\<dots> \<le> unat available" using div_le_mono [OF le, of 100] by simp
      finally have "unat (ucast (?a * ?p div 100) :: u16) \<le> unat available"
        using u16_bound [of available] by (subst unat_ucast_32_16) simp_all
      then show ?thesis by (simp add: resolve_size_def Percent word_le_nat_alt)
    qed
    ultimately show ?thesis using Inr Percent p n by simp
  qed
qed simp

text \<open>
  A popup is placed exactly when the area has at least six columns and four rows; its border
  then lies inside the area, centred, and its terminal strictly inside the border, with at least
  two rows and four columns.
\<close>

theorem popup_geometry_inside:
  assumes "rect_new_law mk" "rect_ok area"
  shows "case resolve_popup_geometry mk width height area of
      None \<Rightarrow> unat (r_w area) < 6 \<or> unat (r_h area) < 4
    | Some g \<Rightarrow> rect_cells (pg_outer g) \<subseteq> rect_cells area
        \<and> unat (r_x (pg_outer g)) < unat (r_x (pg_inner g))
        \<and> unat (r_x (pg_inner g)) + unat (r_w (pg_inner g)) < unat (r_x (pg_outer g)) + unat (r_w (pg_outer g))
        \<and> unat (r_y (pg_outer g)) < unat (r_y (pg_inner g))
        \<and> unat (r_y (pg_inner g)) + unat (r_h (pg_inner g)) < unat (r_y (pg_outer g)) + unat (r_h (pg_outer g))
        \<and> 4 \<le> unat (r_w (pg_inner g)) \<and> 2 \<le> unat (r_h (pg_inner g))"
proof -
  define w where "w = min (max (case width of Some w \<Rightarrow> resolve_size w (r_w area) | None \<Rightarrow> max (r_w area div 2) 6) 6) (r_w area)"
  define h where "h = min (max (case height of Some h \<Rightarrow> resolve_size h (r_h area) | None \<Rightarrow> max (r_h area div 2) 4) 4) (r_h area)"
  have W: "unat w \<le> unat (r_w area)" "unat w < 6 \<longleftrightarrow> unat (r_w area) < 6"
    unfolding w_def unat_min unat_max by (simp_all add: min_less_iff_disj)
  have H: "unat h \<le> unat (r_h area)" "unat h < 4 \<longleftrightarrow> unat (r_h area) < 4"
    unfolding h_def unat_min unat_max by (simp_all add: min_less_iff_disj)
  have lt: "w < 6 \<longleftrightarrow> unat w < 6" "h < 4 \<longleftrightarrow> unat h < 4" by (simp_all add: word_less_nat_alt)
  note def = resolve_popup_geometry_def [of mk width height area, folded w_def h_def, unfolded Let_def, folded w_def h_def]
  show ?thesis
  proof (cases "w < 6 \<or> h < 4")
    case True
    then show ?thesis using W(2) H(2) lt by (auto simp: def)
  next
    case False
    have ok: "unat (r_x area) + unat (r_w area) \<le> 65535" "unat (r_y area) + unat (r_h area) \<le> 65535"
      using assms(2) by (simp_all add: rect_ok_def)
    have ge: "6 \<le> unat w" "4 \<le> unat h" using False lt by auto
    define x where "x = r_x area + saturating_sub (r_w area) w div 2"
    define y where "y = r_y area + saturating_sub (r_h area) h div 2"
    have X: "unat x = unat (r_x area) + (unat (r_w area) - unat w) div 2"
      unfolding x_def using ok(1) by (subst unat_add_small) (simp_all add: unat_div unat_saturating_sub)
    have Y: "unat y = unat (r_y area) + (unat (r_h area) - unat h) div 2"
      unfolding y_def using ok(2) by (subst unat_add_small) (simp_all add: unat_div unat_saturating_sub)
    define c where "c = (if saturating_sub w 2 \<le> 4 then saturating_sub w 2 else saturating_sub (saturating_sub w 2) 1)"
    have C: "unat c \<le> unat w - 2" "4 \<le> unat c"
      using ge(1) by (auto simp: c_def unat_saturating_sub word_le_nat_alt)
    have bx: "unat x + unat w \<le> unat (r_x area) + unat (r_w area)" using X W(1) by linarith
    have by': "unat y + unat h \<le> unat (r_y area) + unat (r_h area)" using Y H(1) by linarith
    have x1: "unat (saturating_add x 1) = unat x + 1"
      using bx ok(1) ge(1) by (simp add: unat_saturating_add)
    have y1: "unat (saturating_add y 1) = unat y + 1"
      using by' ok(2) ge(2) by (simp add: unat_saturating_add)
    have outer: "mk x y w h = \<lparr>r_x = x, r_y = y, r_w = w, r_h = h\<rparr>"
      by (rule assms(1) [unfolded rect_new_law_def, rule_format]) (use bx by' ok in linarith)+
    have inner: "mk (saturating_add x 1) (saturating_add y 1) c (saturating_sub h 2)
        = \<lparr>r_x = saturating_add x 1, r_y = saturating_add y 1, r_w = c, r_h = saturating_sub h 2\<rparr>"
      by (rule assms(1) [unfolded rect_new_law_def, rule_format])
        (use x1 y1 C ge bx by' ok in \<open>simp_all add: unat_saturating_sub\<close>)
    have g: "resolve_popup_geometry mk width height area =
        Some \<lparr>pg_outer = mk x y w h, pg_inner = mk (saturating_add x 1) (saturating_add y 1) c (saturating_sub h 2)\<rparr>"
      using False by (simp add: def x_def y_def c_def)
    have "rect_cells (mk x y w h) \<subseteq> rect_cells area"
      unfolding outer rect_cells_def using bx by' X Y by auto
    then show ?thesis
      unfolding g using x1 y1 C ge by (auto simp: outer inner unat_saturating_sub)
  qed
qed

theorem popup_geometry_inside_witness:
  "\<exists>g. resolve_popup_geometry rect_new_saturating (Some (Percent 80)) None demo_area = Some g
     \<and> 4 \<le> unat (r_w (pg_inner g))"
proof -
  have ok: "rect_ok demo_area" by (simp add: demo_area_def rect_ok_def)
  have "\<not> (unat (r_w demo_area) < 6 \<or> unat (r_h demo_area) < 4)" by (simp add: demo_area_def)
  then show ?thesis
    using popup_geometry_inside [OF rect_new_saturating_law ok, of "Some (Percent 80)" None]
    by (auto split: option.splits)
qed

theorem popup_size_roundtrip_witness:
  "parse_cli (lit ''80%'') = Inr (Percent 80)
   \<and> deserialize_size (serialize_size (Percent 80)) = Inr (Percent 80) \<and> resolve_size (Percent 80) 50 \<le> 50"
proof -
  have "parse_cli (lit ''80%'') = Inr (Percent 80)" by code_simp
  with popup_size_roundtrip [of "lit ''80%''"] show ?thesis by simp
qed

end
