(* ===== verification/InputLease.thy ===== *)
theory InputLease
  imports Prelude
begin

text \<open>
  Key events and input leases (\<open>input/model.rs\<close>, \<open>input/lease.rs\<close>): which target a key press was
  forwarded to, or in which context it was consumed, so that its repeats and its release go the same
  way. The key codes and modifier sets are crossterm's and stay abstract here. The \<open>Physical\<close> identity
  and the Windows record are those of a Windows (or test) build; a build for another platform never
  makes them.
\<close>

section \<open>Key events\<close>

datatype event_kind = Press | Repeat | Release

record windows_key_record =
  key_down :: bool
  wr_repeat_count :: u16
  virtual_key_code :: u16
  virtual_scan_code :: u16
  wr_unicode :: u16
  control_key_state :: u32

datatype 'c key_ident = Physical u32 | Semantic 'c

datatype key_source =
    Synthesized
  | Vt "u8 list"
  | WindowsConsole windows_key_record "u32 option"

record ('c, 'm) terminal_key =
  tk_code :: 'c
  tk_modifiers :: 'm
  tk_kind :: event_kind
  tk_repeat_count :: u16
  tk_shifted_codepoint :: "u32 option"
  tk_generated_text :: "str option"
  tk_physical_identity_hint :: bool
  tk_windows_dead_key :: bool
  tk_source :: key_source

definition record_physical_key_id :: "windows_key_record \<Rightarrow> u32 option" where
  "record_physical_key_id r =
    (if virtual_scan_code r \<noteq> 0
     then Some (or (ucast (virtual_scan_code r))
            (push_bit 16 (if and (control_key_state r) 0x0100 \<noteq> 0 then 1 else 0)))
     else None)"

definition key_new :: "'c \<Rightarrow> 'm \<Rightarrow> ('c, 'm) terminal_key" where
  "key_new code modifiers =
    \<lparr>tk_code = code, tk_modifiers = modifiers, tk_kind = Press, tk_repeat_count = 1,
     tk_shifted_codepoint = None, tk_generated_text = None, tk_physical_identity_hint = False,
     tk_windows_dead_key = False, tk_source = Synthesized\<rparr>"

definition with_kind :: "event_kind \<Rightarrow> ('c, 'm) terminal_key \<Rightarrow> ('c, 'm) terminal_key" where
  "with_kind kind k =
    (let k' = (if kind = Release then k\<lparr>tk_repeat_count := 1, tk_generated_text := None\<rparr> else k)
     in k'\<lparr>tk_kind := kind\<rparr>)"

definition with_repeat_count :: "u16 \<Rightarrow> ('c, 'm) terminal_key \<Rightarrow> ('c, 'm) terminal_key" where
  "with_repeat_count n k = k\<lparr>tk_repeat_count := (if tk_kind k = Release then 1 else max n 1)\<rparr>"

definition with_generated_text :: "str option \<Rightarrow> ('c, 'm) terminal_key \<Rightarrow> ('c, 'm) terminal_key" where
  "with_generated_text txt k = k\<lparr>tk_generated_text := (if tk_kind k = Release then None else txt)\<rparr>"

definition key_identity :: "('c, 'm) terminal_key \<Rightarrow> 'c key_ident" where
  "key_identity k =
    (case tk_source k of
       WindowsConsole _ (Some physical_key) \<Rightarrow> Physical physical_key
     | WindowsConsole _ None \<Rightarrow> Semantic (tk_code k)
     | Synthesized \<Rightarrow> Semantic (tk_code k)
     | Vt _ \<Rightarrow> Semantic (tk_code k))"

definition physical_key_id :: "('c, 'm) terminal_key \<Rightarrow> u32 option" where
  "physical_key_id k =
    (case tk_source k of
       WindowsConsole _ (Some i) \<Rightarrow> Some i
     | WindowsConsole _ None \<Rightarrow> None
     | Synthesized \<Rightarrow> None
     | Vt _ \<Rightarrow> None)"

definition has_physical_identity :: "('c, 'm) terminal_key \<Rightarrow> bool" where
  "has_physical_identity k \<longleftrightarrow> tk_physical_identity_hint k \<or> physical_key_id k \<noteq> None"

section \<open>Leases\<close>

record ('s, 'c) lease_key =
  lk_source :: 's
  lk_identity :: "'c key_ident"

definition lease_key_new :: "'s \<Rightarrow> ('c, 'm) terminal_key \<Rightarrow> ('s, 'c) lease_key" where
  "lease_key_new source key = \<lparr>lk_source = source, lk_identity = key_identity key\<rparr>"

record ('c, 'm, 't) forwarded_lease =
  fl_target :: 't
  fl_key :: "('c, 'm) terminal_key"

datatype 'x consumed_lease = ReprocessRepeats 'x | SuppressRepeats

datatype ('c, 'm, 'x, 't) input_lease =
    Forwarded "('c, 'm, 't) forwarded_lease"
  | Consumed "'x consumed_lease"

datatype ('x, 't) repeat_plan = PlanForwarded 't | PlanReprocess 'x u16 bool | PlanIgnore

type_synonym ('s, 'c, 'm, 'x, 't) lease_table =
  "('s, 'c) lease_key \<rightharpoonup> ('c, 'm, 'x, 't) input_lease"

definition insert_forwarded ::
  "('s, 'c) lease_key \<Rightarrow> 't \<Rightarrow> ('c, 'm) terminal_key \<Rightarrow> ('s, 'c, 'm, 'x, 't) lease_table
   \<Rightarrow> ('s, 'c, 'm, 'x, 't) lease_table" where
  "insert_forwarded key target original leases =
     leases(key \<mapsto> Forwarded \<lparr>fl_target = target, fl_key = original\<rparr>)"

definition insert_consumed ::
  "('s, 'c) lease_key \<Rightarrow> 'x consumed_lease \<Rightarrow> ('s, 'c, 'm, 'x, 't) lease_table
   \<Rightarrow> ('s, 'c, 'm, 'x, 't) lease_table" where
  "insert_consumed key disposition leases = leases(key \<mapsto> Consumed disposition)"

definition normalize_press ::
  "('s, 'c) lease_key \<Rightarrow> ('c, 'm) terminal_key \<Rightarrow> ('s, 'c, 'm, 'x, 't) lease_table
   \<Rightarrow> ('c, 'm) terminal_key \<times> ('s, 'c, 'm, 'x, 't) lease_table" where
  "normalize_press lk key leases =
    (if tk_kind key \<noteq> Press \<or> (tk_generated_text key \<noteq> None \<and> \<not> has_physical_identity key) then (key, leases)
     else if has_physical_identity key \<and> leases lk \<noteq> None then (with_kind Repeat key, leases)
     else (key, leases(lk := None)))"

definition complete_press ::
  "('s, 'c) lease_key \<Rightarrow> ('c, 'm) terminal_key \<Rightarrow> 'x option \<Rightarrow> 'x option \<Rightarrow> 't option
   \<Rightarrow> ('s, 'c, 'm, 'x, 't) lease_table \<Rightarrow> ('x, 't) repeat_plan \<times> ('s, 'c, 'm, 'x, 't) lease_table" where
  "complete_press lk key initial_context resulting_context target leases =
    (if tk_generated_text key \<noteq> None \<and> \<not> has_physical_identity key then (PlanIgnore, leases)
     else case target of
       Some t \<Rightarrow> (PlanIgnore, insert_forwarded lk t key leases)
     | None \<Rightarrow>
         let leases' =
           (if leases lk = None
            then insert_consumed lk
                   (case (initial_context, resulting_context) of
                      (Some initial, Some resulting) \<Rightarrow>
                        if initial = resulting then ReprocessRepeats initial else SuppressRepeats
                    | _ \<Rightarrow> SuppressRepeats) leases
            else leases)
         in (case leases' lk of
               Some (Consumed (ReprocessRepeats context)) \<Rightarrow>
                 if tk_repeat_count key > 1
                 then (PlanReprocess context (tk_repeat_count key - 1) True, leases')
                 else (PlanIgnore, leases')
             | _ \<Rightarrow> (PlanIgnore, leases')))"

definition plan_repeat ::
  "('s, 'c) lease_key \<Rightarrow> ('c, 'm) terminal_key \<Rightarrow> 'x option \<Rightarrow> ('s, 'c, 'm, 'x, 't) lease_table
   \<Rightarrow> ('x, 't) repeat_plan \<times> ('s, 'c, 'm, 'x, 't) lease_table" where
  "plan_repeat lk key current_context leases =
    (case leases lk of
       Some (Forwarded lease) \<Rightarrow> (PlanForwarded (fl_target lease), leases)
     | Some (Consumed (ReprocessRepeats context)) \<Rightarrow>
         if current_context = Some context
         then (PlanReprocess context (tk_repeat_count key) True, leases)
         else (PlanIgnore, insert_consumed lk SuppressRepeats leases)
     | Some (Consumed SuppressRepeats) \<Rightarrow> (PlanIgnore, leases)
     | None \<Rightarrow>
         (case current_context of
            Some context \<Rightarrow> (PlanReprocess context (tk_repeat_count key) False, leases)
          | None \<Rightarrow> (PlanIgnore, leases)))"

definition reprocess_allowed ::
  "('s, 'c) lease_key \<Rightarrow> 'x \<Rightarrow> 'x option \<Rightarrow> bool \<Rightarrow> ('s, 'c, 'm, 'x, 't) lease_table
   \<Rightarrow> bool \<times> ('s, 'c, 'm, 'x, 't) lease_table" where
  "reprocess_allowed lk expected_context current_context tracked leases =
    (let allowed = (current_context = Some expected_context)
     in (allowed, if tracked \<and> \<not> allowed then insert_consumed lk SuppressRepeats leases else leases))"

definition remove_forwarded ::
  "('s, 'c) lease_key \<Rightarrow> ('s, 'c, 'm, 'x, 't) lease_table
   \<Rightarrow> ('c, 'm, 't) forwarded_lease option \<times> ('s, 'c, 'm, 'x, 't) lease_table" where
  "remove_forwarded lk leases =
    ((case leases lk of Some (Forwarded lease) \<Rightarrow> Some lease | _ \<Rightarrow> None), leases(lk := None))"

definition remove_lease ::
  "('s, 'c) lease_key \<Rightarrow> ('s, 'c, 'm, 'x, 't) lease_table
   \<Rightarrow> ('c, 'm, 'x, 't) input_lease option \<times> ('s, 'c, 'm, 'x, 't) lease_table" where
  "remove_lease lk leases = (leases lk, leases(lk := None))"

text \<open>Removing a list of keys in turn, collecting the forwarded leases among them.\<close>

fun remove_keys ::
  "('s, 'c) lease_key list \<Rightarrow> ('s, 'c, 'm, 'x, 't) lease_table
   \<Rightarrow> ('c, 'm, 't) forwarded_lease list \<times> ('s, 'c, 'm, 'x, 't) lease_table" where
  "remove_keys [] leases = ([], leases)"
| "remove_keys (k # ks) leases =
     (let (rest, leases') = remove_keys ks (leases(k := None))
      in (case leases k of Some (Forwarded lease) \<Rightarrow> lease # rest | _ \<Rightarrow> rest, leases'))"

text \<open>
  The order in which a \<open>HashMap\<close> lists its keys is not specified: the parameter \<open>iter\<close> is any
  listing of the keys.
\<close>

type_synonym ('s, 'c, 'm, 'x, 't) key_iter = "('s, 'c, 'm, 'x, 't) lease_table \<Rightarrow> ('s, 'c) lease_key list"

definition remove_source ::
  "('s, 'c, 'm, 'x, 't) key_iter \<Rightarrow> 's \<Rightarrow> ('s, 'c, 'm, 'x, 't) lease_table
   \<Rightarrow> ('c, 'm, 't) forwarded_lease list \<times> ('s, 'c, 'm, 'x, 't) lease_table" where
  "remove_source iter source leases =
     remove_keys (filter (\<lambda>k. lk_source k = source) (iter leases)) leases"

definition forwarded_to :: "'t \<Rightarrow> ('c, 'm, 'x, 't) input_lease option \<Rightarrow> bool" where
  "forwarded_to target lease =
     (case lease of Some (Forwarded l) \<Rightarrow> fl_target l = target | _ \<Rightarrow> False)"

definition remove_target ::
  "('s, 'c, 'm, 'x, 't) key_iter \<Rightarrow> 't \<Rightarrow> ('s, 'c, 'm, 'x, 't) lease_table
   \<Rightarrow> ('c, 'm, 't) forwarded_lease list \<times> ('s, 'c, 'm, 'x, 't) lease_table" where
  "remove_target iter target leases =
     remove_keys (filter (\<lambda>k. forwarded_to target (leases k)) (iter leases)) leases"

section \<open>Removal\<close>

lemma remove_keys_table: "snd (remove_keys ks leases) = (\<lambda>k. if k \<in> set ks then None else leases k)"
  by (induction ks arbitrary: leases) (auto simp: case_prod_beta fun_eq_iff)

lemma remove_keys_leases:
  "distinct ks \<Longrightarrow> fst (remove_keys ks leases) =
     List.map_filter (\<lambda>k. case leases k of Some (Forwarded l) \<Rightarrow> Some l | _ \<Rightarrow> None) ks"
proof (induction ks arbitrary: leases)
  case (Cons k ks)
  then have "List.map_filter (\<lambda>j. case (leases(k := None)) j of Some (Forwarded l) \<Rightarrow> Some l | _ \<Rightarrow> None) ks
      = List.map_filter (\<lambda>j. case leases j of Some (Forwarded l) \<Rightarrow> Some l | _ \<Rightarrow> None) ks"
    unfolding List.map_filter_def
    by (intro arg_cong2 [where f = "\<lambda>f xs. map f xs"] ext filter_cong map_cong) auto
  with Cons show ?case
    by (simp add: case_prod_beta map_filter_simps split: option.splits input_lease.splits)
qed (simp add: map_filter_simps)

text \<open>
  When a target (a pane) goes away, exactly the leases forwarded to it are taken out of the
  table and returned, each once, and every other lease stays as it was.
\<close>

theorem remove_target_exact:
  assumes "distinct (iter leases)" "set (iter leases) = dom leases"
    and "remove_target iter target leases = (gone, leases')"
  shows "leases' = (\<lambda>k. if forwarded_to target (leases k) then None else leases k)
    \<and> set gone = {l. \<exists>k. leases k = Some (Forwarded l) \<and> fl_target l = target}
    \<and> length gone = card {k. forwarded_to target (leases k)}"
proof -
  let ?ks = "filter (\<lambda>k. forwarded_to target (leases k)) (iter leases)"
  let ?f = "\<lambda>k. case leases k of Some (Forwarded l) \<Rightarrow> Some l | _ \<Rightarrow> None"
  have it: "distinct (iter leases)" "set (iter leases) = dom leases"
    using assms(1,2) by simp_all
  have ks: "set ?ks = {k. forwarded_to target (leases k)}"
    using it(2) by (auto simp: forwarded_to_def split: option.splits)
  have d: "distinct ?ks" using it(1) by simp
  have gone: "gone = List.map_filter ?f ?ks" and l': "leases' = snd (remove_keys ?ks leases)"
    using assms(3) remove_keys_leases [OF d, of leases] by (simp_all add: remove_target_def)
  have some: "?f k \<noteq> None" if "k \<in> set ?ks" for k
    using that by (auto simp: forwarded_to_def split: option.splits input_lease.splits)
  then have "filter (\<lambda>k. ?f k \<noteq> None) ?ks = ?ks" by (intro filter_True) blast
  then have "gone = map (\<lambda>k. the (?f k)) ?ks" unfolding gone List.map_filter_def comp_def by (simp only:)
  then have "length gone = card {k. forwarded_to target (leases k)}"
    using distinct_card [OF d] ks by simp
  moreover have "set gone = {l. \<exists>k. leases k = Some (Forwarded l) \<and> fl_target l = target}"
    unfolding \<open>gone = map (\<lambda>k. the (?f k)) ?ks\<close> set_map ks
    by (force simp: forwarded_to_def split: option.splits input_lease.splits)
  moreover have "leases' = (\<lambda>k. if forwarded_to target (leases k) then None else leases k)"
    unfolding l' remove_keys_table ks by simp
  ultimately show ?thesis by blast
qed

section \<open>Sequences of operations\<close>

datatype ('s, 'c, 'm, 'x, 't) lease_op =
    OpNormalize "('s, 'c) lease_key" "('c, 'm) terminal_key"
  | OpComplete "('s, 'c) lease_key" "('c, 'm) terminal_key" "'x option" "'x option" "'t option"
  | OpRepeat "('s, 'c) lease_key" "('c, 'm) terminal_key" "'x option"
  | OpReprocess "('s, 'c) lease_key" 'x "'x option" bool
  | OpRelease "('s, 'c) lease_key"
  | OpRemove "('s, 'c) lease_key"
  | OpRemoveSource 's
  | OpRemoveTarget 't

fun lease_step ::
  "('s, 'c, 'm, 'x, 't) key_iter \<Rightarrow> ('s, 'c, 'm, 'x, 't) lease_table \<Rightarrow> ('s, 'c, 'm, 'x, 't) lease_op
   \<Rightarrow> ('s, 'c, 'm, 'x, 't) lease_table" where
  "lease_step iter m (OpNormalize lk key) = snd (normalize_press lk key m)"
| "lease_step iter m (OpComplete lk key i r t) = snd (complete_press lk key i r t m)"
| "lease_step iter m (OpRepeat lk key c) = snd (plan_repeat lk key c m)"
| "lease_step iter m (OpReprocess lk e c t) = snd (reprocess_allowed lk e c t m)"
| "lease_step iter m (OpRelease lk) = snd (remove_forwarded lk m)"
| "lease_step iter m (OpRemove lk) = snd (remove_lease lk m)"
| "lease_step iter m (OpRemoveSource s) = snd (remove_source iter s m)"
| "lease_step iter m (OpRemoveTarget t) = snd (remove_target iter t m)"

text \<open>The operations that may not happen while the lease of \<open>lk\<close> is held by the press of \<open>key\<close>.\<close>

fun keeps_lease ::
  "('s, 'c) lease_key \<Rightarrow> 't option \<Rightarrow> ('s, 'c, 'm, 'x, 't) lease_op \<Rightarrow> bool" where
  "keeps_lease lk target (OpNormalize k key) = (k \<noteq> lk \<or> has_physical_identity key \<or> tk_kind key \<noteq> Press)"
| "keeps_lease lk target (OpComplete k key i r t) = (k \<noteq> lk \<or> t = None)"
| "keeps_lease lk target (OpRepeat k key c) = True"
| "keeps_lease lk target (OpReprocess k e c t) = (k \<noteq> lk \<or> target = None)"
| "keeps_lease lk target (OpRelease k) = (k \<noteq> lk)"
| "keeps_lease lk target (OpRemove k) = (k \<noteq> lk)"
| "keeps_lease lk target (OpRemoveSource s) = (lk_source lk \<noteq> s)"
| "keeps_lease lk target (OpRemoveTarget t) = (target \<noteq> Some t)"

lemma lease_step_other:
  "finite (dom m) \<Longrightarrow> finite (dom (lease_step iter m e))"
proof (cases e)
  case (OpRemoveSource s)
  assume "finite (dom m)"
  with OpRemoveSource show ?thesis
    by (auto simp: remove_source_def remove_keys_table elim!: finite_subset [rotated] split: if_splits)
next
  case (OpRemoveTarget t)
  assume "finite (dom m)"
  with OpRemoveTarget show ?thesis
    by (auto simp: remove_target_def remove_keys_table elim!: finite_subset [rotated] split: if_splits)
qed (auto simp: normalize_press_def complete_press_def plan_repeat_def reprocess_allowed_def
      remove_forwarded_def remove_lease_def insert_forwarded_def insert_consumed_def Let_def
      split: option.splits input_lease.splits consumed_lease.splits)

definition holds_forwarded ::
  "('s, 'c) lease_key \<Rightarrow> ('c, 'm, 't) forwarded_lease \<Rightarrow> ('s, 'c, 'm, 'x, 't) lease_table \<Rightarrow> bool" where
  "holds_forwarded lk l m \<longleftrightarrow> finite (dom m) \<and> m lk = Some (Forwarded l)"

definition suppresses :: "('s, 'c) lease_key \<Rightarrow> ('s, 'c, 'm, 'x, 't) lease_table \<Rightarrow> bool" where
  "suppresses lk m \<longleftrightarrow> finite (dom m) \<and> m lk = Some (Consumed SuppressRepeats)"

lemma lease_step_forwarded:
  assumes "holds_forwarded lk l m" "keeps_lease lk (Some (fl_target l)) e"
  shows "holds_forwarded lk l (lease_step iter m e)"
proof -
  have m: "finite (dom m)" "m lk = Some (Forwarded l)" using assms(1) by (simp_all add: holds_forwarded_def)
  have "lease_step iter m e lk = Some (Forwarded l)"
    using assms(2) m
    by (cases e) (auto simp: normalize_press_def complete_press_def plan_repeat_def reprocess_allowed_def
      remove_forwarded_def remove_lease_def insert_forwarded_def insert_consumed_def Let_def
      remove_source_def remove_target_def remove_keys_table forwarded_to_def
      split: option.splits input_lease.splits consumed_lease.splits)
  with lease_step_other [OF m(1)] show ?thesis by (simp add: holds_forwarded_def)
qed

lemma lease_step_suppresses:
  assumes "suppresses lk m" "keeps_lease lk None e"
  shows "suppresses lk (lease_step iter m e)"
proof -
  have m: "finite (dom m)" "m lk = Some (Consumed SuppressRepeats)" using assms(1) by (simp_all add: suppresses_def)
  have "lease_step iter m e lk = Some (Consumed SuppressRepeats)"
    using assms(2) m
    by (cases e) (auto simp: normalize_press_def complete_press_def plan_repeat_def reprocess_allowed_def
      remove_forwarded_def remove_lease_def insert_forwarded_def insert_consumed_def Let_def
      remove_source_def remove_target_def remove_keys_table forwarded_to_def
      split: option.splits input_lease.splits consumed_lease.splits)
  with lease_step_other [OF m(1)] show ?thesis by (simp add: suppresses_def)
qed

interpretation forwarded_leases: machine "lease_step iter" "\<lambda>_. keeps_lease lk (Some (fl_target l))"
    "holds_forwarded lk l" for iter lk l
  by unfold_locales (rule lease_step_forwarded)

interpretation suppressed_leases: machine "lease_step iter" "\<lambda>_. keeps_lease lk None" "suppresses lk" for iter lk
  by unfold_locales (rule lease_step_suppresses)

text \<open>
  A press forwarded to a target owns its key until it is released: whatever happens to other
  keys, sources and targets in between, in any order, every repeat goes to that target, and the
  release finds the target together with the key event that was pressed.
\<close>

theorem forwarded_press_routes:
  assumes "finite (dom m)" "tk_generated_text key = None \<or> has_physical_identity key"
    and "complete_press lk key i r (Some target) m = (plan, m')"
    and "list_all (keeps_lease lk (Some target)) es"
  shows "plan_repeat lk again c (foldl (lease_step iter) m' (take n es))
      = (PlanForwarded target, foldl (lease_step iter) m' (take n es))
    \<and> fst (remove_forwarded lk (foldl (lease_step iter) m' es)) = Some \<lparr>fl_target = target, fl_key = key\<rparr>"
proof -
  let ?l = "\<lparr>fl_target = target, fl_key = key\<rparr>"
  have "m' = insert_forwarded lk target key m" using assms(2,3) by (auto simp: complete_press_def)
  with assms(1) have inv: "holds_forwarded lk ?l m'"
    by (simp add: holds_forwarded_def insert_forwarded_def)
  have ok: "ok_run (lease_step iter) (\<lambda>_. keeps_lease lk (Some (fl_target ?l))) m' es"
    using assms(4) by simp
  have "holds_forwarded lk ?l (foldl (lease_step iter) m' (take n es))"
    by (rule forwarded_leases.run_inv_at [OF inv ok])
  moreover have "holds_forwarded lk ?l (foldl (lease_step iter) m' es)"
    by (rule forwarded_leases.run_inv [OF inv ok])
  ultimately show ?thesis by (simp add: holds_forwarded_def plan_repeat_def remove_forwarded_def)
qed

text \<open>
  C27: once the context in which a key was consumed has changed, the repeats of that key are ignored
  in every later context, also in the original one, until the key is pressed anew or let go.
\<close>

theorem context_change_suppresses:
  assumes "finite (dom m)" "m lk = Some (Consumed (ReprocessRepeats context))" "c \<noteq> Some context"
    and "plan_repeat lk key c m = (plan, m')" "list_all (keeps_lease lk None) es"
  shows "plan = PlanIgnore \<and> fst (plan_repeat lk again c' (foldl (lease_step iter) m' es)) = PlanIgnore"
proof -
  have "plan = PlanIgnore" "m' = insert_consumed lk SuppressRepeats m"
    using assms(2-4) by (simp_all add: plan_repeat_def)
  moreover from this(2) assms(1) have inv: "suppresses lk m'"
    by (simp add: suppresses_def insert_consumed_def)
  moreover have "ok_run (lease_step iter) (\<lambda>_. keeps_lease lk None) m' es" using assms(5) by simp
  ultimately show ?thesis
    using suppressed_leases.run_inv [OF inv] by (simp add: suppresses_def plan_repeat_def)
qed

section \<open>Witnesses\<close>

definition demo_key :: "nat \<Rightarrow> (nat, nat) terminal_key" where
  "demo_key code = key_new code 0"

definition demo_lease_key :: "nat \<Rightarrow> (nat, nat) lease_key" where
  "demo_lease_key code = lease_key_new 0 (demo_key code)"

lemma demo_lease_key_eq [simp]: "demo_lease_key a = demo_lease_key b \<longleftrightarrow> a = b"
  by (simp add: demo_lease_key_def lease_key_new_def demo_key_def key_new_def key_identity_def)

text \<open>A listing of the keys of a table that holds at most the leases of one key.\<close>

definition demo_iter :: "(nat, nat, nat, nat, nat) key_iter" where
  "demo_iter m = filter (\<lambda>k. m k \<noteq> None) [demo_lease_key 1]"

definition demo_leases :: "(nat, nat, nat, nat, nat) lease_table" where
  "demo_leases = [demo_lease_key 1 \<mapsto> Forwarded \<lparr>fl_target = 9, fl_key = demo_key 1\<rparr>]"

definition demo_consumed :: "(nat, nat, nat, nat, nat) lease_table" where
  "demo_consumed = [demo_lease_key 1 \<mapsto> Consumed (ReprocessRepeats 5)]"

theorem remove_target_exact_witness:
  "\<exists>gone leases'. remove_target demo_iter 9 demo_leases = (gone, leases')
     \<and> leases' (demo_lease_key 1) = None \<and> set gone = {\<lparr>fl_target = 9, fl_key = demo_key 1\<rparr>}"
proof -
  obtain gone leases' where r: "remove_target demo_iter 9 demo_leases = (gone, leases')"
    by (cases "remove_target demo_iter 9 demo_leases")
  have "distinct (demo_iter demo_leases)" "set (demo_iter demo_leases) = dom demo_leases"
    by (auto simp: demo_iter_def demo_leases_def)
  note e = remove_target_exact [OF this r]
  have "leases' = (\<lambda>k. if forwarded_to 9 (demo_leases k) then None else demo_leases k)" by (rule conjunct1 [OF e])
  then have "leases' (demo_lease_key 1) = None" by (simp add: demo_leases_def forwarded_to_def)
  moreover have "set gone = {\<lparr>fl_target = 9, fl_key = demo_key 1\<rparr>}"
  proof -
    have "demo_leases k = Some (Forwarded l) \<longleftrightarrow> k = demo_lease_key 1 \<and> l = \<lparr>fl_target = 9, fl_key = demo_key 1\<rparr>"
      for k l by (simp add: demo_leases_def eq_commute)
    then have "{l. \<exists>k. demo_leases k = Some (Forwarded l) \<and> fl_target l = 9} = {\<lparr>fl_target = 9, fl_key = demo_key 1\<rparr>}"
      by (simp add: conj_commute cong: conj_cong)
    then show ?thesis by (simp only: conjunct1 [OF conjunct2 [OF e]])
  qed
  ultimately show ?thesis using r by blast
qed

theorem forwarded_press_routes_witness:
  "\<exists>plan m'. complete_press (demo_lease_key 1) (demo_key 1) None None (Some 7) demo_consumed = (plan, m')
     \<and> plan_repeat (demo_lease_key 1) (demo_key 1) None
         (foldl (lease_step demo_iter) m' (take 1 [OpRelease (demo_lease_key 2), OpRemoveTarget 8]))
       = (PlanForwarded 7,
          foldl (lease_step demo_iter) m' (take 1 [OpRelease (demo_lease_key 2), OpRemoveTarget 8]))"
proof -
  obtain plan m' where c:
    "complete_press (demo_lease_key 1) (demo_key 1) None None (Some 7) demo_consumed = (plan, m')"
    by (cases "complete_press (demo_lease_key 1) (demo_key 1) None None (Some 7) demo_consumed")
  have "finite (dom demo_consumed)" by (simp add: demo_consumed_def)
  moreover have "tk_generated_text (demo_key 1) = None" by (simp add: demo_key_def key_new_def)
  moreover have "list_all (keeps_lease (demo_lease_key 1) (Some (7 :: nat)))
      [OpRelease (demo_lease_key 2), OpRemoveTarget 8]" by simp
  ultimately show ?thesis using forwarded_press_routes [OF _ _ c] c by blast
qed

theorem context_change_suppresses_witness:
  "\<exists>m'. plan_repeat (demo_lease_key 1) (demo_key 1) (Some 6) demo_consumed = (PlanIgnore, m')
     \<and> fst (plan_repeat (demo_lease_key 1) (demo_key 1) (Some 5)
          (foldl (lease_step demo_iter) m' [OpRelease (demo_lease_key 2)])) = PlanIgnore"
proof -
  obtain plan m' where c: "plan_repeat (demo_lease_key 1) (demo_key 1) (Some 6) demo_consumed = (plan, m')"
    by (cases "plan_repeat (demo_lease_key 1) (demo_key 1) (Some 6) demo_consumed")
  have "finite (dom demo_consumed)" "demo_consumed (demo_lease_key 1) = Some (Consumed (ReprocessRepeats 5))"
    by (simp_all add: demo_consumed_def)
  moreover have "list_all (keeps_lease (demo_lease_key 1) None) [OpRelease (demo_lease_key 2)]" by simp
  moreover have "Some 6 \<noteq> Some (5 :: nat)" by simp
  ultimately show ?thesis using context_change_suppresses [OF _ _ _ c] c by blast
qed

end
