(* ===== verification/Keys.thy ===== *)
theory Keys
  imports InputLease
begin

text \<open>
  Keys (\<open>input/model.rs\<close>): crossterm's key codes and modifiers, as far as the code names them, the builders of a key
  event that depend on them, and the keyboard protocol of a pane. A set of modifiers is crossterm's set of flags.
\<close>

section \<open>Key codes\<close>

datatype media_key =
    Play | MediaPause | PlayPause | Reverse | Stop | FastForward | Rewind | TrackNext | TrackPrevious | Record
  | LowerVolume | RaiseVolume | MuteVolume

datatype modifier_key =
    LeftShift | LeftControl | LeftAlt | LeftSuper | LeftHyper | LeftMeta
  | RightShift | RightControl | RightAlt | RightSuper | RightHyper | RightMeta | IsoLevel3Shift | IsoLevel5Shift

datatype key_code =
    Backspace | Enter | Left | Right | Up | Down | Home | End | PageUp | PageDown | Tab | BackTab | Delete | Insert
  | FKey u8 | KChar nat | Null | Esc | CapsLock | ScrollLock | NumLock | PrintScreen | Pause | Menu | KeypadBegin
  | Media media_key | ModifierKey modifier_key

datatype modifier = SHIFT | CONTROL | ALT | SUPER | HYPER | META

type_synonym key_modifiers = "modifier set"

type_synonym key = "(key_code, key_modifiers) terminal_key"

definition is_char :: "key_code \<Rightarrow> bool" where
  "is_char code \<longleftrightarrow> (case code of KChar _ \<Rightarrow> True | _ \<Rightarrow> False)"

section \<open>Characters\<close>

text \<open>\<open>char::from_u32\<close>: a scalar value is no surrogate and at most 0x10FFFF.\<close>

definition char_from_u32 :: "nat \<Rightarrow> nat option" where
  "char_from_u32 c = (if c < 0xD800 \<or> (0xE000 \<le> c \<and> c \<le> 0x10FFFF) then Some c else None)"

section \<open>Builders\<close>

definition with_modifiers :: "key_modifiers \<Rightarrow> key \<Rightarrow> key" where
  "with_modifiers modifiers k = k\<lparr>tk_modifiers := modifiers\<rparr>"

definition with_shifted_codepoint :: "u32 \<Rightarrow> key \<Rightarrow> key" where
  "with_shifted_codepoint c k = k\<lparr>tk_shifted_codepoint := Some c\<rparr>"

definition with_vt_bytes :: "nat list \<Rightarrow> key \<Rightarrow> key" where
  "with_vt_bytes bytes k = k\<lparr>tk_source := Vt (map of_nat bytes)\<rparr>"

definition with_physical_identity_hint :: "bool \<Rightarrow> key \<Rightarrow> key" where
  "with_physical_identity_hint physical k = k\<lparr>tk_physical_identity_hint := physical\<rparr>"

definition with_windows_composition_hint :: "windows_key_record option \<Rightarrow> key \<Rightarrow> key" where
  "with_windows_composition_hint record k =
     k\<lparr>tk_windows_dead_key :=
         (is_char (tk_code k) \<and> tk_modifiers k - {SHIFT} = {}
          \<and> (case record of None \<Rightarrow> False | Some r \<Rightarrow> wr_unicode r = 0))\<rparr>"

definition with_windows_record :: "windows_key_record \<Rightarrow> key \<Rightarrow> key" where
  "with_windows_record record k =
    (let k1 = with_windows_composition_hint (Some record) k;
         k2 = k1\<lparr>tk_repeat_count := (if tk_kind k1 = Release then 1 else max (wr_repeat_count record) 1)\<rparr>;
         physical_key = record_physical_key_id record
     in k2\<lparr>tk_physical_identity_hint := (physical_key \<noteq> None), tk_source := WindowsConsole record physical_key\<rparr>)"

definition windows_record :: "key \<Rightarrow> windows_key_record option" where
  "windows_record k = (case tk_source k of WindowsConsole record _ \<Rightarrow> Some record | _ \<Rightarrow> None)"

definition vt_bytes :: "key \<Rightarrow> u8 list option" where
  "vt_bytes k = (case tk_source k of Vt bytes \<Rightarrow> Some bytes | _ \<Rightarrow> None)"

text \<open>\<open>is_uppercase\<close> is \<open>char::is_uppercase\<close>, on all of Unicode.\<close>

definition with_text_commit :: "(nat \<Rightarrow> bool) \<Rightarrow> key \<Rightarrow> key" where
  "with_text_commit is_uppercase k =
    (let has_text_only_modifiers =
           (case tk_code k of
              KChar ch \<Rightarrow>
                if is_uppercase ch then tk_modifiers k = {SHIFT} \<or> tk_modifiers k = {} else tk_modifiers k = {}
            | _ \<Rightarrow> False)
     in if has_text_only_modifiers \<and> tk_kind k = Press
        then k\<lparr>tk_generated_text := (case tk_code k of KChar ch \<Rightarrow> Some [ch] | _ \<Rightarrow> None)\<rparr>
        else k)"

section \<open>Keyboard protocols\<close>

datatype modify_other_keys_mode = Mode1 | Mode2

definition mok_set_sequence :: "modify_other_keys_mode \<Rightarrow> nat list" where
  "mok_set_sequence mode =
    (case mode of Mode1 \<Rightarrow> 27 # lit ''[>4;1m'' | Mode2 \<Rightarrow> 27 # lit ''[>4;2m'')"

definition host_modify_other_keys_mode_for_env ::
  "bool \<Rightarrow> str option \<Rightarrow> bool \<Rightarrow> bool \<Rightarrow> modify_other_keys_mode option" where
  "host_modify_other_keys_mode_for_env in_tmux term_program wezterm_pane alacritty_window_id =
    (if in_tmux then Some Mode2
     else if wezterm_pane \<or> alacritty_window_id
             \<or> (case term_program of None \<Rightarrow> False | Some program \<Rightarrow> eq_ignore_ascii_case program (lit ''wezterm''))
     then Some Mode1
     else None)"

datatype keyboard_protocol = Legacy | Kitty u16

definition from_kitty_flags :: "u16 \<Rightarrow> keyboard_protocol" where
  "from_kitty_flags flags = (if flags = 0 then Legacy else Kitty flags)"

definition KITTY_FLAG_REPORT_EVENT_TYPES :: u16 where "KITTY_FLAG_REPORT_EVENT_TYPES = 2"
definition KITTY_FLAG_REPORT_ALTERNATE_KEYS :: u16 where "KITTY_FLAG_REPORT_ALTERNATE_KEYS = 4"
definition KITTY_FLAG_REPORT_ALL_KEYS :: u16 where "KITTY_FLAG_REPORT_ALL_KEYS = 8"
definition KITTY_FLAG_REPORT_ASSOCIATED_TEXT :: u16 where "KITTY_FLAG_REPORT_ASSOCIATED_TEXT = 16"

definition has_flag :: "u16 \<Rightarrow> u16 \<Rightarrow> bool" where
  "has_flag flags flag \<longleftrightarrow> and flags flag \<noteq> 0"

definition reports_event_types :: "keyboard_protocol \<Rightarrow> bool" where
  "reports_event_types p \<longleftrightarrow> (case p of Legacy \<Rightarrow> False | Kitty flags \<Rightarrow> has_flag flags KITTY_FLAG_REPORT_EVENT_TYPES)"

definition reports_all_keys :: "keyboard_protocol \<Rightarrow> bool" where
  "reports_all_keys p \<longleftrightarrow> (case p of Legacy \<Rightarrow> False | Kitty flags \<Rightarrow> has_flag flags KITTY_FLAG_REPORT_ALL_KEYS)"

end
