(* ===== verification/KeyParse.thy ===== *)
theory KeyParse
  imports Keys
begin

text \<open>
  Keys from the host terminal (\<open>input/parse.rs\<close>): one sequence in the Kitty protocol, in xterm's modifyOtherKeys form or
  in a legacy form. A string is a list of Unicode scalar values.
\<close>

definition key_modifiers_from_u8 :: "u8 \<Rightarrow> key_modifiers" where
  "key_modifiers_from_u8 m =
     (if bit m 0 then {SHIFT} else {}) \<union> (if bit m 1 then {ALT} else {}) \<union> (if bit m 2 then {CONTROL} else {})
     \<union> (if bit m 3 then {SUPER} else {}) \<union> (if bit m 4 then {HYPER} else {}) \<union> (if bit m 5 then {META} else {})"

text \<open>The codepoints of functional keys outside the two ranges of function keys.\<close>

definition functional_keys :: "(nat \<times> key_code) list" where
  "functional_keys =
    [(8, Backspace), (127, Backspace), (9, Tab), (13, Enter), (57414, Enter), (27, Esc),
     (57358, CapsLock), (57359, ScrollLock), (57360, NumLock), (57361, PrintScreen), (57362, Pause), (57363, Menu),
     (57399, KChar 48), (57400, KChar 49), (57401, KChar 50), (57402, KChar 51), (57403, KChar 52),
     (57404, KChar 53), (57405, KChar 54), (57406, KChar 55), (57407, KChar 56), (57408, KChar 57),
     (57409, KChar 46), (57410, KChar 47), (57411, KChar 42), (57412, KChar 45), (57413, KChar 43),
     (57415, KChar 61), (57416, KChar 44),
     (57417, Left), (57418, Right), (57419, Up), (57420, Down), (57421, PageUp), (57422, PageDown),
     (57423, Home), (57424, End), (57425, Insert), (57426, Delete), (57427, KeypadBegin),
     (57428, Media Play), (57429, Media MediaPause), (57430, Media PlayPause), (57431, Media Reverse),
     (57432, Media Stop), (57433, Media FastForward), (57434, Media Rewind), (57435, Media TrackNext),
     (57436, Media TrackPrevious), (57437, Media Record), (57438, Media LowerVolume), (57439, Media RaiseVolume),
     (57440, Media MuteVolume),
     (57441, ModifierKey LeftShift), (57442, ModifierKey LeftControl), (57443, ModifierKey LeftAlt),
     (57444, ModifierKey LeftSuper), (57445, ModifierKey LeftHyper), (57446, ModifierKey LeftMeta),
     (57447, ModifierKey RightShift), (57448, ModifierKey RightControl), (57449, ModifierKey RightAlt),
     (57450, ModifierKey RightSuper), (57451, ModifierKey RightHyper), (57452, ModifierKey RightMeta),
     (57453, ModifierKey IsoLevel3Shift), (57454, ModifierKey IsoLevel5Shift)]"

definition kitty_codepoint_to_keycode :: "nat \<Rightarrow> key_code option" where
  "kitty_codepoint_to_keycode c =
    (if 57364 \<le> c \<and> c \<le> 57375 then Some (FKey (of_nat (c - 57364 + 1)))
     else if 57376 \<le> c \<and> c \<le> 57398 then Some (FKey (of_nat (c - 57376 + 13)))
     else case map_of functional_keys c of
            Some code \<Rightarrow> Some code
          | None \<Rightarrow> map_option KChar (char_from_u32 c))"

definition parse_kitty_event_type :: "str option \<Rightarrow> event_kind option" where
  "parse_kitty_event_type value =
    (let v = (case value of None \<Rightarrow> lit ''1'' | Some v \<Rightarrow> v)
     in if v = lit ''1'' then Some Press else if v = lit ''2'' then Some Repeat
        else if v = lit ''3'' then Some Release else None)"

definition split_modifier_and_event :: "str \<Rightarrow> str \<times> str option" where
  "split_modifier_and_event input =
    (case split_once 58 input of
       Some (modifier, event) \<Rightarrow> if modifier \<noteq> [] then (modifier, Some event) else (input, None)
     | None \<Rightarrow> (input, None))"

text \<open>The loop over the codepoints of associated text.\<close>

fun text_codepoints :: "str list \<Rightarrow> str option" where
  "text_codepoints [] = Some []"
| "text_codepoints (field # parts) =
     (case Option.bind (parse_unsigned 32 field) char_from_u32 of
        None \<Rightarrow> None
      | Some ch \<Rightarrow> if is_control ch then None else map_option ((#) ch) (text_codepoints parts))"

definition parse_kitty_associated_text :: "str \<Rightarrow> str option" where
  "parse_kitty_associated_text value =
    (case text_codepoints (split_on (\<lambda>c. c = 58) value) of
       None \<Rightarrow> None
     | Some txt \<Rightarrow> if txt = [] then None else Some txt)"

definition matching_control_associated_text :: "str \<Rightarrow> key_code \<Rightarrow> bool" where
  "matching_control_associated_text value code \<longleftrightarrow>
     (code = Enter \<and> value = lit ''13'') \<or> (code = Backspace \<and> value = lit ''8'')
     \<or> (code = Tab \<and> value = lit ''9'') \<or> (code = Esc \<and> value = lit ''27'')"

text \<open>\<open>parse::<u8>().ok()?.checked_sub(1)?\<close>: the modifiers of a report are one more than their bits.\<close>

definition parse_modifier :: "str \<Rightarrow> u8 option" where
  "parse_modifier s =
    (case parse_unsigned 8 s of None \<Rightarrow> None | Some n \<Rightarrow> if n = 0 then None else Some (of_nat (n - 1)))"

definition shifted_field :: "str list \<Rightarrow> nat option" where
  "shifted_field parts =
    (case parts of
       [] \<Rightarrow> None
     | field # _ \<Rightarrow> if field = [] then None else parse_unsigned 32 field)"

definition associated_text_of :: "str option \<Rightarrow> key_code \<Rightarrow> str option option" where
  "associated_text_of field code =
    (case field of
       None \<Rightarrow> Some None
     | Some value \<Rightarrow>
         (case parse_kitty_associated_text value of
            Some txt \<Rightarrow> Some (Some txt)
          | None \<Rightarrow> if matching_control_associated_text value code then Some None else None))"

definition reported_modifiers :: "key_code \<Rightarrow> nat \<Rightarrow> nat option \<Rightarrow> u8 \<Rightarrow> key_modifiers" where
  "reported_modifiers code codepoint shifted_codepoint modifier =
    (let modifiers = key_modifiers_from_u8 modifier
     in if is_char code
           \<and> (case shifted_codepoint of None \<Rightarrow> False
              | Some shifted \<Rightarrow> shifted \<noteq> codepoint \<and> char_from_u32 shifted \<noteq> None)
        then insert SHIFT modifiers else modifiers)"

definition parse_kitty_fields :: "str \<Rightarrow> str list \<Rightarrow> key option" where
  "parse_kitty_fields key_part parts =
    (let modifier_part = (case parts of [] \<Rightarrow> lit ''1'' | field # _ \<Rightarrow> if field = [] then lit ''1'' else field);
         associated = (case parts of _ # field # _ \<Rightarrow> Some field | _ \<Rightarrow> None);
         (modifier_text, event_type) = split_modifier_and_event modifier_part;
         key_fields = split_on (\<lambda>c. c = 58) key_part;
         shifted_codepoint = shifted_field (tl key_fields)
     in if 2 < length parts then None
        else Option.bind (parse_modifier modifier_text) (\<lambda>modifier.
             Option.bind (parse_unsigned 32 (hd key_fields)) (\<lambda>codepoint.
             Option.bind (kitty_codepoint_to_keycode codepoint) (\<lambda>code.
             Option.bind (associated_text_of associated code) (\<lambda>associated_text.
             Option.bind (parse_kitty_event_type event_type) (\<lambda>kind.
               let key = with_kind kind (key_new code (reported_modifiers code codepoint shifted_codepoint modifier));
                   key' = (case shifted_codepoint of None \<Rightarrow> key | Some s \<Rightarrow> with_shifted_codepoint (of_nat s) key)
               in Some (with_generated_text associated_text key')))))))"

definition parse_kitty_key_sequence :: "str \<Rightarrow> key option" where
  "parse_kitty_key_sequence data =
    Option.bind (strip_prefix (27 # lit ''['') data) (\<lambda>rest.
    Option.bind (strip_suffix (lit ''u'') rest) (\<lambda>body.
      let parts = split_on (\<lambda>c. c = 59) body in parse_kitty_fields (hd parts) (tl parts)))"

definition parse_modify_other_keys_sequence :: "str \<Rightarrow> key option" where
  "parse_modify_other_keys_sequence data =
    Option.bind (strip_prefix (27 # lit ''[27;'') data) (\<lambda>rest.
    Option.bind (strip_suffix (lit ''~'') rest) (\<lambda>body.
    Option.bind (split_once 59 body) (\<lambda>(modifier_part, codepoint_part).
    Option.bind (parse_modifier modifier_part) (\<lambda>modifier.
    Option.bind (parse_unsigned 32 codepoint_part) (\<lambda>codepoint.
    Option.bind (kitty_codepoint_to_keycode codepoint) (\<lambda>code.
      Some (key_new code (key_modifiers_from_u8 modifier))))))))"

section \<open>Legacy sequences\<close>

definition split_xterm_modifier_and_event :: "str \<Rightarrow> (str \<times> str option) option" where
  "split_xterm_modifier_and_event input =
    (case split_once 59 input of
       Some (modifier_and_event, associated_text) \<Rightarrow>
         (case parse_kitty_associated_text associated_text of
            None \<Rightarrow> None
          | Some _ \<Rightarrow> Some (split_modifier_and_event modifier_and_event))
     | None \<Rightarrow> Some (split_modifier_and_event input))"

definition letter_keys :: "(nat \<times> key_code) list" where
  "letter_keys =
    [(65, Up), (66, Down), (67, Right), (68, Left), (72, Home), (70, End), (80, FKey 1), (81, FKey 2),
     (82, FKey 3), (83, FKey 4)]"

definition tilde_keys :: "(string \<times> key_code) list" where
  "tilde_keys =
    [(''2'', Insert), (''3'', Delete), (''5'', PageUp), (''6'', PageDown), (''11'', FKey 1), (''12'', FKey 2),
     (''13'', FKey 3), (''14'', FKey 4), (''15'', FKey 5), (''17'', FKey 6), (''18'', FKey 7), (''19'', FKey 8),
     (''20'', FKey 9), (''21'', FKey 10), (''23'', FKey 11), (''24'', FKey 12)]"

definition find_lit :: "(string \<times> 'a) list \<Rightarrow> str \<Rightarrow> 'a option" where
  "find_lit table s = map_option snd (find (\<lambda>(name, _). lit name = s) table)"

text \<open>The modifiers, the event type and the key a modified sequence names.\<close>

definition modified_key :: "str \<Rightarrow> key_code option \<Rightarrow> key option" where
  "modified_key input code =
    Option.bind (split_xterm_modifier_and_event input) (\<lambda>(modifier_text, event_type).
    Option.bind (parse_modifier modifier_text) (\<lambda>modifier.
    Option.bind code (\<lambda>code.
    Option.bind (parse_kitty_event_type event_type) (\<lambda>kind.
      Some (with_kind kind (key_new code (key_modifiers_from_u8 modifier)))))))"

definition is_ascii_alphabetic :: "nat \<Rightarrow> bool" where
  "is_ascii_alphabetic c \<longleftrightarrow> is_ascii_uppercase c \<or> is_ascii_lowercase c"

definition parse_tilde_sequence :: "str \<Rightarrow> key option" where
  "parse_tilde_sequence body =
    Option.bind (strip_suffix (lit ''~'') body) (\<lambda>tilde_body.
    Option.bind (split_once 59 tilde_body) (\<lambda>(code_part, modifier_part).
      modified_key modifier_part (find_lit tilde_keys code_part)))"

definition parse_xterm_modified_special_sequence :: "str \<Rightarrow> key option" where
  "parse_xterm_modified_special_sequence data =
    Option.bind (strip_prefix (27 # lit ''['') data) (\<lambda>body.
      case strip_prefix (lit ''1;'') body of
        None \<Rightarrow> parse_tilde_sequence body
      | Some rest \<Rightarrow>
          if rest = [] then None
          else if is_ascii_alphabetic (last rest) then modified_key (butlast rest) (map_of letter_keys (last rest))
          else parse_tilde_sequence body)"

text \<open>The sequences of special keys, after the escape character.\<close>

definition legacy_keys :: "(string \<times> key_code) list" where
  "legacy_keys =
    [(''[A'', Up), (''OA'', Up), (''[B'', Down), (''OB'', Down), (''[C'', Right), (''OC'', Right), (''[D'', Left),
     (''OD'', Left), (''[H'', Home), (''OH'', Home), (''[1~'', Home), (''[7~'', Home), (''[F'', End), (''OF'', End),
     (''[4~'', End), (''[8~'', End), (''[5~'', PageUp), (''[6~'', PageDown), (''[2~'', Insert), (''[3~'', Delete),
     (''Op'', KChar 48), (''Oq'', KChar 49), (''Or'', KChar 50), (''Os'', KChar 51), (''Ot'', KChar 52),
     (''Ou'', KChar 53), (''Ov'', KChar 54), (''Ow'', KChar 55), (''Ox'', KChar 56), (''Oy'', KChar 57),
     (''On'', KChar 46), (''Ol'', KChar 44), (''Om'', KChar 45), (''Ok'', KChar 43), (''Oj'', KChar 42),
     (''Oo'', KChar 47), (''OM'', Enter), (''OP'', FKey 1), (''[11~'', FKey 1), (''OQ'', FKey 2), (''[12~'', FKey 2),
     (''OR'', FKey 3), (''[13~'', FKey 3), (''OS'', FKey 4), (''[14~'', FKey 4), (''[15~'', FKey 5),
     (''[17~'', FKey 6), (''[18~'', FKey 7), (''[19~'', FKey 8), (''[20~'', FKey 9), (''[21~'', FKey 10),
     (''[23~'', FKey 11), (''[24~'', FKey 12)]"

definition alt_arrows :: "(string \<times> key_code) list" where
  "alt_arrows = [(''[A'', Up), (''[B'', Down), (''[C'', Right), (''[D'', Left)]"

definition legacy_special :: "str \<Rightarrow> key option" where
  "legacy_special data =
    (case data of
       c # rest \<Rightarrow>
         if c \<noteq> 27 then None
         else (case (case rest of d # rest' \<Rightarrow> if d = 27 then find_lit alt_arrows rest' else None | [] \<Rightarrow> None) of
                 Some code \<Rightarrow> Some (key_new code {ALT})
               | None \<Rightarrow>
                   (case find_lit legacy_keys rest of
                      Some code \<Rightarrow> Some (key_new code {})
                    | None \<Rightarrow> if rest = lit ''[Z'' then Some (key_new BackTab {SHIFT}) else None))
     | [] \<Rightarrow> None)"

definition parse_legacy_special_sequence :: "str \<Rightarrow> key option" where
  "parse_legacy_special_sequence data =
     or_else (legacy_special data) (parse_xterm_modified_special_sequence data)"

definition parse_legacy_ctrl_char :: "nat \<Rightarrow> key option" where
  "parse_legacy_ctrl_char ch =
    (if ch = 0 then Some (key_new (KChar 32) {CONTROL})
     else if ch \<le> 26 then map_option (\<lambda>c. key_new (KChar c) {CONTROL}) (char_from_u32 (ch + 96))
     else if ch = 27 then Some (key_new (KChar 91) {CONTROL})
     else if ch = 28 then Some (key_new (KChar 92) {CONTROL})
     else if ch = 29 then Some (key_new (KChar 93) {CONTROL})
     else if ch = 30 then Some (key_new (KChar 94) {CONTROL})
     else if ch = 31 then Some (key_new (KChar 95) {CONTROL})
     else None)"

text \<open>
  The arms of the match are tried in order; the escape prefix of an Alt key is taken off once, since what is left
  is a single character.
\<close>

definition legacy_single :: "nat \<Rightarrow> key" where
  "legacy_single ch =
    (case parse_legacy_ctrl_char ch of
       Some ctrl_key \<Rightarrow> ctrl_key
     | None \<Rightarrow> key_new (KChar ch) (if is_ascii_uppercase ch then {SHIFT} else {}))"

fun parse_legacy_key_sequence :: "str \<Rightarrow> key option" where
  "parse_legacy_key_sequence data =
    (case parse_legacy_special_sequence data of
       Some key \<Rightarrow> Some key
     | None \<Rightarrow>
         if data = [13] then Some (key_new Enter {})
         else if data = [9] then Some (key_new Tab {})
         else if data = [27] then Some (key_new Esc {})
         else if data = [27, 127] then Some (key_new Backspace {ALT})
         else if data = [127] then Some (key_new Backspace {})
         else case data of
                [] \<Rightarrow> None
              | c # rest \<Rightarrow>
                  if c = 27
                  then (if length rest = 1
                        then map_option (\<lambda>key. key\<lparr>tk_modifiers := insert ALT (tk_modifiers key)\<rparr>)
                               (parse_legacy_key_sequence rest)
                        else None)
                  else if rest = [] then Some (legacy_single c) else None)"

declare parse_legacy_key_sequence.simps [simp del]

definition parse_terminal_key_sequence :: "str \<Rightarrow> key option" where
  "parse_terminal_key_sequence data =
     or_else (parse_kitty_key_sequence data)
       (or_else (parse_modify_other_keys_sequence data) (parse_legacy_key_sequence data))"

end
