(* ===== verification/KeyEncode.thy ===== *)
theory KeyEncode
  imports Keys
begin

text \<open>
  Keys and mouse events for the program in a pane (\<open>input/encode.rs\<close>), in the protocol it has asked for. Bytes are
  numbers below 256. The values of the modifiers, at most 64, are natural numbers.
\<close>

section \<open>The Kitty protocol\<close>

definition xterm_modifier :: "key_modifiers \<Rightarrow> nat" where
  "xterm_modifier mods =
     1 + (if SHIFT \<in> mods then 1 else 0) + (if ALT \<in> mods then 2 else 0) + (if CONTROL \<in> mods then 4 else 0)"

definition kitty_modifier :: "key_modifiers \<Rightarrow> nat" where
  "kitty_modifier mods =
     xterm_modifier mods + (if SUPER \<in> mods then 8 else 0) + (if HYPER \<in> mods then 16 else 0)
     + (if META \<in> mods then 32 else 0)"

definition is_shifted_ascii_punctuation :: "nat \<Rightarrow> bool" where
  "is_shifted_ascii_punctuation ch \<longleftrightarrow>
     ch \<in> {33, 64, 35, 36, 37, 94, 38, 42, 40, 41, 95, 43, 123, 125, 124, 58, 34, 60, 62, 63, 126}"

definition shifted_text_char :: "key \<Rightarrow> nat \<Rightarrow> nat option" where
  "shifted_text_char key ch =
    (case Option.bind (tk_shifted_codepoint key) (\<lambda>c. char_from_u32 (unat c)) of
       Some shifted \<Rightarrow> Some shifted
     | None \<Rightarrow>
         if is_ascii_uppercase ch then Some ch
         else if is_ascii_lowercase ch then Some (ascii_upper ch)
         else if is_shifted_ascii_punctuation ch then Some ch else None)"

definition text_char_for_key :: "key \<Rightarrow> nat option" where
  "text_char_for_key key =
    (if tk_kind key = Release then None
     else case tk_code key of
            KChar ch \<Rightarrow>
              if tk_modifiers key = {} then Some ch
              else if tk_modifiers key = {SHIFT} then shifted_text_char key ch else None
          | _ \<Rightarrow> None)"

definition text_codepoint_for_key :: "key \<Rightarrow> nat option" where
  "text_codepoint_for_key key =
    (case text_char_for_key key of None \<Rightarrow> None | Some ch \<Rightarrow> if is_control ch then None else Some ch)"

definition canonical_kitty_char :: "nat \<Rightarrow> key_modifiers \<Rightarrow> nat" where
  "canonical_kitty_char ch mods = (if SHIFT \<in> mods \<and> is_ascii_uppercase ch then ascii_lower ch else ch)"

definition alternate_shifted_codepoint :: "key \<Rightarrow> u16 \<Rightarrow> nat option" where
  "alternate_shifted_codepoint key flags =
    (if \<not> has_flag flags KITTY_FLAG_REPORT_ALTERNATE_KEYS then None
     else case tk_shifted_codepoint key of
            Some shifted \<Rightarrow> Some (unat shifted)
          | None \<Rightarrow>
              (case tk_code key of
                 KChar ch \<Rightarrow> if SHIFT \<in> tk_modifiers key \<and> is_ascii_uppercase ch then Some ch else None
               | _ \<Rightarrow> None))"

definition kitty_event_suffix :: "key \<Rightarrow> u16 \<Rightarrow> nat option" where
  "kitty_event_suffix key flags =
    (if \<not> has_flag flags KITTY_FLAG_REPORT_EVENT_TYPES then None
     else Some (case tk_kind key of Press \<Rightarrow> 1 | Repeat \<Rightarrow> 2 | Release \<Rightarrow> 3))"

text \<open>The keys that xterm's sequences express, and the codepoint of a key with its shifted alternate.\<close>

definition has_xterm_sequence :: "key_code \<Rightarrow> bool" where
  "has_xterm_sequence code \<longleftrightarrow>
     code \<in> {Up, Down, Left, Right, Home, End, PageUp, PageDown, Insert, Delete}
     \<or> (case code of FKey _ \<Rightarrow> True | _ \<Rightarrow> False)"

definition csi_u_codepoint :: "key \<Rightarrow> u16 \<Rightarrow> (nat \<times> nat option) option" where
  "csi_u_codepoint key flags =
    (case tk_code key of
       KChar c \<Rightarrow> Some (canonical_kitty_char c (tk_modifiers key), alternate_shifted_codepoint key flags)
     | Enter \<Rightarrow> Some (13, None) | Tab \<Rightarrow> Some (9, None) | Backspace \<Rightarrow> Some (127, None) | Esc \<Rightarrow> Some (27, None)
     | Left \<Rightarrow> Some (57417, None) | Right \<Rightarrow> Some (57418, None) | Up \<Rightarrow> Some (57419, None) | Down \<Rightarrow> Some (57420, None)
     | PageUp \<Rightarrow> Some (57421, None) | PageDown \<Rightarrow> Some (57422, None) | Home \<Rightarrow> Some (57423, None)
     | End \<Rightarrow> Some (57424, None) | Insert \<Rightarrow> Some (57425, None) | Delete \<Rightarrow> Some (57426, None)
     | _ \<Rightarrow> None)"

definition optional_field :: "nat \<Rightarrow> nat option \<Rightarrow> str" where
  "optional_field separator value = (case value of None \<Rightarrow> [] | Some n \<Rightarrow> separator # decimal n)"

definition csi_u_sequence :: "key \<Rightarrow> u16 \<Rightarrow> nat \<Rightarrow> nat option \<Rightarrow> str" where
  "csi_u_sequence key flags codepoint alternate_shifted =
     27 # lit ''['' @ decimal codepoint @ optional_field 58 alternate_shifted
     @ 59 # decimal (kitty_modifier (tk_modifiers key)) @ optional_field 58 (kitty_event_suffix key flags)
     @ (if has_flag flags KITTY_FLAG_REPORT_ASSOCIATED_TEXT then optional_field 59 (text_codepoint_for_key key) else [])
     @ lit ''u''"

definition try_encode_csi_u :: "key \<Rightarrow> u16 \<Rightarrow> nat list option" where
  "try_encode_csi_u key flags =
    (let event_suffix = kitty_event_suffix key flags; report_all_keys = has_flag flags KITTY_FLAG_REPORT_ALL_KEYS
     in if \<not> report_all_keys \<and> tk_modifiers key = {} \<and> tk_code key \<in> {Enter, Tab, Backspace} then None
        else if tk_modifiers key = {} \<and> event_suffix = None \<and> \<not> report_all_keys then None
        else if has_xterm_sequence (tk_code key) \<and> event_suffix = None \<and> \<not> report_all_keys then None
        else case csi_u_codepoint key flags of
               None \<Rightarrow> None
             | Some (codepoint, alternate_shifted) \<Rightarrow>
                 Some (str_bytes (csi_u_sequence key flags codepoint alternate_shifted)))"

section \<open>Legacy sequences\<close>

definition letter_finals :: "(key_code \<times> nat) list" where
  "letter_finals =
    [(Up, 65), (Down, 66), (Right, 67), (Left, 68), (Home, 72), (End, 70), (FKey 1, 80), (FKey 2, 81), (FKey 3, 82),
     (FKey 4, 83)]"

definition tilde_numbers :: "(key_code \<times> nat) list" where
  "tilde_numbers =
    [(Insert, 2), (Delete, 3), (PageUp, 5), (PageDown, 6), (FKey 5, 15), (FKey 6, 17), (FKey 7, 18), (FKey 8, 19),
     (FKey 9, 20), (FKey 10, 21), (FKey 11, 23), (FKey 12, 24)]"

definition encode_modified_special :: "key_code \<Rightarrow> key_modifiers \<Rightarrow> nat list option" where
  "encode_modified_special code mods =
    (let modifier = xterm_modifier mods
     in if modifier \<le> 1 then None
        else case map_of letter_finals code of
               Some final \<Rightarrow> Some (27 # lit ''[1;'' @ decimal modifier @ [final])
             | None \<Rightarrow>
                 (case map_of tilde_numbers code of
                    Some number \<Rightarrow> Some (27 # lit ''['' @ decimal number @ 59 # decimal modifier @ [126])
                  | None \<Rightarrow> None))"

definition encode_f_key :: "u8 \<Rightarrow> nat list" where
  "encode_f_key n =
    (case map_of
       [(1, [27, 79, 80]), (2, [27, 79, 81]), (3, [27, 79, 82]), (4, [27, 79, 83]), (5, [27, 91, 49, 53, 126]),
        (6, [27, 91, 49, 55, 126]), (7, [27, 91, 49, 56, 126]), (8, [27, 91, 49, 57, 126]), (9, [27, 91, 50, 48, 126]),
        (10, [27, 91, 50, 49, 126]), (11, [27, 91, 50, 51, 126]), (12, [27, 91, 50, 52, 126])] n of
       Some bytes \<Rightarrow> bytes | None \<Rightarrow> [])"

definition encode_ctrl_char :: "nat \<Rightarrow> nat list" where
  "encode_ctrl_char ch =
    (let upper = ascii_upper ch
     in if 65 \<le> upper \<and> upper \<le> 90 then [upper - 64]
        else if upper \<in> {32, 64, 50} then [0]
        else if upper \<in> {91, 51} then [27]
        else if upper \<in> {92, 52} then [28]
        else if upper \<in> {93, 53} then [29]
        else if upper \<in> {94, 54} then [30]
        else if upper \<in> {95, 47, 55, 45} then [31]
        else str_bytes [ch])"

definition encode_legacy_inner :: "key \<Rightarrow> nat list" where
  "encode_legacy_inner key =
    (case tk_code key of
       KChar ch \<Rightarrow>
         if CONTROL \<in> tk_modifiers key then encode_ctrl_char ch
         else str_bytes [if tk_modifiers key = {SHIFT}
                         then (case shifted_text_char key ch of Some c \<Rightarrow> c | None \<Rightarrow> ch) else ch]
     | Enter \<Rightarrow> [13] | Backspace \<Rightarrow> [127] | Tab \<Rightarrow> [9] | BackTab \<Rightarrow> [27, 91, 90] | Esc \<Rightarrow> [27]
     | Left \<Rightarrow> [27, 91, 68] | Right \<Rightarrow> [27, 91, 67] | Up \<Rightarrow> [27, 91, 65] | Down \<Rightarrow> [27, 91, 66]
     | Home \<Rightarrow> [27, 91, 72] | End \<Rightarrow> [27, 91, 70] | PageUp \<Rightarrow> [27, 91, 53, 126] | PageDown \<Rightarrow> [27, 91, 54, 126]
     | Delete \<Rightarrow> [27, 91, 51, 126] | Insert \<Rightarrow> [27, 91, 50, 126]
     | FKey n \<Rightarrow> encode_f_key n
     | _ \<Rightarrow> [])"

definition encode_legacy :: "key \<Rightarrow> nat list" where
  "encode_legacy key =
    (let mods = tk_modifiers key
     in case (if mods \<noteq> {} then encode_modified_special (tk_code key) mods else None) of
          Some bytes \<Rightarrow> bytes
        | None \<Rightarrow>
            if ALT \<in> mods then 27 # encode_legacy_inner (with_modifiers (mods - {ALT}) key) else encode_legacy_inner key)"

section \<open>Keys\<close>

definition encode_text_input :: "key \<Rightarrow> nat list option" where
  "encode_text_input key = map_option (\<lambda>ch. str_bytes [ch]) (text_char_for_key key)"

definition super_chord :: "key \<Rightarrow> keyboard_protocol \<Rightarrow> nat list option" where
  "super_chord key protocol =
    (if protocol = Legacy \<and> tk_kind key \<noteq> Release \<and> is_char (tk_code key) \<and> SUPER \<in> tk_modifiers key
     then try_encode_csi_u key 0 else None)"

definition kitty_encoding :: "key \<Rightarrow> keyboard_protocol \<Rightarrow> nat list option" where
  "kitty_encoding key protocol = (case protocol of Kitty flags \<Rightarrow> try_encode_csi_u key flags | Legacy \<Rightarrow> None)"

definition committed_text :: "key \<Rightarrow> keyboard_protocol \<Rightarrow> nat list option" where
  "committed_text key protocol =
    (if \<not> (has_physical_identity key \<and> reports_all_keys protocol) \<and> tk_kind key \<noteq> Release
     then map_option str_bytes (tk_generated_text key) else None)"

definition encode_terminal_key :: "key \<Rightarrow> keyboard_protocol \<Rightarrow> nat list" where
  "encode_terminal_key key protocol =
    (if tk_windows_dead_key key then []
     else case or_else (super_chord key protocol) (committed_text key protocol) of
            Some bytes \<Rightarrow> bytes
          | None \<Rightarrow>
              if tk_kind key = Release \<and> \<not> reports_event_types protocol then []
              else
                let kitty_first = (reports_all_keys protocol \<or> (tk_kind key = Release \<and> reports_event_types protocol))
                in case or_else (if kitty_first then kitty_encoding key protocol else None)
                     (or_else (encode_text_input key) (if kitty_first then None else kitty_encoding key protocol)) of
                     Some bytes \<Rightarrow> bytes
                   | None \<Rightarrow> if tk_kind key = Release \<and> reports_event_types protocol then [] else encode_legacy key)"

definition encode_cursor_key :: "key_code \<Rightarrow> bool \<Rightarrow> nat list" where
  "encode_cursor_key code application_cursor =
    (case map_of [(Up, 65), (Down, 66), (Right, 67), (Left, 68)] code of
       Some final \<Rightarrow> [27, if application_cursor then 79 else 91, final]
     | None \<Rightarrow> encode_legacy (key_new code {}))"

section \<open>Mouse events\<close>

datatype mouse_button = LeftButton | MiddleButton | RightButton

datatype mouse_event_kind =
    MouseDown mouse_button | MouseUp mouse_button | MouseDrag mouse_button | Moved
  | ScrollUp | ScrollDown | ScrollLeft | ScrollRight

datatype mouse_protocol_encoding = DefaultEncoding | Utf8 | Sgr | SgrPixels

definition push_mouse_codepoint :: "nat \<Rightarrow> nat list option" where
  "push_mouse_codepoint value = map_option (\<lambda>ch. str_bytes [ch]) (char_from_u32 value)"

definition u8_try_from :: "nat \<Rightarrow> nat option" where
  "u8_try_from n = (if n < 256 then Some n else None)"

definition encode_mouse_cb ::
  "nat \<Rightarrow> bool \<Rightarrow> u16 \<Rightarrow> u16 \<Rightarrow> key_modifiers \<Rightarrow> mouse_protocol_encoding \<Rightarrow> nat list option" where
  "encode_mouse_cb base_button release column row modifiers encoding =
    (let cb = (if release \<and> encoding \<notin> {Sgr, SgrPixels} then 3 else base_button)
              + (if SHIFT \<in> modifiers then 4 else 0) + (if ALT \<in> modifiers then 8 else 0)
              + (if CONTROL \<in> modifiers then 16 else 0);
         column = unat column + 1; row = unat row + 1
     in if encoding \<in> {Sgr, SgrPixels}
        then Some (27 # lit ''[<'' @ decimal cb @ 59 # decimal column @ 59 # decimal row @ [if release then 109 else 77])
        else if encoding = DefaultEncoding
        then (case (u8_try_from (cb + 32), u8_try_from (column + 32), u8_try_from (row + 32)) of
                (Some cb, Some column, Some row) \<Rightarrow> Some [27, 91, 77, cb, column, row]
              | _ \<Rightarrow> None)
        else (case (push_mouse_codepoint (cb + 32), push_mouse_codepoint (column + 32), push_mouse_codepoint (row + 32)) of
                (Some cb, Some column, Some row) \<Rightarrow> Some (27 # lit ''[M'' @ cb @ column @ row)
              | _ \<Rightarrow> None))"

definition encode_mouse_scroll ::
  "mouse_event_kind \<Rightarrow> u16 \<Rightarrow> u16 \<Rightarrow> key_modifiers \<Rightarrow> mouse_protocol_encoding \<Rightarrow> nat list option" where
  "encode_mouse_scroll kind column row modifiers encoding =
    (case map_of [(ScrollUp, 64), (ScrollDown, 65), (ScrollLeft, 66), (ScrollRight, 67)] kind of
       Some button \<Rightarrow> encode_mouse_cb button False column row modifiers encoding
     | None \<Rightarrow> None)"

definition encode_mouse_button ::
  "mouse_event_kind \<Rightarrow> u16 \<Rightarrow> u16 \<Rightarrow> key_modifiers \<Rightarrow> mouse_protocol_encoding \<Rightarrow> nat list option" where
  "encode_mouse_button kind column row modifiers encoding =
    (case map_of
       [(MouseDown LeftButton, 0, False), (MouseDown MiddleButton, 1, False), (MouseDown RightButton, 2, False),
        (MouseUp LeftButton, 0, True), (MouseUp MiddleButton, 1, True), (MouseUp RightButton, 2, True),
        (MouseDrag LeftButton, 32, False), (MouseDrag MiddleButton, 33, False), (MouseDrag RightButton, 34, False)] kind of
       Some (button, release) \<Rightarrow> encode_mouse_cb button release column row modifiers encoding
     | None \<Rightarrow> None)"

end
