(* ===== verification/KeyRoundTrip.thy ===== *)
theory KeyRoundTrip
  imports KeyParse KeyEncode
begin

text \<open>
  What is written for a key is read back as that key: in the Kitty protocol with all keys and event types reported, and
  for the special keys in the legacy protocol.
\<close>

section \<open>Fields\<close>

lemma decimal_plain:
  "c \<notin> set (decimal n)" if "\<not> is_ascii_digit c"
  using decimal_digits(2) [of c n] that by blast

lemma decimal_no_separator [simp]: "58 \<notin> set (decimal n)" "59 \<notin> set (decimal n)" "77 \<notin> set (decimal n)" "109 \<notin> set (decimal n)"
  by (rule decimal_plain, simp add: is_ascii_digit_def)+

lemma decimal_ne [simp]: "decimal n \<noteq> []"
  by (rule decimal_digits(1))

lemma decimal_ascii: "\<forall>c \<in> set (decimal n). c < 128"
  using decimal_digits(2) [of _ n] by (fastforce simp: is_ascii_digit_def)

lemma decimal_digit: "n < 10 \<Longrightarrow> decimal n = [48 + n]"
  by (subst decimal.simps) simp

lemma decimal_two: "10 \<le> n \<Longrightarrow> n < 100 \<Longrightarrow> decimal n = [48 + n div 10, 48 + n mod 10]"
  by (subst decimal.simps) (simp add: decimal_digit)

lemma split_on_decimal [simp]:
  "split_on (\<lambda>c. c = 58) (decimal n) = [decimal n]" "split_on (\<lambda>c. c = 59) (decimal n) = [decimal n]"
  "split_on (\<lambda>c. c = 58) (decimal n @ 58 # t) = decimal n # split_on (\<lambda>c. c = 58) t"
  "split_on (\<lambda>c. c = 59) (decimal n @ 59 # t) = decimal n # split_on (\<lambda>c. c = 59) t"
  by (subst split_on_none split_on_append; (intro ballI)?; use decimal_no_separator in fastforce)+

lemma split_once_decimal [simp]:
  "split_once 58 (decimal n) = None" "split_once 58 (decimal n @ 58 # t) = Some (decimal n, t)"
  "split_once 59 (decimal n) = None" "split_once 59 (decimal n @ 59 # t) = Some (decimal n, t)"
  by (simp_all add: split_once_none split_once_append)

lemma optional_field_set: "c \<in> set (optional_field s v) \<Longrightarrow> c = s \<or> is_ascii_digit c"
  by (auto simp: optional_field_def dest: decimal_digits(2) split: option.splits)

lemma from_modifiers: "key_modifiers_from_u8 (of_nat (kitty_modifier mods - Suc 0)) = mods"
proof -
  have "(m \<in> key_modifiers_from_u8 (of_nat (kitty_modifier mods - Suc 0))) = (m \<in> mods)" for m
    by (cases m; cases "SHIFT \<in> mods"; cases "ALT \<in> mods"; cases "CONTROL \<in> mods"; cases "SUPER \<in> mods";
        cases "HYPER \<in> mods"; cases "META \<in> mods"; simp add: key_modifiers_from_u8_def kitty_modifier_def xterm_modifier_def)
  then show ?thesis by blast
qed

lemma modifier_bounds: "1 \<le> kitty_modifier mods" "kitty_modifier mods \<le> 64"
  by (simp_all add: kitty_modifier_def xterm_modifier_def)

lemma parse_modifier_decimal [simp]: "1 \<le> n \<Longrightarrow> n < 256 \<Longrightarrow> parse_modifier (decimal n) = Some (of_nat (n - Suc 0))"
  by (simp add: parse_modifier_def parse_decimal)

lemma parse_event_type:
  "parse_kitty_event_type (map_option decimal (kitty_event_suffix key flags)) =
     Some (if has_flag flags KITTY_FLAG_REPORT_EVENT_TYPES then tk_kind key else Press)"
  by (cases "tk_kind key")
    (simp_all add: kitty_event_suffix_def parse_kitty_event_type_def decimal_digit lit_def)

lemma split_event_type:
  "split_modifier_and_event (decimal n @ optional_field 58 e) = (decimal n, map_option decimal e)"
  by (cases e) (simp_all add: split_modifier_and_event_def optional_field_def)

lemma parse_codepoint: "c < 2 ^ 32 \<Longrightarrow> parse_unsigned 32 (decimal c) = Some c"
  by (rule parse_decimal)

lemma scalar_bound: "char_from_u32 c = Some d \<Longrightarrow> d = c \<and> c < 2 ^ 32"
  by (auto simp: char_from_u32_def split: if_splits)

lemma text_field:
  assumes "char_from_u32 c = Some c" and "\<not> is_control c"
  shows "parse_kitty_associated_text (decimal c) = Some [c]"
  using assms scalar_bound [OF assms(1)] by (simp add: parse_kitty_associated_text_def parse_codepoint del: power_numeral)

section \<open>The Kitty protocol\<close>

text \<open>
  A key that a report in the Kitty protocol can stand for: a special key the encoder knows or a character whose
  codepoint is not that of a special key, with a shifted alternate only while Shift is held, and without committed text
  that would be written in its place.
\<close>

definition reportable :: "key \<Rightarrow> bool" where
  "reportable key \<longleftrightarrow>
     \<not> tk_windows_dead_key key \<and> (tk_generated_text key = None \<or> has_physical_identity key)
     \<and> csi_u_codepoint key 0 \<noteq> None
     \<and> (case tk_code key of
          KChar c \<Rightarrow>
            kitty_codepoint_to_keycode (canonical_kitty_char c (tk_modifiers key))
              = Some (KChar (canonical_kitty_char c (tk_modifiers key)))
        | _ \<Rightarrow> True)
     \<and> (tk_shifted_codepoint key = None \<or> SHIFT \<in> tk_modifiers key)"

text \<open>What comes back: the key with the character in lower case, and the fields the protocol reports.\<close>

definition reported_key :: "key \<Rightarrow> u16 \<Rightarrow> key" where
  "reported_key key flags =
    (key_new (case tk_code key of KChar c \<Rightarrow> KChar (canonical_kitty_char c (tk_modifiers key)) | code \<Rightarrow> code)
       (tk_modifiers key))
     \<lparr>tk_kind := tk_kind key,
      tk_shifted_codepoint :=
        map_option of_nat (if is_char (tk_code key) then alternate_shifted_codepoint key flags else None),
      tk_generated_text :=
        map_option (\<lambda>c. [c])
          (if has_flag flags KITTY_FLAG_REPORT_ASSOCIATED_TEXT then text_codepoint_for_key key else None)\<rparr>"

lemma char_codepoint:
  assumes "kitty_codepoint_to_keycode c = Some (KChar d)" and "d = c"
  shows "char_from_u32 c = Some c"
proof (cases "map_of functional_keys c")
  case None
  then show ?thesis using assms by (auto simp: kitty_codepoint_to_keycode_def char_from_u32_def split: if_splits)
next
  case (Some code)
  then have "(c, code) \<in> set functional_keys" by (rule map_of_SomeD)
  then have "code \<noteq> KChar c" by (auto simp: functional_keys_def)
  then show ?thesis using assms Some by (auto simp: kitty_codepoint_to_keycode_def split: if_splits)
qed

lemma codepoint_of_key:
  assumes "csi_u_codepoint key flags = Some (codepoint, alternate)" and "reportable key"
  shows "kitty_codepoint_to_keycode codepoint = Some (tk_code (reported_key key flags)) \<and> codepoint < 2 ^ 32
    \<and> alternate = (if is_char (tk_code key) then alternate_shifted_codepoint key flags else None)"
proof (cases "\<exists>c. tk_code key = KChar c")
  case True
  then obtain c where c: "tk_code key = KChar c" by blast
  let ?c = "canonical_kitty_char c (tk_modifiers key)"
  have k: "kitty_codepoint_to_keycode ?c = Some (KChar ?c)" using assms(2) c by (simp add: reportable_def)
  then have "?c < 2 ^ 32" using scalar_bound [OF char_codepoint] by blast
  then show ?thesis using assms(1) c k by (auto simp: csi_u_codepoint_def reported_key_def key_new_def is_char_def)
next
  case False
  then show ?thesis using assms(1)
    by (cases "tk_code key")
      (auto simp: csi_u_codepoint_def reported_key_def key_new_def is_char_def kitty_codepoint_to_keycode_def functional_keys_def)
qed

lemma codepoint_exists: "reportable key \<Longrightarrow> \<exists>cp alternate. csi_u_codepoint key flags = Some (cp, alternate)"
  by (cases "tk_code key") (auto simp: reportable_def csi_u_codepoint_def)

lemma unat_u32: "unat (w :: u32) < 4294967296"
  using unsigned_less [of w] by simp

lemma alternate_shift:
  "reportable key \<Longrightarrow> alternate_shifted_codepoint key flags = Some a \<Longrightarrow> SHIFT \<in> tk_modifiers key \<and> a < 2 ^ 32"
  using unat_u32 [of "the (tk_shifted_codepoint key)"]
  by (auto simp: alternate_shifted_codepoint_def reportable_def is_ascii_uppercase_def
      split: if_splits option.splits key_code.splits)

lemma shifted_scalar:
  assumes "shifted_text_char key ch = Some c" and "char_from_u32 ch = Some ch"
  shows "char_from_u32 c = Some c"
proof (cases "Option.bind (tk_shifted_codepoint key) (\<lambda>c. char_from_u32 (unat c))")
  case None
  then have "c = ch \<or> (c = ascii_upper ch \<and> is_ascii_lowercase ch)"
    using assms(1) by (simp add: shifted_text_char_def split: if_splits)
  then show ?thesis using assms(2)
    by (auto simp: ascii_upper_def is_ascii_lowercase_def char_from_u32_def split: if_splits)
next
  case (Some d)
  then show ?thesis using assms(1)
    by (cases "tk_shifted_codepoint key") (auto simp: shifted_text_char_def char_from_u32_def split: if_splits)
qed

lemma text_scalar:
  assumes "reportable key" and "text_codepoint_for_key key = Some c"
  shows "char_from_u32 c = Some c \<and> \<not> is_control c \<and> tk_kind key \<noteq> Release"
proof -
  from assms(2) obtain ch where ch: "tk_code key = KChar ch" "tk_kind key \<noteq> Release" "\<not> is_control c"
      "text_char_for_key key = Some c"
    by (auto simp: text_codepoint_for_key_def text_char_for_key_def split: option.splits if_splits key_code.splits)
  let ?c = "canonical_kitty_char ch (tk_modifiers key)"
  have "char_from_u32 ?c = Some ?c" using assms(1) ch(1) by (intro char_codepoint) (auto simp: reportable_def)
  then have "char_from_u32 ch = Some ch"
    by (auto simp: canonical_kitty_char_def char_from_u32_def is_ascii_uppercase_def split: if_splits)
  then have "char_from_u32 c = Some c"
    using ch shifted_scalar [of key ch c] by (simp add: text_char_for_key_def split: if_splits)
  with ch show ?thesis by blast
qed

lemma sequence_ascii: "\<forall>c \<in> set (csi_u_sequence key flags cp alternate). c < 128"
  using decimal_ascii optional_field_set
  by (fastforce simp: csi_u_sequence_def lit_def is_ascii_digit_def split: if_splits)

lemma split_report:
  assumes "\<forall>c \<in> set head. c \<noteq> 59" and "\<forall>c \<in> set mods. c \<noteq> 59"
  shows "split_on (\<lambda>c. c = 59) (head @ 59 # mods @ optional_field 59 field) =
    head # (case field of None \<Rightarrow> [mods] | Some c \<Rightarrow> [mods, decimal c])"
  using assms by (cases field) (simp_all add: split_on_append split_on_none optional_field_def)

lemma sequence_fields:
  fixes key flags
  defines "mods \<equiv> decimal (kitty_modifier (tk_modifiers key)) @ optional_field 58 (kitty_event_suffix key flags)"
    and "field \<equiv> (if has_flag flags KITTY_FLAG_REPORT_ASSOCIATED_TEXT then text_codepoint_for_key key else None)"
  shows "parse_kitty_key_sequence (csi_u_sequence key flags cp alternate) =
    parse_kitty_fields (decimal cp @ optional_field 58 alternate)
      (case field of None \<Rightarrow> [mods] | Some c \<Rightarrow> [mods, decimal c])"
proof -
  let ?head = "decimal cp @ optional_field 58 alternate"
  have "csi_u_sequence key flags cp alternate =
      (27 # lit ''['') @ (?head @ 59 # mods @ optional_field 59 field) @ lit ''u''"
    by (simp add: csi_u_sequence_def mods_def field_def optional_field_def)
  moreover have "\<forall>c \<in> set ?head. c \<noteq> 59" "\<forall>c \<in> set mods. c \<noteq> 59"
    using decimal_no_separator optional_field_set by (fastforce simp: mods_def is_ascii_digit_def)+
  then have "split_on (\<lambda>c. c = 59) (?head @ 59 # mods @ optional_field 59 field) =
      ?head # (case field of None \<Rightarrow> [mods] | Some c \<Rightarrow> [mods, decimal c])"
    by (rule split_report)
  ultimately show ?thesis
    by (simp add: parse_kitty_key_sequence_def Let_def del: append.append_Cons append_assoc)
qed

lemma fields_read:
  assumes "parts = modifier_part # (case associated of None \<Rightarrow> [] | Some field \<Rightarrow> [field])" "modifier_part \<noteq> []"
    and "split_modifier_and_event modifier_part = (modifier_text, event_type)"
    and "parse_modifier modifier_text = Some modifier"
    and "split_on (\<lambda>c. c = 58) key_part = codepoint_text # rest" "shifted_field rest = shifted_codepoint"
    and "parse_unsigned 32 codepoint_text = Some codepoint"
    and "kitty_codepoint_to_keycode codepoint = Some code"
    and "associated_text_of associated code = Some associated_text"
    and "parse_kitty_event_type event_type = Some kind"
  shows "parse_kitty_fields key_part parts =
    (let key = with_kind kind (key_new code (reported_modifiers code codepoint shifted_codepoint modifier));
         key' = (case shifted_codepoint of None \<Rightarrow> key | Some s \<Rightarrow> with_shifted_codepoint (of_nat s) key)
     in Some (with_generated_text associated_text key'))"
  using assms by (cases associated; cases shifted_codepoint) (simp_all add: parse_kitty_fields_def Let_def)

lemma key_new_code [simp]: "tk_code (key_new code mods) = code"
  by (simp add: key_new_def)

lemma built_key:
  "with_generated_text t
     (case alternate of None \<Rightarrow> with_kind kind (key_new code mods)
      | Some s \<Rightarrow> with_shifted_codepoint (of_nat s) (with_kind kind (key_new code mods))) =
   (key_new code mods)\<lparr>tk_kind := kind, tk_shifted_codepoint := map_option of_nat alternate,
     tk_generated_text := (if kind = Release then None else t)\<rparr>"
  by (cases alternate)
    (simp_all add: with_kind_def with_generated_text_def with_shifted_codepoint_def key_new_def)

lemma read_fields:
  assumes "reportable key" and cp: "csi_u_codepoint key flags = Some (cp, alternate)"
    and events: "has_flag flags KITTY_FLAG_REPORT_EVENT_TYPES"
  shows "parse_kitty_key_sequence (csi_u_sequence key flags cp alternate) = Some (reported_key key flags)"
proof -
  let ?mods = "tk_modifiers key" and ?code = "tk_code (reported_key key flags)"
  let ?text = "if has_flag flags KITTY_FLAG_REPORT_ASSOCIATED_TEXT then text_codepoint_for_key key else None"
  have code: "kitty_codepoint_to_keycode cp = Some ?code" "cp < 2 ^ 32"
    and alt: "alternate = (if is_char (tk_code key) then alternate_shifted_codepoint key flags else None)"
    using codepoint_of_key [OF cp assms(1)] by simp_all
  have alternate: "SHIFT \<in> ?mods \<and> a < 2 ^ 32" if "alternate = Some a" for a
    using alternate_shift [OF assms(1), of flags a] alt that by (auto split: if_splits)
  have mods: "reported_modifiers c cp alternate (of_nat (kitty_modifier ?mods - Suc 0)) = ?mods" for c
    using alternate by (auto simp: reported_modifiers_def from_modifiers Let_def split: option.splits)
  have "parse_kitty_key_sequence (csi_u_sequence key flags cp alternate) =
    (let key' = with_kind (tk_kind key) (key_new ?code ?mods);
         key'' = (case alternate of None \<Rightarrow> key' | Some s \<Rightarrow> with_shifted_codepoint (of_nat s) key')
     in Some (with_generated_text (map_option (\<lambda>c. [c]) ?text) key''))"
    unfolding sequence_fields
  proof (subst fields_read [where associated = "map_option decimal ?text"])
    show "parse_modifier (decimal (kitty_modifier ?mods)) = Some (of_nat (kitty_modifier ?mods - Suc 0))"
      using modifier_bounds [of ?mods] by (intro parse_modifier_decimal) simp_all
    show "split_on (\<lambda>c. c = 58) (decimal cp @ optional_field 58 alternate) =
        decimal cp # (case alternate of None \<Rightarrow> [] | Some a \<Rightarrow> [decimal a])"
      by (cases alternate) (simp_all add: optional_field_def)
    show "shifted_field (case alternate of None \<Rightarrow> [] | Some a \<Rightarrow> [decimal a]) = alternate"
      using alternate by (cases alternate) (simp_all add: shifted_field_def parse_codepoint)
    show "parse_unsigned 32 (decimal cp) = Some cp" by (rule parse_codepoint) (rule code(2))
    show "associated_text_of (map_option decimal ?text) ?code = Some (map_option (\<lambda>c. [c]) ?text)"
      using text_scalar [OF assms(1)] by (cases ?text) (auto simp: associated_text_of_def text_field split: if_splits)
  qed (use code(1) mods split_event_type parse_event_type [of key flags] events in
      \<open>auto simp: split_event_type split: option.splits\<close>)
  moreover have "(if tk_kind key = Release then None else map_option (\<lambda>c. [c]) ?text) = map_option (\<lambda>c. [c]) ?text"
    by (simp add: text_codepoint_for_key_def text_char_for_key_def)
  moreover have "reported_key key flags = (key_new ?code ?mods)\<lparr>tk_kind := tk_kind key,
      tk_shifted_codepoint := map_option of_nat alternate, tk_generated_text := map_option (\<lambda>c. [c]) ?text\<rparr>"
    unfolding alt reported_key_def by simp
  ultimately show ?thesis by (simp only: Let_def built_key)
qed

lemma kitty_encoding_all:
  assumes "reportable key" and flags: "has_flag flags KITTY_FLAG_REPORT_ALL_KEYS" "has_flag flags KITTY_FLAG_REPORT_EVENT_TYPES"
    and cp: "csi_u_codepoint key flags = Some (cp, alternate)"
  shows "encode_terminal_key key (Kitty flags) = csi_u_sequence key flags cp alternate"
proof -
  have "try_encode_csi_u key flags = Some (csi_u_sequence key flags cp alternate)"
    using flags cp str_bytes_ascii [OF sequence_ascii] by (simp add: try_encode_csi_u_def kitty_event_suffix_def)
  moreover have "committed_text key (Kitty flags) = None"
    using assms(1) flags(1) by (auto simp: committed_text_def reportable_def reports_all_keys_def)
  ultimately show ?thesis
    using assms(1) flags
    by (simp add: encode_terminal_key_def super_chord_def or_else_def kitty_encoding_def reports_all_keys_def
      reports_event_types_def reportable_def)
qed


definition demo_shift_a :: key where
  "demo_shift_a = key_new (KChar 65) {SHIFT}"


section \<open>Legacy sequences\<close>

definition special_codes :: "key_code list" where
  "special_codes = map fst letter_finals @ map fst tilde_numbers"

lemma xterm_bounds: "1 \<le> xterm_modifier mods" "xterm_modifier mods \<le> 8"
  by (simp_all add: xterm_modifier_def)

lemma kitty_xterm: "mods \<subseteq> {SHIFT, ALT, CONTROL} \<Longrightarrow> kitty_modifier mods = xterm_modifier mods"
  by (auto simp: kitty_modifier_def)

lemma xterm_one: "mods \<subseteq> {SHIFT, ALT, CONTROL} \<Longrightarrow> xterm_modifier mods \<le> 1 \<longleftrightarrow> mods = {}"
  by (auto simp: xterm_modifier_def split: if_splits)

lemma modified_key_decimal:
  assumes "mods \<subseteq> {SHIFT, ALT, CONTROL}"
  shows "modified_key (decimal (xterm_modifier mods)) (Some code) = Some (key_new code mods)"
proof -
  have "key_modifiers_from_u8 (of_nat (xterm_modifier mods - Suc 0)) = mods"
    using from_modifiers [of mods] kitty_xterm [OF assms] by simp
  moreover have "parse_modifier (decimal (xterm_modifier mods)) = Some (of_nat (xterm_modifier mods - Suc 0))"
    using xterm_bounds [of mods] by (intro parse_modifier_decimal) simp_all
  ultimately show ?thesis
    by (simp add: modified_key_def split_xterm_modifier_and_event_def split_modifier_and_event_def parse_kitty_event_type_def
      with_kind_def key_new_def)
qed

lemmas legacy_eval = parse_terminal_key_sequence_def parse_kitty_key_sequence_def parse_modify_other_keys_sequence_def
  parse_legacy_key_sequence.simps parse_legacy_special_sequence_def legacy_special_def find_lit_def legacy_keys_def
  parse_xterm_modified_special_sequence_def or_else_def lit_def strip_prefix_def strip_suffix_def

lemma letter_finals_read: "list_all (\<lambda>(code, final). (final, code) \<in> set letter_keys) letter_finals"
  by (simp add: letter_finals_def letter_keys_def)

lemma letter_sequence:
  assumes "(final, code) \<in> set letter_keys" and "mods \<subseteq> {SHIFT, ALT, CONTROL}"
  shows "parse_terminal_key_sequence (27 # lit ''[1;'' @ decimal (xterm_modifier mods) @ [final]) = Some (key_new code mods)"
proof -
  have m: "decimal (xterm_modifier mods) = [48 + xterm_modifier mods]"
    using xterm_bounds [of mods] by (intro decimal_digit) simp
  have "map_of letter_keys final = Some code" "is_ascii_alphabetic final" "final \<noteq> 117"
    using assms(1) by (auto simp: letter_keys_def is_ascii_alphabetic_def is_ascii_uppercase_def)
  then show ?thesis
    using modified_key_decimal [OF assms(2), of code] by (simp add: legacy_eval m)
qed

lemma tilde_numbers_read:
  "list_all (\<lambda>(code, number). find_lit tilde_keys (decimal number) = Some code \<and> 1 < number \<and> number < 27) tilde_numbers"
  by (simp add: tilde_numbers_def tilde_keys_def find_lit_def lit_def decimal_digit decimal_two)

lemma tilde_sequence:
  assumes "find_lit tilde_keys (decimal number) = Some code" and "1 < number" "number < 27"
    and "mods \<subseteq> {SHIFT, ALT, CONTROL}"
  shows "parse_terminal_key_sequence (27 # lit ''['' @ decimal number @ 59 # decimal (xterm_modifier mods) @ [126])
    = Some (key_new code mods)"
proof -
  let ?tail = "59 # decimal (xterm_modifier mods) @ [126]"
  have m: "decimal (xterm_modifier mods) = [48 + xterm_modifier mods]"
    using xterm_bounds [of mods] by (intro decimal_digit) simp
  have number: "decimal number = (if number < 10 then [48 + number] else [48 + number div 10, 48 + number mod 10])"
    using assms(3) by (subst decimal.simps) (simp add: decimal_digit)
  have not_27: "\<not> (number div 10 = 2 \<and> number mod 10 = 7)"
    using assms(3) by presburger
  have mod_11: "number mod 10 \<noteq> 11" by presburger
  have body: "parse_tilde_sequence (decimal number @ ?tail) = Some (key_new code mods)"
    using modified_key_decimal [OF assms(4), of code] assms(1)
      strip_suffix_append [of "[126]" "decimal number @ 59 # decimal (xterm_modifier mods)"]
    by (simp add: parse_tilde_sequence_def lit_def)
  have "parse_kitty_key_sequence (27 # lit ''['' @ decimal number @ ?tail) = None"
    by (simp add: legacy_eval)
  moreover have "parse_modify_other_keys_sequence (27 # lit ''['' @ decimal number @ ?tail) = None"
    using assms(2,3) not_27 by (auto simp: parse_modify_other_keys_sequence_def strip_prefix_def lit_def number m)
  moreover have "legacy_special (27 # lit ''['' @ decimal number @ ?tail) = None"
    using assms(2,3) by (simp add: legacy_special_def find_lit_def legacy_keys_def lit_def number m)
  moreover have "strip_prefix (lit ''1;'') (decimal number @ ?tail) = None"
    using assms(2,3) mod_11 by (simp add: strip_prefix_def lit_def number m)
  ultimately show ?thesis using body
    by (simp add: parse_terminal_key_sequence_def or_else_def parse_legacy_key_sequence.simps
      parse_legacy_special_sequence_def parse_xterm_modified_special_sequence_def) (simp add: strip_prefix_def lit_def)
qed

lemma plain_legacy:
  "legacy_special data = Some key \<Longrightarrow> parse_kitty_key_sequence data = None \<Longrightarrow>
   parse_modify_other_keys_sequence data = None \<Longrightarrow> parse_terminal_key_sequence data = Some key"
  by (subst parse_terminal_key_sequence_def)
    (simp add: or_else_def parse_legacy_special_sequence_def parse_legacy_key_sequence.simps [of data])

lemma plain_sequence:
  assumes "(code, final) \<in> set letter_finals \<union> set tilde_numbers"
  shows "parse_terminal_key_sequence (encode_legacy_inner (key_new code {})) = Some (key_new code {})"
proof (rule plain_legacy)
  let ?data = "encode_legacy_inner (key_new code {})"
  show "legacy_special ?data = Some (key_new code {})"
    using assms by (auto simp: letter_finals_def tilde_numbers_def encode_legacy_inner_def encode_f_key_def
      legacy_special_def find_lit_def legacy_keys_def lit_def)
  show "parse_kitty_key_sequence ?data = None"
    using assms by (auto simp: letter_finals_def tilde_numbers_def encode_legacy_inner_def encode_f_key_def
      parse_kitty_key_sequence_def strip_prefix_def strip_suffix_def lit_def)
  show "parse_modify_other_keys_sequence ?data = None"
    using assms by (auto simp: letter_finals_def tilde_numbers_def encode_legacy_inner_def encode_f_key_def
      parse_modify_other_keys_sequence_def strip_prefix_def lit_def)
qed



end
