(* ===== verification/AgentView.thy ===== *)
theory AgentView
  imports Prelude "HOL-Library.List_Lexorder" "HOL-Library.Product_Lexorder" "HOL-Library.Multiset"
begin

text \<open>
  Views of the list of agents: the filters and sort keys a client may set
  (\<open>api/schema/agents.rs\<close>), their validation (\<open>app/agent_view.rs\<close>) and their evaluation over any
  kind of entry (\<open>agent_view_eval.rs\<close>). The trait \<open>AgentViewEntry\<close> is a record of what its methods
  return.
\<close>

section \<open>Schema\<close>

datatype builtin_field =
    FieldStatus | FieldWorkspaceId | FieldTabId | FieldPaneId | FieldAgent | FieldSeen | FieldStateChangeSeq

datatype view_field = Builtin builtin_field | Token str

datatype view_context = CurrentWorkspaceId | CurrentTabId

datatype view_value = VString str | VBool bool | VNumber u64 | VContext view_context

datatype view_filter =
    FAll "view_filter list"
  | FAny "view_filter list"
  | FNot view_filter
  | FEq view_field view_value
  | FIn view_field "view_value list"
  | FExists view_field

datatype builtin_sort_field =
    SortWorkspaceOrder | SortTabOrder | SortPaneOrder | SortAttention | SortStatus | SortAgent | SortSeen
  | SortStateChangeSeq

datatype sort_field = SortBuiltin builtin_sort_field | SortToken str

datatype sort_order = Asc | Desc

record view_sort =
  vs_field :: sort_field
  vs_order :: sort_order

record view_params =
  vp_source :: str
  vp_label :: "str option"
  vp_filter :: "view_filter option"
  vp_sort :: "view_sort list"

section \<open>Validation\<close>

definition max_filter_depth :: nat where "max_filter_depth = 8"
definition max_filter_nodes :: nat where "max_filter_nodes = 64"
definition max_filter_values :: nat where "max_filter_values = 32"
definition max_sort_fields :: nat where "max_sort_fields = 8"
definition max_source_chars :: nat where "max_source_chars = 120"
definition max_label_chars :: nat where "max_label_chars = 32"

definition normalize_source :: "str \<Rightarrow> str + str" where
  "normalize_source s =
    (let source = trim s in
     if source = [] \<or> length source > max_source_chars
        \<or> \<not> list_all (\<lambda>ch. is_ascii_alphanumeric ch \<or> ch \<in> {58, 46, 95, 45}) source
     then Inl (lit ''agent view source must be non-empty, at most 120 characters, and contain only ASCII letters, digits, colon, dot, underscore, or hyphen'')
     else Inr source)"

definition normalize_label :: "str \<Rightarrow> str + str" where
  "normalize_label s =
    (let label = filter (\<lambda>ch. \<not> is_control ch) (trim s) in
     if label = [] \<or> length label > max_label_chars
     then Inl (lit ''agent view label must be non-empty and at most 32 characters'')
     else Inr label)"

definition validate_token :: "str \<Rightarrow> str + unit" where
  "validate_token token =
    (if token = [] \<or> str_len token > 32
        \<or> \<not> list_all (\<lambda>ch. is_ascii_alphanumeric ch \<or> ch = 95 \<or> ch = 45) token
     then Inl (lit ''invalid agent view token `'' @ token @ lit ''`'')
     else Inr ())"

definition validate_field :: "view_field \<Rightarrow> str + unit" where
  "validate_field field = (case field of Token token \<Rightarrow> validate_token token | Builtin _ \<Rightarrow> Inr ())"

definition agent_statuses :: "str list" where
  "agent_statuses = [lit ''idle'', lit ''working'', lit ''blocked'', lit ''done'', lit ''unknown'']"

definition bad_context :: str where
  "bad_context = lit ''agent view context type does not match the selected field''"

definition bad_value :: str where
  "bad_value = lit ''agent view value type does not match the selected field''"

definition validate_field_value :: "view_field \<Rightarrow> view_value \<Rightarrow> str + unit" where
  "validate_field_value field value =
    and_then (validate_field field) (\<lambda>_.
      case value of
        VContext CurrentWorkspaceId \<Rightarrow> if field = Builtin FieldWorkspaceId then Inr () else Inl bad_context
      | VContext CurrentTabId \<Rightarrow> if field = Builtin FieldTabId then Inr () else Inl bad_context
      | VBool _ \<Rightarrow> if field = Builtin FieldSeen then Inr () else Inl bad_value
      | VNumber _ \<Rightarrow> if field = Builtin FieldStateChangeSeq then Inr () else Inl bad_value
      | VString v \<Rightarrow>
          (case field of
             Builtin FieldStatus \<Rightarrow>
               if v \<notin> set agent_statuses
               then Inl (lit ''unknown agent status `'' @ v @ lit ''`'') else Inr ()
           | Builtin FieldWorkspaceId \<Rightarrow> Inr ()
           | Builtin FieldTabId \<Rightarrow> Inr ()
           | Builtin FieldPaneId \<Rightarrow> Inr ()
           | Builtin FieldAgent \<Rightarrow> Inr ()
           | Token _ \<Rightarrow> Inr ()
           | Builtin FieldSeen \<Rightarrow> Inl bad_value
           | Builtin FieldStateChangeSeq \<Rightarrow> Inl bad_value))"

text \<open>The counter of nodes is threaded through; it matters only while no error has occurred.\<close>

fun validate_filter :: "view_filter \<Rightarrow> nat \<Rightarrow> nat \<Rightarrow> str + nat"
  and validate_filters :: "view_filter list \<Rightarrow> nat \<Rightarrow> nat \<Rightarrow> str + nat" where
  "validate_filter f depth nodes =
    (if depth > max_filter_depth then Inl (lit ''agent view filter may be nested at most 8 levels'')
     else let nodes' = nodes + 1 in
       if nodes' > max_filter_nodes then Inl (lit ''agent view filter may contain at most 64 nodes'')
       else case f of
         FAll fs \<Rightarrow> if fs = [] then Inl (lit ''agent view all/any filters must not be empty'')
                   else validate_filters fs (depth + 1) nodes'
       | FAny fs \<Rightarrow> if fs = [] then Inl (lit ''agent view all/any filters must not be empty'')
                   else validate_filters fs (depth + 1) nodes'
       | FNot g \<Rightarrow> validate_filter g (depth + 1) nodes'
       | FEq field value \<Rightarrow> and_then (validate_field_value field value) (\<lambda>_. Inr nodes')
       | FIn field values \<Rightarrow>
           if values = [] \<or> length values > max_filter_values
           then Inl (lit ''agent view in filters require 1 to 32 values'')
           else and_then (for_each (validate_field_value field) values) (\<lambda>_. Inr nodes')
       | FExists field \<Rightarrow> and_then (validate_field field) (\<lambda>_. Inr nodes'))"
| "validate_filters [] depth nodes = Inr nodes"
| "validate_filters (f # fs) depth nodes =
     and_then (validate_filter f depth nodes) (\<lambda>nodes'. validate_filters fs depth nodes')"

definition validate_sort_field :: "sort_field \<Rightarrow> str + unit" where
  "validate_sort_field field = (case field of SortToken token \<Rightarrow> validate_token token | SortBuiltin _ \<Rightarrow> Inr ())"

definition validate_agent_view :: "view_params \<Rightarrow> str + view_params" where
  "validate_agent_view spec =
    and_then (normalize_source (vp_source spec)) (\<lambda>source.
    and_then (case vp_label spec of
                None \<Rightarrow> Inr None
              | Some label \<Rightarrow> and_then (normalize_label label) (\<lambda>l. Inr (Some l))) (\<lambda>label.
    and_then (case vp_filter spec of
                None \<Rightarrow> Inr 0
              | Some f \<Rightarrow> validate_filter f 1 0) (\<lambda>_.
    if length (vp_sort spec) > max_sort_fields
    then Inl (lit ''agent view sort may contain at most 8 fields'')
    else and_then (for_each (\<lambda>s. validate_sort_field (vs_field s)) (vp_sort spec)) (\<lambda>_.
      Inr (spec\<lparr>vp_source := source, vp_label := label\<rparr>)))))"

section \<open>Values and their order\<close>

datatype ordering = Less | Equal | Greater

fun reverse_ordering :: "ordering \<Rightarrow> ordering" where
  "reverse_ordering Less = Greater"
| "reverse_ordering Equal = Equal"
| "reverse_ordering Greater = Less"

definition cmp :: "'a::linorder \<Rightarrow> 'a \<Rightarrow> ordering" where
  "cmp a b = (if a < b then Less else if a = b then Equal else Greater)"

datatype eval_value = EString str | EScopedId nat str | EBool bool | ENumber u64

text \<open>
  The derived order compares the constructors first, then the fields from left to right. Strings
  compare by their UTF-8 bytes, which is the order of their scalar values.
\<close>

fun value_rank :: "eval_value \<Rightarrow> nat \<times> nat \<times> str" where
  "value_rank (EString s) = (0, 0, s)"
| "value_rank (EScopedId scope v) = (1, scope, v)"
| "value_rank (EBool b) = (2, if b then 1 else 0, [])"
| "value_rank (ENumber n) = (3, unat n, [])"

lemma value_rank_inject: "value_rank a = value_rank b \<longleftrightarrow> a = b"
  by (cases a; cases b) (auto simp: word_eq_unat)

instantiation eval_value :: linorder
begin

definition less_eq_eval_value :: "eval_value \<Rightarrow> eval_value \<Rightarrow> bool" where
  "less_eq_eval_value a b \<longleftrightarrow> value_rank a \<le> value_rank b"

definition less_eval_value :: "eval_value \<Rightarrow> eval_value \<Rightarrow> bool" where
  "less_eval_value a b \<longleftrightarrow> value_rank a < value_rank b"

instance
  by standard (auto simp: less_eq_eval_value_def less_eval_value_def value_rank_inject [symmetric] less_le_not_le)

end

section \<open>Evaluation\<close>

record view_entry =
  ve_scope :: nat
  ve_status :: str
  ve_workspace_id :: "str option"
  ve_tab_id :: "str option"
  ve_pane_id :: "str option"
  ve_agent :: "str option"
  ve_seen :: bool
  ve_state_change_seq :: "u64 option"
  ve_token :: "str \<Rightarrow> str option"
  ve_workspace_order :: "u64 option"
  ve_tab_order :: "u64 option"
  ve_pane_order :: "u64 option"
  ve_attention :: u64

record eval_context =
  ec_scope :: nat
  ec_workspace_id :: "str option"
  ec_tab_id :: "str option"

definition field_value :: "view_entry \<Rightarrow> view_field \<Rightarrow> eval_value option" where
  "field_value entry field =
    (case field of
       Builtin FieldStatus \<Rightarrow> Some (EString (ve_status entry))
     | Builtin FieldWorkspaceId \<Rightarrow> map_option (EScopedId (ve_scope entry)) (ve_workspace_id entry)
     | Builtin FieldTabId \<Rightarrow> map_option (EScopedId (ve_scope entry)) (ve_tab_id entry)
     | Builtin FieldPaneId \<Rightarrow> map_option (EScopedId (ve_scope entry)) (ve_pane_id entry)
     | Builtin FieldAgent \<Rightarrow> map_option EString (ve_agent entry)
     | Builtin FieldSeen \<Rightarrow> Some (EBool (ve_seen entry))
     | Builtin FieldStateChangeSeq \<Rightarrow> map_option ENumber (ve_state_change_seq entry)
     | Token token \<Rightarrow> map_option EString (ve_token entry token))"

definition is_id_field :: "view_field \<Rightarrow> bool" where
  "is_id_field field \<longleftrightarrow>
     field = Builtin FieldWorkspaceId \<or> field = Builtin FieldTabId \<or> field = Builtin FieldPaneId"

definition operand_value :: "eval_context \<Rightarrow> view_field \<Rightarrow> view_value \<Rightarrow> eval_value option" where
  "operand_value context field value =
    (case value of
       VString v \<Rightarrow> if is_id_field field then Some (EScopedId (ec_scope context) v) else Some (EString v)
     | VBool b \<Rightarrow> Some (EBool b)
     | VNumber n \<Rightarrow> Some (ENumber n)
     | VContext CurrentWorkspaceId \<Rightarrow> map_option (EScopedId (ec_scope context)) (ec_workspace_id context)
     | VContext CurrentTabId \<Rightarrow> map_option (EScopedId (ec_scope context)) (ec_tab_id context))"

fun matches_filter :: "eval_context \<Rightarrow> view_entry \<Rightarrow> view_filter \<Rightarrow> bool" where
  "matches_filter context entry (FAll fs) = list_all (matches_filter context entry) fs"
| "matches_filter context entry (FAny fs) = list_ex (matches_filter context entry) fs"
| "matches_filter context entry (FNot f) = (\<not> matches_filter context entry f)"
| "matches_filter context entry (FEq field value) =
     (field_value entry field = operand_value context field value)"
| "matches_filter context entry (FIn field values) =
     list_ex (\<lambda>value. field_value entry field = operand_value context field value) values"
| "matches_filter context entry (FExists field) = (field_value entry field \<noteq> None)"

definition sort_value :: "view_entry \<Rightarrow> sort_field \<Rightarrow> eval_value option" where
  "sort_value entry field =
    (case field of
       SortToken token \<Rightarrow> map_option EString (ve_token entry token)
     | SortBuiltin SortWorkspaceOrder \<Rightarrow> map_option ENumber (ve_workspace_order entry)
     | SortBuiltin SortTabOrder \<Rightarrow> map_option ENumber (ve_tab_order entry)
     | SortBuiltin SortPaneOrder \<Rightarrow> map_option ENumber (ve_pane_order entry)
     | SortBuiltin SortAttention \<Rightarrow> Some (ENumber (ve_attention entry))
     | SortBuiltin SortStatus \<Rightarrow> Some (EString (ve_status entry))
     | SortBuiltin SortAgent \<Rightarrow> map_option EString (ve_agent entry)
     | SortBuiltin SortSeen \<Rightarrow> Some (EBool (ve_seen entry))
     | SortBuiltin SortStateChangeSeq \<Rightarrow> map_option ENumber (ve_state_change_seq entry))"

definition compare_optional_values ::
  "eval_value option \<Rightarrow> eval_value option \<Rightarrow> sort_order \<Rightarrow> ordering" where
  "compare_optional_values left right order =
    (case (left, right) of
       (Some l, Some r) \<Rightarrow> if order = Desc then reverse_ordering (cmp l r) else cmp l r
     | (Some _, None) \<Rightarrow> Less
     | (None, Some _) \<Rightarrow> Greater
     | (None, None) \<Rightarrow> Equal)"

fun compare_entries :: "view_entry \<Rightarrow> view_entry \<Rightarrow> view_sort list \<Rightarrow> ordering" where
  "compare_entries left right [] = Equal"
| "compare_entries left right (s # ss) =
     (let o1 = compare_optional_values (sort_value left (vs_field s)) (sort_value right (vs_field s)) (vs_order s)
      in if o1 \<noteq> Equal then o1 else compare_entries left right ss)"

text \<open>
  \<open>Vec::sort_by\<close> is a stable sort: an element moves before another only when it compares less.
\<close>

fun insert_by :: "('a \<Rightarrow> 'a \<Rightarrow> ordering) \<Rightarrow> 'a \<Rightarrow> 'a list \<Rightarrow> 'a list" where
  "insert_by f x [] = [x]"
| "insert_by f x (y # ys) = (if f y x = Less then y # insert_by f x ys else x # y # ys)"

definition sort_by :: "('a \<Rightarrow> 'a \<Rightarrow> ordering) \<Rightarrow> 'a list \<Rightarrow> 'a list" where
  "sort_by f xs = foldr (insert_by f) xs []"

text \<open>The branch of \<open>apply_agent_view\<close> for a view that is set: filter, then sort if there are keys.\<close>

definition apply_view :: "eval_context \<Rightarrow> view_params \<Rightarrow> view_entry list \<Rightarrow> view_entry list" where
  "apply_view context spec entries =
    (let kept = (case vp_filter spec of
          None \<Rightarrow> entries
        | Some f \<Rightarrow> filter (\<lambda>e. matches_filter context e f) entries)
     in if vp_sort spec \<noteq> [] then sort_by (\<lambda>l r. compare_entries l r (vp_sort spec)) kept else kept)"

section \<open>What validation accepts\<close>

fun filter_depth :: "view_filter \<Rightarrow> nat" where
  "filter_depth (FAll fs) = Suc (foldr (\<lambda>f. max (filter_depth f)) fs 0)"
| "filter_depth (FAny fs) = Suc (foldr (\<lambda>f. max (filter_depth f)) fs 0)"
| "filter_depth (FNot f) = Suc (filter_depth f)"
| "filter_depth _ = 1"

fun filter_nodes :: "view_filter \<Rightarrow> nat" where
  "filter_nodes (FAll fs) = Suc (sum_list (map filter_nodes fs))"
| "filter_nodes (FAny fs) = Suc (sum_list (map filter_nodes fs))"
| "filter_nodes (FNot f) = Suc (filter_nodes f)"
| "filter_nodes _ = 1"

definition operand_ok :: "view_field \<Rightarrow> view_value \<Rightarrow> bool" where
  "operand_ok field value \<longleftrightarrow> validate_field_value field value = Inr ()"

fun filter_ok :: "view_filter \<Rightarrow> bool" where
  "filter_ok (FAll fs) = (fs \<noteq> [] \<and> list_all filter_ok fs)"
| "filter_ok (FAny fs) = (fs \<noteq> [] \<and> list_all filter_ok fs)"
| "filter_ok (FNot f) = filter_ok f"
| "filter_ok (FEq field value) = operand_ok field value"
| "filter_ok (FIn field values) =
     (values \<noteq> [] \<and> length values \<le> max_filter_values \<and> list_all (operand_ok field) values)"
| "filter_ok (FExists field) = (validate_field field = Inr ())"

lemma foldr_max_le: "foldr (\<lambda>f. max (g f)) fs 0 \<le> k \<longleftrightarrow> (\<forall>f \<in> set fs. g f \<le> k)" for g :: "'a \<Rightarrow> nat"
  by (induction fs) auto

lemma filter_depth_pos: "0 < filter_depth f" and filter_nodes_pos: "0 < filter_nodes f"
  by (cases f; simp)+

lemma filters_depth:
  assumes "\<not> m < d"
  shows "d + foldr (\<lambda>f. max (filter_depth f)) fs 0 \<le> m \<longleftrightarrow> (\<forall>f \<in> set fs. d + filter_depth f \<le> m)"
proof -
  have "d + k \<le> m \<longleftrightarrow> k \<le> m - d" for k using assms by auto
  then show ?thesis by (simp only: foldr_max_le)
qed

lemma validate_filter_Inr:
  "nodes \<le> max_filter_nodes \<Longrightarrow>
   validate_filter f depth nodes = Inr n \<longleftrightarrow>
     filter_ok f \<and> depth + filter_depth f \<le> Suc max_filter_depth
     \<and> nodes + filter_nodes f \<le> max_filter_nodes \<and> n = nodes + filter_nodes f"
  "nodes \<le> max_filter_nodes \<Longrightarrow>
   validate_filters fs depth nodes = Inr n \<longleftrightarrow>
     list_all filter_ok fs \<and> (\<forall>f \<in> set fs. depth + filter_depth f \<le> Suc max_filter_depth)
     \<and> nodes + sum_list (map filter_nodes fs) \<le> max_filter_nodes \<and> n = nodes + sum_list (map filter_nodes fs)"
proof (induction f depth nodes and fs depth nodes arbitrary: n and n
    rule: validate_filter_validate_filters.induct)
  case (1 f depth nodes)
  show ?case
  proof (cases "depth > max_filter_depth \<or> nodes + 1 > max_filter_nodes")
    case True
    then show ?thesis using filter_depth_pos [of f] filter_nodes_pos [of f] by (auto simp: Let_def)
  next
    case False
    then have b: "\<not> max_filter_depth < depth" "nodes + 1 \<le> max_filter_nodes" by auto
    note IH = 1(1-3) [OF b(1) refl]
    show ?thesis
    proof (cases f)
      case (FAll fs)
      with b IH(1) [OF _ FAll] show ?thesis
        by (auto simp: filters_depth [OF b(1)] simp del: validate_filters.simps)
    next
      case (FAny fs)
      with b IH(2) [OF _ FAny] show ?thesis
        by (auto simp: filters_depth [OF b(1)] simp del: validate_filters.simps)
    next
      case (FNot g)
      have "validate_filter f depth nodes = validate_filter g (depth + 1) (nodes + 1)"
        by (subst validate_filter.simps) (use b FNot in \<open>simp del: validate_filter.simps\<close>)
      with b IH(3) [OF _ FNot] show ?thesis by (auto simp: FNot simp del: validate_filter.simps)
    next
      case (FEq fd v)
      with b show ?thesis by (auto simp: and_then_Inr operand_ok_def)
    next
      case (FIn fd vs)
      with b show ?thesis
        by (auto simp: and_then_Inr operand_ok_def for_each_ok list_all_iff)
    next
      case (FExists field)
      with b show ?thesis by (auto simp: and_then_Inr)
    qed
  qed
next
  case (3 f fs depth nodes)
  have pos: "nodes + filter_nodes f \<le> max_filter_nodes \<Longrightarrow>
      validate_filters fs depth (nodes + filter_nodes f) = Inr n \<longleftrightarrow>
      list_all filter_ok fs \<and> (\<forall>f \<in> set fs. depth + filter_depth f \<le> Suc max_filter_depth)
      \<and> nodes + filter_nodes f + sum_list (map filter_nodes fs) \<le> max_filter_nodes
      \<and> n = nodes + filter_nodes f + sum_list (map filter_nodes fs)" by (rule 3(2))
  show ?case
    using 3(1) [OF 3(3)] pos by (auto simp: and_then_Inr add.assoc simp del: validate_filter.simps)
qed auto

text \<open>
  The validator accepts a filter exactly when it is well-formed, nested at most eight levels deep
  and made of at most 64 nodes; the counter it threads through returns the number of nodes.
\<close>

theorem validate_filter_iff:
  "validate_filter f 1 0 = Inr n \<longleftrightarrow>
     filter_ok f \<and> filter_depth f \<le> 8 \<and> filter_nodes f \<le> 64 \<and> n = filter_nodes f"
  using validate_filter_Inr(1) [of 0 f 1 n]
  by (auto simp: max_filter_depth_def max_filter_nodes_def simp del: validate_filter.simps)

text \<open>
  A comparison in an accepted filter never compares values of two different kinds.
\<close>

fun same_kind :: "eval_value \<Rightarrow> eval_value \<Rightarrow> bool" where
  "same_kind (EString _) (EString _) = True"
| "same_kind (EScopedId _ _) (EScopedId _ _) = True"
| "same_kind (EBool _) (EBool _) = True"
| "same_kind (ENumber _) (ENumber _) = True"
| "same_kind _ _ = False"

lemma operand_same_kind:
  assumes "operand_ok field value" "field_value entry field = Some a" "operand_value context field value = Some b"
  shows "same_kind a b"
  using assms
  by (auto simp: operand_ok_def validate_field_value_def field_value_def operand_value_def and_then_Inr is_id_field_def
      split: view_field.splits builtin_field.splits view_value.splits view_context.splits if_splits)

section \<open>The comparison is a total preorder\<close>

lemma cmp_simps:
  "cmp a b = Less \<longleftrightarrow> a < b" "cmp a b = Equal \<longleftrightarrow> a = b" "cmp a b = Greater \<longleftrightarrow> b < (a :: 'a::linorder)"
  by (auto simp: cmp_def)

lemma reverse_cmp: "reverse_ordering (cmp a b) = cmp b (a :: 'a::linorder)"
  by (auto simp: cmp_def)

lemma reverse_reverse [simp]: "reverse_ordering (reverse_ordering r) = r"
  by (cases r) auto

text \<open>What \<open>sort_by\<close> requires of its argument, lest it panic or leave the order unspecified.\<close>

locale comparator =
  fixes f :: "'a \<Rightarrow> 'a \<Rightarrow> ordering"
  assumes flip: "f b a = reverse_ordering (f a b)"
    and trans: "f a b \<noteq> Greater \<Longrightarrow> f b c \<noteq> Greater \<Longrightarrow> f a c \<noteq> Greater"
begin

lemma refl: "f a a = Equal"
  using flip [of a a] by (cases "f a a") auto

lemma swap: "f a b = Less \<longleftrightarrow> f b a = Greater" "f a b = Greater \<longleftrightarrow> f b a = Less"
    "f a b = Equal \<longleftrightarrow> f b a = Equal"
  unfolding flip [of b a] by (cases "f a b"; simp)+

lemma equal_trans: "f a b = Equal \<Longrightarrow> f b c = Equal \<Longrightarrow> f a c = Equal"
proof -
  assume e: "f a b = Equal" "f b c = Equal"
  then have "f a c \<noteq> Greater" "f c a \<noteq> Greater"
    using trans [of a b c] trans [of c b a] swap(3) [of a b] swap(3) [of b c] by simp_all
  then show ?thesis using swap(1) [of a c] by (cases "f a c") simp_all
qed

lemma less_trans: "f a b = Less \<Longrightarrow> f b c \<noteq> Greater \<Longrightarrow> f a c = Less"
proof -
  assume ab: "f a b = Less" and bc: "f b c \<noteq> Greater"
  show "f a c = Less"
  proof (rule ccontr)
    assume "f a c \<noteq> Less"
    then have "f c a \<noteq> Greater" by (simp add: swap(1) [of a c])
    with bc have "f b a \<noteq> Greater" by (rule trans)
    with ab show False by (simp add: swap(1) [of a b])
  qed
qed

lemma set_insert_by [simp]: "set (insert_by f x ys) = insert x (set ys)"
  by (induction ys) auto

lemma sorted_insert_by:
  "sorted_wrt (\<lambda>a b. f a b \<noteq> Greater) ys \<Longrightarrow> sorted_wrt (\<lambda>a b. f a b \<noteq> Greater) (insert_by f x ys)"
proof (induction ys)
  case (Cons y ys)
  show ?case
  proof (cases "f y x = Less")
    case True
    with Cons show ?thesis by auto
  next
    case False
    then have "f x y \<noteq> Greater" by (simp add: swap(2) [of x y])
    moreover from this have "\<forall>z \<in> set ys. f x z \<noteq> Greater" using Cons.prems trans by auto
    ultimately show ?thesis using False Cons.prems by simp
  qed
qed simp

lemma insert_by_block:
  "filter (\<lambda>y. f z y = Equal) (insert_by f x ys) =
     (if f z x = Equal then x # filter (\<lambda>y. f z y = Equal) ys else filter (\<lambda>y. f z y = Equal) ys)"
proof (induction ys)
  case (Cons y ys)
  have "f z x = Equal \<Longrightarrow> f z y = Equal \<Longrightarrow> f y x \<noteq> Less"
    using equal_trans [of y z x] swap(3) [of z y] by simp
  with Cons show ?case by auto
qed simp

lemma mset_insert_by: "mset (insert_by f x ys) = add_mset x (mset ys)"
  by (induction ys) auto

lemma sort_by_mset: "mset (sort_by f xs) = mset xs"
  by (induction xs) (simp_all add: sort_by_def mset_insert_by)

lemma sort_by_sorted: "sorted_wrt (\<lambda>a b. f a b \<noteq> Greater) (sort_by f xs)"
  by (induction xs) (simp_all add: sort_by_def sorted_insert_by)

lemma sort_by_stable: "filter (\<lambda>y. f z y = Equal) (sort_by f xs) = filter (\<lambda>y. f z y = Equal) xs"
  by (induction xs) (simp_all add: sort_by_def insert_by_block)

end

lemma compare_optional_flip:
  "compare_optional_values b a order = reverse_ordering (compare_optional_values a b order)"
  by (auto simp: compare_optional_values_def reverse_cmp split: option.splits)

lemma compare_optional_trans:
  "compare_optional_values a b order \<noteq> Greater \<Longrightarrow> compare_optional_values b c order \<noteq> Greater \<Longrightarrow>
   compare_optional_values a c order \<noteq> Greater"
  by (cases order) (auto simp: compare_optional_values_def reverse_cmp cmp_simps split: option.splits if_splits)

interpretation optional_values: comparator "\<lambda>a b. compare_optional_values a b order" for order
  by unfold_locales (rule compare_optional_flip, rule compare_optional_trans)

lemma compare_entries_flip: "compare_entries b a ss = reverse_ordering (compare_entries a b ss)"
proof (induction ss)
  case (Cons s ss)
  let ?c = "\<lambda>x y. compare_optional_values (sort_value x (vs_field s)) (sort_value y (vs_field s)) (vs_order s)"
  have "?c b a = reverse_ordering (?c a b)" by (rule compare_optional_flip)
  with Cons show ?case by (cases "?c a b") (simp_all add: Let_def)
qed simp

lemma compare_entries_trans:
  "compare_entries a b ss \<noteq> Greater \<Longrightarrow> compare_entries b c ss \<noteq> Greater \<Longrightarrow> compare_entries a c ss \<noteq> Greater"
proof (induction ss)
  case (Cons s ss)
  let ?c = "\<lambda>x y. compare_optional_values (sort_value x (vs_field s)) (sort_value y (vs_field s)) (vs_order s)"
  have ng: "?c a b \<noteq> Greater" "?c b c \<noteq> Greater"
    using Cons.prems by (auto simp: Let_def split: if_splits)
  consider "?c a b = Less" | "?c a b = Equal" "?c b c = Less" | "?c a b = Equal" "?c b c = Equal"
    using ng by (cases "?c a b"; cases "?c b c") auto
  then show ?case
  proof cases
    case 1
    then have "?c a c = Less" using ng(2) by (rule optional_values.less_trans)
    then show ?thesis by (simp add: Let_def)
  next
    case 2
    have "?c a c \<noteq> Greater" using ng by (rule compare_optional_trans)
    moreover have "?c a c \<noteq> Equal"
    proof
      assume "?c a c = Equal"
      then have "?c c a = Equal" by (subst compare_optional_flip) simp
      then have "?c c b = Equal" using 2(1) by (rule optional_values.equal_trans)
      then show False using 2(2) by (subst (asm) compare_optional_flip) simp
    qed
    ultimately show ?thesis by (simp add: Let_def)
  next
    case 3
    then have "?c a c = Equal" by (rule optional_values.equal_trans)
    then show ?thesis using 3 Cons by (simp add: Let_def)
  qed
qed simp

interpretation entries: comparator "\<lambda>a b. compare_entries a b ss" for ss
  by unfold_locales (rule compare_entries_flip, rule compare_entries_trans)

text \<open>
  A view shows exactly the entries its filter matches, each as often as it was there, in an order
  in which no entry compares greater than a later one; entries that compare equal keep their order.
\<close>

theorem apply_view_result:
  fixes ctx spec
  defines "keep \<equiv> \<lambda>e. case vp_filter spec of None \<Rightarrow> True | Some f \<Rightarrow> matches_filter ctx e f"
  shows "mset (apply_view ctx spec es) = mset (filter keep es)
    \<and> sorted_wrt (\<lambda>a b. compare_entries a b (vp_sort spec) \<noteq> Greater) (apply_view ctx spec es)
    \<and> filter (\<lambda>e. compare_entries z e (vp_sort spec) = Equal) (apply_view ctx spec es)
      = filter (\<lambda>e. compare_entries z e (vp_sort spec) = Equal) (filter keep es)"
proof -
  have kept: "(case vp_filter spec of None \<Rightarrow> es | Some f \<Rightarrow> filter (\<lambda>e. matches_filter ctx e f) es) = filter keep es"
    by (simp add: keep_def split: option.split)
  have unsorted: "sorted_wrt (\<lambda>a b. compare_entries a b [] \<noteq> Greater) xs" for xs by (induction xs) auto
  show ?thesis
    unfolding apply_view_def Let_def kept
    by (simp add: entries.sort_by_mset entries.sort_by_sorted entries.sort_by_stable unsorted)
qed

text \<open>
  The comparison of entries is a total preorder, as \<open>sort_by\<close> requires: swapping the arguments
  reverses the result and being at most is transitive; and an entry that lacks the value of the
  first sort key comes after one that has it, in ascending and in descending order.
\<close>

theorem compare_entries_preorder:
  "compare_entries b a ss = reverse_ordering (compare_entries a b ss)
   \<and> (compare_entries a b ss \<noteq> Greater \<and> compare_entries b c ss \<noteq> Greater \<longrightarrow> compare_entries a c ss \<noteq> Greater)
   \<and> (sort_value a (vs_field s) \<noteq> None \<and> sort_value b (vs_field s) = None \<longrightarrow>
        compare_entries a b (s # ss) = Less)"
proof (intro conjI impI compare_entries_flip)
  show "compare_entries a b ss \<noteq> Greater \<and> compare_entries b c ss \<noteq> Greater \<Longrightarrow> compare_entries a c ss \<noteq> Greater"
    using compare_entries_trans [of a b ss c] by blast
qed (auto simp: compare_optional_values_def)

section \<open>Labels\<close>

text \<open>
  Trimming comes before the removal of control characters, so a label of blanks between control
  characters passes although nothing of it is visible, and normalizing it again would refuse it.
\<close>

lemma label_can_be_blank: "normalize_label [1, 32, 2] = Inr [32] \<and> normalize_label [32] \<noteq> Inr [32]"
  by (simp add: normalize_label_def trim_def is_whitespace_def is_control_def max_label_chars_def Let_def)

section \<open>Witnesses\<close>

definition demo_entry :: "str option \<Rightarrow> u64 \<Rightarrow> view_entry" where
  "demo_entry agent attention =
    \<lparr>ve_scope = 0, ve_status = lit ''idle'', ve_workspace_id = None, ve_tab_id = None, ve_pane_id = None,
     ve_agent = agent, ve_seen = True, ve_state_change_seq = None, ve_token = (\<lambda>_. None),
     ve_workspace_order = None, ve_tab_order = None, ve_pane_order = None, ve_attention = attention\<rparr>"

definition demo_sort :: view_sort where
  "demo_sort = \<lparr>vs_field = SortBuiltin SortAgent, vs_order = Desc\<rparr>"

theorem compare_entries_preorder_witness:
  "compare_entries (demo_entry (Some []) 1) (demo_entry None 2) [demo_sort] = Less
   \<and> compare_entries (demo_entry None 2) (demo_entry (Some []) 1) [demo_sort] = Greater"
proof -
  have "sort_value (demo_entry (Some []) 1) (vs_field demo_sort) \<noteq> None"
    "sort_value (demo_entry None 2) (vs_field demo_sort) = None"
    by (simp_all add: demo_entry_def demo_sort_def sort_value_def)
  then have l: "compare_entries (demo_entry (Some []) 1) (demo_entry None 2) [demo_sort] = Less"
    using compare_entries_preorder [of "demo_entry None 2" "demo_entry (Some []) 1" "[]" _ demo_sort] by blast
  then have "compare_entries (demo_entry None 2) (demo_entry (Some []) 1) [demo_sort] = reverse_ordering Less"
    using compare_entries_preorder [of "demo_entry None 2" "demo_entry (Some []) 1" "[demo_sort]" _ demo_sort] by simp
  with l show ?thesis by simp
qed

end
