(* ===== verification/Surface.thy ===== *)
theory Surface
  imports Prelude
begin

text \<open>
  Pane surfaces on the wire (\<open>protocol/wire.rs\<close>) and their sparse updates
  (\<open>protocol/surface_delta.rs\<close>): a surface is a grid of cells with metadata; the sender finds the
  spans of cells that changed and the receiver copies them over its own grid. The sizes bincode and
  base64 would need are parameters. A slice that is out of range panics, which is \<open>None\<close> or
  \<open>PlanPanic\<close> here.
\<close>

section \<open>Wire data\<close>

record cell_data =
  cd_symbol :: str
  cd_fg :: u32
  cd_bg :: u32
  cd_modifier :: u16
  cd_skip :: bool
  cd_hyperlink :: "u32 option"

record cursor_state =
  cs_x :: u16
  cs_y :: u16
  cs_visible :: bool
  cs_shape :: u8

record frame_data =
  fd_cells :: "cell_data list"
  fd_width :: u16
  fd_height :: u16
  fd_cursor :: "cursor_state option"
  fd_hyperlinks :: "str list"
  fd_graphics :: "u8 list"

record surface_rect =
  sr_x :: u16
  sr_y :: u16
  sr_width :: u16
  sr_height :: u16

record pane_scroll =
  ps_offset_from_bottom :: u64
  ps_max_offset_from_bottom :: u64
  ps_viewport_rows :: u64

record surface_pane =
  sp_pane_id :: str
  sp_content_revision :: u64
  sp_rect :: surface_rect
  sp_inner_rect :: surface_rect
  sp_scrollbar_rect :: "surface_rect option"
  sp_scroll :: "pane_scroll option"
  sp_focused :: bool
  sp_mouse_reporting :: bool
  sp_sgr_pixel_mouse :: bool
  sp_alternate_screen_active :: bool
  sp_pixel_width :: u32
  sp_pixel_height :: u32

datatype split_direction = SplitHorizontal | SplitVertical

record surface_split =
  ss_direction :: split_direction
  ss_pos :: u16
  ss_area :: surface_rect
  ss_hit_rect :: surface_rect
  ss_path :: "bool list"

datatype graphics_target = TargetPane str | TargetPopup str
datatype graphics_source = SourceTerminal graphics_target u32 | SourcePaneLayer str str
datatype graphics_format = Rgb | Rgba | Png

record asset_key =
  ak_source :: graphics_source
  ak_image_width :: u32
  ak_image_height :: u32
  ak_format :: graphics_format
  ak_data_len :: u64
  ak_data_fingerprint :: u64

record graphics_asset =
  ga_key :: asset_key
  ga_data :: "u8 list"

record graphics_placement =
  gp_asset :: asset_key
  gp_logical_placement_id :: u32
  gp_x :: u16
  gp_y :: u16
  gp_cols :: u32
  gp_rows :: u32
  gp_source_x :: u32
  gp_source_y :: u32
  gp_source_width :: u32
  gp_source_height :: u32
  gp_x_offset :: u32
  gp_y_offset :: u32
  gp_z :: "32 word"
  gp_scrollback_offset :: u32

record graphics_scene =
  gs_assets :: "graphics_asset list"
  gs_placements :: "graphics_placement list"
  gs_retained_assets :: "asset_key list"

datatype shell_popup_size = ShellCells u16 | ShellPercent u8

record popup_surface =
  pop_terminal_id :: str
  pop_title :: str
  pop_width :: "shell_popup_size option"
  pop_height :: "shell_popup_size option"
  pop_frame :: frame_data
  pop_mouse_reporting :: bool
  pop_sgr_pixel_mouse :: bool
  pop_pixel_width :: u32
  pop_pixel_height :: u32

record pane_surface =
  su_boot_id :: str
  su_projection_revision :: u64
  su_surface_revision :: u64
  su_frame :: frame_data
  su_panes :: "surface_pane list"
  su_splits :: "surface_split list"
  su_popup :: "popup_surface option"
  su_graphics :: graphics_scene

record patch_row =
  pr_x :: u16
  pr_y :: u16
  pr_cells :: "cell_data list"

record surface_patch =
  pp_boot_id :: str
  pp_projection_revision :: u64
  pp_base_surface_revision :: u64
  pp_surface_revision :: u64
  pp_rows :: "patch_row list"
  pp_panes :: "surface_pane list"
  pp_cursor :: "cursor_state option"

datatype grid_update = Patch "patch_row list" | Replace "cell_data list"

record surface_delta =
  de_base_projection_revision :: u64
  de_base_surface_revision :: u64
  de_surface :: pane_surface
  de_rows :: "patch_row list"
  de_popup_cells :: "grid_update option"

text \<open>Message kinds the model does not look into are \<open>OtherMessage\<close>.\<close>

datatype 'o server_message =
    PaneSurface pane_surface
  | PaneSurfacePatch surface_patch
  | EndpointControl str str
  | OtherMessage 'o

definition max_frame_size :: nat where "max_frame_size = 2 * 1024 * 1024"
definition max_graphics_frame_size :: nat where "max_graphics_frame_size = 32 * 1024 * 1024"
definition max_spans :: nat where "max_spans = 4096"
definition delta_kind :: str where "delta_kind = lit ''endpoint.surface-delta.v1''"
definition reuse_kind :: str where "reuse_kind = lit ''endpoint.surface-reuse.v1''"

section \<open>Grids\<close>

definition grid_size :: "u16 \<Rightarrow> u16 \<Rightarrow> nat" where
  "grid_size width height = unat width * unat height"

definition row_start :: "u16 \<Rightarrow> patch_row \<Rightarrow> nat" where
  "row_start width row = unat (pr_y row) * unat width + unat (pr_x row)"

definition overwrite :: "nat \<Rightarrow> 'a list \<Rightarrow> 'a list \<Rightarrow> 'a list" where
  "overwrite start new xs = take start xs @ new @ drop (start + length new) xs"

fun apply_rows :: "u16 \<Rightarrow> patch_row list \<Rightarrow> cell_data list \<Rightarrow> cell_data list option" where
  "apply_rows width [] cells = Some cells"
| "apply_rows width (row # rows) cells =
     (let start = row_start width row in
      if start + length (pr_cells row) \<le> length cells
      then apply_rows width rows (overwrite start (pr_cells row) cells) else None)"

section \<open>Finding the changed spans\<close>

datatype 'a plan = PlanPanic | PlanErr str | PlanNone | PlanSome 'a

text \<open>The inner loop: how many cells from here on differ; indexing past the old row panics.\<close>

fun diff_run :: "'c list \<Rightarrow> 'c list \<Rightarrow> nat option" where
  "diff_run old [] = Some 0"
| "diff_run [] (n # ns) = None"
| "diff_run (c # cs) (n # ns) = (if c \<noteq> n then map_option Suc (diff_run cs ns) else Some 0)"

lemma diff_run_le: "diff_run old new = Some k \<Longrightarrow> k \<le> length new"
  by (induction old new arbitrary: k rule: diff_run.induct) (auto split: if_splits)

lemma diff_run_pos: "c \<noteq> n \<Longrightarrow> diff_run (c # cs) (n # ns) = Some k \<Longrightarrow> 0 < k"
  by auto

function scan_row ::
  "(patch_row \<Rightarrow> str + nat) \<Rightarrow> (nat \<Rightarrow> nat option) \<Rightarrow> nat \<Rightarrow> nat \<Rightarrow> nat
   \<Rightarrow> cell_data list \<Rightarrow> cell_data list \<Rightarrow> nat \<times> patch_row list \<Rightarrow> (nat \<times> patch_row list) plan" where
  "scan_row span_size encoded_len full_size y x old [] acc = PlanSome acc"
| "scan_row span_size encoded_len full_size y x [] (n # ns) acc = PlanPanic"
| "scan_row span_size encoded_len full_size y x (c # cs) (n # ns) acc =
    (if c = n then scan_row span_size encoded_len full_size y (x + 1) cs ns acc
     else case diff_run (c # cs) (n # ns) of
       None \<Rightarrow> PlanPanic
     | Some k \<Rightarrow>
         let span = \<lparr>pr_x = of_nat x, pr_y = of_nat y, pr_cells = take k (n # ns)\<rparr>
         in case span_size span of
              Inl e \<Rightarrow> PlanErr e
            | Inr s \<Rightarrow>
                let total = fst acc + s
                in if length (snd acc) = max_spans
                      \<or> (case encoded_len total of None \<Rightarrow> True | Some e \<Rightarrow> e \<ge> full_size)
                   then PlanNone
                   else scan_row span_size encoded_len full_size y (x + k) (drop k (c # cs)) (drop k (n # ns))
                          (total, snd acc @ [span]))"
  by pat_completeness auto
termination
  by (relation "measure (\<lambda>(_, _, _, _, _, _, new, _). length new)") (auto dest: diff_run_pos split: if_splits)

fun scan_rows ::
  "(patch_row \<Rightarrow> str + nat) \<Rightarrow> (nat \<Rightarrow> nat option) \<Rightarrow> nat \<Rightarrow> (nat \<times> cell_data list \<times> cell_data list) list
   \<Rightarrow> nat \<times> patch_row list \<Rightarrow> (nat \<times> patch_row list) plan" where
  "scan_rows span_size encoded_len full_size [] acc = PlanSome acc"
| "scan_rows span_size encoded_len full_size ((y, old, new) # rest) acc =
     (case scan_row span_size encoded_len full_size y 0 old new acc of
        PlanSome acc' \<Rightarrow> scan_rows span_size encoded_len full_size rest acc'
      | PlanNone \<Rightarrow> PlanNone | PlanErr e \<Rightarrow> PlanErr e | PlanPanic \<Rightarrow> PlanPanic)"

text \<open>\<open>slice::chunks(n)\<close> for a positive \<open>n\<close>.\<close>

function chunks :: "nat \<Rightarrow> 'a list \<Rightarrow> 'a list list" where
  "chunks n xs = (if xs = [] \<or> n = 0 then [] else take n xs # chunks n (drop n xs))"
  by pat_completeness auto
termination
  by (relation "measure (\<lambda>(_, xs). length xs)") auto

declare chunks.simps [simp del]

definition changed_rows ::
  "(patch_row \<Rightarrow> str + nat) \<Rightarrow> (nat \<Rightarrow> nat option) \<Rightarrow> cell_data list \<Rightarrow> cell_data list \<Rightarrow> u16 \<Rightarrow> nat
   \<Rightarrow> patch_row list plan" where
  "changed_rows span_size encoded_len prev_cells next_cells width full_size =
    (if width = 0 then PlanSome []
     else case scan_rows span_size encoded_len full_size
                 (List.enumerate 0 (zip (chunks (unat width) prev_cells) (chunks (unat width) next_cells))) (0, []) of
            PlanSome (_, rows) \<Rightarrow> PlanSome rows
          | PlanNone \<Rightarrow> PlanNone | PlanErr e \<Rightarrow> PlanErr e | PlanPanic \<Rightarrow> PlanPanic)"

section \<open>Applying the changed spans\<close>

lemma length_overwrite [simp]: "start + length new \<le> length xs \<Longrightarrow> length (overwrite start new xs) = length xs"
  by (simp add: overwrite_def)

lemma apply_rows_append:
  "apply_rows width (rows @ rest) cells =
     (case apply_rows width rows cells of None \<Rightarrow> None | Some c \<Rightarrow> apply_rows width rest c)"
  by (induction rows arbitrary: cells) (auto simp: Let_def)

lemma apply_rows_length: "apply_rows width rows cells = Some c \<Longrightarrow> length c = length cells"
  by (induction rows arbitrary: cells) (auto simp: Let_def split: if_splits)

lemma diff_run_total: "length old = length new \<Longrightarrow> \<exists>k. diff_run old new = Some k"
  by (induction old new rule: diff_run.induct) auto

lemma overwrite_prefix:
  "length new \<le> length old \<Longrightarrow> overwrite (length pre) new (pre @ old @ post) = pre @ new @ drop (length new) old @ post"
  by (simp add: overwrite_def)

text \<open>
  One row: if the spans so far turn the whole grid into one that is new up to here and old from here
  on, the spans after scanning turn it into one that is new to the end of the row.
\<close>

lemma scan_row_applies:
  assumes "scan_row span_size encoded_len full_size y x old new acc = PlanSome acc'"
    and "length old = length new" "x + length new \<le> unat (width :: u16)" "y < 65536"
    and "length pre = y * unat width + x"
    and "apply_rows width (snd acc) cells = Some (pre @ old @ post)"
  shows "apply_rows width (snd acc') cells = Some (pre @ new @ post)"
  using assms
proof (induction span_size encoded_len full_size y x old new acc arbitrary: pre rule: scan_row.induct)
  case (3 span_size encoded_len full_size y x c cs n ns acc)
  show ?case
  proof (cases "c = n")
    case True
    from 3(1) [OF True, of "pre @ [c]"] 3(3-) True show ?thesis by simp
  next
    case False
    obtain k where k: "diff_run (c # cs) (n # ns) = Some k" using diff_run_total 3(4) by blast
    let ?span = "\<lparr>pr_x = of_nat x, pr_y = of_nat y, pr_cells = take k (n # ns)\<rparr>"
    from 3(3) False k obtain s where s: "span_size ?span = Inr s"
      by (auto simp: Let_def split: sum.splits)
    let ?stop = "length (snd acc) = max_spans \<or> (case encoded_len (fst acc + s) of None \<Rightarrow> True | Some e \<Rightarrow> e \<ge> full_size)"
    have go: "\<not> ?stop" and rest: "scan_row span_size encoded_len full_size y (x + k) (drop k (c # cs)) (drop k (n # ns))
        (fst acc + s, snd acc @ [?span]) = PlanSome acc'"
      using 3(3) False k s by (auto simp: Let_def split: if_splits)
    have kle: "k \<le> length (n # ns)" using diff_run_le [OF k] .
    have xw: "x < 65536" using 3(5) u16_bound [of width] by simp
    have st: "row_start width ?span = length pre"
      using xw 3(6,7) by (simp add: row_start_def unat_of_nat)
    have len: "length (take k (n # ns)) = k" using kle by simp
    have old: "c # cs = take k (c # cs) @ drop k (c # cs)" by simp
    have app: "apply_rows width (snd (fst acc + s, snd acc @ [?span])) cells = Some ((pre @ take k (n # ns)) @ drop k (c # cs) @ post)"
    proof -
      have "overwrite (length pre) (take k (n # ns)) (pre @ (c # cs) @ post)
          = pre @ take k (n # ns) @ drop k (c # cs) @ post"
        using overwrite_prefix [of "take k (n # ns)" "c # cs" pre post] kle 3(4) len by simp
      then show ?thesis
        using 3(8) kle 3(4) len by (simp add: apply_rows_append st Let_def)
    qed
    have "apply_rows width (snd acc') cells = Some ((pre @ take k (n # ns)) @ drop k (n # ns) @ post)"
      by (rule 3(2) [OF False k refl s refl go _ _ _ 3(6) _ app])
        (use rest 3(4,5,7) kle len in auto)
    then show ?thesis by simp
  qed
qed auto

lemma scan_rows_applies:
  assumes "scan_rows span_size encoded_len full_size (List.enumerate y (zip olds news)) acc = PlanSome acc'"
    and "length olds = length news" "\<forall>r \<in> set olds \<union> set news. length r = unat (width :: u16)"
    and "y + length news \<le> 65536" "length pre = y * unat width"
    and "apply_rows width (snd acc) cells = Some (pre @ concat olds @ post)"
  shows "apply_rows width (snd acc') cells = Some (pre @ concat news @ post)"
  using assms
proof (induction news arbitrary: olds y acc pre)
  case (Cons new news)
  then obtain old olds' where olds: "olds = old # olds'" by (cases olds) auto
  obtain acc1 where s: "scan_row span_size encoded_len full_size y 0 old new acc = PlanSome acc1"
    and rest: "scan_rows span_size encoded_len full_size (List.enumerate (Suc y) (zip olds' news)) acc1 = PlanSome acc'"
    using Cons.prems(1) by (auto simp: olds split: plan.splits)
  have "apply_rows width (snd acc1) cells = Some (pre @ new @ concat olds' @ post)"
    by (rule scan_row_applies [OF s]) (use Cons.prems olds in auto)
  then have a: "apply_rows width (snd acc1) cells = Some ((pre @ new) @ concat olds' @ post)" by simp
  have "apply_rows width (snd acc') cells = Some ((pre @ new) @ concat news @ post)"
    by (rule Cons.IH [OF rest _ _ _ _ a]) (use Cons.prems olds in auto)
  then show ?case by simp
qed simp

lemma chunks_step: "\<not> (xs = [] \<or> n = 0) \<Longrightarrow> chunks n xs = take n xs # chunks n (drop n xs)"
  by (subst chunks.simps) (simp only: if_False)

lemma concat_chunks: "0 < n \<Longrightarrow> concat (chunks n xs) = xs"
proof (induction n xs rule: chunks.induct)
  case (1 n xs)
  show ?case
  proof (cases "xs = []")
    case False
    with 1(2) have ne: "\<not> (xs = [] \<or> n = 0)" by simp
    have "concat (chunks n xs) = take n xs @ concat (chunks n (drop n xs))"
      by (simp only: chunks_step [OF ne] concat.simps)
    then show ?thesis using 1(1) [OF ne 1(2)] by simp
  qed (simp add: chunks.simps)
qed

lemma chunks_rows:
  "length xs = h * n \<Longrightarrow> 0 < n \<Longrightarrow> length (chunks n xs) = h \<and> (\<forall>r \<in> set (chunks n xs). length r = n)"
proof (induction h arbitrary: xs)
  case 0
  then show ?case by (simp add: chunks.simps)
next
  case (Suc h)
  then have ne: "\<not> (xs = [] \<or> n = 0)" by auto
  have len: "length (drop n xs) = h * n" "length (take n xs) = n" using Suc.prems(1) by simp_all
  have "length (chunks n (drop n xs)) = h \<and> (\<forall>r \<in> set (chunks n (drop n xs)). length r = n)"
    by (rule Suc.IH [OF len(1) Suc.prems(2)])
  then show ?case
    by (simp add: chunks_step [OF ne] len(2) del: length_take)
qed

lemma changed_rows_apply_aux:
  assumes "changed_rows span_size encoded_len prev_cells next_cells width full_size = PlanSome rows"
    and "length prev_cells = grid_size width height" "length next_cells = grid_size width height"
  shows "apply_rows width rows prev_cells = Some next_cells"
proof (cases "width = 0")
  case True
  with assms show ?thesis by (simp add: changed_rows_def grid_size_def)
next
  case False
  then have w: "0 < unat width" by (simp add: unat_gt_0)
  let ?o = "chunks (unat width) prev_cells" and ?n = "chunks (unat width) next_cells"
  obtain total where s: "scan_rows span_size encoded_len full_size (List.enumerate 0 (zip ?o ?n)) (0, [])
      = PlanSome (total, rows)"
    using assms(1) False by (auto simp: changed_rows_def split: plan.splits)
  have o: "length ?o = unat height" "\<forall>r \<in> set ?o. length r = unat width"
    using chunks_rows [of prev_cells "unat height" "unat width"] assms(2) w by (auto simp: grid_size_def)
  have n: "length ?n = unat height" "\<forall>r \<in> set ?n. length r = unat width"
    using chunks_rows [of next_cells "unat height" "unat width"] assms(3) w by (auto simp: grid_size_def)
  have "apply_rows width (snd (total, rows)) prev_cells = Some ([] @ concat ?n @ [])"
    by (rule scan_rows_applies [OF s]) (use o n w u16_bound [of height] in \<open>auto simp: concat_chunks\<close>)
  then show ?thesis by (simp add: concat_chunks [OF w])
qed

text \<open>
  Whatever sizes the encodings have, the spans the sender plans turn the last grid into the next
  one, cell for cell, on a receiver that copies them over.
\<close>

theorem changed_rows_apply:
  assumes "changed_rows span_size encoded_len prev_cells next_cells width full_size = PlanSome rows"
    and "length prev_cells = grid_size width height" "length next_cells = grid_size width height"
  shows "apply_rows width rows prev_cells = Some next_cells"
  using assms by (rule changed_rows_apply_aux)

section \<open>Spans that fit a grid\<close>

fun spans_ok :: "u16 \<Rightarrow> u16 \<Rightarrow> nat \<Rightarrow> patch_row list \<Rightarrow> bool" where
  "spans_ok width height prev_end [] = True"
| "spans_ok width height prev_end (row # rows) =
     (pr_cells row \<noteq> [] \<and> pr_y row < height \<and> unat (pr_x row) + length (pr_cells row) \<le> unat width
      \<and> prev_end \<le> row_start width row
      \<and> spans_ok width height (row_start width row + length (pr_cells row)) rows)"

lemma row_fits:
  assumes "pr_y row < height" "unat (pr_x row) + n \<le> unat width"
  shows "row_start width row + n \<le> grid_size width height"
proof -
  have "row_start width row + n \<le> unat (pr_y row) * unat width + unat width"
    using assms(2) by (simp add: row_start_def)
  also have "\<dots> = Suc (unat (pr_y row)) * unat width" by simp
  also have "\<dots> \<le> unat height * unat width"
    by (rule mult_le_mono1) (use assms(1) in \<open>simp add: word_less_nat_alt Suc_le_eq\<close>)
  finally show ?thesis by (simp add: grid_size_def mult.commute)
qed

lemma apply_rows_total:
  "spans_ok width height prev_end rows \<Longrightarrow> length cells = grid_size width height \<Longrightarrow>
   \<exists>c. apply_rows width rows cells = Some c \<and> length c = grid_size width height"
proof (induction rows arbitrary: cells prev_end)
  case (Cons row rows)
  then have le: "row_start width row + length (pr_cells row) \<le> length cells" by (simp add: row_fits)
  let ?c = "overwrite (row_start width row) (pr_cells row) cells"
  have "length ?c = grid_size width height" using le Cons.prems(2) by simp
  moreover have "spans_ok width height (row_start width row + length (pr_cells row)) rows"
    using Cons.prems(1) by simp
  ultimately show ?case using Cons.IH le by (simp add: Let_def)
qed simp

section \<open>Witness\<close>

definition demo_cell :: "nat \<Rightarrow> cell_data" where
  "demo_cell c = \<lparr>cd_symbol = [c], cd_fg = 0, cd_bg = 0, cd_modifier = 0, cd_skip = False, cd_hyperlink = None\<rparr>"

definition demo_grid :: "nat list \<Rightarrow> cell_data list" where
  "demo_grid = map demo_cell"

lemma demo_changed_rows:
  "changed_rows (\<lambda>_. Inr 1) Some (demo_grid [65, 66, 67, 68]) (demo_grid [65, 90, 67, 68]) 2 100
     = PlanSome [\<lparr>pr_x = 1, pr_y = 0, pr_cells = [demo_cell 90]\<rparr>]"
  by (simp add: changed_rows_def chunks.simps demo_grid_def demo_cell_def max_spans_def Let_def)

theorem changed_rows_apply_witness:
  "apply_rows 2 [\<lparr>pr_x = 1, pr_y = 0, pr_cells = [demo_cell 90]\<rparr>] (demo_grid [65, 66, 67, 68])
     = Some (demo_grid [65, 90, 67, 68])"
  by (rule changed_rows_apply [OF demo_changed_rows, of 2]) (simp_all add: grid_size_def demo_grid_def)

end
