(* ===== verification/SurfaceDecode.thy ===== *)
theory SurfaceDecode
  imports Surface
begin

text \<open>
  The allocation-bounded decoder of surface deltas (\<open>protocol/surface_delta/decode.rs\<close>). Bincode's
  reader is abstract: a record of the primitive reads the code performs, the derived \<open>Decode\<close>
  implementations of the plain records among them. What is modelled is the code's own part: the order
  of the reads and every check on counts, dimensions and spans before anything is allocated. A
  \<open>usize\<close> is 64 bits wide.
\<close>

section \<open>Readers\<close>

datatype decode_error = Other str | Primitive str

type_synonym ('r, 'a) reader = "'r \<Rightarrow> decode_error + 'a \<times> 'r"

definition rd_bind :: "('r, 'a) reader \<Rightarrow> ('a \<Rightarrow> ('r, 'b) reader) \<Rightarrow> ('r, 'b) reader" where
  "rd_bind m f r = (case m r of Inl e \<Rightarrow> Inl e | Inr (a, r') \<Rightarrow> f a r')"

definition rd_return :: "'a \<Rightarrow> ('r, 'a) reader" where
  "rd_return a r = Inr (a, r)"

definition rd_fail :: "string \<Rightarrow> ('r, 'a) reader" where
  "rd_fail msg r = Inl (Other (lit msg))"

fun rd_many :: "nat \<Rightarrow> ('r, 'a) reader \<Rightarrow> ('r, 'a list) reader" where
  "rd_many 0 m = rd_return []"
| "rd_many (Suc n) m = rd_bind m (\<lambda>a. rd_bind (rd_many n m) (\<lambda>as. rd_return (a # as)))"

record 'r primitives =
  rd_u8 :: "('r, u8) reader"
  rd_u16 :: "('r, u16) reader"
  rd_u32 :: "('r, u32) reader"
  rd_u64 :: "('r, u64) reader"
  rd_bool :: "('r, bool) reader"
  rd_string :: "('r, str) reader"
  rd_cell :: "('r, cell_data) reader"
  rd_cursor :: "('r, cursor_state option) reader"
  rd_popup_size :: "('r, shell_popup_size option) reader"
  rd_pane :: "('r, surface_pane) reader"
  rd_split_direction :: "('r, split_direction) reader"
  rd_rect :: "('r, surface_rect) reader"
  rd_asset_key :: "('r, asset_key) reader"
  rd_placement :: "('r, graphics_placement) reader"
  rd_claim :: "nat \<Rightarrow> ('r, unit) reader"
  rd_bytes :: "nat \<Rightarrow> ('r, u8 list) reader"

lemma rd_bind_Inr: "rd_bind m f r = Inr (b, r'') \<longleftrightarrow> (\<exists>a r'. m r = Inr (a, r') \<and> f a r' = Inr (b, r''))"
  by (auto simp: rd_bind_def split: sum.splits prod.splits)

lemma rd_return_Inr [simp]: "rd_return a r = Inr (b, r') \<longleftrightarrow> b = a \<and> r' = r"
  by (auto simp: rd_return_def)

lemma rd_fail_Inr [simp]: "rd_fail msg r \<noteq> Inr x"
  by (simp add: rd_fail_def)

lemma rd_many_length: "rd_many n m r = Inr (as, r') \<Longrightarrow> length as = n"
  by (induction n arbitrary: as r r') (auto simp: rd_bind_Inr)

section \<open>Limits\<close>

definition max_grid_dimension :: u16 where "max_grid_dimension = 4096"
definition max_grid_cells :: nat where "max_grid_cells = 1000000"
definition max_panes :: nat where "max_panes = 4096"
definition max_splits :: nat where "max_splits = 4096"
definition max_split_path :: nat where "max_split_path = 4096"
definition max_hyperlinks :: nat where "max_hyperlinks = 65536"
definition max_assets :: nat where "max_assets = 4096"
definition max_placements :: nat where "max_placements = 65536"
definition max_retained_assets :: nat where "max_retained_assets = 65536"

definition checked_grid_size :: "u16 \<Rightarrow> u16 \<Rightarrow> decode_error + nat" where
  "checked_grid_size width height =
    (if width > max_grid_dimension \<or> height > max_grid_dimension
     then Inl (Other (lit ''surface dimensions exceed the limit''))
     else if grid_size width height > max_grid_cells
     then Inl (Other (lit ''surface cell count exceeds the limit''))
     else Inr (grid_size width height))"

definition rd_lift :: "decode_error + 'a \<Rightarrow> ('r, 'a) reader" where
  "rd_lift v r = (case v of Inl e \<Rightarrow> Inl e | Inr a \<Rightarrow> Inr (a, r))"

lemma rd_lift_Inr [simp]: "rd_lift v r = Inr (a, r') \<longleftrightarrow> v = Inr a \<and> r' = r"
  by (auto simp: rd_lift_def split: sum.splits)

definition decode_sequence_len :: "'r primitives \<Rightarrow> ('r, nat) reader" where
  "decode_sequence_len p = rd_bind (rd_u64 p) (\<lambda>count. rd_return (unat count))"

definition decode_count :: "'r primitives \<Rightarrow> nat \<Rightarrow> string \<Rightarrow> ('r, nat) reader" where
  "decode_count p limit message =
    rd_bind (decode_sequence_len p) (\<lambda>count. if count > limit then rd_fail message else rd_return count)"

definition require_empty_sequence :: "'r primitives \<Rightarrow> string \<Rightarrow> ('r, unit) reader" where
  "require_empty_sequence p message =
    rd_bind (decode_sequence_len p) (\<lambda>n. if n = 0 then rd_return () else rd_fail message)"

definition decode_bounded_vec ::
  "'r primitives \<Rightarrow> ('r, 'a) reader \<Rightarrow> nat \<Rightarrow> string \<Rightarrow> ('r, 'a list) reader" where
  "decode_bounded_vec p elem limit message =
    rd_bind (decode_count p limit message) (\<lambda>count. rd_many count elem)"

definition decode_bytes_vec :: "'r primitives \<Rightarrow> nat \<Rightarrow> string \<Rightarrow> ('r, u8 list) reader" where
  "decode_bytes_vec p limit message =
    rd_bind (decode_count p limit message) (\<lambda>count.
    rd_bind (rd_claim p count) (\<lambda>_. rd_bytes p count))"

section \<open>Rows\<close>

definition checked_usize :: "nat \<Rightarrow> nat option" where
  "checked_usize n = (if n < 2 ^ 64 then Some n else None)"

text \<open>The loop over the spans: how many are left, the cells so far, the end of the last span.\<close>

fun decode_rows_loop ::
  "'r primitives \<Rightarrow> u16 \<Rightarrow> u16 \<Rightarrow> nat \<Rightarrow> nat \<Rightarrow> nat \<Rightarrow> nat \<Rightarrow> ('r, patch_row list) reader" where
  "decode_rows_loop p width height cell_budget 0 sofar prev_end = rd_return []"
| "decode_rows_loop p width height cell_budget (Suc n) sofar prev_end =
    rd_bind (rd_u16 p) (\<lambda>x. rd_bind (rd_u16 p) (\<lambda>y.
    rd_bind (decode_sequence_len p) (\<lambda>cells_len.
      if cells_len = 0 \<or> y \<ge> height \<or> unat x \<ge> unat width \<or> cells_len > unat width - unat x
      then rd_fail ''surface delta span is outside its row''
      else case Option.bind (checked_usize (unat y * unat width)) (\<lambda>v. checked_usize (v + unat x)) of
        None \<Rightarrow> rd_fail ''surface delta span overflow''
      | Some start \<Rightarrow>
          if start < prev_end then rd_fail ''surface delta spans overlap or are not sorted''
          else case checked_usize (sofar + cells_len) of
            None \<Rightarrow> rd_fail ''surface delta cell budget overflow''
          | Some sofar' \<Rightarrow>
              if sofar' > cell_budget then rd_fail ''surface delta cell budget exceeded''
              else rd_bind (rd_many cells_len (rd_cell p)) (\<lambda>cells.
                   rd_bind (decode_rows_loop p width height cell_budget n sofar' (start + cells_len)) (\<lambda>rows.
                     rd_return (\<lparr>pr_x = x, pr_y = y, pr_cells = cells\<rparr> # rows))))))"

definition decode_rows :: "'r primitives \<Rightarrow> u16 \<Rightarrow> u16 \<Rightarrow> ('r, patch_row list) reader" where
  "decode_rows p width height =
    rd_bind (rd_lift (checked_grid_size width height)) (\<lambda>cell_budget.
    rd_bind (decode_count p (min max_spans cell_budget) ''too many surface delta spans'') (\<lambda>count.
      decode_rows_loop p width height cell_budget count 0 0))"

section \<open>Surfaces\<close>

definition decode_frame :: "'r primitives \<Rightarrow> ('r, frame_data) reader" where
  "decode_frame p =
    rd_bind (require_empty_sequence p ''surface metadata contains main cells'') (\<lambda>_.
    rd_bind (rd_u16 p) (\<lambda>width. rd_bind (rd_u16 p) (\<lambda>height.
    rd_bind (rd_lift (checked_grid_size width height)) (\<lambda>_.
    rd_bind (rd_cursor p) (\<lambda>cursor.
    rd_bind (decode_bounded_vec p (rd_string p) max_hyperlinks ''too many hyperlinks'') (\<lambda>hyperlinks.
    rd_bind (decode_bytes_vec p max_graphics_frame_size ''graphics payload too large'') (\<lambda>graphics.
      rd_return \<lparr>fd_cells = [], fd_width = width, fd_height = height, fd_cursor = cursor,
        fd_hyperlinks = hyperlinks, fd_graphics = graphics\<rparr>)))))))"

definition decode_popup :: "'r primitives \<Rightarrow> ('r, popup_surface option) reader" where
  "decode_popup p =
    rd_bind (rd_u8 p) (\<lambda>tag.
      if tag = 0 then rd_return None
      else if tag = 1 then
        rd_bind (rd_string p) (\<lambda>terminal_id. rd_bind (rd_string p) (\<lambda>title.
        rd_bind (rd_popup_size p) (\<lambda>width. rd_bind (rd_popup_size p) (\<lambda>height.
        rd_bind (decode_frame p) (\<lambda>frame.
        rd_bind (rd_bool p) (\<lambda>mouse_reporting. rd_bind (rd_bool p) (\<lambda>sgr_pixel_mouse.
        rd_bind (rd_u32 p) (\<lambda>pixel_width. rd_bind (rd_u32 p) (\<lambda>pixel_height.
          rd_return (Some \<lparr>pop_terminal_id = terminal_id, pop_title = title, pop_width = width,
            pop_height = height, pop_frame = frame, pop_mouse_reporting = mouse_reporting,
            pop_sgr_pixel_mouse = sgr_pixel_mouse, pop_pixel_width = pixel_width,
            pop_pixel_height = pixel_height\<rparr>))))))))))
      else rd_fail ''invalid popup option'')"

definition decode_split :: "'r primitives \<Rightarrow> ('r, surface_split) reader" where
  "decode_split p =
    rd_bind (rd_split_direction p) (\<lambda>direction. rd_bind (rd_u16 p) (\<lambda>pos.
    rd_bind (rd_rect p) (\<lambda>area. rd_bind (rd_rect p) (\<lambda>hit_rect.
    rd_bind (decode_bounded_vec p (rd_bool p) max_split_path ''split path too long'') (\<lambda>path.
      rd_return \<lparr>ss_direction = direction, ss_pos = pos, ss_area = area, ss_hit_rect = hit_rect,
        ss_path = path\<rparr>)))))"

definition decode_splits :: "'r primitives \<Rightarrow> ('r, surface_split list) reader" where
  "decode_splits p =
    rd_bind (decode_count p max_splits ''too many splits'') (\<lambda>count. rd_many count (decode_split p))"

definition decode_asset :: "'r primitives \<Rightarrow> ('r, graphics_asset) reader" where
  "decode_asset p =
    rd_bind (rd_asset_key p) (\<lambda>key.
    rd_bind (decode_bytes_vec p max_graphics_frame_size ''graphics asset payload too large'') (\<lambda>data.
      rd_return \<lparr>ga_key = key, ga_data = data\<rparr>))"

definition decode_graphics_scene :: "'r primitives \<Rightarrow> ('r, graphics_scene) reader" where
  "decode_graphics_scene p =
    rd_bind (decode_count p max_assets ''too many graphics assets'') (\<lambda>asset_count.
    rd_bind (rd_many asset_count (decode_asset p)) (\<lambda>assets.
    rd_bind (decode_bounded_vec p (rd_placement p) max_placements ''too many graphics placements'') (\<lambda>placements.
    rd_bind (decode_bounded_vec p (rd_asset_key p) max_retained_assets ''too many retained graphics assets'') (\<lambda>retained.
      rd_return \<lparr>gs_assets = assets, gs_placements = placements, gs_retained_assets = retained\<rparr>))))"

definition has_graphics :: "pane_surface \<Rightarrow> bool" where
  "has_graphics s \<longleftrightarrow>
     gs_assets (su_graphics s) \<noteq> [] \<or> gs_placements (su_graphics s) \<noteq> [] \<or> gs_retained_assets (su_graphics s) \<noteq> []"

definition decode_surface :: "'r primitives \<Rightarrow> ('r, pane_surface \<times> bool) reader" where
  "decode_surface p =
    rd_bind (rd_string p) (\<lambda>boot_id. rd_bind (rd_u64 p) (\<lambda>projection_revision.
    rd_bind (rd_u64 p) (\<lambda>surface_revision. rd_bind (decode_frame p) (\<lambda>frame.
    rd_bind (decode_bounded_vec p (rd_pane p) max_panes ''too many panes'') (\<lambda>panes.
    rd_bind (decode_splits p) (\<lambda>splits. rd_bind (decode_popup p) (\<lambda>popup.
    rd_bind (decode_graphics_scene p) (\<lambda>graphics.
      let s = \<lparr>su_boot_id = boot_id, su_projection_revision = projection_revision,
                su_surface_revision = surface_revision, su_frame = frame, su_panes = panes,
                su_splits = splits, su_popup = popup, su_graphics = graphics\<rparr>
      in rd_return (s, has_graphics s)))))))))"

definition decode_popup_update ::
  "'r primitives \<Rightarrow> popup_surface option \<Rightarrow> ('r, grid_update option) reader" where
  "decode_popup_update p popup =
    rd_bind (rd_u8 p) (\<lambda>tag.
      if tag = 0 then rd_return None
      else if tag = 1 then
        (case popup of
           None \<Rightarrow> rd_fail ''popup cell update has no popup metadata''
         | Some pop \<Rightarrow>
             let width = fd_width (pop_frame pop); height = fd_height (pop_frame pop) in
             rd_bind (rd_u32 p) (\<lambda>variant.
               if variant = 0 then rd_bind (decode_rows p width height) (\<lambda>rows. rd_return (Some (Patch rows)))
               else if variant = 1 then
                 rd_bind (rd_lift (checked_grid_size width height)) (\<lambda>expected.
                 rd_bind (decode_sequence_len p) (\<lambda>count.
                   if count \<noteq> expected then rd_fail ''popup replacement does not match popup dimensions''
                   else rd_bind (rd_many count (rd_cell p)) (\<lambda>cells. rd_return (Some (Replace cells)))))
               else rd_fail ''invalid popup grid update''))
      else rd_fail ''invalid popup update option'')"

definition decode_delta :: "'r primitives \<Rightarrow> (u16 \<times> u16) option \<Rightarrow> nat \<Rightarrow> ('r, surface_delta) reader" where
  "decode_delta p expected data_len =
    rd_bind (rd_u64 p) (\<lambda>base_projection_revision. rd_bind (rd_u64 p) (\<lambda>base_surface_revision.
    rd_bind (decode_surface p) (\<lambda>(surface, graphics).
      if \<not> graphics \<and> data_len > max_frame_size
      then rd_fail ''ordinary surface delta exceeds the frame limit''
      else
        let metadata_dimensions = (fd_width (su_frame surface), fd_height (su_frame surface)) in
        if (case expected of Some e \<Rightarrow> e \<noteq> metadata_dimensions | None \<Rightarrow> False)
        then rd_fail ''surface dimensions do not match the baseline''
        else let (width, height) = metadata_dimensions in
          rd_bind (rd_lift (checked_grid_size width height)) (\<lambda>_.
          rd_bind (decode_rows p width height) (\<lambda>rows.
          rd_bind (decode_popup_update p (su_popup surface)) (\<lambda>popup_cells.
            rd_return \<lparr>de_base_projection_revision = base_projection_revision,
              de_base_surface_revision = base_surface_revision, de_surface = surface,
              de_rows = rows, de_popup_cells = popup_cells\<rparr>))))))"

text \<open>
  The outer decoder: base64, then the reader over the bytes, which must consume all of them. The
  parameters are the base64 decoder, the reader at the start of the bytes, how much a reader has
  consumed, and the text of an error.
\<close>

record 'r codec =
  co_base64 :: "str \<Rightarrow> str + u8 list"
  co_primitives :: "'r primitives"
  co_start :: "u8 list \<Rightarrow> 'r"
  co_consumed :: "'r \<Rightarrow> nat"
  co_render :: "decode_error \<Rightarrow> str"

definition decode_bytes_with_data_len ::
  "'r codec \<Rightarrow> u8 list \<Rightarrow> (u16 \<times> u16) option \<Rightarrow> nat \<Rightarrow> str + surface_delta" where
  "decode_bytes_with_data_len c bytes expected data_len =
    (case decode_delta (co_primitives c) expected data_len (co_start c bytes) of
       Inl e \<Rightarrow> Inl (co_render c e)
     | Inr (delta, r) \<Rightarrow>
         if co_consumed c r \<noteq> length bytes then Inl (lit ''trailing surface delta bytes'')
         else Inr delta)"

definition decode_message :: "'r codec \<Rightarrow> str \<Rightarrow> (u16 \<times> u16) option \<Rightarrow> str + surface_delta" where
  "decode_message c data expected =
    (if str_len data > max_graphics_frame_size then Inl (lit ''surface delta exceeds the frame limit'')
     else case co_base64 c data of
       Inl e \<Rightarrow> Inl e
     | Inr bytes \<Rightarrow>
         if length bytes > max_graphics_frame_size
         then Inl (lit ''decoded surface delta exceeds the frame limit'')
         else decode_bytes_with_data_len c bytes expected (str_len data))"

definition decode_for :: "'r codec \<Rightarrow> str \<Rightarrow> u16 \<times> u16 \<Rightarrow> str + surface_delta" where
  "decode_for c data expected = decode_message c data (Some expected)"

section \<open>Metadata limits\<close>

definition frame_metadata_fits :: "frame_data \<Rightarrow> bool" where
  "frame_metadata_fits f \<longleftrightarrow>
     (case checked_grid_size (fd_width f) (fd_height f) of Inl _ \<Rightarrow> False | Inr cells \<Rightarrow> length (fd_cells f) = cells)
     \<and> length (fd_hyperlinks f) \<le> max_hyperlinks \<and> length (fd_graphics f) \<le> max_graphics_frame_size"

definition metadata_fits :: "pane_surface \<Rightarrow> bool" where
  "metadata_fits s \<longleftrightarrow>
     frame_metadata_fits (su_frame s) \<and> length (su_panes s) \<le> max_panes \<and> length (su_splits s) \<le> max_splits
     \<and> list_all (\<lambda>split. length (ss_path split) \<le> max_split_path) (su_splits s)
     \<and> (case su_popup s of None \<Rightarrow> True | Some popup \<Rightarrow> frame_metadata_fits (pop_frame popup))
     \<and> length (gs_assets (su_graphics s)) \<le> max_assets
     \<and> list_all (\<lambda>a. length (ga_data a) \<le> max_graphics_frame_size) (gs_assets (su_graphics s))
     \<and> length (gs_placements (su_graphics s)) \<le> max_placements
     \<and> length (gs_retained_assets (su_graphics s)) \<le> max_retained_assets"

section \<open>What is decoded fits\<close>

lemma checked_grid_size_Inr: "checked_grid_size w h = Inr n \<Longrightarrow> n = grid_size w h \<and> n \<le> max_grid_cells"
  by (auto simp: checked_grid_size_def split: if_splits)

lemma decode_count_le: "decode_count p limit message r = Inr (n, r') \<Longrightarrow> n \<le> limit"
  by (auto simp: decode_count_def rd_bind_Inr split: if_splits)

lemma decode_bounded_vec_le: "decode_bounded_vec p m limit message r = Inr (xs, r') \<Longrightarrow> length xs \<le> limit"
  by (auto simp: decode_bounded_vec_def rd_bind_Inr dest!: decode_count_le rd_many_length)

lemma rd_many_all: "rd_many n m r = Inr (as, r') \<Longrightarrow> (\<And>r a r'. m r = Inr (a, r') \<Longrightarrow> P a) \<Longrightarrow> list_all P as"
  by (induction n arbitrary: as r r') (auto simp: rd_bind_Inr)

lemma checked_usize_Some [simp]: "checked_usize n = Some m \<longleftrightarrow> n < 2 ^ 64 \<and> m = n"
  by (auto simp: checked_usize_def)

lemma decode_rows_loop_ok:
  "decode_rows_loop p width height budget n sofar prev_end r = Inr (rows, r') \<Longrightarrow>
   spans_ok width height prev_end rows \<and> length rows = n
   \<and> (n = 0 \<or> sofar + sum_list (map (\<lambda>row. length (pr_cells row)) rows) \<le> budget)"
proof (induction n arbitrary: sofar prev_end r rows)
  case (Suc n)
  from Suc.prems obtain x y len r1 r2 r3 cells r4 rest where
    ok: "\<not> (len = 0 \<or> y \<ge> height \<or> unat x \<ge> unat width \<or> len > unat width - unat x)"
    and start: "\<not> unat y * unat width + unat x < prev_end" and budget: "\<not> sofar + len > budget"
    and cells: "rd_many len (rd_cell p) r3 = Inr (cells, r4)"
    and rest: "decode_rows_loop p width height budget n (sofar + len) (unat y * unat width + unat x + len) r4 = Inr (rest, r')"
    and rows: "rows = \<lparr>pr_x = x, pr_y = y, pr_cells = cells\<rparr> # rest"
    by (auto simp: rd_bind_Inr bind_eq_Some_conv split: if_splits option.splits)
  have len: "length cells = len" using rd_many_length [OF cells] .
  from Suc.IH [OF rest] show ?case using ok start budget len by (auto simp: rows row_start_def)
qed auto

lemma decode_rows_ok:
  assumes "decode_rows p width height r = Inr (rows, r')"
  shows "spans_ok width height 0 rows \<and> length rows \<le> max_spans"
proof -
  from assms obtain budget count r1 where "decode_count p (min max_spans budget) ''too many surface delta spans'' r = Inr (count, r1)"
    and loop: "decode_rows_loop p width height budget count 0 0 r1 = Inr (rows, r')"
    by (auto simp: decode_rows_def rd_bind_Inr)
  from decode_count_le [OF this(1)] decode_rows_loop_ok [OF loop] show ?thesis by auto
qed

definition frame_shell_ok :: "frame_data \<Rightarrow> bool" where
  "frame_shell_ok f \<longleftrightarrow> fd_cells f = [] \<and> grid_size (fd_width f) (fd_height f) \<le> max_grid_cells
     \<and> length (fd_hyperlinks f) \<le> max_hyperlinks"

lemma decode_frame_ok: "decode_frame p r = Inr (f, r') \<Longrightarrow> frame_shell_ok f"
  by (auto simp: decode_frame_def rd_bind_Inr frame_shell_ok_def dest!: checked_grid_size_Inr decode_bounded_vec_le)

lemma decode_popup_ok: "decode_popup p r = Inr (Some pop, r') \<Longrightarrow> frame_shell_ok (pop_frame pop)"
  by (auto simp: decode_popup_def rd_bind_Inr dest!: decode_frame_ok split: if_splits)

definition update_ok :: "popup_surface option \<Rightarrow> grid_update option \<Rightarrow> bool" where
  "update_ok popup update =
    (case update of
       None \<Rightarrow> True
     | Some u \<Rightarrow>
         (case popup of
            None \<Rightarrow> False
          | Some pop \<Rightarrow>
              let w = fd_width (pop_frame pop); h = fd_height (pop_frame pop) in
              case u of Patch rows \<Rightarrow> spans_ok w h 0 rows | Replace cells \<Rightarrow> length cells = grid_size w h))"

lemma decode_popup_update_ok: "decode_popup_update p popup r = Inr (u, r') \<Longrightarrow> update_ok popup u"
  by (auto simp: decode_popup_update_def rd_bind_Inr update_ok_def Let_def
      dest!: decode_rows_ok rd_many_length checked_grid_size_Inr split: if_splits option.splits)

definition delta_ok :: "u16 \<times> u16 \<Rightarrow> surface_delta \<Rightarrow> bool" where
  "delta_ok wh d \<longleftrightarrow>
     (let f = su_frame (de_surface d); (w, h) = wh in
      fd_width f = w \<and> fd_height f = h \<and> frame_shell_ok f
      \<and> spans_ok w h 0 (de_rows d) \<and> length (de_rows d) \<le> max_spans
      \<and> length (su_panes (de_surface d)) \<le> max_panes \<and> length (su_splits (de_surface d)) \<le> max_splits
      \<and> (case su_popup (de_surface d) of None \<Rightarrow> True | Some pop \<Rightarrow> frame_shell_ok (pop_frame pop))
      \<and> update_ok (su_popup (de_surface d)) (de_popup_cells d))"

lemma decode_surface_ok:
  assumes "decode_surface p r = Inr ((s, g), r')"
  shows "frame_shell_ok (su_frame s) \<and> length (su_panes s) \<le> max_panes \<and> length (su_splits s) \<le> max_splits
    \<and> (case su_popup s of None \<Rightarrow> True | Some pop \<Rightarrow> frame_shell_ok (pop_frame pop))"
  using assms
  by (auto simp: decode_surface_def decode_splits_def rd_bind_Inr Let_def split: option.splits
      dest!: decode_frame_ok decode_bounded_vec_le decode_count_le rd_many_length decode_popup_ok)

lemma decode_delta_ok:
  assumes "decode_delta p (Some wh) data_len r = Inr (d, r')"
  shows "delta_ok wh d"
proof -
  obtain w h where wh: "wh = (w, h)" by (cases wh)
  from assms obtain s g r1 r2 rows r3 u where
    s: "decode_surface p r1 = Inr ((s, g), r2)" and dims: "fd_width (su_frame s) = w" "fd_height (su_frame s) = h"
    and rows: "decode_rows p w h r2 = Inr (rows, r3)"
    and u: "decode_popup_update p (su_popup s) r3 = Inr (u, r')"
    and d: "de_surface d = s" "de_rows d = rows" "de_popup_cells d = u"
    by (auto simp: decode_delta_def rd_bind_Inr wh Let_def split: if_splits)
  from decode_surface_ok [OF s] decode_rows_ok [OF rows] decode_popup_update_ok [OF u] dims show ?thesis
    by (simp add: delta_ok_def wh d Let_def)
qed

lemma decode_for_bounds_aux:
  assumes "decode_for c data (w, h) = Inr d"
  shows "delta_ok (w, h) d
    \<and> (\<forall>cells. length cells = grid_size w h \<longrightarrow> (\<exists>cells'. apply_rows w (de_rows d) cells = Some cells'))"
proof -
  from assms obtain bytes r where "decode_delta (co_primitives c) (Some (w, h)) (str_len data) (co_start c bytes) = Inr (d, r)"
    by (auto simp: decode_for_def decode_message_def decode_bytes_with_data_len_def split: if_splits sum.splits prod.splits)
  then have ok: "delta_ok (w, h) d" by (rule decode_delta_ok)
  then have "spans_ok w h 0 (de_rows d)" by (simp add: delta_ok_def Let_def)
  with ok apply_rows_total show ?thesis by blast
qed


section \<open>Witness\<close>

text \<open>A reader of a list of numbers, and the numbers of a delta that changes one cell.\<close>

definition token :: "(nat \<Rightarrow> 'a) \<Rightarrow> (nat list, 'a) reader" where
  "token f r = (case r of [] \<Rightarrow> Inl (Primitive []) | t # ts \<Rightarrow> Inr (f t, ts))"

definition demo_primitives :: "nat list primitives" where
  "demo_primitives = \<lparr>rd_u8 = token of_nat, rd_u16 = token of_nat, rd_u32 = token of_nat, rd_u64 = token of_nat,
     rd_bool = token (\<lambda>t. t \<noteq> 0), rd_string = rd_return [], rd_cell = token demo_cell,
     rd_cursor = rd_return None, rd_popup_size = rd_return None, rd_pane = rd_fail '''',
     rd_split_direction = rd_return SplitHorizontal, rd_rect = rd_fail '''', rd_asset_key = rd_fail '''',
     rd_placement = rd_fail '''', rd_claim = (\<lambda>_. rd_return ()), rd_bytes = (\<lambda>n. rd_many n (token of_nat))\<rparr>"

definition demo_codec :: "nat list codec" where
  "demo_codec = \<lparr>co_base64 = (\<lambda>_. Inr []), co_primitives = demo_primitives,
     co_start = (\<lambda>_. [1, 1, 1, 2, 0, 2, 1, 0, 0, 0, 0, 0, 0, 0, 0, 1, 1, 0, 1, 90, 0]),
     co_consumed = (\<lambda>r. length r), co_render = (\<lambda>_. [])\<rparr>"

definition demo_frame :: "cell_data list \<Rightarrow> frame_data" where
  "demo_frame cells = \<lparr>fd_cells = cells, fd_width = 2, fd_height = 1, fd_cursor = None,
     fd_hyperlinks = [], fd_graphics = []\<rparr>"

definition demo_surface :: "u64 \<Rightarrow> cell_data list \<Rightarrow> pane_surface" where
  "demo_surface revision cells = \<lparr>su_boot_id = [], su_projection_revision = 1, su_surface_revision = revision,
     su_frame = demo_frame cells, su_panes = [], su_splits = [], su_popup = None,
     su_graphics = \<lparr>gs_assets = [], gs_placements = [], gs_retained_assets = []\<rparr>\<rparr>"

definition demo_delta :: surface_delta where
  "demo_delta = \<lparr>de_base_projection_revision = 1, de_base_surface_revision = 1,
     de_surface = demo_surface 2 [], de_rows = [\<lparr>pr_x = 1, pr_y = 0, pr_cells = [demo_cell 90]\<rparr>],
     de_popup_cells = None\<rparr>"

lemma rd_step: "m r = Inr (a, r') \<Longrightarrow> rd_bind m f r = f a r'"
  by (simp add: rd_bind_def)

lemma rd_done: "rd_return a r = Inr (a, r)"
  by (simp add: rd_return_def)

lemma demo_primitive_reads:
  "rd_u8 demo_primitives (t # ts) = Inr (of_nat t, ts)"
  "rd_u16 demo_primitives (t # ts) = Inr (of_nat t, ts)"
  "rd_u32 demo_primitives (t # ts) = Inr (of_nat t, ts)"
  "rd_u64 demo_primitives (t # ts) = Inr (of_nat t, ts)"
  "rd_cell demo_primitives (t # ts) = Inr (demo_cell t, ts)"
  "rd_string demo_primitives r = Inr ([], r)"
  "rd_cursor demo_primitives r = Inr (None, r)"
  "rd_claim demo_primitives n r = Inr ((), r)"
  "rd_bytes demo_primitives 0 r = Inr ([], r)"
  by (simp_all add: demo_primitives_def token_def rd_return_def)

lemma demo_count:
  "t < 65536 \<Longrightarrow> decode_sequence_len demo_primitives (t # r) = Inr (t, r)"
  "t < 65536 \<Longrightarrow> t \<le> limit \<Longrightarrow> decode_count demo_primitives limit msg (t # r) = Inr (t, r)"
  by (simp_all add: decode_sequence_len_def decode_count_def demo_primitive_reads rd_step rd_done unat_of_nat)

lemma demo_empty:
  "decode_bounded_vec demo_primitives m limit msg (0 # r) = Inr ([], r)"
  "decode_bytes_vec demo_primitives limit msg (0 # r) = Inr ([], r)"
  "require_empty_sequence demo_primitives msg (0 # r) = Inr ((), r)"
  by (simp_all add: decode_bounded_vec_def decode_bytes_vec_def require_empty_sequence_def
      demo_count demo_primitive_reads rd_step rd_done)

lemma demo_grid_size: "rd_lift (checked_grid_size 2 1) r = Inr (2, r)"
  by (simp add: checked_grid_size_def max_grid_dimension_def grid_size_def max_grid_cells_def rd_lift_def)

lemmas demo_reads = demo_primitive_reads demo_count demo_empty demo_grid_size rd_step rd_done

lemma demo_decode_frame:
  "decode_frame demo_primitives (0 # 2 # 1 # 0 # 0 # r) = Inr (demo_frame [], r)"
  by (simp add: decode_frame_def demo_reads demo_frame_def)

lemma demo_decode_surface:
  "decode_surface demo_primitives (1 # 2 # 0 # 2 # 1 # 0 # 0 # 0 # 0 # 0 # 0 # 0 # 0 # r)
     = Inr ((demo_surface 2 [], False), r)"
  by (simp add: decode_surface_def decode_splits_def decode_popup_def decode_graphics_scene_def
      demo_reads demo_decode_frame demo_surface_def has_graphics_def Let_def
      del: One_nat_def)

lemma demo_decode_rows:
  "decode_rows demo_primitives 2 1 (1 # 1 # 0 # 1 # 90 # r)
     = Inr ([\<lparr>pr_x = 1, pr_y = 0, pr_cells = [demo_cell 90]\<rparr>], r)"
  by (simp add: decode_rows_def demo_reads max_spans_def checked_usize_def)

lemma demo_decode: "decode_for demo_codec [] (2, 1) = Inr demo_delta"
proof -
  have "decode_delta demo_primitives (Some (2, 1)) 0 [1, 1, 1, 2, 0, 2, 1, 0, 0, 0, 0, 0, 0, 0, 0, 1, 1, 0, 1, 90, 0]
      = Inr (demo_delta, [])"
    by (simp add: decode_delta_def demo_reads demo_decode_surface demo_decode_rows
        decode_popup_update_def demo_surface_def demo_frame_def demo_delta_def Let_def
        del: One_nat_def)
  then show ?thesis
    by (simp add: decode_for_def decode_message_def decode_bytes_with_data_len_def demo_codec_def)
qed


end
