(* ===== verification/SurfaceReuse.thy ===== *)
theory SurfaceReuse
  imports SurfaceDecode
begin

text \<open>
  The receiver's side of surface updates (\<open>protocol/surface_reuse.rs\<close>): a decoder per connection
  that keeps the last grid and popup as a baseline, turns deltas and cell-less surfaces back into
  complete ones, and refuses what does not continue the baseline. JSON is a parameter. The result is
  \<open>None\<close> where the code would panic on a slice that is out of range.
\<close>

section \<open>State\<close>

record popup_base =
  pb_terminal_id :: str
  pb_width :: u16
  pb_height :: u16
  pb_cells :: "cell_data list"

record cell_baseline =
  cb_boot_id :: str
  cb_projection_revision :: u64
  cb_surface_revision :: u64
  cb_width :: u16
  cb_height :: u16
  cb_cells :: "cell_data list"
  cb_popup :: "popup_base option"

record surface_decoder =
  dec_baseline :: "cell_baseline option"
  dec_surface_delta :: bool

definition decoder_new :: "bool \<Rightarrow> surface_decoder" where
  "decoder_new delta = \<lparr>dec_baseline = None, dec_surface_delta = delta\<rparr>"

definition baseline_default :: cell_baseline where
  "baseline_default = \<lparr>cb_boot_id = [], cb_projection_revision = 0, cb_surface_revision = 0, cb_width = 0,
     cb_height = 0, cb_cells = [], cb_popup = None\<rparr>"

definition popup_baseline :: "pane_surface \<Rightarrow> popup_base option" where
  "popup_baseline s = map_option (\<lambda>popup. \<lparr>pb_terminal_id = pop_terminal_id popup,
     pb_width = fd_width (pop_frame popup), pb_height = fd_height (pop_frame popup),
     pb_cells = fd_cells (pop_frame popup)\<rparr>) (su_popup s)"

definition with_cells :: "cell_data list \<Rightarrow> pane_surface \<Rightarrow> pane_surface" where
  "with_cells cells s = s\<lparr>su_frame := (su_frame s)\<lparr>fd_cells := cells\<rparr>\<rparr>"

definition with_popup_cells :: "cell_data list \<Rightarrow> popup_surface \<Rightarrow> popup_surface" where
  "with_popup_cells cells p = p\<lparr>pop_frame := (pop_frame p)\<lparr>fd_cells := cells\<rparr>\<rparr>"

section \<open>Deltas\<close>

definition links_ok :: "frame_data \<Rightarrow> bool" where
  "links_ok f \<longleftrightarrow>
     \<not> list_ex (\<lambda>c. case cd_hyperlink c of None \<Rightarrow> False | Some i \<Rightarrow> unat i \<ge> length (fd_hyperlinks f)) (fd_cells f)"

text \<open>The match on the popup of the surface and its update.\<close>

definition popup_previous :: "cell_baseline \<Rightarrow> popup_surface \<Rightarrow> popup_base option" where
  "popup_previous base popup =
    (case cb_popup base of
       None \<Rightarrow> None
     | Some prev \<Rightarrow>
         if pb_terminal_id prev = pop_terminal_id popup
            \<and> pb_width prev = fd_width (pop_frame popup) \<and> pb_height prev = fd_height (pop_frame popup)
            \<and> length (pb_cells prev) = grid_size (fd_width (pop_frame popup)) (fd_height (pop_frame popup))
         then Some prev else None)"

definition apply_popup_update ::
  "cell_baseline \<Rightarrow> popup_surface option \<Rightarrow> grid_update option \<Rightarrow> (str + popup_surface option) option" where
  "apply_popup_update base popup update =
    (case (popup, update) of
       (None, None) \<Rightarrow> Some (Inr None)
     | (Some p, Some (Replace cells)) \<Rightarrow> Some (Inr (Some (with_popup_cells cells p)))
     | (Some p, Some (Patch rows)) \<Rightarrow>
         (case popup_previous base p of
            None \<Rightarrow> Some (Inl (lit ''popup delta does not match its baseline''))
          | Some prev \<Rightarrow>
              map_option (\<lambda>cells. Inr (Some (with_popup_cells cells p)))
                (apply_rows (pb_width prev) rows (pb_cells prev)))
     | _ \<Rightarrow> Some (Inl (lit ''popup delta is missing or unexpected'')))"

definition delta_continues :: "cell_baseline \<Rightarrow> surface_delta \<Rightarrow> bool" where
  "delta_continues base d \<longleftrightarrow>
     (let s = de_surface d in
      \<not> (su_boot_id s \<noteq> cb_boot_id base
        \<or> de_base_projection_revision d \<noteq> cb_projection_revision base
        \<or> de_base_surface_revision d \<noteq> cb_surface_revision base
        \<or> su_surface_revision s \<noteq> saturating_add (cb_surface_revision base) 1
        \<or> su_projection_revision s < cb_projection_revision base
        \<or> length (cb_cells base) \<noteq> grid_size (cb_width base) (cb_height base)))"

definition decode_surface_delta ::
  "'r codec \<Rightarrow> str \<Rightarrow> surface_decoder \<Rightarrow> ((str + pane_surface) \<times> surface_decoder) option" where
  "decode_surface_delta c data dec =
    (case dec_baseline dec of
       None \<Rightarrow> Some (Inl (lit ''surface delta without a baseline''), dec)
     | Some base \<Rightarrow>
    (case decode_for c data (cb_width base, cb_height base) of
       Inl e \<Rightarrow> Some (Inl e, dec)
     | Inr d \<Rightarrow>
       if \<not> delta_continues base d then Some (Inl (lit ''surface delta does not match its baseline''), dec)
       else
    (case apply_rows (cb_width base) (de_rows d) (cb_cells base) of
       None \<Rightarrow> None
     | Some cells \<Rightarrow>
    (case apply_popup_update base (su_popup (de_surface d)) (de_popup_cells d) of
       None \<Rightarrow> None
     | Some (Inl e) \<Rightarrow> Some (Inl e, dec)
     | Some (Inr popup) \<Rightarrow>
       let s = (with_cells cells (de_surface d))\<lparr>su_popup := popup\<rparr> in
       if \<not> (links_ok (su_frame s) \<and> (case su_popup s of None \<Rightarrow> True | Some p \<Rightarrow> links_ok (pop_frame p)))
       then Some (Inl (lit ''surface delta has an invalid hyperlink index''), dec)
       else Some (Inr s, dec\<lparr>dec_baseline := Some (base\<lparr>cb_cells := cells, cb_popup := popup_baseline s,
              cb_projection_revision := su_projection_revision s,
              cb_surface_revision := su_surface_revision s\<rparr>)\<rparr>)))))"

section \<open>Messages\<close>

text \<open>A legacy patch writes its rows one by one and stops at the first that does not fit.\<close>

fun patch_rows :: "cell_baseline \<Rightarrow> patch_row list \<Rightarrow> bool \<times> cell_baseline" where
  "patch_rows base [] = (True, base)"
| "patch_rows base (row # rows) =
    (let start = row_start (cb_width base) row; stop = start + length (pr_cells row) in
     if pr_y row \<ge> cb_height base \<or> unat (pr_x row) + length (pr_cells row) > unat (cb_width base)
        \<or> stop > length (cb_cells base)
     then (False, base)
     else patch_rows (base\<lparr>cb_cells := overwrite start (pr_cells row) (cb_cells base)\<rparr>) rows)"

definition reuse_continues :: "cell_baseline \<Rightarrow> u64 \<Rightarrow> pane_surface \<Rightarrow> bool" where
  "reuse_continues base base_revision s \<longleftrightarrow>
     \<not> (cb_boot_id base \<noteq> su_boot_id s \<or> cb_surface_revision base \<noteq> base_revision
       \<or> su_surface_revision s \<noteq> saturating_add (cb_surface_revision base) 1
       \<or> cb_width base \<noteq> fd_width (su_frame s) \<or> cb_height base \<noteq> fd_height (su_frame s)
       \<or> fd_cells (su_frame s) \<noteq> [])"

definition decode_reuse ::
  "(str \<Rightarrow> str + u64 \<times> pane_surface) \<Rightarrow> str \<Rightarrow> surface_decoder \<Rightarrow> (str + pane_surface) \<times> surface_decoder" where
  "decode_reuse json data dec =
    (case json data of
       Inl e \<Rightarrow> (Inl (lit ''invalid surface reuse: '' @ e), dec)
     | Inr (base_revision, s) \<Rightarrow>
    (case dec_baseline dec of
       None \<Rightarrow> (Inl (lit ''surface reuse without a baseline''), dec)
     | Some base \<Rightarrow>
       if \<not> reuse_continues base base_revision s
       then (Inl (lit ''surface reuse does not match its baseline''), dec)
       else
         let s' = with_cells (cb_cells base) s;
             base' = base\<lparr>cb_projection_revision := su_projection_revision s',
                         cb_surface_revision := su_surface_revision s'\<rparr>;
             base'' = (if dec_surface_delta dec then base'\<lparr>cb_popup := popup_baseline s'\<rparr> else base')
         in (Inr s', dec\<lparr>dec_baseline := Some base''\<rparr>)))"

definition observe_surface :: "pane_surface \<Rightarrow> surface_decoder \<Rightarrow> surface_decoder" where
  "observe_surface s dec =
    (let base = (case dec_baseline dec of None \<Rightarrow> baseline_default | Some b \<Rightarrow> b);
         base' = base\<lparr>cb_boot_id := su_boot_id s, cb_projection_revision := su_projection_revision s,
           cb_surface_revision := su_surface_revision s, cb_width := fd_width (su_frame s),
           cb_height := fd_height (su_frame s), cb_cells := fd_cells (su_frame s)\<rparr>
     in dec\<lparr>dec_baseline := Some (if dec_surface_delta dec then base'\<lparr>cb_popup := popup_baseline s\<rparr> else base')\<rparr>)"

definition patch_continues :: "cell_baseline \<Rightarrow> surface_patch \<Rightarrow> bool" where
  "patch_continues base patch \<longleftrightarrow>
     \<not> (pp_boot_id patch \<noteq> cb_boot_id base \<or> pp_projection_revision patch \<noteq> cb_projection_revision base
       \<or> pp_base_surface_revision patch \<noteq> cb_surface_revision base
       \<or> pp_surface_revision patch \<noteq> saturating_add (cb_surface_revision base) 1)"

definition observe_patch :: "surface_patch \<Rightarrow> surface_decoder \<Rightarrow> (str + unit) \<times> surface_decoder" where
  "observe_patch patch dec =
    (case dec_baseline dec of
       None \<Rightarrow> (Inr (), dec)
     | Some base \<Rightarrow>
       if \<not> patch_continues base patch then (Inr (), dec\<lparr>dec_baseline := None\<rparr>)
       else case patch_rows base (pp_rows patch) of
         (False, base') \<Rightarrow> (Inl (lit ''surface patch exceeds the cell baseline''), dec\<lparr>dec_baseline := Some base'\<rparr>)
       | (True, base') \<Rightarrow>
           (Inr (), dec\<lparr>dec_baseline := Some (base'\<lparr>cb_surface_revision := pp_surface_revision patch\<rparr>)\<rparr>))"

definition decode_server_message ::
  "'r codec \<Rightarrow> (str \<Rightarrow> str + u64 \<times> pane_surface) \<Rightarrow> 'o server_message \<Rightarrow> surface_decoder
   \<Rightarrow> ((str + 'o server_message) \<times> surface_decoder) option" where
  "decode_server_message c json message dec =
    (case message of
       EndpointControl kind data \<Rightarrow>
         if kind = delta_kind then
           if \<not> dec_surface_delta dec then Some (Inl (lit ''surface delta was not negotiated''), dec)
           else map_option (\<lambda>(res, dec'). (map_sum id PaneSurface res, dec')) (decode_surface_delta c data dec)
         else if kind = reuse_kind then
           (case decode_reuse json data dec of (res, dec') \<Rightarrow> Some (map_sum id PaneSurface res, dec'))
         else Some (Inr message, dec)
     | PaneSurface s \<Rightarrow> Some (Inr message, observe_surface s dec)
     | PaneSurfacePatch patch \<Rightarrow>
         (case observe_patch patch dec of
            (Inl e, dec') \<Rightarrow> Some (Inl e, dec')
          | (Inr _, dec') \<Rightarrow> Some (Inr message, dec'))
     | OtherMessage _ \<Rightarrow> Some (Inr message, dec))"

section \<open>The decoder never panics\<close>

lemma apply_popup_update_total:
  assumes "update_ok popup update"
  shows "apply_popup_update base popup update \<noteq> None"
proof -
  have "apply_rows (pb_width prev) rows (pb_cells prev) \<noteq> None"
    if "popup_previous base p = Some prev" "spans_ok (fd_width (pop_frame p)) (fd_height (pop_frame p)) 0 rows" for p prev rows
    using that apply_rows_total [OF that(2), of "pb_cells prev"]
    by (auto simp: popup_previous_def split: option.splits if_splits)
  with assms show ?thesis
    by (auto simp: apply_popup_update_def update_ok_def Let_def split: option.splits grid_update.splits)
qed

lemma decode_surface_delta_cases:
  obtains
    (refused) e where "decode_surface_delta c data dec = Some (Inl e, dec)"
  | (accepted) base d cells popup s where
      "dec_baseline dec = Some base" "decode_for c data (cb_width base, cb_height base) = Inr d"
      "delta_continues base d" "apply_rows (cb_width base) (de_rows d) (cb_cells base) = Some cells"
      "apply_popup_update base (su_popup (de_surface d)) (de_popup_cells d) = Some (Inr popup)"
      "s = (with_cells cells (de_surface d))\<lparr>su_popup := popup\<rparr>"
      "decode_surface_delta c data dec = Some (Inr s, dec\<lparr>dec_baseline := Some (base\<lparr>cb_cells := cells,
         cb_popup := popup_baseline s, cb_projection_revision := su_projection_revision s,
         cb_surface_revision := su_surface_revision s\<rparr>)\<rparr>)"
proof (cases "dec_baseline dec")
  case None
  then show ?thesis by (intro refused) (simp add: decode_surface_delta_def)
next
  case base: (Some base)
  show ?thesis
  proof (cases "decode_for c data (cb_width base, cb_height base)")
    case (Inl e)
    with base show ?thesis by (intro refused) (simp add: decode_surface_delta_def)
  next
    case (Inr d)
    note b = decode_for_bounds_aux [OF Inr]
    show ?thesis
    proof (cases "delta_continues base d")
      case False
      with base Inr show ?thesis by (intro refused) (simp add: decode_surface_delta_def)
    next
      case True
      then have "length (cb_cells base) = grid_size (cb_width base) (cb_height base)"
        by (simp add: delta_continues_def Let_def)
      with b obtain cells where cells: "apply_rows (cb_width base) (de_rows d) (cb_cells base) = Some cells" by blast
      have "update_ok (su_popup (de_surface d)) (de_popup_cells d)" using b by (simp add: delta_ok_def Let_def)
      then obtain res where res: "apply_popup_update base (su_popup (de_surface d)) (de_popup_cells d) = Some res"
        using apply_popup_update_total by blast
      show ?thesis
      proof (cases res)
        case (Inl e)
        with base \<open>decode_for _ _ _ = Inr d\<close> True cells res show ?thesis
          by (intro refused [of e]) (simp add: decode_surface_delta_def)
      next
        case popup: (Inr popup)
        let ?s = "(with_cells cells (de_surface d))\<lparr>su_popup := popup\<rparr>"
        show ?thesis
        proof (cases "links_ok (su_frame ?s) \<and> (case su_popup ?s of None \<Rightarrow> True | Some p \<Rightarrow> links_ok (pop_frame p))")
          case False
          with base Inr True cells res popup show ?thesis
            by (intro refused) (simp add: decode_surface_delta_def Let_def)
        next
          case links: True
          with base Inr True cells res popup show ?thesis
            by (intro accepted [of base d cells popup ?s]) (simp_all add: decode_surface_delta_def Let_def)
        qed
      qed
    qed
  qed
qed

lemma map_sum_Inl: "map_sum f g x = Inl e \<longleftrightarrow> (\<exists>a. x = Inl a \<and> e = f a)"
  and map_sum_Inr: "map_sum f g x = Inr y \<longleftrightarrow> (\<exists>b. x = Inr b \<and> y = g b)"
  by (cases x; auto)+

lemma decode_server_message_total: "\<exists>res dec'. decode_server_message c json m dec = Some (res, dec')"
proof (cases m)
  case (EndpointControl kind data)
  obtain x where "decode_surface_delta c data dec = Some x"
    by (rule decode_surface_delta_cases [of c data dec]) auto
  with EndpointControl show ?thesis
    by (auto simp: decode_server_message_def split: prod.splits)
qed (auto simp: decode_server_message_def split: prod.splits sum.splits)

text \<open>
  C24: decoding never panics, whatever the message, the state and the codec; and a delta or reuse message
  that is refused leaves the decoder exactly as it was.
\<close>

theorem decode_total_atomic:
  "\<exists>res dec'. decode_server_message c json m dec = Some (res, dec')
     \<and> (case (m, res) of (EndpointControl _ _, Inl _) \<Rightarrow> dec' = dec | _ \<Rightarrow> True)"
proof -
  obtain res dec' where r: "decode_server_message c json m dec = Some (res, dec')"
    using decode_server_message_total by blast
  have "dec' = dec" if m: "m = EndpointControl kind data" and e: "res = Inl e" for kind data e
  proof (cases "kind = delta_kind \<and> dec_surface_delta dec")
    case True
    with r m e have "decode_surface_delta c data dec = Some (Inl e, dec')"
      by (auto simp: decode_server_message_def map_sum_Inl)
    then show ?thesis by (cases rule: decode_surface_delta_cases [of c data dec])
        (auto simp: decode_surface_delta_def Let_def split: option.splits sum.splits if_splits)
  next
    case False
    with r m e show ?thesis
      by (auto simp: decode_server_message_def decode_reuse_def Let_def
          split: option.splits sum.splits if_splits prod.splits)
  qed
  then show ?thesis using r by (auto split: server_message.splits sum.splits)
qed

section \<open>The baseline is the last surface\<close>

definition tracks :: "surface_decoder \<Rightarrow> pane_surface \<Rightarrow> bool" where
  "tracks dec s \<longleftrightarrow>
     (case dec_baseline dec of
        None \<Rightarrow> False
      | Some b \<Rightarrow> cb_boot_id b = su_boot_id s \<and> cb_projection_revision b = su_projection_revision s
          \<and> cb_surface_revision b = su_surface_revision s
          \<and> cb_width b = fd_width (su_frame s) \<and> cb_height b = fd_height (su_frame s)
          \<and> cb_cells b = fd_cells (su_frame s)
          \<and> (dec_surface_delta dec \<longrightarrow> cb_popup b = popup_baseline s))"

lemma popup_baseline_frame [simp]: "popup_baseline (with_cells cells s) = popup_baseline s"
  by (simp add: popup_baseline_def with_cells_def)

lemma decode_surface_delta_tracks:
  assumes "decode_surface_delta c data dec = Some (Inr s, dec')"
  shows "tracks dec' s \<and> dec_surface_delta dec' = dec_surface_delta dec"
proof (rule decode_surface_delta_cases [of c data dec])
  fix base d cells popup s'
  assume base: "dec_baseline dec = Some base" and d: "decode_for c data (cb_width base, cb_height base) = Inr d"
    and cont: "delta_continues base d"
    and s': "s' = (with_cells cells (de_surface d))\<lparr>su_popup := popup\<rparr>"
    and dec: "decode_surface_delta c data dec = Some (Inr s', dec\<lparr>dec_baseline := Some (base\<lparr>cb_cells := cells,
         cb_popup := popup_baseline s', cb_projection_revision := su_projection_revision s',
         cb_surface_revision := su_surface_revision s'\<rparr>)\<rparr>)"
  have "fd_width (su_frame (de_surface d)) = cb_width base" "fd_height (su_frame (de_surface d)) = cb_height base"
    using decode_for_bounds_aux [OF d] by (simp_all add: delta_ok_def Let_def)
  moreover have "su_boot_id (de_surface d) = cb_boot_id base" using cont by (simp add: delta_continues_def Let_def)
  ultimately show ?thesis using assms dec s' by (auto simp: tracks_def with_cells_def)
qed (use assms in simp)

lemma decode_reuse_tracks:
  "decode_reuse json data dec = (Inr s, dec') \<Longrightarrow> tracks dec' s \<and> dec_surface_delta dec' = dec_surface_delta dec"
  by (auto simp: decode_reuse_def reuse_continues_def tracks_def with_cells_def Let_def
      split: sum.splits option.splits if_splits prod.splits)

text \<open>
  After every message decoded to a complete surface, from a full surface, a reuse or a delta alike,
  the baseline is that surface: identity, revisions, size, every cell, and the popup where deltas were
  negotiated. The next update can therefore build on it whichever way it comes.
\<close>

theorem decode_tracks_surface:
  assumes "decode_server_message c json m dec = Some (Inr (PaneSurface s), dec')"
  shows "tracks dec' s \<and> dec_surface_delta dec' = dec_surface_delta dec"
proof (cases m)
  case (PaneSurface s')
  with assms show ?thesis
    by (auto simp: decode_server_message_def observe_surface_def tracks_def Let_def split: option.splits)
next
  case (EndpointControl kind data)
  with assms show ?thesis
    using decode_surface_delta_tracks [of c data dec s dec'] decode_reuse_tracks [of json data dec s dec']
    by (auto simp: decode_server_message_def map_sum_Inr split: if_splits prod.splits)
qed (use assms in \<open>auto simp: decode_server_message_def split: prod.splits sum.splits\<close>)

section \<open>The sender\<close>

text \<open>
  \<open>surface_delta::message\<close>: the sizes of the encodings and the encoders are parameters. The cells the
  code takes out of the surface while it encodes are put back, so the surface itself is unchanged.
\<close>

record 'o encoder =
  en_span_size :: "patch_row \<Rightarrow> str + nat"
  en_delta_size :: "surface_delta \<Rightarrow> str + nat"
  en_message_size :: "'o server_message \<Rightarrow> str + nat"
  en_base64_len :: "nat \<Rightarrow> nat option"
  en_delta :: "surface_delta \<Rightarrow> str + u8 list"
  en_base64 :: "u8 list \<Rightarrow> str"

definition previous_popup :: "pane_surface \<Rightarrow> popup_surface \<Rightarrow> popup_surface option" where
  "previous_popup prev popup =
    (case su_popup prev of
       None \<Rightarrow> None
     | Some p \<Rightarrow>
         if pop_terminal_id p = pop_terminal_id popup
            \<and> fd_width (pop_frame p) = fd_width (pop_frame popup)
            \<and> fd_height (pop_frame p) = fd_height (pop_frame popup)
            \<and> length (fd_cells (pop_frame p)) = length (fd_cells (pop_frame popup))
         then Some p else None)"

definition popup_plan ::
  "'o encoder \<Rightarrow> pane_surface \<Rightarrow> popup_surface option \<Rightarrow> nat \<Rightarrow> grid_update option plan" where
  "popup_plan en prev popup full_size =
    (case popup of
       None \<Rightarrow> PlanSome None
     | Some pop \<Rightarrow>
         (case previous_popup prev pop of
            Some p \<Rightarrow>
              (case changed_rows (en_span_size en) (en_base64_len en) (fd_cells (pop_frame p))
                      (fd_cells (pop_frame pop)) (fd_width (pop_frame pop)) full_size of
                 PlanSome rows \<Rightarrow> PlanSome (Some (Patch rows))
               | PlanNone \<Rightarrow> PlanNone | PlanErr e \<Rightarrow> PlanErr e | PlanPanic \<Rightarrow> PlanPanic)
          | None \<Rightarrow> PlanSome (Some (Replace (fd_cells (pop_frame pop))))))"

definition shell_of :: "pane_surface \<Rightarrow> pane_surface" where
  "shell_of s = (with_cells [] s)\<lparr>su_popup := map_option (with_popup_cells []) (su_popup s)\<rparr>"

definition delta_of :: "pane_surface \<Rightarrow> pane_surface \<Rightarrow> patch_row list \<Rightarrow> grid_update option \<Rightarrow> surface_delta" where
  "delta_of prev s rows popup_cells =
    \<lparr>de_base_projection_revision = su_projection_revision prev,
     de_base_surface_revision = su_surface_revision prev,
     de_surface = shell_of s, de_rows = rows, de_popup_cells = popup_cells\<rparr>"

definition encode_delta ::
  "'o encoder \<Rightarrow> nat \<Rightarrow> nat \<Rightarrow> surface_delta \<Rightarrow> 'o server_message plan" where
  "encode_delta en limit full_size d =
    (case en_delta_size en d of
       Inl e \<Rightarrow> PlanErr e
     | Inr sz \<Rightarrow>
    (case en_base64_len en sz of
       None \<Rightarrow> PlanErr (lit ''surface delta size overflow'')
     | Some encoded_len \<Rightarrow>
       if encoded_len > limit \<or> encoded_len \<ge> full_size then PlanNone
       else
    (case en_delta en d of
       Inl e \<Rightarrow> PlanErr e
     | Inr bytes \<Rightarrow>
       let message = EndpointControl delta_kind (en_base64 en bytes) in
    (case en_message_size en message of
       Inl e \<Rightarrow> PlanErr e
     | Inr sz \<Rightarrow> if sz \<le> limit \<and> sz < full_size then PlanSome message else PlanNone))))"

definition delta_message ::
  "'o encoder \<Rightarrow> pane_surface \<Rightarrow> 'o server_message \<Rightarrow> 'o server_message plan" where
  "delta_message en prev full =
    (case full of
       PaneSurface s \<Rightarrow>
         if su_boot_id prev \<noteq> su_boot_id s
            \<or> fd_width (su_frame prev) \<noteq> fd_width (su_frame s) \<or> fd_height (su_frame prev) \<noteq> fd_height (su_frame s)
            \<or> length (fd_cells (su_frame prev)) \<noteq> grid_size (fd_width (su_frame s)) (fd_height (su_frame s))
            \<or> \<not> metadata_fits s
         then PlanNone
         else case en_message_size en full of
           Inl e \<Rightarrow> PlanErr e
         | Inr full_size \<Rightarrow>
             let limit = (if \<not> has_graphics s then max_frame_size else max_graphics_frame_size) in
             (case changed_rows (en_span_size en) (en_base64_len en) (fd_cells (su_frame prev))
                     (fd_cells (su_frame s)) (fd_width (su_frame s)) full_size of
                PlanSome rows \<Rightarrow>
                  (case popup_plan en prev (su_popup s) full_size of
                     PlanSome popup_cells \<Rightarrow> encode_delta en limit full_size (delta_of prev s rows popup_cells)
                   | PlanNone \<Rightarrow> PlanNone | PlanErr e \<Rightarrow> PlanErr e | PlanPanic \<Rightarrow> PlanPanic)
              | PlanNone \<Rightarrow> PlanNone | PlanErr e \<Rightarrow> PlanErr e | PlanPanic \<Rightarrow> PlanPanic)
     | _ \<Rightarrow> PlanNone)"

section \<open>From the sender to the receiver\<close>

lemma delta_message_Some:
  assumes "delta_message en prev (PaneSurface s) = PlanSome msg"
  obtains full_size rows popup_cells bytes where
    "su_boot_id prev = su_boot_id s" "fd_width (su_frame prev) = fd_width (su_frame s)"
    "fd_height (su_frame prev) = fd_height (su_frame s)" "metadata_fits s"
    "length (fd_cells (su_frame prev)) = grid_size (fd_width (su_frame s)) (fd_height (su_frame s))"
    "changed_rows (en_span_size en) (en_base64_len en) (fd_cells (su_frame prev))
       (fd_cells (su_frame s)) (fd_width (su_frame s)) full_size = PlanSome rows"
    "popup_plan en prev (su_popup s) full_size = PlanSome popup_cells"
    "en_delta en (delta_of prev s rows popup_cells) = Inr bytes"
    "msg = EndpointControl delta_kind (en_base64 en bytes)"
  using assms
  by (auto simp: delta_message_def encode_delta_def Let_def
      split: if_splits sum.splits plan.splits option.splits)

lemma metadata_fits_cells:
  "metadata_fits s \<Longrightarrow> length (fd_cells (su_frame s)) = grid_size (fd_width (su_frame s)) (fd_height (su_frame s))
   \<and> (\<forall>p. su_popup s = Some p \<longrightarrow>
        length (fd_cells (pop_frame p)) = grid_size (fd_width (pop_frame p)) (fd_height (pop_frame p)))"
  by (auto simp: metadata_fits_def frame_metadata_fits_def checked_grid_size_def split: sum.splits if_splits)

lemma popup_plan_applies:
  assumes "popup_plan en prev popup full_size = PlanSome u"
    and "cb_popup base = popup_baseline prev"
    and "\<And>p. popup = Some p \<Longrightarrow>
      length (fd_cells (pop_frame p)) = grid_size (fd_width (pop_frame p)) (fd_height (pop_frame p))"
  shows "apply_popup_update base (map_option (with_popup_cells []) popup) u = Some (Inr popup)"
proof (cases popup)
  case None
  with assms(1) show ?thesis by (auto simp: popup_plan_def apply_popup_update_def)
next
  case (Some pop)
  have restore: "with_popup_cells (fd_cells (pop_frame pop)) (with_popup_cells [] pop) = pop"
    by (simp add: with_popup_cells_def)
  show ?thesis
  proof (cases "previous_popup prev pop")
    case None
    with Some assms(1) restore show ?thesis by (auto simp: popup_plan_def apply_popup_update_def)
  next
    case prev: (Some p)
    then have p: "su_popup prev = Some p" "pop_terminal_id p = pop_terminal_id pop"
      "fd_width (pop_frame p) = fd_width (pop_frame pop)" "fd_height (pop_frame p) = fd_height (pop_frame pop)"
      "length (fd_cells (pop_frame p)) = length (fd_cells (pop_frame pop))"
      by (auto simp: previous_popup_def split: option.splits if_splits)
    from assms(1) Some prev obtain rows where u: "u = Some (Patch rows)"
      and rows: "changed_rows (en_span_size en) (en_base64_len en) (fd_cells (pop_frame p))
        (fd_cells (pop_frame pop)) (fd_width (pop_frame pop)) full_size = PlanSome rows"
      by (auto simp: popup_plan_def split: plan.splits)
    have len: "length (fd_cells (pop_frame pop)) = grid_size (fd_width (pop_frame pop)) (fd_height (pop_frame pop))"
      using assms(3) Some by blast
    have "apply_rows (fd_width (pop_frame pop)) rows (fd_cells (pop_frame p)) = Some (fd_cells (pop_frame pop))"
      by (rule changed_rows_apply_aux [OF rows]) (simp_all add: p(5) len)
    moreover have "popup_previous base (with_popup_cells [] pop) = Some \<lparr>pb_terminal_id = pop_terminal_id p,
        pb_width = fd_width (pop_frame p), pb_height = fd_height (pop_frame p), pb_cells = fd_cells (pop_frame p)\<rparr>"
      using assms(2) p len by (simp add: popup_previous_def popup_baseline_def with_popup_cells_def)
    ultimately show ?thesis using Some u p restore by (simp add: apply_popup_update_def)
  qed
qed


section \<open>Witnesses\<close>

definition demo_prev :: pane_surface where
  "demo_prev = demo_surface 1 [demo_cell 65, demo_cell 66]"

definition demo_next :: pane_surface where
  "demo_next = demo_surface 2 [demo_cell 65, demo_cell 90]"

definition demo_decoder :: surface_decoder where
  "demo_decoder = observe_surface demo_prev (decoder_new True)"

definition demo_encoder :: "unit encoder" where
  "demo_encoder = \<lparr>en_span_size = (\<lambda>_. Inr 1), en_delta_size = (\<lambda>_. Inr 1),
     en_message_size = (\<lambda>m. case m of PaneSurface _ \<Rightarrow> Inr 100 | _ \<Rightarrow> Inr 1), en_base64_len = Some,
     en_delta = (\<lambda>d. if d = demo_delta then Inr [] else Inl []), en_base64 = (\<lambda>_. [])\<rparr>"

lemma demo_tracks: "tracks demo_decoder demo_prev" "dec_surface_delta demo_decoder"
  by (simp_all add: tracks_def demo_decoder_def observe_surface_def decoder_new_def Let_def)

lemma demo_message: "delta_message demo_encoder demo_prev (PaneSurface demo_next) = PlanSome (EndpointControl delta_kind [])"
proof -
  have fits: "metadata_fits demo_next"
    by (simp add: metadata_fits_def frame_metadata_fits_def demo_next_def demo_surface_def demo_frame_def
        checked_grid_size_def max_grid_dimension_def grid_size_def max_grid_cells_def)
  have rows: "changed_rows (\<lambda>_. Inr 1) Some [demo_cell 65, demo_cell 66] [demo_cell 65, demo_cell 90] 2 100
      = PlanSome [\<lparr>pr_x = 1, pr_y = 0, pr_cells = [demo_cell 90]\<rparr>]"
    by (simp add: changed_rows_def chunks.simps demo_cell_def max_spans_def Let_def)
  have delta: "delta_of demo_prev demo_next [\<lparr>pr_x = 1, pr_y = 0, pr_cells = [demo_cell 90]\<rparr>] None = demo_delta"
    by (simp add: delta_of_def demo_delta_def shell_of_def with_cells_def demo_prev_def demo_next_def
        demo_surface_def demo_frame_def)
  have cells: "fd_cells (su_frame demo_prev) = [demo_cell 65, demo_cell 66]"
    "fd_cells (su_frame demo_next) = [demo_cell 65, demo_cell 90]" "su_popup demo_next = None"
    "fd_width (su_frame demo_prev) = 2" "fd_width (su_frame demo_next) = 2"
    "fd_height (su_frame demo_prev) = 1" "fd_height (su_frame demo_next) = 1"
    "su_boot_id demo_prev = []" "su_boot_id demo_next = []" "\<not> has_graphics demo_next"
    by (simp_all add: demo_prev_def demo_next_def demo_surface_def demo_frame_def has_graphics_def)
  show ?thesis
    by (simp add: delta_message_def cells fits demo_encoder_def rows popup_plan_def delta encode_delta_def
        grid_size_def max_frame_size_def Let_def del: One_nat_def)
qed


theorem decode_tracks_surface_witness:
  "tracks (observe_surface demo_prev (decoder_new True)) demo_prev"
proof -
  have "decode_server_message demo_codec (\<lambda>_. Inl []) (PaneSurface demo_prev :: unit server_message) (decoder_new True)
      = Some (Inr (PaneSurface demo_prev), observe_surface demo_prev (decoder_new True))"
    by (simp add: decode_server_message_def)
  from decode_tracks_surface [OF this] show ?thesis by blast
qed

end
