(* ===== verification/Spec2Isabelle.thy ===== *)
theory Spec2Isabelle
  imports Organization OrgService EventHub Layout Geometry Tab PublicIds Workspace WorkspaceRuns
    Agents HashMaps TerminalState ManagedAgent AgentMetadata AgentReports HookReports AgentDetection
    TerminalInv TerminalRuns TerminalExit AppState AppIds PaneMove PaneMoveInv PaneMoveSafe PaneMoveRuns
    AppActions AppEvents AppInv AppLifecycle AppClose AppRuns AppNotify TerminalChanges AppUnseen AppSeen
    KittyKeyboard RenderSignal EndpointCatalog EndpointRegistry EndpointRegistryRuns EndpointCommands EndpointSupervisor
    EndpointRetry EndpointPolicy ProcessAgents
    Selection Popup InputLease Keys KeyParse KeyEncode KeyRoundTrip AgentView Surface SurfaceDecode SurfaceReuse
begin

text \<open>
  This library models the core of Teaser, a workspace manager for terminals and coding agents: the
  organization crate (\<open>src/crates/teaser-core\<close>) and the runtime it drives, a fork of Herdr
  (\<open>src/runtime/herdr/src\<close>). Paths below are relative to the runtime unless they start with
  \<open>crates\<close>.

  The program. A server keeps workspaces of tabs; each tab tiles its area with panes, each pane shows a
  terminal. Beside them it keeps the organization: a revisioned snapshot of projects, workspaces and
  panels that clients change by requests and that may bind panels to panes. Changes are published
  through an event hub that clients poll. Each terminal keeps what is known of the coding agent in it:
  the process that was detected, what its screen shows, what the hooks of the agent report, the
  session that could be resumed, and metadata set from outside; from these it arbitrates the state that is shown.
  The server sends clients the contents of panes as surfaces,
  whole or as deltas against the last one. Clients turn keys and mouse gestures into commands, keep
  track of which key presses belong to which pane, and list the agents of all panes through a view
  with a filter and sort keys.

  Theories and code.
  \<^item> \<open>Prelude\<close>: strings as lists of code points with UTF-8 lengths, results as sums, vectors of
    records, saturating and checked machine arithmetic, and the locales \<open>keyed_vec\<close> (a vector searched
    by a key), \<open>machine\<close> (steps that keep an invariant) and \<open>related_machine\<close> (steps that also grow
    along a relation). \<open>Ieee\<close>: 32- and 64-bit floats as rationals with infinities and not-a-number,
    rounded after each operation.
  \<^item> \<open>Organization\<close> (\<open>crates/teaser-core/src/lib.rs\<close>): snapshot, validator, commands, \<open>applying\<close>.
    The lemmas show that the validator decides well-formedness, that commands act on three maps from
    identifiers, and that requests are optimistic transactions. \<open>OrgService\<close>
    (\<open>app/api/organization.rs\<close>): the handlers over it, reconciling panel bindings with live panes and
    publishing. \<open>EventHub\<close> (\<open>api/event_hub.rs\<close>): the bounded, numbered buffer of events.
  \<^item> \<open>Layout\<close> and \<open>Geometry\<close> (\<open>layout.rs\<close>): the tree of splits, its operations, the rectangles, the
    search in a direction and resizing. The lemmas give the leaves after each operation, an invariant,
    and the partition of the area. \<open>Tab\<close> (\<open>workspace/tab.rs\<close>) adds the states of the panes and
    the rollback of a failed split; \<open>PublicIds\<close> and \<open>Workspace\<close> (\<open>workspace.rs\<close>) add public numbers
    and the operations on several tabs, and \<open>WorkspaceRuns\<close> treats them as a machine.
  \<^item> \<open>AppState\<close> (\<open>app/state.rs\<close>): the state of the application, the workspaces, the terminals their
    panes show and what is kept beside them. \<open>AppIds\<close> (\<open>app/ids.rs\<close>): identifiers in requests.
    \<open>PaneMove\<close> (\<open>app/api/panes.rs\<close>): moving a pane to another tab, a new tab or a new workspace;
    \<open>PaneMoveInv\<close>, \<open>PaneMoveSafe\<close> and \<open>PaneMoveRuns\<close> show that no pane is lost and when the code can panic.
    \<open>AppActions\<close> and \<open>AppEvents\<close> (\<open>app/actions.rs\<close>, \<open>config/sound.rs\<close>): focus, zoom, the order of
    workspaces, closing, the death of panes, events of agents and the notifications they cause. \<open>AppInv\<close>
    states the invariant of the application and that each operation keeps it; \<open>AppLifecycle\<close>, \<open>AppClose\<close> and
    \<open>AppRuns\<close> show what closing leaves behind and treat the application as a machine; \<open>AppNotify\<close>,
    \<open>AppUnseen\<close> and \<open>AppSeen\<close> show what is delivered and which panes are shown as done.
  \<^item> \<open>Agents\<close> (\<open>detect/mod.rs\<close>, \<open>agent_resume.rs\<close>): labels, official sources, sessions and the
    commands that resume them. \<open>ProcessAgents\<close> (\<open>detect/mod.rs\<close>): the agent that runs in a foreground job,
    seen through shells, runtimes and package paths. \<open>TerminalState\<close>, \<open>ManagedAgent\<close>, \<open>AgentMetadata\<close>,
    \<open>AgentReports\<close>, \<open>HookReports\<close> and \<open>AgentDetection\<close> (\<open>terminal/state.rs\<close>, \<open>terminal/metadata.rs\<close>,
    \<open>terminal/title.rs\<close>, \<open>metadata_tokens.rs\<close>): the state of a terminal and every operation on it.
    \<open>TerminalInv\<close> shows what each keeps, \<open>TerminalRuns\<close> runs them as a machine and shows that the shown
    state is always the arbitrated one and which reports are taken; \<open>TerminalChanges\<close> shows that the changes
    the operations report are those of the shown state; \<open>TerminalExit\<close> shows that an agent that
    has exited stays hidden and that metadata expires. \<open>HashMaps\<close>: hash maps that are iterated.
  \<^item> \<open>KittyKeyboard\<close> (\<open>pane/kitty_keyboard.rs\<close>): the tracker of keyboard modes; output may be cut anywhere and
    what is replayed restores the tracker. \<open>RenderSignal\<close> (\<open>render_signal.rs\<close>): the signal between readers
    and the renderer, as atomic steps, against the set of requests since the last take.
  \<^item> \<open>EndpointCatalog\<close> (\<open>client/endpoint.rs\<close>, \<open>client/endpoint/catalog.rs\<close>): the saved machines of a client and
    what validation promises. \<open>EndpointRegistry\<close> (\<open>health.rs\<close> and \<open>registry.rs\<close> beside it) and
    \<open>EndpointRegistryRuns\<close>: the connections; each transport is closed once and silent links expire.
    \<open>EndpointCommands\<close> (\<open>client/endpoint_commands.rs\<close>): lanes of requests; each request is answered, waiting or
    reported as cancelled, once. \<open>EndpointSupervisor\<close> and \<open>EndpointRetry\<close> (\<open>supervisor.rs\<close>): attempts, their
    generations and backoff. \<open>EndpointPolicy\<close> (\<open>message_policy.rs\<close>, the gate of \<open>client/mod.rs\<close>,
    \<open>remote/saved.rs\<close>, \<open>remote/restart_policy.rs\<close>): which messages pass and which failures are retried.
  \<^item> \<open>Surface\<close> (\<open>protocol/surface_delta.rs\<close>): changed rows of a grid. \<open>SurfaceDecode\<close>
    (\<open>protocol/surface_delta/decode.rs\<close>): the reader with its limits. \<open>SurfaceReuse\<close>
    (\<open>protocol/surface_reuse.rs\<close>): the decoder that keeps the last surface. The records of the wire are
    those of \<open>protocol/wire.rs\<close>.
  \<^item> \<open>InputLease\<close> (\<open>input/lease.rs\<close> and the key events of \<open>input/model.rs\<close>), \<open>Keys\<close> (\<open>input/model.rs\<close>),
    \<open>KeyParse\<close> (\<open>input/parse.rs\<close>) and \<open>KeyEncode\<close> (\<open>input/encode.rs\<close>): keys from the host terminal and for the
    program in a pane; \<open>KeyRoundTrip\<close> shows that what is written for a key is read back as that key.
  \<^item> \<open>Selection\<close> (\<open>selection.rs\<close>), \<open>Popup\<close> (\<open>popup_size.rs\<close>), \<open>AgentView\<close> (\<open>api/schema/agents.rs\<close>,
    \<open>app/agent_view.rs\<close>, \<open>agent_view_eval.rs\<close>).

  Conventions. Machine integers are words of their width and wrap around as release builds do, or are
  checked or saturating where the code says so; lengths and positions in a vector are natural numbers.
  \<open>Result\<close> is a sum with the error on the left. Where the code would panic, an operation has an
  additional \<open>None\<close> and a theorem says when it does not occur. Global counters are passed along and
  returned. An effect outside the state is a log that the operation extends: the transports closed (\<open>er_closed\<close>), the
  attempts spawned (\<open>sv_spawned\<close>), the terminals queued for shutdown. A hash map is a map; where the code iterates over one, it is an association list and
  the order of the walk is a parameter. \<open>Instant::now()\<close> is an argument: instants are nanoseconds (milliseconds for the
  endpoints, whose intervals are whole milliseconds), and no order is assumed between those that an operation reads.

  Parameters. Starting a terminal, the encoding of a snapshot as JSON, the primitive readers of the
  binary codec, the sizes it reports, ratatui's constructor of rectangles and, in
  \<open>InputLease\<close>, crossterm's key codes are not part of the repository, nor are the transport of an endpoint, a fresh profile id, Unicode lower-casing of a whole
  name and the file a path leads to; they are arguments of the definitions, as are the orders in which hash maps are
  walked, and the theorems that rely on
  them name the law they rely on (\<open>rect_new_law\<close>, the codec laws of \<open>SurfaceReuse\<close>). The witnesses
  instantiate them with concrete functions.

  Platform. Where the code differs by platform the Unix build is modelled.

  Bounds and fuel. The recursions are structural or have a measure; none needs fuel. Counters that may
  wrap around (pane identifiers of 32 bits, public numbers and event sequence numbers of 64 bits) are
  assumed not to be exhausted where a theorem depends on it, and the assumption is stated.

  Not modelled: the recognition of agents on screens, which matches regular expressions of a third-party
  crate and feeds \<open>AgentDetection\<close>; threads, sockets, child processes and files; the embedded terminal emulator, which
  is foreign code behind a C interface; drawing and the menus and overlays of the client; configuration
  files; the command line; the macOS application; the retired prototype. The manifest's components give
  the reason for each file.
\<close>

end
